(* ===== verification/Rule_Matching.thy ===== *)
theory Rule_Matching
  imports Prelude
begin

text \<open>
  Permission-rule path matching, \<open>shared/permissions/matching.py\<close>: how an authored
  \<open>(path, match_mode)\<close> pair is validated when it is saved and how it matches a request path
  when it is enforced. The regular expressions written in the module are modelled as the
  searches they denote; the engine that compiles and runs a user's own pattern is a
  parameter (\<open>regex_engine\<close>): \<open>re.compile\<close> as the error it raises, if any, and
  \<open>fullmatch\<close> as a predicate. \<open>matches\<close> asserts that the pattern or literal it needs is
  present; \<open>compile_matcher_well_formed\<close> shows the assertions hold of every compiled matcher.
\<close>

section \<open>Validation\<close>

record re_error =
  re_msg :: string
  re_pos :: "nat option"

record regex_engine =
  re_compile_error :: "string \<Rightarrow> re_error option"
  re_fullmatch :: "string \<Rightarrow> string \<Rightarrow> bool"

definition match_modes :: "string list" where
  "match_modes = [''regex'', ''prefix'', ''exact'']"

definition max_pattern_length :: nat where
  "max_pattern_length = 1000"

datatype path_validation_code =
  Invalid_Regex | Pattern_Too_Long | Empty_Path | Unknown_Mode | Unsafe_Regex

text \<open>The text of \<open>reason\<close>, up to the arguments its template is filled with.\<close>

datatype path_validation_reason =
    Reason_Unknown_Mode string "string list"
  | Reason_Too_Long nat
  | Reason_Empty
  | Reason_Invalid_Regex_At string nat
  | Reason_Invalid_Regex string
  | Reason_Nested_Quantifiers

record path_validation_error =
  error_code :: path_validation_code
  error_reason :: path_validation_reason

text \<open>
  \<open>_REDOS_CATASTROPHIC_RE.search\<close>, i.e. \<open>[+*][^)]*\)\s*[+*?]\<close>: after the first quantifier the
  closing parenthesis is the next one in the text, so no choice is left to the engine.
\<close>

definition is_quantifier :: "char \<Rightarrow> bool" where
  "is_quantifier c = (c = CHR ''+'' \<or> c = CHR ''*'')"

definition is_requantifier :: "char \<Rightarrow> bool" where
  "is_requantifier c = (is_quantifier c \<or> c = CHR ''?'')"

definition closes_requantified :: "string \<Rightarrow> bool" where
  "closes_requantified s =
     (case dropWhile (\<lambda>c. c \<noteq> CHR '')'') s of
        [] \<Rightarrow> False
      | _ # rest \<Rightarrow> (case dropWhile is_space rest of [] \<Rightarrow> False | q # _ \<Rightarrow> is_requantifier q))"

fun redos_search :: "string \<Rightarrow> bool" where
  "redos_search [] = False"
| "redos_search (c # s) = (is_quantifier c \<and> closes_requantified s \<or> redos_search s)"

definition validation_error :: "path_validation_code \<Rightarrow> path_validation_reason \<Rightarrow> path_validation_error" where
  "validation_error code reason = \<lparr>error_code = code, error_reason = reason\<rparr>"

definition check_path :: "regex_engine \<Rightarrow> string option \<Rightarrow> string \<Rightarrow> path_validation_error option" where
  "check_path E path mode =
     (case path of
        None \<Rightarrow> None
      | Some p \<Rightarrow>
          if mode \<notin> set match_modes then
            Some (validation_error Unknown_Mode (Reason_Unknown_Mode mode match_modes))
          else if max_pattern_length < length p then
            Some (validation_error Pattern_Too_Long (Reason_Too_Long max_pattern_length))
          else if p = [] then
            Some (validation_error Empty_Path Reason_Empty)
          else if mode = ''regex'' then
            (case re_compile_error E p of
               Some exc \<Rightarrow>
                 Some (validation_error Invalid_Regex
                   (case re_pos exc of
                      Some pos \<Rightarrow> Reason_Invalid_Regex_At (re_msg exc) pos
                    | None \<Rightarrow> Reason_Invalid_Regex (re_msg exc)))
             | None \<Rightarrow>
                 if redos_search p then Some (validation_error Unsafe_Regex Reason_Nested_Quantifiers)
                 else None)
          else None)"

definition validate_path :: "regex_engine \<Rightarrow> string option \<Rightarrow> string \<Rightarrow> path_validation_error option" where
  "validate_path E path mode = check_path E path mode"

section \<open>Placeholders\<close>

text \<open>
  \<open>_PLACEHOLDER_RE\<close>, i.e. \<open>\{[^}/]+\}\<close>: \<open>placeholder_at s\<close> is the rest after a placeholder
  that starts \<open>s\<close>.
\<close>

definition placeholder_char :: "char \<Rightarrow> bool" where
  "placeholder_char c = (c \<noteq> CHR ''}'' \<and> c \<noteq> CHR ''/'')"

definition placeholder_at :: "string \<Rightarrow> string option" where
  "placeholder_at s =
     (case s of
        [] \<Rightarrow> None
      | c # rest \<Rightarrow>
          if c \<noteq> CHR ''{'' \<or> takeWhile placeholder_char rest = [] then None
          else (case dropWhile placeholder_char rest of
                  [] \<Rightarrow> None
                | d # after \<Rightarrow> if d = CHR ''}'' then Some after else None))"

lemma placeholder_at_shape:
  "placeholder_at s = Some r \<Longrightarrow>
     \<exists>name. s = CHR ''{'' # name @ CHR ''}'' # r \<and> name \<noteq> [] \<and> list_all placeholder_char name"
proof -
  assume s: "placeholder_at s = Some r"
  then obtain rest where c: "s = CHR ''{'' # rest" "takeWhile placeholder_char rest \<noteq> []"
    by (auto simp: placeholder_at_def split: list.splits if_splits)
  with s have "dropWhile placeholder_char rest = CHR ''}'' # r"
    by (auto simp: placeholder_at_def split: list.splits if_splits)
  then have "rest = takeWhile placeholder_char rest @ CHR ''}'' # r"
    by (metis takeWhile_dropWhile_id)
  moreover have "list_all placeholder_char (takeWhile placeholder_char rest)"
    by (auto simp: list_all_iff dest: set_takeWhileD)
  ultimately show ?thesis using c by blast
qed

lemma placeholder_at_shorter: "placeholder_at s = Some r \<Longrightarrow> length r < length s"
  by (drule placeholder_at_shape) auto

text \<open>\<open>_PLACEHOLDER_RE.split(path)\<close>: one literal more than there are placeholders.\<close>

function split_placeholders :: "string \<Rightarrow> string list" where
  "split_placeholders [] = [[]]"
| "split_placeholders (c # s) =
     (case placeholder_at (c # s) of
        Some after \<Rightarrow> [] # split_placeholders after
      | None \<Rightarrow> (case split_placeholders s of [] \<Rightarrow> [[c]] | p # ps \<Rightarrow> (c # p) # ps))"
  by pat_completeness auto
termination
  by (relation "measure length") (auto dest: placeholder_at_shorter)

fun search_placeholder :: "string \<Rightarrow> bool" where
  "search_placeholder [] = False"
| "search_placeholder (c # s) = (placeholder_at (c # s) \<noteq> None \<or> search_placeholder s)"

definition has_placeholders :: "string \<Rightarrow> bool" where
  "has_placeholders path = (CHR ''{'' \<in> set path \<and> search_placeholder path)"

section \<open>Matchers\<close>

text \<open>
  A compiled pattern: a user's regular expression, or the expression that
  \<open>_template_path_to_regex\<close> builds, as its literals with one \<open>[^/]+\<close> between neighbours.
\<close>

datatype pattern = User_Regex string | Template "string list"

definition template_path_to_regex :: "string \<Rightarrow> pattern" where
  "template_path_to_regex path = Template (split_placeholders path)"

text \<open>
  Running a template: a literal, then for a wildcard every length the engine may try, up to
  the next slash. \<open>whole\<close> distinguishes \<open>fullmatch\<close> from the start-anchored \<open>match\<close>.
\<close>

fun run_template :: "bool \<Rightarrow> string list \<Rightarrow> string \<Rightarrow> bool" where
  "run_template whole [] s = (\<not> whole \<or> s = [])"
| "run_template whole [lit] s = (if whole then s = lit else prefix lit s)"
| "run_template whole (lit # lit2 # lits) s =
     (prefix lit s \<and>
      (let rest = drop (length lit) s in
       list_ex (\<lambda>n. run_template whole (lit2 # lits) (drop n rest))
         [1..<Suc (length (takeWhile (\<lambda>c. c \<noteq> CHR ''/'') rest))]))"

definition pattern_fullmatch :: "regex_engine \<Rightarrow> pattern \<Rightarrow> string \<Rightarrow> bool" where
  "pattern_fullmatch E p s =
     (case p of User_Regex r \<Rightarrow> re_fullmatch E r s | Template lits \<Rightarrow> run_template True lits s)"

definition template_match :: "pattern \<Rightarrow> string \<Rightarrow> bool" where
  "template_match p s = (case p of User_Regex r \<Rightarrow> False | Template lits \<Rightarrow> run_template False lits s)"

record path_matcher =
  matcher_mode :: string
  matcher_literal :: "string option"
  matcher_pattern :: "pattern option"
  matcher_never :: bool

definition matcher_matches :: "regex_engine \<Rightarrow> path_matcher \<Rightarrow> string \<Rightarrow> bool" where
  "matcher_matches E m request_path =
     (if matcher_never m then False
      else if matcher_mode m = ''regex'' then
        (case matcher_pattern m of Some p \<Rightarrow> pattern_fullmatch E p request_path | None \<Rightarrow> False)
      else (case matcher_pattern m of
              Some p \<Rightarrow>
                if matcher_mode m = ''prefix'' then template_match p request_path
                else pattern_fullmatch E p request_path
            | None \<Rightarrow>
                (case matcher_literal m of
                   None \<Rightarrow> False
                 | Some lit \<Rightarrow>
                     if matcher_mode m = ''prefix'' then prefix lit request_path
                     else request_path = lit)))"

definition compile_matcher :: "regex_engine \<Rightarrow> string option \<Rightarrow> string \<Rightarrow> path_matcher option" where
  "compile_matcher E path mode =
     (case path of
        None \<Rightarrow> None
      | Some p \<Rightarrow>
          Some (if check_path E path mode \<noteq> None then
                  \<lparr>matcher_mode = ''regex'', matcher_literal = None, matcher_pattern = None,
                   matcher_never = True\<rparr>
                else if mode = ''regex'' then
                  \<lparr>matcher_mode = ''regex'', matcher_literal = None,
                   matcher_pattern = Some (User_Regex p), matcher_never = False\<rparr>
                else if has_placeholders p then
                  \<lparr>matcher_mode = mode, matcher_literal = Some p,
                   matcher_pattern = Some (template_path_to_regex p), matcher_never = False\<rparr>
                else
                  \<lparr>matcher_mode = mode, matcher_literal = Some p, matcher_pattern = None,
                   matcher_never = False\<rparr>))"

section \<open>What a template matches\<close>

text \<open>
  The language of a template, independent of how the engine searches: the literals in order,
  with one non-empty text without a slash between neighbours.
\<close>

inductive template_instance :: "string list \<Rightarrow> string \<Rightarrow> bool" where
  last_literal: "template_instance [lit] lit"
| wildcard: "template_instance (lit2 # lits) t \<Longrightarrow> w \<noteq> [] \<Longrightarrow> CHR ''/'' \<notin> set w \<Longrightarrow>
    template_instance (lit # lit2 # lits) (lit @ w @ t)"

inductive_cases template_instance_two: "template_instance (lit # lit2 # lits) s"
inductive_cases template_instance_one: "template_instance [lit] s"
inductive_cases template_instance_none: "template_instance [] s"

lemma template_instance_one_iff [simp]: "template_instance [lit] s \<longleftrightarrow> s = lit"
  by (auto elim: template_instance_one intro: last_literal)

lemma wildcard_lengths:
  "n \<in> set [1..<Suc (length (takeWhile (\<lambda>c. c \<noteq> d) s))] \<longleftrightarrow>
     n \<le> length s \<and> take n s \<noteq> [] \<and> d \<notin> set (take n s)"
proof
  assume n: "n \<in> set [1..<Suc (length (takeWhile (\<lambda>c. c \<noteq> d) s))]"
  then have "n \<le> length (takeWhile (\<lambda>c. c \<noteq> d) s)" by auto
  then have "take n s = take n (takeWhile (\<lambda>c. c \<noteq> d) s)"
    by (metis takeWhile_eq_take take_take min.absorb1)
  then have "d \<notin> set (take n s)" by (auto dest: in_set_takeD set_takeWhileD)
  moreover have "n \<le> length s"
    using n length_takeWhile_le [of "\<lambda>c. c \<noteq> d" s] by auto
  ultimately show "n \<le> length s \<and> take n s \<noteq> [] \<and> d \<notin> set (take n s)" using n by auto
next
  assume n: "n \<le> length s \<and> take n s \<noteq> [] \<and> d \<notin> set (take n s)"
  then have "takeWhile (\<lambda>c. c \<noteq> d) s = take n s @ takeWhile (\<lambda>c. c \<noteq> d) (drop n s)"
    by (metis (mono_tags, lifting) append_take_drop_id takeWhile_append2)
  with n have "n \<le> length (takeWhile (\<lambda>c. c \<noteq> d) s)" by simp
  with n show "n \<in> set [1..<Suc (length (takeWhile (\<lambda>c. c \<noteq> d) s))]" by (cases n) auto
qed

lemma run_template_step:
  "run_template whole (lit # lit2 # lits) s \<longleftrightarrow>
     (\<exists>w t. s = lit @ w @ t \<and> w \<noteq> [] \<and> CHR ''/'' \<notin> set w \<and> run_template whole (lit2 # lits) t)"
proof -
  have "list_ex (\<lambda>n. run_template whole (lit2 # lits) (drop n r))
      [1..<Suc (length (takeWhile (\<lambda>c. c \<noteq> CHR ''/'') r))]
    \<longleftrightarrow> (\<exists>w t. r = w @ t \<and> w \<noteq> [] \<and> CHR ''/'' \<notin> set w \<and> run_template whole (lit2 # lits) t)"
    (is "?runs r \<longleftrightarrow> ?splits r") for r
  proof
    assume "?runs r"
    then obtain n where "n \<in> set [1..<Suc (length (takeWhile (\<lambda>c. c \<noteq> CHR ''/'') r))]"
      "run_template whole (lit2 # lits) (drop n r)" unfolding list_ex_iff by blast
    then show "?splits r" unfolding wildcard_lengths
      by (intro exI [of _ "take n r"] exI [of _ "drop n r"]) simp
  next
    assume "?splits r"
    then obtain w t where wt: "r = w @ t" "w \<noteq> []" "CHR ''/'' \<notin> set w"
      "run_template whole (lit2 # lits) t" by blast
    then have "length w \<in> set [1..<Suc (length (takeWhile (\<lambda>c. c \<noteq> CHR ''/'') r))]"
      unfolding wildcard_lengths by simp
    with wt show "?runs r" unfolding list_ex_iff by (intro bexI [of _ "length w"]) simp_all
  qed
  then have step: "run_template whole (lit # lit2 # lits) s \<longleftrightarrow> prefix lit s \<and>
      (\<exists>w t. drop (length lit) s = w @ t \<and> w \<noteq> [] \<and> CHR ''/'' \<notin> set w
        \<and> run_template whole (lit2 # lits) t)"
    by (simp only: run_template.simps Let_def)
  show ?thesis unfolding step prefix_def by (auto, blast+)
qed

lemma run_template_iff:
  "lits \<noteq> [] \<Longrightarrow> run_template whole lits s \<longleftrightarrow>
     (\<exists>a b. s = a @ b \<and> (whole \<longrightarrow> b = []) \<and> template_instance lits a)"
proof (induction lits arbitrary: s)
  case Nil
  then show ?case by simp
next
  case (Cons lit lits)
  show ?case
  proof (cases lits)
    case Nil
    then show ?thesis by (auto simp: prefix_def)
  next
    case lits: (Cons lit2 lits')
    have "run_template whole (lit # lits) s \<longleftrightarrow>
        (\<exists>w t. s = lit @ w @ t \<and> w \<noteq> [] \<and> CHR ''/'' \<notin> set w
           \<and> (\<exists>a b. t = a @ b \<and> (whole \<longrightarrow> b = []) \<and> template_instance lits a))"
      unfolding lits run_template_step using Cons.IH lits by simp
    also have "\<dots> \<longleftrightarrow> (\<exists>a b. s = a @ b \<and> (whole \<longrightarrow> b = []) \<and> template_instance (lit # lits) a)"
    proof (intro iffI; elim exE conjE)
      fix w t a b
      assume "s = lit @ w @ t" "w \<noteq> []" "CHR ''/'' \<notin> set w" "t = a @ b" "whole \<longrightarrow> b = []"
        and a: "template_instance lits a"
      moreover from a have "template_instance (lit # lits) (lit @ w @ a)"
        unfolding lits using \<open>w \<noteq> []\<close> \<open>CHR ''/'' \<notin> set w\<close> by (rule wildcard)
      ultimately show "\<exists>a b. s = a @ b \<and> (whole \<longrightarrow> b = []) \<and> template_instance (lit # lits) a"
        by (intro exI [of _ "lit @ w @ a"] exI [of _ b]) simp
    next
      fix a b
      assume s: "s = a @ b" "whole \<longrightarrow> b = []" and "template_instance (lit # lits) a"
      then obtain w t where "a = lit @ w @ t" "w \<noteq> []" "CHR ''/'' \<notin> set w" "template_instance lits t"
        unfolding lits by (auto elim: template_instance_two)
      with s show "\<exists>w t. s = lit @ w @ t \<and> w \<noteq> [] \<and> CHR ''/'' \<notin> set w
          \<and> (\<exists>a b. t = a @ b \<and> (whole \<longrightarrow> b = []) \<and> template_instance lits a)"
        by (intro exI [of _ w] exI [of _ "t @ b"]) auto
    qed
    finally show ?thesis .
  qed
qed

lemma split_placeholders_not_Nil [simp]: "split_placeholders s \<noteq> []"
  by (induction s rule: split_placeholders.induct) (auto split: option.splits list.splits)

lemma split_placeholders_none: "\<not> search_placeholder s \<Longrightarrow> split_placeholders s = [s]"
  by (induction s) auto

lemma search_placeholder_brace: "search_placeholder s \<Longrightarrow> CHR ''{'' \<in> set s"
  by (induction s) (auto dest: placeholder_at_shape)

lemma no_placeholders: "\<not> has_placeholders p \<Longrightarrow> split_placeholders p = [p]"
  using search_placeholder_brace split_placeholders_none by (auto simp: has_placeholders_def)

lemma split_on_length: "length (split_on c s) = Suc (count_list s c)"
  by (induction s) (auto split: list.splits)

lemma template_instance_slashes:
  "template_instance lits s \<Longrightarrow>
     count_list s (CHR ''/'') = sum_list (map (\<lambda>l. count_list l (CHR ''/'')) lits)"
  by (induction rule: template_instance.induct) (auto simp: count_notin)

lemma split_placeholders_slashes:
  "sum_list (map (\<lambda>l. count_list l (CHR ''/'')) (split_placeholders p)) = count_list p (CHR ''/'')"
proof (induction p rule: split_placeholders.induct)
  case 1
  then show ?case by simp
next
  case (2 c s)
  show ?case
  proof (cases "placeholder_at (c # s)")
    case (Some r)
    then obtain name where "c # s = CHR ''{'' # name @ CHR ''}'' # r" "list_all placeholder_char name"
      using placeholder_at_shape by blast
    moreover from this have "count_list name (CHR ''/'') = 0"
      by (auto simp: list_all_iff placeholder_char_def count_list_0_iff)
    ultimately have "count_list (c # s) (CHR ''/'') = count_list r (CHR ''/'')"
      by (simp only: count_list_append count_list.simps) simp
    with 2 Some show ?thesis by simp
  next
    case None
    with 2 show ?thesis by (cases "split_placeholders s") auto
  qed
qed

lemma template_language:
  "run_template True (split_placeholders p) s \<longleftrightarrow> template_instance (split_placeholders p) s"
  "run_template False (split_placeholders p) s \<longleftrightarrow>
     (\<exists>a b. s = a @ b \<and> template_instance (split_placeholders p) a)"
  by (simp_all add: run_template_iff)

section \<open>Enforcement\<close>

text \<open>The two assertions in \<open>matches\<close>.\<close>

definition matcher_well_formed :: "path_matcher \<Rightarrow> bool" where
  "matcher_well_formed m =
     (matcher_never m \<or>
      (if matcher_mode m = ''regex'' then matcher_pattern m \<noteq> None
       else matcher_pattern m \<noteq> None \<or> matcher_literal m \<noteq> None))"

lemma compile_matcher_well_formed:
  "compile_matcher E path mode = Some m \<Longrightarrow> matcher_well_formed m"
  by (auto simp: compile_matcher_def matcher_well_formed_def split: option.splits if_splits)

lemma compile_matcher_never:
  "compile_matcher E path mode = Some m \<Longrightarrow> matcher_never m \<longleftrightarrow> validate_path E path mode \<noteq> None"
  by (auto simp: compile_matcher_def validate_path_def split: option.splits if_splits)

lemma valid_mode:
  "check_path E (Some p) mode = None \<Longrightarrow> mode = ''regex'' \<or> mode = ''prefix'' \<or> mode = ''exact''"
  by (auto simp: check_path_def match_modes_def split: if_splits)

text \<open>
  C32: what a stored rule path admits. A pair that validation would refuse (a legacy row)
  admits nothing; a regular expression admits what it matches in full; a prefix path admits
  the extensions of an instance of its template, and an exact path its instances, where a
  path without placeholders has itself as its only instance.
\<close>

theorem compile_matcher_semantics:
  "case compile_matcher E path mode of
     None \<Rightarrow> path = None
   | Some m \<Rightarrow>
       (\<exists>p. path = Some p \<and>
          (matcher_matches E m request \<longleftrightarrow>
             validate_path E path mode = None \<and>
             (if mode = ''regex'' then re_fullmatch E p request
              else if mode = ''prefix'' then
                \<exists>a b. request = a @ b \<and> template_instance (split_placeholders p) a
              else template_instance (split_placeholders p) request)))"
proof (cases path)
  case None
  then show ?thesis by (simp add: compile_matcher_def)
next
  case (Some p)
  show ?thesis
  proof (cases "check_path E path mode")
    case err: (Some e)
    then show ?thesis
      by (simp add: Some compile_matcher_def matcher_matches_def validate_path_def)
  next
    case None
    from valid_mode [OF None [unfolded Some]] show ?thesis
      using None by (auto simp: Some compile_matcher_def matcher_matches_def validate_path_def
          pattern_fullmatch_def template_match_def template_path_to_regex_def template_language
          no_placeholders prefix_def)
  qed
qed

text \<open>
  A placeholder stands for text inside one segment: an exact path admits only requests
  with as many segments as it has itself, so \<open>/repos/{owner}\<close> never admits
  \<open>/repos/a/b\<close>.
\<close>

theorem exact_path_same_depth:
  assumes "compile_matcher E (Some p) ''exact'' = Some m" and "matcher_matches E m request"
  shows "length (split_on (CHR ''/'') request) = length (split_on (CHR ''/'') p)"
proof -
  have "template_instance (split_placeholders p) request"
    using assms by (auto simp: compile_matcher_def matcher_matches_def pattern_fullmatch_def
        template_path_to_regex_def template_language no_placeholders split: if_splits)
  then show ?thesis
    using template_instance_slashes split_placeholders_slashes by (simp add: split_on_length)
qed

definition demo_engine :: regex_engine where
  "demo_engine = \<lparr>re_compile_error = (\<lambda>p. None), re_fullmatch = (\<lambda>p s. p = s)\<rparr>"

theorem exact_path_same_depth_witness:
  "\<exists>m. compile_matcher demo_engine (Some ''/repos/{owner}/x'') ''exact'' = Some m \<and>
     matcher_matches demo_engine m ''/repos/me/x'' \<and>
     \<not> matcher_matches demo_engine m ''/repos/a/b/x'' \<and>
     length (split_on (CHR ''/'') ''/repos/me/x'') = length (split_on (CHR ''/'') ''/repos/{owner}/x'')"
proof -
  let ?m = "\<lparr>matcher_mode = ''exact'', matcher_literal = Some ''/repos/{owner}/x'',
    matcher_pattern = Some (Template [''/repos/'', ''/x'']), matcher_never = False\<rparr>"
  have m: "compile_matcher demo_engine (Some ''/repos/{owner}/x'') ''exact'' = Some ?m" by code_simp
  moreover have a: "matcher_matches demo_engine ?m ''/repos/me/x''" by code_simp
  moreover have "\<not> matcher_matches demo_engine ?m ''/repos/a/b/x''" by code_simp
  ultimately show ?thesis using exact_path_same_depth [OF m a] by blast
qed

section \<open>Unsafe regular expressions\<close>

lemma dropWhile_until:
  "dropWhile P s = c # r \<longleftrightarrow> (\<exists>b. s = b @ c # r \<and> (\<forall>x\<in>set b. P x) \<and> \<not> P c)"
proof
  assume "dropWhile P s = c # r"
  moreover have "s = takeWhile P s @ dropWhile P s" by simp
  ultimately show "\<exists>b. s = b @ c # r \<and> (\<forall>x\<in>set b. P x) \<and> \<not> P c"
    by (metis hd_dropWhile list.discI list.sel(1) set_takeWhileD)
next
  assume "\<exists>b. s = b @ c # r \<and> (\<forall>x\<in>set b. P x) \<and> \<not> P c"
  then show "dropWhile P s = c # r" by (auto simp: dropWhile_append2)
qed

lemma nested_case_iff:
  "(case d of [] \<Rightarrow> False | _ # r \<Rightarrow> (case f r of [] \<Rightarrow> False | q # _ \<Rightarrow> P q)) \<longleftrightarrow>
     (\<exists>c r q z. d = c # r \<and> f r = q # z \<and> P q)"
  by (cases d; cases "f (tl d)") simp_all

lemma closes_requantified_iff:
  "closes_requantified s \<longleftrightarrow>
     (\<exists>b sp q z. s = b @ CHR '')'' # sp @ q # z \<and> CHR '')'' \<notin> set b \<and> list_all is_space sp
        \<and> is_requantifier q)"
proof -
  have q: "is_requantifier x \<Longrightarrow> \<not> is_space x" for x
    by (auto simp: is_requantifier_def is_quantifier_def is_space_def char_code_def)
  have "closes_requantified s \<longleftrightarrow>
      (\<exists>c r q z. dropWhile (\<lambda>c. c \<noteq> CHR '')'') s = c # r \<and> dropWhile is_space r = q # z
         \<and> is_requantifier q)"
    unfolding closes_requantified_def by (rule nested_case_iff)
  also have "\<dots> \<longleftrightarrow> (\<exists>b sp q z. s = b @ CHR '')'' # sp @ q # z \<and> CHR '')'' \<notin> set b
      \<and> list_all is_space sp \<and> is_requantifier q)"
    (is "?scan \<longleftrightarrow> ?parts")
  proof
    assume ?scan
    then obtain c r q z where d: "dropWhile (\<lambda>c. c \<noteq> CHR '')'') s = c # r"
      and e: "dropWhile is_space r = q # z" and "is_requantifier q" by blast
    from d [unfolded dropWhile_until] obtain b where "s = b @ c # r" "\<forall>x\<in>set b. x \<noteq> CHR '')''"
      "c = CHR '')''" by blast
    moreover from e [unfolded dropWhile_until] obtain sp where "r = sp @ q # z"
      "\<forall>x\<in>set sp. is_space x" by blast
    ultimately have "s = b @ CHR '')'' # sp @ q # z" "CHR '')'' \<notin> set b" "list_all is_space sp"
      by (auto simp: list_all_iff)
    with \<open>is_requantifier q\<close> show ?parts by blast
  next
    assume ?parts
    then obtain b sp q z where s: "s = b @ CHR '')'' # sp @ q # z" "CHR '')'' \<notin> set b"
      "list_all is_space sp" "is_requantifier q" by blast
    then have "dropWhile (\<lambda>c. c \<noteq> CHR '')'') s = CHR '')'' # sp @ q # z"
      unfolding dropWhile_until by (intro exI [of _ b]) auto
    moreover have "dropWhile is_space (sp @ q # z) = q # z"
      unfolding dropWhile_until using s q by (intro exI [of _ sp]) (auto simp: list_all_iff)
    ultimately show ?scan using s(4) by blast
  qed
  finally show ?thesis .
qed

lemma redos_search_iff:
  "redos_search p \<longleftrightarrow> (\<exists>a q s. p = a @ q # s \<and> is_quantifier q \<and> closes_requantified s)"
proof (induction p)
  case (Cons c p)
  have "(\<exists>a q s. c # p = a @ q # s \<and> is_quantifier q \<and> closes_requantified s) \<longleftrightarrow>
      is_quantifier c \<and> closes_requantified p
      \<or> (\<exists>a q s. p = a @ q # s \<and> is_quantifier q \<and> closes_requantified s)"
    by (auto simp: Cons_eq_append_conv)
  with Cons show ?case by simp
qed simp

text \<open>
  What an authored rule path must satisfy to be saved: a known mode, one to 1000
  characters, and for a regular expression that it compiles and has no unbounded quantifier
  inside a group that is itself quantified, wherever the group stands.
\<close>

theorem validate_path_accepts:
  "validate_path E (Some p) mode = None \<longleftrightarrow>
     mode \<in> {''regex'', ''prefix'', ''exact''} \<and> p \<noteq> [] \<and> length p \<le> 1000 \<and>
     (if mode = ''regex'' then
        re_compile_error E p = None \<and>
        (\<nexists>a x b sp y z. p = a @ x # b @ CHR '')'' # sp @ y # z \<and> is_quantifier x \<and>
           CHR '')'' \<notin> set b \<and> list_all is_space sp \<and> is_requantifier y)
      else True)"
proof -
  have r: "(\<exists>a x b sp y z. p = a @ x # b @ CHR '')'' # sp @ y # z \<and> is_quantifier x \<and>
      CHR '')'' \<notin> set b \<and> list_all is_space sp \<and> is_requantifier y) = redos_search p"
    unfolding redos_search_iff closes_requantified_iff by blast
  show ?thesis
    unfolding r
    by (auto simp: validate_path_def check_path_def match_modes_def max_pattern_length_def
        split: option.splits)
qed

end
