(* ===== verification/Url_Path.thy ===== *)
theory Url_Path
  imports Prelude
begin

text \<open>
  The canonical URL path of \<open>shared/url_path.py\<close>, shared by operation discovery and rule
  enforcement: one pass of percent-decoding that keeps the separators and the percent sign
  encoded, dot-segment resolution, and the test for a traversal that different upstream
  stacks read differently. A path is a \<open>string\<close> of code points below 256; decoding yields
  \<open>chr(0)\<close> to \<open>chr(255)\<close> only, so no other code point arises.
\<close>

section \<open>Percent escapes\<close>

definition hex_val :: "char \<Rightarrow> nat option" where
  "hex_val c = (let n = char_code c in
     if 48 \<le> n \<and> n \<le> 57 then Some (n - 48)
     else if 65 \<le> n \<and> n \<le> 70 then Some (n - 55)
     else if 97 \<le> n \<and> n \<le> 102 then Some (n - 87)
     else None)"

abbreviation is_hex :: "char \<Rightarrow> bool" where
  "is_hex c \<equiv> hex_val c \<noteq> None"

definition escaped_char :: "char \<Rightarrow> char \<Rightarrow> char" where
  "escaped_char h l = char_of (16 * the (hex_val h) + the (hex_val l))"

definition kept_encoded :: "string set" where
  "kept_encoded = {''%2F'', ''%5C'', ''%25''}"

text \<open>
  \<open>_decode_once\<close>: the regex \<open>%[0-9A-Fa-f]{2}\<close> is substituted left to right without
  overlaps; \<open>_replace\<close> is the two branches of the inner conditional.
\<close>

fun decode_once :: "string \<Rightarrow> string" where
  "decode_once (c # h # l # rest) =
     (if c = CHR ''%'' \<and> is_hex h \<and> is_hex l then
        (let encoded = str_upper [c, h, l] in
          (if encoded \<in> kept_encoded then encoded else [escaped_char h l]) @ decode_once rest)
      else c # decode_once (h # l # rest))"
| "decode_once s = s"

section \<open>Dot segments\<close>

text \<open>The loop of \<open>_resolve_dot_segments\<close>; \<open>output\<close> is kept reversed.\<close>

fun resolve_segments :: "string list \<Rightarrow> string list \<Rightarrow> string list" where
  "resolve_segments output [] = rev output"
| "resolve_segments output (seg # segs) =
     (if seg = ''.'' then resolve_segments output segs
      else if seg = ''..'' then resolve_segments (tl output) segs
      else resolve_segments (seg # output) segs)"

definition slash_headed :: "string \<Rightarrow> bool" where
  "slash_headed s = prefix ''/'' s"

definition resolve_dot_segments :: "string \<Rightarrow> string" where
  "resolve_dot_segments path =
     (let resolved = join_with (CHR ''/'') (resolve_segments [] (split_on (CHR ''/'') path)) in
      if slash_headed path \<and> \<not> slash_headed resolved then CHR ''/'' # resolved else resolved)"

definition normalize_path :: "string \<Rightarrow> string" where
  "normalize_path path =
     (let resolved = resolve_dot_segments (decode_once path);
          rooted = (if resolved \<noteq> [] \<and> \<not> slash_headed resolved then CHR ''/'' # resolved
                    else resolved);
          trimmed = rstrip_char (CHR ''/'') rooted
      in if trimmed = [] then ''/'' else trimmed)"

section \<open>Ambiguous traversals\<close>

text \<open>
  \<open>urllib.parse.unquote\<close> decodes every escape. It decodes the bytes as UTF-8; a segment is
  only compared with \<open>.\<close> and \<open>..\<close>, which a byte-wise decoding equals exactly when the
  UTF-8 one does.
\<close>

fun unquote :: "string \<Rightarrow> string" where
  "unquote (c # h # l # rest) =
     (if c = CHR ''%'' \<and> is_hex h \<and> is_hex l then escaped_char h l # unquote rest
      else c # unquote (h # l # rest))"
| "unquote s = s"

definition is_separator_escape :: "char \<Rightarrow> char \<Rightarrow> char \<Rightarrow> bool" where
  "is_separator_escape c h l =
     (c = CHR ''%'' \<and> ((h = CHR ''2'' \<and> (l = CHR ''F'' \<or> l = CHR ''f''))
                     \<or> (h = CHR ''5'' \<and> (l = CHR ''C'' \<or> l = CHR ''c''))))"

text \<open>\<open>re.search(r"%2[Ff]|%5[Cc]|\\", path)\<close>.\<close>

fun has_ambiguous_separator :: "string \<Rightarrow> bool" where
  "has_ambiguous_separator (c # h # l # rest) =
     (c = CHR 0x5C \<or> is_separator_escape c h l \<or> has_ambiguous_separator (h # l # rest))"
| "has_ambiguous_separator s = (CHR 0x5C \<in> set s)"

text \<open>\<open>_SEPARATOR_RE.split(path)\<close> for \<open>/|\\|%2[Ff]|%5[Cc]\<close>.\<close>

definition push_char :: "char \<Rightarrow> string list \<Rightarrow> string list" where
  "push_char c parts = (case parts of [] \<Rightarrow> [[c]] | p # ps \<Rightarrow> (c # p) # ps)"

fun split_separators :: "string \<Rightarrow> string list" where
  "split_separators [] = [[]]"
| "split_separators (c # s) =
     (if c = CHR ''/'' \<or> c = CHR 0x5C then [] # split_separators s
      else (case s of
              h # l # rest \<Rightarrow>
                (if is_separator_escape c h l then [] # split_separators rest
                 else push_char c (split_separators s))
            | _ \<Rightarrow> push_char c (split_separators s)))"

definition is_dot_segment :: "string \<Rightarrow> bool" where
  "is_dot_segment s = (s = ''.'' \<or> s = ''..'')"

definition has_ambiguous_traversal :: "string \<Rightarrow> bool" where
  "has_ambiguous_traversal path =
     (if CHR ''%'' \<notin> set path \<and> CHR 0x5C \<notin> set path then False
      else list_ex (\<lambda>segment. let decoded = unquote segment in
             is_dot_segment decoded \<and> (has_ambiguous_separator path \<or> segment \<noteq> decoded))
           (split_separators path))"

section \<open>Escapes and the characters they stand for\<close>

definition hex_digit :: "nat \<Rightarrow> char" where
  "hex_digit v = char_of (if v < 10 then v + 48 else v + 55)"

lemma hex_val_bound: "hex_val c = Some v \<Longrightarrow> v < 16"
  by (auto simp: hex_val_def Let_def split: if_splits)

lemma upper_hex: "hex_val c = Some v \<Longrightarrow> upper_char c = hex_digit v"
proof -
  assume v: "hex_val c = Some v"
  have c: "c = char_of (char_code c)" by (simp add: char_code_def)
  from v show ?thesis
    by (auto simp: hex_val_def upper_char_def hex_digit_def Let_def c [symmetric]
        split: if_splits)
qed

lemma hex_digit_inj: "v < 16 \<Longrightarrow> w < 16 \<Longrightarrow> hex_digit v = hex_digit w \<longleftrightarrow> v = w"
proof -
  assume vw: "v < 16" "w < 16"
  have "char_code (hex_digit v) = (if v < 10 then v + 48 else v + 55)" if "v < 16" for v
    using that by (simp add: hex_digit_def char_code_char_of)
  with vw have "hex_digit v = hex_digit w \<Longrightarrow>
      (if v < 10 then v + 48 else v + 55) = (if w < 10 then w + 48 else w + 55)"
    by metis
  then show ?thesis by (auto split: if_splits)
qed

lemma char_of_less: "n < 256 \<Longrightarrow> char_of n = c \<longleftrightarrow> n = char_code c"
  by (metis char_code_char_of char_code_def char_of_char)

lemma escape_two_digits:
  assumes "is_hex h" and "is_hex l"
  obtains a b where "a < 16" "b < 16" "hex_val h = Some a" "hex_val l = Some b"
    "escaped_char h l = char_of (16 * a + b)"
    "str_upper [CHR ''%'', h, l] = [CHR ''%'', hex_digit a, hex_digit b]"
proof -
  from assms obtain a b where "hex_val h = Some a" "hex_val l = Some b" by auto
  moreover have "upper_char (CHR ''%'') = CHR ''%''"
    by (simp add: upper_char_def char_code_def)
  ultimately show thesis
    by (intro that [of a b])
      (auto simp: hex_val_bound escaped_char_def str_upper_def upper_hex)
qed

lemma kept_iff:
  assumes "is_hex h" and "is_hex l"
  shows "str_upper [CHR ''%'', h, l] \<in> kept_encoded
    \<longleftrightarrow> escaped_char h l \<in> {CHR ''/'', CHR 0x5C, CHR ''%''}"
proof -
  obtain a b where ab: "a < 16" "b < 16" and e: "escaped_char h l = char_of (16 * a + b)"
    and u: "str_upper [CHR ''%'', h, l] = [CHR ''%'', hex_digit a, hex_digit b]"
    using assms by (rule escape_two_digits)
  have d: "CHR ''2'' = hex_digit 2" "CHR ''F'' = hex_digit 15" "CHR ''5'' = hex_digit 5"
    "CHR ''C'' = hex_digit 12" by (simp_all add: hex_digit_def char_of_def bit_0)
  have "str_upper [CHR ''%'', h, l] \<in> kept_encoded
      \<longleftrightarrow> (a = 2 \<and> b = 15) \<or> (a = 5 \<and> b = 12) \<or> (a = 2 \<and> b = 5)"
    using ab by (auto simp: u kept_encoded_def d hex_digit_inj)
  also have "\<dots> \<longleftrightarrow> 16 * a + b \<in> {47, 92, 37}"
    using ab by (simp, presburger)
  also have "\<dots> \<longleftrightarrow> escaped_char h l \<in> {CHR ''/'', CHR 0x5C, CHR ''%''}"
    using ab by (simp add: e char_of_less) (auto simp: char_code_def)
  finally show ?thesis .
qed

lemma hex_not_special:
  "is_hex c \<Longrightarrow> c \<noteq> CHR ''/''" "is_hex c \<Longrightarrow> c \<noteq> CHR 0x5C"
  "is_hex c \<Longrightarrow> c \<noteq> CHR ''%''" "is_hex c \<Longrightarrow> c \<noteq> CHR ''.''"
  by (auto simp: hex_val_def char_code_def Let_def)

lemma upper_hex_not_slash: "is_hex h \<Longrightarrow> upper_char h \<noteq> CHR ''/''"
proof -
  assume "is_hex h"
  then obtain v where v: "hex_val h = Some v" by auto
  then have "v < 16" by (rule hex_val_bound)
  then have "hex_digit v \<noteq> CHR ''/''"
    by (auto simp: hex_digit_def char_of_less char_code_def split: if_splits)
  with v show ?thesis by (simp add: upper_hex)
qed

text \<open>The three shapes of a decoding step.\<close>

lemma decode_once_escape:
  "is_hex h \<Longrightarrow> is_hex l \<Longrightarrow> decode_once (CHR ''%'' # h # l # rest) =
     (if escaped_char h l \<in> {CHR ''/'', CHR 0x5C, CHR ''%''}
      then str_upper [CHR ''%'', h, l] else [escaped_char h l]) @ decode_once rest"
  by (simp only: decode_once.simps simp_thms Let_def kept_iff if_True HOL.refl)

lemma decode_once_plain:
  "c \<noteq> CHR ''%'' \<or> (\<nexists>h l r. s = h # l # r \<and> is_hex h \<and> is_hex l)
    \<Longrightarrow> decode_once (c # s) = c # decode_once s"
  by (cases s; cases "tl s") auto

lemma decode_once_not_escape:
  "\<not> (c = CHR ''%'' \<and> is_hex h \<and> is_hex l) \<Longrightarrow>
     decode_once (c # h # l # s) = c # decode_once (h # l # s)"
  by (simp only: decode_once.simps if_False)

lemma decode_once_no_percent: "CHR ''%'' \<notin> set s \<Longrightarrow> decode_once s = s"
  by (induction s rule: decode_once.induct) auto

lemma unquote_no_percent: "CHR ''%'' \<notin> set s \<Longrightarrow> unquote s = s"
  by (induction s rule: unquote.induct) auto

lemma decode_once_kept:
  "decode_once (''%2F'' @ s) = ''%2F'' @ decode_once s"
  "decode_once (''%5C'' @ s) = ''%5C'' @ decode_once s"
  "decode_once (''%25'' @ s) = ''%25'' @ decode_once s"
  by (simp_all add: hex_val_def char_code_def str_upper_def upper_char_def Let_def
      kept_encoded_def)

lemma decode_once_append_slash:
  "decode_once (a @ CHR ''/'' # b) = decode_once a @ CHR ''/'' # decode_once b"
proof (induction a rule: decode_once.induct)
  case (1 c h l rest)
  show ?case
  proof (cases "c = CHR ''%'' \<and> is_hex h \<and> is_hex l")
    case True
    with 1(1) have "decode_once (rest @ CHR ''/'' # b)
        = decode_once rest @ CHR ''/'' # decode_once b" by blast
    with True show ?thesis by (simp add: Let_def)
  next
    case False
    with 1(2) have "decode_once ((h # l # rest) @ CHR ''/'' # b)
        = decode_once (h # l # rest) @ CHR ''/'' # decode_once b" by blast
    moreover have "decode_once ((c # h # l # rest) @ CHR ''/'' # b)
        = c # decode_once ((h # l # rest) @ CHR ''/'' # b)"
      using decode_once_not_escape [OF False, of "rest @ CHR ''/'' # b"] by simp
    ultimately show ?thesis using decode_once_not_escape [OF False, of rest] by simp
  qed
next
  case "2_1"
  then show ?case by (simp add: decode_once_plain)
next
  case "2_2"
  have "\<not> is_hex (CHR ''/'')" using hex_not_special(1) by blast
  then show ?case by (simp add: decode_once_plain)
next
  case "2_3"
  have "\<not> is_hex (CHR ''/'')" using hex_not_special(1) by blast
  then show ?case by (simp add: decode_once_plain)
qed

lemma decode_once_no_slash:
  "CHR ''/'' \<notin> set s \<Longrightarrow> CHR ''/'' \<notin> set (decode_once s)"
proof (induction s rule: decode_once.induct)
  case (1 c h l rest)
  show ?case
  proof (cases "c = CHR ''%'' \<and> is_hex h \<and> is_hex l")
    case True
    then have "decode_once (c # h # l # rest) =
       (if escaped_char h l \<in> {CHR ''/'', CHR 0x5C, CHR ''%''}
        then str_upper [CHR ''%'', h, l] else [escaped_char h l]) @ decode_once rest"
      using decode_once_escape by blast
    moreover have "CHR ''/'' \<notin> set (str_upper [CHR ''%'', h, l])"
      using True upper_hex_not_slash [of h] upper_hex_not_slash [of l]
      by (auto simp: str_upper_def) (simp add: upper_char_def char_code_def)
    moreover have "CHR ''/'' \<notin> set (decode_once rest)" using 1 True by auto
    ultimately show ?thesis by auto
  next
    case False
    then show ?thesis using 1 by auto
  qed
qed auto

section \<open>Decoding and the segments of a path\<close>

lemma split_on_append_all: "split_on c (xs @ c # ys) = split_on c xs @ split_on c ys"
  by (induction xs) (auto split: list.splits)

lemma decode_once_join:
  "segs \<noteq> [] \<Longrightarrow> decode_once (join_with (CHR ''/'') segs)
     = join_with (CHR ''/'') (map decode_once segs)"
  by (induction "CHR ''/''" segs rule: join_with.induct) (auto simp: decode_once_append_slash)

lemma split_decode_once:
  "split_on (CHR ''/'') (decode_once p) = map decode_once (split_on (CHR ''/'') p)"
proof -
  let ?segs = "split_on (CHR ''/'') p"
  have "decode_once p = join_with (CHR ''/'') (map decode_once ?segs)"
    using decode_once_join [of ?segs] by simp
  then show ?thesis
    using split_on_no_sep [of _ "CHR ''/''" p] decode_once_no_slash by auto
qed

lemma slash_headed_decode: "slash_headed (decode_once p) = slash_headed p"
proof -
  have "slash_headed s \<longleftrightarrow> hd (split_on (CHR ''/'') s) = [] \<and> tl (split_on (CHR ''/'') s) \<noteq> []" for s
    by (cases s) (auto simp: slash_headed_def split: list.splits)
  moreover have "decode_once s = [] \<longleftrightarrow> s = []" for s
    by (induction s rule: decode_once.induct) (auto simp: Let_def str_upper_def)
  ultimately show ?thesis
    by (cases "split_on (CHR ''/'') p") (auto simp: split_decode_once)
qed

lemma resolve_segments_push:
  "\<not> is_dot_segment s \<Longrightarrow> resolve_segments out (s # segs) = resolve_segments (s # out) segs"
  by (simp add: is_dot_segment_def)

lemma resolve_segments_map:
  assumes "\<forall>s\<in>set segs. is_dot_segment (f s) \<or> is_dot_segment s \<longrightarrow> f s = s"
  shows "resolve_segments (map f out) (map f segs) = map f (resolve_segments out segs)"
  using assms
proof (induction segs arbitrary: out)
  case Nil
  then show ?case by (simp add: rev_map)
next
  case (Cons s segs)
  from Cons.prems have IH: "resolve_segments (map f o') (map f segs)
      = map f (resolve_segments o' segs)" for o' by (intro Cons.IH) auto
  have tl: "resolve_segments (tl (map f out)) (map f segs) = map f (resolve_segments (tl out) segs)"
    using IH [of "tl out"] by (simp add: map_tl)
  have push: "resolve_segments (f s # map f out) (map f segs)
      = map f (resolve_segments (s # out) segs)"
    using IH [of "s # out"] by simp
  show ?case
  proof (cases "is_dot_segment (f s) \<or> is_dot_segment s")
    case True
    with Cons.prems have "f s = s" by (simp only: list.set insert_iff) blast
    with tl push IH [of out] show ?thesis by (cases "s = ''.''"; cases "s = ''..''") simp_all
  next
    case False
    with push show ?thesis by (simp add: is_dot_segment_def)
  qed
qed

lemma resolve_segments_no_dots:
  "\<forall>s\<in>set out. \<not> is_dot_segment s \<Longrightarrow>
     \<forall>s\<in>set (resolve_segments out segs). \<not> is_dot_segment s"
proof (induction segs arbitrary: out)
  case Nil
  then show ?case by simp
next
  case (Cons s segs)
  have tl: "\<forall>s\<in>set (tl out). \<not> is_dot_segment s" using Cons.prems by (cases out) auto
  show ?case
  proof (cases "is_dot_segment s")
    case True
    with Cons.IH [OF tl] Cons.IH [OF Cons.prems] show ?thesis
      by (cases "s = ''.''") (simp_all add: is_dot_segment_def)
  next
    case False
    have "\<forall>x\<in>set (s # out). \<not> is_dot_segment x" using False Cons.prems by simp
    with Cons.IH [of "s # out"] show ?thesis by (simp only: resolve_segments_push [OF False])
  qed
qed

lemma resolve_segments_subset:
  "set (resolve_segments out segs) \<subseteq> set out \<union> set segs"
proof (induction segs arbitrary: out)
  case (Cons s segs)
  have "set (tl out) \<subseteq> set out" by (cases out) auto
  with Cons [of out] Cons [of "tl out"] Cons [of "s # out"] show ?case by auto
qed simp

lemma resolve_segments_plain:
  "\<forall>s\<in>set segs. \<not> is_dot_segment s \<Longrightarrow> resolve_segments out segs = rev out @ segs"
  by (induction segs arbitrary: out) (auto simp: is_dot_segment_def)

section \<open>Canonical paths\<close>

text \<open>
  What both readers of a path rely on: it is absolute, has no dot segment left, and no
  trailing slash apart from the root.
\<close>

definition canonical_path :: "string \<Rightarrow> bool" where
  "canonical_path s = (slash_headed s \<and> list_all (\<lambda>g. \<not> is_dot_segment g) (split_on (CHR ''/'') s)
     \<and> (s = ''/'' \<or> last s \<noteq> CHR ''/''))"

lemma split_trailing:
  "split_on c (s @ replicate n c) = split_on c s @ replicate n []"
proof (induction n arbitrary: s)
  case 0
  then show ?case by simp
next
  case (Suc n)
  have "split_on c (s @ replicate (Suc n) c) = split_on c s @ split_on c ([] @ replicate n c)"
    using split_on_append_all [of c s "replicate n c"] by simp
  with Suc [of "[]"] show ?case by (simp add: replicate_append_same)
qed

lemma split_rstrip: "set (split_on c (rstrip_char c s)) \<subseteq> set (split_on c s)"
proof -
  obtain n where n: "s = rstrip_char c s @ replicate n c" using rstrip_char_prefix by blast
  have "split_on c s = split_on c (rstrip_char c s) @ replicate n []"
    using split_trailing [of c "rstrip_char c s" n] n by metis
  then show ?thesis by simp
qed

lemma split_join_subset: "(\<forall>p\<in>set ps. c \<notin> set p) \<Longrightarrow> set (split_on c (join_with c ps)) \<subseteq> insert [] (set ps)"
  by (cases "ps = []") auto

lemma resolve_dot_segments_segments:
  "set (split_on (CHR ''/'') (resolve_dot_segments p))
     \<subseteq> insert [] (set (resolve_segments [] (split_on (CHR ''/'') p)))"
proof -
  let ?r = "resolve_segments [] (split_on (CHR ''/'') p)"
  have "\<forall>s\<in>set ?r. CHR ''/'' \<notin> set s"
    using resolve_segments_subset [of "[]" "split_on (CHR ''/'') p"] split_on_no_sep by fastforce
  then have "set (split_on (CHR ''/'') (join_with (CHR ''/'') ?r)) \<subseteq> insert [] (set ?r)"
    by (rule split_join_subset)
  then show ?thesis by (auto simp: resolve_dot_segments_def Let_def)
qed

lemma rooted_no_dots:
  assumes "\<forall>g\<in>set (split_on (CHR ''/'') s). \<not> is_dot_segment g"
  shows "\<forall>g\<in>set (split_on (CHR ''/'') (CHR ''/'' # s)). \<not> is_dot_segment g"
  using assms by (simp add: is_dot_segment_def)

lemma slash_headed_rstrip:
  "slash_headed s \<Longrightarrow> rstrip_char (CHR ''/'') s \<noteq> [] \<Longrightarrow> slash_headed (rstrip_char (CHR ''/'') s)"
  using rstrip_char_prefix [of s "CHR ''/''"]
  by (cases "rstrip_char (CHR ''/'') s") (auto simp: slash_headed_def)

definition rooted_path :: "string \<Rightarrow> string" where
  "rooted_path s = (if s \<noteq> [] \<and> \<not> slash_headed s then CHR ''/'' # s else s)"

lemma normalize_path_cases:
  obtains (root) "normalize_path p = ''/''"
    | (trimmed) t where "normalize_path p = t" "t \<noteq> []"
      "t = rstrip_char (CHR ''/'') (rooted_path (resolve_dot_segments (decode_once p)))"
proof (cases "rstrip_char (CHR ''/'') (rooted_path (resolve_dot_segments (decode_once p))) = []")
  case True
  then have "normalize_path p = ''/''" by (simp only: normalize_path_def Let_def rooted_path_def if_True simp_thms)
  then show ?thesis by (rule root)
next
  case False
  then have "normalize_path p
      = rstrip_char (CHR ''/'') (rooted_path (resolve_dot_segments (decode_once p)))"
    by (simp only: normalize_path_def Let_def rooted_path_def if_False)
  with False show ?thesis by (intro trimmed [of "normalize_path p"]) simp_all
qed

lemma split_rooted: "set (split_on (CHR ''/'') (rooted_path s)) \<subseteq> insert [] (set (split_on (CHR ''/'') s))"
  by (auto simp: rooted_path_def)

lemma rooted_path_slash: "rooted_path s \<noteq> [] \<Longrightarrow> slash_headed (rooted_path s)"
  by (auto simp: rooted_path_def slash_headed_def)

lemma normalize_path_segments:
  "set (split_on (CHR ''/'') (normalize_path p))
     \<subseteq> insert [] (set (resolve_segments [] (split_on (CHR ''/'') (decode_once p))))"
proof (cases p rule: normalize_path_cases)
  case root
  then show ?thesis by simp
next
  case (trimmed t)
  have "set (split_on (CHR ''/'') t)
      \<subseteq> set (split_on (CHR ''/'') (rooted_path (resolve_dot_segments (decode_once p))))"
    unfolding trimmed(3) by (rule split_rstrip)
  also have "\<dots> \<subseteq> insert [] (set (split_on (CHR ''/'') (resolve_dot_segments (decode_once p))))"
    by (rule split_rooted)
  also have "\<dots> \<subseteq> insert [] (set (resolve_segments [] (split_on (CHR ''/'') (decode_once p))))"
    using resolve_dot_segments_segments by blast
  finally show ?thesis by (simp only: trimmed(1))
qed

lemma canonical_normalize_path: "canonical_path (normalize_path p)"
proof -
  have "\<forall>g\<in>set (split_on (CHR ''/'') (normalize_path p)). \<not> is_dot_segment g"
    using normalize_path_segments [of p]
      resolve_segments_no_dots [of "[]" "split_on (CHR ''/'') (decode_once p)"]
    by (fastforce simp: is_dot_segment_def)
  moreover have "slash_headed (normalize_path p)
      \<and> (normalize_path p = ''/'' \<or> last (normalize_path p) \<noteq> CHR ''/'')"
  proof (cases p rule: normalize_path_cases)
    case root
    then show ?thesis by (simp add: slash_headed_def)
  next
    case (trimmed t)
    then have "rooted_path (resolve_dot_segments (decode_once p)) \<noteq> []"
      by (auto simp: rstrip_char_def)
    then have "slash_headed t"
      using slash_headed_rstrip rooted_path_slash trimmed(2,3) by blast
    moreover have "last t \<noteq> CHR ''/''" using rstrip_char_last trimmed(2,3) by blast
    ultimately show ?thesis by (simp only: trimmed(1)) blast
  qed
  ultimately show ?thesis by (simp add: canonical_path_def list_all_iff)
qed

text \<open>
  The normalised path is canonical, whatever the request path was: absolute, without a
  \<open>.\<close> or \<open>..\<close> segment (escaped ones included), and without a trailing slash.
\<close>

theorem normalize_path_canonical: "canonical_path (normalize_path p)"
  by (rule canonical_normalize_path)

section \<open>Re-normalising\<close>

text \<open>A path in which every percent sign starts an escape.\<close>

fun well_escaped :: "string \<Rightarrow> bool" where
  "well_escaped (c # h # l # rest) =
     (if c = CHR ''%'' then is_hex h \<and> is_hex l \<and> well_escaped rest
      else well_escaped (h # l # rest))"
| "well_escaped s = (CHR ''%'' \<notin> set s)"

lemma decode_once_cons_plain: "c \<noteq> CHR ''%'' \<Longrightarrow> decode_once (c # s) = c # decode_once s"
  by (rule decode_once_plain) simp

lemma kept_encoded_decode: "e \<in> kept_encoded \<Longrightarrow> decode_once (e @ s) = e @ decode_once s"
  using decode_once_kept by (auto simp: kept_encoded_def)

lemma decode_once_fixed: "well_escaped p \<Longrightarrow> decode_once (decode_once p) = decode_once p"
proof (induction p rule: decode_once.induct)
  case (1 c h l rest)
  show ?case
  proof (cases "c = CHR ''%'' \<and> is_hex h \<and> is_hex l")
    case True
    with 1 have rest: "decode_once (decode_once rest) = decode_once rest" by auto
    have kept: "str_upper [CHR ''%'', h, l] \<in> kept_encoded
        \<longleftrightarrow> escaped_char h l \<in> {CHR ''/'', CHR 0x5C, CHR ''%''}"
      using True by (intro kept_iff) auto
    show ?thesis
    proof (cases "str_upper [CHR ''%'', h, l] \<in> kept_encoded")
      case kept_in: True
      then have "decode_once (c # h # l # rest) = str_upper [CHR ''%'', h, l] @ decode_once rest"
        using True by (simp add: Let_def)
      with rest kept_encoded_decode [OF kept_in] show ?thesis by simp
    next
      case kept_out: False
      then have "decode_once (c # h # l # rest) = escaped_char h l # decode_once rest"
        using True by (simp add: Let_def)
      with rest kept kept_out show ?thesis by (simp add: decode_once_cons_plain)
    qed
  next
    case False
    with 1(3) have c: "c \<noteq> CHR ''%''" and "well_escaped (h # l # rest)" by (auto split: if_splits)
    with 1(2) [OF False] have "decode_once (decode_once (h # l # rest)) = decode_once (h # l # rest)"
      by blast
    then show ?thesis by (simp only: decode_once_not_escape [OF False] decode_once_cons_plain [OF c])
  qed
qed auto

lemma decode_fixed_segments:
  "decode_once s = s \<longleftrightarrow> (\<forall>g\<in>set (split_on (CHR ''/'') s). decode_once g = g)"
proof
  assume "decode_once s = s"
  then have "map decode_once (split_on (CHR ''/'') s) = split_on (CHR ''/'') s"
    by (metis split_decode_once)
  then show "\<forall>g\<in>set (split_on (CHR ''/'') s). decode_once g = g"
    by (metis in_set_conv_nth length_map nth_map)
next
  assume "\<forall>g\<in>set (split_on (CHR ''/'') s). decode_once g = g"
  then have "split_on (CHR ''/'') (decode_once s) = split_on (CHR ''/'') s"
    by (simp add: split_decode_once map_idI)
  then show "decode_once s = s" by (metis join_split)
qed

lemma normalize_path_fixed:
  assumes "canonical_path s" and "decode_once s = s"
  shows "normalize_path s = s"
proof -
  from assms(1) have slash: "slash_headed s"
    and dots: "\<forall>g\<in>set (split_on (CHR ''/'') s). \<not> is_dot_segment g"
    and last: "s = ''/'' \<or> last s \<noteq> CHR ''/''"
    by (simp_all only: canonical_path_def list_all_iff) simp_all
  from slash have "s \<noteq> []" by (auto simp: slash_headed_def)
  have "resolve_dot_segments s = s"
    using slash by (simp add: resolve_dot_segments_def resolve_segments_plain [OF dots])
  then have eq: "normalize_path s = (if rstrip_char (CHR ''/'') s = [] then ''/''
      else rstrip_char (CHR ''/'') s)"
    using slash by (simp add: normalize_path_def assms(2))
  from last show ?thesis
  proof
    assume "s = ''/''"
    then show ?thesis unfolding eq by (simp add: rstrip_char_def)
  next
    assume "last s \<noteq> CHR ''/''"
    then have "rstrip_char (CHR ''/'') s = s" by (intro rstrip_char_id) simp
    with \<open>s \<noteq> []\<close> show ?thesis by (simp add: eq)
  qed
qed

text \<open>
  Normalising is idempotent on every path whose percent signs start escapes, so a
  normalised rule path or index entry can be normalised again without moving to another
  path. The hypothesis is needed: a stray percent sign may join the result of an escape
  into a new escape (see \<open>normalize_path_stray_percent\<close>).
\<close>

theorem normalize_path_idempotent:
  assumes "well_escaped p"
  shows "normalize_path (normalize_path p) = normalize_path p"
proof -
  let ?segs = "split_on (CHR ''/'') (decode_once p)"
  have "\<forall>g\<in>set ?segs. decode_once g = g"
    by (rule iffD1 [OF decode_fixed_segments decode_once_fixed [OF assms]])
  then have "\<forall>g\<in>set (split_on (CHR ''/'') (normalize_path p)). decode_once g = g"
  proof -
    have "set (split_on (CHR ''/'') (normalize_path p)) \<subseteq> insert [] (set ?segs)"
      using normalize_path_segments [of p] resolve_segments_subset [of "[]" ?segs] by auto
    moreover have "decode_once [] = []" by simp
    ultimately show ?thesis using \<open>\<forall>g\<in>set ?segs. decode_once g = g\<close> by blast
  qed
  then have "decode_once (normalize_path p) = normalize_path p"
    by (rule iffD2 [OF decode_fixed_segments])
  then show ?thesis by (rule normalize_path_fixed [OF canonical_normalize_path])
qed

theorem normalize_path_idempotent_witness:
  "well_escaped ''/v1/a%2fb/%2e%2e/c%25/'' \<and>
   normalize_path (normalize_path ''/v1/a%2fb/%2e%2e/c%25/'') = normalize_path ''/v1/a%2fb/%2e%2e/c%25/'' \<and>
   normalize_path ''/v1/a%2fb/%2e%2e/c%25/'' = ''/v1/c%25''"
proof (intro conjI)
  show w: "well_escaped ''/v1/a%2fb/%2e%2e/c%25/''" by code_simp
  show "normalize_path (normalize_path ''/v1/a%2fb/%2e%2e/c%25/'') = normalize_path ''/v1/a%2fb/%2e%2e/c%25/''"
    by (rule normalize_path_idempotent [OF w])
  show "normalize_path ''/v1/a%2fb/%2e%2e/c%25/'' = ''/v1/c%25''" by code_simp
qed

lemma normalize_path_stray_percent:
  "normalize_path ''/%%341'' = ''/%41'' \<and> normalize_path (normalize_path ''/%%341'') = ''/A''"
  by code_simp

section \<open>Refused or unambiguous\<close>

lemma push_char_not_Nil [simp]: "push_char c ps \<noteq> []"
  by (simp add: push_char_def split: list.split)

lemma split_separators_sep:
  "split_separators (CHR ''/'' # s) = [] # split_separators s"
  "split_separators (CHR 0x5C # s) = [] # split_separators s"
  by simp_all

lemma split_separators_escape:
  "is_separator_escape c h l \<Longrightarrow> split_separators (c # h # l # s) = [] # split_separators s"
  by (simp add: is_separator_escape_def)

lemma split_separators_plain:
  "c \<noteq> CHR ''/'' \<Longrightarrow> c \<noteq> CHR 0x5C \<Longrightarrow>
   (\<And>h l r. s = h # l # r \<Longrightarrow> \<not> is_separator_escape c h l) \<Longrightarrow>
   split_separators (c # s) = push_char c (split_separators s)"
  by (simp only: split_separators.simps) (simp split: list.split)

declare split_separators.simps(2) [simp del]

lemma split_separators_not_Nil [simp]: "split_separators s \<noteq> []"
proof (cases s)
  case (Cons c s')
  show ?thesis unfolding Cons by (subst split_separators.simps(2)) (simp split: list.split)
qed simp

lemma push_char_append: "xs \<noteq> [] \<Longrightarrow> push_char c (xs @ ys) = push_char c xs @ ys"
  by (cases xs) (auto simp: push_char_def)

lemma separator_escape_no_slash:
  "\<not> is_separator_escape c (CHR ''/'') x" "\<not> is_separator_escape c x (CHR ''/'')"
  by (auto simp: is_separator_escape_def)

text \<open>Induction over the tokens a separator split sees.\<close>

lemma token_induct [case_names nil sep esc plain]:
  assumes "P []"
    and "\<And>c s. c = CHR ''/'' \<or> c = CHR 0x5C \<Longrightarrow> P s \<Longrightarrow> P (c # s)"
    and "\<And>c h l s. is_separator_escape c h l \<Longrightarrow> P s \<Longrightarrow> P (c # h # l # s)"
    and "\<And>c s. c \<noteq> CHR ''/'' \<Longrightarrow> c \<noteq> CHR 0x5C \<Longrightarrow>
      (\<And>h l r. s = h # l # r \<Longrightarrow> \<not> is_separator_escape c h l) \<Longrightarrow> P s \<Longrightarrow> P (c # s)"
  shows "P s"
proof (induction s rule: measure_induct_rule [where f = length])
  case (less s)
  show ?case
  proof (cases s)
    case Nil
    with assms(1) show ?thesis by simp
  next
    case (Cons c s')
    show ?thesis
    proof (cases "\<exists>h l r. s' = h # l # r \<and> is_separator_escape c h l")
      case True
      then obtain h l r where s': "s' = h # l # r" and "is_separator_escape c h l" by blast
      moreover have "P r" using less [of r] by (simp add: Cons s')
      ultimately show ?thesis using assms(3) by (simp add: Cons)
    next
      case False
      have "P s'" using less [of s'] by (simp add: Cons)
      with False assms(2,4) [of c s'] show ?thesis by (auto simp: Cons)
    qed
  qed
qed

lemma split_separators_slash:
  "split_separators (a @ CHR ''/'' # b) = split_separators a @ split_separators b"
proof (induction a rule: token_induct)
  case nil
  show ?case by (simp add: split_separators_sep)
next
  case (sep c s)
  then show ?case by (auto simp: split_separators_sep)
next
  case (esc c h l s)
  then show ?case by (simp add: split_separators_escape)
next
  case (plain c s)
  have "\<not> is_separator_escape c h l" if "s @ CHR ''/'' # b = h # l # r" for h l r
    using that plain(3) [of h l] separator_escape_no_slash
    by (cases s; cases "tl s") auto
  with plain have "split_separators (c # s @ CHR ''/'' # b)
      = push_char c (split_separators (s @ CHR ''/'' # b))"
    by (intro split_separators_plain) blast+
  moreover have "split_separators (c # s) = push_char c (split_separators s)"
    using plain by (intro split_separators_plain) blast+
  ultimately show ?case by (simp add: plain push_char_append)
qed

lemma split_separators_segments:
  "split_separators p = concat (map split_separators (split_on (CHR ''/'') p))"
proof -
  have "segs \<noteq> [] \<Longrightarrow> split_separators (join_with (CHR ''/'') segs) = concat (map split_separators segs)"
    for segs
    by (induction "CHR ''/''" segs rule: join_with.induct) (auto simp: split_separators_slash)
  from this [of "split_on (CHR ''/'') p"] show ?thesis by simp
qed

lemma separator_escape_char:
  "is_separator_escape c h l \<Longrightarrow>
     c = CHR ''%'' \<and> is_hex h \<and> is_hex l \<and> escaped_char h l \<in> {CHR ''/'', CHR 0x5C}"
  by (auto simp: is_separator_escape_def escaped_char_def hex_val_def char_code_def char_of_def
      bit_0 bit_Suc)

lemma split_separators_word:
  "c \<notin> {CHR ''/'', CHR 0x5C, CHR ''%''} \<Longrightarrow>
     split_separators (c # s) = push_char c (split_separators s)"
  by (rule split_separators_plain) (auto simp: is_separator_escape_def)

lemma split_separators_self:
  "set (decode_once s) \<inter> {CHR ''%'', CHR 0x5C, CHR ''/''} = {} \<Longrightarrow>
     unquote s = decode_once s \<and> split_separators s = [s]"
proof (induction s rule: decode_once.induct)
  case (1 c h l rest)
  show ?case
  proof (cases "c = CHR ''%'' \<and> is_hex h \<and> is_hex l")
    case True
    have d: "decode_once (c # h # l # rest) =
       (if escaped_char h l \<in> {CHR ''/'', CHR 0x5C, CHR ''%''}
        then str_upper [CHR ''%'', h, l] else [escaped_char h l]) @ decode_once rest"
      using True decode_once_escape by blast
    moreover have "CHR ''%'' \<in> set (str_upper [CHR ''%'', h, l])"
      by (simp add: str_upper_def upper_char_def char_code_def)
    ultimately have e: "escaped_char h l \<notin> {CHR ''/'', CHR 0x5C, CHR ''%''}"
      using 1(3) by (auto split: if_splits)
    with d 1(3) have "set (decode_once rest) \<inter> {CHR ''%'', CHR 0x5C, CHR ''/''} = {}" by auto
    with 1(1) [OF True refl] have IH: "unquote rest = decode_once rest" "split_separators rest = [rest]"
      by blast+
    have hl: "h \<notin> {CHR ''/'', CHR 0x5C, CHR ''%''}" "l \<notin> {CHR ''/'', CHR 0x5C, CHR ''%''}"
      using True hex_not_special by blast+
    have "\<not> is_separator_escape c h l" using e separator_escape_char by blast
    then have "split_separators (c # h # l # rest) = push_char c (split_separators (h # l # rest))"
      using True by (intro split_separators_plain) auto
    also have "\<dots> = [c # h # l # rest]"
      using hl by (simp add: split_separators_word IH push_char_def)
    finally have "split_separators (c # h # l # rest) = [c # h # l # rest]" .
    moreover have "unquote (c # h # l # rest) = escaped_char h l # decode_once rest"
      using True by (simp add: IH)
    ultimately show ?thesis using d e by simp
  next
    case False
    have d: "decode_once (c # h # l # rest) = c # decode_once (h # l # rest)"
      by (rule decode_once_not_escape [OF False])
    with 1(3) have c: "c \<notin> {CHR ''/'', CHR 0x5C, CHR ''%''}"
      and "set (decode_once (h # l # rest)) \<inter> {CHR ''%'', CHR 0x5C, CHR ''/''} = {}" by auto
    with 1(2) [OF False] have IH: "unquote (h # l # rest) = decode_once (h # l # rest)"
      "split_separators (h # l # rest) = [h # l # rest]" by blast+
    have "unquote (c # h # l # rest) = c # unquote (h # l # rest)"
      using False by (simp only: unquote.simps if_False)
    moreover have "split_separators (c # h # l # rest) = [c # h # l # rest]"
      using c IH(2) by (simp add: split_separators_word push_char_def)
    ultimately show ?thesis by (simp only: d IH(1))
  qed
qed (auto simp: split_separators_word push_char_def)

lemma split_separators_chars: "s \<in> set (split_separators p) \<Longrightarrow> set s \<subseteq> set p"
proof (induction p arbitrary: s rule: token_induct)
  case (plain c p)
  have "split_separators (c # p) = push_char c (split_separators p)"
    using plain by (intro split_separators_plain) blast+
  then show ?case using plain(4) [of "hd (split_separators p)"] plain(4) [of s] plain(5)
    by (cases "split_separators p") (auto simp: push_char_def)
next
  case (sep c p)
  then show ?case by (fastforce simp: split_separators_sep)
next
  case (esc c h l p)
  then show ?case by (fastforce simp: split_separators_escape)
qed simp

lemma unambiguous_unquote:
  assumes "\<not> has_ambiguous_traversal p" and "s \<in> set (split_separators p)"
    and "is_dot_segment (unquote s)"
  shows "unquote s = s"
proof (cases "CHR ''%'' \<notin> set p \<and> CHR 0x5C \<notin> set p")
  case True
  with split_separators_chars [OF assms(2)] have "CHR ''%'' \<notin> set s" by blast
  then show ?thesis by (rule unquote_no_percent)
next
  case False
  with assms show ?thesis by (auto simp: has_ambiguous_traversal_def list_ex_iff Let_def)
qed

lemma dot_segment_plain: "is_dot_segment s \<Longrightarrow> unquote s = s \<and> decode_once s = s"
  by (auto simp: is_dot_segment_def)

lemma unambiguous_decode:
  assumes "\<not> has_ambiguous_traversal p" and "s \<in> set (split_on (CHR ''/'') p)"
    and "is_dot_segment (decode_once s)"
  shows "decode_once s = s"
proof -
  from assms(3) have "set (decode_once s) \<inter> {CHR ''%'', CHR 0x5C, CHR ''/''} = {}"
    by (auto simp: is_dot_segment_def)
  then have s: "unquote s = decode_once s" "split_separators s = [s]"
    using split_separators_self by blast+
  have "s \<in> set (split_separators p)"
  proof -
    have "set (split_separators s) \<subseteq> set (split_separators p)"
      using assms(2) unfolding split_separators_segments [of p] by auto
    then show ?thesis by (simp only: s(2)) simp
  qed
  moreover have "is_dot_segment (unquote s)" using assms(3) by (simp only: s(1))
  ultimately have "unquote s = s" by (rule unambiguous_unquote [OF assms(1)])
  then show ?thesis by (simp only: s(1))
qed

text \<open>
  C31: a path that \<open>has_ambiguous_traversal\<close> lets through has one reading. Resolving its dot
  segments before or after decoding gives the same path; a stack that treats every
  separator spelling (slash, backslash, and their escapes) alike and decodes fully
  resolves the same segments before and after decoding; and when such a separator occurs
  at all, no segment of that finest reading is a dot segment.
\<close>

theorem unambiguous_single_reading:
  assumes "\<not> has_ambiguous_traversal p"
  shows "decode_once (resolve_dot_segments p) = resolve_dot_segments (decode_once p) \<and>
    resolve_segments [] (map unquote (split_separators p))
      = map unquote (resolve_segments [] (split_separators p)) \<and>
    \<not> (has_ambiguous_separator p \<and> list_ex (\<lambda>s. is_dot_segment (unquote s)) (split_separators p))"
proof (intro conjI)
  let ?segs = "split_on (CHR ''/'') p"
  have "\<forall>s\<in>set ?segs. is_dot_segment (decode_once s) \<or> is_dot_segment s \<longrightarrow> decode_once s = s"
    using unambiguous_decode [OF assms] dot_segment_plain by blast
  from resolve_segments_map [OF this, of "[]"]
  have segs: "resolve_segments [] (split_on (CHR ''/'') (decode_once p))
      = map decode_once (resolve_segments [] ?segs)"
    by (simp add: split_decode_once)
  have join: "decode_once (join_with (CHR ''/'') ss) = join_with (CHR ''/'') (map decode_once ss)" for ss
    by (cases "ss = []") (auto simp: decode_once_join)
  have "resolve_dot_segments (decode_once p)
      = (let r = decode_once (join_with (CHR ''/'') (resolve_segments [] ?segs)) in
         if slash_headed p \<and> \<not> slash_headed r then CHR ''/'' # r else r)"
    by (simp only: resolve_dot_segments_def segs join slash_headed_decode)
  then show "decode_once (resolve_dot_segments p) = resolve_dot_segments (decode_once p)"
    by (simp add: resolve_dot_segments_def Let_def slash_headed_decode decode_once_cons_plain)
next
  have "\<forall>s\<in>set (split_separators p). is_dot_segment (unquote s) \<or> is_dot_segment s \<longrightarrow> unquote s = s"
    using unambiguous_unquote [OF assms] dot_segment_plain by blast
  from resolve_segments_map [OF this, of "[]"]
  show "resolve_segments [] (map unquote (split_separators p))
      = map unquote (resolve_segments [] (split_separators p))" by simp
next
  have "has_ambiguous_separator p \<Longrightarrow> CHR ''%'' \<in> set p \<or> CHR 0x5C \<in> set p"
    by (induction p rule: has_ambiguous_separator.induct) (auto simp: is_separator_escape_def)
  with assms show "\<not> (has_ambiguous_separator p \<and> list_ex (\<lambda>s. is_dot_segment (unquote s)) (split_separators p))"
    by (auto simp: has_ambiguous_traversal_def list_ex_iff Let_def)
qed

theorem unambiguous_single_reading_witness:
  "\<not> has_ambiguous_traversal ''/x/../b/%41'' \<and>
   resolve_dot_segments (decode_once ''/x/../b/%41'') = ''/b/A'' \<and>
   decode_once (resolve_dot_segments ''/x/../b/%41'') = ''/b/A'' \<and>
   has_ambiguous_traversal ''/a/..%2Fb'' \<and> has_ambiguous_traversal ''/a/%2e./b''"
proof (intro conjI)
  show a: "\<not> has_ambiguous_traversal ''/x/../b/%41''" by code_simp
  show r: "resolve_dot_segments (decode_once ''/x/../b/%41'') = ''/b/A''" by code_simp
  show "decode_once (resolve_dot_segments ''/x/../b/%41'') = ''/b/A''"
    using unambiguous_single_reading [OF a] r by simp
  show "has_ambiguous_traversal ''/a/..%2Fb''" by code_simp
  show "has_ambiguous_traversal ''/a/%2e./b''" by code_simp
qed

end
