(* ===== verification/Py_Ip.thy ===== *)
theory Py_Ip
  imports Prelude "HOL-Library.Code_Target_Nat"
begin

text \<open>
  The part of Python's \<open>ipaddress\<close> module that the egress policy and the URL parser use:
  parsing of address literals, network membership and the special-purpose registry behind
  \<open>is_global\<close>, \<open>is_private\<close> and their companions. Addresses are the natural numbers
  \<open>int(addr)\<close>; an IPv6 address also carries its scope id.
\<close>

section \<open>Address literals\<close>

datatype ip_addr = IPv4 nat | IPv6 nat "string option"

definition digit_val :: "char \<Rightarrow> nat option" where
  "digit_val c = (let n = char_code c in if 48 \<le> n \<and> n \<le> 57 then Some (n - 48) else None)"

definition hexdigit_val :: "char \<Rightarrow> nat option" where
  "hexdigit_val c = (let n = char_code c in
     if 48 \<le> n \<and> n \<le> 57 then Some (n - 48)
     else if 65 \<le> n \<and> n \<le> 70 then Some (n - 55)
     else if 97 \<le> n \<and> n \<le> 102 then Some (n - 87)
     else None)"

text \<open>\<open>int(s, base)\<close> of a text all of whose characters are digits.\<close>

fun digits_value :: "(char \<Rightarrow> nat option) \<Rightarrow> nat \<Rightarrow> nat \<Rightarrow> string \<Rightarrow> nat option" where
  "digits_value d base acc [] = Some acc"
| "digits_value d base acc (c # cs) =
     (case d c of None \<Rightarrow> None | Some v \<Rightarrow> digits_value d base (base * acc + v) cs)"

definition parse_octet :: "string \<Rightarrow> nat option" where
  "parse_octet s =
     (if s = [] \<or> 3 < length s \<or> (s \<noteq> ''0'' \<and> hd s = CHR ''0'') then None
      else (case digits_value digit_val 10 0 s of
              Some v \<Rightarrow> if 255 < v then None else Some v
            | None \<Rightarrow> None))"

definition parse_ipv4 :: "string \<Rightarrow> nat option" where
  "parse_ipv4 s =
     (case split_on (CHR ''.'') s of
        [a, b, c, d] \<Rightarrow>
          (case (parse_octet a, parse_octet b, parse_octet c, parse_octet d) of
             (Some a, Some b, Some c, Some d) \<Rightarrow> Some (((a * 256 + b) * 256 + c) * 256 + d)
           | _ \<Rightarrow> None)
      | _ \<Rightarrow> None)"

definition parse_hextet :: "string \<Rightarrow> nat option" where
  "parse_hextet s = (if s = [] \<or> 4 < length s then None else digits_value hexdigit_val 16 0 s)"

text \<open>The parts of an IPv6 text, an IPv4 suffix replaced by its two hextets.\<close>

datatype v6_part = Part string | Hextet nat

fun part_value :: "v6_part \<Rightarrow> nat option" where
  "part_value (Part s) = parse_hextet s"
| "part_value (Hextet n) = Some n"

definition v6_parts :: "string \<Rightarrow> v6_part list option" where
  "v6_parts s =
     (let parts = split_on (CHR '':'') s in
      if length parts < 3 then None
      else if CHR ''.'' \<in> set (last parts) then
        (case parse_ipv4 (last parts) of
           None \<Rightarrow> None
         | Some v \<Rightarrow> Some (map Part (butlast parts) @ [Hextet (v div 65536), Hextet (v mod 65536)]))
      else Some (map Part parts))"

fun parts_value :: "nat \<Rightarrow> v6_part list \<Rightarrow> nat option" where
  "parts_value acc [] = Some acc"
| "parts_value acc (p # ps) =
     (case part_value p of None \<Rightarrow> None | Some v \<Rightarrow> parts_value (acc * 65536 + v) ps)"

definition empty_part :: "v6_part \<Rightarrow> bool" where
  "empty_part p = (p = Part [])"

definition parse_ipv6_number :: "string \<Rightarrow> nat option" where
  "parse_ipv6_number s =
     (case v6_parts s of
        None \<Rightarrow> None
      | Some parts \<Rightarrow>
          if 9 < length parts then None
          else (case filter (\<lambda>i. empty_part (parts ! i)) [1..<length parts - 1] of
                  [] \<Rightarrow>
                    if length parts \<noteq> 8 \<or> empty_part (hd parts) \<or> empty_part (last parts) then None
                    else parts_value 0 parts
                | [skip] \<Rightarrow>
                    (let hi = take skip parts; lo = drop (skip + 1) parts;
                         hi' = (if empty_part (hd parts) then tl hi else hi);
                         lo' = (if empty_part (last parts) then butlast lo else lo) in
                     if empty_part (hd parts) \<and> hi' \<noteq> [] then None
                     else if empty_part (last parts) \<and> lo' \<noteq> [] then None
                     else if 8 \<le> length hi' + length lo' then None
                     else (case parts_value 0 hi' of
                             None \<Rightarrow> None
                           | Some h \<Rightarrow>
                               parts_value (h * 65536 ^ (8 - (length hi' + length lo'))) lo'))
                | _ \<Rightarrow> None))"

definition partition_at :: "char \<Rightarrow> string \<Rightarrow> string \<times> bool \<times> string" where
  "partition_at c s =
     (let front = takeWhile (\<lambda>x. x \<noteq> c) s; rest = dropWhile (\<lambda>x. x \<noteq> c) s in
      case rest of [] \<Rightarrow> (front, False, []) | _ # after \<Rightarrow> (front, True, after))"

definition parse_ip :: "string \<Rightarrow> ip_addr option" where
  "parse_ip s =
     (case (if CHR ''/'' \<in> set s then None else parse_ipv4 s) of
        Some v \<Rightarrow> Some (IPv4 v)
      | None \<Rightarrow>
          if CHR ''/'' \<in> set s then None
          else (let (addr, sep, scope) = partition_at (CHR ''%'') s in
                if sep \<and> (scope = [] \<or> CHR ''%'' \<in> set scope) then None
                else map_option (\<lambda>v. IPv6 v (if sep then Some scope else None))
                       (parse_ipv6_number addr)))"

section \<open>Networks\<close>

datatype ip_network = Net4 nat nat | Net6 nat nat

fun in_network :: "ip_addr \<Rightarrow> ip_network \<Rightarrow> bool" where
  "in_network (IPv4 a) (Net4 base len) = (a div 2 ^ (32 - len) = base div 2 ^ (32 - len))"
| "in_network (IPv6 a s) (Net6 base len) = (a div 2 ^ (128 - len) = base div 2 ^ (128 - len))"
| "in_network _ _ = False"

definition v4 :: "nat \<Rightarrow> nat \<Rightarrow> nat \<Rightarrow> nat \<Rightarrow> nat" where
  "v4 a b c d = ((a * 256 + b) * 256 + c) * 256 + d"

text \<open>\<open>v6 hi lo\<close> is \<open>hi::lo\<close>: leading hextets, zeroes, trailing hextets.\<close>

definition v6 :: "nat list \<Rightarrow> nat list \<Rightarrow> nat" where
  "v6 hi lo = foldl (\<lambda>acc h. acc * 65536 + h) 0 hi * 65536 ^ (8 - length hi)
     + foldl (\<lambda>acc h. acc * 65536 + h) 0 lo"

section \<open>The special-purpose registry\<close>

definition private4 :: "ip_network list" where
  "private4 = [Net4 (v4 0 0 0 0) 8, Net4 (v4 10 0 0 0) 8, Net4 (v4 127 0 0 0) 8,
     Net4 (v4 169 254 0 0) 16, Net4 (v4 172 16 0 0) 12, Net4 (v4 192 0 0 0) 24,
     Net4 (v4 192 0 0 170) 31, Net4 (v4 192 0 2 0) 24, Net4 (v4 192 168 0 0) 16,
     Net4 (v4 198 18 0 0) 15, Net4 (v4 198 51 100 0) 24, Net4 (v4 203 0 113 0) 24,
     Net4 (v4 240 0 0 0) 4, Net4 (v4 255 255 255 255) 32]"

definition private4_exceptions :: "ip_network list" where
  "private4_exceptions = [Net4 (v4 192 0 0 9) 32, Net4 (v4 192 0 0 10) 32]"

definition private6 :: "ip_network list" where
  "private6 = [Net6 (v6 [] [1]) 128, Net6 (v6 [] []) 128, Net6 (v6 [] [0xFFFF, 0, 0]) 96,
     Net6 (v6 [0x64, 0xFF9B, 1] []) 48, Net6 (v6 [0x100] []) 64, Net6 (v6 [0x2001] []) 23,
     Net6 (v6 [0x2001, 0xDB8] []) 32, Net6 (v6 [0x2002] []) 16, Net6 (v6 [0xFC00] []) 7,
     Net6 (v6 [0xFE80] []) 10]"

definition private6_exceptions :: "ip_network list" where
  "private6_exceptions = [Net6 (v6 [0x2001, 1] [1]) 128, Net6 (v6 [0x2001, 1] [2]) 128,
     Net6 (v6 [0x2001, 3] []) 32, Net6 (v6 [0x2001, 4, 0x112] []) 48,
     Net6 (v6 [0x2001, 0x20] []) 28, Net6 (v6 [0x2001, 0x30] []) 28]"

definition reserved6 :: "ip_network list" where
  "reserved6 = [Net6 (v6 [] []) 8, Net6 (v6 [0x100] []) 8, Net6 (v6 [0x200] []) 7,
     Net6 (v6 [0x400] []) 6, Net6 (v6 [0x800] []) 5, Net6 (v6 [0x1000] []) 4,
     Net6 (v6 [0x4000] []) 3, Net6 (v6 [0x6000] []) 3, Net6 (v6 [0x8000] []) 3,
     Net6 (v6 [0xA000] []) 3, Net6 (v6 [0xC000] []) 3, Net6 (v6 [0xE000] []) 4,
     Net6 (v6 [0xF000] []) 5, Net6 (v6 [0xF800] []) 6, Net6 (v6 [0xFE00] []) 9]"

definition in_any :: "ip_addr \<Rightarrow> ip_network list \<Rightarrow> bool" where
  "in_any a nets = list_ex (in_network a) nets"

definition ipv4_mapped :: "ip_addr \<Rightarrow> ip_addr option" where
  "ipv4_mapped a =
     (case a of
        IPv4 _ \<Rightarrow> None
      | IPv6 n _ \<Rightarrow> if n div 2 ^ 32 = 0xFFFF then Some (IPv4 (n mod 2 ^ 32)) else None)"

definition sixtofour :: "ip_addr \<Rightarrow> ip_addr option" where
  "sixtofour a =
     (case a of
        IPv4 _ \<Rightarrow> None
      | IPv6 n _ \<Rightarrow> if n div 2 ^ 112 = 0x2002 then Some (IPv4 (n div 2 ^ 80 mod 2 ^ 32)) else None)"

definition is_private_v4 :: "ip_addr \<Rightarrow> bool" where
  "is_private_v4 a = (in_any a private4 \<and> \<not> in_any a private4_exceptions)"

definition is_private :: "ip_addr \<Rightarrow> bool" where
  "is_private a =
     (case a of
        IPv4 _ \<Rightarrow> is_private_v4 a
      | IPv6 _ _ \<Rightarrow>
          (case ipv4_mapped a of
             Some m \<Rightarrow> is_private_v4 m
           | None \<Rightarrow> in_any a private6 \<and> \<not> in_any a private6_exceptions))"

definition is_global :: "ip_addr \<Rightarrow> bool" where
  "is_global a =
     (case a of
        IPv4 _ \<Rightarrow> \<not> in_network a (Net4 (v4 100 64 0 0) 10) \<and> \<not> is_private a
      | IPv6 _ _ \<Rightarrow> \<not> is_private a)"

definition is_multicast :: "ip_addr \<Rightarrow> bool" where
  "is_multicast a = in_any a [Net4 (v4 224 0 0 0) 4, Net6 (v6 [0xFF00] []) 8]"

definition is_reserved :: "ip_addr \<Rightarrow> bool" where
  "is_reserved a = in_any a (Net4 (v4 240 0 0 0) 4 # reserved6)"

definition is_unspecified :: "ip_addr \<Rightarrow> bool" where
  "is_unspecified a = (case a of IPv4 n \<Rightarrow> n = 0 | IPv6 n _ \<Rightarrow> n = 0)"

definition is_loopback :: "ip_addr \<Rightarrow> bool" where
  "is_loopback a = (case a of IPv4 _ \<Rightarrow> in_network a (Net4 (v4 127 0 0 0) 8) | IPv6 n _ \<Rightarrow> n = 1)"

definition is_link_local :: "ip_addr \<Rightarrow> bool" where
  "is_link_local a = in_any a [Net4 (v4 169 254 0 0) 16, Net6 (v6 [0xFE80] []) 10]"

section \<open>Bounds of the parsed addresses\<close>

lemma parse_octet_bound: "parse_octet s = Some v \<Longrightarrow> v < 256"
  by (auto simp: parse_octet_def split: if_splits option.splits)

lemma parse_ipv4_bound: "parse_ipv4 s = Some v \<Longrightarrow> v < 2 ^ 32"
proof -
  assume "parse_ipv4 s = Some v"
  then obtain a b c d w x y z where "parse_octet a = Some w" "parse_octet b = Some x"
    "parse_octet c = Some y" "parse_octet d = Some z" "v = ((w * 256 + x) * 256 + y) * 256 + z"
    by (auto simp: parse_ipv4_def split: list.splits option.splits)
  moreover from this have "w < 256" "x < 256" "y < 256" "z < 256" by (auto dest: parse_octet_bound)
  ultimately show ?thesis by simp
qed

end
