(* ===== verification/Py_Url.thy ===== *)
theory Py_Url
  imports Prelude Py_Ip
begin

text \<open>
  Python's \<open>urllib.parse.urlsplit\<close> and \<open>urlparse\<close> as the broker uses them: on a \<open>str\<close>, with
  an empty default scheme and fragments allowed. \<open>ValueError\<close> is the left side of the result.
  \<open>urlparse\<close> differs from \<open>urlsplit\<close> in one respect that matters for path checks: it moves
  what follows the first semicolon of the last segment from \<open>path\<close> to \<open>params\<close>. The NFKC
  check of \<open>_checknetloc\<close> concerns non-ASCII hosts; in the code points below 256 only the
  superscripts, fractions and similar compatibility characters change, none of them into a
  delimiter.
\<close>

record split_url =
  url_scheme :: string
  url_netloc :: string
  url_path :: string
  url_query :: string
  url_fragment :: string

datatype url_error = Invalid_IPv6_Url | Invalid_Bracketed_Host | Invalid_Port

definition is_alpha :: "char \<Rightarrow> bool" where
  "is_alpha c = (let n = char_code c in (65 \<le> n \<and> n \<le> 90) \<or> (97 \<le> n \<and> n \<le> 122))"

definition is_scheme_char :: "char \<Rightarrow> bool" where
  "is_scheme_char c = (is_alpha c \<or> digit_val c \<noteq> None \<or> c \<in> {CHR ''+'', CHR ''-'', CHR ''.''})"

definition clean_url :: "string \<Rightarrow> string" where
  "clean_url url =
     filter (\<lambda>c. char_code c \<notin> {9, 10, 13}) (dropWhile (\<lambda>c. char_code c \<le> 32) url)"

definition split_scheme :: "string \<Rightarrow> string \<times> string" where
  "split_scheme url =
     (let (front, found, after) = partition_at (CHR '':'') url in
      if found \<and> front \<noteq> [] \<and> is_alpha (hd front) \<and> list_all is_scheme_char front
      then (str_lower front, after) else ([], url))"

definition split_netloc :: "string \<Rightarrow> string \<times> string" where
  "split_netloc url =
     (if prefix ''//'' url then
        (let rest = drop 2 url; stop = (\<lambda>c. c = CHR ''/'' \<or> c = CHR ''?'' \<or> c = CHR ''#'') in
         (takeWhile (\<lambda>c. \<not> stop c) rest, dropWhile (\<lambda>c. \<not> stop c) rest))
      else ([], url))"

text \<open>\<open>_check_bracketed_host\<close>: an \<open>IPvFuture\<close> literal or an IPv6 address.\<close>

definition bracketed_host_ok :: "string \<Rightarrow> bool" where
  "bracketed_host_ok host =
     (case host of
        CHR ''v'' # rest \<Rightarrow>
          (let (hex, dot, tail) = partition_at (CHR ''.'') rest in
           hex \<noteq> [] \<and> list_all (\<lambda>c. hexdigit_val c \<noteq> None) hex \<and> dot \<and> tail \<noteq> []
             \<and> CHR 0x0A \<notin> set tail)
      | _ \<Rightarrow> (case parse_ip host of Some (IPv6 _ _) \<Rightarrow> True | _ \<Rightarrow> False))"

definition netloc_error :: "string \<Rightarrow> url_error option" where
  "netloc_error netloc =
     (let opn = CHR ''['' \<in> set netloc; cls = CHR '']'' \<in> set netloc in
      if opn \<noteq> cls then Some Invalid_IPv6_Url
      else if opn \<and> \<not> bracketed_host_ok
          (fst (partition_at (CHR '']'') (snd (snd (partition_at (CHR ''['') netloc)))))
        then Some Invalid_Bracketed_Host
      else None)"

definition urlsplit :: "string \<Rightarrow> (url_error, split_url) result" where
  "urlsplit raw =
     (let (scheme, url) = split_scheme (clean_url raw);
          (netloc, url) = split_netloc url in
      case netloc_error netloc of
        Some e \<Rightarrow> Inl e
      | None \<Rightarrow>
          (let (url, _, fragment) = partition_at (CHR ''#'') url;
               (url, _, query) = partition_at (CHR ''?'') url in
           Inr \<lparr>url_scheme = scheme, url_netloc = netloc, url_path = url, url_query = query,
                url_fragment = fragment\<rparr>))"

definition uses_params :: "string list" where
  "uses_params = ['''', ''ftp'', ''hdl'', ''prospero'', ''http'', ''imap'', ''https'', ''shttp'',
     ''rtsp'', ''rtsps'', ''rtspu'', ''sip'', ''sips'', ''mms'', ''sftp'', ''tel'']"

text \<open>\<open>_splitparams\<close>: the first semicolon at or after the last slash.\<close>

definition split_params :: "string \<Rightarrow> string \<times> string" where
  "split_params url =
     (let segs = split_on (CHR ''/'') url;
          (name, found, params) = partition_at (CHR '';'') (last segs) in
      if found then (join_with (CHR ''/'') (butlast segs @ [name]), params) else (url, []))"

definition urlparse :: "string \<Rightarrow> (url_error, split_url \<times> string) result" where
  "urlparse url =
     rbind (urlsplit url) (\<lambda>p.
       if url_scheme p \<in> set uses_params \<and> CHR '';'' \<in> set (url_path p) then
         (let (path, params) = split_params (url_path p) in Inr (p\<lparr>url_path := path\<rparr>, params))
       else Inr (p, []))"

definition urlparse_path :: "string \<Rightarrow> (url_error, string) result" where
  "urlparse_path url = rbind (urlparse url) (\<lambda>(p, params). Inr (url_path p))"

section \<open>Host and port\<close>

text \<open>\<open>rpartition('@')[2]\<close>.\<close>

definition after_at :: "string \<Rightarrow> string" where
  "after_at netloc = last (split_on (CHR ''@'') netloc)"

definition hostinfo :: "string \<Rightarrow> string \<times> string" where
  "hostinfo netloc =
     (let (_, opn, bracketed) = partition_at (CHR ''['') (after_at netloc) in
      if opn then
        (let (host, _, rest) = partition_at (CHR '']'') bracketed;
             (_, _, port) = partition_at (CHR '':'') rest in (host, port))
      else (let (host, _, port) = partition_at (CHR '':'') (after_at netloc) in (host, port)))"

definition netloc_hostname :: "string \<Rightarrow> string option" where
  "netloc_hostname netloc =
     (let (name, _) = hostinfo netloc in
      if name = [] then None
      else (let (host, found, zone) = partition_at (CHR ''%'') name in
            Some (str_lower host @ (if found then CHR ''%'' # zone else []))))"

definition netloc_port :: "string \<Rightarrow> (url_error, nat option) result" where
  "netloc_port netloc =
     (let (_, port) = hostinfo netloc in
      if port = [] then Inr None
      else (case digits_value digit_val 10 0 port of
              None \<Rightarrow> Inl Invalid_Port
            | Some v \<Rightarrow> if 65535 < v then Inl Invalid_Port else Inr (Some v)))"

section \<open>Facts\<close>

lemma partition_at_found: "partition_at c s = (a, True, b) \<longleftrightarrow> s = a @ c # b \<and> c \<notin> set a"
proof
  assume p: "partition_at c s = (a, True, b)"
  then have d: "dropWhile (\<lambda>x. x \<noteq> c) s \<noteq> []" and a: "a = takeWhile (\<lambda>x. x \<noteq> c) s"
    and b: "b = tl (dropWhile (\<lambda>x. x \<noteq> c) s)"
    unfolding partition_at_def Let_def by (cases "dropWhile (\<lambda>x. x \<noteq> c) s"; simp)+
  from hd_dropWhile [OF d] d b have "dropWhile (\<lambda>x. x \<noteq> c) s = c # b"
    by (cases "dropWhile (\<lambda>x. x \<noteq> c) s") simp_all
  moreover have "c \<notin> set a" using a by (auto dest: set_takeWhileD)
  ultimately show "s = a @ c # b \<and> c \<notin> set a" using a by (metis takeWhile_dropWhile_id)
next
  assume "s = a @ c # b \<and> c \<notin> set a"
  moreover from this have "\<forall>x\<in>set a. x \<noteq> c" by auto
  ultimately show "partition_at c s = (a, True, b)"
    by (simp add: partition_at_def Let_def takeWhile_append2 dropWhile_append2)
qed

lemma partition_at_missing: "c \<notin> set s \<Longrightarrow> partition_at c s = (s, False, [])"
proof -
  assume "c \<notin> set s"
  then have "takeWhile (\<lambda>x. x \<noteq> c) s = s" and "dropWhile (\<lambda>x. x \<noteq> c) s = []"
    by (auto simp: takeWhile_eq_all_conv dropWhile_eq_Nil_conv)
  then show ?thesis by (simp only: partition_at_def Let_def list.case)
qed

end
