(* ===== verification/Rule_Evaluation.thy ===== *)
theory Rule_Evaluation
  imports Rule_Matching Url_Path Py_Url
begin

text \<open>
  Ordered, first-match-wins evaluation of permission rules,
  \<open>shared/permissions/evaluation.py\<close>. Logging is left out; \<open>warn\<close> and \<open>binding\<close>, which only
  reach the log, are left out with it. \<open>E\<close> is the regular-expression engine of
  \<open>Rule_Matching\<close>.
\<close>

section \<open>The path a rule sees\<close>

definition full_upstream_rule_path :: "string \<Rightarrow> (url_error, string) result" where
  "full_upstream_rule_path upstream_url =
     rbind (urlparse_path upstream_url) (\<lambda>path.
       Inr (normalize_path (if path = [] then ''/'' else path)))"

definition rule_request_path :: "string option \<Rightarrow> string \<Rightarrow> (url_error, string) result" where
  "rule_request_path relative_path upstream_url =
     (case relative_path of
        Some p \<Rightarrow> Inr p
      | None \<Rightarrow> full_upstream_rule_path upstream_url)"

section \<open>Rules\<close>

record permission_rule =
  rule_effect :: string
  rule_methods :: "string list option"
  rule_path :: "path_matcher option"
  rule_operations :: "string list option"
  rule_id :: "string option"

definition condition_required_effects :: "string list" where
  "condition_required_effects = [''allow'', ''require-approval'']"

definition normalize_methods :: "string list option \<Rightarrow> string list option" where
  "normalize_methods raw = map_option (map str_upper) raw"

definition is_condition_less :: "permission_rule \<Rightarrow> bool" where
  "is_condition_less rule =
     (rule_methods rule = None \<and> rule_path rule = None \<and> rule_operations rule = None)"

text \<open>What a rule is evaluated on.\<close>

record rule_request =
  req_method :: string
  req_path :: string
  req_operation :: "string option"

definition rule_matches :: "regex_engine \<Rightarrow> permission_rule \<Rightarrow> rule_request \<Rightarrow> bool" where
  "rule_matches E rule req =
     (if (case rule_methods rule of None \<Rightarrow> False | Some ms \<Rightarrow> str_upper (req_method req) \<notin> set ms)
      then False
      else if (case rule_path rule of None \<Rightarrow> False | Some m \<Rightarrow> \<not> matcher_matches E m (req_path req))
      then False
      else (case rule_operations rule of
              Some ops \<Rightarrow> (case req_operation req of None \<Rightarrow> False | Some op \<Rightarrow> op \<in> set ops)
            | None \<Rightarrow> True))"

text \<open>The rule the loop skips as misconfigured.\<close>

definition misconfigured :: "permission_rule \<Rightarrow> bool" where
  "misconfigured rule =
     (is_condition_less rule \<and> str_lower (rule_effect rule) \<in> set condition_required_effects)"

fun first_matching_rule :: "regex_engine \<Rightarrow> permission_rule list \<Rightarrow> rule_request \<Rightarrow> nat option" where
  "first_matching_rule E [] req = None"
| "first_matching_rule E (rule # rules) req =
     (if misconfigured rule then map_option Suc (first_matching_rule E rules req)
      else if rule_matches E rule req then Some 0
      else map_option Suc (first_matching_rule E rules req))"

definition is_allowed :: "permission_rule list \<Rightarrow> nat option \<Rightarrow> bool" where
  "is_allowed rules idx =
     (case idx of None \<Rightarrow> False | Some i \<Rightarrow> str_lower (rule_effect (rules ! i)) = ''allow'')"

definition rule_verdict :: "permission_rule list \<Rightarrow> nat option \<Rightarrow> string" where
  "rule_verdict rules idx =
     (case idx of
        None \<Rightarrow> ''deny''
      | Some i \<Rightarrow>
          (let effect = str_lower (rule_effect (rules ! i)) in
           if effect \<in> set condition_required_effects then effect else ''deny''))"

definition evaluate_rules :: "regex_engine \<Rightarrow> permission_rule list \<Rightarrow> rule_request \<Rightarrow> bool" where
  "evaluate_rules E rules req = is_allowed rules (first_matching_rule E rules req)"

section \<open>Base-path divergence\<close>

datatype divergence_kind =
  Legacy_Allow_No_Longer_Matches | Legacy_Deny_No_Longer_Matches | Legacy_Ask_No_Longer_Matches

record path_divergence =
  divergence :: divergence_kind
  divergence_rule_index :: nat
  divergence_rule_path :: "string option"

definition pattern_source :: "pattern \<Rightarrow> string option" where
  "pattern_source p = (case p of User_Regex r \<Rightarrow> Some r | Template _ \<Rightarrow> None)"

text \<open>
  \<open>_matcher_source\<close>: a template pattern always comes with its literal, so the source of the
  generated expression is never asked for.
\<close>

definition matcher_source :: "path_matcher option \<Rightarrow> string option" where
  "matcher_source m =
     (case m of
        None \<Rightarrow> None
      | Some m \<Rightarrow>
          (case matcher_literal m of
             Some lit \<Rightarrow> Some lit
           | None \<Rightarrow> Option.bind (matcher_pattern m) pattern_source))"

definition base_path_divergence ::
  "regex_engine \<Rightarrow> permission_rule list \<Rightarrow> string \<Rightarrow> string \<Rightarrow> string \<Rightarrow> string option
     \<Rightarrow> path_divergence option" where
  "base_path_divergence E rules method relative_path upstream_path operation_id =
     (let rel = \<lparr>req_method = method, req_path = relative_path, req_operation = operation_id\<rparr>;
          up = \<lparr>req_method = method, req_path = upstream_path, req_operation = operation_id\<rparr>;
          rel_idx = first_matching_rule E rules rel;
          up_idx = first_matching_rule E rules up in
      if relative_path = upstream_path then None
      else (case up_idx of
              None \<Rightarrow> None
            | Some i \<Rightarrow>
                if rule_verdict rules rel_idx = rule_verdict rules up_idx then None
                else if rule_matches E (rules ! i) rel then None
                else (let effect = str_lower (rule_effect (rules ! i)) in
                      Some \<lparr>divergence =
                              (if effect = ''allow'' then Legacy_Allow_No_Longer_Matches
                               else if effect = ''require-approval'' then Legacy_Ask_No_Longer_Matches
                               else Legacy_Deny_No_Longer_Matches),
                            divergence_rule_index = i,
                            divergence_rule_path = matcher_source (rule_path (rules ! i))\<rparr>)))"

section \<open>The deciding rule\<close>

definition decides :: "regex_engine \<Rightarrow> rule_request \<Rightarrow> permission_rule \<Rightarrow> bool" where
  "decides E req rule = (\<not> misconfigured rule \<and> rule_matches E rule req)"

lemma first_matching_rule_find:
  "first_matching_rule E rules req = find_index (decides E req) rules"
  by (induction rules) (auto simp: decides_def)

lemmas first_matching_rule_Some = find_index_Some [of "decides E req" for E req, folded first_matching_rule_find]

lemmas first_matching_rule_None = find_index_None [of "decides E req" for E req, folded first_matching_rule_find]

lemma rule_verdict_cases: "rule_verdict rules idx \<in> {''allow'', ''require-approval'', ''deny''}"
  by (auto simp: rule_verdict_def condition_required_effects_def Let_def split: option.splits)

lemma is_allowed_verdict: "is_allowed rules idx \<longleftrightarrow> rule_verdict rules idx = ''allow''"
  by (auto simp: is_allowed_def rule_verdict_def condition_required_effects_def Let_def
      split: option.splits)

text \<open>
  C33: what an allowed request rests on: an \<open>allow\<close> rule that constrains something, matches
  the request, and stands before every other rule that would have decided it, in particular
  before every matching \<open>deny\<close>. Without such a rule the answer is no.
\<close>

theorem evaluate_rules_allow_iff:
  "evaluate_rules E rules req \<longleftrightarrow>
     (\<exists>i < length rules.
        str_lower (rule_effect (rules ! i)) = ''allow'' \<and> \<not> is_condition_less (rules ! i) \<and>
        rule_matches E (rules ! i) req \<and>
        list_all (\<lambda>r. \<not> decides E req r) (take i rules))"
proof -
  have before: "list_all P (take i rules) \<longleftrightarrow> (\<forall>j<i. P (rules ! j))" if "i < length rules" for i P
    using that by (auto simp: list_all_length)
  have "evaluate_rules E rules req \<longleftrightarrow>
      (\<exists>i. first_matching_rule E rules req = Some i \<and> str_lower (rule_effect (rules ! i)) = ''allow'')"
    by (auto simp: evaluate_rules_def is_allowed_def split: option.splits)
  also have "\<dots> \<longleftrightarrow> (\<exists>i < length rules.
        str_lower (rule_effect (rules ! i)) = ''allow'' \<and> \<not> is_condition_less (rules ! i) \<and>
        rule_matches E (rules ! i) req \<and>
        (\<forall>j < i. \<not> decides E req (rules ! j)))"
    unfolding first_matching_rule_Some
    by (auto simp: decides_def misconfigured_def condition_required_effects_def)
  finally show ?thesis using before by (auto simp: before)
qed

section \<open>Misconfigured rules\<close>

lemma first_matching_rule_append:
  "first_matching_rule E (xs @ ys) req =
     (case first_matching_rule E xs req of
        Some i \<Rightarrow> Some i
      | None \<Rightarrow> map_option (\<lambda>i. i + length xs) (first_matching_rule E ys req))"
  unfolding first_matching_rule_find by (rule find_index_append)

lemma rule_verdict_Cons:
  "rule_verdict (rule # rules) (map_option Suc idx) = rule_verdict rules idx"
  by (simp add: rule_verdict_def split: option.split)

text \<open>
  A condition-less \<open>allow\<close> or \<open>require-approval\<close> rule that slipped past the schema is
  inert: the verdict on every request is the one of the list without such rules.
\<close>

theorem misconfigured_rules_inert:
  "rule_verdict rules (first_matching_rule E rules req) =
   rule_verdict (filter (\<lambda>r. \<not> misconfigured r) rules)
     (first_matching_rule E (filter (\<lambda>r. \<not> misconfigured r) rules) req)"
proof (induction rules)
  case Nil
  then show ?case by simp
next
  case (Cons r rules)
  then show ?case
    by (auto simp: rule_verdict_Cons) (simp add: rule_verdict_def)
qed

text \<open>
  Rules appended behind a list cannot change an explicit decision of the list: they are
  consulted only where it decides nothing.
\<close>

theorem appended_rules_only_fill_gaps:
  "rule_verdict (rules @ extra) (first_matching_rule E (rules @ extra) req) =
     (case first_matching_rule E rules req of
        Some i \<Rightarrow> rule_verdict rules (Some i)
      | None \<Rightarrow> rule_verdict extra (first_matching_rule E extra req))"
proof (cases "first_matching_rule E rules req")
  case None
  then show ?thesis
    by (cases "first_matching_rule E extra req")
      (simp_all add: first_matching_rule_append rule_verdict_def nth_append)
next
  case (Some i)
  then have "i < length rules" by (simp only: first_matching_rule_Some)
  with Some show ?thesis by (simp add: first_matching_rule_append rule_verdict_def nth_append)
qed

section \<open>What a divergence says\<close>

text \<open>
  A reported divergence names a rule that decides the request on the full upstream
  path, does not match it on the spec-relative path, and whose kind is its own effect; the
  two verdicts differ. The kind says nothing of the new verdict beyond that
  (\<open>divergence_kind_leaves_verdict_open\<close>).
\<close>

theorem base_path_divergence_sound:
  assumes "base_path_divergence E rules method relative_path upstream_path operation_id = Some d"
  defines "req path \<equiv> \<lparr>req_method = method, req_path = path, req_operation = operation_id\<rparr>"
  defines "verdict path \<equiv> rule_verdict rules (first_matching_rule E rules (req path))"
  shows "first_matching_rule E rules (req upstream_path) = Some (divergence_rule_index d) \<and>
    \<not> rule_matches E (rules ! divergence_rule_index d) (req relative_path) \<and>
    verdict upstream_path = (case divergence d of
        Legacy_Allow_No_Longer_Matches \<Rightarrow> ''allow''
      | Legacy_Ask_No_Longer_Matches \<Rightarrow> ''require-approval''
      | Legacy_Deny_No_Longer_Matches \<Rightarrow> ''deny'') \<and>
    verdict relative_path \<noteq> verdict upstream_path"
  using assms(1)
  by (auto simp: base_path_divergence_def req_def verdict_def Let_def rule_verdict_def
      condition_required_effects_def split: option.splits if_splits)

definition demo_rule :: "string \<Rightarrow> string \<Rightarrow> permission_rule" where
  "demo_rule effect path =
     \<lparr>rule_effect = effect, rule_methods = None,
      rule_path = compile_matcher demo_engine (Some path) ''prefix'', rule_operations = None,
      rule_id = None\<rparr>"

theorem base_path_divergence_sound_witness:
  "\<exists>d. base_path_divergence demo_engine [demo_rule ''deny'' ''/eu/a'', demo_rule ''allow'' ''/''] ''GET''
        ''/a'' ''/eu/a'' None = Some d \<and> divergence d = Legacy_Deny_No_Longer_Matches \<and>
     rule_verdict [demo_rule ''deny'' ''/eu/a'', demo_rule ''allow'' ''/'']
       (first_matching_rule demo_engine [demo_rule ''deny'' ''/eu/a'', demo_rule ''allow'' ''/'']
         \<lparr>req_method = ''GET'', req_path = ''/a'', req_operation = None\<rparr>) \<noteq> ''deny''"
proof -
  let ?d = "\<lparr>divergence = Legacy_Deny_No_Longer_Matches, divergence_rule_index = 0,
    divergence_rule_path = Some ''/eu/a''\<rparr>"
  have d: "base_path_divergence demo_engine [demo_rule ''deny'' ''/eu/a'', demo_rule ''allow'' ''/''] ''GET''
        ''/a'' ''/eu/a'' None = Some ?d" by code_simp
  have k: "divergence ?d = Legacy_Deny_No_Longer_Matches" by simp
  note sound = base_path_divergence_sound [OF d, unfolded k divergence_kind.case]
  from sound have "rule_verdict [demo_rule ''deny'' ''/eu/a'', demo_rule ''allow'' ''/'']
       (first_matching_rule demo_engine [demo_rule ''deny'' ''/eu/a'', demo_rule ''allow'' ''/'']
         \<lparr>req_method = ''GET'', req_path = ''/a'', req_operation = None\<rparr>) \<noteq> ''deny''"
    by (elim conjE) (simp only: simp_thms)
  with d k show ?thesis by blast
qed

text \<open>
  The comment on \<open>LEGACY_DENY_NO_LONGER_MATCHES\<close> says the request is now allowed by a later
  rule, and the one on \<open>LEGACY_ALLOW_NO_LONGER_MATCHES\<close> that it is now denied: in both cases
  the request may instead be held for approval, and the rule that decides it may come before
  the one reported.
\<close>

lemma divergence_kind_leaves_verdict_open:
  "\<exists>rules d. base_path_divergence demo_engine rules ''GET'' ''/a'' ''/eu/a'' None = Some d \<and>
     divergence d = Legacy_Deny_No_Longer_Matches \<and>
     rule_verdict rules (first_matching_rule demo_engine rules
       \<lparr>req_method = ''GET'', req_path = ''/a'', req_operation = None\<rparr>) = ''require-approval'' \<and>
     first_matching_rule demo_engine rules
       \<lparr>req_method = ''GET'', req_path = ''/a'', req_operation = None\<rparr> = Some 0 \<and>
     divergence_rule_index d = 1"
proof -
  let ?rules = "[demo_rule ''require-approval'' ''/a'', demo_rule ''deny'' ''/eu'']"
  have "base_path_divergence demo_engine ?rules ''GET'' ''/a'' ''/eu/a'' None =
      Some \<lparr>divergence = Legacy_Deny_No_Longer_Matches, divergence_rule_index = 1,
        divergence_rule_path = Some ''/eu''\<rparr>" by code_simp
  moreover have "first_matching_rule demo_engine ?rules
      \<lparr>req_method = ''GET'', req_path = ''/a'', req_operation = None\<rparr> = Some 0" by code_simp
  moreover have "rule_verdict ?rules (Some 0) = ''require-approval''" by code_simp
  ultimately show ?thesis by (intro exI [of _ ?rules] exI) auto
qed

section \<open>The fallback path\<close>

text \<open>
  Without a server-relative path from discovery, rules are evaluated on a canonical
  path whenever the upstream URL parses at all.
\<close>

theorem fallback_rule_path_canonical:
  "case rule_request_path None upstream_url of
     Inl e \<Rightarrow> urlparse_path upstream_url = Inl e
   | Inr path \<Rightarrow> canonical_path path"
  using canonical_normalize_path
  by (auto simp: rule_request_path_def full_upstream_rule_path_def rbind_def split: sum.splits)

end
