(* ===== verification/Py_Heap.thy ===== *)
theory Py_Heap
  imports Main "HOL-Library.Multiset"
begin

text \<open>
  Python's \<open>heapq\<close> on a list: the element at \<open>i\<close> is at most those at \<open>2i+1\<close> and \<open>2i+2\<close>.
  The loops keep the new item aside while they move the hole, as the library does. The
  interface the expiry indexes rely on is the locale \<open>min_queue\<close>; the list implementation is
  its interpretation.
\<close>

section \<open>The interface\<close>

locale min_queue =
  fixes top :: "'q \<Rightarrow> 'a::linorder option"
    and push :: "'a \<Rightarrow> 'q \<Rightarrow> 'q"
    and pop :: "'q \<Rightarrow> 'q"
    and items :: "'q \<Rightarrow> 'a multiset"
    and ordered :: "'q \<Rightarrow> bool"
  assumes top_None: "top q = None \<longleftrightarrow> items q = {#}"
    and top_in: "top q = Some x \<Longrightarrow> x \<in># items q"
    and top_least: "ordered q \<Longrightarrow> top q = Some x \<Longrightarrow> y \<in># items q \<Longrightarrow> x \<le> y"
    and items_push: "items (push x q) = add_mset x (items q)"
    and items_pop: "top q = Some x \<Longrightarrow> items q = add_mset x (items (pop q))"
    and ordered_push: "ordered q \<Longrightarrow> ordered (push x q)"
    and ordered_pop: "ordered q \<Longrightarrow> top q = Some x \<Longrightarrow> ordered (pop q)"
begin

lemma pop_smaller: "top q = Some x \<Longrightarrow> size (items (pop q)) < size (items q)"
  using items_pop by fastforce

lemma pop_subset: "top q = Some x \<Longrightarrow> set_mset (items (pop q)) \<subseteq> set_mset (items q)"
  using items_pop by fastforce

text \<open>A test that is monotone in the item fails everywhere once it fails at the top.\<close>

lemma none_below_top:
  "ordered q \<Longrightarrow> top q = Some x \<Longrightarrow> (\<And>a b. a \<le> b \<Longrightarrow> P b \<Longrightarrow> P a) \<Longrightarrow> \<not> P x \<Longrightarrow>
     \<forall>y\<in>#items q. \<not> P y"
  using top_least by blast

end

section \<open>The list implementation\<close>

definition parent :: "nat \<Rightarrow> nat" where
  "parent i = (i - 1) div 2"

lemma parent_less: "0 < i \<Longrightarrow> parent i < i"
  by (simp add: parent_def)

text \<open>\<open>_siftdown(heap, startpos, pos)\<close> for the new item \<open>x\<close>.\<close>

function sift_down :: "'a::linorder list \<Rightarrow> nat \<Rightarrow> nat \<Rightarrow> 'a \<Rightarrow> 'a list" where
  "sift_down xs startpos pos x =
     (if startpos < pos \<and> x < xs ! parent pos
      then sift_down (xs[pos := xs ! parent pos]) startpos (parent pos) x
      else xs[pos := x])"
  by pat_completeness auto
termination
  by (relation "measure (\<lambda>(xs, startpos, pos, x). pos)") (auto simp: parent_less)

declare sift_down.simps [simp del]

definition heappush :: "'a::linorder \<Rightarrow> 'a list \<Rightarrow> 'a list" where
  "heappush x xs = sift_down (xs @ [x]) 0 (length xs) x"

text \<open>The loop of \<open>_siftup\<close>: the smaller child moves into the hole until it is a leaf.\<close>

definition smaller_child :: "'a::linorder list \<Rightarrow> nat \<Rightarrow> nat" where
  "smaller_child xs pos =
     (let c = 2 * pos + 1 in
      if c + 1 < length xs \<and> \<not> xs ! c < xs ! (c + 1) then c + 1 else c)"

lemma smaller_child_bounds:
  "2 * pos + 1 < length xs \<Longrightarrow>
     smaller_child xs pos < length xs \<and> pos < smaller_child xs pos \<and> parent (smaller_child xs pos) = pos"
  by (auto simp: smaller_child_def Let_def parent_def)

function sink_hole :: "'a::linorder list \<Rightarrow> nat \<Rightarrow> 'a list \<times> nat" where
  "sink_hole xs pos =
     (if 2 * pos + 1 < length xs
      then sink_hole (xs[pos := xs ! smaller_child xs pos]) (smaller_child xs pos)
      else (xs, pos))"
  by pat_completeness auto
termination
  by (relation "measure (\<lambda>(xs, pos). length xs - pos)")
    (auto dest: smaller_child_bounds simp: smaller_child_def Let_def)

declare sink_hole.simps [simp del]

definition sift_up :: "'a::linorder list \<Rightarrow> nat \<Rightarrow> 'a list" where
  "sift_up xs pos = (let x = xs ! pos; (ys, q) = sink_hole xs pos in sift_down ys pos q x)"

definition heappop :: "'a::linorder list \<Rightarrow> 'a list" where
  "heappop xs =
     (let x = last xs; rest = butlast xs in
      if rest = [] then [] else sift_up (rest[0 := x]) 0)"

definition heap_top :: "'a list \<Rightarrow> 'a option" where
  "heap_top xs = (case xs of [] \<Rightarrow> None | x # _ \<Rightarrow> Some x)"

definition heapify :: "'a::linorder list \<Rightarrow> 'a list" where
  "heapify xs = foldl sift_up xs (rev [0..<length xs div 2])"

section \<open>Contents\<close>

lemma mset_move:
  "p < length xs \<Longrightarrow> q < length xs \<Longrightarrow> p \<noteq> q \<Longrightarrow>
     mset (xs[p := xs ! q, q := x]) = mset (xs[p := x])"
proof -
  assume *: "p < length xs" "q < length xs" "p \<noteq> q"
  let ?ys = "xs[p := x]"
  have "xs[p := xs ! q, q := x] = ?ys[p := ?ys ! q, q := ?ys ! p]"
    using * by (simp add: nth_list_update)
  also have "mset \<dots> = mset ?ys" using * by (intro mset_swap) simp_all
  finally show ?thesis .
qed

lemma length_sift_down [simp]: "length (sift_down xs s p x) = length xs"
  by (induction xs s p x rule: sift_down.induct) (simp add: sift_down.simps)

lemma mset_sift_down: "p < length xs \<Longrightarrow> mset (sift_down xs s p x) = mset (xs[p := x])"
proof (induction xs s p x rule: sift_down.induct)
  case (1 xs s p x)
  show ?case
  proof (cases "s < p \<and> x < xs ! parent p")
    case True
    then have "parent p < p" by (intro parent_less) simp
    with 1 True have "mset (sift_down xs s p x) = mset (xs[p := xs ! parent p, parent p := x])"
      by (subst sift_down.simps) simp
    also have "\<dots> = mset (xs[p := x])"
      using 1(2) \<open>parent p < p\<close> by (intro mset_move) simp_all
    finally show ?thesis .
  next
    case False
    then show ?thesis by (subst sift_down.simps) auto
  qed
qed

lemma sink_hole_props:
  "p < length xs \<Longrightarrow> sink_hole xs p = (ys, q) \<Longrightarrow>
     length ys = length xs \<and> q < length xs \<and> mset (ys[q := x]) = mset (xs[p := x])"
proof (induction xs p arbitrary: ys q rule: sink_hole.induct)
  case (1 xs p)
  show ?case
  proof (cases "2 * p + 1 < length xs")
    case True
    let ?c = "smaller_child xs p"
    from smaller_child_bounds [OF True] have c: "?c < length xs" "p < ?c" by auto
    have "sink_hole (xs[p := xs ! ?c]) ?c = (ys, q)"
      using 1(3) True by (simp add: sink_hole.simps [of xs p])
    from 1(1) [OF True _ this] c have "length ys = length xs \<and> q < length xs
        \<and> mset (ys[q := x]) = mset (xs[p := xs ! ?c, ?c := x])" by simp
    then show ?thesis using c 1(2) mset_move [of p xs ?c x] by simp
  next
    case False
    with 1(2,3) show ?thesis by (simp add: sink_hole.simps [of xs p])
  qed
qed

lemma sift_up_props: "p < length xs \<Longrightarrow> mset (sift_up xs p) = mset xs \<and> length (sift_up xs p) = length xs"
proof -
  assume p: "p < length xs"
  obtain ys q where s: "sink_hole xs p = (ys, q)" by (cases "sink_hole xs p")
  from sink_hole_props [OF p s, of "xs ! p"] show ?thesis
    by (simp add: sift_up_def s mset_sift_down)
qed

lemma mset_heappush: "mset (heappush x xs) = add_mset x (mset xs)"
  by (simp add: heappush_def mset_sift_down)

lemma mset_heappop: "xs \<noteq> [] \<Longrightarrow> mset xs = add_mset (hd xs) (mset (heappop xs))"
proof -
  assume ne: "xs \<noteq> []"
  show ?thesis
  proof (cases "butlast xs = []")
    case True
    with ne obtain x where "xs = [x]" by (cases xs) (auto split: if_splits)
    then show ?thesis by (simp add: heappop_def)
  next
    case False
    then obtain a as where b: "butlast xs = a # as" by (cases "butlast xs") auto
    have xs: "xs = (a # as) @ [last xs]" using ne append_butlast_last_id b by metis
    then have "hd xs = a" by (metis append_Cons list.sel(1))
    have "mset (heappop xs) = mset (last xs # as)"
      using sift_up_props [of 0 "last xs # as"] by (simp add: heappop_def b)
    also have "add_mset a \<dots> = mset xs" by (subst (2) xs) simp
    finally show ?thesis using \<open>hd xs = a\<close> by simp
  qed
qed

lemma mset_heapify: "mset (heapify xs) = mset xs"
proof -
  have "(\<forall>i\<in>set js. i < length ys) \<Longrightarrow> mset (foldl sift_up ys js) = mset ys"
    for js and ys :: "'a list"
    by (induction js arbitrary: ys) (auto simp: sift_up_props)
  moreover have "\<forall>i\<in>set (rev [0..<length xs div 2]). i < length xs" by auto
  ultimately show ?thesis unfolding heapify_def by blast
qed

section \<open>Order\<close>

definition heap_ordered :: "'a::linorder list \<Rightarrow> bool" where
  "heap_ordered xs = (\<forall>i<length xs. 0 < i \<longrightarrow> xs ! parent i \<le> xs ! i)"

text \<open>A heap with a hole at \<open>p\<close>: what holds of the elements around it.\<close>

definition hole_ok :: "'a::linorder list \<Rightarrow> nat \<Rightarrow> bool" where
  "hole_ok xs p =
     ((\<forall>i<length xs. 0 < i \<longrightarrow> i \<noteq> p \<longrightarrow> parent i \<noteq> p \<longrightarrow> xs ! parent i \<le> xs ! i) \<and>
      (\<forall>c<length xs. 0 < c \<longrightarrow> parent c = p \<longrightarrow> 0 < p \<longrightarrow> xs ! parent p \<le> xs ! c))"

lemma hole_okD:
  "hole_ok xs p \<Longrightarrow> i < length xs \<Longrightarrow> 0 < i \<Longrightarrow> i \<noteq> p \<Longrightarrow> parent i \<noteq> p \<Longrightarrow> xs ! parent i \<le> xs ! i"
  "hole_ok xs p \<Longrightarrow> c < length xs \<Longrightarrow> 0 < c \<Longrightarrow> parent c = p \<Longrightarrow> 0 < p \<Longrightarrow> xs ! parent p \<le> xs ! c"
  by (auto simp: hole_ok_def)

lemma heap_ordered_hole: "heap_ordered xs \<Longrightarrow> hole_ok xs p"
proof -
  assume h: "heap_ordered xs"
  have "xs ! parent p \<le> xs ! c" if "c < length xs" "0 < c" "parent c = p" "0 < p" for c
  proof -
    have "xs ! p \<le> xs ! c" using h that by (auto simp: heap_ordered_def)
    moreover have "p < length xs" using parent_less that by (metis less_trans)
    then have "xs ! parent p \<le> xs ! p" using h that by (simp add: heap_ordered_def)
    ultimately show ?thesis by (rule order_trans [rotated])
  qed
  with h show ?thesis by (auto simp: hole_ok_def heap_ordered_def)
qed

lemma sift_down_ordered:
  "p < length xs \<Longrightarrow> s = 0 \<Longrightarrow> hole_ok xs p \<Longrightarrow>
   (\<forall>c<length xs. 0 < c \<longrightarrow> parent c = p \<longrightarrow> x \<le> xs ! c) \<Longrightarrow> heap_ordered (sift_down xs s p x)"
proof (induction xs s p x rule: sift_down.induct)
  case (1 xs s p x)
  note hole = hole_okD [OF 1(4)]
  show ?case
  proof (cases "s < p \<and> x < xs ! parent p")
    case True
    let ?r = "parent p" and ?ys = "xs[p := xs ! parent p]"
    from True have r: "?r < p" "?r < length xs" using parent_less [of p] 1(2) by auto
    have rise: "xs ! parent ?r \<le> xs ! ?r" if "0 < ?r"
      using hole(1) [of ?r] that r parent_less [of ?r] by auto
    have sib: "xs ! ?r \<le> xs ! c" if "c < length xs" "0 < c" "c \<noteq> p" "parent c = ?r" for c
      using hole(1) [of c] that r by auto
    have "hole_ok ?ys ?r"
      unfolding hole_ok_def
    proof (intro conjI allI impI)
      fix i assume i: "i < length ?ys" "0 < i" "i \<noteq> ?r" "parent i \<noteq> ?r"
      then have "i \<noteq> p" by auto
      with i hole 1(2) True show "?ys ! parent i \<le> ?ys ! i"
        by (cases "parent i = p") (auto simp: nth_list_update)
    next
      fix c assume c: "c < length ?ys" "0 < c" "parent c = ?r" "0 < ?r"
      have "parent ?r \<noteq> p" using parent_less [OF c(4)] r by simp
      then have "?ys ! parent ?r = xs ! parent ?r" by simp
      also have "\<dots> \<le> xs ! ?r" using rise c by simp
      also have "\<dots> \<le> ?ys ! c" using sib c 1(2) by (cases "c = p") auto
      finally show "?ys ! parent ?r \<le> ?ys ! c" .
    qed
    moreover have "\<forall>c<length ?ys. 0 < c \<longrightarrow> parent c = ?r \<longrightarrow> x \<le> ?ys ! c"
    proof (intro allI impI)
      fix c assume c: "c < length ?ys" "0 < c" "parent c = ?r"
      have "x \<le> xs ! ?r" using True by (simp add: less_imp_le)
      also have "\<dots> \<le> ?ys ! c" using sib c 1(2) by (cases "c = p") auto
      finally show "x \<le> ?ys ! c" .
    qed
    ultimately have "heap_ordered (sift_down ?ys s ?r x)"
      using 1(1) [OF True] 1(3) r by simp
    with True show ?thesis by (subst sift_down.simps) simp
  next
    case False
    have "heap_ordered (xs[p := x])"
      unfolding heap_ordered_def
    proof (intro allI impI)
      fix i assume i: "i < length (xs[p := x])" "0 < i"
      consider "i = p" | "i \<noteq> p" "parent i = p" | "i \<noteq> p" "parent i \<noteq> p" by blast
      then show "xs[p := x] ! parent i \<le> xs[p := x] ! i"
      proof cases
        case 1
        with i False \<open>s = 0\<close> parent_less [OF i(2)] show ?thesis by (auto simp: not_less)
      next
        case 2
        with i \<open>\<forall>c<length xs. 0 < c \<longrightarrow> parent c = p \<longrightarrow> x \<le> xs ! c\<close> \<open>p < length xs\<close>
        show ?thesis by auto
      next
        case 3
        with i hole(1) show ?thesis by simp
      qed
    qed
    with False show ?thesis by (subst sift_down.simps) auto
  qed
qed

lemma smaller_child_least:
  "2 * p + 1 < length xs \<Longrightarrow> c < length xs \<Longrightarrow> 0 < c \<Longrightarrow> parent c = p \<Longrightarrow>
     xs ! smaller_child xs p \<le> xs ! c"
proof -
  assume *: "2 * p + 1 < length xs" "c < length xs" "0 < c" "parent c = p"
  then have "c = 2 * p + 1 \<or> c = 2 * p + 2" by (auto simp: parent_def)
  with * show ?thesis by (auto simp: smaller_child_def Let_def)
qed

lemma sink_hole_ok:
  "p < length xs \<Longrightarrow> hole_ok xs p \<Longrightarrow> sink_hole xs p = (ys, q) \<Longrightarrow>
     hole_ok ys q \<and> (\<forall>c<length ys. 0 < c \<longrightarrow> parent c \<noteq> q)"
proof (induction xs p arbitrary: ys q rule: sink_hole.induct)
  case (1 xs p)
  note hole = hole_okD [OF 1(3)]
  show ?case
  proof (cases "2 * p + 1 < length xs")
    case True
    let ?c = "smaller_child xs p" and ?zs = "xs[p := xs ! smaller_child xs p]"
    from smaller_child_bounds [OF True] have c: "?c < length xs" "p < ?c" "parent ?c = p" by auto
    have "hole_ok ?zs ?c"
      unfolding hole_ok_def
    proof (intro conjI allI impI)
      fix i assume i: "i < length ?zs" "0 < i" "i \<noteq> ?c" "parent i \<noteq> ?c"
      consider "i = p" | "i \<noteq> p" "parent i = p" | "i \<noteq> p" "parent i \<noteq> p" by blast
      then show "?zs ! parent i \<le> ?zs ! i"
      proof cases
        case 1
        with hole(2) [of ?c] c i parent_less [OF i(2)] show ?thesis by auto
      next
        case 2
        with smaller_child_least [OF True] i \<open>p < length xs\<close> show ?thesis by auto
      next
        case 3
        with hole(1) i show ?thesis by simp
      qed
    next
      fix d assume d: "d < length ?zs" "0 < d" "parent d = ?c" "0 < ?c"
      have "d \<noteq> p" using parent_less [OF d(2)] d(3) c(2) by auto
      with hole(1) [of d] d c \<open>p < length xs\<close> show "?zs ! parent ?c \<le> ?zs ! d" by auto
    qed
    moreover have "sink_hole ?zs ?c = (ys, q)"
      using 1(4) True by (simp add: sink_hole.simps [of xs p])
    ultimately show ?thesis using 1(1) [OF True, of ys q] c by simp
  next
    case False
    then have "\<forall>c<length xs. 0 < c \<longrightarrow> parent c \<noteq> p" by (auto simp: parent_def)
    with False 1(3,4) show ?thesis by (auto simp: sink_hole.simps [of xs p])
  qed
qed

lemma sift_up_ordered: "0 < length xs \<Longrightarrow> hole_ok xs 0 \<Longrightarrow> heap_ordered (sift_up xs 0)"
proof -
  assume *: "0 < length xs" "hole_ok xs 0"
  obtain ys q where s: "sink_hole xs 0 = (ys, q)" by (cases "sink_hole xs 0")
  from sink_hole_props [OF *(1) s] sink_hole_ok [OF * s] show ?thesis
    by (auto simp: sift_up_def s intro!: sift_down_ordered)
qed

lemma heap_ordered_push: "heap_ordered xs \<Longrightarrow> heap_ordered (heappush x xs)"
proof -
  assume h: "heap_ordered xs"
  have no_child: "parent c \<noteq> length xs" if "c < length (xs @ [x])" "0 < c" for c
    using parent_less [OF that(2)] that(1) by auto
  have "hole_ok (xs @ [x]) (length xs)"
    unfolding hole_ok_def
  proof (intro conjI allI impI)
    fix i assume i: "i < length (xs @ [x])" "0 < i" "i \<noteq> length xs"
    then have "i < length xs" "parent i < length xs" using parent_less [OF i(2)] by auto
    with h i show "(xs @ [x]) ! parent i \<le> (xs @ [x]) ! i"
      by (simp add: nth_append heap_ordered_def)
  qed (use no_child in auto)
  then show ?thesis using no_child by (auto simp: heappush_def intro!: sift_down_ordered)
qed

lemma heap_ordered_butlast: "heap_ordered xs \<Longrightarrow> heap_ordered (butlast xs)"
proof -
  assume h: "heap_ordered xs"
  have "butlast xs ! parent i \<le> butlast xs ! i" if "i < length (butlast xs)" "0 < i" for i
    using h that parent_less [OF that(2)] by (simp add: nth_butlast heap_ordered_def)
  then show ?thesis by (simp add: heap_ordered_def)
qed

lemma heap_ordered_pop: "heap_ordered xs \<Longrightarrow> heap_ordered (heappop xs)"
proof (cases "butlast xs = []")
  case True
  then show ?thesis by (simp add: heappop_def heap_ordered_def)
next
  case False
  assume "heap_ordered xs"
  then have "hole_ok (butlast xs) 0" by (intro heap_ordered_hole heap_ordered_butlast)
  then have "hole_ok ((butlast xs)[0 := last xs]) 0"
    by (auto simp: hole_ok_def nth_list_update parent_def)
  with False show ?thesis by (auto simp: heappop_def intro!: sift_up_ordered)
qed

lemma heap_ordered_least: "heap_ordered xs \<Longrightarrow> i < length xs \<Longrightarrow> xs ! 0 \<le> xs ! i"
proof (induction i rule: less_induct)
  case (less i)
  show ?case
  proof (cases "i = 0")
    case False
    then have p: "parent i < i" by (simp add: parent_less)
    with less have "xs ! 0 \<le> xs ! parent i" by simp
    also have "\<dots> \<le> xs ! i" using less.prems False by (simp add: heap_ordered_def)
    finally show ?thesis .
  qed simp
qed

interpretation heapq: min_queue heap_top heappush heappop mset heap_ordered
proof unfold_locales
  fix q :: "'a::linorder list" and x y
  show "heap_top q = None \<longleftrightarrow> mset q = {#}" by (cases q) (auto simp: heap_top_def)
  show "heap_top q = Some x \<Longrightarrow> x \<in># mset q" by (cases q) (auto simp: heap_top_def)
  show "heap_ordered q \<Longrightarrow> heap_top q = Some x \<Longrightarrow> y \<in># mset q \<Longrightarrow> x \<le> y"
  proof -
    assume h: "heap_ordered q" "heap_top q = Some x" "y \<in># mset q"
    then obtain i where "i < length q" "y = q ! i" by (auto simp: in_set_conv_nth)
    with heap_ordered_least [OF h(1)] h(2) show "x \<le> y"
      by (cases q) (auto simp: heap_top_def)
  qed
  show "mset (heappush x q) = add_mset x (mset q)" by (rule mset_heappush)
  show "heap_top q = Some x \<Longrightarrow> mset q = add_mset x (mset (heappop q))"
    using mset_heappop [of q] by (cases q) (auto simp: heap_top_def)
qed (auto intro: heap_ordered_push heap_ordered_pop)

end
