(* ===== verification/Py_Int.thy ===== *)
theory Py_Int
  imports Prelude
begin

text \<open>
  Python's \<open>str(n)\<close> and \<open>int(text)\<close> in base ten. \<open>int\<close> strips surrounding white space and takes
  an optional sign and single underscores between digits; anything else raises, here
  \<open>None\<close>.
\<close>

definition digit_char :: "nat \<Rightarrow> char" where
  "digit_char d = char_of (48 + d)"

definition char_digit :: "char \<Rightarrow> nat option" where
  "char_digit c = (let n = char_code c in if 48 \<le> n \<and> n \<le> 57 then Some (n - 48) else None)"

function str_of_nat :: "nat \<Rightarrow> string" where
  "str_of_nat n = (if n < 10 then [digit_char n] else str_of_nat (n div 10) @ [digit_char (n mod 10)])"
  by pat_completeness auto
termination
  by (relation "measure (\<lambda>n. n)") auto

declare str_of_nat.simps [simp del]

definition str_of_int :: "int \<Rightarrow> string" where
  "str_of_int n = (if n < 0 then CHR ''-'' # str_of_nat (nat (- n)) else str_of_nat (nat n))"

text \<open>Digits from the left; \<open>after_digit\<close> says whether an underscore may follow.\<close>

fun parse_digits :: "bool \<Rightarrow> nat \<Rightarrow> string \<Rightarrow> nat option" where
  "parse_digits after_digit acc [] = (if after_digit then Some acc else None)"
| "parse_digits after_digit acc (c # cs) =
     (case char_digit c of
        Some d \<Rightarrow> parse_digits True (10 * acc + d) cs
      | None \<Rightarrow> if c = CHR ''_'' \<and> after_digit then parse_digits False acc cs else None)"

definition parse_nat :: "string \<Rightarrow> nat option" where
  "parse_nat s = (case s of [] \<Rightarrow> None | c # _ \<Rightarrow> if c = CHR ''_'' then None else parse_digits False 0 s)"

definition py_int :: "string \<Rightarrow> int option" where
  "py_int text =
     (case str_strip text of
        [] \<Rightarrow> None
      | c # cs \<Rightarrow>
          if c = CHR ''-'' then map_option (\<lambda>n. - int n) (parse_nat cs)
          else if c = CHR ''+'' then map_option int (parse_nat cs)
          else map_option int (parse_nat (c # cs)))"

lemma char_digit_char: "d < 10 \<Longrightarrow> char_digit (digit_char d) = Some d"
  by (simp add: char_digit_def digit_char_def char_code_char_of)

lemma digit_char_plain:
  "d < 10 \<Longrightarrow> digit_char d \<noteq> CHR ''-'' \<and> digit_char d \<noteq> CHR ''+'' \<and> digit_char d \<noteq> CHR ''_''
     \<and> \<not> is_space (digit_char d)"
proof -
  assume d: "d < 10"
  have "char_code (digit_char d) = 48 + d" using d by (simp add: digit_char_def char_code_char_of)
  moreover have "char_code (CHR ''-'') = 45" "char_code (CHR ''+'') = 43" "char_code (CHR ''_'') = 95"
    by (simp_all add: char_code_def)
  ultimately show ?thesis using d by (auto simp: is_space_def Let_def)
qed

definition is_digit_char :: "char \<Rightarrow> bool" where
  "is_digit_char c = (\<exists>d<10. c = digit_char d)"

lemma str_of_nat_digits: "list_all is_digit_char (str_of_nat n) \<and> str_of_nat n \<noteq> []"
proof (induction n rule: str_of_nat.induct)
  case (1 n)
  have "is_digit_char (digit_char (n mod 10))"
    unfolding is_digit_char_def by (rule exI [of _ "n mod 10"]) simp
  moreover have "n < 10 \<Longrightarrow> is_digit_char (digit_char n)" by (auto simp: is_digit_char_def)
  ultimately show ?case using 1 by (subst (1 2) str_of_nat.simps) auto
qed

lemma parse_digits_append:
  "list_all is_digit_char s \<Longrightarrow> s \<noteq> [] \<Longrightarrow>
     parse_digits b acc (s @ t) = (case parse_digits b acc s of None \<Rightarrow> None | Some v \<Rightarrow> parse_digits True v t)"
proof (induction s arbitrary: b acc)
  case Nil
  then show ?case by simp
next
  case (Cons c s)
  then obtain d where "d < 10" "c = digit_char d" by (auto simp: is_digit_char_def)
  with Cons show ?case by (cases s) (auto simp: char_digit_char)
qed

lemma parse_digits_str_of_nat: "parse_digits b 0 (str_of_nat n) = Some n"
proof (induction n arbitrary: b rule: str_of_nat.induct)
  case (1 n)
  show ?case
  proof (cases "n < 10")
    case True
    then show ?thesis by (subst str_of_nat.simps) (simp add: char_digit_char)
  next
    case False
    with 1 have "parse_digits b 0 (str_of_nat (n div 10)) = Some (n div 10)" by simp
    with False show ?thesis
      using parse_digits_append [of "str_of_nat (n div 10)" b 0 "[digit_char (n mod 10)]"]
        str_of_nat_digits [of "n div 10"]
      by (subst str_of_nat.simps) (simp add: char_digit_char)
  qed
qed

lemma dropWhile_first: "s \<noteq> [] \<Longrightarrow> \<not> P (hd s) \<Longrightarrow> dropWhile P s = s"
  by (cases s) auto

lemma str_strip_plain: "list_all (\<lambda>c. \<not> is_space c) s \<Longrightarrow> str_strip s = s"
proof (cases "s = []")
  case False
  assume a: "list_all (\<lambda>c. \<not> is_space c) s"
  with False have "\<not> is_space (hd s)" "\<not> is_space (hd (rev s))"
    by (auto simp: list_all_iff hd_rev)
  with False show ?thesis by (simp add: str_strip_def dropWhile_first)
qed (simp add: str_strip_def)

lemma py_int_str_of_int [simp]: "py_int (str_of_int n) = Some n"
proof -
  obtain c cs where s: "str_of_nat (nat \<bar>n\<bar>) = c # cs" and c: "is_digit_char c"
    and digits: "list_all is_digit_char (str_of_nat (nat \<bar>n\<bar>))"
    using str_of_nat_digits [of "nat \<bar>n\<bar>"] by (cases "str_of_nat (nat \<bar>n\<bar>)") auto
  have plain: "list_all (\<lambda>c. \<not> is_space c) (str_of_nat (nat \<bar>n\<bar>))"
    using digits digit_char_plain by (auto simp: list_all_iff is_digit_char_def)
  have c': "c \<noteq> CHR ''-''" "c \<noteq> CHR ''+''" "c \<noteq> CHR ''_''"
    using c digit_char_plain by (auto simp: is_digit_char_def)
  have p: "parse_nat (c # cs) = Some (nat \<bar>n\<bar>)"
    using parse_digits_str_of_nat [of False "nat \<bar>n\<bar>"] s c'
    by (simp only: parse_nat_def list.case if_False)
  show ?thesis
  proof (cases "n < 0")
    case True
    have "str_of_int n = CHR ''-'' # c # cs" using True s by (simp add: str_of_int_def)
    moreover have "\<not> is_space (CHR ''-'')" by (simp add: is_space_def char_code_def Let_def)
    ultimately have "str_strip (str_of_int n) = CHR ''-'' # c # cs"
      using plain s by (simp add: str_strip_plain)
    with True p show ?thesis by (simp add: py_int_def)
  next
    case False
    have "str_of_int n = c # cs" using False s by (simp add: str_of_int_def)
    moreover from this have "str_strip (str_of_int n) = c # cs"
      using plain s by (simp add: str_strip_plain)
    ultimately show ?thesis using False p c' by (simp add: py_int_def)
  qed
qed

end
