(* ===== verification/State_Backend.thy ===== *)
theory State_Backend
  imports Complex_Main Prelude Py_Heap Py_Int "HOL-Library.Product_Lexorder"
    "HOL-Library.List_Lexorder" "HOL-Library.Char_ord"
begin

text \<open>
  The in-process shared-state backend, \<open>shared/state/backend.py\<close>: \<open>MemoryStateBackend\<close> with
  its budgeted key/value store, expiry indexes and token buckets. Times and fractions are
  reals (the rounding of floats is not modelled); a clock reading is an argument, and an
  operation whose source reads the clock twice takes two. An operation returns its result,
  or the exception it raises, together with the state it leaves behind. The warning a
  refusal logs is left out, the throttle that decides whether to log is kept. A missing
  \<open>_usage\<close> slot, which would be a \<open>KeyError\<close>, is treated as a no-op; the invariant of
  \<open>State_Invariant\<close> shows it does not occur.
\<close>

section \<open>Configuration and keys\<close>

definition entry_overhead_bytes :: int where "entry_overhead_bytes = 750"
definition min_retry_after_s :: int where "min_retry_after_s = 1"
definition max_retry_after_s :: int where "max_retry_after_s = 3600"
definition index_slack :: int where "index_slack = 64"
definition compaction_step :: nat where "compaction_step = 64"

record namespace_budget =
  max_entries :: int
  max_bytes :: int
  max_owner_share :: "real option"

definition key_namespace :: "string \<Rightarrow> string" where
  "key_namespace key =
     (if CHR '':'' \<in> set key then hd (split_on (CHR '':'') key) else [])"

definition key_owner :: "string \<Rightarrow> string" where
  "key_owner key =
     (let parts = split_on (CHR '':'') key in if 1 < length parts then parts ! 1 else [])"

datatype state_error =
    Capacity_Error string int "string option" bool
  | Value_Error

record rate_limit_decision =
  rl_allowed :: bool
  rl_remaining :: int
  rl_retry_after :: "real option"
  rl_limit :: int

section \<open>State\<close>

record entry =
  e_value :: string
  e_expires :: real
  e_size :: int
  e_seq :: nat

type_synonym item = "real \<times> nat \<times> string"

record usage =
  u_entries :: int
  u_bytes :: int
  u_index :: "item list"
  u_draining :: "item list"

definition new_usage :: usage where
  "new_usage = \<lparr>u_entries = 0, u_bytes = 0, u_index = [], u_draining = []\<rparr>"

text \<open>
  The deadline of a bucket: \<open>At t\<close>, or the infinities that \<open>_full_at\<close> and a new bucket use.
\<close>

datatype deadline = Minus_Inf | At real | Plus_Inf

instantiation deadline :: linorder
begin

fun less_eq_deadline :: "deadline \<Rightarrow> deadline \<Rightarrow> bool" where
  "less_eq_deadline Minus_Inf d = True"
| "less_eq_deadline (At s) Minus_Inf = False"
| "less_eq_deadline (At s) (At t) = (s \<le> t)"
| "less_eq_deadline (At s) Plus_Inf = True"
| "less_eq_deadline Plus_Inf d = (d = Plus_Inf)"

definition less_deadline :: "deadline \<Rightarrow> deadline \<Rightarrow> bool" where
  "less_deadline c d = (c \<le> d \<and> \<not> d \<le> c)"

instance
proof
  fix x y z :: deadline
  show "(x < y) = (x \<le> y \<and> \<not> y \<le> x)" by (rule less_deadline_def)
  show "x \<le> x" by (cases x) auto
  show "x \<le> y \<Longrightarrow> y \<le> z \<Longrightarrow> x \<le> z" by (cases x; cases y; cases z) auto
  show "x \<le> y \<Longrightarrow> y \<le> x \<Longrightarrow> x = y" by (cases x; cases y) auto
  show "x \<le> y \<or> y \<le> x" by (cases x; cases y) auto
qed

end

record bucket =
  b_tokens :: real
  b_updated :: real
  b_full :: deadline

record backend_config =
  default_budget :: namespace_budget
  namespace_budgets :: "(string, namespace_budget) dict"
  max_total_bytes :: int
  sweep_interval :: real

record backend =
  total_bytes :: int
  kv :: "(string, entry) dict"
  ns_usage :: "(string, usage) dict"
  owner_usage :: "(string \<times> string, usage) dict"
  seq_counter :: nat
  buckets :: "(string, bucket) dict"
  bucket_index :: "(deadline \<times> string) list"
  next_sweep_at :: real
  refusal_logged :: "(string \<times> string, real) dict"

text \<open>The constructor with its validation; \<open>now\<close> is \<open>clock()\<close>.\<close>

definition budget_valid :: "namespace_budget \<Rightarrow> bool" where
  "budget_valid b =
     (1 \<le> max_entries b \<and> 1 \<le> max_bytes b \<and>
      (case max_owner_share b of None \<Rightarrow> True | Some share \<Rightarrow> 0 < share \<and> share \<le> 1))"

definition init_backend :: "backend_config \<Rightarrow> real \<Rightarrow> (state_error, backend) result" where
  "init_backend C now =
     (if max_total_bytes C < 1 then Inl Value_Error
      else if \<not> list_all (\<lambda>(name, budget). budget_valid budget)
          (dict_update_all [('''', default_budget C)] (namespace_budgets C)) then Inl Value_Error
      else Inr \<lparr>total_bytes = 0, kv = [], ns_usage = [], owner_usage = [], seq_counter = 0,
             buckets = [], bucket_index = [], next_sweep_at = now + sweep_interval C,
             refusal_logged = []\<rparr>)"

definition budget_of :: "backend_config \<Rightarrow> string \<Rightarrow> namespace_budget" where
  "budget_of C namespace =
     (case dict_get (namespace_budgets C) namespace of Some b \<Rightarrow> b | None \<Rightarrow> default_budget C)"

definition owner_key :: "backend_config \<Rightarrow> string \<Rightarrow> string \<Rightarrow> (string \<times> string) option" where
  "owner_key C key namespace =
     (if max_owner_share (budget_of C namespace) = None then None
      else Some (namespace, key_owner key))"

section \<open>Expiry indexes\<close>

definition is_current :: "backend \<Rightarrow> item \<Rightarrow> bool" where
  "is_current s item =
     (case dict_get (kv s) (snd (snd item)) of
        None \<Rightarrow> False
      | Some e \<Rightarrow> e_seq e = fst (snd item))"

text \<open>\<open>draining.pop()\<close> takes the last item of the list.\<close>

fun compact_steps :: "nat \<Rightarrow> backend \<Rightarrow> usage \<Rightarrow> usage" where
  "compact_steps 0 s u = u"
| "compact_steps (Suc n) s u =
     (let item = last (u_draining u);
          u = u\<lparr>u_draining := butlast (u_draining u)\<rparr>
      in compact_steps n s (if is_current s item then u\<lparr>u_index := heappush item (u_index u)\<rparr> else u))"

definition compact_step :: "backend \<Rightarrow> usage \<Rightarrow> usage" where
  "compact_step s u = compact_steps (min compaction_step (length (u_draining u))) s u"

definition index_entry :: "backend \<Rightarrow> usage \<Rightarrow> entry \<Rightarrow> string \<Rightarrow> usage" where
  "index_entry s u e key =
     (let u = u\<lparr>u_index := heappush (e_expires e, e_seq e, key) (u_index u)\<rparr> in
      if u_draining u \<noteq> [] then compact_step s u
      else if 2 * u_entries u + index_slack < int (length (u_index u)) then
        compact_step s (u\<lparr>u_draining := u_index u, u_index := []\<rparr>)
      else u)"

section \<open>Usage slots\<close>

text \<open>
  A usage record is addressed by the slot that holds it.
\<close>

datatype scope = Namespace_Scope string | Owner_Scope "string \<times> string"

fun get_usage :: "scope \<Rightarrow> backend \<Rightarrow> usage option" where
  "get_usage (Namespace_Scope ns) s = dict_get (ns_usage s) ns"
| "get_usage (Owner_Scope ok) s = dict_get (owner_usage s) ok"

fun map_usage :: "scope \<Rightarrow> (usage \<Rightarrow> usage) \<Rightarrow> backend \<Rightarrow> backend" where
  "map_usage (Namespace_Scope ns) f s =
     (case dict_get (ns_usage s) ns of
        None \<Rightarrow> s
      | Some u \<Rightarrow> s\<lparr>ns_usage := dict_set ns (f u) (ns_usage s)\<rparr>)"
| "map_usage (Owner_Scope ok) f s =
     (case dict_get (owner_usage s) ok of
        None \<Rightarrow> s
      | Some u \<Rightarrow> s\<lparr>owner_usage := dict_set ok (f u) (owner_usage s)\<rparr>)"

section \<open>Dropping entries\<close>

definition uncharge :: "int \<Rightarrow> usage \<Rightarrow> usage" where
  "uncharge sz u = u\<lparr>u_entries := u_entries u - 1, u_bytes := u_bytes u - sz\<rparr>"

definition release_owner :: "int \<Rightarrow> string \<times> string \<Rightarrow> backend \<Rightarrow> backend" where
  "release_owner sz ok s =
     (let s = map_usage (Owner_Scope ok) (uncharge sz) s in
      case dict_get (owner_usage s) ok of
        None \<Rightarrow> s
      | Some u \<Rightarrow>
          if u_entries u = 0 then s\<lparr>owner_usage := dict_del ok (owner_usage s)\<rparr> else s)"

definition remove_kv :: "string \<Rightarrow> entry \<Rightarrow> backend \<Rightarrow> backend" where
  "remove_kv key e s = s\<lparr>kv := dict_del key (kv s), total_bytes := total_bytes s - e_size e\<rparr>"

definition delete_entry :: "backend_config \<Rightarrow> string \<Rightarrow> backend \<Rightarrow> backend" where
  "delete_entry C key s =
     (case dict_get (kv s) key of
        None \<Rightarrow> s
      | Some e \<Rightarrow>
          (let namespace = key_namespace key;
               s = map_usage (Namespace_Scope namespace) (uncharge (e_size e)) (remove_kv key e s)
           in case owner_key C key namespace of
                None \<Rightarrow> s
              | Some ok \<Rightarrow> release_owner (e_size e) ok s))"

definition live_entry :: "backend_config \<Rightarrow> real \<Rightarrow> string \<Rightarrow> backend \<Rightarrow> entry option \<times> backend" where
  "live_entry C now key s =
     (case dict_get (kv s) key of
        None \<Rightarrow> (None, s)
      | Some e \<Rightarrow> if e_expires e \<le> now then (None, delete_entry C key s) else (Some e, s))"

text \<open>
  The inner loop of \<open>_earliest_live\<close> on one heap: superseded items are popped, expired ones
  popped and their entries deleted, and the first live one gives the deadline. Deleting may
  remove an owner's slot while its heap is scanned; writing the scanned heap back is then
  void, as it is for the detached object of the source.
\<close>

lemma heappop_shorter: "xs \<noteq> [] \<Longrightarrow> length (heappop xs) < length xs"
  using mset_heappop [of xs] by (metis lessI size_add_mset size_mset)

lemma heappop_Cons_shorter: "length (heappop (x # xs)) < Suc (length xs)"
  using heappop_shorter [of "x # xs"] by simp

function drop_dead :: "backend_config \<Rightarrow> real \<Rightarrow> item list \<Rightarrow> backend \<Rightarrow> item list \<times> backend \<times> real option" where
  "drop_dead C now heap s =
     (case heap of
        [] \<Rightarrow> ([], s, None)
      | item # _ \<Rightarrow>
          if \<not> is_current s item then drop_dead C now (heappop heap) s
          else if fst item \<le> now then
            drop_dead C now (heappop heap) (delete_entry C (snd (snd item)) s)
          else (heap, s, Some (fst item)))"
  by pat_completeness auto
termination
  by (relation "measure (\<lambda>(C, now, heap, s). length heap)") (auto simp: heappop_Cons_shorter)

declare drop_dead.simps [simp del]

definition min_deadline :: "real option \<Rightarrow> real option \<Rightarrow> real option" where
  "min_deadline a b =
     (case a of None \<Rightarrow> b | Some x \<Rightarrow> (case b of None \<Rightarrow> a | Some y \<Rightarrow> Some (min x y)))"

definition earliest_live :: "backend_config \<Rightarrow> real \<Rightarrow> scope \<Rightarrow> backend \<Rightarrow> real option \<times> backend" where
  "earliest_live C now sc s =
     (case get_usage sc s of
        None \<Rightarrow> (None, s)
      | Some u \<Rightarrow>
          (let (index, s, first) = drop_dead C now (u_index u) s;
               s = map_usage sc (u_index_update (\<lambda>_. index)) s;
               (draining, s, second) = drop_dead C now (u_draining u) s;
               s = map_usage sc (u_draining_update (\<lambda>_. draining)) s
           in (min_deadline first second, s)))"

fun earliest_live_all :: "backend_config \<Rightarrow> real \<Rightarrow> string list \<Rightarrow> backend \<Rightarrow> real option \<times> backend" where
  "earliest_live_all C now [] s = (None, s)"
| "earliest_live_all C now (ns # nss) s =
     (let (d, s) = earliest_live C now (Namespace_Scope ns) s;
          (rest, s) = earliest_live_all C now nss s
      in (min_deadline d rest, s))"

definition earliest_live_anywhere :: "backend_config \<Rightarrow> real \<Rightarrow> backend \<Rightarrow> real option \<times> backend" where
  "earliest_live_anywhere C now s = earliest_live_all C now (map fst (ns_usage s)) s"

text \<open>The bucket loop of \<open>_sweep\<close>.\<close>

function drop_refilled :: "real \<Rightarrow> (deadline \<times> string) list \<Rightarrow> (string, bucket) dict
    \<Rightarrow> (deadline \<times> string) list \<times> (string, bucket) dict" where
  "drop_refilled now heap bs =
     (case heap of
        [] \<Rightarrow> ([], bs)
      | (full, key) # _ \<Rightarrow>
          if full \<le> At now then
            drop_refilled now (heappop heap)
              (case dict_get bs key of
                 None \<Rightarrow> bs
               | Some b \<Rightarrow> if b_full b = full then dict_del key bs else bs)
          else (heap, bs))"
  by pat_completeness auto
termination
  by (relation "measure (\<lambda>(now, heap, bs). length heap)") (auto simp: heappop_Cons_shorter)

declare drop_refilled.simps [simp del]

definition sweep :: "backend_config \<Rightarrow> real \<Rightarrow> backend \<Rightarrow> backend" where
  "sweep C now s =
     (let s = snd (earliest_live_anywhere C now s);
          (index, bs) = drop_refilled now (bucket_index s) (buckets s)
      in s\<lparr>bucket_index := index, buckets := bs, next_sweep_at := now + sweep_interval C\<rparr>)"

definition maybe_sweep :: "backend_config \<Rightarrow> real \<Rightarrow> backend \<Rightarrow> backend" where
  "maybe_sweep C now s = (if next_sweep_at s \<le> now then sweep C now s else s)"

section \<open>Budgets\<close>

definition fits :: "usage option \<Rightarrow> entry option \<Rightarrow> int \<Rightarrow> int \<Rightarrow> int \<Rightarrow> bool" where
  "fits u existing sz max_e max_b =
     (let entries = (case u of None \<Rightarrow> 0 | Some u \<Rightarrow> u_entries u) + (if existing \<noteq> None then 0 else 1);
          used = (case u of None \<Rightarrow> 0 | Some u \<Rightarrow> u_bytes u)
                   - (case existing of None \<Rightarrow> 0 | Some e \<Rightarrow> e_size e)
      in entries \<le> max_e \<and> used + sz \<le> max_b)"

text \<open>A refusal names its scope: the namespace, the owner's share, or the whole backend.\<close>

datatype refusal = Refuse_Namespace string | Refuse_Owner "string \<times> string" | Refuse_Total

definition share_of :: "int \<Rightarrow> real \<Rightarrow> int" where
  "share_of limit share = max 1 \<lfloor>of_int limit * share\<rfloor>"

definition refusing_scope :: "backend_config \<Rightarrow> string \<Rightarrow> string \<Rightarrow> int \<Rightarrow> backend \<Rightarrow> refusal option" where
  "refusing_scope C key namespace sz s =
     (let budget = budget_of C namespace;
          existing = dict_get (kv s) key;
          total = total_bytes s - (case existing of None \<Rightarrow> 0 | Some e \<Rightarrow> e_size e);
          total_check = (if max_total_bytes C < total + sz then Some Refuse_Total else None)
      in if \<not> fits (dict_get (ns_usage s) namespace) existing sz (max_entries budget) (max_bytes budget)
         then Some (Refuse_Namespace namespace)
         else (case (owner_key C key namespace, max_owner_share budget) of
                 (Some ok, Some share) \<Rightarrow>
                   if \<not> fits (dict_get (owner_usage s) ok) existing sz
                       (share_of (max_entries budget) share) (share_of (max_bytes budget) share)
                   then Some (Refuse_Owner ok)
                   else total_check
               | _ \<Rightarrow> total_check))"

definition reclaim :: "backend_config \<Rightarrow> refusal \<Rightarrow> real \<Rightarrow> backend \<Rightarrow> real option \<times> backend" where
  "reclaim C r now s =
     (case r of
        Refuse_Total \<Rightarrow> earliest_live_anywhere C now s
      | Refuse_Namespace ns \<Rightarrow> earliest_live C now (Namespace_Scope ns) s
      | Refuse_Owner ok \<Rightarrow> earliest_live C now (Owner_Scope ok) s)"

definition clamp_retry_after :: "real \<Rightarrow> int" where
  "clamp_retry_after seconds = max min_retry_after_s (min max_retry_after_s \<lceil>seconds\<rceil>)"

definition refusal_scope_name :: "refusal \<Rightarrow> string" where
  "refusal_scope_name r =
     (case r of Refuse_Namespace _ \<Rightarrow> ''namespace'' | Refuse_Owner _ \<Rightarrow> ''owner_share''
              | Refuse_Total \<Rightarrow> ''total'')"

definition refuse :: "backend_config \<Rightarrow> string \<Rightarrow> refusal \<Rightarrow> real option \<Rightarrow> real \<Rightarrow> backend \<Rightarrow> state_error \<times> backend" where
  "refuse C namespace r earliest now s =
     (let retry = clamp_retry_after
            (case earliest of Some d \<Rightarrow> d - now | None \<Rightarrow> of_int max_retry_after_s);
          log_key = (namespace, refusal_scope_name r);
          log = (case dict_get (refusal_logged s) log_key of
                   None \<Rightarrow> True | Some prev \<Rightarrow> sweep_interval C \<le> now - prev)
      in (Capacity_Error namespace retry
            (case r of Refuse_Owner ok \<Rightarrow> Some (snd ok) | _ \<Rightarrow> None) (r = Refuse_Total),
          if log then s\<lparr>refusal_logged := dict_set log_key now (refusal_logged s)\<rparr> else s))"

section \<open>Writing\<close>

definition resize :: "backend_config \<Rightarrow> string \<Rightarrow> string \<Rightarrow> entry \<Rightarrow> int \<Rightarrow> backend \<Rightarrow> backend" where
  "resize C key namespace e sz s =
     (let delta = sz - e_size e;
          charge = (\<lambda>u. u\<lparr>u_bytes := u_bytes u + delta\<rparr>);
          s = s\<lparr>kv := dict_set key (e\<lparr>e_size := sz\<rparr>) (kv s), total_bytes := total_bytes s + delta\<rparr>;
          s = map_usage (Namespace_Scope namespace) charge s
      in case owner_key C key namespace of
           None \<Rightarrow> s
         | Some ok \<Rightarrow> map_usage (Owner_Scope ok) charge s)"

definition charge_entry :: "backend \<Rightarrow> entry \<Rightarrow> string \<Rightarrow> usage \<Rightarrow> usage" where
  "charge_entry s e key u =
     index_entry s (u\<lparr>u_entries := u_entries u + 1, u_bytes := u_bytes u + e_size e\<rparr>) e key"

definition default_usage :: "usage option \<Rightarrow> usage" where
  "default_usage u = (case u of None \<Rightarrow> new_usage | Some u \<Rightarrow> u)"

definition insert_entry :: "backend_config \<Rightarrow> string \<Rightarrow> string \<Rightarrow> string \<Rightarrow> real \<Rightarrow> int \<Rightarrow> backend \<Rightarrow> backend" where
  "insert_entry C key namespace val expires_at sz s =
     (let s = s\<lparr>seq_counter := seq_counter s + 1\<rparr>;
          e = \<lparr>e_value = val, e_expires = expires_at, e_size = sz, e_seq = seq_counter s\<rparr>;
          s = s\<lparr>kv := dict_set key e (kv s), total_bytes := total_bytes s + sz\<rparr>;
          s = s\<lparr>ns_usage := dict_set namespace
                  (charge_entry s e key (default_usage (dict_get (ns_usage s) namespace))) (ns_usage s)\<rparr>
      in case owner_key C key namespace of
           None \<Rightarrow> s
         | Some ok \<Rightarrow>
             s\<lparr>owner_usage := dict_set ok
                 (charge_entry s e key (default_usage (dict_get (owner_usage s) ok))) (owner_usage s)\<rparr>)"

definition commit_entry :: "backend_config \<Rightarrow> string \<Rightarrow> string \<Rightarrow> string \<Rightarrow> real \<Rightarrow> int \<Rightarrow> backend \<Rightarrow> backend" where
  "commit_entry C key namespace val expires_at sz s =
     (case dict_get (kv s) key of
        Some e \<Rightarrow>
          if e_expires e = expires_at then
            (let s = resize C key namespace e sz s in
             s\<lparr>kv := dict_set key (e\<lparr>e_size := sz, e_value := val\<rparr>) (kv s)\<rparr>)
          else insert_entry C key namespace val expires_at sz (delete_entry C key s)
      | None \<Rightarrow> insert_entry C key namespace val expires_at sz s)"

definition store :: "backend_config \<Rightarrow> string \<Rightarrow> string \<Rightarrow> real \<Rightarrow> real \<Rightarrow> backend
    \<Rightarrow> (state_error, unit) result \<times> backend" where
  "store C key val expires_at now s =
     (let s = maybe_sweep C now s;
          namespace = key_namespace key;
          sz = int (length key) + int (length val) + entry_overhead_bytes
      in case refusing_scope C key namespace sz s of
           None \<Rightarrow> (Inr (), commit_entry C key namespace val expires_at sz s)
         | Some r \<Rightarrow>
             (let (_, s) = reclaim C r now s in
              case refusing_scope C key namespace sz s of
                None \<Rightarrow> (Inr (), commit_entry C key namespace val expires_at sz s)
              | Some r \<Rightarrow>
                  (let (earliest, s) = reclaim C r now s;
                       (err, s) = refuse C namespace r earliest now s
                   in (Inl err, s))))"

section \<open>Operations\<close>

definition kv_get :: "backend_config \<Rightarrow> real \<Rightarrow> string \<Rightarrow> backend \<Rightarrow> string option \<times> backend" where
  "kv_get C now key s = (let (e, s) = live_entry C now key s in (map_option e_value e, s))"

definition kv_set :: "backend_config \<Rightarrow> real \<Rightarrow> string \<Rightarrow> string \<Rightarrow> real \<Rightarrow> backend
    \<Rightarrow> (state_error, unit) result \<times> backend" where
  "kv_set C now key val ttl s = store C key val (now + ttl) now s"

text \<open>\<open>now\<close> is the reading of \<open>_live_entry\<close>, \<open>now'\<close> the later one of the write.\<close>

definition set_if_absent :: "backend_config \<Rightarrow> real \<Rightarrow> real \<Rightarrow> string \<Rightarrow> string \<Rightarrow> real \<Rightarrow> backend
    \<Rightarrow> (state_error, bool) result \<times> backend" where
  "set_if_absent C now now' key val ttl s =
     (let (e, s) = live_entry C now key s in
      case e of
        Some _ \<Rightarrow> (Inr False, s)
      | None \<Rightarrow>
          (let (r, s) = store C key val (now' + ttl) now' s in (rbind r (\<lambda>_. Inr True), s)))"

definition incr :: "backend_config \<Rightarrow> real \<Rightarrow> real \<Rightarrow> string \<Rightarrow> real \<Rightarrow> int \<Rightarrow> backend
    \<Rightarrow> (state_error, int) result \<times> backend" where
  "incr C now now' key ttl amount s =
     (let (e, s) = live_entry C now' key s in
      case (case e of None \<Rightarrow> Some 0 | Some e \<Rightarrow> py_int (e_value e)) of
        None \<Rightarrow> (Inl Value_Error, s)
      | Some current \<Rightarrow>
          (let new_value = current + amount;
               expires_at = (case e of Some e \<Rightarrow> e_expires e | None \<Rightarrow> now + ttl);
               (r, s) = store C key (str_of_int new_value) expires_at now s
           in (rbind r (\<lambda>_. Inr new_value), s)))"

definition incr_with_ttl :: "backend_config \<Rightarrow> real \<Rightarrow> real \<Rightarrow> string \<Rightarrow> real \<Rightarrow> int \<Rightarrow> backend
    \<Rightarrow> (state_error, int) result \<times> backend" where
  "incr_with_ttl C now now' key ttl amount s =
     (if amount \<le> 0 then (Inl Value_Error, s) else incr C now now' key ttl amount s)"

fun incr_all :: "backend_config \<Rightarrow> (string \<times> real \<times> real) list \<Rightarrow> real \<Rightarrow> backend
    \<Rightarrow> (state_error, int list) result \<times> backend" where
  "incr_all C [] ttl s = (Inr [], s)"
| "incr_all C ((key, now, now') # keys) ttl s =
     (let (r, s) = incr C now now' key ttl 1 s in
      case r of
        Inl e \<Rightarrow> (Inl e, s)
      | Inr n \<Rightarrow> (let (rs, s) = incr_all C keys ttl s in (rbind rs (\<lambda>ns. Inr (n # ns)), s)))"

fun read_all :: "backend_config \<Rightarrow> (string \<times> real) list \<Rightarrow> backend \<Rightarrow> string option list \<times> backend" where
  "read_all C [] s = ([], s)"
| "read_all C ((key, now) # keys) s =
     (let (v, s) = kv_get C now key s; (vs, s) = read_all C keys s in (v # vs, s))"

definition incr_and_read :: "backend_config \<Rightarrow> (string \<times> real \<times> real) list \<Rightarrow> (string \<times> real) list \<Rightarrow> real
    \<Rightarrow> backend \<Rightarrow> (state_error, int list \<times> string option list) result \<times> backend" where
  "incr_and_read C incr_keys read_keys ttl s =
     (let (r, s) = incr_all C incr_keys ttl s in
      case r of
        Inl e \<Rightarrow> (Inl e, s)
      | Inr counts \<Rightarrow> (let (reads, s) = read_all C read_keys s in (Inr (counts, reads), s)))"

section \<open>Token buckets\<close>

definition full_at :: "bucket \<Rightarrow> real \<Rightarrow> int \<Rightarrow> deadline" where
  "full_at b rate burst =
     (let missing = of_int burst - b_tokens b in
      if missing \<le> 0 then At (b_updated b)
      else if 0 < rate then At (b_updated b + missing / rate) else Plus_Inf)"

text \<open>\<open>int(x)\<close> of a float.\<close>

definition py_trunc :: "real \<Rightarrow> int" where
  "py_trunc x = (if 0 \<le> x then \<lfloor>x\<rfloor> else \<lceil>x\<rceil>)"

definition reindex_bucket :: "string \<Rightarrow> bucket \<Rightarrow> deadline \<Rightarrow> backend \<Rightarrow> backend" where
  "reindex_bucket key b full s =
     (if full = b_full b then s\<lparr>buckets := dict_set key b (buckets s)\<rparr>
      else
        (let s = s\<lparr>buckets := dict_set key (b\<lparr>b_full := full\<rparr>) (buckets s),
                   bucket_index := heappush (full, key) (bucket_index s)\<rparr>
         in if 2 * int (length (buckets s)) + index_slack < int (length (bucket_index s))
            then s\<lparr>bucket_index := heapify (map (\<lambda>(k, b). (b_full b, k)) (buckets s))\<rparr>
            else s))"

definition token_bucket :: "backend_config \<Rightarrow> real \<Rightarrow> string \<Rightarrow> real \<Rightarrow> int \<Rightarrow> int \<Rightarrow> backend
    \<Rightarrow> rate_limit_decision \<times> backend" where
  "token_bucket C now key rate burst cost s =
     (let s = maybe_sweep C now s;
          b = (case dict_get (buckets s) key of
                 Some b \<Rightarrow> b
               | None \<Rightarrow> \<lparr>b_tokens = of_int burst, b_updated = now, b_full = Minus_Inf\<rparr>);
          elapsed = max 0 (now - b_updated b);
          b = b\<lparr>b_tokens := min (of_int burst) (b_tokens b + elapsed * rate), b_updated := now\<rparr>;
          allowed = (of_int cost \<le> b_tokens b);
          b = (if allowed then b\<lparr>b_tokens := b_tokens b - of_int cost\<rparr> else b);
          s = reindex_bucket key b (full_at b rate burst) s
      in if allowed
         then (\<lparr>rl_allowed = True, rl_remaining = py_trunc (b_tokens b), rl_retry_after = Some 0,
                rl_limit = burst\<rparr>, s)
         else (\<lparr>rl_allowed = False, rl_remaining = py_trunc (b_tokens b),
                rl_retry_after =
                  (if 0 < rate then Some ((of_int cost - b_tokens b) / rate) else None),
                rl_limit = burst\<rparr>, s))"

end
