(* ===== verification/State_Invariant.thy ===== *)
theory State_Invariant
  imports State_Backend
begin

text \<open>
  The invariant of the shared-state backend and its preservation by every operation: the
  totals, namespace and owner accounts equal the sums over the stored entries, every stored
  entry has a current item in each of its indexes, and the indexes are heaps. Dropping
  entries touches expired ones only, and scanning a scope drops all of its expired entries.
\<close>

section \<open>Sums over dictionaries\<close>

definition dict_sum :: "('k \<Rightarrow> 'v \<Rightarrow> int) \<Rightarrow> ('k, 'v) dict \<Rightarrow> int" where
  "dict_sum f d = sum_list (map (\<lambda>(k, v). f k v) d)"

lemma dict_sum_del:
  "dict_ok d \<Longrightarrow> dict_sum f (dict_del k d) =
     dict_sum f d - (case dict_get d k of None \<Rightarrow> 0 | Some v \<Rightarrow> f k v)"
proof (induction d)
  case Nil
  then show ?case by (simp add: dict_sum_def)
next
  case (Cons p d)
  obtain a b where p: "p = (a, b)" by (cases p)
  show ?case
  proof (cases "a = k")
    case True
    with Cons.prems p have "k \<notin> fst ` set d" by auto
    then have "dict_del k d = d" by (rule delete_id)
    with True p show ?thesis by (simp add: dict_sum_def)
  next
    case False
    with Cons p show ?thesis by (simp add: dict_sum_def)
  qed
qed

lemma dict_sum_set:
  "dict_ok d \<Longrightarrow> dict_sum f (dict_set k v d) =
     dict_sum f d - (case dict_get d k of None \<Rightarrow> 0 | Some w \<Rightarrow> f k w) + f k v"
proof (induction d)
  case Nil
  then show ?case by (simp add: dict_sum_def)
next
  case (Cons p d)
  obtain a b where "p = (a, b)" by (cases p)
  with Cons show ?case by (auto simp: dict_sum_def)
qed

lemma dict_sum_nonneg: "(\<And>k v. dict_get d k = Some v \<Longrightarrow> 0 \<le> f k v) \<Longrightarrow> dict_ok d \<Longrightarrow> 0 \<le> dict_sum f d"
proof (induction d)
  case Nil
  then show ?case by (simp add: dict_sum_def)
next
  case (Cons p d)
  obtain a b where p: "p = (a, b)" by (cases p)
  have "0 \<le> f k v" if "dict_get d k = Some v" for k v
  proof -
    have "dict_get d a = None" using Cons.prems(2) p by (simp add: map_of_eq_None_iff)
    with that have "a \<noteq> k" by auto
    then show ?thesis using Cons.prems(1) [of k v] that p by simp
  qed
  moreover have "0 \<le> f a b" using Cons.prems(1) [of a b] p by simp
  ultimately show ?case using Cons p by (simp add: dict_sum_def)
qed

lemma dict_sum_member:
  assumes "dict_ok d" "dict_get d k = Some v" "\<And>k v. dict_get d k = Some v \<Longrightarrow> 0 \<le> f k v"
  shows "f k v \<le> dict_sum f d"
proof -
  have "0 \<le> dict_sum f (dict_del k d)"
  proof (rule dict_sum_nonneg)
    show "dict_ok (dict_del k d)" by (rule dict_ok_del [OF assms(1)])
    show "0 \<le> f k' v'" if "dict_get (dict_del k d) k' = Some v'" for k' v'
      using that assms(3) by (auto simp: dict_get_del split: if_splits)
  qed
  then show ?thesis using dict_sum_del [OF assms(1), of f k] assms(2) by simp
qed

section \<open>The invariant\<close>

fun in_scope :: "backend_config \<Rightarrow> scope \<Rightarrow> string \<Rightarrow> bool" where
  "in_scope C (Namespace_Scope ns) key = (key_namespace key = ns)"
| "in_scope C (Owner_Scope ok) key = (owner_key C key (key_namespace key) = Some ok)"

definition scope_count :: "backend_config \<Rightarrow> scope \<Rightarrow> (string, entry) dict \<Rightarrow> int" where
  "scope_count C sc d = dict_sum (\<lambda>k e. if in_scope C sc k then 1 else 0) d"

definition scope_bytes :: "backend_config \<Rightarrow> scope \<Rightarrow> (string, entry) dict \<Rightarrow> int" where
  "scope_bytes C sc d = dict_sum (\<lambda>k e. if in_scope C sc k then e_size e else 0) d"

definition all_bytes :: "(string, entry) dict \<Rightarrow> int" where
  "all_bytes d = dict_sum (\<lambda>k e. e_size e) d"

definition entry_item :: "string \<Rightarrow> entry \<Rightarrow> item" where
  "entry_item k e = (e_expires e, e_seq e, k)"

definition item_ok :: "backend_config \<Rightarrow> backend \<Rightarrow> scope \<Rightarrow> item \<Rightarrow> bool" where
  "item_ok C s sc it =
     (fst (snd it) \<le> seq_counter s \<and> in_scope C sc (snd (snd it)) \<and>
      (\<forall>e. dict_get (kv s) (snd (snd it)) = Some e \<longrightarrow> e_seq e = fst (snd it) \<longrightarrow> e_expires e = fst it))"

abbreviation usage_items :: "usage \<Rightarrow> item set" where
  "usage_items u \<equiv> set (u_index u) \<union> set (u_draining u)"

definition index_ok :: "backend_config \<Rightarrow> backend \<Rightarrow> scope \<Rightarrow> usage \<Rightarrow> bool" where
  "index_ok C s sc u =
     (heap_ordered (u_index u) \<and> heap_ordered (u_draining u) \<and>
      (\<forall>it\<in>usage_items u. item_ok C s sc it) \<and>
      (\<forall>k e. dict_get (kv s) k = Some e \<longrightarrow> in_scope C sc k \<longrightarrow> entry_item k e \<in> usage_items u))"

definition scope_ok :: "backend_config \<Rightarrow> backend \<Rightarrow> scope \<Rightarrow> bool" where
  "scope_ok C s sc =
     (case get_usage sc s of
        None \<Rightarrow> (\<forall>k e. dict_get (kv s) k = Some e \<longrightarrow> \<not> in_scope C sc k)
      | Some u \<Rightarrow> u_entries u = scope_count C sc (kv s) \<and> u_bytes u = scope_bytes C sc (kv s)
          \<and> index_ok C s sc u)"

definition entry_ok :: "backend \<Rightarrow> string \<Rightarrow> entry \<Rightarrow> bool" where
  "entry_ok s k e = (e_seq e \<le> seq_counter s \<and>
     e_size e = int (length k) + int (length (e_value e)) + entry_overhead_bytes)"

definition backend_inv :: "backend_config \<Rightarrow> backend \<Rightarrow> bool" where
  "backend_inv C s =
     (dict_ok (kv s) \<and> total_bytes s = all_bytes (kv s) \<and>
      (\<forall>k e. dict_get (kv s) k = Some e \<longrightarrow> entry_ok s k e) \<and> (\<forall>sc. scope_ok C s sc))"

lemma backend_invD:
  "backend_inv C s \<Longrightarrow> dict_ok (kv s)"
  "backend_inv C s \<Longrightarrow> total_bytes s = all_bytes (kv s)"
  "backend_inv C s \<Longrightarrow> dict_get (kv s) k = Some e \<Longrightarrow> entry_ok s k e"
  "backend_inv C s \<Longrightarrow> scope_ok C s sc"
  by (auto simp: backend_inv_def)

lemma entry_ok_size: "entry_ok s k e \<Longrightarrow> 0 < e_size e"
  by (simp add: entry_ok_def entry_overhead_bytes_def)

lemma is_current_iff:
  "is_current s it \<longleftrightarrow> (\<exists>e. dict_get (kv s) (snd (snd it)) = Some e \<and> e_seq e = fst (snd it))"
  by (auto simp: is_current_def split: option.splits)

lemma in_scope_owner: "owner_key C key (key_namespace key) = Some ok \<longleftrightarrow> in_scope C (Owner_Scope ok) key"
  by simp

section \<open>Deleting one entry\<close>

definition after_delete :: "backend_config \<Rightarrow> string \<Rightarrow> entry \<Rightarrow> scope \<Rightarrow> usage option \<Rightarrow> usage option" where
  "after_delete C key e sc u =
     (if \<not> in_scope C sc key then u
      else (case u of
              None \<Rightarrow> None
            | Some u \<Rightarrow>
                if u_entries u = 1 \<and> (\<exists>ok. sc = Owner_Scope ok) then None
                else Some (uncharge (e_size e) u)))"

lemma get_map_usage:
  "get_usage sc (map_usage sc' f s) = (if sc = sc' then map_option f (get_usage sc s) else get_usage sc s)"
  by (cases sc; cases sc') (auto simp: dict_get_set split: option.split)

lemma map_usage_fields [simp]:
  "kv (map_usage sc f s) = kv s" "total_bytes (map_usage sc f s) = total_bytes s"
  "seq_counter (map_usage sc f s) = seq_counter s" "buckets (map_usage sc f s) = buckets s"
  "bucket_index (map_usage sc f s) = bucket_index s"
  "next_sweep_at (map_usage sc f s) = next_sweep_at s"
  "refusal_logged (map_usage sc f s) = refusal_logged s"
  by (cases sc; simp split: option.split)+

lemma release_owner_fields [simp]:
  "kv (release_owner z ok s) = kv s" "total_bytes (release_owner z ok s) = total_bytes s"
  "seq_counter (release_owner z ok s) = seq_counter s" "buckets (release_owner z ok s) = buckets s"
  "bucket_index (release_owner z ok s) = bucket_index s"
  "next_sweep_at (release_owner z ok s) = next_sweep_at s"
  "refusal_logged (release_owner z ok s) = refusal_logged s"
  by (simp_all add: release_owner_def Let_def del: map_usage.simps split: option.split)

lemma get_usage_remove_kv [simp]: "get_usage sc (remove_kv key e s) = get_usage sc s"
  by (cases sc) (simp_all add: remove_kv_def)

lemma get_usage_release:
  "get_usage sc (release_owner z ok s) =
     (if sc = Owner_Scope ok then
        (case get_usage sc s of
           None \<Rightarrow> None
         | Some u \<Rightarrow> if u_entries u = 1 then None else Some (uncharge z u))
      else get_usage sc s)"
proof -
  let ?s = "map_usage (Owner_Scope ok) (uncharge z) s"
  have g: "dict_get (owner_usage ?s) ok = map_option (uncharge z) (get_usage (Owner_Scope ok) s)"
    using get_map_usage [of "Owner_Scope ok" "Owner_Scope ok" "uncharge z" s] by simp
  show ?thesis
  proof (cases "get_usage (Owner_Scope ok) s")
    case None
    with g have "release_owner z ok s = ?s" by (simp add: release_owner_def Let_def del: map_usage.simps)
    with None show ?thesis by (simp add: get_map_usage del: map_usage.simps)
  next
    case (Some u)
    show ?thesis
    proof (cases "u_entries u = 1")
      case True
      with Some g have "release_owner z ok s = ?s\<lparr>owner_usage := dict_del ok (owner_usage ?s)\<rparr>"
        by (simp add: release_owner_def uncharge_def Let_def del: map_usage.simps)
      moreover have "get_usage sc (?s\<lparr>owner_usage := dict_del ok (owner_usage ?s)\<rparr>)
          = (if sc = Owner_Scope ok then None else get_usage sc ?s)"
        by (cases sc) (simp_all add: dict_get_del del: map_usage.simps)
      ultimately show ?thesis using Some True by (simp add: get_map_usage del: map_usage.simps)
    next
      case False
      with Some g have "release_owner z ok s = ?s"
        by (simp add: release_owner_def uncharge_def Let_def del: map_usage.simps)
      with Some False show ?thesis by (simp add: get_map_usage del: map_usage.simps)
    qed
  qed
qed

lemma delete_entry_fields:
  assumes "dict_get (kv s) key = Some e"
  shows "kv (delete_entry C key s) = dict_del key (kv s)"
    "total_bytes (delete_entry C key s) = total_bytes s - e_size e"
    "seq_counter (delete_entry C key s) = seq_counter s"
    "buckets (delete_entry C key s) = buckets s"
    "bucket_index (delete_entry C key s) = bucket_index s"
    "next_sweep_at (delete_entry C key s) = next_sweep_at s"
  using assms
  by (simp_all add: delete_entry_def remove_kv_def Let_def del: map_usage.simps split: option.split)

lemma delete_entry_usage:
  assumes "dict_get (kv s) key = Some e"
  shows "get_usage sc (delete_entry C key s) = after_delete C key e sc (get_usage sc s)"
proof (cases sc)
  case (Namespace_Scope ns)
  then show ?thesis using assms
    by (simp add: delete_entry_def after_delete_def get_map_usage get_usage_release Let_def
        del: map_usage.simps get_usage.simps split: option.split)
next
  case (Owner_Scope ok)
  then show ?thesis using assms
    by (simp add: delete_entry_def after_delete_def get_map_usage get_usage_release Let_def
        del: map_usage.simps get_usage.simps split: option.split)
qed

lemma after_delete_Some:
  "after_delete C key e sc u = Some u' \<Longrightarrow>
     \<exists>v. u = Some v \<and> u_index u' = u_index v \<and> u_draining u' = u_draining v"
  by (auto simp: after_delete_def uncharge_def split: if_splits option.splits)

declare map_usage.simps [simp del] get_usage.simps [simp del] in_scope.simps [simp del]

lemma scope_count_pos: "dict_ok d \<Longrightarrow> 0 \<le> scope_count C sc d"
  unfolding scope_count_def by (rule dict_sum_nonneg) auto

lemma scope_count_member:
  "dict_ok d \<Longrightarrow> dict_get d k = Some e \<Longrightarrow> in_scope C sc k \<Longrightarrow> 1 \<le> scope_count C sc d"
  unfolding scope_count_def
  using dict_sum_member [of d k e "\<lambda>k e. if in_scope C sc k then 1 else 0"] by auto

lemma scope_sums_del:
  assumes "dict_ok d" "dict_get d k = Some e"
  shows "scope_count C sc (dict_del k d) = scope_count C sc d - (if in_scope C sc k then 1 else 0)"
    "scope_bytes C sc (dict_del k d) = scope_bytes C sc d - (if in_scope C sc k then e_size e else 0)"
    "all_bytes (dict_del k d) = all_bytes d - e_size e"
  using assms by (simp_all add: scope_count_def scope_bytes_def all_bytes_def dict_sum_del)

lemma scope_sums_set:
  assumes "dict_ok d"
  shows "scope_count C sc (dict_set k e d) = scope_count C sc d
      + (if in_scope C sc k \<and> dict_get d k = None then 1 else 0)"
    "scope_bytes C sc (dict_set k e d) = scope_bytes C sc d
      + (if in_scope C sc k
         then e_size e - (case dict_get d k of None \<Rightarrow> 0 | Some f \<Rightarrow> e_size f) else 0)"
    "all_bytes (dict_set k e d) = all_bytes d
      + e_size e - (case dict_get d k of None \<Rightarrow> 0 | Some f \<Rightarrow> e_size f)"
  using assms
  by (cases "dict_get d k"; simp add: scope_count_def scope_bytes_def all_bytes_def dict_sum_set)+

lemma scope_ok_SomeD:
  "scope_ok C s sc \<Longrightarrow> get_usage sc s = Some u \<Longrightarrow>
     u_entries u = scope_count C sc (kv s) \<and> u_bytes u = scope_bytes C sc (kv s) \<and> index_ok C s sc u"
  by (simp add: scope_ok_def)

lemma scope_ok_present:
  "scope_ok C s sc \<Longrightarrow> dict_get (kv s) k = Some e \<Longrightarrow> in_scope C sc k \<Longrightarrow> \<exists>u. get_usage sc s = Some u"
  by (auto simp: scope_ok_def split: option.splits)

lemma index_ok_shrink:
  assumes "index_ok C s sc u" "dict_ok (kv s)" "dict_get (kv s) key = Some e"
    and "u_index u' = u_index u" "u_draining u' = u_draining u"
  shows "index_ok C (delete_entry C key s) sc u'"
  using assms
  by (auto simp: index_ok_def item_ok_def delete_entry_fields dict_get_del split: if_splits)

lemma delete_entry_scope:
  assumes inv: "backend_inv C s" and key: "dict_get (kv s) key = Some e"
  shows "scope_ok C (delete_entry C key s) sc"
proof -
  note ok = backend_invD(1) [OF inv] and sc = backend_invD(4) [OF inv, of sc]
  note sums = scope_sums_del [OF ok key]
  show ?thesis
  proof (cases "in_scope C sc key")
    case False
    then have g: "get_usage sc (delete_entry C key s) = get_usage sc s"
      by (simp add: delete_entry_usage [OF key] after_delete_def)
    show ?thesis
    proof (cases "get_usage sc s")
      case None
      with sc g show ?thesis
        by (auto simp: scope_ok_def delete_entry_fields [OF key] dict_get_del split: if_splits)
    next
      case (Some u)
      with sc g False show ?thesis
        using index_ok_shrink [OF _ ok key, where sc = sc and u = u and u' = u]
        by (simp add: scope_ok_def delete_entry_fields [OF key] sums)
    qed
  next
    case True
    obtain u where u: "get_usage sc s = Some u" using scope_ok_present [OF sc key True] by blast
    note acc = scope_ok_SomeD [OF sc u]
    show ?thesis
    proof (cases "u_entries u = 1 \<and> (\<exists>ok. sc = Owner_Scope ok)")
      case gone: True
      have "\<not> in_scope C sc k" if "dict_get (dict_del key (kv s)) k = Some f" for k f
      proof
        assume "in_scope C sc k"
        with that have "1 \<le> scope_count C sc (dict_del key (kv s))"
          by (intro scope_count_member dict_ok_del [OF ok])
        with sums True acc gone show False by simp
      qed
      moreover have "get_usage sc (delete_entry C key s) = None"
        using u gone True by (simp add: delete_entry_usage [OF key] after_delete_def)
      ultimately show ?thesis by (simp add: scope_ok_def delete_entry_fields [OF key])
    next
      case False
      then have "get_usage sc (delete_entry C key s) = Some (uncharge (e_size e) u)"
        using u True by (auto simp: delete_entry_usage [OF key] after_delete_def)
      moreover have "index_ok C (delete_entry C key s) sc (uncharge (e_size e) u)"
        using acc by (intro index_ok_shrink [OF _ ok key]) (auto simp: uncharge_def)
      ultimately show ?thesis
        using acc sums True
        by (simp add: scope_ok_def delete_entry_fields [OF key] uncharge_def)
    qed
  qed
qed

lemma delete_entry_inv [keep_invs]:
  assumes inv: "backend_inv C s"
  shows "backend_inv C (delete_entry C key s)"
proof (cases "dict_get (kv s) key")
  case None
  with inv show ?thesis by (simp add: delete_entry_def)
next
  case (Some e)
  note ok = backend_invD(1) [OF inv]
  have "entry_ok (delete_entry C key s) k f" if "dict_get (dict_del key (kv s)) k = Some f" for k f
    using that backend_invD(3) [OF inv, of k f]
    by (auto simp: dict_get_del entry_ok_def delete_entry_fields [OF Some] split: if_splits)
  then show ?thesis
    using ok delete_entry_scope [OF inv Some] backend_invD(2) [OF inv] scope_sums_del(3) [OF ok Some]
    by (simp add: backend_inv_def delete_entry_fields [OF Some] dict_ok_del)
qed

section \<open>Dropping expired entries\<close>

text \<open>
  From \<open>s\<close> to \<open>s'\<close> only entries that were expired at \<open>now\<close> disappeared, and of the usage
  slots only the accounts changed.
\<close>

definition dropped :: "real \<Rightarrow> backend \<Rightarrow> backend \<Rightarrow> bool" where
  "dropped now s s' =
     (\<forall>k. dict_get (kv s') k = dict_get (kv s) k \<or>
        (dict_get (kv s') k = None \<and> (\<exists>e. dict_get (kv s) k = Some e \<and> e_expires e \<le> now)))"

definition same_rest :: "backend \<Rightarrow> backend \<Rightarrow> bool" where
  "same_rest s s' =
     (seq_counter s' = seq_counter s \<and> buckets s' = buckets s \<and> bucket_index s' = bucket_index s
      \<and> next_sweep_at s' = next_sweep_at s)"

definition same_indexes :: "backend \<Rightarrow> backend \<Rightarrow> bool" where
  "same_indexes s s' =
     (\<forall>sc u'. get_usage sc s' = Some u' \<longrightarrow>
        (\<exists>u. get_usage sc s = Some u \<and> u_index u' = u_index u \<and> u_draining u' = u_draining u))"

lemma dropped_refl [simp]: "dropped now s s"
  by (simp add: dropped_def)

lemma dropped_trans: "dropped now s s' \<Longrightarrow> dropped now s' s'' \<Longrightarrow> dropped now s s''"
  unfolding dropped_def by metis

lemma same_rest_refl [simp]: "same_rest s s"
  by (simp add: same_rest_def)

lemma same_rest_trans: "same_rest s s' \<Longrightarrow> same_rest s' s'' \<Longrightarrow> same_rest s s''"
  by (simp add: same_rest_def)

lemma same_indexes_refl [simp]: "same_indexes s s"
  by (simp add: same_indexes_def)

lemma same_indexes_trans: "same_indexes s s' \<Longrightarrow> same_indexes s' s'' \<Longrightarrow> same_indexes s s''"
  unfolding same_indexes_def by metis

lemma dropped_live:
  "dropped now s s' \<Longrightarrow> dict_get (kv s) k = Some e \<Longrightarrow> now < e_expires e \<Longrightarrow> dict_get (kv s') k = Some e"
  unfolding dropped_def by (metis not_less option.inject)

lemma dropped_sub: "dropped now s s' \<Longrightarrow> dict_get (kv s') k = Some e \<Longrightarrow> dict_get (kv s) k = Some e"
  unfolding dropped_def by (metis option.distinct(1))

lemma dropped_later: "dropped now s s' \<Longrightarrow> now \<le> now' \<Longrightarrow> dropped now' s s'"
  unfolding dropped_def by (meson order_trans)

lemma is_current_dropped: "dropped now s s' \<Longrightarrow> is_current s' it \<Longrightarrow> is_current s it"
  unfolding is_current_iff using dropped_sub by blast

lemma item_ok_dropped: "dropped now s s' \<Longrightarrow> same_rest s s' \<Longrightarrow> item_ok C s sc it \<Longrightarrow> item_ok C s' sc it"
  unfolding item_ok_def same_rest_def using dropped_sub by metis

lemma delete_entry_dropped:
  assumes "dict_get (kv s) key = Some e" "e_expires e \<le> now"
  shows "dropped now s (delete_entry C key s)"
  using assms by (auto simp: dropped_def delete_entry_fields dict_get_del)

lemma delete_entry_same:
  "same_rest s (delete_entry C key s)" "same_indexes s (delete_entry C key s)"
proof -
  have "same_rest s (delete_entry C key s) \<and> same_indexes s (delete_entry C key s)"
  proof (cases "dict_get (kv s) key")
    case None
    then show ?thesis by (simp add: delete_entry_def)
  next
    case (Some e)
    then show ?thesis
      by (auto simp: same_rest_def same_indexes_def delete_entry_fields delete_entry_usage
          dest: after_delete_Some)
  qed
  then show "same_rest s (delete_entry C key s)" "same_indexes s (delete_entry C key s)" by auto
qed

text \<open>What a scan of one heap leaves behind.\<close>

definition scanned :: "backend_config \<Rightarrow> real \<Rightarrow> item list \<Rightarrow> backend \<Rightarrow> item list \<Rightarrow> backend \<Rightarrow> real option \<Rightarrow> bool" where
  "scanned C now heap s heap' s' d =
     (backend_inv C s' \<and> dropped now s s' \<and> same_rest s s' \<and> same_indexes s s' \<and>
      set heap' \<subseteq> set heap \<and> heap_ordered heap' \<and>
      (\<forall>it\<in>set heap. is_current s' it \<longrightarrow> it \<in> set heap') \<and>
      (case d of
         None \<Rightarrow> heap' = []
       | Some t \<Rightarrow> now < t \<and> (\<exists>it\<in>set heap'. fst it = t \<and> is_current s' it)
           \<and> (\<forall>it\<in>set heap'. t \<le> fst it)))"

lemma same_indexesD:
  "same_indexes s s' \<Longrightarrow> get_usage sc s' = Some u' \<Longrightarrow>
     \<exists>u. get_usage sc s = Some u \<and> u_index u' = u_index u \<and> u_draining u' = u_draining u"
  by (simp add: same_indexes_def)

lemma scanned_same:
  "scanned C now heap s heap' s' d \<Longrightarrow> same_indexes s s'"
  "scanned C now heap s heap' s' d \<Longrightarrow> dropped now s s'"
  "scanned C now heap s heap' s' d \<Longrightarrow> same_rest s s'"
  by (simp_all add: scanned_def)

lemma scanned_step:
  assumes "scanned C now heap s1 heap' s' d" and "heap = heappop (it # rest)"
    and "dropped now s s1" "same_rest s s1" "same_indexes s s1" "\<not> is_current s1 it"
  shows "scanned C now (it # rest) s heap' s' d"
proof -
  have m: "set (it # rest) = insert it (set heap)"
    using mset_heappop [of "it # rest"] assms(2) by (metis list.distinct(1) list.sel(1) set_mset_add_mset_insert set_mset_mset)
  from assms(1) have "dropped now s1 s'" by (simp add: scanned_def)
  with assms(6) have "\<not> is_current s' it" using is_current_dropped by blast
  then show ?thesis
    using assms(1,3-5) unfolding scanned_def m
    by (auto intro: dropped_trans same_rest_trans same_indexes_trans)
qed

lemma drop_dead_scanned:
  assumes "backend_inv C s" "heap_ordered heap" "\<forall>it\<in>set heap. item_ok C s sc it"
    "drop_dead C now heap s = (heap', s', d)"
  shows "scanned C now heap s heap' s' d"
  using assms
proof (induction C now heap s arbitrary: heap' s' d rule: drop_dead.induct)
  case (1 C now heap s)
  show ?case
  proof (cases heap)
    case Nil
    with 1 show ?thesis by (auto simp: drop_dead.simps scanned_def)
  next
    case (Cons it rest)
    have ord: "heap_ordered (heappop heap)" by (rule heap_ordered_pop [OF 1(4)])
    have sub: "set (heappop heap) \<subseteq> set heap"
      using mset_heappop [of heap] Cons by (metis list.distinct(1) set_mset_add_mset_insert set_mset_mset subset_insertI)
    note step = 1(6) [unfolded drop_dead.simps [of C now heap s], unfolded Cons list.case]
    show ?thesis
    proof (cases "is_current s it")
      case False
      with step have "drop_dead C now (heappop heap) s = (heap', s', d)" by (simp add: Cons)
      from 1(1) [OF Cons False 1(3) ord _ this] sub 1(5)
      have "scanned C now (heappop heap) s heap' s' d" by blast
      then show ?thesis unfolding Cons using False by (intro scanned_step) simp_all
    next
      case True
      then obtain e where e: "dict_get (kv s) (snd (snd it)) = Some e" "e_seq e = fst (snd it)"
        by (auto simp: is_current_iff)
      have t: "e_expires e = fst it" using 1(5) e by (auto simp: Cons item_ok_def)
      show ?thesis
      proof (cases "fst it \<le> now")
        case expired: True
        let ?s = "delete_entry C (snd (snd it)) s"
        have d: "dropped now s ?s" using e t expired by (intro delete_entry_dropped) auto
        have items: "\<forall>it\<in>set (heappop heap). item_ok C ?s sc it"
          using 1(5) sub item_ok_dropped [OF d delete_entry_same(1)] by blast
        from step True expired have "drop_dead C now (heappop heap) ?s = (heap', s', d)"
          by (simp add: Cons)
        from 1(2) [OF Cons _ expired delete_entry_inv [OF 1(3)] ord items this] True
        have "scanned C now (heappop heap) ?s heap' s' d" by blast
        moreover have "\<not> is_current ?s it"
          using e by (simp add: is_current_iff delete_entry_fields dict_get_del)
        ultimately show ?thesis
          unfolding Cons using d delete_entry_same by (intro scanned_step) simp_all
      next
        case False
        with step True have r: "heap' = heap" "s' = s" "d = Some (fst it)" by (auto simp: Cons)
        have "\<forall>x\<in>set heap. it \<le> x"
          using heapq.top_least [OF 1(4), of it] by (simp add: Cons heap_top_def)
        then have "\<forall>x\<in>set heap. fst it \<le> fst x" by (auto simp: less_eq_prod_def)
        with r True False 1(3,4) show ?thesis by (auto simp: scanned_def Cons)
      qed
    qed
  qed
qed

text \<open>Writing a scanned index back.\<close>

lemma kv_cong:
  assumes "kv s' = kv s" "seq_counter s' = seq_counter s"
  shows "item_ok C s' sc it = item_ok C s sc it" "index_ok C s' sc u = index_ok C s sc u"
    "is_current s' it = is_current s it" "entry_ok s' k e = entry_ok s k e"
  using assms by (simp_all add: item_ok_def index_ok_def is_current_iff entry_ok_def)

lemma map_usage_inv:
  assumes inv: "backend_inv C s"
    and f: "\<And>u. get_usage sc s = Some u \<Longrightarrow>
      index_ok C s sc (f u) \<and> u_entries (f u) = u_entries u \<and> u_bytes (f u) = u_bytes u"
  shows "backend_inv C (map_usage sc f s)"
proof -
  have "scope_ok C (map_usage sc f s) sc'" for sc'
  proof (cases "get_usage sc' s")
    case None
    then have "get_usage sc' (map_usage sc f s) = None" by (auto simp: get_map_usage)
    with None backend_invD(4) [OF inv, of sc'] show ?thesis by (simp add: scope_ok_def)
  next
    case (Some u)
    with backend_invD(4) [OF inv, of sc'] f show ?thesis
      by (auto simp: scope_ok_def get_map_usage kv_cong [of "map_usage sc f s" s])
  qed
  with inv show ?thesis by (simp add: backend_inv_def kv_cong [of "map_usage sc f s" s])
qed

lemma map_usage_same [simp]: "same_rest s (map_usage sc f s)" "dropped now s (map_usage sc f s)"
  by (simp_all add: same_rest_def dropped_def)

text \<open>The earliest deadline among the stored entries that satisfy \<open>P\<close>.\<close>

definition earliest_of :: "(string \<Rightarrow> bool) \<Rightarrow> backend \<Rightarrow> real option \<Rightarrow> bool" where
  "earliest_of P s d =
     (case d of
        None \<Rightarrow> (\<forall>k e. dict_get (kv s) k = Some e \<longrightarrow> \<not> P k)
      | Some t \<Rightarrow> (\<exists>k e. dict_get (kv s) k = Some e \<and> P k \<and> e_expires e = t)
          \<and> (\<forall>k e. dict_get (kv s) k = Some e \<longrightarrow> P k \<longrightarrow> t \<le> e_expires e))"

definition all_live :: "real \<Rightarrow> (string \<Rightarrow> bool) \<Rightarrow> backend \<Rightarrow> bool" where
  "all_live now P s = (\<forall>k e. dict_get (kv s) k = Some e \<longrightarrow> P k \<longrightarrow> now < e_expires e)"

lemma current_item_entry:
  "is_current s it \<Longrightarrow> item_ok C s sc it \<Longrightarrow>
     \<exists>k e. dict_get (kv s) k = Some e \<and> in_scope C sc k \<and> e_expires e = fst it"
  by (auto simp: is_current_iff item_ok_def)

lemma entry_item_current: "dict_get (kv s) k = Some e \<Longrightarrow> is_current s (entry_item k e)"
  by (simp add: is_current_iff entry_item_def)

lemma index_ok_swap:
  assumes "index_ok C s sc u" "heap_ordered (u_index u')" "heap_ordered (u_draining u')"
    and "usage_items u' \<subseteq> usage_items u"
    and "\<And>it. it \<in> usage_items u \<Longrightarrow> is_current s it \<Longrightarrow> it \<in> usage_items u'"
  shows "index_ok C s sc u'"
  using assms entry_item_current unfolding index_ok_def by blast

lemma earliest_live_spec:
  assumes inv: "backend_inv C s" and run: "earliest_live C now sc s = (d, s')"
  shows "backend_inv C s' \<and> dropped now s s' \<and> same_rest s s' \<and>
    all_live now (in_scope C sc) s' \<and> earliest_of (in_scope C sc) s' d"
proof (cases "get_usage sc s")
  case None
  with run have "d = None" "s' = s" by (simp_all add: earliest_live_def)
  with None backend_invD(4) [OF inv, of sc] inv show ?thesis
    by (auto simp: scope_ok_def all_live_def earliest_of_def)
next
  case (Some u)
  obtain index s1 d1 where scan1: "drop_dead C now (u_index u) s = (index, s1, d1)"
    by (cases "drop_dead C now (u_index u) s") auto
  define s2 where "s2 = map_usage sc (u_index_update (\<lambda>_. index)) s1"
  obtain draining s3 d2 where scan2: "drop_dead C now (u_draining u) s2 = (draining, s3, d2)"
    by (cases "drop_dead C now (u_draining u) s2") auto
  define s4 where "s4 = map_usage sc (u_draining_update (\<lambda>_. draining)) s3"
  have res: "d = min_deadline d1 d2" "s' = s4"
    using run by (simp_all add: earliest_live_def Some scan1 scan2 [unfolded s2_def] s2_def s4_def Let_def)
  have iok: "index_ok C s sc u" using scope_ok_SomeD [OF backend_invD(4) [OF inv] Some] by simp
  then have items: "\<forall>it\<in>usage_items u. item_ok C s sc it"
    and ord: "heap_ordered (u_index u)" "heap_ordered (u_draining u)" by (auto simp: index_ok_def)
  have sc1: "scanned C now (u_index u) s index s1 d1"
    using drop_dead_scanned [OF inv ord(1) _ scan1] items by blast
  have inv2: "backend_inv C s2"
    unfolding s2_def
  proof (rule map_usage_inv)
    fix v assume v: "get_usage sc s1 = Some v"
    then have eq: "u_index v = u_index u" "u_draining v = u_draining u"
      using same_indexesD [OF scanned_same(1) [OF sc1] v] Some by auto
    have "index_ok C s1 sc v"
      using sc1 v scope_ok_SomeD backend_invD(4) by (fastforce simp: scanned_def)
    then have "index_ok C s1 sc (v\<lparr>u_index := index\<rparr>)"
      using sc1 ord(2) eq by (elim index_ok_swap) (auto simp: scanned_def)
    then show "index_ok C s1 sc (v\<lparr>u_index := index\<rparr>) \<and>
        u_entries (v\<lparr>u_index := index\<rparr>) = u_entries v \<and> u_bytes (v\<lparr>u_index := index\<rparr>) = u_bytes v"
      by simp
  qed (use sc1 in \<open>simp add: scanned_def\<close>)
  have d12: "dropped now s s2" "same_rest s s2"
    using sc1 unfolding scanned_def s2_def by (auto intro: dropped_trans same_rest_trans)
  have items2: "\<forall>it\<in>usage_items u. item_ok C s2 sc it"
    using items item_ok_dropped [OF d12] by blast
  have sc2: "scanned C now (u_draining u) s2 draining s3 d2"
    using drop_dead_scanned [OF inv2 ord(2) _ scan2] items2 by blast
  have slot3: "u_index v = index \<and> u_draining v = u_draining u" if g3: "get_usage sc s3 = Some v" for v
  proof -
    obtain w where w: "get_usage sc s2 = Some w" "u_index v = u_index w" "u_draining v = u_draining w"
      using same_indexesD [OF scanned_same(1) [OF sc2] g3] by blast
    then obtain x where x: "get_usage sc s1 = Some x" "w = x\<lparr>u_index := index\<rparr>"
      by (auto simp: s2_def get_map_usage)
    then have "u_draining x = u_draining u"
      using same_indexesD [OF scanned_same(1) [OF sc1] x(1)] Some by auto
    with w x show ?thesis by simp
  qed
  have inv4: "backend_inv C s4"
    unfolding s4_def
  proof (rule map_usage_inv)
    fix v assume v: "get_usage sc s3 = Some v"
    have "index_ok C s3 sc v"
      using sc2 v scope_ok_SomeD backend_invD(4) by (fastforce simp: scanned_def)
    then have "index_ok C s3 sc (v\<lparr>u_draining := draining\<rparr>)"
      using sc1 sc2 slot3 [OF v] by (elim index_ok_swap) (auto simp: scanned_def)
    then show "index_ok C s3 sc (v\<lparr>u_draining := draining\<rparr>) \<and>
        u_entries (v\<lparr>u_draining := draining\<rparr>) = u_entries v \<and>
        u_bytes (v\<lparr>u_draining := draining\<rparr>) = u_bytes v"
      by simp
  qed (use sc2 in \<open>simp add: scanned_def\<close>)
  have kv4: "kv s4 = kv s3" "same_rest s s4" "dropped now s s4" "dropped now s1 s4"
  proof -
    have r34: "same_rest s3 s4" "dropped now s3 s4" and "kv s4 = kv s3" by (simp_all add: s4_def)
    then show "kv s4 = kv s3" by simp
    note r23 = scanned_same(2,3) [OF sc2]
    show "same_rest s s4" using same_rest_trans [OF same_rest_trans [OF d12(2) r23(2)] r34(1)] .
    show "dropped now s s4" using dropped_trans [OF dropped_trans [OF d12(1) r23(1)] r34(2)] .
    have r12: "dropped now s1 s2" by (simp add: s2_def)
    show "dropped now s1 s4" using dropped_trans [OF dropped_trans [OF r12 r23(1)] r34(2)] .
  qed
  have bound: "(\<exists>t. d1 = Some t \<and> now < t \<and> t \<le> e_expires e) \<or> (\<exists>t. d2 = Some t \<and> now < t \<and> t \<le> e_expires e)"
    if e: "dict_get (kv s4) k = Some e" "in_scope C sc k" for k e
  proof -
    obtain v where v: "get_usage sc s4 = Some v"
      using scope_ok_present [OF backend_invD(4) [OF inv4] e] by blast
    then have "index_ok C s4 sc v" using scope_ok_SomeD backend_invD(4) [OF inv4] by blast
    with e have "entry_item k e \<in> usage_items v" by (auto simp: index_ok_def)
    moreover have "u_index v = index \<and> u_draining v = draining"
      using v slot3 by (auto simp: s4_def get_map_usage)
    ultimately have "entry_item k e \<in> set index \<or> entry_item k e \<in> set draining" by simp
    with sc1 sc2 show ?thesis
      by (cases d1; cases d2) (auto simp: scanned_def entry_item_def)
  qed
  have attained: "\<exists>k e. dict_get (kv s4) k = Some e \<and> in_scope C sc k \<and> e_expires e = t"
    if "d1 = Some t \<or> d2 = Some t" for t
    using that
  proof
    assume d1: "d1 = Some t"
    then obtain it where it: "it \<in> set (u_index u)" "fst it = t" "is_current s1 it" "now < t"
      using sc1 by (auto simp: scanned_def)
    have "item_ok C s1 sc it"
      using it items item_ok_dropped [of now s s1] sc1 by (auto simp: scanned_def)
    from current_item_entry [OF it(3) this] it dropped_live [OF kv4(4)] show ?thesis by metis
  next
    assume d2: "d2 = Some t"
    then obtain it where it: "it \<in> set (u_draining u)" "fst it = t" "is_current s3 it"
      using sc2 by (auto simp: scanned_def)
    have "item_ok C s3 sc it"
      using it items2 item_ok_dropped [of now s2 s3] sc2 by (auto simp: scanned_def)
    from current_item_entry [OF it(3) this] it kv4 show ?thesis by metis
  qed
  have "all_live now (in_scope C sc) s4"
    unfolding all_live_def using bound by (meson less_le_trans)
  moreover have "earliest_of (in_scope C sc) s4 d"
    using bound attained unfolding res earliest_of_def min_deadline_def
    by (fastforce split: option.splits simp: min_def)
  ultimately show ?thesis using inv4 kv4 res by simp
qed

section \<open>Every namespace, and the sweep\<close>

lemma all_live_dropped: "all_live now P s \<Longrightarrow> dropped now s s' \<Longrightarrow> all_live now P s'"
  unfolding all_live_def using dropped_sub by blast

lemma earliest_of_dropped:
  assumes "earliest_of P s d" "all_live now P s" "dropped now s s'"
  shows "earliest_of P s' d"
proof (cases d)
  case None
  with assms show ?thesis unfolding earliest_of_def using dropped_sub by fastforce
next
  case (Some t)
  with assms(1) obtain k e where k: "dict_get (kv s) k = Some e" "P k" "e_expires e = t"
    by (auto simp: earliest_of_def)
  then have "dict_get (kv s') k = Some e"
    using dropped_live [OF assms(3)] assms(2) by (auto simp: all_live_def)
  moreover have "\<forall>k e. dict_get (kv s') k = Some e \<longrightarrow> P k \<longrightarrow> t \<le> e_expires e"
    using assms(1) dropped_sub [OF assms(3)] Some by (auto simp: earliest_of_def)
  ultimately show ?thesis using k Some by (auto simp: earliest_of_def)
qed

lemma earliest_of_min:
  assumes "earliest_of P s d" "earliest_of Q s d'" and R: "\<And>k. R k \<longleftrightarrow> P k \<or> Q k"
  shows "earliest_of R s (min_deadline d d')"
  using assms(1,2) unfolding earliest_of_def min_deadline_def
  by (cases d; cases d') (auto simp: R min_def, (meson order_trans linear)+)

lemma in_scope_namespace: "in_scope C (Namespace_Scope ns) = (\<lambda>k. key_namespace k = ns)"
  by (rule ext) (simp add: in_scope.simps)

lemma earliest_of_everything:
  assumes "earliest_of P s d" "\<And>k e. dict_get (kv s) k = Some e \<Longrightarrow> P k"
  shows "earliest_of (\<lambda>k. True) s d"
proof (cases d)
  case None
  with assms show ?thesis unfolding earliest_of_def by (simp only: option.case) blast
next
  case (Some t)
  with assms show ?thesis unfolding earliest_of_def by (simp only: option.case) blast
qed

lemma earliest_live_all_spec:
  "backend_inv C s \<Longrightarrow> earliest_live_all C now nss s = (d, s') \<Longrightarrow>
     backend_inv C s' \<and> dropped now s s' \<and> same_rest s s' \<and>
     all_live now (\<lambda>k. key_namespace k \<in> set nss) s' \<and>
     earliest_of (\<lambda>k. key_namespace k \<in> set nss) s' d"
proof (induction nss arbitrary: s d s')
  case Nil
  then show ?case by (simp add: all_live_def earliest_of_def)
next
  case (Cons ns nss)
  obtain d1 s1 where one: "earliest_live C now (Namespace_Scope ns) s = (d1, s1)"
    by (cases "earliest_live C now (Namespace_Scope ns) s")
  obtain d2 s2 where rest: "earliest_live_all C now nss s1 = (d2, s2)"
    by (cases "earliest_live_all C now nss s1")
  have res: "d = min_deadline d1 d2" "s' = s2" using Cons.prems(2) by (simp_all add: one rest)
  note A = earliest_live_spec [OF Cons.prems(1) one]
  then have B: "backend_inv C s2 \<and> dropped now s1 s2 \<and> same_rest s1 s2 \<and>
      all_live now (\<lambda>k. key_namespace k \<in> set nss) s2 \<and>
      earliest_of (\<lambda>k. key_namespace k \<in> set nss) s2 d2" using Cons.IH rest by blast
  have live: "all_live now (in_scope C (Namespace_Scope ns)) s2" using A B all_live_dropped by blast
  have "earliest_of (in_scope C (Namespace_Scope ns)) s2 d1" using A B earliest_of_dropped by blast
  then have "earliest_of (\<lambda>k. key_namespace k \<in> set (ns # nss)) s2 d"
    unfolding res in_scope_namespace using B by (elim earliest_of_min) auto
  moreover have "all_live now (\<lambda>k. key_namespace k \<in> set (ns # nss)) s2"
    using live B by (auto simp: all_live_def in_scope.simps)
  ultimately show ?case using A B res by (metis dropped_trans same_rest_trans)
qed

lemma earliest_live_anywhere_spec:
  assumes inv: "backend_inv C s" and run: "earliest_live_anywhere C now s = (d, s')"
  shows "backend_inv C s' \<and> dropped now s s' \<and> same_rest s s' \<and>
    all_live now (\<lambda>k. True) s' \<and> earliest_of (\<lambda>k. True) s' d"
proof -
  note A = earliest_live_all_spec [OF inv run [unfolded earliest_live_anywhere_def]]
  have "key_namespace k \<in> set (map fst (ns_usage s))" if "dict_get (kv s') k = Some e" for k e
  proof -
    have "dict_get (kv s) k = Some e" using A that dropped_sub by blast
    then obtain u where "get_usage (Namespace_Scope (key_namespace k)) s = Some u"
      using scope_ok_present [OF backend_invD(4) [OF inv]] by (metis in_scope.simps(1))
    then show ?thesis by (metis get_usage.simps(1) map_of_eq_None_iff list.set_map option.distinct(1))
  qed
  moreover from this A have "all_live now (\<lambda>k. True) s'" unfolding all_live_def by blast
  ultimately show ?thesis using A earliest_of_everything by blast
qed

lemma backend_inv_frame:
  "kv s' = kv s \<Longrightarrow> total_bytes s' = total_bytes s \<Longrightarrow> seq_counter s' = seq_counter s \<Longrightarrow>
   ns_usage s' = ns_usage s \<Longrightarrow> owner_usage s' = owner_usage s \<Longrightarrow>
   backend_inv C s' = backend_inv C s"
proof -
  assume eq: "kv s' = kv s" "total_bytes s' = total_bytes s" "seq_counter s' = seq_counter s"
    "ns_usage s' = ns_usage s" "owner_usage s' = owner_usage s"
  have "get_usage sc s' = get_usage sc s" for sc using eq by (cases sc) (simp_all add: get_usage.simps)
  then have "scope_ok C s' sc = scope_ok C s sc" for sc
    using eq by (simp add: scope_ok_def kv_cong [OF eq(1,3)] split: option.split)
  then show ?thesis using eq by (simp add: backend_inv_def kv_cong [OF eq(1,3)])
qed

lemma sweep_spec:
  assumes "backend_inv C s"
  shows "backend_inv C (sweep C now s) \<and> dropped now s (sweep C now s) \<and>
    seq_counter (sweep C now s) = seq_counter s \<and> all_live now (\<lambda>k. True) (sweep C now s)"
proof -
  obtain d s1 where s1: "earliest_live_anywhere C now s = (d, s1)"
    by (cases "earliest_live_anywhere C now s")
  note A = earliest_live_anywhere_spec [OF assms s1]
  obtain ix bs where b: "drop_refilled now (bucket_index s1) (buckets s1) = (ix, bs)"
    by (cases "drop_refilled now (bucket_index s1) (buckets s1)")
  have sw: "sweep C now s = s1\<lparr>bucket_index := ix, buckets := bs, next_sweep_at := now + sweep_interval C\<rparr>"
    by (simp add: sweep_def s1 b)
  have "backend_inv C (sweep C now s) = backend_inv C s1"
    by (rule backend_inv_frame) (simp_all add: sw)
  with A show ?thesis by (simp add: sw dropped_def all_live_def same_rest_def)
qed

lemma maybe_sweep_spec:
  assumes "backend_inv C s"
  shows "backend_inv C (maybe_sweep C now s)" "dropped now s (maybe_sweep C now s)"
  using sweep_spec [OF assms] assms by (auto simp: maybe_sweep_def)

lemma live_entry_spec:
  assumes "backend_inv C s" "live_entry C now key s = (r, s')"
  shows "backend_inv C s' \<and> dropped now s s' \<and> same_rest s s' \<and> dict_get (kv s') key = r \<and>
    (case r of Some e \<Rightarrow> now < e_expires e \<and> s' = s
     | None \<Rightarrow> \<forall>e. dict_get (kv s) key = Some e \<longrightarrow> e_expires e \<le> now)"
proof (cases "dict_get (kv s) key")
  case None
  with assms show ?thesis by (auto simp: live_entry_def)
next
  case (Some e)
  show ?thesis
  proof (cases "e_expires e \<le> now")
    case True
    with assms Some have "r = None" "s' = delete_entry C key s" by (auto simp: live_entry_def)
    with True Some assms(1) show ?thesis
      by (auto simp: delete_entry_inv delete_entry_dropped delete_entry_same delete_entry_fields dict_get_del)
  next
    case False
    with assms Some have "r = Some e" "s' = s" by (auto simp: live_entry_def)
    with False Some assms(1) show ?thesis by simp
  qed
qed

section \<open>Indexing and compaction\<close>

text \<open>What index maintenance may do to a usage record: drop superseded items, move items.\<close>

definition reindexed :: "backend \<Rightarrow> item set \<Rightarrow> usage \<Rightarrow> usage \<Rightarrow> bool" where
  "reindexed s new u u' =
     (u_entries u' = u_entries u \<and> u_bytes u' = u_bytes u \<and>
      (heap_ordered (u_index u) \<and> heap_ordered (u_draining u) \<longrightarrow>
         heap_ordered (u_index u') \<and> heap_ordered (u_draining u')) \<and>
      usage_items u' \<subseteq> new \<union> usage_items u \<and>
      (\<forall>it \<in> new \<union> usage_items u. is_current s it \<longrightarrow> it \<in> usage_items u'))"

lemma reindexed_refl [simp]: "reindexed s {} u u"
  by (simp add: reindexed_def)

lemma reindexed_trans:
  "reindexed s new u v \<Longrightarrow> reindexed s {} v w \<Longrightarrow> reindexed s new u w"
proof -
  assume uv: "reindexed s new u v" and vw: "reindexed s {} v w"
  have "usage_items w \<subseteq> new \<union> usage_items u"
    using uv vw unfolding reindexed_def by (elim conjE) blast
  moreover have "\<forall>it \<in> new \<union> usage_items u. is_current s it \<longrightarrow> it \<in> usage_items w"
    using uv vw unfolding reindexed_def by (elim conjE) blast
  ultimately show ?thesis
    using uv vw unfolding reindexed_def by (elim conjE) (intro conjI, simp_all)
qed

lemma set_heappush: "set (heappush x xs) = insert x (set xs)"
  by (metis mset_heappush set_mset_add_mset_insert set_mset_mset)

lemma compact_one:
  assumes "u_draining u \<noteq> []"
  shows "reindexed s {} u
    (let item = last (u_draining u); v = u\<lparr>u_draining := butlast (u_draining u)\<rparr>
     in if is_current s item then v\<lparr>u_index := heappush item (u_index v)\<rparr> else v)"
proof -
  obtain ys y where "u_draining u = ys @ [y]" using assms by (cases "u_draining u" rule: rev_cases) auto
  then show ?thesis
    using heap_ordered_butlast [of "u_draining u"]
    by (auto simp: reindexed_def Let_def set_heappush heap_ordered_push)
qed

lemma compact_steps_reindexed: "n \<le> length (u_draining u) \<Longrightarrow> reindexed s {} u (compact_steps n s u)"
proof (induction n arbitrary: u)
  case 0
  then show ?case by simp
next
  case (Suc n)
  then have ne: "u_draining u \<noteq> []" by auto
  let ?v = "let item = last (u_draining u); v = u\<lparr>u_draining := butlast (u_draining u)\<rparr>
     in if is_current s item then v\<lparr>u_index := heappush item (u_index v)\<rparr> else v"
  have "n \<le> length (u_draining ?v)" using Suc.prems by (simp add: Let_def)
  with Suc.IH have "reindexed s {} ?v (compact_steps n s ?v)" by blast
  with compact_one [OF ne] have "reindexed s {} u (compact_steps n s ?v)" by (rule reindexed_trans)
  then show ?case by (simp add: Let_def)
qed

lemma compact_step_reindexed: "reindexed s {} u (compact_step s u)"
  unfolding compact_step_def by (rule compact_steps_reindexed) simp

lemma index_entry_reindexed: "reindexed s {entry_item key e} u (index_entry s u e key)"
proof -
  let ?v = "u\<lparr>u_index := heappush (e_expires e, e_seq e, key) (u_index u)\<rparr>"
  have v: "reindexed s {entry_item key e} u ?v"
    by (auto simp: reindexed_def set_heappush entry_item_def heap_ordered_push)
  have "reindexed s {} ?v (?v\<lparr>u_draining := u_index ?v, u_index := []\<rparr>)" if "u_draining u = []"
    using that by (auto simp: reindexed_def heap_ordered_def)
  moreover have "index_entry s u e key =
      (if u_draining ?v \<noteq> [] then compact_step s ?v
       else if 2 * u_entries ?v + index_slack < int (length (u_index ?v))
       then compact_step s (?v\<lparr>u_draining := u_index ?v, u_index := []\<rparr>) else ?v)"
    by (simp only: index_entry_def Let_def)
  moreover have "u_draining ?v = u_draining u" by simp
  ultimately show ?thesis
    using v compact_step_reindexed reindexed_trans by (smt (verit))
qed

lemma compact_steps_cong: "kv s = kv s' \<Longrightarrow> compact_steps n s u = compact_steps n s' u"
  by (induction n arbitrary: u) (simp_all add: is_current_def)

lemma charge_entry_cong: "kv s = kv s' \<Longrightarrow> charge_entry s e key u = charge_entry s' e key u"
  using compact_steps_cong [of s s']
  by (simp add: charge_entry_def index_entry_def compact_step_def Let_def)

lemma charge_entry_reindexed:
  "reindexed s {entry_item key e} (u\<lparr>u_entries := u_entries u + 1, u_bytes := u_bytes u + e_size e\<rparr>)
     (charge_entry s e key u)"
  unfolding charge_entry_def by (rule index_entry_reindexed)

section \<open>Inserting\<close>

definition new_entry :: "backend \<Rightarrow> string \<Rightarrow> real \<Rightarrow> int \<Rightarrow> entry" where
  "new_entry s val expires_at sz =
     \<lparr>e_value = val, e_expires = expires_at, e_size = sz, e_seq = seq_counter s + 1\<rparr>"

lemma insert_entry_fields:
  "kv (insert_entry C key ns val x sz s) = dict_set key (new_entry s val x sz) (kv s)"
  "total_bytes (insert_entry C key ns val x sz s) = total_bytes s + sz"
  "seq_counter (insert_entry C key ns val x sz s) = seq_counter s + 1"
  "buckets (insert_entry C key ns val x sz s) = buckets s"
  "bucket_index (insert_entry C key ns val x sz s) = bucket_index s"
  "next_sweep_at (insert_entry C key ns val x sz s) = next_sweep_at s"
  by (simp_all add: insert_entry_def new_entry_def Let_def split: option.split)

lemma insert_entry_usage:
  assumes ns_def: "ns = key_namespace key" and s'_def: "s' = insert_entry C key ns val x sz s"
  shows "get_usage sc s' =
    (if in_scope C sc key
     then Some (charge_entry s' (new_entry s val x sz) key (default_usage (get_usage sc s)))
     else get_usage sc s)"
proof -
  let ?e = "new_entry s val x sz"
  define t where "t = s\<lparr>seq_counter := seq_counter s + 1, kv := dict_set key ?e (kv s),
    total_bytes := total_bytes s + sz\<rparr>"
  define t' where "t' = t\<lparr>ns_usage := dict_set ns
    (charge_entry t ?e key (default_usage (dict_get (ns_usage s) ns))) (ns_usage s)\<rparr>"
  have s': "s' = (case owner_key C key ns of
           None \<Rightarrow> t'
         | Some ok \<Rightarrow> t'\<lparr>owner_usage := dict_set ok
                 (charge_entry t' ?e key (default_usage (dict_get (owner_usage s) ok))) (owner_usage s)\<rparr>)"
    by (simp add: s'_def insert_entry_def t'_def t_def new_entry_def Let_def split: option.split)
  have "charge_entry t = charge_entry s'" "charge_entry t' = charge_entry s'"
    by (intro ext charge_entry_cong; simp add: s' t'_def t_def split: option.split)+
  note charge = this
  show ?thesis
  proof (cases sc)
    case (Namespace_Scope n)
    have "get_usage sc s' = get_usage sc t'"
      by (simp add: s' Namespace_Scope get_usage.simps split: option.split)
    then show ?thesis
      using charge by (simp add: t'_def t_def Namespace_Scope get_usage.simps in_scope.simps dict_get_set ns_def)
  next
    case (Owner_Scope ok)
    have "get_usage sc s' = (if owner_key C key ns = Some ok
        then Some (charge_entry t' ?e key (default_usage (dict_get (owner_usage s) ok)))
        else dict_get (owner_usage t') ok)"
      by (auto simp: s' t'_def t_def Owner_Scope get_usage.simps dict_get_set split: option.split)
    then show ?thesis
      using charge by (simp add: t'_def t_def Owner_Scope get_usage.simps in_scope.simps ns_def)
  qed
qed

lemma reindexed_index_ok:
  assumes r: "reindexed s new v w"
    and "heap_ordered (u_index v)" "heap_ordered (u_draining v)"
    and "\<And>it. it \<in> new \<union> usage_items v \<Longrightarrow> item_ok C s sc it"
    and "\<And>k f. dict_get (kv s) k = Some f \<Longrightarrow> in_scope C sc k \<Longrightarrow> entry_item k f \<in> new \<union> usage_items v"
  shows "index_ok C s sc w"
proof -
  have "usage_items w \<subseteq> new \<union> usage_items v" using r by (simp only: reindexed_def)
  moreover have "\<And>it. it \<in> new \<union> usage_items v \<Longrightarrow> is_current s it \<Longrightarrow> it \<in> usage_items w"
    using r unfolding reindexed_def by blast
  moreover have "heap_ordered (u_index w) \<and> heap_ordered (u_draining w)"
    using r assms(2,3) by (simp add: reindexed_def)
  ultimately show ?thesis
    using assms(4,5) entry_item_current unfolding index_ok_def by blast
qed

lemma default_usage_facts:
  assumes "scope_ok C s sc"
  shows "u_entries (default_usage (get_usage sc s)) = scope_count C sc (kv s)"
    "u_bytes (default_usage (get_usage sc s)) = scope_bytes C sc (kv s)"
    "index_ok C s sc (default_usage (get_usage sc s))"
proof -
  have "u_entries (default_usage (get_usage sc s)) = scope_count C sc (kv s) \<and>
    u_bytes (default_usage (get_usage sc s)) = scope_bytes C sc (kv s) \<and>
    index_ok C s sc (default_usage (get_usage sc s))"
  proof (cases "get_usage sc s")
    case None
    with assms have none: "\<forall>k e. dict_get (kv s) k = Some e \<longrightarrow> \<not> in_scope C sc k"
      by (simp add: scope_ok_def)
    have zero: "dict_sum (\<lambda>k e. if in_scope C sc k then f e else 0) d = 0"
      if "\<forall>k e. dict_get d k = Some e \<longrightarrow> \<not> in_scope C sc k" for d :: "(string, entry) dict" and f
    proof -
      have "\<forall>(k, e)\<in>set d. \<not> in_scope C sc k"
        using that weak_map_of_SomeI by fastforce
      then show ?thesis by (induction d) (auto simp: dict_sum_def)
    qed
    from none zero [of "kv s" "\<lambda>_. 1"] zero [of "kv s" e_size] None show ?thesis
      by (simp add: default_usage_def new_usage_def scope_count_def scope_bytes_def index_ok_def
          heap_ordered_def)
  next
    case (Some u)
    with assms show ?thesis by (simp add: default_usage_def scope_ok_def)
  qed
  then show "u_entries (default_usage (get_usage sc s)) = scope_count C sc (kv s)"
    "u_bytes (default_usage (get_usage sc s)) = scope_bytes C sc (kv s)"
    "index_ok C s sc (default_usage (get_usage sc s))" by blast+
qed

lemma insert_entry_inv [keep_invs]:
  assumes inv: "backend_inv C s" and fresh: "dict_get (kv s) key = None"
    and sz: "sz = int (length key) + int (length val) + entry_overhead_bytes"
  shows "backend_inv C (insert_entry C key (key_namespace key) val x sz s)"
proof -
  let ?s = "insert_entry C key (key_namespace key) val x sz s" and ?e = "new_entry s val x sz"
  note ok = backend_invD(1) [OF inv] and flds = insert_entry_fields
  have e: "e_size ?e = sz" "e_seq ?e = seq_counter s + 1" "e_value ?e = val"
    by (simp_all add: new_entry_def)
  have item: "item_ok C ?s sc it" if "item_ok C s sc it" for sc it
    using that e by (auto simp: item_ok_def flds dict_get_set)
  have "scope_ok C ?s sc" for sc
  proof (cases "in_scope C sc key")
    case False
    then have g: "get_usage sc ?s = get_usage sc s" by (simp add: insert_entry_usage)
    have keep: "dict_get (kv ?s) k = Some f \<Longrightarrow> in_scope C sc k \<Longrightarrow> dict_get (kv s) k = Some f" for k f
      using False by (auto simp: flds dict_get_set split: if_splits)
    have idx: "index_ok C s sc u \<Longrightarrow> index_ok C ?s sc u" for u
      using item keep unfolding index_ok_def by blast
    show ?thesis
    proof (cases "get_usage sc s")
      case None
      with backend_invD(4) [OF inv, of sc] g keep show ?thesis by (simp add: scope_ok_def) blast
    next
      case (Some u)
      with backend_invD(4) [OF inv, of sc] g idx False show ?thesis
        by (simp add: scope_ok_def flds scope_sums_set [OF ok])
    qed
  next
    case True
    let ?u = "default_usage (get_usage sc s)"
    let ?v = "?u\<lparr>u_entries := u_entries ?u + 1, u_bytes := u_bytes ?u + e_size ?e\<rparr>"
    note d = default_usage_facts [OF backend_invD(4) [OF inv, of sc]]
    have g: "get_usage sc ?s = Some (charge_entry ?s ?e key ?u)"
      using True by (simp add: insert_entry_usage)
    have r: "reindexed ?s {entry_item key ?e} ?v (charge_entry ?s ?e key ?u)"
      by (rule charge_entry_reindexed)
    have acc: "u_entries (charge_entry ?s ?e key ?u) = scope_count C sc (kv ?s)"
      "u_bytes (charge_entry ?s ?e key ?u) = scope_bytes C sc (kv ?s)"
      using r d True fresh by (simp_all add: reindexed_def flds scope_sums_set [OF ok])
    have new: "item_ok C ?s sc (entry_item key ?e)"
      using True by (simp add: item_ok_def entry_item_def flds dict_get_set e)
    have "entry_item k f \<in> {entry_item key ?e} \<union> usage_items ?v"
      if "dict_get (kv ?s) k = Some f" "in_scope C sc k" for k f
      using that d(3) by (auto simp: flds dict_get_set index_ok_def split: if_splits)
    then have "index_ok C ?s sc (charge_entry ?s ?e key ?u)"
      using d(3) new item by (intro reindexed_index_ok [OF r]) (auto simp: index_ok_def)
    then show ?thesis using acc by (simp add: scope_ok_def g)
  qed
  moreover have "entry_ok ?s k f" if "dict_get (kv ?s) k = Some f" for k f
  proof (cases "k = key")
    case True
    with that have "f = ?e" by (simp add: flds dict_get_set)
    with True show ?thesis by (simp add: entry_ok_def flds new_entry_def sz)
  next
    case False
    with that backend_invD(3) [OF inv, of k f] show ?thesis
      by (simp add: entry_ok_def flds dict_get_set)
  qed
  ultimately show ?thesis
    using ok backend_invD(2) [OF inv] fresh
    by (simp add: backend_inv_def flds dict_ok_set scope_sums_set e)
qed

section \<open>Committing a write\<close>

lemma resize_fields:
  assumes "ns = key_namespace key"
  shows "kv (resize C key ns e sz s) = dict_set key (e\<lparr>e_size := sz\<rparr>) (kv s)"
    "total_bytes (resize C key ns e sz s) = total_bytes s + (sz - e_size e)"
    "seq_counter (resize C key ns e sz s) = seq_counter s"
    "get_usage sc (resize C key ns e sz s) =
      (if in_scope C sc key
       then map_option (\<lambda>u. u\<lparr>u_bytes := u_bytes u + (sz - e_size e)\<rparr>) (get_usage sc s)
       else get_usage sc s)"
    "buckets (resize C key ns e sz s) = buckets s"
    "bucket_index (resize C key ns e sz s) = bucket_index s"
    "next_sweep_at (resize C key ns e sz s) = next_sweep_at s"
proof -
  let ?t = "s\<lparr>kv := dict_set key (e\<lparr>e_size := sz\<rparr>) (kv s), total_bytes := total_bytes s + (sz - e_size e)\<rparr>"
  have g: "get_usage sc ?t = get_usage sc s" for sc by (cases sc) (simp_all add: get_usage.simps)
  show "get_usage sc (resize C key ns e sz s) =
      (if in_scope C sc key
       then map_option (\<lambda>u. u\<lparr>u_bytes := u_bytes u + (sz - e_size e)\<rparr>) (get_usage sc s)
       else get_usage sc s)"
    unfolding resize_def Let_def
    by (cases sc) (auto simp: get_map_usage g in_scope.simps assms split: option.split)
qed (simp_all add: resize_def Let_def split: option.split)

definition in_place :: "backend_config \<Rightarrow> string \<Rightarrow> string \<Rightarrow> entry \<Rightarrow> int \<Rightarrow> backend \<Rightarrow> backend" where
  "in_place C key val e sz s =
     (let s = resize C key (key_namespace key) e sz s in
      s\<lparr>kv := dict_set key (e\<lparr>e_size := sz, e_value := val\<rparr>) (kv s)\<rparr>)"

lemma get_usage_kv [simp]: "get_usage sc (s\<lparr>kv := d\<rparr>) = get_usage sc s"
  by (cases sc) (simp_all add: get_usage.simps)

lemma in_place_fields:
  "kv (in_place C key val e sz s) = dict_set key (e\<lparr>e_size := sz, e_value := val\<rparr>) (kv s)"
  "total_bytes (in_place C key val e sz s) = total_bytes s + (sz - e_size e)"
  "seq_counter (in_place C key val e sz s) = seq_counter s"
  "get_usage sc (in_place C key val e sz s) =
      (if in_scope C sc key
       then map_option (\<lambda>u. u\<lparr>u_bytes := u_bytes u + (sz - e_size e)\<rparr>) (get_usage sc s)
       else get_usage sc s)"
  "buckets (in_place C key val e sz s) = buckets s"
  "bucket_index (in_place C key val e sz s) = bucket_index s"
  "next_sweep_at (in_place C key val e sz s) = next_sweep_at s"
  by (simp_all add: in_place_def resize_fields Let_def)

lemma in_place_inv [keep_invs]:
  assumes inv: "backend_inv C s" and key: "dict_get (kv s) key = Some e"
    and sz: "sz = int (length key) + int (length val) + entry_overhead_bytes"
  shows "backend_inv C (in_place C key val e sz s)"
proof -
  let ?s = "in_place C key val e sz s" and ?e = "e\<lparr>e_size := sz, e_value := val\<rparr>"
  note ok = backend_invD(1) [OF inv] and flds = in_place_fields
  have get: "dict_get (kv ?s) k = (if k = key then Some ?e else dict_get (kv s) k)" for k
    by (simp add: flds dict_get_set)
  have item: "item_ok C ?s sc it" if "item_ok C s sc it" for sc it
    using that key by (auto simp: item_ok_def get flds(3))
  have idx: "index_ok C ?s sc u'"
    if "index_ok C s sc u" "u_index u' = u_index u" "u_draining u' = u_draining u" for sc u u'
  proof -
    have "entry_item k f \<in> usage_items u" if "dict_get (kv ?s) k = Some f" "in_scope C sc k" for k f
    proof (cases "k = key")
      case True
      with that have "f = ?e" by (simp add: get)
      then have "entry_item k f = entry_item k e" by (simp add: entry_item_def)
      with True key that(2) \<open>index_ok C s sc u\<close> show ?thesis by (auto simp: index_ok_def)
    next
      case False
      with that \<open>index_ok C s sc u\<close> show ?thesis by (auto simp: index_ok_def get)
    qed
    with that item show ?thesis by (auto simp: index_ok_def)
  qed
  have "scope_ok C ?s sc" for sc
  proof (cases "get_usage sc s")
    case None
    with backend_invD(4) [OF inv, of sc] have "\<forall>k f. dict_get (kv s) k = Some f \<longrightarrow> \<not> in_scope C sc k"
      by (simp add: scope_ok_def)
    with key None show ?thesis by (auto simp: scope_ok_def get flds(4))
  next
    case (Some u)
    note acc = scope_ok_SomeD [OF backend_invD(4) [OF inv] Some]
    have kv: "kv ?s = dict_set key ?e (kv s)" by (rule flds(1))
    from acc Some idx [of sc u] show ?thesis
      by (cases "in_scope C sc key")
        (simp_all add: scope_ok_def flds(4) kv scope_sums_set [OF ok] key)
  qed
  moreover have "entry_ok ?s k f" if "dict_get (kv ?s) k = Some f" for k f
    using that [unfolded get] backend_invD(3) [OF inv, of k f] backend_invD(3) [OF inv key]
    by (auto simp: entry_ok_def flds(3) sz split: if_splits)
  ultimately show ?thesis
    using ok backend_invD(2) [OF inv] key
    by (simp add: backend_inv_def flds(1,2) dict_ok_set scope_sums_set [OF ok])
qed

text \<open>What a committed write leaves: the written entry, everything else as before.\<close>

lemma commit_entry_spec:
  assumes inv: "backend_inv C s"
    and sz: "sz = int (length key) + int (length val) + entry_overhead_bytes"
  shows "backend_inv C (commit_entry C key (key_namespace key) val x sz s) \<and>
    (\<exists>e. e_value e = val \<and> e_expires e = x \<and> e_size e = sz \<and>
      (\<forall>k. dict_get (kv (commit_entry C key (key_namespace key) val x sz s)) k =
         (if k = key then Some e else dict_get (kv s) k)))"
proof (cases "dict_get (kv s) key")
  case None
  have "\<forall>k. dict_get (kv (insert_entry C key (key_namespace key) val x sz s)) k =
      (if k = key then Some (new_entry s val x sz) else dict_get (kv s) k)"
    by (simp add: insert_entry_fields dict_get_set)
  with None insert_entry_inv [OF inv None sz, of x] show ?thesis
    by (auto simp: commit_entry_def new_entry_def)
next
  case (Some e)
  show ?thesis
  proof (cases "e_expires e = x")
    case True
    have c: "commit_entry C key (key_namespace key) val x sz s = in_place C key val e sz s"
      using Some True by (simp add: commit_entry_def in_place_def)
    show ?thesis
      unfolding c using in_place_inv [OF inv Some sz] True
      by (auto simp: in_place_fields dict_get_set intro!: exI [of _ "e\<lparr>e_size := sz, e_value := val\<rparr>"])
  next
    case False
    let ?t = "delete_entry C key s"
    have c: "commit_entry C key (key_namespace key) val x sz s
        = insert_entry C key (key_namespace key) val x sz ?t"
      using Some False by (simp add: commit_entry_def)
    have "dict_get (kv ?t) key = None" by (simp add: delete_entry_fields [OF Some] dict_get_del)
    from insert_entry_inv [OF delete_entry_inv [OF inv] this sz] show ?thesis
      unfolding c
      by (auto simp: insert_entry_fields delete_entry_fields [OF Some] dict_get_set dict_get_del
          new_entry_def intro!: exI [of _ "new_entry ?t val x sz"])
  qed
qed

section \<open>Budgets\<close>

fun limit_entries :: "backend_config \<Rightarrow> scope \<Rightarrow> int" where
  "limit_entries C (Namespace_Scope ns) = max_entries (budget_of C ns)"
| "limit_entries C (Owner_Scope ok) =
     (case max_owner_share (budget_of C (fst ok)) of
        None \<Rightarrow> 0
      | Some share \<Rightarrow> share_of (max_entries (budget_of C (fst ok))) share)"

fun limit_bytes :: "backend_config \<Rightarrow> scope \<Rightarrow> int" where
  "limit_bytes C (Namespace_Scope ns) = max_bytes (budget_of C ns)"
| "limit_bytes C (Owner_Scope ok) =
     (case max_owner_share (budget_of C (fst ok)) of
        None \<Rightarrow> 0
      | Some share \<Rightarrow> share_of (max_bytes (budget_of C (fst ok))) share)"

definition within_budgets :: "backend_config \<Rightarrow> backend \<Rightarrow> bool" where
  "within_budgets C s =
     ((\<forall>sc. scope_count C sc (kv s) \<le> max 0 (limit_entries C sc)
         \<and> scope_bytes C sc (kv s) \<le> max 0 (limit_bytes C sc))
      \<and> all_bytes (kv s) \<le> max 0 (max_total_bytes C))"

lemma dict_sum_set_sum: "dict_ok d \<Longrightarrow> dict_sum f d = (\<Sum>(k, v)\<in>set d. f k v)"
  unfolding dict_sum_def by (subst sum_list_distinct_conv_sum_set) (auto simp: distinct_map)

lemma dict_set_sub:
  "dict_ok d \<Longrightarrow> dict_ok d' \<Longrightarrow> (\<And>k v. dict_get d' k = Some v \<Longrightarrow> dict_get d k = Some v) \<Longrightarrow> set d' \<subseteq> set d"
  by (metis map_of_SomeD map_of_is_SomeI subrelI)

lemma dict_sum_cong:
  assumes "dict_ok d" "dict_ok d'" "\<And>k. dict_get d' k = dict_get d k"
  shows "dict_sum f d' = dict_sum f d"
proof -
  have "set d' = set d" using dict_set_sub [of d d'] dict_set_sub [of d' d] assms by auto
  with assms show ?thesis by (simp add: dict_sum_set_sum)
qed

lemma dict_sum_mono:
  assumes "dict_ok d" "dict_ok d'" "\<And>k v. dict_get d' k = Some v \<Longrightarrow> dict_get d k = Some v"
    and nonneg: "\<And>k v. dict_get d k = Some v \<Longrightarrow> 0 \<le> f k v"
  shows "dict_sum f d' \<le> dict_sum f d"
proof -
  have "set d' \<subseteq> set d" using dict_set_sub [OF assms(1-3)] by blast
  then have "(\<Sum>(k, v)\<in>set d'. f k v) \<le> (\<Sum>(k, v)\<in>set d. f k v)"
    using nonneg assms(1) by (intro sum_mono2) (auto intro!: nonneg map_of_is_SomeI)
  with assms(1,2) show ?thesis by (simp add: dict_sum_set_sum)
qed

lemma within_budgets_dropped:
  assumes "within_budgets C s" "backend_inv C s" "backend_inv C s'" "dropped now s s'"
  shows "within_budgets C s'"
proof -
  note ok = backend_invD(1) [OF assms(2)] backend_invD(1) [OF assms(3)]
  have pos: "0 \<le> e_size e" if "dict_get (kv s) k = Some e" for k e
    using entry_ok_size [OF backend_invD(3) [OF assms(2) that]] by simp
  note mono = dict_sum_mono [OF ok dropped_sub [OF assms(4)]]
  have "scope_count C sc (kv s') \<le> scope_count C sc (kv s)" for sc
    unfolding scope_count_def by (rule mono) auto
  moreover have "scope_bytes C sc (kv s') \<le> scope_bytes C sc (kv s)" for sc
    unfolding scope_bytes_def using pos by (intro mono) auto
  moreover have "all_bytes (kv s') \<le> all_bytes (kv s)"
    unfolding all_bytes_def using pos by (intro mono) auto
  ultimately show ?thesis using assms(1) unfolding within_budgets_def by (meson order_trans)
qed

lemma owner_key_Some:
  "owner_key C key ns = Some ok \<Longrightarrow> fst ok = ns \<and> (\<exists>share. max_owner_share (budget_of C ns) = Some share)"
  by (auto simp: owner_key_def split: if_splits)

text \<open>What passing \<open>_refusing_scope\<close> means for the sums after the write.\<close>

lemma refusing_scope_None:
  assumes inv: "backend_inv C s"
    and none: "refusing_scope C key (key_namespace key) sz s = None" and sc: "in_scope C sc key"
  shows "scope_count C sc (kv s) + (if dict_get (kv s) key = None then 1 else 0) \<le> limit_entries C sc"
    "scope_bytes C sc (kv s) - (case dict_get (kv s) key of None \<Rightarrow> 0 | Some e \<Rightarrow> e_size e) + sz
       \<le> limit_bytes C sc"
    "all_bytes (kv s) - (case dict_get (kv s) key of None \<Rightarrow> 0 | Some e \<Rightarrow> e_size e) + sz
       \<le> max_total_bytes C"
proof -
  have fit: "fits (get_usage sc s) (dict_get (kv s) key) sz m b \<longleftrightarrow>
      scope_count C sc (kv s) + (if dict_get (kv s) key = None then 1 else 0) \<le> m \<and>
      scope_bytes C sc (kv s) - (case dict_get (kv s) key of None \<Rightarrow> 0 | Some e \<Rightarrow> e_size e) + sz \<le> b" for m b
    using default_usage_facts(1,2) [OF backend_invD(4) [OF inv, of sc]]
    by (cases "get_usage sc s") (auto simp: fits_def default_usage_def new_usage_def Let_def)
  have "fits (get_usage sc s) (dict_get (kv s) key) sz (limit_entries C sc) (limit_bytes C sc)"
  proof (cases sc)
    case (Namespace_Scope ns)
    with none sc show ?thesis
      by (simp add: refusing_scope_def get_usage.simps in_scope.simps Let_def split: if_splits)
  next
    case (Owner_Scope ok)
    with sc have ok: "owner_key C key (key_namespace key) = Some ok" by (simp add: in_scope.simps)
    from owner_key_Some [OF this] obtain share where
      "fst ok = key_namespace key" "max_owner_share (budget_of C (key_namespace key)) = Some share" by auto
    with none ok Owner_Scope show ?thesis
      by (simp add: refusing_scope_def get_usage.simps Let_def split: if_splits)
  qed
  with fit show "scope_count C sc (kv s) + (if dict_get (kv s) key = None then 1 else 0) \<le> limit_entries C sc"
    "scope_bytes C sc (kv s) - (case dict_get (kv s) key of None \<Rightarrow> 0 | Some e \<Rightarrow> e_size e) + sz
       \<le> limit_bytes C sc" by blast+
  show "all_bytes (kv s) - (case dict_get (kv s) key of None \<Rightarrow> 0 | Some e \<Rightarrow> e_size e) + sz
       \<le> max_total_bytes C"
    using none backend_invD(2) [OF inv]
    by (auto simp: refusing_scope_def Let_def split: if_splits option.splits)
qed

lemma commit_entry_within:
  assumes inv: "backend_inv C s" and w: "within_budgets C s"
    and sz: "sz = int (length key) + int (length val) + entry_overhead_bytes"
    and none: "refusing_scope C key (key_namespace key) sz s = None"
  shows "within_budgets C (commit_entry C key (key_namespace key) val x sz s)"
proof -
  let ?s = "commit_entry C key (key_namespace key) val x sz s"
  obtain e where e: "e_size e = sz"
    "\<And>k. dict_get (kv ?s) k = (if k = key then Some e else dict_get (kv s) k)"
    using commit_entry_spec [OF inv sz, of x] by blast
  note ok = backend_invD(1) [OF inv]
  have inv': "backend_inv C ?s" using commit_entry_spec [OF inv sz, of x] by blast
  have same: "dict_sum f (kv ?s) = dict_sum f (dict_set key e (kv s))" for f :: "string \<Rightarrow> entry \<Rightarrow> int"
    by (rule dict_sum_cong [OF dict_ok_set [OF ok] backend_invD(1) [OF inv']])
      (simp add: e(2) dict_get_set)
  have sums: "scope_count C sc (kv ?s) = scope_count C sc (dict_set key e (kv s))"
    "scope_bytes C sc (kv ?s) = scope_bytes C sc (dict_set key e (kv s))"
    "all_bytes (kv ?s) = all_bytes (dict_set key e (kv s))" for sc
    by (simp_all add: scope_count_def scope_bytes_def all_bytes_def same)
  have "scope_count C sc (kv ?s) \<le> max 0 (limit_entries C sc)
      \<and> scope_bytes C sc (kv ?s) \<le> max 0 (limit_bytes C sc)" for sc
    using w refusing_scope_None(1,2) [OF inv none, of sc] e(1)
    by (cases "in_scope C sc key"; cases "dict_get (kv s) key")
      (auto simp: within_budgets_def sums scope_sums_set [OF ok] le_max_iff_disj)
  moreover have "all_bytes (kv ?s) \<le> max 0 (max_total_bytes C)"
    using refusing_scope_None(3) [OF inv none, of "Namespace_Scope (key_namespace key)"] e(1)
    by (simp add: sums scope_sums_set [OF ok] in_scope.simps)
  ultimately show ?thesis by (simp add: within_budgets_def)
qed

end
