(* ===== verification/State_Properties.thy ===== *)
theory State_Properties
  imports State_Invariant
begin

text \<open>
  What clients of the shared-state backend rely on, over arbitrary runs of its operations:
  the budgets are never exceeded and the accounts never drift, a live entry is never evicted
  (so a claim is exclusive until its deadline), a refusal is genuine, a counter window counts
  every increment, and a token bucket grants no more than its burst and rate allow.
\<close>

section \<open>The write path\<close>

lemma refuse_facts:
  assumes "refuse C ns r earliest now s = (err, s')"
  shows "kv s' = kv s" "total_bytes s' = total_bytes s" "seq_counter s' = seq_counter s"
    "ns_usage s' = ns_usage s" "owner_usage s' = owner_usage s" "buckets s' = buckets s"
    "bucket_index s' = bucket_index s" "next_sweep_at s' = next_sweep_at s"
    "err = Capacity_Error ns
       (clamp_retry_after (case earliest of Some d \<Rightarrow> d - now | None \<Rightarrow> of_int max_retry_after_s))
       (case r of Refuse_Owner ok \<Rightarrow> Some (snd ok) | _ \<Rightarrow> None) (r = Refuse_Total)"
  using assms by (auto simp: refuse_def Let_def split: if_splits)

definition refusal_covers :: "backend_config \<Rightarrow> refusal \<Rightarrow> string \<Rightarrow> bool" where
  "refusal_covers C r =
     (case r of Refuse_Namespace ns \<Rightarrow> in_scope C (Namespace_Scope ns)
              | Refuse_Owner ok \<Rightarrow> in_scope C (Owner_Scope ok)
              | Refuse_Total \<Rightarrow> (\<lambda>k. True))"

lemma reclaim_spec:
  assumes "backend_inv C s" "reclaim C r now s = (d, s')"
  shows "backend_inv C s' \<and> dropped now s s' \<and> same_rest s s' \<and>
    all_live now (refusal_covers C r) s' \<and> earliest_of (refusal_covers C r) s' d"
proof (cases r)
  case (Refuse_Namespace ns)
  with assms earliest_live_spec [of C s now "Namespace_Scope ns"] show ?thesis
    by (simp add: reclaim_def refusal_covers_def)
next
  case (Refuse_Owner ok)
  with assms earliest_live_spec [of C s now "Owner_Scope ok"] show ?thesis
    by (simp add: reclaim_def refusal_covers_def)
next
  case Refuse_Total
  with assms earliest_live_anywhere_spec [of C s now] show ?thesis
    by (simp add: reclaim_def refusal_covers_def)
qed

abbreviation store_size :: "string \<Rightarrow> string \<Rightarrow> int" where
  "store_size key val \<equiv> int (length key) + int (length val) + entry_overhead_bytes"

text \<open>The two outcomes of a write: committed over a cleaned store, or refused.\<close>

lemma store_cases:
  assumes "backend_inv C s" "store C key val x now s = (r, s')"
  obtains (written) s1 where "r = Inr ()" "backend_inv C s1" "dropped now s s1"
      "refusing_scope C key (key_namespace key) (store_size key val) s1 = None"
      "s' = commit_entry C key (key_namespace key) val x (store_size key val) s1"
    | (refused) s1 r1 s2 r2 d s3 where
      "backend_inv C s1" "dropped now s s1"
      "refusing_scope C key (key_namespace key) (store_size key val) s1 = Some r1"
      "s2 = snd (reclaim C r1 now s1)"
      "refusing_scope C key (key_namespace key) (store_size key val) s2 = Some r2"
      "reclaim C r2 now s2 = (d, s3)"
      "refuse C (key_namespace key) r2 d now s3 = (case r of Inl e \<Rightarrow> e | Inr _ \<Rightarrow> Value_Error, s')"
      "\<exists>e. r = Inl e"
proof -
  define s1 where "s1 = maybe_sweep C now s"
  have s1: "backend_inv C s1" "dropped now s s1"
    using maybe_sweep_spec [OF assms(1)] by (simp_all add: s1_def)
  let ?sz = "store_size key val" and ?ns = "key_namespace key"
  note run = assms(2) [unfolded store_def, folded s1_def, unfolded Let_def]
  show thesis
  proof (cases "refusing_scope C key ?ns ?sz s1")
    case None
    with run s1 show thesis by (intro written [of s1]) (simp_all add: add.assoc)
  next
    case (Some r1)
    obtain d1 s2 where r1: "reclaim C r1 now s1 = (d1, s2)" by (cases "reclaim C r1 now s1")
    then have s2: "backend_inv C s2" "dropped now s s2"
      using reclaim_spec [OF s1(1) r1] s1(2) dropped_trans by blast+
    show thesis
    proof (cases "refusing_scope C key ?ns ?sz s2")
      case None
      with run Some r1 s2 show thesis by (intro written [of s2]) simp_all
    next
      case again: (Some r2)
      obtain d s3 where r2: "reclaim C r2 now s2 = (d, s3)" by (cases "reclaim C r2 now s2")
      obtain err s4 where e: "refuse C ?ns r2 d now s3 = (err, s4)"
        by (cases "refuse C ?ns r2 d now s3")
      from run Some r1 again r2 e have "r = Inl err" "s' = s4" by simp_all
      with s1 Some r1 again r2 e show thesis by (intro refused [of s1 r1 s2 r2 d s3]) simp_all
    qed
  qed
qed

lemma store_inv [keep_invs]:
  assumes "backend_inv C s" "store C key val x now s = (r, s')"
  shows "backend_inv C s'"
  using assms(1,2)
proof (cases rule: store_cases)
  case (written s1)
  then show ?thesis using commit_entry_spec by blast
next
  case (refused s1 r1 s2 r2 d s3)
  have "backend_inv C s2" using reclaim_spec [of C s1 r1 now] refused(1,4) by (metis prod.collapse)
  then have "backend_inv C s3" using reclaim_spec refused(6) by blast
  then show ?thesis using backend_inv_frame refuse_facts(1-5) [OF refused(7)] by blast
qed

lemma store_within [keep_invs]:
  assumes "backend_inv C s" "within_budgets C s" "store C key val x now s = (r, s')"
  shows "within_budgets C s'"
  using assms(1,3)
proof (cases rule: store_cases)
  case (written s1)
  then show ?thesis
    using commit_entry_within within_budgets_dropped [OF assms(2,1)] by blast
next
  case (refused s1 r1 s2 r2 d s3)
  have s2: "backend_inv C s2" "dropped now s1 s2"
    using reclaim_spec [of C s1 r1 now] refused(1,4) by (metis prod.collapse)+
  then have s3: "backend_inv C s3" "dropped now s2 s3" using reclaim_spec refused(6) by blast+
  have "within_budgets C s3"
    using within_budgets_dropped [OF assms(2,1) s3(1)] refused(2) s2 s3 dropped_trans by blast
  then show ?thesis using refuse_facts(1) [OF refused(7)] by (simp add: within_budgets_def)
qed

text \<open>A write leaves every other live entry alone, and its own on success.\<close>

lemma store_frame:
  assumes "backend_inv C s" "store C key val x now s = (r, s')"
    and "dict_get (kv s) k = Some e" "now < e_expires e" "k \<noteq> key \<or> (\<exists>err. r = Inl err)"
  shows "dict_get (kv s') k = Some e"
  using assms(1,2)
proof (cases rule: store_cases)
  case (written s1)
  have "dict_get (kv s1) k = Some e" using dropped_live [OF written(3) assms(3,4)] .
  moreover have "k \<noteq> key" using assms(5) written(1) by simp
  ultimately show ?thesis
    using commit_entry_spec [OF written(2) refl, of key val x] written(5) by auto
next
  case (refused s1 r1 s2 r2 d s3)
  have s2: "backend_inv C s2" "dropped now s1 s2"
    using reclaim_spec [of C s1 r1 now] refused(1,4) by (metis prod.collapse)+
  then have "dropped now s2 s3" using reclaim_spec refused(6) by blast
  with refused(2) s2 have "dropped now s s3" using dropped_trans by blast
  then have "dict_get (kv s3) k = Some e" using dropped_live assms(3,4) by blast
  then show ?thesis using refuse_facts(1) [OF refused(7)] by simp
qed

lemma store_written:
  assumes "backend_inv C s" "store C key val x now s = (Inr (), s')"
  shows "\<exists>e. dict_get (kv s') key = Some e \<and> e_value e = val \<and> e_expires e = x"
  using assms
proof (cases rule: store_cases)
  case (written s1)
  then show ?thesis using commit_entry_spec [OF written(2) refl, of key val x] by auto
qed simp

lemma live_entry_frame:
  assumes "backend_inv C s" "live_entry C now key s = (r, s')"
    and "dict_get (kv s) k = Some e" "now < e_expires e"
  shows "dict_get (kv s') k = Some e"
  using live_entry_spec [OF assms(1,2)] dropped_live assms(3,4) by blast

section \<open>Runs of operations\<close>

datatype state_op =
    Op_Get real string
  | Op_Set real string string real
  | Op_Set_If_Absent real real string string real
  | Op_Incr real real string real int
  | Op_Incr_And_Read "(string \<times> real \<times> real) list" "(string \<times> real) list" real
  | Op_Token_Bucket real string real int int

fun step :: "backend_config \<Rightarrow> state_op \<Rightarrow> backend \<Rightarrow> backend" where
  "step C (Op_Get now key) s = snd (kv_get C now key s)"
| "step C (Op_Set now key val ttl) s = snd (kv_set C now key val ttl s)"
| "step C (Op_Set_If_Absent now now' key val ttl) s = snd (set_if_absent C now now' key val ttl s)"
| "step C (Op_Incr now now' key ttl amount) s = snd (incr_with_ttl C now now' key ttl amount s)"
| "step C (Op_Incr_And_Read ks rs ttl) s = snd (incr_and_read C ks rs ttl s)"
| "step C (Op_Token_Bucket now key rate burst cost) s = snd (token_bucket C now key rate burst cost s)"

definition run :: "backend_config \<Rightarrow> state_op list \<Rightarrow> backend \<Rightarrow> backend" where
  "run C ops s = fold (step C) ops s"

lemma run_simps [simp]: "run C [] s = s" "run C (op # ops) s = run C ops (step C op s)"
  by (simp_all add: run_def)

text \<open>The clock readings of an operation, and the keys it may overwrite.\<close>

fun op_times :: "state_op \<Rightarrow> real list" where
  "op_times (Op_Get now key) = [now]"
| "op_times (Op_Set now key val ttl) = [now]"
| "op_times (Op_Set_If_Absent now now' key val ttl) = [now, now']"
| "op_times (Op_Incr now now' key ttl amount) = [now, now']"
| "op_times (Op_Incr_And_Read ks rs ttl) = concat (map (\<lambda>(k, t, t'). [t, t']) ks) @ map snd rs"
| "op_times (Op_Token_Bucket now key rate burst cost) = [now]"

fun op_overwrites :: "state_op \<Rightarrow> string list" where
  "op_overwrites (Op_Set now key val ttl) = [key]"
| "op_overwrites (Op_Incr now now' key ttl amount) = [key]"
| "op_overwrites (Op_Incr_And_Read ks rs ttl) = map fst ks"
| "op_overwrites _ = []"

inductive reachable :: "backend_config \<Rightarrow> backend \<Rightarrow> bool" for C where
  start: "init_backend C now = Inr s \<Longrightarrow> reachable C s"
| operate: "reachable C s \<Longrightarrow> reachable C (step C op s)"

text \<open>What every operation keeps: the invariant, the budgets, live entries it does not write.\<close>

definition keeps :: "backend_config \<Rightarrow> (real list) \<Rightarrow> string list \<Rightarrow> backend \<Rightarrow> backend \<Rightarrow> bool" where
  "keeps C ts keys s s' =
     (backend_inv C s' \<and> (within_budgets C s \<longrightarrow> within_budgets C s') \<and>
      (\<forall>k e. k \<notin> set keys \<longrightarrow> dict_get (kv s) k = Some e \<longrightarrow> (\<forall>t\<in>set ts. t < e_expires e) \<longrightarrow>
         dict_get (kv s') k = Some e))"

lemma keepsI:
  assumes "backend_inv C s'" "within_budgets C s \<Longrightarrow> within_budgets C s'"
    and "\<And>k e. k \<notin> set keys \<Longrightarrow> dict_get (kv s) k = Some e \<Longrightarrow> \<forall>t\<in>set ts. t < e_expires e \<Longrightarrow>
      dict_get (kv s') k = Some e"
  shows "keeps C ts keys s s'"
  using assms by (simp add: keeps_def)

lemma keeps_trans:
  assumes "keeps C t1 k1 s s'" "keeps C t2 k2 s' s''"
  shows "keeps C (t1 @ t2) (k1 @ k2) s s''"
  using assms unfolding keeps_def by (metis UnI1 UnI2 set_append)

lemma keeps_mono:
  "keeps C t1 k1 s s' \<Longrightarrow> set t1 \<subseteq> set t2 \<Longrightarrow> set k1 \<subseteq> set k2 \<Longrightarrow> keeps C t2 k2 s s'"
  unfolding keeps_def by blast

lemma live_entry_keeps:
  assumes "backend_inv C s" "live_entry C now key s = (r, s')"
  shows "keeps C [now] [] s s'"
  using live_entry_spec [OF assms] live_entry_frame [OF assms]
    within_budgets_dropped [of C s s' now] assms(1) by (intro keepsI) auto

lemma store_keeps:
  assumes "backend_inv C s" "store C key val x now s = (r, s')"
  shows "keeps C [now] [key] s s'"
  using store_inv [OF assms] store_within [OF assms(1) _ assms(2)] store_frame [OF assms]
  by (intro keepsI) auto

lemma kv_get_keeps: "backend_inv C s \<Longrightarrow> keeps C [now] [] s (snd (kv_get C now key s))"
  using live_entry_keeps [of C s now key] by (simp add: kv_get_def split: prod.split)

lemma set_if_absent_keeps:
  assumes "backend_inv C s"
  shows "keeps C [now, now'] [] s (snd (set_if_absent C now now' key val ttl s))"
proof -
  obtain r s1 where l: "live_entry C now key s = (r, s1)" by (cases "live_entry C now key s")
  note L = live_entry_spec [OF assms l]
  show ?thesis
  proof (cases r)
    case (Some e)
    with l L have "snd (set_if_absent C now now' key val ttl s) = s"
      by (auto simp: set_if_absent_def)
    with assms show ?thesis by (simp add: keeps_def)
  next
    case None
    obtain q s2 where st: "store C key val (now' + ttl) now' s1 = (q, s2)"
      by (cases "store C key val (now' + ttl) now' s1")
    have inv1: "backend_inv C s1" using L by blast
    have "keeps C ([now] @ [now']) ([] @ [key]) s s2"
      using keeps_trans live_entry_keeps [OF assms l] store_keeps [OF inv1 st] by blast
    moreover have "dict_get (kv s2) key = Some e"
      if "dict_get (kv s) key = Some e" "now < e_expires e" for e
      using L that None by auto
    ultimately have "keeps C [now, now'] [] s s2"
      unfolding keeps_def by (intro conjI allI impI; metis append.simps list.set_intros set_ConsD empty_iff list.set(1))
    with l None st show ?thesis by (simp add: set_if_absent_def)
  qed
qed

lemma incr_keeps:
  assumes "backend_inv C s"
  shows "keeps C [now, now'] [key] s (snd (incr C now now' key ttl amount s))"
proof -
  obtain r s1 where l: "live_entry C now' key s = (r, s1)" by (cases "live_entry C now' key s")
  have inv1: "backend_inv C s1" and k1: "keeps C [now'] [] s s1"
    using live_entry_spec [OF assms l] live_entry_keeps [OF assms l] by blast+
  show ?thesis
  proof (cases "case r of None \<Rightarrow> Some 0 | Some e \<Rightarrow> py_int (e_value e)")
    case None
    with l k1 show ?thesis by (auto simp: incr_def intro: keeps_mono)
  next
    case (Some c)
    obtain q s2 where st: "store C key (str_of_int (c + amount))
        (case r of Some e \<Rightarrow> e_expires e | None \<Rightarrow> now + ttl) now s1 = (q, s2)" by fastforce
    have "keeps C ([now'] @ [now]) ([] @ [key]) s s2"
      using keeps_trans [OF k1 store_keeps [OF inv1 st]] .
    with l Some st show ?thesis by (auto simp: incr_def Let_def intro: keeps_mono)
  qed
qed

lemma incr_all_keeps:
  "backend_inv C s \<Longrightarrow>
     keeps C (concat (map (\<lambda>(k, t, t'). [t, t']) ks)) (map fst ks) s (snd (incr_all C ks ttl s))"
proof (induction ks arbitrary: s)
  case Nil
  then show ?case by (simp add: keeps_def)
next
  case (Cons p ks)
  obtain key now now' where p: "p = (key, now, now')" by (cases p)
  obtain r s1 where one: "incr C now now' key ttl 1 s = (r, s1)" by (cases "incr C now now' key ttl 1 s")
  have k1: "keeps C [now, now'] [key] s s1" using incr_keeps [OF Cons.prems, of now now' key ttl 1] one by simp
  then have inv1: "backend_inv C s1" by (simp add: keeps_def)
  show ?case
  proof (cases r)
    case (Inl e)
    with k1 one p show ?thesis by (auto intro: keeps_mono)
  next
    case (Inr n)
    have "snd (incr_all C (p # ks) ttl s) = snd (incr_all C ks ttl s1)"
      by (simp add: p one Inr split: prod.split)
    with keeps_trans [OF k1 Cons.IH [OF inv1]] p show ?thesis by simp
  qed
qed

lemma read_all_keeps:
  "backend_inv C s \<Longrightarrow> keeps C (map snd rs) [] s (snd (read_all C rs s))"
proof (induction rs arbitrary: s)
  case Nil
  then show ?case by (simp add: keeps_def)
next
  case (Cons p rs)
  obtain key now where p: "p = (key, now)" by (cases p)
  have k1: "keeps C [now] [] s (snd (kv_get C now key s))" by (rule kv_get_keeps [OF Cons.prems])
  then have inv1: "backend_inv C (snd (kv_get C now key s))" by (simp add: keeps_def)
  have "snd (read_all C (p # rs) s) = snd (read_all C rs (snd (kv_get C now key s)))"
    by (simp add: p split_beta Let_def)
  with keeps_trans [OF k1 Cons.IH [OF inv1]] show ?case by (simp add: p)
qed

lemma reindex_bucket_kv:
  "kv (reindex_bucket key b full s) = kv s" "total_bytes (reindex_bucket key b full s) = total_bytes s"
  "seq_counter (reindex_bucket key b full s) = seq_counter s"
  "ns_usage (reindex_bucket key b full s) = ns_usage s"
  "owner_usage (reindex_bucket key b full s) = owner_usage s"
  by (simp_all add: reindex_bucket_def Let_def)

lemma token_bucket_keeps:
  assumes "backend_inv C s"
  shows "keeps C [now] [] s (snd (token_bucket C now key rate burst cost s))"
proof -
  let ?s = "snd (token_bucket C now key rate burst cost s)" and ?t = "maybe_sweep C now s"
  have eq: "kv ?s = kv ?t" "total_bytes ?s = total_bytes ?t" "seq_counter ?s = seq_counter ?t"
    "ns_usage ?s = ns_usage ?t" "owner_usage ?s = owner_usage ?t"
    by (simp_all add: token_bucket_def Let_def reindex_bucket_kv)
  note m = maybe_sweep_spec [OF assms, of now]
  have inv: "backend_inv C ?s" using m(1) backend_inv_frame [OF eq] by simp
  moreover have "dropped now s ?s" using m(2) eq(1) by (simp add: dropped_def)
  ultimately show ?thesis
    using within_budgets_dropped [OF _ assms] dropped_live by (intro keepsI) auto
qed

lemma step_keeps: "backend_inv C s \<Longrightarrow> keeps C (op_times op) (op_overwrites op) s (step C op s)"
proof (cases op)
  case (Op_Incr_And_Read ks rs ttl)
  assume inv: "backend_inv C s"
  obtain r s1 where one: "incr_all C ks ttl s = (r, s1)" by (cases "incr_all C ks ttl s")
  have k1: "keeps C (concat (map (\<lambda>(k, t, t'). [t, t']) ks)) (map fst ks) s s1"
    using incr_all_keeps [OF inv, of ks ttl] one by simp
  then have inv1: "backend_inv C s1" by (simp add: keeps_def)
  show ?thesis
  proof (cases r)
    case (Inl e)
    with k1 one Op_Incr_And_Read show ?thesis by (auto simp: incr_and_read_def intro: keeps_mono)
  next
    case (Inr ns)
    have "snd (incr_and_read C ks rs ttl s) = snd (read_all C rs s1)"
      by (simp add: incr_and_read_def one Inr split: prod.split)
    with keeps_trans [OF k1 read_all_keeps [OF inv1]] Op_Incr_And_Read show ?thesis by simp
  qed
next
  case (Op_Set now key val ttl)
  assume inv: "backend_inv C s"
  obtain r s1 where "store C key val (now + ttl) now s = (r, s1)"
    by (cases "store C key val (now + ttl) now s")
  with store_keeps [OF inv this] Op_Set show ?thesis by (simp add: kv_set_def)
next
  case (Op_Incr now now' key ttl amount)
  assume inv: "backend_inv C s"
  have "keeps C [now, now'] [key] s s" using inv by (simp add: keeps_def)
  with incr_keeps [OF inv] Op_Incr show ?thesis by (simp add: incr_with_ttl_def)
qed (simp_all add: kv_get_keeps set_if_absent_keeps token_bucket_keeps)

section \<open>Budgets and accounts\<close>

lemma init_backend_inv:
  assumes "init_backend C now = Inr s"
  shows "backend_inv C s" "within_budgets C s" "buckets s = []"
proof -
  have s: "kv s = []" "ns_usage s = []" "owner_usage s = []" "total_bytes s = 0" "buckets s = []"
    using assms by (auto simp: init_backend_def split: if_splits)
  have "get_usage sc s = None" for sc using s by (cases sc) (simp_all add: get_usage.simps)
  with s show "backend_inv C s"
    by (simp add: backend_inv_def scope_ok_def all_bytes_def dict_sum_def)
  show "within_budgets C s"
    using s by (simp add: within_budgets_def scope_count_def scope_bytes_def all_bytes_def dict_sum_def)
  show "buckets s = []" by (rule s)
qed

lemma reachable_inv: "reachable C s \<Longrightarrow> backend_inv C s \<and> within_budgets C s"
proof (induction rule: reachable.induct)
  case (start now s)
  then show ?case using init_backend_inv by blast
next
  case (operate s op)
  with step_keeps [of C s op] show ?case by (auto simp: keeps_def)
qed

text \<open>
  C14: the budgets hold at every moment of every run, whatever the keys, sizes, deadlines and
  clock readings: the charged bytes are those of the stored entries and stay under the
  backend-wide cap, and every namespace and every owner's share stays under its entry and
  byte budget (a negative budget counts as zero).
\<close>

theorem budgets_never_exceeded:
  assumes "reachable C s"
  shows "total_bytes s = all_bytes (kv s) \<and> all_bytes (kv s) \<le> max 0 (max_total_bytes C) \<and>
    (\<forall>ns. scope_count C (Namespace_Scope ns) (kv s) \<le> max 0 (max_entries (budget_of C ns)) \<and>
       scope_bytes C (Namespace_Scope ns) (kv s) \<le> max 0 (max_bytes (budget_of C ns))) \<and>
    (\<forall>ok. scope_count C (Owner_Scope ok) (kv s) \<le> max 0 (limit_entries C (Owner_Scope ok)) \<and>
       scope_bytes C (Owner_Scope ok) (kv s) \<le> max 0 (limit_bytes C (Owner_Scope ok)))"
  using reachable_inv [OF assms] backend_invD(2)
  unfolding within_budgets_def by (metis limit_bytes.simps(1) limit_entries.simps(1))

definition demo_budget :: namespace_budget where
  "demo_budget = \<lparr>max_entries = 2, max_bytes = 2000, max_owner_share = Some (1 / 2)\<rparr>"

definition demo_config :: backend_config where
  "demo_config = \<lparr>default_budget = demo_budget, namespace_budgets = [], max_total_bytes = 1700,
     sweep_interval = 30\<rparr>"

definition demo_state :: backend where
  "demo_state = \<lparr>total_bytes = 0, kv = [], ns_usage = [], owner_usage = [], seq_counter = 0,
     buckets = [], bucket_index = [], next_sweep_at = 30, refusal_logged = []\<rparr>"

lemma demo_init: "init_backend demo_config 0 = Inr demo_state"
  by (simp add: init_backend_def demo_config_def demo_budget_def demo_state_def budget_valid_def
      dict_update_all_def)

theorem budgets_never_exceeded_witness:
  "\<exists>s. reachable demo_config s \<and> total_bytes s = 759 \<and> all_bytes (kv s) \<le> 1700"
proof -
  let ?s = "step demo_config (Op_Set 1 ''idem:a:k'' ''v'' 10) demo_state"
  have r: "reachable demo_config ?s" by (intro reachable.intros, rule demo_init)
  have t: "total_bytes ?s = 759" by code_simp
  have "max 0 (max_total_bytes demo_config) = 1700" by (simp add: demo_config_def)
  with budgets_never_exceeded [OF r] t r show ?thesis by auto
qed

section \<open>Claims\<close>

lemma run_keeps:
  "backend_inv C s \<Longrightarrow> keeps C (concat (map op_times ops)) (concat (map op_overwrites ops)) s (run C ops s)"
proof (induction ops arbitrary: s)
  case Nil
  then show ?case by (simp add: keeps_def)
next
  case (Cons op ops)
  have k: "keeps C (op_times op) (op_overwrites op) s (step C op s)" by (rule step_keeps [OF Cons.prems])
  then have "backend_inv C (step C op s)" by (simp add: keeps_def)
  from keeps_trans [OF k Cons.IH [OF this]] show ?case by simp
qed

lemma claim_taken:
  assumes "backend_inv C s" "set_if_absent C now now' key val ttl s = (Inr True, s')"
  shows "\<exists>e. dict_get (kv s') key = Some e \<and> e_value e = val \<and> e_expires e = now' + ttl"
proof -
  obtain r s1 where l: "live_entry C now key s = (r, s1)" by (cases "live_entry C now key s")
  with assms(2) have "r = None" by (auto simp: set_if_absent_def split: option.splits)
  obtain q s2 where st: "store C key val (now' + ttl) now' s1 = (q, s2)"
    by (cases "store C key val (now' + ttl) now' s1")
  have "q = Inr ()" "s' = s2"
    using assms(2) l \<open>r = None\<close> st by (auto simp: set_if_absent_def rbind_def split: sum.splits)
  with store_written [of C s1] st live_entry_spec [OF assms(1) l] show ?thesis by blast
qed

lemma claim_held:
  assumes "dict_get (kv s) key = Some e" "now < e_expires e"
  shows "set_if_absent C now now' key val ttl s = (Inr False, s)"
    "kv_get C now key s = (Some (e_value e), s)"
  using assms by (simp_all add: set_if_absent_def kv_get_def live_entry_def)

text \<open>
  C21: a successful claim is exclusive until its deadline. However many other operations run
  in between, sweeps, refusals and budget reclaims included, as long as none of them
  overwrites the key and all their clock readings lie before the deadline, every later
  \<open>set_if_absent\<close> on the key before the deadline answers no, and \<open>get\<close> still returns the
  claimed value.
\<close>

theorem claim_exclusive_until_deadline:
  assumes "reachable C s" and "set_if_absent C now now' key val ttl s = (Inr True, s')"
    and "list_all (\<lambda>op. key \<notin> set (op_overwrites op) \<and> list_all (\<lambda>t. t < now' + ttl) (op_times op)) ops"
    and "later < now' + ttl"
  shows "set_if_absent C later later' key val' ttl' (run C ops s') = (Inr False, run C ops s') \<and>
    kv_get C later key (run C ops s') = (Some val, run C ops s')"
proof -
  have inv: "backend_inv C s" using reachable_inv [OF assms(1)] by blast
  from claim_taken [OF inv assms(2)] obtain e where
    e: "dict_get (kv s') key = Some e" "e_value e = val" "e_expires e = now' + ttl" by blast
  have "backend_inv C s'"
    using set_if_absent_keeps [OF inv, of now now' key val ttl] assms(2) by (simp add: keeps_def)
  from run_keeps [OF this, of ops] have "dict_get (kv (run C ops s')) key = Some e"
    using assms(3) e by (auto simp: keeps_def list_all_iff)
  with claim_held [OF this] e(2,3) assms(4) show ?thesis by simp
qed

theorem claim_exclusive_until_deadline_witness:
  "\<exists>s'. set_if_absent demo_config 1 1 ''idem:a:k'' ''v'' 10 demo_state = (Inr True, s') \<and>
     set_if_absent demo_config 8 8 ''idem:a:k'' ''w'' 10
       (run demo_config [Op_Set 7 ''idem:b:k'' ''x'' 5, Op_Set 7 ''idem:c:k'' ''x'' 5] s')
     = (Inr False, run demo_config [Op_Set 7 ''idem:b:k'' ''x'' 5, Op_Set 7 ''idem:c:k'' ''x'' 5] s')"
proof -
  have r: "reachable demo_config demo_state" by (rule reachable.start [OF demo_init])
  have "fst (set_if_absent demo_config 1 1 ''idem:a:k'' ''v'' 10 demo_state) = Inr True" by code_simp
  then obtain s' where s': "set_if_absent demo_config 1 1 ''idem:a:k'' ''v'' 10 demo_state = (Inr True, s')"
    by (metis prod.collapse)
  from claim_exclusive_until_deadline [OF r s', of "[Op_Set 7 ''idem:b:k'' ''x'' 5, Op_Set 7 ''idem:c:k'' ''x'' 5]" 8 8 "''w''" 10] s'
  show ?thesis by auto
qed

section \<open>Refusals\<close>

lemma scope_sums_dropped_live:
  assumes "backend_inv C s" "backend_inv C s'" "dropped now s s'" "all_live now (in_scope C sc) s"
  shows "scope_count C sc (kv s') = scope_count C sc (kv s)"
    "scope_bytes C sc (kv s') = scope_bytes C sc (kv s)"
proof -
  note ok = backend_invD(1) [OF assms(1)] backend_invD(1) [OF assms(2)]
  have "dict_sum (\<lambda>k e. if in_scope C sc k then f e else 0) (kv s') =
      dict_sum (\<lambda>k e. if in_scope C sc k then f e else 0) (kv s)" for f
  proof -
    have "set (kv s') \<subseteq> set (kv s)" using dict_set_sub [OF ok dropped_sub [OF assms(3)]] by blast
    moreover have "\<not> in_scope C sc k" if "(k, e) \<in> set (kv s) - set (kv s')" for k e
    proof
      assume k: "in_scope C sc k"
      have g: "dict_get (kv s) k = Some e" using that ok(1) by (simp add: map_of_is_SomeI)
      then have "now < e_expires e" using assms(4) k by (simp add: all_live_def)
      from dropped_live [OF assms(3) g this] that show False by (auto dest: map_of_SomeD)
    qed
    ultimately show ?thesis
      using ok by (simp add: dict_sum_set_sum) (rule sum.mono_neutral_left, auto split: prod.splits)
  qed
  from this [of "\<lambda>_. 1"] this [of e_size]
  show "scope_count C sc (kv s') = scope_count C sc (kv s)"
    "scope_bytes C sc (kv s') = scope_bytes C sc (kv s)"
    by (simp_all add: scope_count_def scope_bytes_def)
qed

lemma fits_iff:
  assumes "backend_inv C s"
  shows "fits (get_usage sc s) (dict_get (kv s) key) sz m b \<longleftrightarrow>
      scope_count C sc (kv s) + (if dict_get (kv s) key = None then 1 else 0) \<le> m \<and>
      scope_bytes C sc (kv s) - (case dict_get (kv s) key of None \<Rightarrow> 0 | Some e \<Rightarrow> e_size e) + sz \<le> b"
  using default_usage_facts(1,2) [OF backend_invD(4) [OF assms, of sc]]
  by (cases "get_usage sc s") (auto simp: fits_def default_usage_def new_usage_def Let_def)

text \<open>A scope is too full for a write when the write would exceed one of its limits.\<close>

definition scope_full :: "backend_config \<Rightarrow> scope \<Rightarrow> string \<Rightarrow> int \<Rightarrow> backend \<Rightarrow> bool" where
  "scope_full C sc key sz s =
     (limit_entries C sc < scope_count C sc (kv s) + (if dict_get (kv s) key = None then 1 else 0) \<or>
      limit_bytes C sc <
        scope_bytes C sc (kv s) - (case dict_get (kv s) key of None \<Rightarrow> 0 | Some e \<Rightarrow> e_size e) + sz)"

definition total_full :: "backend_config \<Rightarrow> string \<Rightarrow> int \<Rightarrow> backend \<Rightarrow> bool" where
  "total_full C key sz s =
     (max_total_bytes C <
        all_bytes (kv s) - (case dict_get (kv s) key of None \<Rightarrow> 0 | Some e \<Rightarrow> e_size e) + sz)"

definition owner_scope_of :: "backend_config \<Rightarrow> string \<Rightarrow> scope option" where
  "owner_scope_of C key = map_option Owner_Scope (owner_key C key (key_namespace key))"

lemma refusing_scope_eq:
  assumes inv: "backend_inv C s"
  shows "refusing_scope C key (key_namespace key) sz s =
    (if scope_full C (Namespace_Scope (key_namespace key)) key sz s
     then Some (Refuse_Namespace (key_namespace key))
     else case owner_key C key (key_namespace key) of
            Some ok \<Rightarrow>
              if scope_full C (Owner_Scope ok) key sz s then Some (Refuse_Owner ok)
              else if total_full C key sz s then Some Refuse_Total else None
          | None \<Rightarrow> if total_full C key sz s then Some Refuse_Total else None)"
proof -
  let ?ns = "key_namespace key"
  have n: "\<not> fits (dict_get (ns_usage s) ?ns) (dict_get (kv s) key) sz
      (max_entries (budget_of C ?ns)) (max_bytes (budget_of C ?ns))
      \<longleftrightarrow> scope_full C (Namespace_Scope ?ns) key sz s"
    using fits_iff [OF inv, of "Namespace_Scope ?ns" key] by (auto simp: scope_full_def get_usage.simps)
  have o: "\<not> fits (dict_get (owner_usage s) ok) (dict_get (kv s) key) sz
      (limit_entries C (Owner_Scope ok)) (limit_bytes C (Owner_Scope ok))
      \<longleftrightarrow> scope_full C (Owner_Scope ok) key sz s" for ok
    using fits_iff [OF inv, of "Owner_Scope ok" key] by (auto simp: scope_full_def get_usage.simps)
  have t: "max_total_bytes C < total_bytes s
      - (case dict_get (kv s) key of None \<Rightarrow> 0 | Some e \<Rightarrow> e_size e) + sz \<longleftrightarrow> total_full C key sz s"
    by (simp add: total_full_def backend_invD(2) [OF inv])
  show ?thesis
  proof (cases "owner_key C key ?ns")
    case None
    then show ?thesis unfolding refusing_scope_def Let_def n t by simp
  next
    case (Some ok)
    from owner_key_Some [OF this] obtain share where
      sh: "fst ok = ?ns" "max_owner_share (budget_of C ?ns) = Some share" by auto
    then have "limit_entries C (Owner_Scope ok) = share_of (max_entries (budget_of C ?ns)) share"
      "limit_bytes C (Owner_Scope ok) = share_of (max_bytes (budget_of C ?ns)) share" by simp_all
    with o [of ok] Some sh show ?thesis unfolding refusing_scope_def Let_def n t by simp
  qed
qed

lemma all_live_refusal_mono:
  "refusing_scope C key (key_namespace key) sz s = Some r1 \<Longrightarrow> r1 \<noteq> Refuse_Total \<Longrightarrow>
   all_live now (refusal_covers C r1) s' \<Longrightarrow> r2 = Refuse_Owner ok \<Longrightarrow>
   owner_key C key (key_namespace key) = Some ok \<Longrightarrow> all_live now (refusal_covers C r2) s'"
proof -
  assume r1: "refusing_scope C key (key_namespace key) sz s = Some r1" "r1 \<noteq> Refuse_Total"
    and live: "all_live now (refusal_covers C r1) s'" and r2: "r2 = Refuse_Owner ok"
    and ok: "owner_key C key (key_namespace key) = Some ok"
  from r1 ok consider "r1 = Refuse_Namespace (key_namespace key)" | "r1 = Refuse_Owner ok"
    by (auto simp: refusing_scope_def Let_def split: if_splits option.splits)
  then show ?thesis
  proof cases
    case 1
    have "in_scope C (Namespace_Scope (key_namespace key)) k" if "in_scope C (Owner_Scope ok) k" for k
      using that owner_key_Some [OF ok] owner_key_Some [of C k "key_namespace k" ok]
      by (auto simp: in_scope.simps)
    with live 1 r2 show ?thesis by (auto simp: refusal_covers_def all_live_def)
  next
    case 2
    with live r2 show ?thesis by simp
  qed
qed

lemma scope_full_without:
  assumes "dict_ok (kv s)" "in_scope C sc key"
  shows "scope_full C sc key sz s \<longleftrightarrow>
    limit_entries C sc < scope_count C sc (dict_del key (kv s)) + 1 \<or>
    limit_bytes C sc < scope_bytes C sc (dict_del key (kv s)) + sz"
proof (cases "dict_get (kv s) key")
  case None
  then have "dict_del key (kv s) = kv s" by (simp add: map_of_eq_None_iff delete_id)
  with None show ?thesis by (simp add: scope_full_def)
next
  case (Some e)
  with scope_sums_del [OF assms(1) Some] assms(2) show ?thesis by (simp add: scope_full_def)
qed

lemma scope_full_dropped:
  assumes "backend_inv C s" "backend_inv C s'" "dropped now s s'" "in_scope C sc key"
    and "scope_full C sc key sz s'"
  shows "scope_full C sc key sz s"
proof -
  note ok = backend_invD(1) [OF assms(1)] backend_invD(1) [OF assms(2)]
  have pos: "0 \<le> e_size e" if "dict_get (kv s) k = Some e" for k e
    using entry_ok_size [OF backend_invD(3) [OF assms(1) that]] by simp
  note mono = dict_sum_mono [OF dict_ok_del [OF ok(1), of key] dict_ok_del [OF ok(2), of key]]
  have sub: "dict_get (dict_del key (kv s')) k = Some e \<Longrightarrow> dict_get (dict_del key (kv s)) k = Some e" for k e
    using dropped_sub [OF assms(3), of k e] by (simp add: dict_get_del split: if_splits)
  have "scope_count C sc (dict_del key (kv s')) \<le> scope_count C sc (dict_del key (kv s))"
    unfolding scope_count_def by (rule mono [OF sub]) auto
  moreover have "scope_bytes C sc (dict_del key (kv s')) \<le> scope_bytes C sc (dict_del key (kv s))"
    unfolding scope_bytes_def by (rule mono [OF sub]) (auto simp: dict_get_del pos split: if_splits)
  ultimately show ?thesis
    using assms(5) unfolding scope_full_without [OF ok(1) assms(4)] scope_full_without [OF ok(2) assms(4)]
    by linarith
qed

lemma scope_full_live:
  assumes "backend_inv C s" "backend_inv C s'" "dropped now s s'" "all_live now (in_scope C sc) s"
    and "in_scope C sc key"
  shows "scope_full C sc key sz s' = scope_full C sc key sz s"
proof -
  have "dict_get (kv s') key = dict_get (kv s) key"
  proof (cases "dict_get (kv s) key")
    case None
    with assms(3) show ?thesis unfolding dropped_def by metis
  next
    case (Some e)
    with assms(4,5) have "now < e_expires e" by (simp add: all_live_def)
    with Some dropped_live [OF assms(3)] show ?thesis by auto
  qed
  with scope_sums_dropped_live [OF assms(1-4)] show ?thesis by (simp add: scope_full_def)
qed

text \<open>The scope a non-total refusal names.\<close>

definition refused_scope :: "backend_config \<Rightarrow> string \<Rightarrow> string option \<Rightarrow> scope \<Rightarrow> bool" where
  "refused_scope C key owner sc =
     (case sc of
        Namespace_Scope ns \<Rightarrow> ns = key_namespace key \<and> owner = None
      | Owner_Scope ok \<Rightarrow> owner_key C key (key_namespace key) = Some ok \<and> owner = Some (snd ok))"

text \<open>
  A refusal by a namespace or an owner's share is genuine. The scope it names holds live
  entries only, with them alone the write would exceed the entry or the byte limit, and the
  hint is the time to the earliest deadline among them, rounded up and clamped to one
  second to one hour.
\<close>

theorem capacity_refusal_genuine:
  assumes "reachable C s" and "kv_set C now key val ttl s = (Inl (Capacity_Error ns retry owner False), s')"
  shows "ns = key_namespace key \<and>
    (\<exists>sc d. refused_scope C key owner sc \<and> all_live now (in_scope C sc) s' \<and>
       scope_full C sc key (store_size key val) s' \<and> earliest_of (in_scope C sc) s' d \<and>
       retry = clamp_retry_after (case d of Some t \<Rightarrow> t - now | None \<Rightarrow> 3600)) \<and>
    1 \<le> retry \<and> retry \<le> 3600"
proof -
  have inv: "backend_inv C s" using reachable_inv [OF assms(1)] by blast
  have st: "store C key val (now + ttl) now s = (Inl (Capacity_Error ns retry owner False), s')"
    using assms(2) by (simp add: kv_set_def)
  from inv st show ?thesis
  proof (cases rule: store_cases)
    case (refused s1 r1 s2 r2 d s3)
    let ?sz = "store_size key val"
    note err = refuse_facts(9) [OF refused(7)] and kv' = refuse_facts(1) [OF refused(7)]
    have s2: "backend_inv C s2" "dropped now s1 s2" "all_live now (refusal_covers C r1) s2"
      using reclaim_spec [OF refused(1), of r1 now d s2] refused(4)
        reclaim_spec [OF refused(1), of r1 now "fst (reclaim C r1 now s1)" s2] by auto
    note s3 = reclaim_spec [OF s2(1) refused(6)]
    have total: "r2 \<noteq> Refuse_Total" using err by auto
    note eq1 = refusing_scope_eq [OF refused(1), of key ?sz]
      and eq2 = refusing_scope_eq [OF s2(1), of key ?sz]
    have key_ns: "in_scope C (Namespace_Scope (key_namespace key)) key" by (simp add: in_scope.simps)
    define sc where "sc = (case r2 of Refuse_Namespace ns \<Rightarrow> Namespace_Scope ns
      | Refuse_Owner ok \<Rightarrow> Owner_Scope ok | Refuse_Total \<Rightarrow> Namespace_Scope ns)"
    have sc: "refused_scope C key owner sc" "scope_full C sc key ?sz s2" "in_scope C sc key"
      "refusal_covers C r2 = in_scope C sc"
      using refused(5) total err unfolding eq2 sc_def
      by (auto simp: refused_scope_def refusal_covers_def in_scope.simps split: if_splits option.splits)
    have full1: "scope_full C sc key ?sz s1" by (rule scope_full_dropped [OF refused(1) s2(1,2) sc(3,2)])
    have "all_live now (in_scope C sc) s2"
    proof (cases r2)
      case (Refuse_Namespace n)
      then have ns: "sc = Namespace_Scope (key_namespace key)"
        using sc(1) by (simp add: sc_def refused_scope_def)
      then have "r1 = Refuse_Namespace (key_namespace key)" using refused(3) full1 unfolding eq1 by simp
      with s2(3) ns show ?thesis by (simp add: refusal_covers_def)
    next
      case (Refuse_Owner ok)
      then have o: "owner_key C key (key_namespace key) = Some ok" "sc = Owner_Scope ok"
        using sc(1) by (simp_all add: sc_def refused_scope_def)
      have "r1 \<noteq> Refuse_Total" using refused(3) full1 o unfolding eq1 by (auto split: if_splits)
      from all_live_refusal_mono [OF refused(3) this s2(3) Refuse_Owner o(1)] sc(4)
      show ?thesis by simp
    next
      case Refuse_Total
      with total show ?thesis by simp
    qed
    from scope_full_live [OF s2(1) _ _ this sc(3)] s3 sc(2) have "scope_full C sc key ?sz s3" by blast
    moreover have "all_live now (in_scope C sc) s3" "earliest_of (in_scope C sc) s3 d"
      using s3 sc(4) by simp_all
    ultimately have "all_live now (in_scope C sc) s'" "scope_full C sc key ?sz s'"
      "earliest_of (in_scope C sc) s' d"
      by (simp_all only: all_live_def scope_full_def earliest_of_def kv')
    moreover have "ns = key_namespace key"
      "retry = clamp_retry_after (case d of Some t \<Rightarrow> t - now | None \<Rightarrow> 3600)"
      using err by (simp_all add: max_retry_after_s_def split: option.split)
    ultimately show ?thesis
      using sc(1) by (auto simp: clamp_retry_after_def min_retry_after_s_def max_retry_after_s_def)
  qed simp
qed

theorem capacity_refusal_genuine_witness:
  "\<exists>s s'. reachable demo_config s \<and>
     kv_set demo_config 3 ''idem:a:j'' ''w'' 10 s = (Inl (Capacity_Error ''idem'' 8 (Some ''a'') False), s') \<and>
     scope_full demo_config (Owner_Scope (''idem'', ''a'')) ''idem:a:j'' 759 s'"
proof -
  let ?s = "step demo_config (Op_Set 1 ''idem:a:k'' ''v'' 10) demo_state"
  have r: "reachable demo_config ?s" by (intro reachable.intros, rule demo_init)
  have "fst (kv_set demo_config 3 ''idem:a:j'' ''w'' 10 ?s) = Inl (Capacity_Error ''idem'' 8 (Some ''a'') False)"
    by code_simp
  then obtain s' where s': "kv_set demo_config 3 ''idem:a:j'' ''w'' 10 ?s
      = (Inl (Capacity_Error ''idem'' 8 (Some ''a'') False), s')" by (metis prod.collapse)
  from capacity_refusal_genuine [OF r s'] obtain sc where
    sc: "refused_scope demo_config ''idem:a:j'' (Some ''a'') sc"
      "scope_full demo_config sc ''idem:a:j'' (store_size ''idem:a:j'' ''w'') s'" by blast
  have "owner_key demo_config ''idem:a:j'' (key_namespace ''idem:a:j'') = Some (''idem'', ''a'')" by code_simp
  with sc(1) have "sc = Owner_Scope (''idem'', ''a'')"
    by (cases sc) (auto simp: refused_scope_def)
  with sc(2) have "scope_full demo_config (Owner_Scope (''idem'', ''a'')) ''idem:a:j'' 759 s'"
    by (simp add: entry_overhead_bytes_def)
  with r s' show ?thesis by blast
qed

definition spurious_config :: backend_config where
  "spurious_config = \<lparr>default_budget = \<lparr>max_entries = 1, max_bytes = 2000, max_owner_share = None\<rparr>,
     namespace_budgets = [], max_total_bytes = 1600, sweep_interval = 30\<rparr>"

text \<open>
  The backend-wide cap has no such guarantee when another scope refused first: after the
  namespace's expired entries are dropped the cap is checked once, and the expired entries of
  the other namespaces that it is then found to be full of are dropped only on the way to the
  exception. Here a store whose entries have all expired refuses a write, with a hint of one
  hour, and the same write is accepted right after.
\<close>

theorem total_refusal_after_reclaim:
  "let s = run spurious_config [Op_Set 1 ''a:1'' ''v'' 2, Op_Set 1 ''b:1'' ''v'' 2] demo_state;
       (r, s') = kv_set spurious_config 5 ''a:2'' (replicate 100 CHR ''x'') 2 s
   in r = Inl (Capacity_Error ''a'' 3600 None True) \<and> kv s' = [] \<and>
      \<not> total_full spurious_config ''a:2'' 853 s' \<and>
      fst (kv_set spurious_config 5 ''a:2'' (replicate 100 CHR ''x'') 2 s') = Inr ()"
  by code_simp

section \<open>Overwrites and counters\<close>

lemma overwrite_fits:
  assumes inv: "backend_inv C s" and w: "within_budgets C s"
    and e0: "dict_get (kv s) key = Some e" and live: "now < e_expires e"
    and len: "length val \<le> length (e_value e)"
  shows "fst (kv_set C now key val ttl s) = Inr ()"
proof -
  let ?t = "maybe_sweep C now s" and ?sz = "store_size key val"
  note t = maybe_sweep_spec [OF inv, of now]
  have w': "within_budgets C ?t" using within_budgets_dropped [OF w inv t] .
  have e: "dict_get (kv ?t) key = Some e" by (rule dropped_live [OF t(2) e0 live])
  have sz: "?sz \<le> e_size e" "0 < e_size e"
    using backend_invD(3) [OF inv e0] len entry_ok_size by (auto simp: entry_ok_def)
  note ok = backend_invD(1) [OF t(1)]
  have "\<not> scope_full C sc key ?sz ?t" if sc: "in_scope C sc key" for sc
  proof -
    have "1 \<le> scope_count C sc (kv ?t)" using scope_count_member [OF ok e sc] .
    moreover have "e_size e \<le> scope_bytes C sc (kv ?t)"
    proof -
      have "(if in_scope C sc key then e_size e else 0) \<le> scope_bytes C sc (kv ?t)"
        unfolding scope_bytes_def
        by (rule dict_sum_member [OF ok e]) (use entry_ok_size [OF backend_invD(3) [OF t(1)]] in force)
      with sc show ?thesis by simp
    qed
    moreover have "scope_count C sc (kv ?t) \<le> max 0 (limit_entries C sc)"
      "scope_bytes C sc (kv ?t) \<le> max 0 (limit_bytes C sc)"
      using w' by (auto simp: within_budgets_def)
    ultimately show ?thesis using sz e by (auto simp: scope_full_def le_max_iff_disj)
  qed
  moreover have "\<not> total_full C key ?sz ?t"
  proof -
    have "e_size e \<le> all_bytes (kv ?t)"
      unfolding all_bytes_def
      by (rule dict_sum_member [OF ok e]) (use entry_ok_size [OF backend_invD(3) [OF t(1)]] in force)
    moreover have "all_bytes (kv ?t) \<le> max 0 (max_total_bytes C)"
      using w' by (auto simp: within_budgets_def)
    ultimately show ?thesis using sz e by (auto simp: total_full_def le_max_iff_disj)
  qed
  ultimately have "refusing_scope C key (key_namespace key) ?sz ?t = None"
    unfolding refusing_scope_eq [OF t(1)] by (auto simp: in_scope.simps split: option.splits)
  then show ?thesis by (simp add: kv_set_def store_def Let_def)
qed

text \<open>
  Rewriting a live key with a value no longer than the current one is never refused,
  however full its namespace, its owner's share and the backend are.
\<close>

theorem smaller_overwrite_never_refused:
  assumes "reachable C s" and "dict_get (kv s) key = Some e" and "now < e_expires e"
    and "length val \<le> length (e_value e)"
  shows "fst (kv_set C now key val ttl s) = Inr ()"
  using overwrite_fits assms reachable_inv by blast

theorem smaller_overwrite_never_refused_witness:
  "\<exists>s. reachable demo_config s \<and> fst (kv_set demo_config 3 ''idem:a:k'' ''w'' 10 s) = Inr ()"
proof -
  let ?s = "step demo_config (Op_Set 1 ''idem:a:k'' ''v'' 10) demo_state"
  have r: "reachable demo_config ?s" by (intro reachable.intros, rule demo_init)
  have e: "dict_get (kv ?s) ''idem:a:k'' = Some \<lparr>e_value = ''v'', e_expires = 11, e_size = 759, e_seq = 1\<rparr>"
    by code_simp
  from smaller_overwrite_never_refused [OF r e, of 3 "''w''" 10] r show ?thesis by auto
qed

lemma incr_spec:
  assumes inv: "backend_inv C s" and run: "incr C now now' key ttl amount s = (Inr m, s')"
  shows "\<exists>e. dict_get (kv s') key = Some e \<and> e_value e = str_of_int m \<and>
    (case fst (live_entry C now' key s) of
       Some f \<Rightarrow> py_int (e_value f) = Some (m - amount) \<and> e_expires e = e_expires f
     | None \<Rightarrow> m = amount \<and> e_expires e = now + ttl)"
proof -
  obtain r s1 where l: "live_entry C now' key s = (r, s1)" by (cases "live_entry C now' key s")
  let ?x = "case r of Some e \<Rightarrow> e_expires e | None \<Rightarrow> now + ttl"
  obtain c where c: "(case r of None \<Rightarrow> Some 0 | Some e \<Rightarrow> py_int (e_value e)) = Some c"
    using run l by (cases "case r of None \<Rightarrow> Some 0 | Some e \<Rightarrow> py_int (e_value e)") (auto simp: incr_def)
  obtain q s2 where st: "store C key (str_of_int (c + amount)) ?x now s1 = (q, s2)"
    by (cases "store C key (str_of_int (c + amount)) ?x now s1")
  have q: "q = Inr ()" "m = c + amount" "s' = s2"
    using run l c st by (auto simp: incr_def Let_def rbind_def split: sum.splits)
  have "backend_inv C s1" using live_entry_spec [OF inv l] by blast
  from store_written [OF this st [unfolded q]] l c q show ?thesis by (cases r) auto
qed

text \<open>
  A counter loses no increment inside its window. After an increment has returned
  \<open>m\<close>, whatever else runs before the deadline, the next increment that succeeds returns
  \<open>m\<close> plus its own amount, and it keeps the deadline of the window.
\<close>

theorem counter_window_counts:
  assumes "reachable C s" and "incr_with_ttl C now now' key ttl amount s = (Inr m, s1)"
    and "dict_get (kv s1) key = Some e"
    and "list_all (\<lambda>op. key \<notin> set (op_overwrites op) \<and> list_all (\<lambda>t. t < e_expires e) (op_times op)) ops"
    and "t' < e_expires e"
    and "incr_with_ttl C t t' key ttl' amount' (run C ops s1) = (Inr m', s2)"
  shows "m' = m + amount' \<and>
    (\<exists>e'. dict_get (kv s2) key = Some e' \<and> e_value e' = str_of_int m' \<and> e_expires e' = e_expires e)"
proof -
  have inv: "backend_inv C s" using reachable_inv [OF assms(1)] by blast
  have i1: "incr C now now' key ttl amount s = (Inr m, s1)"
    using assms(2) by (auto simp: incr_with_ttl_def split: if_splits)
  from incr_spec [OF inv i1] assms(3) have v: "e_value e = str_of_int m" by auto
  have inv1: "backend_inv C s1" using incr_keeps [OF inv, of now now' key ttl amount] i1 by (simp add: keeps_def)
  from run_keeps [OF this, of ops] have r: "backend_inv C (run C ops s1)"
    "dict_get (kv (run C ops s1)) key = Some e"
    using assms(3,4) by (auto simp: keeps_def list_all_iff)
  have i2: "incr C t t' key ttl' amount' (run C ops s1) = (Inr m', s2)"
    using assms(6) by (auto simp: incr_with_ttl_def split: if_splits)
  have "live_entry C t' key (run C ops s1) = (Some e, run C ops s1)"
    using r(2) assms(5) by (simp add: live_entry_def)
  with incr_spec [OF r(1) i2] v show ?thesis by auto
qed

theorem counter_window_counts_witness:
  "\<exists>s1 s2. incr_with_ttl demo_config 1 1 ''cb:h'' 10 1 demo_state = (Inr 1, s1) \<and>
     incr_with_ttl demo_config 5 5 ''cb:h'' 10 2 (run demo_config [Op_Set 3 ''idem:a:k'' ''x'' 1] s1) = (Inr 3, s2)"
proof -
  have r: "reachable demo_config demo_state" by (rule reachable.start [OF demo_init])
  have "fst (incr_with_ttl demo_config 1 1 ''cb:h'' 10 1 demo_state) = Inr 1" by code_simp
  then obtain s1 where s1: "incr_with_ttl demo_config 1 1 ''cb:h'' 10 1 demo_state = (Inr 1, s1)"
    by (metis prod.collapse)
  have d: "map_option e_expires (dict_get (kv (snd (incr_with_ttl demo_config 1 1 ''cb:h'' 10 1 demo_state))) ''cb:h'')
      = Some 11" by code_simp
  then obtain e where e: "dict_get (kv s1) ''cb:h'' = Some e" "e_expires e = 11" using s1 by auto
  let ?ops = "[Op_Set 3 ''idem:a:k'' ''x'' 1]"
  have "isl (fst (incr_with_ttl demo_config 5 5 ''cb:h'' 10 2
      (run demo_config ?ops (snd (incr_with_ttl demo_config 1 1 ''cb:h'' 10 1 demo_state))))) = False"
    by code_simp
  then obtain m' s2 where s2: "incr_with_ttl demo_config 5 5 ''cb:h'' 10 2 (run demo_config ?ops s1) = (Inr m', s2)"
    using s1 by (metis prod.collapse snd_conv isl_def sum.exhaust)
  have "m' = 1 + 2" using counter_window_counts [OF r s1 e(1) _ _ s2] e(2) by simp
  with s1 s2 show ?thesis by auto
qed

section \<open>Token buckets\<close>

text \<open>
  The tokens a key could spend at time \<open>t\<close>: the refilled bucket, or a full one when the key
  has none.
\<close>

definition level :: "real \<Rightarrow> int \<Rightarrow> real \<Rightarrow> string \<Rightarrow> backend \<Rightarrow> real" where
  "level rate burst t key s =
     (case dict_get (buckets s) key of
        None \<Rightarrow> of_int burst
      | Some b \<Rightarrow> min (of_int burst) (b_tokens b + max 0 (t - b_updated b) * rate))"

text \<open>A bucket as \<open>token_bucket\<close> leaves it: within its bounds, its deadline up to date.\<close>

definition bucket_ok :: "real \<Rightarrow> int \<Rightarrow> real \<Rightarrow> string \<Rightarrow> backend \<Rightarrow> bool" where
  "bucket_ok rate burst t key s =
     (case dict_get (buckets s) key of
        None \<Rightarrow> True
      | Some b \<Rightarrow> 0 \<le> b_tokens b \<and> b_tokens b \<le> of_int burst \<and> b_updated b \<le> t
          \<and> b_full b = full_at b rate burst)"

lemma full_bucket_level:
  assumes "0 < rate" "bucket_ok rate burst t0 key s" "dict_get (buckets s) key = Some b"
    and "b_full b \<le> At now" "now \<le> t"
  shows "level rate burst t key s = of_int burst"
proof (cases "of_int burst - b_tokens b \<le> 0")
  case True
  with assms show ?thesis by (auto simp: level_def bucket_ok_def intro!: min_absorb1)
next
  case False
  with assms(1-4) have "b_updated b + (of_int burst - b_tokens b) / rate \<le> now"
    by (auto simp: bucket_ok_def full_at_def Let_def)
  with assms(5) have "(of_int burst - b_tokens b) / rate \<le> t - b_updated b" by simp
  with assms(1) have "of_int burst - b_tokens b \<le> (t - b_updated b) * rate" by (simp add: pos_divide_le_eq)
  also have "\<dots> \<le> max 0 (t - b_updated b) * rate" using assms(1) by (intro mult_right_mono) auto
  finally show ?thesis using assms(3) by (simp add: level_def)
qed

text \<open>Outside its own calls a bucket changes only by a sweep that finds it full.\<close>

definition buckets_drop :: "real list \<Rightarrow> backend \<Rightarrow> backend \<Rightarrow> bool" where
  "buckets_drop ts s s' =
     (\<forall>key. dict_get (buckets s') key = dict_get (buckets s) key \<or>
        (dict_get (buckets s') key = None \<and>
         (\<exists>b. dict_get (buckets s) key = Some b \<and> (\<exists>t\<in>set ts. b_full b \<le> At t))))"

lemma buckets_drop_refl [simp]: "buckets s' = buckets s \<Longrightarrow> buckets_drop ts s s'"
  by (simp add: buckets_drop_def)

lemma buckets_drop_trans:
  assumes "buckets_drop t1 s s'" "buckets_drop t2 s' s''"
  shows "buckets_drop (t1 @ t2) s s''"
  unfolding buckets_drop_def
proof
  fix key
  from assms have a: "dict_get (buckets s') key = dict_get (buckets s) key \<or> (dict_get (buckets s') key = None \<and>
      (\<exists>b. dict_get (buckets s) key = Some b \<and> (\<exists>t\<in>set t1. b_full b \<le> At t)))"
    and b: "dict_get (buckets s'') key = dict_get (buckets s') key \<or> (dict_get (buckets s'') key = None \<and>
      (\<exists>b. dict_get (buckets s') key = Some b \<and> (\<exists>t\<in>set t2. b_full b \<le> At t)))"
    unfolding buckets_drop_def by blast+
  from a b show "dict_get (buckets s'') key = dict_get (buckets s) key \<or> (dict_get (buckets s'') key = None \<and>
      (\<exists>b. dict_get (buckets s) key = Some b \<and> (\<exists>t\<in>set (t1 @ t2). b_full b \<le> At t)))"
    by (elim disjE conjE exE) auto
qed

lemma buckets_drop_mono:
  assumes "buckets s'' = buckets s'" "buckets_drop ts s s'" "set ts \<subseteq> set ts'"
  shows "buckets_drop ts' s s''"
  using assms(2,3) unfolding buckets_drop_def assms(1) by blast

lemma drop_refilled_drop:
  "drop_refilled now heap bs = (heap', bs') \<Longrightarrow>
     \<forall>key. dict_get bs' key = dict_get bs key \<or>
       (dict_get bs' key = None \<and> (\<exists>b. dict_get bs key = Some b \<and> b_full b \<le> At now))"
proof (induction now heap bs arbitrary: heap' bs' rule: drop_refilled.induct)
  case (1 now heap bs)
  show ?case
  proof (cases heap)
    case Nil
    with 1 show ?thesis by (simp add: drop_refilled.simps)
  next
    case (Cons p rest)
    obtain full key where p: "p = (full, key)" by (cases p)
    show ?thesis
    proof (cases "full \<le> At now")
      case True
      let ?bs = "case dict_get bs key of None \<Rightarrow> bs
        | Some b \<Rightarrow> if b_full b = full then dict_del key bs else bs"
      have one: "\<forall>k. dict_get ?bs k = dict_get bs k \<or>
          (dict_get ?bs k = None \<and> (\<exists>b. dict_get bs k = Some b \<and> b_full b \<le> At now))"
        using True by (auto simp: dict_get_del split: option.split)
      have "drop_refilled now (heappop heap) ?bs = (heap', bs')"
        using 1(2) True unfolding Cons p drop_refilled.simps [of now "(full, key) # rest" bs] by simp
      from 1(1) [OF Cons _ True this] p one show ?thesis by (metis (no_types, lifting))
    next
      case False
      with 1(2) show ?thesis unfolding Cons p drop_refilled.simps [of now "(full, key) # rest" bs] by simp
    qed
  qed
qed

lemma maybe_sweep_buckets:
  assumes "backend_inv C s"
  shows "buckets_drop [now] s (maybe_sweep C now s)"
proof (cases "next_sweep_at s \<le> now")
  case True
  obtain d s1 where s1: "earliest_live_anywhere C now s = (d, s1)" by (cases "earliest_live_anywhere C now s")
  then have b: "buckets s1 = buckets s" "bucket_index s1 = bucket_index s"
    using earliest_live_anywhere_spec [OF assms] by (auto simp: same_rest_def)
  obtain ix bs where dr: "drop_refilled now (bucket_index s) (buckets s) = (ix, bs)"
    by (cases "drop_refilled now (bucket_index s) (buckets s)")
  have "buckets (maybe_sweep C now s) = bs" using True s1 b dr by (simp add: maybe_sweep_def sweep_def)
  with drop_refilled_drop [OF dr] show ?thesis by (simp add: buckets_drop_def)
qed (simp add: maybe_sweep_def)

lemma commit_entry_buckets: "buckets (commit_entry C key (key_namespace key) val x sz s) = buckets s"
proof -
  have "buckets (delete_entry C key s) = buckets s" using delete_entry_same(1) by (simp add: same_rest_def)
  then show ?thesis
    by (auto simp: commit_entry_def insert_entry_fields resize_fields Let_def split: option.split)
qed

lemma reclaim_buckets:
  "backend_inv C s \<Longrightarrow> reclaim C r now s = (d, s') \<Longrightarrow> buckets s' = buckets s \<and> backend_inv C s'"
  using reclaim_spec by (auto simp: same_rest_def)

lemma store_buckets:
  assumes inv: "backend_inv C s"
  shows "buckets_drop [now] s (snd (store C key val x now s))"
proof -
  let ?t = "maybe_sweep C now s" and ?sz = "store_size key val"
  note t = maybe_sweep_spec(1) [OF inv, of now] maybe_sweep_buckets [OF inv, of now]
  have "buckets (snd (store C key val x now s)) = buckets ?t"
  proof (cases "refusing_scope C key (key_namespace key) ?sz ?t")
    case None
    then show ?thesis by (simp add: store_def Let_def commit_entry_buckets)
  next
    case (Some r1)
    obtain d1 s2 where r1: "reclaim C r1 now ?t = (d1, s2)" by (cases "reclaim C r1 now ?t")
    note s2 = reclaim_buckets [OF t(1) r1]
    show ?thesis
    proof (cases "refusing_scope C key (key_namespace key) ?sz s2")
      case None
      with Some r1 s2 show ?thesis by (simp add: store_def Let_def commit_entry_buckets)
    next
      case again: (Some r2)
      obtain d s3 where r2: "reclaim C r2 now s2 = (d, s3)" by (cases "reclaim C r2 now s2")
      obtain err s4 where e: "refuse C (key_namespace key) r2 d now s3 = (err, s4)"
        by (cases "refuse C (key_namespace key) r2 d now s3")
      have "snd (store C key val x now s) = s4"
        using Some r1 again r2 e by (simp add: store_def Let_def)
      with refuse_facts(6) [OF e] reclaim_buckets [of C s2 r2 now d s3] r2 s2 show ?thesis by simp
    qed
  qed
  with t(2) show ?thesis by (simp add: buckets_drop_def)
qed

lemma live_entry_buckets: "buckets (snd (live_entry C now key s)) = buckets s"
  using delete_entry_same(1) [of s C key]
  by (auto simp: live_entry_def same_rest_def split: option.split)

lemma set_if_absent_buckets:
  assumes "backend_inv C s"
  shows "buckets_drop [now, now'] s (snd (set_if_absent C now now' key val ttl s))"
proof -
  obtain r s1 where l: "live_entry C now key s = (r, s1)" by (cases "live_entry C now key s")
  have inv1: "backend_inv C s1" using live_entry_spec [OF assms l] by blast
  have b: "buckets s1 = buckets s" using live_entry_buckets [of C now key s] l by simp
  have "buckets_drop [now'] s1 (snd (store C key val (now' + ttl) now' s1))" by (rule store_buckets [OF inv1])
  then have "buckets_drop ([now] @ [now']) s (snd (store C key val (now' + ttl) now' s1))"
    by (rule buckets_drop_trans [rotated]) (simp add: b)
  with l b show ?thesis by (auto simp: set_if_absent_def split: option.split prod.split)
qed

lemma incr_buckets:
  assumes "backend_inv C s"
  shows "buckets_drop [now, now'] s (snd (incr C now now' key ttl amount s))"
proof -
  obtain r s1 where l: "live_entry C now' key s = (r, s1)" by (cases "live_entry C now' key s")
  have inv1: "backend_inv C s1" using live_entry_spec [OF assms l] by blast
  have b: "buckets s1 = buckets s" using live_entry_buckets [of C now' key s] l by simp
  have "buckets_drop [now] s (snd (store C key v x now s1))" for v x
    using store_buckets [OF inv1, of now key v x] b by (simp add: buckets_drop_def)
  then have st: "buckets_drop [now, now'] s (snd (store C key v x now s1))" for v x
    unfolding buckets_drop_def by (metis list.set_intros(1) set_ConsD empty_iff list.set(1))
  show ?thesis
  proof (cases "case r of None \<Rightarrow> Some 0 | Some e \<Rightarrow> py_int (e_value e)")
    case None
    with l b show ?thesis by (simp add: incr_def)
  next
    case (Some c)
    with l st show ?thesis by (simp add: incr_def Let_def split_beta)
  qed
qed

lemma incr_all_buckets:
  "backend_inv C s \<Longrightarrow>
     buckets_drop (concat (map (\<lambda>(k, t, t'). [t, t']) ks)) s (snd (incr_all C ks ttl s))"
proof (induction ks arbitrary: s)
  case (Cons p ks)
  obtain key now now' where p: "p = (key, now, now')" by (cases p)
  obtain r s1 where one: "incr C now now' key ttl 1 s = (r, s1)" by (cases "incr C now now' key ttl 1 s")
  have inv1: "backend_inv C s1"
    using incr_keeps [OF Cons.prems, of now now' key ttl 1] one by (simp add: keeps_def)
  have b: "buckets_drop [now, now'] s s1" using incr_buckets [OF Cons.prems, of now now' key ttl 1] one by simp
  show ?case
  proof (cases r)
    case (Inl e)
    have "buckets_drop ([now, now'] @ concat (map (\<lambda>(k, t, t'). [t, t']) ks)) s s1"
      using buckets_drop_trans [OF b, of _ s1] by simp
    with Inl one p show ?thesis by simp
  next
    case (Inr n)
    have "snd (incr_all C (p # ks) ttl s) = snd (incr_all C ks ttl s1)"
      by (simp add: p one Inr split: prod.split)
    with buckets_drop_trans [OF b Cons.IH [OF inv1]] p show ?thesis by simp
  qed
qed simp

lemma read_all_buckets: "buckets (snd (read_all C rs s)) = buckets s"
proof (induction rs arbitrary: s)
  case (Cons p rs)
  obtain key now where p: "p = (key, now)" by (cases p)
  have "snd (read_all C (p # rs) s) = snd (read_all C rs (snd (kv_get C now key s)))"
    by (simp add: p split_beta Let_def)
  with Cons show ?case using live_entry_buckets [of C now key s] by (simp add: kv_get_def split_beta Let_def)
qed simp

definition is_bucket_op :: "string \<Rightarrow> state_op \<Rightarrow> bool" where
  "is_bucket_op key op = (case op of Op_Token_Bucket now k rate burst cost \<Rightarrow> k = key | _ \<Rightarrow> False)"

lemma reindex_bucket_get:
  "dict_get (buckets (reindex_bucket key b full s)) k =
     (if k = key then Some (b\<lparr>b_full := full\<rparr>) else dict_get (buckets s) k)"
  by (auto simp: reindex_bucket_def Let_def dict_get_set)

lemma token_bucket_get:
  fixes C now key rate burst cost s
  defines "t \<equiv> maybe_sweep C now s"
  defines "b \<equiv> (case dict_get (buckets t) key of Some b \<Rightarrow> b
    | None \<Rightarrow> \<lparr>b_tokens = of_int burst, b_updated = now, b_full = Minus_Inf\<rparr>)"
  defines "tokens \<equiv> min (of_int burst) (b_tokens b + max 0 (now - b_updated b) * rate)"
  defines "left \<equiv> (if of_int cost \<le> tokens then tokens - of_int cost else tokens)"
  shows "rl_allowed (fst (token_bucket C now key rate burst cost s)) = (of_int cost \<le> tokens)"
    "\<exists>nb. b_tokens nb = left \<and> b_updated nb = now \<and> b_full nb = full_at nb rate burst \<and>
      (\<forall>k. dict_get (buckets (snd (token_bucket C now key rate burst cost s))) k =
         (if k = key then Some nb else dict_get (buckets t) k))"
proof -
  let ?nb = "b\<lparr>b_tokens := left, b_updated := now\<rparr>"
  have b': "(if of_int cost \<le> tokens then (b\<lparr>b_tokens := tokens, b_updated := now\<rparr>)
        \<lparr>b_tokens := tokens - of_int cost\<rparr> else b\<lparr>b_tokens := tokens, b_updated := now\<rparr>) = ?nb"
    by (simp add: left_def)
  show "rl_allowed (fst (token_bucket C now key rate burst cost s)) = (of_int cost \<le> tokens)"
    unfolding token_bucket_def t_def [symmetric] Let_def b_def [symmetric]
    by (simp add: tokens_def)
  have "buckets (snd (token_bucket C now key rate burst cost s)) =
      buckets (reindex_bucket key ?nb (full_at ?nb rate burst) t)"
    unfolding token_bucket_def t_def [symmetric] Let_def b_def [symmetric] b' [symmetric]
    by (simp add: tokens_def)
  then show "\<exists>nb. b_tokens nb = left \<and> b_updated nb = now \<and> b_full nb = full_at nb rate burst \<and>
      (\<forall>k. dict_get (buckets (snd (token_bucket C now key rate burst cost s))) k =
         (if k = key then Some nb else dict_get (buckets t) k))"
    by (intro exI [of _ "?nb\<lparr>b_full := full_at ?nb rate burst\<rparr>"])
      (simp add: reindex_bucket_get full_at_def)
qed

lemma step_buckets:
  assumes inv: "backend_inv C s" and "\<not> is_bucket_op key op"
  shows "dict_get (buckets (step C op s)) key = dict_get (buckets s) key \<or>
    (dict_get (buckets (step C op s)) key = None \<and>
      (\<exists>b. dict_get (buckets s) key = Some b \<and> (\<exists>t\<in>set (op_times op). b_full b \<le> At t)))"
proof -
  have drop: "buckets_drop (op_times op) s s' \<Longrightarrow> step C op s = s' \<Longrightarrow> ?thesis" for s'
    by (auto simp: buckets_drop_def)
  show ?thesis
  proof (cases op)
    case (Op_Get now k)
    then show ?thesis using live_entry_buckets [of C now k s] by (simp add: kv_get_def split_beta Let_def)
  next
    case (Op_Set now k val ttl)
    then show ?thesis using store_buckets [OF inv] by (intro drop) (auto simp: kv_set_def)
  next
    case (Op_Set_If_Absent now now' k val ttl)
    then show ?thesis using set_if_absent_buckets [OF inv] by (intro drop) auto
  next
    case (Op_Incr now now' k ttl amount)
    then show ?thesis using incr_buckets [OF inv] by (intro drop) (auto simp: incr_with_ttl_def)
  next
    case (Op_Incr_And_Read ks rs ttl)
    obtain r s1 where one: "incr_all C ks ttl s = (r, s1)" by (cases "incr_all C ks ttl s")
    have "buckets (step C op s) = buckets s1"
      using Op_Incr_And_Read one read_all_buckets [of C rs s1]
      by (cases r) (simp_all add: incr_and_read_def split_beta Let_def)
    moreover have "buckets_drop (concat (map (\<lambda>(k, t, t'). [t, t']) ks)) s s1"
      using incr_all_buckets [OF inv, of ks ttl] one by simp
    ultimately have "buckets_drop (op_times op) s (step C op s)"
      unfolding Op_Incr_And_Read op_times.simps by (rule buckets_drop_mono) (simp only: set_append, blast)
    then show ?thesis using drop by blast
  next
    case (Op_Token_Bucket now k rate burst cost)
    with assms(2) have "k \<noteq> key" by (simp add: is_bucket_op_def)
    with token_bucket_get(2) [where C = C and now = now and key = k and rate = rate and burst = burst
        and cost = cost and s = s] Op_Token_Bucket
    have "dict_get (buckets (step C op s)) key = dict_get (buckets (maybe_sweep C now s)) key" by auto
    with maybe_sweep_buckets [OF inv, of now] Op_Token_Bucket show ?thesis
      by (auto simp: buckets_drop_def)
  qed
qed

text \<open>What the calls on one key were granted in a run.\<close>

definition granted :: "backend_config \<Rightarrow> string \<Rightarrow> state_op \<Rightarrow> backend \<Rightarrow> int" where
  "granted C key op s =
     (case op of
        Op_Token_Bucket now k rate burst cost \<Rightarrow>
          if k = key \<and> rl_allowed (fst (token_bucket C now k rate burst cost s)) then cost else 0
      | _ \<Rightarrow> 0)"

fun grants :: "backend_config \<Rightarrow> string \<Rightarrow> state_op list \<Rightarrow> backend \<Rightarrow> int" where
  "grants C key [] s = 0"
| "grants C key (op # ops) s = granted C key op s + grants C key ops (step C op s)"

definition obeys_policy :: "string \<Rightarrow> real \<Rightarrow> int \<Rightarrow> state_op \<Rightarrow> bool" where
  "obeys_policy key rate burst op =
     (case op of
        Op_Token_Bucket now k r b cost \<Rightarrow> if k = key then r = rate \<and> b = burst \<and> 0 \<le> cost else True
      | _ \<Rightarrow> True)"

definition op_within :: "real \<Rightarrow> real \<Rightarrow> state_op \<Rightarrow> bool" where
  "op_within t0 t1 op = list_all (\<lambda>t. t0 \<le> t \<and> t \<le> t1) (op_times op)"

lemma level_grows:
  assumes "0 < rate" "t0 \<le> t1"
  shows "level rate burst t1 key s \<le> level rate burst t0 key s + (t1 - t0) * rate"
proof (cases "dict_get (buckets s) key")
  case None
  with assms show ?thesis by (simp add: level_def)
next
  case (Some b)
  have "max 0 (t1 - b_updated b) \<le> max 0 (t0 - b_updated b) + (t1 - t0)" using assms(2) by auto
  then have "max 0 (t1 - b_updated b) * rate \<le> max 0 (t0 - b_updated b) * rate + (t1 - t0) * rate"
    using assms(1) by (simp add: distrib_right [symmetric])
  moreover have "0 \<le> (t1 - t0) * rate" using assms by simp
  ultimately have "min (of_int burst) (b_tokens b + max 0 (t1 - b_updated b) * rate)
      \<le> min (of_int burst) (b_tokens b + max 0 (t0 - b_updated b) * rate) + (t1 - t0) * rate"
    by linarith
  with Some show ?thesis by (simp add: level_def)
qed

lemma other_step_level:
  assumes inv: "backend_inv C s" and "\<not> is_bucket_op key op" and rate: "0 < rate"
    and ok: "bucket_ok rate burst t0 key s" and "op_within t0 t1 op" "t0 \<le> t1"
  shows "bucket_ok rate burst t1 key (step C op s) \<and>
    level rate burst t1 key (step C op s) \<le> level rate burst t0 key s + (t1 - t0) * rate"
  using step_buckets [OF inv assms(2)]
proof
  assume eq: "dict_get (buckets (step C op s)) key = dict_get (buckets s) key"
  with ok assms(6) have "bucket_ok rate burst t1 key (step C op s)"
    by (auto simp: bucket_ok_def split: option.splits)
  moreover have "level rate burst t1 key (step C op s) = level rate burst t1 key s"
    by (simp add: level_def eq)
  ultimately show ?thesis using level_grows [OF rate assms(6)] by simp
next
  assume "dict_get (buckets (step C op s)) key = None \<and>
      (\<exists>b. dict_get (buckets s) key = Some b \<and> (\<exists>t\<in>set (op_times op). b_full b \<le> At t))"
  then obtain b t where gone: "dict_get (buckets (step C op s)) key = None"
    and b: "dict_get (buckets s) key = Some b" "t \<in> set (op_times op)" "b_full b \<le> At t" by blast
  have "t \<le> t1" using b(2) assms(5) by (auto simp: op_within_def list_all_iff)
  from full_bucket_level [OF rate ok b(1,3) this]
  have "level rate burst t1 key (step C op s) = level rate burst t1 key s"
    using gone by (simp only: level_def option.case)
  with level_grows [OF rate assms(6), of burst key s] gone show ?thesis by (simp add: bucket_ok_def)
qed

lemma bucket_step_level:
  assumes inv: "backend_inv C s" and rate: "0 < rate" and pos: "0 \<le> burst" "0 \<le> cost"
    and ok: "bucket_ok rate burst t0 key s" and now: "t0 \<le> now" "now \<le> t1"
  defines "op \<equiv> Op_Token_Bucket now key rate burst cost"
  shows "bucket_ok rate burst t1 key (step C op s) \<and>
    level rate burst t1 key (step C op s)
      \<le> level rate burst t0 key s + (t1 - t0) * rate - of_int (granted C key op s)"
proof -
  let ?t = "maybe_sweep C now s"
  have m: "bucket_ok rate burst now key ?t" "level rate burst now key ?t = level rate burst now key s"
  proof -
    have "dict_get (buckets ?t) key = dict_get (buckets s) key \<or>
        (dict_get (buckets ?t) key = None \<and> (\<exists>b. dict_get (buckets s) key = Some b \<and> b_full b \<le> At now))"
      using maybe_sweep_buckets [OF inv, of now] by (auto simp: buckets_drop_def)
    then show "bucket_ok rate burst now key ?t" "level rate burst now key ?t = level rate burst now key s"
      using full_bucket_level [OF rate ok, of _ now now] ok now
      by (auto simp: bucket_ok_def level_def split: option.splits)
  qed
  let ?b = "case dict_get (buckets ?t) key of Some b \<Rightarrow> b
    | None \<Rightarrow> \<lparr>b_tokens = of_int burst, b_updated = now, b_full = Minus_Inf\<rparr>"
  let ?tokens = "min (of_int burst) (b_tokens ?b + max 0 (now - b_updated ?b) * rate)"
  obtain tokens where tk: "?tokens = tokens" by simp
  have tokens: "tokens = level rate burst now key s" "0 \<le> tokens" "tokens \<le> of_int burst"
    using m rate pos unfolding tk [symmetric]
    by (auto simp: level_def bucket_ok_def split: option.splits)
  note tb = token_bucket_get [where C = C and now = now and key = key and rate = rate and burst = burst
      and cost = cost and s = s, unfolded tk]
  from tb(2) obtain nb where nb:
    "b_tokens nb = (if of_int cost \<le> tokens then tokens - of_int cost else tokens)"
    "b_updated nb = now" "b_full nb = full_at nb rate burst"
    "dict_get (buckets (step C op s)) key = Some nb" by (auto simp: op_def)
  have g: "granted C key op s = (if of_int cost \<le> tokens then cost else 0)"
    using tb(1) by (simp add: granted_def op_def)
  have left: "b_tokens nb = tokens - of_int (granted C key op s)" "0 \<le> b_tokens nb"
    "b_tokens nb \<le> of_int burst"
    using nb(1) g tokens(2,3) pos(2) by auto
  have "level rate burst t1 key (step C op s) \<le> level rate burst now key (step C op s) + (t1 - now) * rate"
    by (rule level_grows [OF rate now(2)])
  moreover have "level rate burst now key (step C op s) = b_tokens nb"
    using nb left by (simp add: level_def)
  moreover have "level rate burst now key s \<le> level rate burst t0 key s + (now - t0) * rate"
    by (rule level_grows [OF rate now(1)])
  ultimately have "level rate burst t1 key (step C op s)
      \<le> level rate burst t0 key s + (t1 - t0) * rate - of_int (granted C key op s)"
    using left(1) tokens(1) by (simp add: algebra_simps)
  moreover have "bucket_ok rate burst t1 key (step C op s)"
    using nb left now by (simp add: bucket_ok_def)
  ultimately show ?thesis by blast
qed

text \<open>The readings of a run: in order, from \<open>t0\<close> to \<open>t1\<close>.\<close>

fun timed_run :: "real \<Rightarrow> real \<Rightarrow> state_op list \<Rightarrow> bool" where
  "timed_run t0 t1 [] = (t0 \<le> t1)"
| "timed_run t0 t1 (op # ops) =
     (let latest = foldr max (op_times op) t0 in op_within t0 t1 op \<and> timed_run latest t1 ops)"

lemma op_within_latest: "op_within t0 t1 op \<Longrightarrow> t0 \<le> t1 \<Longrightarrow>
    op_within t0 (foldr max (op_times op) t0) op \<and> t0 \<le> foldr max (op_times op) t0"
proof -
  have "(\<forall>t\<in>set ts. t \<le> foldr max ts a) \<and> a \<le> foldr max ts a" for ts :: "real list" and a
    by (induction ts) (auto simp: le_max_iff_disj)
  then show "op_within t0 t1 op \<Longrightarrow> t0 \<le> t1 \<Longrightarrow>
    op_within t0 (foldr max (op_times op) t0) op \<and> t0 \<le> foldr max (op_times op) t0"
    by (auto simp: op_within_def list_all_iff)
qed

lemma timed_run_le: "timed_run t0 t1 ops \<Longrightarrow> t0 \<le> t1"
proof (induction ops arbitrary: t0)
  case (Cons op ops)
  have "a \<le> foldr max ts a" for ts :: "real list" and a by (induction ts) (auto simp: le_max_iff_disj)
  with Cons show ?case by (auto simp: Let_def intro: order_trans)
qed simp

lemma run_level:
  assumes rate: "0 < rate" and burst: "0 \<le> burst"
  shows "backend_inv C s \<Longrightarrow> bucket_ok rate burst t0 key s \<Longrightarrow> timed_run t0 t1 ops \<Longrightarrow>
    list_all (obeys_policy key rate burst) ops \<Longrightarrow>
    bucket_ok rate burst t1 key (run C ops s) \<and>
    level rate burst t1 key (run C ops s)
      \<le> level rate burst t0 key s + (t1 - t0) * rate - of_int (grants C key ops s)"
proof (induction ops arbitrary: s t0)
  case Nil
  then have "bucket_ok rate burst t1 key s" by (auto simp: bucket_ok_def split: option.splits)
  with level_grows [OF rate, of t0 t1 burst key s] Nil show ?case by simp
next
  case (Cons op ops)
  let ?t = "foldr max (op_times op) t0" and ?s = "step C op s"
  from Cons.prems(3) have w: "op_within t0 t1 op" and rest: "timed_run ?t t1 ops" by (simp_all add: Let_def)
  have t: "op_within t0 ?t op" "t0 \<le> ?t"
    using op_within_latest [OF w timed_run_le [OF Cons.prems(3)]] by blast+
  have inv: "backend_inv C ?s" using step_keeps [OF Cons.prems(1)] by (simp add: keeps_def)
  have one: "bucket_ok rate burst ?t key ?s \<and>
      level rate burst ?t key ?s \<le> level rate burst t0 key s + (?t - t0) * rate - of_int (granted C key op s)"
  proof (cases "is_bucket_op key op")
    case True
    then obtain now r b cost where op: "op = Op_Token_Bucket now key r b cost"
      by (cases op) (auto simp: is_bucket_op_def)
    with Cons.prems(4) have "r = rate" "b = burst" "0 \<le> cost" by (auto simp: obeys_policy_def)
    with bucket_step_level [OF Cons.prems(1) rate burst _ Cons.prems(2), of cost now ?t] t op
    show ?thesis by (simp add: op_within_def)
  next
    case False
    then have "granted C key op s = 0" by (cases op) (auto simp: is_bucket_op_def granted_def)
    with other_step_level [OF Cons.prems(1) False rate Cons.prems(2) t] show ?thesis by simp
  qed
  with Cons.IH [OF inv _ rest] Cons.prems(4) show ?case by (simp add: algebra_simps)
qed

text \<open>
  C34: the rate limit. Take any run whose clock readings do not go back and whose calls on
  \<open>key\<close> use one policy; split it anywhere. The costs granted to the key in the second part
  are at most its burst plus what the rate refills between the two end times, whatever
  other operations, sweeps and refusals run in between.
\<close>

theorem token_bucket_rate_bound:
  assumes "reachable C s" and "dict_get (buckets s) key = None" and "0 < rate" and "0 \<le> burst"
    and "list_all (obeys_policy key rate burst) (prior @ ops)"
    and "timed_run t t0 prior" and "timed_run t0 t1 ops"
  shows "of_int (grants C key ops (run C prior s)) \<le> of_int burst + (t1 - t0) * rate"
proof -
  have inv: "backend_inv C s" using reachable_inv [OF assms(1)] by blast
  have "bucket_ok rate burst t key s" using assms(2) by (simp add: bucket_ok_def)
  from run_level [OF assms(3,4) inv this assms(6)] assms(5)
  have ok: "bucket_ok rate burst t0 key (run C prior s)" by simp
  have inv': "backend_inv C (run C prior s)" using run_keeps [OF inv] by (simp add: keeps_def)
  from run_level [OF assms(3,4) inv' ok assms(7)] assms(5)
  have "bucket_ok rate burst t1 key (run C ops (run C prior s))"
    "level rate burst t1 key (run C ops (run C prior s)) \<le> level rate burst t0 key (run C prior s)
      + (t1 - t0) * rate - of_int (grants C key ops (run C prior s))" by simp_all
  moreover have "level rate burst t0 key (run C prior s) \<le> of_int burst"
    by (auto simp: level_def split: option.split)
  moreover have "0 \<le> level rate burst t1 key (run C ops (run C prior s))"
    using calculation(1) assms(3,4) by (auto simp: level_def bucket_ok_def split: option.splits)
  ultimately show ?thesis by simp
qed

theorem token_bucket_rate_bound_witness:
  "grants demo_config ''k'' [Op_Token_Bucket 0 ''k'' 1 2 1, Op_Token_Bucket 0 ''k'' 1 2 1,
      Op_Token_Bucket 0 ''k'' 1 2 1, Op_Token_Bucket 1 ''k'' 1 2 1] demo_state = 3 \<and>
   real_of_int (grants demo_config ''k'' [Op_Token_Bucket 0 ''k'' 1 2 1, Op_Token_Bucket 0 ''k'' 1 2 1,
      Op_Token_Bucket 0 ''k'' 1 2 1, Op_Token_Bucket 1 ''k'' 1 2 1] demo_state) \<le> 2 + (1 - 0) * 1"
proof (intro conjI)
  let ?ops = "[Op_Token_Bucket 0 ''k'' 1 2 1, Op_Token_Bucket 0 ''k'' 1 2 1,
      Op_Token_Bucket 0 ''k'' 1 2 1, Op_Token_Bucket 1 ''k'' 1 2 1]"
  show "grants demo_config ''k'' ?ops demo_state = 3" by code_simp
  have r: "reachable demo_config demo_state" by (rule reachable.start [OF demo_init])
  have n: "dict_get (buckets demo_state) ''k'' = None" by (simp add: demo_state_def)
  have "timed_run 0 1 ?ops" by (simp add: op_within_def)
  moreover have "list_all (obeys_policy ''k'' 1 2) ([] @ ?ops)" by (simp add: obeys_policy_def)
  ultimately show "real_of_int (grants demo_config ''k'' ?ops demo_state) \<le> 2 + (1 - 0) * 1"
    using token_bucket_rate_bound [OF r n, of 1 2 "[]" ?ops 0 0 1] by simp
qed

end
