(* ===== verification/Egress.thy ===== *)
theory Egress
  imports Py_Url
begin

text \<open>
  Upstream URL validation, \<open>shared/url_validation.py\<close>: which hosts and addresses an outbound
  request may target. The resolver is an argument: the addresses of a name, or \<open>None\<close> for
  \<open>socket.gaierror\<close>. The CIDR texts of \<open>allowed_private_subnets\<close> are given as parsed
  networks (\<open>ip_network(cidr, strict=False)\<close> masks the host bits, as \<open>in_network\<close> does). A
  \<open>ValueError\<close> is a constructor of \<open>egress_error\<close>, one per message.
\<close>

section \<open>Policy data\<close>

record egress_config =
  allowed_private_subnets :: "ip_network list"
  allowed_internal_domains :: "string list"

datatype egress_error =
    Url_Required
  | Unsupported_Scheme string
  | No_Hostname
  | Blocked_Hostname
  | Blocked_Address
  | Malformed_Url url_error

definition blocked_networks :: "ip_network list" where
  "blocked_networks =
     [Net4 (v4 0 0 0 0) 8, Net4 (v4 10 0 0 0) 8, Net4 (v4 100 64 0 0) 10, Net4 (v4 127 0 0 0) 8,
      Net4 (v4 169 254 0 0) 16, Net4 (v4 172 16 0 0) 12, Net4 (v4 192 0 0 0) 24,
      Net4 (v4 192 168 0 0) 16, Net4 (v4 198 18 0 0) 15, Net4 (v4 224 0 0 0) 4,
      Net4 (v4 240 0 0 0) 4, Net6 (v6 [] []) 128, Net6 (v6 [] [1]) 128,
      Net6 (v6 [0x64, 0xFF9B, 1] []) 48, Net6 (v6 [0xFC00] []) 7, Net6 (v6 [0xFE80] []) 10,
      Net6 (v6 [0xFEC0] []) 10, Net6 (v6 [0xFF00] []) 8]"

definition low32_embedding_networks :: "ip_network list" where
  "low32_embedding_networks = [Net6 (v6 [0x64, 0xFF9B] []) 96, Net6 (v6 [] []) 96]"

definition blocked_hostnames :: "string list" where
  "blocked_hostnames = [''metadata.google.internal'', ''metadata.internal'']"

definition metadata_ips :: "ip_addr list" where
  "metadata_ips =
     [IPv4 (v4 169 254 169 254), IPv6 (v6 [0xFD00, 0xEC2] [0x254]) None, IPv4 (v4 169 254 170 2),
      IPv4 (v4 169 254 170 23), IPv6 (v6 [0xFD00, 0xEC2] [0x23]) None, IPv4 (v4 100 100 100 200),
      IPv4 (v4 192 0 0 192), IPv4 (v4 168 63 129 16)]"

section \<open>Address classification\<close>

definition normalise_hostname :: "string \<Rightarrow> string" where
  "normalise_hostname hostname = rstrip_char (CHR ''.'') (str_lower hostname)"

definition strip_scope :: "ip_addr \<Rightarrow> ip_addr" where
  "strip_scope a = (case a of IPv6 n (Some _) \<Rightarrow> IPv6 n None | _ \<Rightarrow> a)"

definition embedded_ipv4 :: "ip_addr \<Rightarrow> ip_addr option" where
  "embedded_ipv4 a =
     (case a of
        IPv4 _ \<Rightarrow> None
      | IPv6 n _ \<Rightarrow>
          (case ipv4_mapped a of
             Some m \<Rightarrow> Some m
           | None \<Rightarrow>
               (case sixtofour a of
                  Some m \<Rightarrow> Some m
                | None \<Rightarrow>
                    if in_any a low32_embedding_networks then Some (IPv4 (n mod 2 ^ 32)) else None)))"

definition is_blocked_address :: "ip_addr \<Rightarrow> bool" where
  "is_blocked_address a =
     (if \<not> is_global a \<or> is_multicast a \<or> is_reserved a \<or> is_unspecified a \<or> is_loopback a
        \<or> is_link_local a \<or> is_private a
      then True else in_any a blocked_networks)"

definition domain_matches :: "string \<Rightarrow> string \<Rightarrow> bool" where
  "domain_matches lower_hostname sfx =
     (let bare = lstrip_char (CHR ''.'') (normalise_hostname sfx) in
      lower_hostname = bare \<or> suffix (CHR ''.'' # bare) lower_hostname)"

definition is_exempted :: "ip_addr \<Rightarrow> string option \<Rightarrow> egress_config option \<Rightarrow> bool" where
  "is_exempted a hostname egress =
     (case egress of
        None \<Rightarrow> False
      | Some cfg \<Rightarrow>
          if \<not> in_any a (allowed_private_subnets cfg) then False
          else (case hostname of
                  None \<Rightarrow> True
                | Some h \<Rightarrow>
                    list_ex (domain_matches (normalise_hostname h)) (allowed_internal_domains cfg)))"

definition egress_target :: "ip_addr \<Rightarrow> ip_addr" where
  "egress_target a = (case embedded_ipv4 a of Some e \<Rightarrow> e | None \<Rightarrow> a)"

definition assert_ip_allowed ::
  "ip_addr \<Rightarrow> egress_config option \<Rightarrow> string option \<Rightarrow> (egress_error, unit) result" where
  "assert_ip_allowed a egress hostname =
     (let a = strip_scope a; target = egress_target a in
      if a \<in> set metadata_ips \<or> target \<in> set metadata_ips then Inl Blocked_Address
      else if \<not> is_blocked_address target then Inr ()
      else if is_exempted target hostname egress then Inr ()
      else Inl Blocked_Address)"

definition check_ip ::
  "ip_addr \<Rightarrow> egress_config option \<Rightarrow> string option \<Rightarrow> (egress_error, unit) result" where
  "check_ip a egress hostname = assert_ip_allowed a egress hostname"

section \<open>URLs\<close>

definition http_prefixed :: "string \<Rightarrow> bool" where
  "http_prefixed url = (prefix ''http://'' url \<or> prefix ''https://'' url)"

definition check_url_without_dns ::
  "string \<Rightarrow> egress_config option \<Rightarrow> (egress_error, string \<times> string option) result" where
  "check_url_without_dns raw_url egress =
     (if raw_url = [] \<or> str_strip raw_url = [] then Inl Url_Required
      else
        (let url = str_strip raw_url;
             url = (if http_prefixed url then url else ''https://'' @ url)
         in case urlparse url of
              Inl e \<Rightarrow> Inl (Malformed_Url e)
            | Inr (parsed, _) \<Rightarrow>
                if url_scheme parsed \<notin> {''http'', ''https''} then Inl (Unsupported_Scheme (url_scheme parsed))
                else (case netloc_hostname (url_netloc parsed) of
                        None \<Rightarrow> Inl No_Hostname
                      | Some hostname \<Rightarrow>
                          if hostname = [] then Inl No_Hostname
                          else if normalise_hostname hostname \<in> set blocked_hostnames then Inl Blocked_Hostname
                          else (case parse_ip hostname of
                                  None \<Rightarrow> Inr (url, Some hostname)
                                | Some a \<Rightarrow> rbind (check_ip a egress None) (\<lambda>_. Inr (url, None))))))"

fun check_resolved ::
  "string \<Rightarrow> ip_addr list \<Rightarrow> egress_config option \<Rightarrow> (egress_error, unit) result" where
  "check_resolved hostname [] egress = Inr ()"
| "check_resolved hostname (a # as) egress =
     rbind (check_ip a egress (Some hostname)) (\<lambda>_. check_resolved hostname as egress)"

definition resolve_and_check ::
  "(string \<Rightarrow> ip_addr list option) \<Rightarrow> string \<Rightarrow> egress_config option \<Rightarrow> (egress_error, unit) result" where
  "resolve_and_check resolve hostname egress =
     (case resolve hostname of None \<Rightarrow> Inr () | Some as \<Rightarrow> check_resolved hostname as egress)"

definition validate_upstream_url ::
  "(string \<Rightarrow> ip_addr list option) \<Rightarrow> string \<Rightarrow> egress_config option \<Rightarrow> (egress_error, string) result" where
  "validate_upstream_url resolve raw_url egress =
     rbind (check_url_without_dns raw_url egress) (\<lambda>(url, hostname).
       case hostname of
         None \<Rightarrow> Inr url
       | Some h \<Rightarrow> rbind (resolve_and_check resolve h egress) (\<lambda>_. Inr url))"

text \<open>The event-loop twin: the same checks, with the resolver's answer awaited inline.\<close>

definition validate_upstream_url_async ::
  "(string \<Rightarrow> ip_addr list option) \<Rightarrow> string \<Rightarrow> egress_config option \<Rightarrow> (egress_error, string) result" where
  "validate_upstream_url_async resolve raw_url egress =
     (case check_url_without_dns raw_url egress of
        Inl e \<Rightarrow> Inl e
      | Inr (url, None) \<Rightarrow> Inr url
      | Inr (url, Some h) \<Rightarrow>
          (case resolve h of
             None \<Rightarrow> Inr url
           | Some as \<Rightarrow>
               (case check_resolved h as egress of Inl e \<Rightarrow> Inl e | Inr _ \<Rightarrow> Inr url)))"

section \<open>The policy\<close>

text \<open>What an address must satisfy, stated without the code's order of checks.\<close>

definition address_permitted :: "egress_config option \<Rightarrow> string option \<Rightarrow> ip_addr \<Rightarrow> bool" where
  "address_permitted egress hostname a =
     (strip_scope a \<notin> set metadata_ips \<and> egress_target (strip_scope a) \<notin> set metadata_ips \<and>
      (\<not> is_blocked_address (egress_target (strip_scope a)) \<or>
       is_exempted (egress_target (strip_scope a)) hostname egress))"

lemma assert_ip_allowed_iff:
  "assert_ip_allowed a egress hostname = Inr () \<longleftrightarrow> address_permitted egress hostname a"
  by (auto simp: assert_ip_allowed_def address_permitted_def Let_def)

lemma assert_ip_allowed_error:
  "assert_ip_allowed a egress hostname = Inl e \<Longrightarrow> e = Blocked_Address"
  by (auto simp: assert_ip_allowed_def Let_def split: if_splits)

lemma check_resolved_iff:
  "check_resolved hostname as egress = Inr () \<longleftrightarrow> list_all (address_permitted egress (Some hostname)) as"
  by (induction as) (auto simp: check_ip_def rbind_Inr_iff assert_ip_allowed_iff)

text \<open>The host of an accepted URL, as the checks see it.\<close>

definition url_host :: "string \<Rightarrow> string option" where
  "url_host url =
     (case urlparse url of Inl _ \<Rightarrow> None | Inr (parsed, _) \<Rightarrow> netloc_hostname (url_netloc parsed))"

lemma check_url_accepts:
  assumes "check_url_without_dns raw egress = Inr (url, h)"
  shows "\<exists>host. url_host url = Some host \<and> normalise_hostname host \<notin> set blocked_hostnames \<and>
    (case parse_ip host of
       Some a \<Rightarrow> h = None \<and> address_permitted egress None a
     | None \<Rightarrow> h = Some host)"
proof -
  let ?u = "if http_prefixed (str_strip raw) then str_strip raw else ''https://'' @ str_strip raw"
  from assms have nonempty: "\<not> (raw = [] \<or> str_strip raw = [])"
    by (auto simp: check_url_without_dns_def)
  obtain parsed params where parsed: "urlparse ?u = Inr (parsed, params)"
    using assms nonempty by (cases "urlparse ?u") (auto simp: check_url_without_dns_def Let_def)
  obtain host where host: "netloc_hostname (url_netloc parsed) = Some host"
    using assms nonempty parsed
    by (cases "netloc_hostname (url_netloc parsed)")
       (simp_all add: check_url_without_dns_def Let_def split: if_splits)
  note run = assms [unfolded check_url_without_dns_def Let_def if_not_P [OF nonempty] parsed
      sum.case prod.case host option.case check_ip_def]
  have url: "url = ?u"
    using run by (auto simp: rbind_Inr_iff split: if_splits option.splits)
  have "normalise_hostname host \<notin> set blocked_hostnames"
    using run by (simp split: if_splits)
  moreover have "case parse_ip host of
       Some a \<Rightarrow> h = None \<and> address_permitted egress None a
     | None \<Rightarrow> h = Some host"
    using run
    by (cases "parse_ip host") (auto simp: rbind_Inr_iff assert_ip_allowed_iff split: if_splits)
  moreover have "url_host url = Some host"
    by (simp only: url url_host_def parsed sum.case prod.case host)
  ultimately show ?thesis by blast
qed

text \<open>
  C15: an accepted URL targets nothing the policy forbids. Its host is not a metadata name;
  an IP literal, and every address a name resolves to, is neither a metadata endpoint nor an
  embedding of one, and is public or opted in, for a name only together with a domain
  suffix.
\<close>

theorem accepted_url_targets_permitted:
  assumes "validate_upstream_url resolve raw egress = Inr url"
  shows "\<exists>host. url_host url = Some host \<and> normalise_hostname host \<notin> set blocked_hostnames \<and>
    (case parse_ip host of
       Some a \<Rightarrow> address_permitted egress None a
     | None \<Rightarrow>
         (case resolve host of
            None \<Rightarrow> True
          | Some as \<Rightarrow> list_all (address_permitted egress (Some host)) as))"
proof -
  obtain h where h: "check_url_without_dns raw egress = Inr (url, h)"
    and rest: "case h of None \<Rightarrow> True | Some host \<Rightarrow> resolve_and_check resolve host egress = Inr ()"
    using assms by (auto simp: validate_upstream_url_def rbind_Inr_iff split: option.splits)
  from check_url_accepts [OF h] rest show ?thesis
    by (auto simp: resolve_and_check_def check_resolved_iff split: option.splits)
qed

text \<open>An internal host opted in by suffix and subnet, and one that resolves outside the subnet.\<close>

definition demo_egress :: egress_config where
  "demo_egress = \<lparr>allowed_private_subnets = [Net4 (v4 10 20 0 0) 16],
     allowed_internal_domains = [''.corp.example'']\<rparr>"

definition demo_resolver :: "string \<Rightarrow> ip_addr list option" where
  "demo_resolver h =
     (if h = ''api.corp.example'' then Some [IPv4 (v4 10 20 1 7)]
      else if h = ''db.corp.example'' then Some [IPv4 (v4 10 20 1 7), IPv4 (v4 10 30 0 1)]
      else None)"

lemma demo_accepted:
  "validate_upstream_url demo_resolver ''api.corp.example/v1'' (Some demo_egress)
     = Inr ''https://api.corp.example/v1''"
  by code_simp

lemma accepted_url_targets_permitted_witness:
  "\<exists>host. url_host ''https://api.corp.example/v1'' = Some host \<and>
    normalise_hostname host \<notin> set blocked_hostnames \<and>
    (case parse_ip host of
       Some a \<Rightarrow> address_permitted (Some demo_egress) None a
     | None \<Rightarrow>
         (case demo_resolver host of
            None \<Rightarrow> True
          | Some as \<Rightarrow> list_all (address_permitted (Some demo_egress) (Some host)) as))"
  by (rule accepted_url_targets_permitted [OF demo_accepted])

text \<open>One address outside the subnet rejects the name; the literal is not opened by a suffix.\<close>

lemma one_blocked_address_rejects:
  "validate_upstream_url demo_resolver ''db.corp.example'' (Some demo_egress) = Inl Blocked_Address"
  "validate_upstream_url demo_resolver ''https://10.30.0.1'' (Some demo_egress) = Inl Blocked_Address"
  "validate_upstream_url demo_resolver ''http://[::ffff:169.254.169.254]/latest'' (Some demo_egress)
     = Inl Blocked_Address"
  by code_simp+

lemma validate_upstream_url_async_eq:
  "validate_upstream_url_async resolve raw egress = validate_upstream_url resolve raw egress"
proof (cases "check_url_without_dns raw egress")
  case (Inl e)
  then show ?thesis
    by (simp only: validate_upstream_url_async_def validate_upstream_url_def sum.case rbind_simps)
next
  case (Inr p)
  obtain url h where p: "p = (url, h)" by (cases p)
  show ?thesis
    unfolding validate_upstream_url_async_def validate_upstream_url_def resolve_and_check_def
      Inr p rbind_def sum.case prod.case
    by (cases h; cases "resolve (the h)") simp_all
qed

section \<open>Embedded IPv4 addresses\<close>

text \<open>
  The IPv6 forms that reach \<open>v\<close>: IPv4-mapped, NAT64, IPv4-compatible, and 6to4 with any interface
  part. A zone id does not matter.
\<close>

definition v6_forms :: "nat \<Rightarrow> nat \<Rightarrow> nat list" where
  "v6_forms v low =
     [0xFFFF * 2 ^ 32 + v, 0x64FF9B * 2 ^ 96 + v, v, 0x2002 * 2 ^ 112 + v * 2 ^ 80 + low]"

lemma packed_fields:
  fixes P Q :: nat
  assumes "v < Q" and "low < P"
  shows "(a * (P * Q) + v * P + low) div P mod Q = v"
    and "(a * (P * Q) + v * P + low) div (P * Q) = a"
proof -
  have "a * (P * Q) + v * P + low = low + (a * Q + v) * P" by (simp add: algebra_simps)
  then have d: "(a * (P * Q) + v * P + low) div P = a * Q + v" using assms by simp
  then show "(a * (P * Q) + v * P + low) div P mod Q = v" using assms(1) by simp
  have "(a * (P * Q) + v * P + low) div (P * Q) = (a * Q + v) div Q"
    by (simp only: div_mult2_eq d)
  also have "\<dots> = a" using assms(1) by simp
  finally show "(a * (P * Q) + v * P + low) div (P * Q) = a" .
qed

lemma sixtofour_parts:
  fixes v low :: nat
  assumes "v < 2 ^ 32" and "low < 2 ^ 80"
  shows "(a * 2 ^ 112 + v * 2 ^ 80 + low) div 2 ^ 80 mod 2 ^ 32 = v"
    and "(a * 2 ^ 112 + v * 2 ^ 80 + low) div 2 ^ 112 = a"
  using packed_fields [OF assms, of a] by (simp_all flip: power_add)

lemma packed_low:
  fixes v M :: nat
  assumes "v < M"
  shows "(c * M + v) div M = c" and "(c * M + v) mod M = v"
  using assms by simp_all

lemma egress_target_forms:
  assumes v: "v < 2 ^ 32" and low: "low < 2 ^ 80" and n: "n \<in> set (v6_forms v low)"
  shows "egress_target (IPv6 n scope) = IPv4 v"
proof -
  consider "n = 0xFFFF * 2 ^ 32 + v" | "n = 0x64FF9B * 2 ^ 96 + v" | "n = v"
    | "n = 0x2002 * 2 ^ 112 + v * 2 ^ 80 + low"
    using n by (auto simp: v6_forms_def)
  then show ?thesis
  proof cases
    case 1
    with packed_low [where c = "0xFFFF", OF v] show ?thesis
      by (simp add: egress_target_def embedded_ipv4_def ipv4_mapped_def)
  next
    case 2
    have "(0x64FF9B * 2 ^ 64 * 2 ^ 32 + v) div 2 ^ 112 = 100"
      using v by (simp add: div_nat_eqI)
    with 2 packed_low [where c = "0x64FF9B * 2 ^ 64", OF v] show ?thesis
      by (simp add: egress_target_def embedded_ipv4_def ipv4_mapped_def sixtofour_def
          in_any_def low32_embedding_networks_def v6_def)
  next
    case 3
    with v show ?thesis
      by (simp add: egress_target_def embedded_ipv4_def ipv4_mapped_def sixtofour_def
          in_any_def low32_embedding_networks_def v6_def)
  next
    case 4
    have "(0x2002 * 2 ^ 112 + v * 2 ^ 80 + low) div 2 ^ 32 \<noteq> 0xFFFF" by simp
    with sixtofour_parts [OF v low] show ?thesis
      by (simp only: 4 egress_target_def embedded_ipv4_def ipv4_mapped_def sixtofour_def
          ip_addr.case if_False if_True option.case simp_thms)
  qed
qed

lemma egress_embeddings:
  assumes "v < 2 ^ 32" and "low < 2 ^ 80"
  shows "list_all (\<lambda>n. assert_ip_allowed (IPv6 n scope) egress hostname
      = assert_ip_allowed (IPv4 v) egress hostname) (v6_forms v low)"
proof -
  have "assert_ip_allowed (IPv6 n scope) egress hostname = assert_ip_allowed (IPv4 v) egress hostname"
    if n: "n \<in> set (v6_forms v low)" for n
  proof -
    have target: "egress_target (strip_scope (IPv6 n scope)) = IPv4 v"
      using egress_target_forms [OF assms n] by (cases scope) (simp_all add: strip_scope_def)
    have "egress_target (IPv6 (v6 [0xFD00, 0xEC2] [0x254]) None) = IPv6 (v6 [0xFD00, 0xEC2] [0x254]) None"
      and "egress_target (IPv6 (v6 [0xFD00, 0xEC2] [0x23]) None) = IPv6 (v6 [0xFD00, 0xEC2] [0x23]) None"
      by code_simp+
    with target have "strip_scope (IPv6 n scope) \<noteq> IPv6 (v6 [0xFD00, 0xEC2] [0x254]) None"
      and "strip_scope (IPv6 n scope) \<noteq> IPv6 (v6 [0xFD00, 0xEC2] [0x23]) None"
      by auto
    moreover have "strip_scope (IPv6 n scope) \<noteq> IPv4 w" for w
      by (cases scope) (simp_all add: strip_scope_def)
    ultimately have "strip_scope (IPv6 n scope) \<notin> set metadata_ips"
      by (simp add: metadata_ips_def)
    moreover have "egress_target (strip_scope (IPv4 v)) = IPv4 v" and "strip_scope (IPv4 v) = IPv4 v"
      by (simp_all add: egress_target_def embedded_ipv4_def strip_scope_def)
    ultimately show ?thesis by (simp add: assert_ip_allowed_def Let_def target)
  qed
  then show ?thesis by (simp add: list_all_iff)
qed

text \<open>
  An IPv6 address that embeds an IPv4 address is judged exactly as that IPv4 address, in all
  four embeddings and with or without a zone id.
\<close>

theorem embeddings_judged_as_ipv4:
  assumes "v < 2 ^ 32" and "low < 2 ^ 80"
  shows "list_all (\<lambda>n. assert_ip_allowed (IPv6 n scope) egress hostname
      = assert_ip_allowed (IPv4 v) egress hostname) (v6_forms v low)"
  by (rule egress_embeddings [OF assms])

lemma embeddings_judged_as_ipv4_witness:
  "list_all (\<lambda>n. assert_ip_allowed (IPv6 n (Some ''eth0'')) (Some demo_egress) None
      = assert_ip_allowed (IPv4 (v4 10 20 1 7)) (Some demo_egress) None) (v6_forms (v4 10 20 1 7) 1)"
  by (rule embeddings_judged_as_ipv4) (simp_all add: v4_def)

text \<open>
  The metadata endpoints are refused whatever subnets and domains the installation opts in,
  as literals, behind a name, with a zone id, and through every IPv4 embedding.
\<close>

theorem metadata_never_exempted:
  "list_all (\<lambda>m. assert_ip_allowed m egress hostname = Inl Blocked_Address \<and>
      (case m of
         IPv4 v \<Rightarrow> list_all (\<lambda>n. assert_ip_allowed (IPv6 n scope) egress hostname = Inl Blocked_Address)
                     (v6_forms v (low mod 2 ^ 80))
       | IPv6 n _ \<Rightarrow> assert_ip_allowed (IPv6 n scope) egress hostname = Inl Blocked_Address))
    metadata_ips"
proof -
  have hard: "assert_ip_allowed m egress hostname = Inl Blocked_Address"
    if "strip_scope m \<in> set metadata_ips" for m
    using that by (simp add: assert_ip_allowed_def Let_def)
  have strip: "strip_scope (IPv4 v) = IPv4 v" "strip_scope (IPv6 n s) = IPv6 n None" for v n s
    by (cases s; simp add: strip_scope_def)+
  have "case m of IPv4 v \<Rightarrow> v < 2 ^ 32 | IPv6 _ s \<Rightarrow> s = None" if "m \<in> set metadata_ips" for m
    using that by (auto simp: metadata_ips_def v4_def)
  then have "assert_ip_allowed m egress hostname = Inl Blocked_Address \<and>
      (case m of
         IPv4 v \<Rightarrow> list_all (\<lambda>n. assert_ip_allowed (IPv6 n scope) egress hostname = Inl Blocked_Address)
                     (v6_forms v (low mod 2 ^ 80))
       | IPv6 n _ \<Rightarrow> assert_ip_allowed (IPv6 n scope) egress hostname = Inl Blocked_Address)"
    if m: "m \<in> set metadata_ips" for m
    using m egress_embeddings [of _ "low mod 2 ^ 80" scope egress hostname] hard [of m]
      hard [of "IPv6 _ scope"]
    by (cases m) (fastforce simp: strip)+
  then show ?thesis by (simp add: list_all_iff)
qed

end
