(* ===== verification/Store_Interface.thy ===== *)
theory Store_Interface
  imports State_Properties
begin

text \<open>
  The roles of the shared-state backend that its clients rely on: the protocols
  \<open>KeyValueStore\<close> and \<open>AtomicStore\<close> of \<open>shared/state/backend.py\<close> as a record of operations, their
  laws as the locales \<open>ttl_store\<close> and \<open>counting_store\<close>, and the in-process backend as an
  instance. A client's definitions take the record, its lemmas are proved from the laws.
\<close>

section \<open>Operations\<close>

text \<open>Each operation takes its clock readings first, in the order it makes them.\<close>

record 's state_store =
  sto_get :: "real \<Rightarrow> string \<Rightarrow> 's \<Rightarrow> string option \<times> 's"
  sto_set :: "real \<Rightarrow> string \<Rightarrow> string \<Rightarrow> real \<Rightarrow> 's \<Rightarrow> (state_error, unit) result \<times> 's"
  sto_claim :: "real \<Rightarrow> real \<Rightarrow> string \<Rightarrow> string \<Rightarrow> real \<Rightarrow> 's \<Rightarrow> (state_error, bool) result \<times> 's"
  sto_incr :: "real \<Rightarrow> real \<Rightarrow> string \<Rightarrow> real \<Rightarrow> int \<Rightarrow> 's \<Rightarrow> (state_error, int) result \<times> 's"

definition memory_store :: "backend_config \<Rightarrow> backend state_store" where
  "memory_store C =
     \<lparr>sto_get = kv_get C, sto_set = kv_set C, sto_claim = set_if_absent C, sto_incr = incr_with_ttl C\<rparr>"

definition is_capacity_error :: "state_error \<Rightarrow> bool" where
  "is_capacity_error e = (case e of Capacity_Error _ _ _ _ \<Rightarrow> True | Value_Error \<Rightarrow> False)"

text \<open>
  What an operation keeps: the invariant, and every entry live at all its clock readings except
  the keys it writes.
\<close>

definition preserved ::
  "('s \<Rightarrow> bool) \<Rightarrow> ('s \<Rightarrow> string \<Rightarrow> (string \<times> real) option) \<Rightarrow> real list \<Rightarrow> string list \<Rightarrow> 's \<Rightarrow> 's \<Rightarrow> bool" where
  "preserved ok entry_of ts keys s s' =
     (ok s' \<and>
      (\<forall>k v d. k \<notin> set keys \<longrightarrow> entry_of s k = Some (v, d) \<longrightarrow> (\<forall>t\<in>set ts. t < d) \<longrightarrow>
         entry_of s' k = Some (v, d)))"

lemma preservedD:
  "preserved ok entry_of ts keys s s' \<Longrightarrow> ok s'"
  "preserved ok entry_of ts keys s s' \<Longrightarrow> k \<notin> set keys \<Longrightarrow> entry_of s k = Some (v, d) \<Longrightarrow>
     \<forall>t\<in>set ts. t < d \<Longrightarrow> entry_of s' k = Some (v, d)"
  by (auto simp: preserved_def)

lemma preserved_trans:
  "preserved ok entry_of ts keys s s' \<Longrightarrow> preserved ok entry_of ts' keys' s' s'' \<Longrightarrow>
     preserved ok entry_of (ts @ ts') (keys @ keys') s s''"
  unfolding preserved_def by (metis UnI1 UnI2 set_append)

lemma preserved_mono:
  "preserved ok entry_of ts keys s s' \<Longrightarrow> set ts \<subseteq> set ts' \<Longrightarrow> set keys \<subseteq> set keys' \<Longrightarrow>
     preserved ok entry_of ts' keys' s s'"
  unfolding preserved_def by blast

lemma preserved_refl: "ok s \<Longrightarrow> preserved ok entry_of [] [] s s"
  by (simp add: preserved_def)

section \<open>Laws\<close>

text \<open>
  \<open>entry_of\<close> is the value and deadline stored under a key, whether or not the deadline has
  passed; an entry is live at \<open>t\<close> when \<open>t\<close> is before its deadline.
\<close>

locale ttl_store =
  fixes st :: "'s state_store"
    and ok :: "'s \<Rightarrow> bool"
    and entry_of :: "'s \<Rightarrow> string \<Rightarrow> (string \<times> real) option"
  assumes get_live: "ok s \<Longrightarrow> entry_of s k = Some (v, d) \<Longrightarrow> now < d \<Longrightarrow> sto_get st now k s = (Some v, s)"
    and get_dead: "ok s \<Longrightarrow> \<nexists>v d. entry_of s k = Some (v, d) \<and> now < d \<Longrightarrow> fst (sto_get st now k s) = None"
    and get_keeps: "ok s \<Longrightarrow> preserved ok entry_of [now] [] s (snd (sto_get st now k s))"
    and set_written: "ok s \<Longrightarrow> sto_set st now k v ttl s = (Inr u, s') \<Longrightarrow> entry_of s' k = Some (v, now + ttl)"
    and set_keeps: "ok s \<Longrightarrow> preserved ok entry_of [now] [k] s (snd (sto_set st now k v ttl s))"
    and set_refused: "ok s \<Longrightarrow> sto_set st now k v ttl s = (Inl e, s') \<Longrightarrow>
      is_capacity_error e \<and> preserved ok entry_of [now] [] s s'"
    and set_smaller: "ok s \<Longrightarrow> entry_of s k = Some (v, d) \<Longrightarrow> now < d \<Longrightarrow> length v' \<le> length v \<Longrightarrow>
      fst (sto_set st now k v' ttl s) = Inr ()"
    and claim_live: "ok s \<Longrightarrow> entry_of s k = Some (v, d) \<Longrightarrow> now < d \<Longrightarrow>
      sto_claim st now now' k w ttl s = (Inr False, s)"
    and claim_written: "ok s \<Longrightarrow> sto_claim st now now' k v ttl s = (Inr True, s') \<Longrightarrow>
      entry_of s' k = Some (v, now' + ttl)"
    and claim_dead: "ok s \<Longrightarrow> sto_claim st now now' k v ttl s = (Inr False, s') \<Longrightarrow>
      \<exists>v d. entry_of s k = Some (v, d) \<and> now < d"
    and claim_refused: "ok s \<Longrightarrow> sto_claim st now now' k v ttl s = (Inl e, s') \<Longrightarrow>
      is_capacity_error e \<and> (entry_of s k = None \<longrightarrow> entry_of s' k = None)"
    and claim_keeps: "ok s \<Longrightarrow>
      preserved ok entry_of [now, now'] [] s (snd (sto_claim st now now' k v ttl s))"

text \<open>Counters: texts of numbers that an increment advances without moving the deadline.\<close>

locale counting_store = ttl_store st ok entry_of
  for st :: "'s state_store" and ok and entry_of +
  assumes incr_live: "ok s \<Longrightarrow> entry_of s k = Some (str_of_int n, d) \<Longrightarrow> now' < d \<Longrightarrow>
      sto_incr st now now' k ttl a s = (Inr m, s') \<Longrightarrow> m = n + a \<and> entry_of s' k = Some (str_of_int m, d)"
    and incr_dead: "ok s \<Longrightarrow> \<nexists>v d. entry_of s k = Some (v, d) \<and> now' < d \<Longrightarrow>
      sto_incr st now now' k ttl a s = (Inr m, s') \<Longrightarrow>
      m = a \<and> entry_of s' k = Some (str_of_int m, now + ttl)"
    and incr_refused: "ok s \<Longrightarrow> sto_incr st now now' k ttl a s = (Inl e, s') \<Longrightarrow> 0 < a \<Longrightarrow>
      is_capacity_error e \<or> (\<exists>v d. entry_of s k = Some (v, d) \<and> now' < d \<and> py_int v = None)"
    and incr_frame: "ok s \<Longrightarrow> k' \<noteq> k \<Longrightarrow> entry_of s k' = None \<Longrightarrow>
      entry_of (snd (sto_incr st now now' k ttl a s)) k' = None"
    and incr_keeps: "ok s \<Longrightarrow> preserved ok entry_of [now, now'] [k] s (snd (sto_incr st now now' k ttl a s))"

section \<open>The in-process backend\<close>

definition memory_inv :: "backend_config \<Rightarrow> backend \<Rightarrow> bool" where
  "memory_inv C s = (backend_inv C s \<and> within_budgets C s)"

definition memory_entry :: "backend \<Rightarrow> string \<Rightarrow> (string \<times> real) option" where
  "memory_entry s k = map_option (\<lambda>e. (e_value e, e_expires e)) (dict_get (kv s) k)"

lemma memory_entry_Some:
  "memory_entry s k = Some (v, d) \<longleftrightarrow> (\<exists>e. dict_get (kv s) k = Some e \<and> e_value e = v \<and> e_expires e = d)"
  by (auto simp: memory_entry_def)

lemma keeps_preserved:
  assumes "keeps C ts keys s s'" and "memory_inv C s"
  shows "preserved (memory_inv C) memory_entry ts keys s s'"
  using assms unfolding preserved_def keeps_def memory_inv_def memory_entry_Some by blast

lemma store_error_capacity:
  assumes "backend_inv C s" "store C key val x now s = (Inl e, s')"
  shows "is_capacity_error e"
  using assms by (cases rule: store_cases) (auto simp: is_capacity_error_def dest: refuse_facts(9))

lemma store_refused_keeps:
  assumes "backend_inv C s" "store C key val x now s = (Inl e, s')"
  shows "keeps C [now] [] s s'"
  using store_inv [OF assms] store_within [OF assms(1) _ assms(2)] store_frame [OF assms]
  by (intro keepsI) auto

lemma store_adds_only_key:
  assumes "backend_inv C s" "store C key val x now s = (r, s')" "k \<noteq> key \<or> (\<exists>e. r = Inl e)"
    "dict_get (kv s) k = None"
  shows "dict_get (kv s') k = None"
  using assms(1,2)
proof (cases rule: store_cases)
  case (written s1)
  have "dict_get (kv s1) k = None"
    using dropped_sub [OF written(3)] assms(4) by (cases "dict_get (kv s1) k") auto
  then show ?thesis
    using commit_entry_spec [OF written(2) refl, of key val x] written(1,5) assms(3) by auto
next
  case (refused s1 r1 s2 r2 d s3)
  have s2: "backend_inv C s2" "dropped now s1 s2"
    using reclaim_spec [of C s1 r1 now] refused(1,4) by (metis prod.collapse)+
  then have "dropped now s2 s3" using reclaim_spec refused(6) by blast
  with refused(2) s2 have "dropped now s s3" using dropped_trans by blast
  then have "dict_get (kv s3) k = None"
    using dropped_sub assms(4) by (cases "dict_get (kv s3) k") fastforce+
  then show ?thesis using refuse_facts(1) [OF refused(7)] by simp
qed

lemma incr_adds_only_key:
  assumes "backend_inv C s" "k \<noteq> key" "dict_get (kv s) k = None"
  shows "dict_get (kv (snd (incr C now now' key ttl a s))) k = None"
proof -
  obtain q s1 where l: "live_entry C now' key s = (q, s1)" by fastforce
  note L = live_entry_spec [OF assms(1) l]
  have n: "dict_get (kv s1) k = None"
    using L dropped_sub assms(3) by (cases "dict_get (kv s1) k") fastforce+
  show ?thesis
  proof (cases "case q of None \<Rightarrow> Some 0 | Some e \<Rightarrow> py_int (e_value e)")
    case None
    with l n show ?thesis by (simp add: incr_def)
  next
    case (Some c)
    obtain r s2 where st: "store C key (str_of_int (c + a))
        (case q of Some e \<Rightarrow> e_expires e | None \<Rightarrow> now + ttl) now s1 = (r, s2)" by fastforce
    have "dict_get (kv s2) k = None" using store_adds_only_key [OF _ st _ n] assms(2) L by blast
    with l Some st show ?thesis by (simp add: incr_def Let_def)
  qed
qed

lemma claim_cases:
  assumes "backend_inv C s" "set_if_absent C now now' key val ttl s = (r, s')"
  obtains (taken) "r = Inr True" | (held) f where "r = Inr False" "s' = s" "dict_get (kv s) key = Some f"
      "now < e_expires f"
    | (refused) e where "r = Inl e" "is_capacity_error e"
      "dict_get (kv s) key = None \<Longrightarrow> dict_get (kv s') key = None"
proof -
  obtain q s1 where l: "live_entry C now key s = (q, s1)" by (cases "live_entry C now key s")
  note L = live_entry_spec [OF assms(1) l]
  show thesis
  proof (cases q)
    case (Some f)
    with L l assms(2) show thesis by (intro held [of f]) (auto simp: set_if_absent_def)
  next
    case None
    obtain p s2 where p: "store C key val (now' + ttl) now' s1 = (p, s2)"
      by (cases "store C key val (now' + ttl) now' s1")
    have inv1: "backend_inv C s1" using L by blast
    show thesis
    proof (cases p)
      case (Inl e)
      have "dict_get (kv s2) key = None" if "dict_get (kv s) key = None"
        by (rule store_adds_only_key [OF inv1 p]) (use Inl L None in auto)
      with Inl None l p assms(2) store_error_capacity [OF inv1 p [unfolded Inl]] show thesis
        by (intro refused [of e]) (auto simp: set_if_absent_def)
    next
      case (Inr u)
      with None l p assms(2) show thesis by (intro taken) (auto simp: set_if_absent_def)
    qed
  qed
qed

lemma kv_get_dead:
  assumes "backend_inv C s" "\<nexists>v d. memory_entry s k = Some (v, d) \<and> now < d"
  shows "fst (kv_get C now k s) = None"
proof -
  obtain q s1 where l: "live_entry C now k s = (q, s1)" by (cases "live_entry C now k s")
  from live_entry_spec [OF assms(1) l] assms(2) have "q = None"
    by (cases q) (auto simp: memory_entry_Some)
  with l show ?thesis by (simp add: kv_get_def)
qed

interpretation memory_store: ttl_store "memory_store C" "memory_inv C" memory_entry
proof
  fix s k v d now now' w ttl s' e u v' and n :: int
  assume ok: "memory_inv C s"
  note b = ok [unfolded memory_inv_def, THEN conjunct1]
  show "memory_entry s k = Some (v, d) \<Longrightarrow> now < d \<Longrightarrow> sto_get (memory_store C) now k s = (Some v, s)"
    using claim_held(2) [of s k _ now C] by (auto simp: memory_store_def memory_entry_Some)
  show "\<nexists>v d. memory_entry s k = Some (v, d) \<and> now < d \<Longrightarrow> fst (sto_get (memory_store C) now k s) = None"
    using kv_get_dead [OF b] by (simp add: memory_store_def)
  show "preserved (memory_inv C) memory_entry [now] [] s (snd (sto_get (memory_store C) now k s))"
    using keeps_preserved [OF kv_get_keeps [OF b] ok] by (simp add: memory_store_def)
  show "sto_set (memory_store C) now k v ttl s = (Inr u, s') \<Longrightarrow> memory_entry s' k = Some (v, now + ttl)"
    using store_written [OF b] by (auto simp: memory_store_def kv_set_def memory_entry_Some)
  show "preserved (memory_inv C) memory_entry [now] [k] s (snd (sto_set (memory_store C) now k v ttl s))"
    using keeps_preserved [OF store_keeps [OF b] ok]
    by (simp add: memory_store_def kv_set_def) (metis prod.collapse)
  show "sto_set (memory_store C) now k v ttl s = (Inl e, s') \<Longrightarrow>
      is_capacity_error e \<and> preserved (memory_inv C) memory_entry [now] [] s s'"
    using store_error_capacity [OF b] keeps_preserved [OF store_refused_keeps [OF b] ok]
    by (simp add: memory_store_def kv_set_def)
  show "memory_entry s k = Some (v, d) \<Longrightarrow> now < d \<Longrightarrow> length v' \<le> length v \<Longrightarrow>
      fst (sto_set (memory_store C) now k v' ttl s) = Inr ()"
    using overwrite_fits [of C s k _ now v' ttl] ok
    by (auto simp: memory_store_def memory_entry_Some memory_inv_def)
  show "memory_entry s k = Some (v, d) \<Longrightarrow> now < d \<Longrightarrow>
      sto_claim (memory_store C) now now' k w ttl s = (Inr False, s)"
    using claim_held(1) by (auto simp: memory_store_def memory_entry_Some)
  show "sto_claim (memory_store C) now now' k v ttl s = (Inr True, s') \<Longrightarrow>
      memory_entry s' k = Some (v, now' + ttl)"
    using claim_taken [OF b] by (auto simp: memory_store_def memory_entry_Some)
  show "\<exists>v d. memory_entry s k = Some (v, d) \<and> now < d"
    if "sto_claim (memory_store C) now now' k v ttl s = (Inr False, s')"
    using b that [unfolded memory_store_def state_store.simps]
    by (cases rule: claim_cases) (auto simp: memory_entry_Some)
  show "is_capacity_error e \<and> (memory_entry s k = None \<longrightarrow> memory_entry s' k = None)"
    if "sto_claim (memory_store C) now now' k v ttl s = (Inl e, s')"
    using b that [unfolded memory_store_def state_store.simps]
    by (cases rule: claim_cases) (auto simp: memory_entry_def)
  show "preserved (memory_inv C) memory_entry [now, now'] [] s (snd (sto_claim (memory_store C) now now' k v ttl s))"
    using keeps_preserved [OF set_if_absent_keeps [OF b] ok] by (simp add: memory_store_def)
qed

interpretation memory_counters: counting_store "memory_store C" "memory_inv C" memory_entry
proof
  fix s k k' d now now' ttl a m s' e and n :: int
  assume ok: "memory_inv C s"
  note b = ok [unfolded memory_inv_def, THEN conjunct1]
  obtain q s1 where l: "live_entry C now' k s = (q, s1)" by (cases "live_entry C now' k s")
  note L = live_entry_spec [OF b l]
  have run: "incr C now now' k ttl a s = (Inr m, s')"
    if "sto_incr (memory_store C) now now' k ttl a s = (Inr m, s')" for m s'
    using that by (auto simp: memory_store_def incr_with_ttl_def split: if_splits)
  show "m = n + a \<and> memory_entry s' k = Some (str_of_int m, d)"
    if "memory_entry s k = Some (str_of_int n, d)" "now' < d"
      "sto_incr (memory_store C) now now' k ttl a s = (Inr m, s')"
    using incr_spec [OF b run [OF that(3)]] that(1,2) L l by (cases q) (auto simp: memory_entry_Some)
  show "m = a \<and> memory_entry s' k = Some (str_of_int m, now + ttl)"
    if "\<nexists>v d. memory_entry s k = Some (v, d) \<and> now' < d"
      "sto_incr (memory_store C) now now' k ttl a s = (Inr m, s')"
    using incr_spec [OF b run [OF that(2)]] that(1) L l by (cases q) (auto simp: memory_entry_Some)
  show "preserved (memory_inv C) memory_entry [now, now'] [k] s (snd (sto_incr (memory_store C) now now' k ttl a s))"
    using keeps_preserved [OF incr_keeps [OF b] ok] ok
    by (auto simp: memory_store_def incr_with_ttl_def intro: preserved_mono [OF preserved_refl])
  show "k' \<noteq> k \<Longrightarrow> memory_entry s k' = None \<Longrightarrow>
      memory_entry (snd (sto_incr (memory_store C) now now' k ttl a s)) k' = None"
    using incr_adds_only_key [OF b] by (simp add: memory_store_def incr_with_ttl_def memory_entry_def)
  show "is_capacity_error e \<or> (\<exists>v d. memory_entry s k = Some (v, d) \<and> now' < d \<and> py_int v = None)"
    if r: "sto_incr (memory_store C) now now' k ttl a s = (Inl e, s')" and a: "0 < a"
  proof -
    have r: "incr C now now' k ttl a s = (Inl e, s')"
      using r a by (simp add: memory_store_def incr_with_ttl_def)
    have inv1: "backend_inv C s1" using L by blast
    show ?thesis
    proof (cases "case q of None \<Rightarrow> Some 0 | Some e \<Rightarrow> py_int (e_value e)")
      case None
      with L show ?thesis by (cases q) (auto simp: memory_entry_Some)
    next
      case (Some c)
      with r l show ?thesis
        using store_error_capacity [OF inv1, of k]
        by (auto simp: incr_def Let_def rbind_def split: prod.splits sum.splits)
    qed
  qed
qed

section \<open>Interleaved operations\<close>

text \<open>Operations that touch none of the keys and read the clock before \<open>t\<close>.\<close>

definition leaves :: "real \<Rightarrow> string list \<Rightarrow> state_op list \<Rightarrow> bool" where
  "leaves t keys ops =
     list_all (\<lambda>op. list_all (\<lambda>k. k \<notin> set (op_overwrites op)) keys \<and> list_all (\<lambda>x. x < t) (op_times op)) ops"

lemma run_preserved:
  "memory_inv C s \<Longrightarrow> preserved (memory_inv C) memory_entry (concat (map op_times ops))
     (concat (map op_overwrites ops)) s (run C ops s)"
  using keeps_preserved [OF run_keeps] by (simp add: memory_inv_def)

lemma run_leaves:
  assumes "memory_inv C s" and "leaves t keys ops"
  shows "memory_inv C (run C ops s)"
    and "k \<in> set keys \<Longrightarrow> memory_entry s k = Some (v, d) \<Longrightarrow> t \<le> d \<Longrightarrow>
      memory_entry (run C ops s) k = Some (v, d)"
  using preservedD [OF run_preserved [OF assms(1), of ops]] assms(2)
  by (fastforce simp: leaves_def list_all_iff)+

lemma reachable_memory_inv: "reachable C s \<Longrightarrow> memory_inv C s"
  using reachable_inv by (simp add: memory_inv_def)

end
