(* ===== verification/Py_Json.thy ===== *)
theory Py_Json
  imports Py_Int Py_Ip
begin

text \<open>
  \<open>json.dumps\<close> with the separators \<open>(",", ":")\<close> and \<open>json.loads\<close>, as far as the program's
  records need them: objects, arrays, strings, integers, booleans and null. \<open>dumps\<close> escapes
  everything outside printable ASCII. Float literals are not part of the model, so \<open>loads\<close>
  of a text that holds one is \<open>None\<close>, as it is for a \<open>\u\<close> escape above code point 255.
  \<open>loads\<close> runs on fuel bounded by the length of the text.
\<close>

datatype json =
    JNull
  | JBool bool
  | JInt int
  | JStr string
  | JList "json list"
  | JObj "(string \<times> json) list"

abbreviation quote_char :: char where "quote_char \<equiv> CHR 0x22"
abbreviation backslash_char :: char where "backslash_char \<equiv> CHR 0x5C"

section \<open>Writing\<close>

definition hex_char :: "nat \<Rightarrow> char" where
  "hex_char d = (if d < 10 then char_of (48 + d) else char_of (87 + d))"

definition json_escape :: "char \<Rightarrow> string" where
  "json_escape c =
     (let n = char_code c in
      if c = quote_char \<or> c = backslash_char then [backslash_char, c]
      else if n = 10 then [backslash_char, CHR ''n'']
      else if n = 13 then [backslash_char, CHR ''r'']
      else if n = 9 then [backslash_char, CHR ''t'']
      else if n = 12 then [backslash_char, CHR ''f'']
      else if n = 8 then [backslash_char, CHR ''b'']
      else if 32 \<le> n \<and> n \<le> 126 then [c]
      else [backslash_char, CHR ''u'', CHR ''0'', CHR ''0'', hex_char (n div 16), hex_char (n mod 16)])"

definition json_quote :: "string \<Rightarrow> string" where
  "json_quote s = quote_char # concat (map json_escape s) @ [quote_char]"

fun json_dumps :: "json \<Rightarrow> string" where
  "json_dumps JNull = ''null''"
| "json_dumps (JBool b) = (if b then ''true'' else ''false'')"
| "json_dumps (JInt n) = str_of_int n"
| "json_dumps (JStr s) = json_quote s"
| "json_dumps (JList vs) = CHR ''['' # join_with (CHR '','') (map json_dumps vs) @ '']''"
| "json_dumps (JObj ms) =
     CHR ''{'' # join_with (CHR '','') (map (\<lambda>(k, v). json_quote k @ CHR '':'' # json_dumps v) ms) @ ''}''"

section \<open>Reading\<close>

definition json_truthy :: "json option \<Rightarrow> bool" where
  "json_truthy v =
     (case v of
        None \<Rightarrow> False
      | Some JNull \<Rightarrow> False
      | Some (JBool b) \<Rightarrow> b
      | Some (JInt n) \<Rightarrow> n \<noteq> 0
      | Some (JStr s) \<Rightarrow> s \<noteq> []
      | Some (JList vs) \<Rightarrow> vs \<noteq> []
      | Some (JObj ms) \<Rightarrow> ms \<noteq> [])"

definition json_space :: "char \<Rightarrow> bool" where
  "json_space c = (char_code c \<in> {32, 9, 10, 13})"

definition skip_ws :: "string \<Rightarrow> string" where
  "skip_ws s = dropWhile json_space s"

definition json_unescape :: "char \<Rightarrow> char option" where
  "json_unescape e =
     (if e = quote_char \<or> e = backslash_char \<or> e = CHR ''/'' then Some e
      else if e = CHR ''n'' then Some (char_of (10 :: nat))
      else if e = CHR ''r'' then Some (char_of (13 :: nat))
      else if e = CHR ''t'' then Some (char_of (9 :: nat))
      else if e = CHR ''f'' then Some (char_of (12 :: nat))
      else if e = CHR ''b'' then Some (char_of (8 :: nat))
      else None)"

definition hex4 :: "string \<Rightarrow> nat option" where
  "hex4 s = (if length s = 4 then digits_value hexdigit_val 16 0 s else None)"

text \<open>The text of a string literal after its opening quote.\<close>

function json_string :: "string \<Rightarrow> (string \<times> string) option" where
  "json_string s =
     (case s of
        [] \<Rightarrow> None
      | c # s1 \<Rightarrow>
          if c = quote_char then Some ([], s1)
          else if c = backslash_char then
            (case s1 of
               [] \<Rightarrow> None
             | e # s2 \<Rightarrow>
                 if e = CHR ''u'' then
                   (case hex4 (take 4 s2) of
                      None \<Rightarrow> None
                    | Some n \<Rightarrow>
                        if n < 256
                        then map_option (\<lambda>(t, r). (char_of n # t, r)) (json_string (drop 4 s2))
                        else None)
                 else (case json_unescape e of
                         None \<Rightarrow> None
                       | Some x \<Rightarrow> map_option (\<lambda>(t, r). (x # t, r)) (json_string s2)))
          else if char_code c < 32 then None
          else map_option (\<lambda>(t, r). (c # t, r)) (json_string s1))"
  by pat_completeness auto
termination
  by (relation "measure length") (auto split: list.splits)

declare json_string.simps [simp del]

definition json_nat :: "string \<Rightarrow> (nat \<times> string) option" where
  "json_nat s =
     (case s of
        [] \<Rightarrow> None
      | c # s1 \<Rightarrow>
          if c = CHR ''0'' then Some (0, s1)
          else (let ds = takeWhile (\<lambda>c. char_digit c \<noteq> None) s in
                case parse_nat ds of
                  None \<Rightarrow> None
                | Some n \<Rightarrow> Some (n, dropWhile (\<lambda>c. char_digit c \<noteq> None) s)))"

definition float_follows :: "string \<Rightarrow> bool" where
  "float_follows r = (r \<noteq> [] \<and> hd r \<in> {CHR ''.'', CHR ''e'', CHR ''E''})"

definition json_int :: "string \<Rightarrow> (int \<times> string) option" where
  "json_int s =
     (let neg = (s \<noteq> [] \<and> hd s = CHR ''-'') in
      case json_nat (if neg then tl s else s) of
        None \<Rightarrow> None
      | Some (n, r) \<Rightarrow>
          if float_follows r then None else Some (if neg then - int n else int n, r))"

definition expect :: "char \<Rightarrow> string \<Rightarrow> string option" where
  "expect c s = (case s of [] \<Rightarrow> None | x # r \<Rightarrow> if x = c then Some r else None)"

fun json_value :: "nat \<Rightarrow> string \<Rightarrow> (json \<times> string) option"
  and json_elements :: "nat \<Rightarrow> string \<Rightarrow> (json list \<times> string) option"
  and json_members :: "nat \<Rightarrow> string \<Rightarrow> ((string \<times> json) list \<times> string) option"
where
  "json_value 0 s = None"
| "json_value (Suc n) s =
     (case skip_ws s of
        [] \<Rightarrow> None
      | c # r \<Rightarrow>
          if c = quote_char then map_option (\<lambda>(t, r). (JStr t, r)) (json_string r)
          else if c = CHR ''{'' then
            (case expect (CHR ''}'') (skip_ws r) of
               Some r \<Rightarrow> Some (JObj [], r)
             | None \<Rightarrow> map_option (\<lambda>(ms, r). (JObj (dict_update_all [] ms), r)) (json_members n r))
          else if c = CHR ''['' then
            (case expect (CHR '']'') (skip_ws r) of
               Some r \<Rightarrow> Some (JList [], r)
             | None \<Rightarrow> map_option (\<lambda>(vs, r). (JList vs, r)) (json_elements n r))
          else if prefix ''null'' (c # r) then Some (JNull, drop 3 r)
          else if prefix ''true'' (c # r) then Some (JBool True, drop 3 r)
          else if prefix ''false'' (c # r) then Some (JBool False, drop 4 r)
          else map_option (\<lambda>(i, r). (JInt i, r)) (json_int (c # r)))"
| "json_elements 0 s = None"
| "json_elements (Suc n) s =
     (case json_value n s of
        None \<Rightarrow> None
      | Some (v, r) \<Rightarrow>
          (case expect (CHR '','') (skip_ws r) of
             Some r \<Rightarrow> map_option (\<lambda>(vs, r). (v # vs, r)) (json_elements n r)
           | None \<Rightarrow> map_option (\<lambda>r. ([v], r)) (expect (CHR '']'') (skip_ws r))))"
| "json_members 0 s = None"
| "json_members (Suc n) s =
     (case Option.bind (expect quote_char (skip_ws s)) json_string of
        None \<Rightarrow> None
      | Some (k, r) \<Rightarrow>
          (case Option.bind (expect (CHR '':'') (skip_ws r)) (json_value n) of
             None \<Rightarrow> None
           | Some (v, r) \<Rightarrow>
               (case expect (CHR '','') (skip_ws r) of
                  Some r \<Rightarrow> map_option (\<lambda>(ms, r). ((k, v) # ms, r)) (json_members n r)
                | None \<Rightarrow> map_option (\<lambda>r. ([(k, v)], r)) (expect (CHR ''}'') (skip_ws r)))))"

definition json_loads :: "string \<Rightarrow> json option" where
  "json_loads s =
     (case json_value (2 * length s + 2) s of
        Some (v, r) \<Rightarrow> if skip_ws r = [] then Some v else None
      | None \<Rightarrow> None)"

section \<open>Reading back what was written\<close>

text \<open>Objects as Python builds them: no key twice.\<close>

fun json_ok :: "json \<Rightarrow> bool" where
  "json_ok (JList vs) = list_all json_ok vs"
| "json_ok (JObj ms) = (dict_ok ms \<and> list_all (\<lambda>(k, v). json_ok v) ms)"
| "json_ok _ = True"

fun json_fuel :: "json \<Rightarrow> nat" where
  "json_fuel (JList vs) = Suc (sum_list (map (\<lambda>v. Suc (json_fuel v)) vs))"
| "json_fuel (JObj ms) = Suc (sum_list (map (\<lambda>(k, v). Suc (json_fuel v)) ms))"
| "json_fuel _ = 1"

text \<open>What may follow a value inside a document.\<close>

definition value_end :: "string \<Rightarrow> bool" where
  "value_end r = (r = [] \<or> hd r \<in> {CHR '','', CHR '']'', CHR ''}''})"

lemma hexdigit_hex_char: "d < 16 \<Longrightarrow> hexdigit_val (hex_char d) = Some d"
  by (auto simp: hexdigit_val_def hex_char_def char_code_char_of Let_def)

lemma hex4_escape:
  "n < 256 \<Longrightarrow> hex4 [CHR ''0'', CHR ''0'', hex_char (n div 16), hex_char (n mod 16)] = Some n"
proof -
  assume "n < 256"
  moreover have "hexdigit_val (CHR ''0'') = Some 0" by (simp add: hexdigit_val_def char_code_def)
  ultimately show ?thesis by (simp add: hex4_def hexdigit_hex_char)
qed

lemma json_string_quote: "json_string (quote_char # r) = Some ([], r)"
  by (subst json_string.simps) simp

lemma json_string_short_escape:
  assumes "json_unescape e = Some x"
  shows "json_string (backslash_char # e # r) = map_option (\<lambda>(t, r). (x # t, r)) (json_string r)"
proof -
  have "e \<noteq> CHR ''u''" using assms by (auto simp: json_unescape_def)
  with assms show ?thesis by (subst json_string.simps) simp
qed

lemma json_string_hex_escape:
  "n < 256 \<Longrightarrow> json_string (backslash_char # CHR ''u'' # CHR ''0'' # CHR ''0'' # hex_char (n div 16)
      # hex_char (n mod 16) # r) = map_option (\<lambda>(t, r). (char_of n # t, r)) (json_string r)"
  by (subst json_string.simps) (simp add: hex4_escape)

lemma json_string_plain:
  "c \<noteq> quote_char \<Longrightarrow> c \<noteq> backslash_char \<Longrightarrow> 32 \<le> char_code c \<Longrightarrow>
     json_string (c # r) = map_option (\<lambda>(t, r). (c # t, r)) (json_string r)"
  by (subst json_string.simps) simp

lemma json_string_escape:
  "json_string (json_escape c @ r) = map_option (\<lambda>(t, r). (c # t, r)) (json_string r)"
proof -
  consider "c = quote_char \<or> c = backslash_char" | "char_code c \<in> {10, 13, 9, 12, 8}"
      "\<not> (c = quote_char \<or> c = backslash_char)"
    | "\<not> (c = quote_char \<or> c = backslash_char)" "char_code c \<notin> {10, 13, 9, 12, 8}"
    by blast
  then show ?thesis
  proof cases
    case 1
    then have "json_unescape c = Some c" by (auto simp: json_unescape_def)
    with 1 show ?thesis by (simp add: json_escape_def json_string_short_escape Let_def)
  next
    case 2
    have "c = char_of (char_code c)" by simp
    with 2 have "c \<in> {char_of (10 :: nat), char_of (13 :: nat), char_of (9 :: nat), char_of (12 :: nat), char_of (8 :: nat)}"
      by (metis insertE insertI1 insertI2 singletonD)
    with 2 show ?thesis
      by (auto simp: json_escape_def json_string_short_escape Let_def json_unescape_def char_code_char_of)
  next
    case 3
    then show ?thesis
      using json_string_hex_escape [OF char_code_less [of c], of r] json_string_plain [of c r]
      by (auto simp: json_escape_def Let_def)
  qed
qed

lemma json_string_quoted: "json_string (concat (map json_escape s) @ quote_char # r) = Some (s, r)"
  by (induction s) (simp_all add: json_string_quote json_string_escape)

lemma str_of_nat_hd: "hd (str_of_nat n) = CHR ''0'' \<longleftrightarrow> n = 0"
proof (induction n rule: str_of_nat.induct)
  case (1 n)
  show ?case
  proof (cases "n < 10")
    case True
    have zero: "digit_char 0 = CHR ''0''" and "char_digit (CHR ''0'') = Some 0"
      using char_of_char_code [of "CHR ''0''"] by (simp_all add: digit_char_def char_digit_def char_code_def)
    then have "digit_char n = CHR ''0'' \<longleftrightarrow> n = 0"
      using char_digit_char [OF True] by auto
    with True show ?thesis by (simp add: str_of_nat.simps [of n])
  next
    case False
    with 1 show ?thesis using str_of_nat_digits [of "n div 10"] by (simp add: str_of_nat.simps [of n])
  qed
qed

lemma json_int_dumps:
  assumes "value_end r"
  shows "json_int (str_of_int n @ r) = Some (n, r)"
proof -
  have stop: "r = [] \<or> char_digit (hd r) = None" and float: "\<not> float_follows r"
    using assms by (auto simp: value_end_def char_digit_def char_code_def Let_def float_follows_def)
  let ?ds = "str_of_nat (nat \<bar>n\<bar>)"
  obtain c cs where ds: "?ds = c # cs" and all: "list_all is_digit_char ?ds"
    using str_of_nat_digits [of "nat \<bar>n\<bar>"] by (cases ?ds) auto
  have dig: "char_digit x \<noteq> None" if "x \<in> set ?ds" for x
    using all that by (auto simp: list_all_iff is_digit_char_def char_digit_char)
  have split: "takeWhile (\<lambda>c. char_digit c \<noteq> None) (?ds @ r) = ?ds"
    "dropWhile (\<lambda>c. char_digit c \<noteq> None) (?ds @ r) = r"
    using dig stop by (cases r; simp add: takeWhile_append2 dropWhile_append2)+
  have num: "parse_nat ?ds = Some (nat \<bar>n\<bar>)"
    using parse_digits_str_of_nat [of False "nat \<bar>n\<bar>"] ds all digit_char_plain
    by (auto simp: parse_nat_def is_digit_char_def)
  have nat: "json_nat (?ds @ r) = Some (nat \<bar>n\<bar>, r)"
  proof (cases "c = CHR ''0''")
    case True
    with ds str_of_nat_hd [of "nat \<bar>n\<bar>"] have n: "n = 0" by simp
    moreover from this have "cs = []" using ds by (simp add: str_of_nat.simps [of 0])
    ultimately show ?thesis using True ds by (simp add: json_nat_def)
  next
    case False
    with ds split num show ?thesis by (simp add: json_nat_def Let_def)
  qed
  have c: "c \<noteq> CHR ''-''" using ds all digit_char_plain by (auto simp: is_digit_char_def)
  show ?thesis
  proof (cases "n < 0")
    case True
    with nat float show ?thesis by (simp add: json_int_def str_of_int_def Let_def)
  next
    case False
    with nat float ds c show ?thesis by (simp add: json_int_def str_of_int_def Let_def)
  qed
qed

lemma skip_ws_first: "s \<noteq> [] \<Longrightarrow> \<not> json_space (hd s) \<Longrightarrow> skip_ws s = s"
  by (cases s) (auto simp: skip_ws_def)

lemma str_of_int_hd: "\<exists>c cs. str_of_int n = c # cs \<and> (c = CHR ''-'' \<or> is_digit_char c)"
  using str_of_nat_digits [of "nat \<bar>n\<bar>"]
  by (cases "str_of_nat (nat \<bar>n\<bar>)") (auto simp: str_of_int_def)

lemma digit_char_not:
  "is_digit_char c \<Longrightarrow> 48 \<le> char_code c \<and> char_code c \<le> 57"
  by (auto simp: is_digit_char_def digit_char_def char_code_char_of)

lemma json_value_int:
  assumes "value_end r"
  shows "json_value (Suc n) (str_of_int i @ r) = Some (JInt i, r)"
proof -
  obtain c cs where s: "str_of_int i = c # cs" and c: "c = CHR ''-'' \<or> is_digit_char c"
    using str_of_int_hd by blast
  from c have code: "char_code c = 45 \<or> (48 \<le> char_code c \<and> char_code c \<le> 57)"
    using digit_char_not by (auto simp: char_code_def)
  then have "\<not> json_space c" by (auto simp: json_space_def)
  then have "skip_ws (str_of_int i @ r) = c # cs @ r" using s by (simp add: skip_ws_first)
  moreover have "c \<noteq> quote_char" "c \<noteq> CHR ''{''" "c \<noteq> CHR ''[''" "c \<noteq> CHR ''n''" "c \<noteq> CHR ''t''" "c \<noteq> CHR ''f''"
    using code by (auto simp: char_code_def)
  ultimately show ?thesis using json_int_dumps [OF assms, of i] s by simp
qed

lemma json_dumps_first:
  "\<exists>c cs. json_dumps v = c # cs \<and> \<not> json_space c \<and> c \<noteq> CHR '']'' \<and> c \<noteq> CHR ''}''"
proof (cases v)
  case (JInt i)
  obtain c cs where s: "str_of_int i = c # cs" and c: "c = CHR ''-'' \<or> is_digit_char c"
    using str_of_int_hd by blast
  from c have "char_code c = 45 \<or> (48 \<le> char_code c \<and> char_code c \<le> 57)"
    using digit_char_not by (auto simp: char_code_def)
  with JInt s show ?thesis by (auto simp: json_space_def char_code_def)
qed (auto simp: json_space_def json_quote_def char_code_def)

lemma expect_simps [simp]: "expect c (c # r) = Some r" "x \<noteq> c \<Longrightarrow> expect c (x # r) = None"
  by (simp_all add: expect_def)

lemma skip_ws_plain [simp]: "\<not> json_space c \<Longrightarrow> skip_ws (c # r) = c # r"
  by (simp add: skip_ws_first)

lemma json_space_punctuation [simp]:
  "\<not> json_space (CHR '','')" "\<not> json_space (CHR '']'')" "\<not> json_space (CHR ''}'')"
  "\<not> json_space (CHR '':'')" "\<not> json_space quote_char" "\<not> json_space (CHR ''{'')"
  "\<not> json_space (CHR ''['')" "\<not> json_space (CHR ''n'')" "\<not> json_space (CHR ''t'')"
  "\<not> json_space (CHR ''f'')"
  by (simp_all add: json_space_def char_code_def)

lemma json_elements_dumps:
  assumes "\<And>v n r. v \<in> set vs \<Longrightarrow> json_fuel v \<le> n \<Longrightarrow> value_end r \<Longrightarrow>
      json_value n (json_dumps v @ r) = Some (v, r)"
    and "vs \<noteq> []" and "sum_list (map (\<lambda>v. Suc (json_fuel v)) vs) \<le> n"
  shows "json_elements n (join_with (CHR '','') (map json_dumps vs) @ CHR '']'' # r) = Some (vs, r)"
  using assms
proof (induction vs arbitrary: n)
  case (Cons v vs)
  obtain m where n: "n = Suc m" using Cons.prems(3) by (cases n) auto
  have v: "json_value m (json_dumps v @ r') = Some (v, r')" if "value_end r'" for r'
    using Cons.prems that n by simp
  show ?case
  proof (cases "vs = []")
    case True
    with v [of "CHR '']'' # r"] show ?thesis by (simp add: n value_end_def)
  next
    case False
    have "json_elements m (join_with (CHR '','') (map json_dumps vs) @ CHR '']'' # r) = Some (vs, r)"
      by (rule Cons.IH) (use Cons.prems False n in auto)
    with False v [of "CHR '','' # join_with (CHR '','') (map json_dumps vs) @ CHR '']'' # r"]
    show ?thesis by (simp add: n value_end_def join_with_Cons)
  qed
qed simp

lemma json_members_dumps:
  assumes "\<And>k v n r. (k, v) \<in> set ms \<Longrightarrow> json_fuel v \<le> n \<Longrightarrow> value_end r \<Longrightarrow>
      json_value n (json_dumps v @ r) = Some (v, r)"
    and "ms \<noteq> []" and "sum_list (map (\<lambda>(k, v). Suc (json_fuel v)) ms) \<le> n"
  shows "json_members n (join_with (CHR '','') (map (\<lambda>(k, v). json_quote k @ CHR '':'' # json_dumps v) ms)
      @ CHR ''}'' # r) = Some (ms, r)"
  using assms
proof (induction ms arbitrary: n)
  case (Cons p ms)
  obtain k v where p: "p = (k, v)" by (cases p)
  obtain m where n: "n = Suc m" using Cons.prems(3) p by (cases n) auto
  have v: "json_value m (json_dumps v @ r') = Some (v, r')" if "value_end r'" for r'
  proof (rule Cons.prems(1) [of k])
    show "json_fuel v \<le> m" using Cons.prems(3) n p by simp
  qed (use p that in simp_all)
  show ?case
  proof (cases "ms = []")
    case True
    with v [of "CHR ''}'' # r"] show ?thesis
      by (simp add: n p value_end_def json_quote_def json_string_quoted)
  next
    case False
    have "json_members m (join_with (CHR '','') (map (\<lambda>(k, v). json_quote k @ CHR '':'' # json_dumps v) ms)
      @ CHR ''}'' # r) = Some (ms, r)"
      by (rule Cons.IH) (use Cons.prems False n p in auto)
    with False v [of "CHR '','' # join_with (CHR '','') (map (\<lambda>(k, v). json_quote k @ CHR '':'' # json_dumps v) ms)
      @ CHR ''}'' # r"]
    show ?thesis by (simp add: n p value_end_def join_with_Cons json_quote_def json_string_quoted)
  qed
qed simp

lemma dict_set_fresh: "k \<notin> fst ` set d \<Longrightarrow> dict_set k v d = d @ [(k, v)]"
  by (induction d) auto

lemma dict_rebuild:
  "dict_ok ms \<Longrightarrow> fst ` set d \<inter> fst ` set ms = {} \<Longrightarrow> dict_update_all d ms = d @ ms"
proof (induction ms arbitrary: d)
  case Nil
  then show ?case by (simp add: dict_update_all_def)
next
  case (Cons p ms)
  obtain k v where p: "p = (k, v)" by (cases p)
  have "dict_update_all d (p # ms) = dict_update_all (d @ [(k, v)]) ms"
    using Cons.prems by (simp add: dict_update_all_def p dict_set_fresh)
  also have "\<dots> = (d @ [(k, v)]) @ ms" by (rule Cons.IH) (use Cons.prems p in auto)
  finally show ?case by (simp add: p)
qed

lemma json_value_atoms:
  assumes "value_end r"
  shows "json_value (Suc n) (json_dumps JNull @ r) = Some (JNull, r)"
    and "json_value (Suc n) (json_dumps (JBool b) @ r) = Some (JBool b, r)"
    and "json_value (Suc n) (json_dumps (JInt i) @ r) = Some (JInt i, r)"
    and "json_value (Suc n) (json_dumps (JStr s) @ r) = Some (JStr s, r)"
  using json_value_int [OF assms, of n i]
  by (simp_all add: json_quote_def json_string_quoted del: json_value.simps(2) add: json_value.simps(2) [of n "_ # _"])

lemma json_value_dumps:
  "json_ok v \<Longrightarrow> json_fuel v \<le> n \<Longrightarrow> value_end r \<Longrightarrow> json_value n (json_dumps v @ r) = Some (v, r)"
proof (induction v arbitrary: n r)
  case (JList vs)
  obtain m where n: "n = Suc m" using JList.prems(2) by (cases n) auto
  show ?case
  proof (cases "vs = []")
    case True
    then show ?thesis by (simp add: n)
  next
    case False
    obtain v vs' where vs: "vs = v # vs'" using False by (cases vs) auto
    obtain c cs where c: "json_dumps v = c # cs" "\<not> json_space c" "c \<noteq> CHR '']''"
      using json_dumps_first by blast
    have first: "\<exists>cs'. join_with (CHR '','') (map json_dumps vs) = c # cs'"
      by (cases vs') (auto simp: vs c)
    have "json_elements m (join_with (CHR '','') (map json_dumps vs) @ CHR '']'' # r) = Some (vs, r)"
      by (rule json_elements_dumps) (use JList False n in \<open>auto simp: list_all_iff\<close>)
    with first c show ?thesis by (auto simp: n)
  qed
next
  case (JObj ms)
  obtain m where n: "n = Suc m" using JObj.prems(2) by (cases n) auto
  show ?case
  proof (cases "ms = []")
    case True
    then show ?thesis by (simp add: n)
  next
    case False
    obtain p ms' where ms: "ms = p # ms'" using False by (cases ms) auto
    have first: "\<exists>cs'. join_with (CHR '','') (map (\<lambda>(k, v). json_quote k @ CHR '':'' # json_dumps v) ms)
        = quote_char # cs'"
      by (cases p; cases ms') (auto simp: ms json_quote_def)
    have "json_members m (join_with (CHR '','') (map (\<lambda>(k, v). json_quote k @ CHR '':'' # json_dumps v) ms)
        @ CHR ''}'' # r) = Some (ms, r)"
    proof (rule json_members_dumps)
      show "json_value i (json_dumps v @ r) = Some (v, r)"
        if "(k, v) \<in> set ms" "json_fuel v \<le> i" "value_end r" for k v i r
        by (rule JObj.IH [of "(k, v)"]) (use that JObj.prems(1) in \<open>auto simp: list_all_iff\<close>)
    qed (use JObj.prems False n in auto)
    moreover have "dict_update_all [] ms = ms" using dict_rebuild [of ms "[]"] JObj.prems by simp
    ultimately show ?thesis using first by (auto simp: n)
  qed
next
  case JNull
  with json_value_atoms(1) show ?case by (cases n) (simp_all del: json_value.simps)
next
  case (JBool b)
  with json_value_atoms(2) show ?case by (cases n) (simp_all del: json_value.simps json_dumps.simps)
next
  case (JInt i)
  with json_value_atoms(3) show ?case by (cases n) (simp_all del: json_value.simps json_dumps.simps)
next
  case (JStr s)
  with json_value_atoms(4) show ?case by (cases n) (simp_all del: json_value.simps json_dumps.simps)
qed

lemma sum_list_fuel:
  "list_all (\<lambda>v. f v \<le> 2 * length (g v)) vs \<Longrightarrow>
     sum_list (map (\<lambda>v. Suc (f v)) vs) \<le> 2 * length (join_with c (map g vs)) + 2"
proof (induction vs)
  case (Cons v vs)
  then show ?case by (cases vs) (auto simp: join_with_Cons)
qed simp

lemma json_fuel_bound: "json_fuel v \<le> 2 * length (json_dumps v)"
proof (induction v)
  case (JList vs)
  then have "list_all (\<lambda>v. json_fuel v \<le> 2 * length (json_dumps v)) vs"
    by (simp add: list_all_iff)
  from sum_list_fuel [OF this, of "CHR '',''"] show ?case by simp
next
  case (JObj ms)
  then have "list_all (\<lambda>(k, v). json_fuel v \<le> 2 * length (json_quote k @ CHR '':'' # json_dumps v)) ms"
    by (fastforce simp: list_all_iff)
  with sum_list_fuel [of "\<lambda>(k, v). json_fuel v" "\<lambda>(k, v). json_quote k @ CHR '':'' # json_dumps v" ms "CHR '',''"]
  show ?case by (simp add: case_prod_unfold)
next
  case (JInt i)
  then show ?case using str_of_int_hd [of i] by auto
qed (auto simp: json_quote_def)

lemma json_loads_dumps [simp]: "json_ok v \<Longrightarrow> json_loads (json_dumps v) = Some v"
  using json_value_dumps [of v "2 * length (json_dumps v) + 2" "[]"] json_fuel_bound [of v]
  by (simp add: json_loads_def value_end_def skip_ws_def del: json_value.simps)

end
