(* ===== verification/Py_Base64.thy ===== *)
theory Py_Base64
  imports Prelude "HOL-Library.Code_Target_Nat"
begin

text \<open>
  \<open>base64.b64encode\<close> and \<open>base64.b64decode\<close> with \<open>validate=False\<close>, on byte strings: the decoder
  skips characters outside the alphabet and stops at a complete padding, and incorrect padding
  is \<open>None\<close> for \<open>binascii.Error\<close>.
\<close>

definition b64_char :: "nat \<Rightarrow> char" where
  "b64_char v =
     char_of (if v < 26 then 65 + v else if v < 52 then 71 + v else if v < 62 then v - 4
              else if v = 62 then 43 else 47)"

definition b64_val :: "char \<Rightarrow> nat option" where
  "b64_val c =
     (let n = char_code c in
      if 65 \<le> n \<and> n \<le> 90 then Some (n - 65)
      else if 97 \<le> n \<and> n \<le> 122 then Some (n - 71)
      else if 48 \<le> n \<and> n \<le> 57 then Some (n + 4)
      else if n = 43 then Some 62
      else if n = 47 then Some 63
      else None)"

fun b64encode :: "string \<Rightarrow> string" where
  "b64encode [] = []"
| "b64encode [a] =
     (let x = char_code a in [b64_char (x div 4), b64_char (x mod 4 * 16), CHR ''='', CHR ''=''])"
| "b64encode [a, b] =
     (let x = char_code a; y = char_code b in
      [b64_char (x div 4), b64_char (x mod 4 * 16 + y div 16), b64_char (y mod 16 * 4), CHR ''=''])"
| "b64encode (a # b # c # rest) =
     (let x = char_code a; y = char_code b; z = char_code c in
      [b64_char (x div 4), b64_char (x mod 4 * 16 + y div 16), b64_char (y mod 16 * 4 + z div 64),
       b64_char (z mod 64)] @ b64encode rest)"

text \<open>
  The decoder's loop: the position in the quadruple, the bits left over from the last character
  and the padding characters seen since.
\<close>

fun b64_loop :: "nat \<Rightarrow> nat \<Rightarrow> nat \<Rightarrow> string \<Rightarrow> string option" where
  "b64_loop pos left pads [] = (if pos = 0 then Some [] else None)"
| "b64_loop pos left pads (c # cs) =
     (if c = CHR ''='' then
        (if 2 \<le> pos \<and> 4 \<le> pos + (pads + 1) then Some []
         else b64_loop pos left (if 2 \<le> pos then pads + 1 else pads) cs)
      else
        (case b64_val c of
           None \<Rightarrow> b64_loop pos left pads cs
         | Some v \<Rightarrow>
             if pos = 0 then b64_loop 1 v 0 cs
             else if pos = 1 then
               map_option ((#) (char_of (left * 4 + v div 16))) (b64_loop 2 (v mod 16) 0 cs)
             else if pos = 2 then
               map_option ((#) (char_of (left * 16 + v div 4))) (b64_loop 3 (v mod 4) 0 cs)
             else map_option ((#) (char_of (left * 64 + v))) (b64_loop 0 0 0 cs)))"

definition b64decode :: "string \<Rightarrow> string option" where
  "b64decode s = b64_loop 0 0 0 s"

lemma b64_val_char:
  assumes "v < 64"
  shows "b64_val (b64_char v) = Some v" and "b64_char v \<noteq> CHR ''=''"
proof -
  have code: "char_code (b64_char v) = (if v < 26 then 65 + v else if v < 52 then 71 + v
      else if v < 62 then v - 4 else if v = 62 then 43 else 47)"
    using assms by (simp add: b64_char_def char_code_char_of)
  then show "b64_val (b64_char v) = Some v"
    using assms by (auto simp: b64_val_def Let_def)
  have "char_code (CHR ''='') = 61" by (simp add: char_code_def)
  with code show "b64_char v \<noteq> CHR ''=''" using assms by (auto split: if_splits)
qed

lemma b64_loop_val:
  "v < 64 \<Longrightarrow> b64_loop 0 l p (b64_char v # cs) = b64_loop 1 v 0 cs"
  "v < 64 \<Longrightarrow> b64_loop 1 l p (b64_char v # cs)
     = map_option ((#) (char_of (l * 4 + v div 16))) (b64_loop 2 (v mod 16) 0 cs)"
  "v < 64 \<Longrightarrow> b64_loop 2 l p (b64_char v # cs)
     = map_option ((#) (char_of (l * 16 + v div 4))) (b64_loop 3 (v mod 4) 0 cs)"
  "v < 64 \<Longrightarrow> b64_loop 3 l p (b64_char v # cs)
     = map_option ((#) (char_of (l * 64 + v))) (b64_loop 0 0 0 cs)"
  by (simp_all add: b64_val_char)

lemma byte_of_parts: "n = x \<Longrightarrow> x = char_code c \<Longrightarrow> char_of n = c"
  by simp

lemma b64_triple:
  fixes x y z :: nat
  assumes "x < 256" "y < 256" "z < 256"
  shows "x div 4 < 64" "x mod 4 * 16 + y div 16 < 64" "y mod 16 * 4 + z div 64 < 64" "z mod 64 < 64"
    and "x div 4 * 4 + (x mod 4 * 16 + y div 16) div 16 = x"
    and "(x mod 4 * 16 + y div 16) mod 16 * 16 + (y mod 16 * 4 + z div 64) div 4 = y"
    and "(y mod 16 * 4 + z div 64) mod 4 * 64 + z mod 64 = z"
proof -
  have y: "y div 16 < 16" and z: "z div 64 < 4" using assms by simp_all
  have m: "x mod 4 < 4" "y mod 16 < 16" by simp_all
  show "x div 4 < 64" "z mod 64 < 64" using assms by simp_all
  show "x mod 4 * 16 + y div 16 < 64" "y mod 16 * 4 + z div 64 < 64" using y z m by linarith+
  have "(x mod 4 * 16 + y div 16) div 16 = x mod 4" "(x mod 4 * 16 + y div 16) mod 16 = y div 16"
    "(y mod 16 * 4 + z div 64) div 4 = y mod 16" "(y mod 16 * 4 + z div 64) mod 4 = z div 64"
    using y z by simp_all
  then show "x div 4 * 4 + (x mod 4 * 16 + y div 16) div 16 = x"
    "(x mod 4 * 16 + y div 16) mod 16 * 16 + (y mod 16 * 4 + z div 64) div 4 = y"
    "(y mod 16 * 4 + z div 64) mod 4 * 64 + z mod 64 = z"
    by (simp_all only: div_mult_mod_eq)
qed

lemma b64_pad: "2 \<le> pos \<Longrightarrow> b64_loop pos l p (CHR ''='' # cs)
    = (if 4 \<le> pos + (p + 1) then Some [] else b64_loop pos l (p + 1) cs)"
  by simp

lemma b64decode_encode [simp]: "b64decode (b64encode s) = Some s"
  unfolding b64decode_def
proof (induction s rule: b64encode.induct)
  case 1
  then show ?case by simp
next
  case (2 a)
  have a: "char_code a < 256" by (simp add: char_code_def)
  note t = b64_triple [OF a, of 0 0]
  have "x mod 4 * 16 < 64" for x :: nat using mod_less_divisor [of 4 x] by linarith
  then show ?case
    using t byte_of_parts [OF t(5)]
    by (simp add: Let_def b64_loop_val b64_pad del: b64_loop.simps(2) One_nat_def)
next
  case (3 a b)
  have a: "char_code a < 256" "char_code b < 256" by (simp_all add: char_code_def)
  note t = b64_triple [OF a, of 0]
  have "x mod 16 * 4 < 64" for x :: nat using mod_less_divisor [of 16 x] by linarith
  then show ?case
    using t byte_of_parts [OF t(5)] byte_of_parts [OF t(6)]
    by (simp add: Let_def b64_loop_val b64_pad del: b64_loop.simps(2) One_nat_def)
next
  case (4 a b c rest)
  have a: "char_code a < 256" "char_code b < 256" "char_code c < 256" by (simp_all add: char_code_def)
  note t = b64_triple [OF a]
  show ?case
    using t byte_of_parts [OF t(5)] byte_of_parts [OF t(6)] byte_of_parts [OF t(7)] 4
    by (simp add: Let_def b64_loop_val del: b64_loop.simps(2) One_nat_def)
qed

end
