(* ===== verification/Proxy_Headers.thy ===== *)
theory Proxy_Headers
  imports Prelude
begin

text \<open>
  Header names and header filtering of the proxy: \<open>broker/core/headers.py\<close> and
  \<open>broker/core/proxy_headers.py\<close>. A mapping that a function iterates over is a list of pairs in
  iteration order, which may name a header twice (the inbound headers do); the dictionary a
  comprehension builds from it keeps the last value of a repeated key.
\<close>

section \<open>Header sets\<close>

definition sensitive_response_headers :: "string list" where
  "sensitive_response_headers =
     [''set-cookie'', ''authorization'', ''proxy-authenticate'', ''www-authenticate'', ''x-api-key'',
      ''x-jentic-api-key'']"

definition hop_by_hop_headers :: "string list" where
  "hop_by_hop_headers =
     [''connection'', ''keep-alive'', ''proxy-authenticate'', ''proxy-authorization'', ''te'',
      ''trailer'', ''transfer-encoding'', ''upgrade'', ''host'']"

definition broker_consumed_headers :: "string list" where
  "broker_consumed_headers =
     [''authorization'', ''prefer'', ''idempotency-key'', ''jentic-revision'', ''jentic-toolkit-id'',
      ''x-jentic-api-key'', ''jentic-credential-name'', ''jentic-credential-id'']"

definition spoofable_headers :: "string list" where
  "spoofable_headers =
     [''forwarded'', ''x-forwarded-for'', ''x-forwarded-host'', ''x-forwarded-proto'',
      ''x-forwarded-port'', ''x-real-ip'', ''via'']"

definition decoded_body_headers :: "string list" where
  "decoded_body_headers = [''content-length'', ''content-encoding'']"

definition inbound_framing_headers :: "string list" where
  "inbound_framing_headers = [''content-length'']"

definition passthrough_cache_control :: string where
  "passthrough_cache_control = ''private, no-store''"

definition replay_header_names :: "string list" where
  "replay_header_names =
     [''accept'', ''accept-language'', ''content-encoding'', ''content-language'', ''content-type'',
      ''if-match'', ''if-modified-since'', ''if-none-match'', ''if-unmodified-since'',
      ''anthropic-version'', ''api-version'', ''intercom-version'', ''notion-version'',
      ''stripe-version'', ''x-api-version'', ''x-github-api-version'']"

definition header_safe_value :: "string \<Rightarrow> string" where
  "header_safe_value v =
     map (\<lambda>c. if 32 \<le> char_code c \<and> char_code c \<le> 126 then c else CHR ''?'') v"

section \<open>The upstream URL\<close>

text \<open>
  \<open>_SCHEME_RE.sub\<close>: one match at the start, \<open>http:/x\<close> or \<open>https:/x\<close> with \<open>x\<close> no slash.
\<close>

definition restore_scheme :: "string \<Rightarrow> string" where
  "restore_scheme p =
     (let slot = (\<lambda>scheme. prefix (scheme @ '':/'') p \<and> length scheme + 2 < length p
                   \<and> p ! (length scheme + 2) \<noteq> CHR ''/'') in
      if slot ''https'' then ''https://'' @ drop 7 p
      else if slot ''http'' then ''http://'' @ drop 6 p
      else p)"

text \<open>
  The ASGI scope as the function reads it: \<open>raw_path\<close> (absent or empty is the same), \<open>path\<close> and
  \<open>query_string\<close>, byte strings decoded as latin-1.
\<close>

definition reconstruct_upstream_url :: "string option \<Rightarrow> string \<Rightarrow> string \<Rightarrow> string" where
  "reconstruct_upstream_url raw_path path query_string =
     (let raw = (case raw_path of Some (c # cs) \<Rightarrow> c # cs | _ \<Rightarrow> path);
          url = restore_scheme (lstrip_char (CHR ''/'') raw);
          url = (if prefix ''http://'' url \<or> prefix ''https://'' url then url else ''https://'' @ url)
      in if query_string = [] then url else url @ ''?'' @ query_string)"

section \<open>Forwarding\<close>

type_synonym headers = "(string, string) dict"

definition forwardable :: "string \<Rightarrow> bool" where
  "forwardable key =
     (let k = str_lower key in
      k \<notin> set hop_by_hop_headers \<and> k \<notin> set broker_consumed_headers \<and>
      k \<notin> set spoofable_headers \<and> k \<notin> set inbound_framing_headers)"

definition comprehend :: "headers \<Rightarrow> headers" where
  "comprehend pairs = dict_update_all [] pairs"

definition forward_headers :: "headers \<Rightarrow> headers \<Rightarrow> headers" where
  "forward_headers inbound injected =
     dict_update_all (comprehend (filter (\<lambda>(k, v). forwardable k) inbound)) injected"

text \<open>\<open>^(?:[a-z0-9]+-)+version$\<close> under \<open>fullmatch\<close>.\<close>

definition lower_alnum :: "char \<Rightarrow> bool" where
  "lower_alnum c = (let n = char_code c in (97 \<le> n \<and> n \<le> 122) \<or> (48 \<le> n \<and> n \<le> 57))"

definition version_header :: "string \<Rightarrow> bool" where
  "version_header key =
     (let labels = split_on (CHR ''-'') key in
      2 \<le> length labels \<and> last labels = ''version'' \<and>
      list_all (\<lambda>l. l \<noteq> [] \<and> list_all lower_alnum l) (butlast labels))"

definition is_replay_header :: "string \<Rightarrow> bool" where
  "is_replay_header name =
     (let key = str_lower name in
      if key \<in> set hop_by_hop_headers \<or> key \<in> set broker_consumed_headers \<or>
         key \<in> set spoofable_headers \<or> prefix ''jentic-'' key \<or> prefix ''x-jentic-'' key
      then False
      else key \<in> set replay_header_names \<or> version_header key)"

definition replay_headers :: "headers \<Rightarrow> headers" where
  "replay_headers inbound =
     comprehend (map (\<lambda>(k, v). (str_lower k, v)) (filter (\<lambda>(k, v). is_replay_header k) inbound))"

section \<open>Responses\<close>

definition private_cache_control :: "headers \<Rightarrow> headers" where
  "private_cache_control passthrough =
     dict_set ''cache-control'' passthrough_cache_control
       (comprehend (filter (\<lambda>(k, v). str_lower k \<noteq> ''cache-control'') passthrough))"

definition passthrough_response_headers :: "headers \<Rightarrow> headers" where
  "passthrough_response_headers upstream =
     private_cache_control (comprehend (filter (\<lambda>(k, v).
       str_lower k \<notin> set hop_by_hop_headers \<and> str_lower k \<notin> set decoded_body_headers) upstream))"

definition passthrough_streaming_headers :: "headers \<Rightarrow> headers" where
  "passthrough_streaming_headers upstream =
     private_cache_control (comprehend (filter (\<lambda>(k, v).
       str_lower k \<notin> set hop_by_hop_headers \<and> str_lower k \<noteq> ''content-length'') upstream))"

section \<open>Facts\<close>

lemma comprehend_ok: "dict_ok (comprehend pairs)"
  by (simp add: comprehend_def dict_ok_update_all)

lemma set_comprehend: "set (comprehend pairs) \<subseteq> set pairs"
  using set_dict_update_all [of "[]" pairs] by (simp add: comprehend_def)

lemma comprehend_filter: "(k, v) \<in> set (comprehend (filter P pairs)) \<Longrightarrow> (k, v) \<in> set pairs \<and> P (k, v)"
  using set_comprehend by fastforce

lemma private_cache_control_unique:
  assumes "(k, v) \<in> set (private_cache_control h)" and "str_lower k = ''cache-control''"
  shows "k = ''cache-control'' \<and> v = passthrough_cache_control"
  using assms set_dict_set [of "''cache-control''" passthrough_cache_control]
    comprehend_filter [of k v _ h]
  by (fastforce simp: private_cache_control_def)

end
