(* ===== verification/Idempotency.thy ===== *)
theory Idempotency
  imports Store_Interface Py_Json Py_Base64 Proxy_Headers
begin

text \<open>
  \<open>Idempotency-Key\<close> handling: \<open>broker/services/idempotency.py\<close> over a \<open>state_store\<close>, and the
  request fingerprint of \<open>broker/core/idempotency.py\<close> over a hash. A record is the JSON text
  the code writes. Operations take the clock readings of the store calls they may make. Where
  the code would fail on a record it did not write (no JSON object), the result is
  \<open>Malformed_Record\<close>; a header value that is no string is rendered as JSON, where Python's
  \<open>str\<close> of a nested value would differ.
\<close>

section \<open>Configuration, verdicts and errors\<close>

record idem_config =
  pending_ttl :: real
  done_ttl :: real
  max_response_bytes :: int

datatype idem_state = FRESH | REPLAY | CONFLICT | IN_PROGRESS

record stored_response =
  sr_status :: int
  sr_headers :: headers
  sr_body :: string
  sr_body_omitted :: bool

record idem_outcome =
  io_state :: idem_state
  io_stored :: "stored_response option"
  io_retry_after :: int

datatype idem_error = Idempotency_Unavailable int | Store_Error state_error | Malformed_Record

definition outcome :: "idem_state \<Rightarrow> idem_outcome" where
  "outcome x = \<lparr>io_state = x, io_stored = None, io_retry_after = 0\<rparr>"

section \<open>Fingerprint\<close>

text \<open>\<open>sha\<close> is the digest of a byte string, \<open>hex\<close> its hexadecimal rendering.\<close>

definition request_fingerprint ::
  "(string \<Rightarrow> string) \<Rightarrow> (string \<Rightarrow> string) \<Rightarrow> string \<Rightarrow> string \<Rightarrow> string \<Rightarrow> string option \<Rightarrow> string" where
  "request_fingerprint sha hex method url consumer_id body =
     hex (sha (concat (map (\<lambda>part. part @ [CHR 0x00]) [str_upper method, url, consumer_id])
       @ sha (case body of None \<Rightarrow> [] | Some b \<Rightarrow> b)))"

section \<open>Headers of a record\<close>

definition per_exchange_headers :: "string list" where
  "per_exchange_headers = [''server-timing'']"

definition max_record_header_bytes :: int where "max_record_header_bytes = 512"
definition max_status_code :: int where "max_status_code = 999"
definition released_body_ttl :: real where "released_body_ttl = 1"
definition body_fingerprint_tag_len :: nat where "body_fingerprint_tag_len = 16"

definition priority_headers :: "string list" where
  "priority_headers = [''content-type'', ''location'', ''etag'', ''content-location'', ''retry-after'']"

definition scrub_headers :: "headers \<Rightarrow> headers" where
  "scrub_headers hs =
     filter (\<lambda>(k, v). str_lower k \<notin> set sensitive_response_headers
       \<and> str_lower k \<notin> set per_exchange_headers) hs"

definition header_rank :: "string \<Rightarrow> nat" where
  "header_rank k =
     (case find_index (\<lambda>p. p = str_lower k) priority_headers of
        Some i \<Rightarrow> i
      | None \<Rightarrow> length priority_headers)"

definition header_cost :: "string \<times> string \<Rightarrow> int" where
  "header_cost h = int (length (json_dumps (JObj [(fst h, JStr (snd h))]))) - 1"

fun keep_within :: "int \<Rightarrow> headers \<Rightarrow> headers" where
  "keep_within used [] = []"
| "keep_within used (h # hs) =
     (if max_record_header_bytes < used + header_cost h then keep_within used hs
      else h # keep_within (used + header_cost h) hs)"

definition cap_headers :: "headers \<Rightarrow> headers" where
  "cap_headers hs = keep_within 2 (sort_key (\<lambda>h. header_rank (fst h)) hs)"

section \<open>Records\<close>

definition tombstone :: "string \<Rightarrow> int \<Rightarrow> string" where
  "tombstone fp status =
     json_dumps (JObj [(''phase'', JStr ''done''), (''fp'', JStr fp), (''status'', JInt status),
       (''body_omitted'', JBool True)])"

definition claim_record :: "string \<Rightarrow> string \<Rightarrow> string" where
  "claim_record fp pad =
     json_dumps (JObj [(''phase'', JStr ''pending''), (''fp'', JStr fp), (''pad'', JStr pad)])"

definition claim :: "string \<Rightarrow> string" where
  "claim fp =
     claim_record fp (replicate (length (tombstone fp max_status_code) - length (claim_record fp []))
       (CHR '' ''))"

definition done_record :: "string \<Rightarrow> int \<Rightarrow> headers \<Rightarrow> bool \<Rightarrow> bool \<Rightarrow> string" where
  "done_record fp status hs omit body_ref =
     json_dumps (JObj [(''phase'', JStr ''done''), (''fp'', JStr fp), (''status'', JInt status),
       (''headers'', JObj (map (\<lambda>(k, v). (k, JStr v)) hs)), (''body_omitted'', JBool omit),
       (''body_ref'', JBool body_ref)])"

definition caller_segment :: "string \<Rightarrow> string" where
  "caller_segment caller =
     concat (map (\<lambda>c. if c = CHR ''%'' then ''%25'' else if c = CHR '':'' then ''%3A'' else [c]) caller)"

definition slot :: "string \<Rightarrow> string \<Rightarrow> string" where
  "slot caller key = ''idem:'' @ caller_segment caller @ '':'' @ key"

definition body_slot :: "string \<Rightarrow> string \<Rightarrow> string \<Rightarrow> string" where
  "body_slot caller key fp =
     ''idem-body:'' @ caller_segment caller @ '':'' @ key @ '':'' @ take body_fingerprint_tag_len fp"

definition header_text :: "json \<Rightarrow> string" where
  "header_text v =
     (case v of
        JStr s \<Rightarrow> s
      | JNull \<Rightarrow> ''None''
      | JBool b \<Rightarrow> (if b then ''True'' else ''False'')
      | _ \<Rightarrow> json_dumps v)"

definition decode_response :: "(string, json) dict \<Rightarrow> string option \<Rightarrow> stored_response option" where
  "decode_response ms body =
     (let status = (case dict_get ms ''status'' of
                      Some (JInt n) \<Rightarrow> n
                    | Some (JBool b) \<Rightarrow> of_bool b
                    | _ \<Rightarrow> 0);
          hs = (case dict_get ms ''headers'' of
                  Some (JObj hs) \<Rightarrow> map (\<lambda>(k, v). (k, header_text v)) hs
                | _ \<Rightarrow> []);
          omitted = json_truthy (dict_get ms ''body_omitted'');
          resp = (\<lambda>b omitted. \<lparr>sr_status = status, sr_headers = hs,
                    sr_body = (case b of None \<Rightarrow> [] | Some b \<Rightarrow> b), sr_body_omitted = omitted\<rparr>)
      in case dict_get ms ''body_b64'' of
           Some (JStr (c # cs)) \<Rightarrow> map_option (\<lambda>b. resp (Some b) omitted) (b64decode (c # cs))
         | _ \<Rightarrow>
             if json_truthy (dict_get ms ''body_ref'') \<and> body = None then Some (resp body True)
             else Some (resp body omitted))"

section \<open>The store\<close>

definition idem_retry_after :: "idem_config \<Rightarrow> int" where
  "idem_retry_after cfg = max 1 (py_trunc (pending_ttl cfg + 0.999))"

text \<open>
  \<open>begin\<close>, with the clock readings \<open>t1\<close> and \<open>t2\<close> of the claim, \<open>t3\<close> of the record's read and
  \<open>t4\<close> of the body's.
\<close>

definition begin_call ::
  "'s state_store \<Rightarrow> idem_config \<Rightarrow> real \<times> real \<times> real \<times> real \<Rightarrow> string \<Rightarrow> string \<Rightarrow> string \<Rightarrow> 's
     \<Rightarrow> (idem_error, idem_outcome) result \<times> 's" where
  "begin_call st cfg ts caller key fp s =
     (let (t1, t2, t3, t4) = ts;
          (claimed, s) = sto_claim st t1 t2 (slot caller key) (claim fp) (pending_ttl cfg) s in
      case claimed of
        Inl (Capacity_Error ns retry own tot) \<Rightarrow> (Inl (Idempotency_Unavailable retry), s)
      | Inl e \<Rightarrow> (Inl (Store_Error e), s)
      | Inr True \<Rightarrow> (Inr (outcome FRESH), s)
      | Inr False \<Rightarrow>
          (let (existing, s) = sto_get st t3 (slot caller key) s in
           case existing of
             None \<Rightarrow> (Inr ((outcome IN_PROGRESS)\<lparr>io_retry_after := idem_retry_after cfg\<rparr>), s)
           | Some text \<Rightarrow>
               (case json_loads text of
                  Some (JObj ms) \<Rightarrow>
                    if dict_get ms ''fp'' \<noteq> Some (JStr fp) then (Inr (outcome CONFLICT), s)
                    else if dict_get ms ''phase'' \<noteq> Some (JStr ''done'') then
                      (Inr ((outcome IN_PROGRESS)\<lparr>io_retry_after := idem_retry_after cfg\<rparr>), s)
                    else
                      (let (body, s) = (if json_truthy (dict_get ms ''body_ref'')
                                        then sto_get st t4 (body_slot caller key fp) s
                                        else (None, s)) in
                       case decode_response ms body of
                         None \<Rightarrow> (Inl Malformed_Record, s)
                       | Some r \<Rightarrow> (Inr ((outcome REPLAY)\<lparr>io_stored := Some r\<rparr>), s))
                | _ \<Rightarrow> (Inl Malformed_Record, s))))"

text \<open>A write whose capacity refusal is caught; another error is raised.\<close>

definition try_set ::
  "'s state_store \<Rightarrow> real \<Rightarrow> string \<Rightarrow> string \<Rightarrow> real \<Rightarrow> 's \<Rightarrow> (state_error, bool) result \<times> 's" where
  "try_set st now key val ttl s =
     (let (r, s) = sto_set st now key val ttl s in
      (case r of
         Inr _ \<Rightarrow> Inr True
       | Inl e \<Rightarrow> if is_capacity_error e then Inr False else Inl e, s))"

definition release_body :: "'s state_store \<Rightarrow> real \<Rightarrow> string \<Rightarrow> 's \<Rightarrow> (state_error, unit) result \<times> 's" where
  "release_body st now bslot s =
     (let (r, s) = try_set st now bslot [] released_body_ttl s in (rbind r (\<lambda>_. Inr ()), s))"

text \<open>
  \<open>complete\<close>, with the clock readings of the body's write, the record's, the release and the
  tombstone's.
\<close>

definition complete_call ::
  "'s state_store \<Rightarrow> idem_config \<Rightarrow> real \<times> real \<times> real \<times> real \<Rightarrow> string \<Rightarrow> string \<Rightarrow> string
     \<Rightarrow> int \<Rightarrow> headers \<Rightarrow> string \<Rightarrow> 's \<Rightarrow> (state_error, unit) result \<times> 's" where
  "complete_call st cfg ts caller key fp status hs body s =
     (let (t_body, t_record, t_release, t_tomb) = ts;
          omit = (max_response_bytes cfg < int (length body));
          bslot = body_slot caller key fp;
          (stored, s) = (if body \<noteq> [] \<and> \<not> omit
                         then try_set st t_body bslot body (done_ttl cfg + pending_ttl cfg) s
                         else (Inr False, s)) in
      case stored of
        Inl e \<Rightarrow> (Inl e, s)
      | Inr body_stored \<Rightarrow>
          (let omit = (omit \<or> (body \<noteq> [] \<and> \<not> body_stored));
               rec = done_record fp status (cap_headers (scrub_headers hs)) omit (body \<noteq> [] \<and> \<not> omit);
               (written, s) = try_set st t_record (slot caller key) rec (done_ttl cfg) s in
           case written of
             Inl e \<Rightarrow> (Inl e, s)
           | Inr True \<Rightarrow> (Inr (), s)
           | Inr False \<Rightarrow>
               (let (released, s) = (if body_stored then release_body st t_release bslot s else (Inr (), s)) in
                case released of
                  Inl e \<Rightarrow> (Inl e, s)
                | Inr _ \<Rightarrow>
                    (let (r, s) = try_set st t_tomb (slot caller key) (tombstone fp status) (done_ttl cfg) s in
                     (rbind r (\<lambda>_. Inr ()), s)))))"

end
