(* ===== verification/Idempotency_Properties.thy ===== *)
theory Idempotency_Properties
  imports Idempotency
begin

text \<open>
  What the idempotency store promises: the keyspace separates callers and keys, a record stays
  small and free of secrets, and once a call has claimed its key a retry is never run again
  while the claim, or the record that replaces it, lives. The lemmas on \<open>begin\<close> and \<open>complete\<close>
  are proved from the laws of \<open>ttl_store\<close>; the properties state them for the in-process
  backend under arbitrary interleaved operations.
\<close>

section \<open>Keyspace\<close>

lemma caller_segment_no_colon: "CHR '':'' \<notin> set (caller_segment caller)"
  by (auto simp: caller_segment_def split: if_splits)

lemma caller_segment_Cons:
  "caller_segment (c # cs) =
     (if c = CHR ''%'' then ''%25'' else if c = CHR '':'' then ''%3A'' else [c]) @ caller_segment cs"
  by (simp add: caller_segment_def)

lemma caller_segment_Nil [simp]: "caller_segment [] = []"
  by (simp add: caller_segment_def)

lemma caller_segment_inj: "caller_segment a = caller_segment b \<Longrightarrow> a = b"
proof (induction a arbitrary: b)
  case Nil
  then show ?case by (cases b) (auto simp: caller_segment_Cons split: if_splits)
next
  case (Cons x a)
  then obtain y b' where b: "b = y # b'" by (cases b) (auto simp: caller_segment_Cons split: if_splits)
  with Cons.prems have "x = y \<and> caller_segment a = caller_segment b'"
    by (auto simp: caller_segment_Cons split: if_splits)
  with b Cons.IH show ?case by blast
qed

lemma append_sep_inj:
  "c \<notin> set a \<Longrightarrow> c \<notin> set b \<Longrightarrow> a @ c # x = b @ c # y \<longleftrightarrow> a = b \<and> x = y"
  by (induction a arbitrary: b) (case_tac b; auto)+

text \<open>
  Callers and keys never share an entry. Two records collide only for the same caller and
  key, two bodies only for the same caller, key and fingerprint tag, and a body never lies in
  a record's slot, whatever \<open>:\<close> and \<open>%\<close> the callers and keys contain.
\<close>

theorem slots_separate_callers:
  assumes "body_fingerprint_tag_len \<le> length fp" and "body_fingerprint_tag_len \<le> length fp'"
  shows "(slot c k = slot c' k') = (c = c' \<and> k = k') \<and>
    (body_slot c k fp = body_slot c' k' fp') =
      (c = c' \<and> k = k' \<and> take body_fingerprint_tag_len fp = take body_fingerprint_tag_len fp') \<and>
    slot c k \<noteq> body_slot c' k' fp'"
proof -
  have seg: "caller_segment c @ CHR '':'' # x = caller_segment c' @ CHR '':'' # y \<longleftrightarrow> c = c' \<and> x = y" for x y
    using append_sep_inj [OF caller_segment_no_colon caller_segment_no_colon] caller_segment_inj by blast
  have "k @ CHR '':'' # take body_fingerprint_tag_len fp = k' @ CHR '':'' # take body_fingerprint_tag_len fp'
      \<longleftrightarrow> k = k' \<and> take body_fingerprint_tag_len fp = take body_fingerprint_tag_len fp'"
    using assms by simp
  with seg show ?thesis by (auto simp: slot_def body_slot_def)
qed

lemma slots_separate_callers_witness:
  "slot ''a:b'' ''c'' \<noteq> slot ''a'' ''b:c'' \<and>
   body_slot ''a'' ''k:0123456789abcdef'' ''fedcba9876543210''
     \<noteq> body_slot ''a'' ''k'' ''0123456789abcdef''"
  using slots_separate_callers [of "''fedcba9876543210''" "''0123456789abcdef''" "''a:b''" "''c''" "''a''" "''b:c''"]
    slots_separate_callers [of "''fedcba9876543210''" "''0123456789abcdef''" "''a''" "''k:0123456789abcdef''" "''a''" "''k''"]
  by (simp add: body_fingerprint_tag_len_def)

section \<open>Records\<close>

lemma keep_within_sublist: "set (keep_within used hs) \<subseteq> set hs"
  by (induction used hs rule: keep_within.induct) auto

lemma keep_within_keys: "dict_ok hs \<Longrightarrow> dict_ok (keep_within used hs)"
proof (induction used hs rule: keep_within.induct)
  case (2 used h hs)
  have "fst ` set (keep_within (used + header_cost h) hs) \<subseteq> fst ` set hs"
    using keep_within_sublist by (rule image_mono)
  with 2 show ?case by auto
qed simp

lemma dict_ok_perm: "dict_ok hs \<Longrightarrow> dict_ok (sort_key f hs)"
  by (metis distinct_map distinct_sort set_sort)

lemma cap_scrub_ok: "dict_ok hs \<Longrightarrow> dict_ok (cap_headers (scrub_headers hs))"
  unfolding cap_headers_def scrub_headers_def
  by (intro keep_within_keys dict_ok_perm) (simp add: distinct_map_filter)

lemma header_cost_eq: "header_cost (k, v) = int (length (json_quote k @ CHR '':'' # json_quote v)) + 1"
  by (simp add: header_cost_def)

lemma keep_within_used:
  "used \<le> max_record_header_bytes \<Longrightarrow>
     used + sum_list (map header_cost (keep_within used hs)) \<le> max_record_header_bytes"
  by (induction used hs rule: keep_within.induct) (auto simp: add.assoc [symmetric])

lemma joined_length:
  "hs \<noteq> [] \<Longrightarrow> int (length (join_with c (map g hs))) + 1 = sum_list (map (\<lambda>h. int (length (g h)) + 1) hs)"
proof (induction hs)
  case (Cons h hs)
  then show ?case by (cases hs) (auto simp: join_with_Cons)
qed simp

text \<open>
  What a record keeps of a response: no header that carries a secret or describes the one
  exchange, and no more serialised header bytes than the cap.
\<close>

theorem record_headers_bounded_and_scrubbed:
  "int (length (json_dumps (JObj (map (\<lambda>(k, v). (k, JStr v)) (cap_headers (scrub_headers hs))))))
      \<le> max_record_header_bytes \<and>
    list_all (\<lambda>(k, v). str_lower k \<notin> set sensitive_response_headers \<and>
      str_lower k \<notin> set per_exchange_headers) (cap_headers (scrub_headers hs))"
proof -
  let ?kept = "cap_headers (scrub_headers hs)"
  have used: "2 + sum_list (map header_cost ?kept) \<le> max_record_header_bytes"
    unfolding cap_headers_def by (rule keep_within_used) (simp add: max_record_header_bytes_def)
  have size: "int (length (json_dumps (JObj (map (\<lambda>(k, v). (k, JStr v)) ?kept)))) \<le> max_record_header_bytes"
  proof (cases "?kept = []")
    case True
    then show ?thesis by (simp add: max_record_header_bytes_def)
  next
    case False
    let ?g = "\<lambda>h. json_quote (fst h) @ CHR '':'' # json_quote (snd h)"
    have cost: "header_cost = (\<lambda>h. int (length (?g h)) + 1)"
      by (rule ext) (metis header_cost_eq prod.collapse)
    have "int (length (join_with (CHR '','') (map ?g ?kept))) + 1 = sum_list (map header_cost ?kept)"
      using joined_length [OF False, of "CHR '',''" ?g] cost by simp
    with used show ?thesis by (simp add: case_prod_unfold comp_def)
  qed
  have "set ?kept \<subseteq> set (scrub_headers hs)"
    using keep_within_sublist by (fastforce simp: cap_headers_def)
  then have "list_all (\<lambda>(k, v). str_lower k \<notin> set sensitive_response_headers \<and>
      str_lower k \<notin> set per_exchange_headers) ?kept"
    by (auto simp: list_all_iff scrub_headers_def)
  with size show ?thesis by blast
qed

section \<open>Promotion of a claim\<close>

text \<open>A text that \<open>begin\<close> reads as the finished record of \<open>fp\<close>, its body included.\<close>

definition record_done :: "string \<Rightarrow> string \<Rightarrow> int \<Rightarrow> headers \<Rightarrow> bool \<Rightarrow> bool \<Rightarrow> bool" where
  "record_done text fp status hs omit body_ref =
     (case json_loads text of
        Some (JObj ms) \<Rightarrow>
          dict_get ms ''fp'' = Some (JStr fp) \<and> dict_get ms ''phase'' = Some (JStr ''done'') \<and>
          json_truthy (dict_get ms ''body_ref'') = body_ref \<and>
          (\<forall>b. decode_response ms b =
             Some \<lparr>sr_status = status, sr_headers = hs, sr_body = (case b of None \<Rightarrow> [] | Some b \<Rightarrow> b),
                   sr_body_omitted = (omit \<or> (body_ref \<and> b = None))\<rparr>)
      | _ \<Rightarrow> False)"

lemma tombstone_done: "record_done (tombstone fp status) fp status [] True False"
  by (simp add: record_done_def tombstone_def decode_response_def json_truthy_def Let_def
      del: json_dumps.simps)

lemma done_record_done:
  assumes "dict_ok hs"
  shows "record_done (done_record fp status hs omit body_ref) fp status hs omit body_ref"
proof -
  have "json_ok (JObj (map (\<lambda>(k, v). (k, JStr v)) hs))"
    using assms by (auto simp: list_all_iff comp_def case_prod_unfold)
  moreover have "map (\<lambda>(k, v). (k, header_text v)) (map (\<lambda>(k, v). (k, JStr v)) hs) = hs"
    by (simp add: header_text_def comp_def case_prod_unfold)
  ultimately show ?thesis
    by (auto simp: record_done_def done_record_def decode_response_def json_truthy_def Let_def
        simp del: map_map json_dumps.simps)
qed

lemma claim_loads:
  "\<exists>pad. json_loads (claim fp) = Some (JObj [(''phase'', JStr ''pending''), (''fp'', JStr fp), (''pad'', JStr pad)])"
  by (simp add: claim_def claim_record_def del: json_dumps.simps)

lemma str_of_int_status:
  assumes "0 \<le> n" and "n \<le> max_status_code"
  shows "length (str_of_int n) \<le> 3"
proof -
  have "nat n < 1000" using assms by (simp add: max_status_code_def)
  then have "nat n div 10 div 10 < 10" by simp
  then show ?thesis
    using assms(1) by (simp add: str_of_int_def str_of_nat.simps [of "nat n"]
        str_of_nat.simps [of "nat n div 10"] str_of_nat.simps [of "nat n div 10 div 10"]
        str_of_nat.simps [of "nat n div 100"])
qed

text \<open>The padding makes the claim as long as the longest tombstone.\<close>

lemma tombstone_fits_claim:
  assumes "0 \<le> status" and "status \<le> max_status_code"
  shows "length (tombstone fp status) \<le> length (claim fp)"
proof -
  have s: "length (str_of_int max_status_code) = 3"
    by (simp add: max_status_code_def str_of_int_def str_of_nat.simps)
  have pad: "length (claim_record fp (replicate n (CHR '' ''))) = length (claim_record fp []) + n" for n
  proof -
    have "json_escape (CHR '' '') = '' ''" by code_simp
    then have "concat (map json_escape (replicate n (CHR '' ''))) = replicate n (CHR '' '')"
      by (induction n) auto
    then show ?thesis by (simp add: claim_record_def json_quote_def)
  qed
  have "length (tombstone fp max_status_code) \<le> length (claim fp)"
    by (simp add: claim_def pad)
  moreover have "length (tombstone fp status) \<le> length (tombstone fp max_status_code)"
    using str_of_int_status [OF assms] s by (simp add: tombstone_def)
  ultimately show ?thesis by linarith
qed

lemma slot_not_body_slot: "slot c k \<noteq> body_slot c' k' fp"
  by (simp add: slot_def body_slot_def)

lemma try_set_cases:
  assumes "try_set st now k v ttl s = (r, s')"
  obtains u where "sto_set st now k v ttl s = (Inr u, s')" "r = Inr True"
    | e where "sto_set st now k v ttl s = (Inl e, s')" "r = (if is_capacity_error e then Inr False else Inl e)"
  using assms by (auto simp: try_set_def split: prod.splits sum.splits)

text \<open>
  What the store holds once a response is recorded: a finished record of the request up to the
  given time, and its body, unless the record says that the body is not kept.
\<close>

definition recorded ::
  "('s \<Rightarrow> string \<Rightarrow> (string \<times> real) option) \<Rightarrow> 's \<Rightarrow> string \<Rightarrow> string \<Rightarrow> string \<Rightarrow> int \<Rightarrow> headers \<Rightarrow> string
     \<Rightarrow> real \<Rightarrow> bool" where
  "recorded entry_of s caller key fp status hs body until =
     (\<exists>v d omit body_ref.
        entry_of s (slot caller key) = Some (v, d) \<and> until \<le> d \<and>
        record_done v fp status hs omit body_ref \<and>
        (if body_ref then \<exists>d'. entry_of s (body_slot caller key fp) = Some (body, d') \<and> until \<le> d'
         else omit \<or> body = []))"

text \<open>What a replay may answer: the recorded status, and the recorded body or the omission flag.\<close>

definition replays :: "idem_outcome \<Rightarrow> int \<Rightarrow> headers \<Rightarrow> string \<Rightarrow> bool" where
  "replays out status hs body =
     (io_state out = REPLAY \<and>
      (case io_stored out of
         None \<Rightarrow> False
       | Some r \<Rightarrow> sr_status r = status \<and> sr_headers r = hs \<and> (sr_body_omitted r \<or> sr_body r = body)))"

context ttl_store
begin

lemma begin_recorded:
  assumes "ok s" and rec: "recorded entry_of s caller key fp status hs body until"
    and "t1 < until" and "t3 < until"
  shows "\<exists>out s'. begin_call st cfg (t1, t2, t3, t4) caller key fp' s = (Inr out, s') \<and>
    (if fp' = fp then replays out status hs body else io_state out = CONFLICT)"
proof -
  obtain v d omit body_ref where e: "entry_of s (slot caller key) = Some (v, d)" "until \<le> d"
    and v: "record_done v fp status hs omit body_ref"
    and b: "if body_ref then \<exists>d'. entry_of s (body_slot caller key fp) = Some (body, d') \<and> until \<le> d'
      else omit \<or> body = []"
    using rec by (auto simp: recorded_def)
  have c: "sto_claim st t1 t2 (slot caller key) (claim fp') (pending_ttl cfg) s = (Inr False, s)"
    and g: "sto_get st t3 (slot caller key) s = (Some v, s)"
    using claim_live [OF assms(1) e(1)] get_live [OF assms(1) e(1)] e(2) assms(3,4) by simp_all
  obtain ms where ms: "json_loads v = Some (JObj ms)" "dict_get ms ''fp'' = Some (JStr fp)"
    "dict_get ms ''phase'' = Some (JStr ''done'')" "json_truthy (dict_get ms ''body_ref'') = body_ref"
    "\<And>b. decode_response ms b = Some \<lparr>sr_status = status, sr_headers = hs,
        sr_body = (case b of None \<Rightarrow> [] | Some b \<Rightarrow> b), sr_body_omitted = (omit \<or> (body_ref \<and> b = None))\<rparr>"
    using v unfolding record_done_def by (cases "json_loads v"; cases "the (json_loads v)") simp_all
  show ?thesis
  proof (cases "fp' = fp")
    case False
    with c g ms show ?thesis by (auto simp: begin_call_def outcome_def)
  next
    case True
    obtain w s' where get: "(if body_ref then sto_get st t4 (body_slot caller key fp) s else (None, s)) = (w, s')"
      by fastforce
    have "w = None \<or> w = Some body" if body_ref
    proof -
      from that b obtain d' where d': "entry_of s (body_slot caller key fp) = Some (body, d')" by auto
      show ?thesis
        using get that get_live [OF assms(1) d', of t4] get_dead [OF assms(1), of "body_slot caller key fp" t4] d'
        by (cases "t4 < d'") (auto simp: prod_eq_iff)
    qed
    then show ?thesis
      using True c g ms get b
      by (auto simp: begin_call_def outcome_def replays_def split: if_splits)
  qed
qed

lemma begin_pending:
  assumes "ok s" and e: "entry_of s (slot caller key) = Some (claim fp, d)" and "t1 < d" and "t3 < d"
  shows "\<exists>out s'. begin_call st cfg (t1, t2, t3, t4) caller key fp' s = (Inr out, s') \<and>
    io_state out = (if fp' = fp then IN_PROGRESS else CONFLICT)"
proof -
  have "sto_claim st t1 t2 (slot caller key) (claim fp') (pending_ttl cfg) s = (Inr False, s)"
    and "sto_get st t3 (slot caller key) s = (Some (claim fp), s)"
    using claim_live [OF assms(1) e] get_live [OF assms(1) e] assms(3,4) by simp_all
  with claim_loads [of fp] show ?thesis by (auto simp: begin_call_def outcome_def)
qed

lemma begin_fresh:
  assumes "ok s" and "begin_call st cfg (t1, t2, t3, t4) caller key fp s = (Inr out, s')"
    and "io_state out = FRESH"
  shows "entry_of s' (slot caller key) = Some (claim fp, t2 + pending_ttl cfg) \<and> ok s'"
proof -
  obtain r s1 where c: "sto_claim st t1 t2 (slot caller key) (claim fp) (pending_ttl cfg) s = (r, s1)"
    by fastforce
  have "r = Inr True \<and> s' = s1"
    using assms(2,3) c
    by (auto simp: begin_call_def outcome_def Let_def split: sum.splits state_error.splits bool.splits
        prod.splits option.splits json.splits if_splits)
  with c claim_written [OF assms(1)] preservedD(1) [OF claim_keeps [OF assms(1)]] show ?thesis
    by (metis snd_conv)
qed

lemma try_set_no_error:
  assumes "ok s" and "try_set st now k v ttl s = (r, s')"
  obtains "r = Inr True" "entry_of s' k = Some (v, now + ttl)" "preserved ok entry_of [now] [k] s s'"
    | "r = Inr False" "preserved ok entry_of [now] [] s s'"
  using assms(2)
proof (cases rule: try_set_cases)
  case (1 u)
  with set_written [OF assms(1) 1(1)] set_keeps [OF assms(1), of now k v ttl] that(1) show thesis by simp
next
  case (2 e)
  with set_refused [OF assms(1) 2(1)] that(2) show thesis by simp
qed

lemma try_set_smaller:
  assumes "ok s" and "entry_of s k = Some (w, d)" and "now < d" and "length v \<le> length w"
    and "try_set st now k v ttl s = (r, s')"
  shows "r = Inr True"
  using set_smaller [OF assms(1-4), of ttl] assms(5)
  by (auto simp: try_set_def split: prod.splits sum.splits)

lemma complete_recorded:
  assumes s: "ok s" and e: "entry_of s (slot caller key) = Some (claim fp, d)"
    and before: "u1 < d" "u2 < d" "u3 < d" "u4 < d"
    and prompt: "u2 < u1 + pending_ttl cfg" "0 \<le> done_ttl cfg"
    and status: "0 \<le> status" "status \<le> max_status_code" and hs: "dict_ok hs"
  obtains s' hs' where "complete_call st cfg (u1, u2, u3, u4) caller key fp status hs body s = (Inr (), s')"
    "ok s'" "hs' = cap_headers (scrub_headers hs) \<or> hs' = []"
    "recorded entry_of s' caller key fp status hs' body (min u2 u4 + done_ttl cfg)"
proof -
  let ?slot = "slot caller key" and ?bslot = "body_slot caller key fp"
  let ?long = "max_response_bytes cfg < int (length body)"
  let ?hs = "cap_headers (scrub_headers hs)"
  define wants where "wants = (body \<noteq> [] \<and> \<not> ?long)"
  obtain stored s1 where first: "(if wants then try_set st u1 ?bslot body (done_ttl cfg + pending_ttl cfg) s
      else (Inr False, s)) = (stored, s1)" by fastforce
  obtain kept where kept: "stored = Inr kept" and s1: "ok s1" and e1: "entry_of s1 ?slot = Some (claim fp, d)"
    and body: "kept \<Longrightarrow> wants \<and> entry_of s1 ?bslot = Some (body, u1 + (done_ttl cfg + pending_ttl cfg))"
  proof (cases wants)
    case True
    with first have t: "try_set st u1 ?bslot body (done_ttl cfg + pending_ttl cfg) s = (stored, s1)" by simp
    show thesis
      using s t
    proof (cases rule: try_set_no_error)
      case 1
      with True e before(1) slot_not_body_slot show thesis
        by (intro that [of True]) (auto dest: preservedD(1) intro: preservedD(2))
    next
      case 2
      with e before(1) show thesis
        by (intro that [of False]) (auto dest: preservedD(1) intro: preservedD(2))
    qed
  next
    case False
    with first s e show thesis by (intro that [of False]) auto
  qed
  define omit where "omit = (?long \<or> (body \<noteq> [] \<and> \<not> kept))"
  define doc where "doc = done_record fp status ?hs omit (body \<noteq> [] \<and> \<not> omit)"
  obtain written s2 where second: "try_set st u2 ?slot doc (done_ttl cfg) s1 = (written, s2)" by fastforce
  have step: "complete_call st cfg (u1, u2, u3, u4) caller key fp status hs body s =
      (case written of
         Inl e \<Rightarrow> (Inl e, s2)
       | Inr True \<Rightarrow> (Inr (), s2)
       | Inr False \<Rightarrow>
           (let (released, s) = (if kept then release_body st u3 ?bslot s2 else (Inr (), s2)) in
            case released of
              Inl e \<Rightarrow> (Inl e, s)
            | Inr _ \<Rightarrow> (let (r, s) = try_set st u4 ?slot (tombstone fp status) (done_ttl cfg) s in
                       (rbind r (\<lambda>_. Inr ()), s))))"
    using first second
    by (simp add: complete_call_def Let_def kept wants_def [symmetric] omit_def [symmetric]
        doc_def [symmetric] split del: if_split)
  have ref: "(body \<noteq> [] \<and> \<not> omit) = (kept \<and> body \<noteq> [])"
    using body by (auto simp: omit_def wants_def)
  from s1 second show thesis
  proof (cases rule: try_set_no_error)
    case 1
    have "recorded entry_of s2 caller key fp status ?hs body (min u2 u4 + done_ttl cfg)"
      unfolding recorded_def
    proof (intro exI conjI)
      show "entry_of s2 ?slot = Some (doc, u2 + done_ttl cfg)" by (rule 1(2))
      show "record_done doc fp status ?hs omit (body \<noteq> [] \<and> \<not> omit)"
        unfolding doc_def by (rule done_record_done [OF cap_scrub_ok [OF hs]])
      have "entry_of s2 ?bslot = Some (body, u1 + (done_ttl cfg + pending_ttl cfg))" if kept
        by (rule preservedD(2) [OF 1(3)]) (use body that prompt not_sym [OF slot_not_body_slot] in auto)
      then show "if body \<noteq> [] \<and> \<not> omit
          then \<exists>d'. entry_of s2 ?bslot = Some (body, d') \<and> min u2 u4 + done_ttl cfg \<le> d'
          else omit \<or> body = []"
        using ref prompt(1) by auto
    qed simp
    with 1 step show thesis
      by (intro that [of s2 ?hs]) (auto dest: preservedD(1))
  next
    case 2
    obtain released s3 where third: "(if kept then release_body st u3 ?bslot s2 else (Inr (), s2)) = (released, s3)"
      by fastforce
    have s2: "ok s2" "entry_of s2 ?slot = Some (claim fp, d)"
      using 2(2) e1 before(2) by (auto dest: preservedD(1) intro: preservedD(2))
    have s3: "released = Inr ()" "ok s3" "entry_of s3 ?slot = Some (claim fp, d)"
    proof -
      have "released = Inr () \<and> ok s3 \<and> entry_of s3 ?slot = Some (claim fp, d)"
      proof (cases kept)
        case False
        with third s2 show ?thesis by simp
      next
        case True
        obtain q s4 where q: "try_set st u3 ?bslot [] released_body_ttl s2 = (q, s4)" by fastforce
        have "s3 = s4" "released = rbind q (\<lambda>_. Inr ())"
          using third True q by (auto simp: release_body_def)
        moreover have "(\<exists>b. q = Inr b) \<and> preserved ok entry_of [u3] [?bslot] s2 s4"
          using s2(1) q by (cases rule: try_set_no_error) (auto intro: preserved_mono)
        ultimately show ?thesis
          using s2(2) before(3) slot_not_body_slot [of caller key]
          by (auto dest: preservedD(1) intro: preservedD(2))
      qed
      then show "released = Inr ()" "ok s3" "entry_of s3 ?slot = Some (claim fp, d)" by auto
    qed
    obtain r s4 where fourth: "try_set st u4 ?slot (tombstone fp status) (done_ttl cfg) s3 = (r, s4)" by fastforce
    have r: "r = Inr True"
      by (rule try_set_smaller [OF s3(2,3) before(4) tombstone_fits_claim [OF status] fourth])
    from s3(2) fourth r have w: "entry_of s4 ?slot = Some (tombstone fp status, u4 + done_ttl cfg)" "ok s4"
      by (auto elim!: try_set_no_error dest: preservedD(1))
    have "recorded entry_of s4 caller key fp status [] body (min u2 u4 + done_ttl cfg)"
      unfolding recorded_def using w(1) tombstone_done [of fp status] by (intro exI conjI) auto
    with 2(1) step third s3(1) fourth r w(2) show thesis
      by (intro that [of s4 "[]"]) auto
  qed
qed

end

section \<open>Under interleaved operations\<close>

lemma recorded_run:
  assumes "memory_inv C s" and "recorded memory_entry s caller key fp status hs body until"
    and "leaves until [slot caller key, body_slot caller key fp] ops"
  shows "recorded memory_entry (run C ops s) caller key fp status hs body until"
proof -
  have frame: "memory_entry (run C ops s) k = Some (v, d)"
    if "k \<in> {slot caller key, body_slot caller key fp}" "memory_entry s k = Some (v, d)" "until \<le> d" for k v d
    using run_leaves(2) [OF assms(1,3)] that by auto
  from assms(2) show ?thesis
    unfolding recorded_def by (fastforce dest: frame [rotated 1] split: if_splits)
qed

text \<open>
  While a claimed call is running nobody runs it again. Between the claim and its deadline,
  whatever other operations the backend serves, a retry with the same fingerprint is told the
  original is in progress and one with another fingerprint that the key conflicts.
\<close>

theorem in_flight_call_not_rerun:
  assumes "reachable C s" and "begin_call (memory_store C) cfg (t1, t2, t3, t4) caller key fp s = (Inr out, s')"
    and "io_state out = FRESH"
    and "leaves (t2 + pending_ttl cfg) [slot caller key] ops"
    and "w1 < t2 + pending_ttl cfg" and "w3 < t2 + pending_ttl cfg"
  shows "\<exists>out' s''. begin_call (memory_store C) cfg (w1, w2, w3, w4) caller key fp' (run C ops s') = (Inr out', s'') \<and>
    io_state out' = (if fp' = fp then IN_PROGRESS else CONFLICT)"
proof -
  from memory_store.begin_fresh [OF reachable_memory_inv [OF assms(1)] assms(2,3)]
  have e: "memory_entry s' (slot caller key) = Some (claim fp, t2 + pending_ttl cfg)" and s': "memory_inv C s'"
    by auto
  show ?thesis
    by (rule memory_store.begin_pending [OF run_leaves(1) [OF s' assms(4)] run_leaves(2) [OF s' assms(4) _ e] assms(5,6)])
       simp_all
qed

text \<open>
  What the store serves beside a call: the idempotency calls of any caller with any key, and the operations of other
  components, in any order.
\<close>

datatype idem_op =
    Begin_Op "real \<times> real \<times> real \<times> real" string string string
  | Complete_Op "real \<times> real \<times> real \<times> real" string string string int headers string
  | Store_Op state_op

fun idem_step :: "backend_config \<Rightarrow> idem_config \<Rightarrow> idem_op \<Rightarrow> backend \<Rightarrow> backend" where
  "idem_step C cfg (Begin_Op ts c k f) s = snd (begin_call (memory_store C) cfg ts c k f s)"
| "idem_step C cfg (Complete_Op ts c k f status hs body) s = snd (complete_call (memory_store C) cfg ts c k f status hs body s)"
| "idem_step C cfg (Store_Op op) s = step C op s"

definition idem_run :: "backend_config \<Rightarrow> idem_config \<Rightarrow> idem_op list \<Rightarrow> backend \<Rightarrow> backend" where
  "idem_run C cfg ops s = fold (idem_step C cfg) ops s"

definition early :: "real \<Rightarrow> real \<times> real \<times> real \<times> real \<Rightarrow> bool" where
  "early t ts = (case ts of (t1, t2, t3, t4) \<Rightarrow> t1 < t \<and> t2 < t \<and> t3 < t \<and> t4 < t)"

text \<open>
  The operations before \<open>t\<close> that are no completion of the caller's own key: begins are not restricted, completions have
  another caller or another key, and other components write outside of the two namespaces.
\<close>

fun spares :: "real \<Rightarrow> string \<Rightarrow> string \<Rightarrow> idem_op \<Rightarrow> bool" where
  "spares t caller key (Begin_Op ts c k f) = early t ts"
| "spares t caller key (Complete_Op ts c k f status hs body) =
     (early t ts \<and> (c, k) \<noteq> (caller, key) \<and> body_fingerprint_tag_len \<le> length f)"
| "spares t caller key (Store_Op op) =
     (list_all (\<lambda>x. x < t) (op_times op) \<and> list_all (\<lambda>k. \<not> prefix ''idem:'' k \<and> \<not> prefix ''idem-body:'' k) (op_overwrites op))"

text \<open>An idempotency call is a sequence of operations of the store.\<close>

definition runs_as :: "backend_config \<Rightarrow> real set \<Rightarrow> string set \<Rightarrow> backend \<Rightarrow> backend \<Rightarrow> bool" where
  "runs_as C clocks keys s s' =
     (\<exists>ops. s' = run C ops s \<and> list_all (\<lambda>op. set (op_times op) \<subseteq> clocks \<and> set (op_overwrites op) \<subseteq> keys) ops)"

lemma run_concat: "run C (xs @ ys) s = run C ys (run C xs s)"
  by (induction xs arbitrary: s) simp_all

lemma runs_as_refl: "runs_as C clocks keys s s"
  unfolding runs_as_def by (intro exI [of _ "[]"]) simp

lemma runs_as_step:
  "runs_as C clocks keys s s' \<Longrightarrow> set (op_times op) \<subseteq> clocks \<Longrightarrow> set (op_overwrites op) \<subseteq> keys \<Longrightarrow>
     runs_as C clocks keys s (step C op s')"
  unfolding runs_as_def by (elim exE) (rule_tac x = "ops @ [op]" in exI, simp add: run_concat)

lemma try_set_step: "snd (try_set (memory_store C) now k v ttl s) = step C (Op_Set now k v ttl) s"
  by (simp add: try_set_def memory_store_def split: prod.splits sum.splits)

lemma begin_runs_as: "runs_as C {t1, t2, t3, t4} {} s (snd (begin_call (memory_store C) cfg (t1, t2, t3, t4) c k f s))"
proof -
  let ?s1 = "step C (Op_Set_If_Absent t1 t2 (slot c k) (claim f) (pending_ttl cfg)) s"
  let ?s2 = "step C (Op_Get t3 (slot c k)) ?s1" and ?s3 = "\<lambda>s. step C (Op_Get t4 (body_slot c k f)) s"
  obtain claimed s1 where claimed: "set_if_absent C t1 t2 (slot c k) (claim f) (pending_ttl cfg) s = (claimed, s1)" by fastforce
  obtain found s2 where found: "kv_get C t3 (slot c k) s1 = (found, s2)" by fastforce
  obtain kept s3 where kept: "kv_get C t4 (body_slot c k f) s2 = (kept, s3)" by fastforce
  note simps = begin_call_def memory_store_def Let_def claimed found kept
  have "snd (begin_call (memory_store C) cfg (t1, t2, t3, t4) c k f s) \<in> {?s1, ?s2, ?s3 ?s2}"
  proof (cases claimed)
    case (Inl e)
    then show ?thesis by (cases e) (simp_all add: simps)
  next
    case fresh: (Inr fresh)
    show ?thesis
    proof (cases fresh)
      case False
      then show ?thesis using fresh by (cases found) (simp_all add: simps split: option.splits json.splits)
    qed (use fresh in \<open>simp add: simps\<close>)
  qed
  moreover have "runs_as C {t1, t2, t3, t4} {} s ?s1" by (intro runs_as_step runs_as_refl) simp_all
  moreover from this have "runs_as C {t1, t2, t3, t4} {} s ?s2" by (rule runs_as_step) simp_all
  moreover from this have "runs_as C {t1, t2, t3, t4} {} s (?s3 ?s2)" by (rule runs_as_step) simp_all
  ultimately show ?thesis by auto
qed

lemma complete_runs_as:
  "runs_as C {t1, t2, t3, t4} {slot c k, body_slot c k f} s
     (snd (complete_call (memory_store C) cfg (t1, t2, t3, t4) c k f status hs body s))"
proof -
  let ?R = "runs_as C {t1, t2, t3, t4} {slot c k, body_slot c k f} s"
  have W: "?R s'" if "try_set (memory_store C) t key v ttl u = (r, s')" "?R u" "t \<in> {t1, t2, t3, t4}"
    "key \<in> {slot c k, body_slot c k f}" for t key v ttl u r s'
    using runs_as_step [OF that(2), of "Op_Set t key v ttl"] that(3,4) try_set_step [of C t key v ttl u] that(1) by simp
  have B: "?R s'" if "release_body (memory_store C) t3 (body_slot c k f) u = (r, s')" "?R u" for u r s'
    using W [where t = t3 and key = "body_slot c k f" and u = u] that
    by (auto simp: release_body_def split: prod.splits)
  define omit where "omit = (max_response_bytes cfg < int (length body))"
  obtain stored s1 where first: "(if body \<noteq> [] \<and> \<not> omit
      then try_set (memory_store C) t1 (body_slot c k f) body (done_ttl cfg + pending_ttl cfg) s else (Inr False, s)) = (stored, s1)"
    by fastforce
  have s1: "?R s1" using first W [where u = s and t = t1] runs_as_refl by (auto split: if_splits)
  show ?thesis
  proof (cases stored)
    case (Inl e)
    then show ?thesis using first s1 by (simp add: complete_call_def Let_def omit_def split del: if_split)
  next
    case (Inr kept)
    define doc where "doc = (let omit = (omit \<or> (body \<noteq> [] \<and> \<not> kept)) in
      done_record f status (cap_headers (scrub_headers hs)) omit (body \<noteq> [] \<and> \<not> omit))"
    obtain written s2 where second: "try_set (memory_store C) t2 (slot c k) doc (done_ttl cfg) s1 = (written, s2)" by fastforce
    have s2: "?R s2" by (rule W [OF second s1]) simp_all
    obtain released s3 where third: "(if kept then release_body (memory_store C) t3 (body_slot c k f) s2 else (Inr (), s2)) = (released, s3)"
      by fastforce
    have s3: "?R s3" using third B [OF _ s2] s2 by (auto split: if_splits)
    obtain last_r s4 where fourth: "try_set (memory_store C) t4 (slot c k) (tombstone f status) (done_ttl cfg) s3 = (last_r, s4)" by fastforce
    have s4: "?R s4" by (rule W [OF fourth s3]) simp_all
    have "snd (complete_call (memory_store C) cfg (t1, t2, t3, t4) c k f status hs body s) =
        (case written of Inl e \<Rightarrow> s2 | Inr True \<Rightarrow> s2 | Inr False \<Rightarrow> (case released of Inl e \<Rightarrow> s3 | Inr _ \<Rightarrow> s4))"
      using first second third fourth Inr
      by (simp add: complete_call_def Let_def omit_def doc_def split del: if_split split: sum.split bool.split)
    then show ?thesis using s2 s3 s4 by (simp split: sum.split bool.split)
  qed
qed

lemma spares_leaves:
  assumes "spares t caller key op" "body_fingerprint_tag_len \<le> length fp"
  shows "\<exists>ops. idem_step C cfg op s = run C ops s \<and> leaves t [slot caller key, body_slot caller key fp] ops"
proof -
  have K: "\<exists>ops. s' = run C ops s \<and> leaves t [slot caller key, body_slot caller key fp] ops"
    if "runs_as C clocks keys s s'" "\<forall>x\<in>clocks. x < t" "slot caller key \<notin> keys" "body_slot caller key fp \<notin> keys" for clocks keys s'
    using that unfolding runs_as_def by (elim exE) (rule_tac x = ops in exI, fastforce simp: leaves_def list_all_iff)
  show ?thesis
  proof (cases op)
    case (Begin_Op ts c k f)
    obtain t1 t2 t3 t4 where ts: "ts = (t1, t2, t3, t4)" by (cases ts)
    show ?thesis using K [OF begin_runs_as] assms(1) unfolding Begin_Op ts by (simp add: early_def)
  next
    case (Complete_Op ts c k f status hs body)
    obtain t1 t2 t3 t4 where ts: "ts = (t1, t2, t3, t4)" by (cases ts)
    have "(c, k) \<noteq> (caller, key)" "body_fingerprint_tag_len \<le> length f" using assms(1) by (simp_all add: Complete_Op)
    then have "slot caller key \<notin> {slot c k, body_slot c k f}" "body_slot caller key fp \<notin> {slot c k, body_slot c k f}"
      using slots_separate_callers [OF assms(2), of f caller key c k] slots_separate_callers [OF _ assms(2), of f c k caller key]
      by auto
    then show ?thesis using K [OF complete_runs_as] assms(1) unfolding Complete_Op ts by (simp add: early_def)
  next
    case (Store_Op st)
    have "prefix ''idem:'' (slot caller key)" "prefix ''idem-body:'' (body_slot caller key fp)"
      by (simp_all add: slot_def body_slot_def)
    then have "leaves t [slot caller key, body_slot caller key fp] [st]"
      using assms(1) by (auto simp: Store_Op leaves_def list_all_iff)
    then show ?thesis unfolding Store_Op by (intro exI [of _ "[st]"]) simp
  qed
qed

lemma spares_run:
  assumes "list_all (spares t caller key) qs" "body_fingerprint_tag_len \<le> length fp"
  shows "\<exists>ops. idem_run C cfg qs s = run C ops s \<and> leaves t [slot caller key, body_slot caller key fp] ops"
  using assms(1)
proof (induction qs arbitrary: s)
  case Nil
  show ?case by (intro exI [of _ "[]"]) (simp add: idem_run_def leaves_def)
next
  case (Cons q qs)
  obtain ops where one: "idem_step C cfg q s = run C ops s" "leaves t [slot caller key, body_slot caller key fp] ops"
    using spares_leaves [OF _ assms(2)] Cons.prems by (metis list.pred_inject(2))
  obtain more_ops where rest: "idem_run C cfg qs (run C ops s) = run C more_ops (run C ops s)"
    "leaves t [slot caller key, body_slot caller key fp] more_ops"
    using Cons.IH [of "run C ops s"] Cons.prems by auto
  show ?case using one rest
    by (intro exI [of _ "ops @ more_ops"]) (simp add: idem_run_def run_concat leaves_def)
qed

text \<open>
  C4: a completed call is never run again. Once a call that held its claim has completed before
  the claim's deadline, every retry within the replay window is answered from the record: the same fingerprint replays the
  status, with the body or the flag that it was dropped, and another fingerprint conflicts. The store may have been full, and
  in between, before and after the completion, it may have served any begins, this key's retries among them, any completions of other keys or
  callers, and any operations of other components. Only another completion of this very key is left out: one that comes after its own claim
  lapsed overwrites the record (\<open>late_completion_overwrites\<close>). A fingerprint is a digest of at least 16 characters.
\<close>

theorem completed_call_replays:
  assumes "reachable C s0" and "begin_call (memory_store C) cfg (t1, t2, t3, t4) caller key fp s0 = (Inr out, s1)"
    and "io_state out = FRESH" and "body_fingerprint_tag_len \<le> length fp"
    and "list_all (spares (t2 + pending_ttl cfg) caller key) before"
    and "t2 \<le> u1" and "early (t2 + pending_ttl cfg) (u1, u2, u3, u4)" and "0 \<le> done_ttl cfg"
    and "0 \<le> status" and "status \<le> max_status_code" and "dict_ok hs"
    and "complete_call (memory_store C) cfg (u1, u2, u3, u4) caller key fp status hs body (idem_run C cfg before s1) = (r, s2)"
    and "list_all (spares (min u2 u4 + done_ttl cfg) caller key) later"
    and "w1 < min u2 u4 + done_ttl cfg" and "w3 < min u2 u4 + done_ttl cfg"
  shows "r = Inr () \<and>
    (\<exists>out' s3 hs'. begin_call (memory_store C) cfg (w1, w2, w3, w4) caller key fp' (idem_run C cfg later s2) = (Inr out', s3) \<and>
      (if fp' = fp then replays out' status hs' body \<and> (hs' = cap_headers (scrub_headers hs) \<or> hs' = [])
       else io_state out' = CONFLICT))"
proof -
  obtain ops1 where ops1: "idem_run C cfg before s1 = run C ops1 s1" "leaves (t2 + pending_ttl cfg) [slot caller key, body_slot caller key fp] ops1"
    using spares_run [OF assms(5,4)] by blast
  obtain ops2 where ops2: "idem_run C cfg later s2 = run C ops2 s2"
    "leaves (min u2 u4 + done_ttl cfg) [slot caller key, body_slot caller key fp] ops2"
    using spares_run [OF assms(13,4)] by blast
  from memory_store.begin_fresh [OF reachable_memory_inv [OF assms(1)] assms(2,3)]
  have e: "memory_entry s1 (slot caller key) = Some (claim fp, t2 + pending_ttl cfg)" and s1: "memory_inv C s1"
    by auto
  have e': "memory_entry (run C ops1 s1) (slot caller key) = Some (claim fp, t2 + pending_ttl cfg)"
    by (rule run_leaves(2) [OF s1 ops1(2) _ e]) simp_all
  obtain s' hs' where c: "complete_call (memory_store C) cfg (u1, u2, u3, u4) caller key fp status hs body
      (run C ops1 s1) = (Inr (), s')" "memory_inv C s'" "hs' = cap_headers (scrub_headers hs) \<or> hs' = []"
    "recorded memory_entry s' caller key fp status hs' body (min u2 u4 + done_ttl cfg)"
    by (rule memory_store.complete_recorded [OF run_leaves(1) [OF s1 ops1(2)] e', of u1 u2 u3 u4 cfg status hs body])
       (use assms(6-11) in \<open>auto simp: early_def\<close>)
  then have eq: "r = Inr ()" "s2 = s'" using assms(12) by (auto simp: ops1(1))
  from memory_store.begin_recorded [OF run_leaves(1) [OF c(2) ops2(2)]
      recorded_run [OF c(2,4) ops2(2)] assms(14,15), of cfg w2 w4 fp'] c(3)
  show ?thesis unfolding ops2(1) [unfolded eq] eq by (cases "fp' = fp") auto
qed

definition demo_idem :: idem_config where
  "demo_idem = \<lparr>pending_ttl = 30, done_ttl = 86400, max_response_bytes = 100\<rparr>"

definition demo_fp :: string where
  "demo_fp = ''0123456789abcdef''"

definition demo_begun :: "(idem_error, idem_outcome) result \<times> backend" where
  "demo_begun = begin_call (memory_store demo_config) demo_idem (1, 1, 1, 1) ''a'' ''k'' demo_fp demo_state"

lemma demo_begun_fresh: "\<exists>s. demo_begun = (Inr (outcome FRESH), s)"
proof -
  have "fst demo_begun = Inr (outcome FRESH)" by code_simp
  then show ?thesis by (metis prod.collapse)
qed

lemma in_flight_call_not_rerun_witness:
  "\<exists>s out' s''. begin_call (memory_store demo_config) demo_idem (9, 9, 9, 9) ''a'' ''k'' ''other''
      (run demo_config [Op_Set 5 ''idem:b:k'' ''x'' 5] s) = (Inr out', s'') \<and> io_state out' = CONFLICT"
proof -
  obtain s where s: "demo_begun = (Inr (outcome FRESH), s)" using demo_begun_fresh by blast
  have r: "reachable demo_config demo_state" by (rule reachable.start [OF demo_init])
  have l: "leaves (1 + pending_ttl demo_idem) [slot ''a'' ''k''] [Op_Set 5 ''idem:b:k'' ''x'' 5]"
    by (simp add: leaves_def demo_idem_def slot_def caller_segment_def)
  from in_flight_call_not_rerun [OF r s [unfolded demo_begun_def] _ l, of 9 9 9 9 "''other''"]
  show ?thesis by (auto simp: outcome_def demo_idem_def demo_fp_def)
qed

lemma completed_call_replays_witness:
  "\<exists>s1 r s2 out' s3 hs'. demo_begun = (Inr (outcome FRESH), s1) \<and>
    complete_call (memory_store demo_config) demo_idem (5, 5, 5, 5) ''a'' ''k'' demo_fp 201
      [(''Location'', ''/x''), (''Set-Cookie'', ''secret'')] ''ok''
      (idem_run demo_config demo_idem [Begin_Op (2, 2, 2, 2) ''a'' ''k'' ''other''] s1) = (r, s2) \<and>
    begin_call (memory_store demo_config) demo_idem (99, 99, 99, 99) ''a'' ''k'' demo_fp
      (idem_run demo_config demo_idem [Complete_Op (50, 50, 50, 50) ''b'' ''k'' demo_fp 200 [] ''x'',
         Store_Op (Op_Set 60 ''circuit:h'' ''x'' 5)] s2) = (Inr out', s3) \<and>
    replays out' 201 hs' ''ok''"
proof -
  obtain s1 where s1: "demo_begun = (Inr (outcome FRESH), s1)" using demo_begun_fresh by blast
  have reach: "reachable demo_config demo_state" by (rule reachable.start [OF demo_init])
  let ?before = "[Begin_Op (2, 2, 2, 2) ''a'' ''k'' ''other'']"
  let ?later = "[Complete_Op (50, 50, 50, 50) ''b'' ''k'' demo_fp 200 [] ''x'', Store_Op (Op_Set 60 ''circuit:h'' ''x'' 5)]"
  obtain r s2 where c: "complete_call (memory_store demo_config) demo_idem (5, 5, 5, 5) ''a'' ''k'' demo_fp 201
      [(''Location'', ''/x''), (''Set-Cookie'', ''secret'')] ''ok'' (idem_run demo_config demo_idem ?before s1) = (r, s2)"
    by fastforce
  have fp: "body_fingerprint_tag_len \<le> length demo_fp" by (simp add: demo_fp_def body_fingerprint_tag_len_def)
  have l: "list_all (spares (min 5 5 + done_ttl demo_idem) ''a'' ''k'') ?later"
    by (simp add: demo_idem_def demo_fp_def body_fingerprint_tag_len_def early_def)
  have b: "list_all (spares (1 + pending_ttl demo_idem) ''a'' ''k'') ?before" by (simp add: demo_idem_def early_def)
  from completed_call_replays [OF reach s1 [unfolded demo_begun_def] _ fp b _ _ _ _ _ _ c l, of 99 99 99 99 demo_fp] s1 c
  show ?thesis by (fastforce simp: outcome_def demo_idem_def max_status_code_def early_def)
qed

text \<open>
  The case left out: the claim of a first call lapses while it runs, a second request with the same key claims, runs and completes, and then the
  first call completes. It overwrites the second one's record unconditionally, and the retry of the second request conflicts.
\<close>

definition lapsed_history :: "idem_op list" where
  "lapsed_history =
     [Begin_Op (1, 1, 1, 1) ''a'' ''k'' demo_fp, Begin_Op (40, 40, 40, 40) ''a'' ''k'' ''fedcba9876543210'',
      Complete_Op (45, 45, 45, 45) ''a'' ''k'' ''fedcba9876543210'' 201 [] [], Complete_Op (50, 50, 50, 50) ''a'' ''k'' demo_fp 200 [] []]"

lemma late_completion_overwrites:
  "map_sum id io_state (fst (begin_call (memory_store demo_config) demo_idem (40, 40, 40, 40) ''a'' ''k'' ''fedcba9876543210''
     (idem_run demo_config demo_idem (take 1 lapsed_history) demo_state))) = Inr FRESH"
  "map_sum id io_state (fst (begin_call (memory_store demo_config) demo_idem (60, 60, 60, 60) ''a'' ''k'' ''fedcba9876543210''
     (idem_run demo_config demo_idem (take 3 lapsed_history) demo_state))) = Inr REPLAY"
  "map_sum id io_state (fst (begin_call (memory_store demo_config) demo_idem (60, 60, 60, 60) ''a'' ''k'' ''fedcba9876543210''
     (idem_run demo_config demo_idem lapsed_history demo_state))) = Inr CONFLICT"
  by code_simp+

end
