(* ===== verification/Injection.thy ===== *)
theory Injection
  imports Proxy_Headers Py_Url Py_Base64
begin

text \<open>
  Injected credentials: \<open>broker/core/injection.py\<close> (what a stored credential turns into),
  \<open>shared/http/injection.py\<close> (how it is applied to a request) and the server variables and
  public-origin checks of \<open>shared/url.py\<close>. \<open>decrypt\<close> is the keyset's decryption, a parameter.
  \<open>urlencode\<close>, \<open>quote\<close> and \<open>urlunparse\<close> of the standard library are modelled for strings.
\<close>

section \<open>URL encoding\<close>

text \<open>\<open>str.encode()\<close>: the UTF-8 bytes of code points below 256.\<close>

definition utf8 :: "string \<Rightarrow> nat list" where
  "utf8 s =
     concat (map (\<lambda>c. let n = char_code c in if n < 128 then [n] else [192 + n div 64, 128 + n mod 64]) s)"

definition upper_hex :: "nat \<Rightarrow> char" where
  "upper_hex d = (if d < 10 then char_of (48 + d) else char_of (55 + d))"

definition always_safe :: "nat \<Rightarrow> bool" where
  "always_safe n = ((48 \<le> n \<and> n \<le> 57) \<or> (65 \<le> n \<and> n \<le> 90) \<or> (97 \<le> n \<and> n \<le> 122)
     \<or> n \<in> {45, 46, 95, 126})"

definition quote_byte :: "nat \<Rightarrow> string" where
  "quote_byte n =
     (if always_safe n then [char_of n] else [CHR ''%'', upper_hex (n div 16), upper_hex (n mod 16)])"

text \<open>\<open>quote(s, safe="")\<close> and \<open>quote_plus(s)\<close>.\<close>

definition url_quote :: "string \<Rightarrow> string" where
  "url_quote s = concat (map quote_byte (utf8 s))"

definition quote_plus :: "string \<Rightarrow> string" where
  "quote_plus s = concat (map (\<lambda>n. if n = 32 then ''+'' else quote_byte n) (utf8 s))"

definition urlencode :: "(string, string) dict \<Rightarrow> string" where
  "urlencode params =
     join_with (CHR ''&'') (map (\<lambda>(k, v). quote_plus k @ ''='' @ quote_plus v) params)"

text \<open>\<open>urlunparse\<close> of a parsed URL and its \<open>;params\<close>.\<close>

definition uses_netloc :: "string list" where
  "uses_netloc = ['''', ''ftp'', ''http'', ''gopher'', ''nntp'', ''telnet'', ''imap'', ''wais'', ''file'',
     ''mms'', ''https'', ''shttp'', ''snews'', ''prospero'', ''rtsp'', ''rtsps'', ''rtspu'', ''rsync'',
     ''svn'', ''svn+ssh'', ''sftp'', ''nfs'', ''git'', ''git+ssh'', ''ws'', ''wss'', ''itms-services'']"

definition urlunparse :: "split_url \<Rightarrow> string \<Rightarrow> string" where
  "urlunparse p params =
     (let path = (if params = [] then url_path p else url_path p @ '';'' @ params);
          url = (if url_netloc p \<noteq> [] then
                   ''//'' @ url_netloc p @ (if path \<noteq> [] \<and> hd path \<noteq> CHR ''/'' then ''/'' @ path else path)
                 else if prefix ''//'' path then ''//'' @ path
                 else if url_scheme p \<noteq> [] \<and> url_scheme p \<in> set uses_netloc \<and>
                      (path = [] \<or> hd path = CHR ''/'') then ''//'' @ path
                 else path);
          url = (if url_scheme p = [] then url else url_scheme p @ '':'' @ url);
          url = (if url_query p = [] then url else url @ ''?'' @ url_query p)
      in if url_fragment p = [] then url else url @ ''#'' @ url_fragment p)"

section \<open>Server variables\<close>

text \<open>The first placeholder \<open>{name}\<close> or \<open>%7Bname%7D\<close> at the start of a text, and the rest.\<close>

definition strip_any :: "string list \<Rightarrow> string \<Rightarrow> string option" where
  "strip_any alts s = map_option (\<lambda>a. drop (length a) s) (List.find (\<lambda>a. prefix a s) alts)"

definition server_var_at :: "string \<Rightarrow> string \<Rightarrow> string option" where
  "server_var_at name s =
     Option.bind (strip_any [''{'', ''%7B'', ''%7b''] s) (\<lambda>s.
       Option.bind (strip_any [name] s) (strip_any [''}'', ''%7D'', ''%7d'']))"

lemma strip_any_length: "strip_any alts s = Some r \<Longrightarrow> length r \<le> length s"
  by (auto simp: strip_any_def)

lemma server_var_at_shorter:
  "server_var_at name s = Some r \<Longrightarrow> length r < length s"
proof -
  assume "server_var_at name s = Some r"
  then obtain a b where ab: "strip_any [''{'', ''%7B'', ''%7b''] s = Some a" "strip_any [name] a = Some b"
    "strip_any [''}'', ''%7D'', ''%7d''] b = Some r"
    by (auto simp: server_var_at_def Option.bind_eq_Some_conv)
  moreover have "length a < length s"
    using ab(1) by (auto simp: strip_any_def prefix_def split: if_splits)
  ultimately show ?thesis using strip_any_length [OF ab(2)] strip_any_length [OF ab(3)] by simp
qed

lemma server_var_at_Cons [termination_simp]:
  "server_var_at name (c # cs) = Some r \<Longrightarrow> length r < Suc (length cs)"
  using server_var_at_shorter by fastforce

fun substitute_var :: "string \<Rightarrow> string \<Rightarrow> string \<Rightarrow> string" where
  "substitute_var name encoded [] = []"
| "substitute_var name encoded (c # cs) =
     (case server_var_at name (c # cs) of
        Some rest \<Rightarrow> encoded @ substitute_var name encoded rest
      | None \<Rightarrow> c # substitute_var name encoded cs)"

definition apply_server_variables ::
  "string \<Rightarrow> (string, string) dict \<Rightarrow> (string, string) dict \<Rightarrow> string" where
  "apply_server_variables url variables defaults =
     fold (\<lambda>(name, val) url. substitute_var name (url_quote val) url) (variables @ defaults) url"

definition server_variables_compatible ::
  "(string, string) dict option \<Rightarrow> (string, string) dict option \<Rightarrow> bool \<Rightarrow> bool" where
  "server_variables_compatible scope resolved unresolved =
     (case scope of
        None \<Rightarrow> True
      | Some [] \<Rightarrow> True
      | Some pairs \<Rightarrow>
          if unresolved then False
          else (case resolved of
                  None \<Rightarrow> True
                | Some [] \<Rightarrow> True
                | Some actual \<Rightarrow>
                    list_all (\<lambda>(name, val). case dict_get actual name of
                       None \<Rightarrow> True | Some a \<Rightarrow> a = val) pairs))"

definition var_name_char :: "char \<Rightarrow> bool" where
  "var_name_char c = (is_alpha c \<or> digit_val c \<noteq> None \<or> c \<in> {CHR ''_'', CHR ''.'', CHR ''-''})"

fun has_server_var :: "string \<Rightarrow> bool" where
  "has_server_var [] = False"
| "has_server_var (c # cs) =
     ((c = CHR ''{'' \<and> cs \<noteq> [] \<and> var_name_char (hd cs) \<and>
       (case dropWhile var_name_char cs of [] \<Rightarrow> False | x # _ \<Rightarrow> x = CHR ''}''))
      \<or> has_server_var cs)"

definition has_host_server_variable :: "string \<Rightarrow> (url_error, bool) result" where
  "has_host_server_variable url =
     rbind (urlsplit url) (\<lambda>parts.
       Inr (has_server_var
         (if url_netloc parts \<noteq> [] then url_scheme parts @ ''://'' @ url_netloc parts
          else hd (split_on (CHR ''/'') url))))"

section \<open>Applying an injection\<close>

record injected_auth =
  ia_headers :: headers
  ia_query_params :: "(string, string) dict"
  ia_cookies :: "(string, string) dict"
  ia_server_variables :: "(string, string) dict"

definition join_cookies :: "string list \<Rightarrow> string" where
  "join_cookies parts =
     (case parts of [] \<Rightarrow> [] | p # ps \<Rightarrow> p @ concat (map (\<lambda>q. ''; '' @ q) ps))"

definition merge_cookie :: "string option \<Rightarrow> (string, string) dict \<Rightarrow> string option" where
  "merge_cookie inbound cookies =
     (let own = (case inbound of
                   None \<Rightarrow> []
                 | Some c \<Rightarrow> if str_strip c = [] then [] else [str_strip c]);
          joined = join_cookies (own @ map (\<lambda>(name, val). name @ ''='' @ val) cookies)
      in if joined = [] then None else Some joined)"

definition overlay_headers :: "headers \<Rightarrow> headers \<Rightarrow> headers" where
  "overlay_headers hs injected =
     dict_update_all
       (comprehend (filter (\<lambda>(name, val). str_lower name \<notin> set (map (\<lambda>(n, v). str_lower n) injected)
          \<and> str_lower name \<noteq> ''cookie'') hs))
       injected"

definition apply_injection ::
  "headers \<Rightarrow> string \<Rightarrow> injected_auth \<Rightarrow> string option \<Rightarrow> (string, string) dict option
     \<Rightarrow> (url_error, string \<times> headers) result" where
  "apply_injection hs url auth inbound_cookie defaults =
     (let defaults = (case defaults of None \<Rightarrow> [] | Some d \<Rightarrow> d);
          url = (if ia_server_variables auth \<noteq> [] \<or> defaults \<noteq> []
                 then apply_server_variables url (ia_server_variables auth) defaults else url);
          with_query = (if ia_query_params auth = [] then Inr url
                        else rbind (urlparse url) (\<lambda>(parsed, params).
                          let sep = (if url_query parsed \<noteq> [] then ''&'' else []) in
                          Inr (urlunparse
                            (parsed\<lparr>url_query := url_query parsed @ sep @ urlencode (ia_query_params auth)\<rparr>)
                            params)));
          injected = (case merge_cookie inbound_cookie (ia_cookies auth) of
                        None \<Rightarrow> ia_headers auth
                      | Some c \<Rightarrow> dict_set ''Cookie'' c (ia_headers auth))
      in rbind with_query (\<lambda>url. Inr (url, overlay_headers hs injected)))"

section \<open>From a credential to an injection\<close>

datatype wire_type = BEARER_TOKEN | API_KEY | BASIC | OAUTH2 | NO_AUTH | SIGV4 | OTHER_WIRE string

datatype credential_location = LOC_HEADER | LOC_QUERY | LOC_COOKIE

record resolved_credential =
  rc_credential_id :: string
  rc_wire_type :: wire_type
  rc_encrypted_secret :: "string option"
  rc_location :: "credential_location option"
  rc_field_name :: "string option"
  rc_username :: "string option"
  rc_encrypted_password :: "string option"
  rc_encrypted_secret_access_key :: "string option"
  rc_aws_region :: "string option"
  rc_aws_service :: "string option"
  rc_encrypted_session_token :: "string option"
  rc_access_key_id :: "string option"

record sigv4_material =
  sv_access_key_id :: string
  sv_secret_access_key :: string
  sv_region :: string
  sv_service :: string
  sv_session_token :: "string option"

record injection_result =
  ir_headers :: headers
  ir_query_params :: "(string, string) dict"
  ir_cookies :: "(string, string) dict"
  ir_signing :: "sigv4_material option"

datatype injection_error =
    Missing_Secret string
  | Missing_Username string
  | Missing_Password string
  | Missing_Access_Token
  | Missing_Secret_Access_Key string
  | Missing_Region_Or_Service string
  | Unsupported_Wire_Type
  | Undecryptable

definition injection :: "headers \<Rightarrow> (string, string) dict \<Rightarrow> (string, string) dict \<Rightarrow> injection_result" where
  "injection hs query cookies =
     \<lparr>ir_headers = hs, ir_query_params = query, ir_cookies = cookies, ir_signing = None\<rparr>"

text \<open>\<open>x or default\<close> for an optional text.\<close>

definition or_else :: "string option \<Rightarrow> string \<Rightarrow> string" where
  "or_else x d = (case x of None \<Rightarrow> d | Some [] \<Rightarrow> d | Some s \<Rightarrow> s)"

definition inject_bearer ::
  "(string \<Rightarrow> string option) \<Rightarrow> resolved_credential \<Rightarrow> (injection_error, injection_result) result" where
  "inject_bearer decrypt c =
     (case rc_encrypted_secret c of
        None \<Rightarrow> Inl (Missing_Secret (rc_credential_id c))
      | Some secret \<Rightarrow>
          (case decrypt secret of
             None \<Rightarrow> Inl Undecryptable
           | Some token \<Rightarrow> Inr (injection [(''Authorization'', ''Bearer '' @ token)] [] [])))"

definition inject_api_key ::
  "(string \<Rightarrow> string option) \<Rightarrow> resolved_credential \<Rightarrow> (injection_error, injection_result) result" where
  "inject_api_key decrypt c =
     (case rc_encrypted_secret c of
        None \<Rightarrow> Inl (Missing_Secret (rc_credential_id c))
      | Some secret \<Rightarrow>
          (case decrypt secret of
             None \<Rightarrow> Inl Undecryptable
           | Some key \<Rightarrow>
               (let field_name = or_else (rc_field_name c) ''Authorization'' in
                case (case rc_location c of None \<Rightarrow> LOC_HEADER | Some l \<Rightarrow> l) of
                  LOC_QUERY \<Rightarrow> Inr (injection [] [(field_name, key)] [])
                | LOC_COOKIE \<Rightarrow> Inr (injection [] [] [(field_name, key)])
                | LOC_HEADER \<Rightarrow> Inr (injection [(field_name, key)] [] []))))"

definition inject_basic ::
  "(string \<Rightarrow> string option) \<Rightarrow> resolved_credential \<Rightarrow> (injection_error, injection_result) result" where
  "inject_basic decrypt c =
     (case rc_username c of
        None \<Rightarrow> Inl (Missing_Username (rc_credential_id c))
      | Some user \<Rightarrow>
          (case rc_encrypted_password c of
             None \<Rightarrow> Inl (Missing_Password (rc_credential_id c))
           | Some pw \<Rightarrow>
               (case decrypt pw of
                  None \<Rightarrow> Inl Undecryptable
                | Some pw \<Rightarrow>
                    Inr (injection [(''Authorization'', ''Basic '' @
                      b64encode (map char_of (utf8 (user @ '':'' @ pw))))] [] []))))"

definition inject_oauth2 :: "string option \<Rightarrow> (injection_error, injection_result) result" where
  "inject_oauth2 access_token =
     (case access_token of
        None \<Rightarrow> Inl Missing_Access_Token
      | Some token \<Rightarrow> Inr (injection [(''Authorization'', ''Bearer '' @ token)] [] []))"

definition inject_sigv4 ::
  "(string \<Rightarrow> string option) \<Rightarrow> resolved_credential \<Rightarrow> (injection_error, injection_result) result" where
  "inject_sigv4 decrypt c =
     (case rc_encrypted_secret_access_key c of
        None \<Rightarrow> Inl (Missing_Secret_Access_Key (rc_credential_id c))
      | Some secret \<Rightarrow>
          if or_else (rc_aws_region c) [] = [] \<or> or_else (rc_aws_service c) [] = []
          then Inl (Missing_Region_Or_Service (rc_credential_id c))
          else
            (case (case or_else (rc_encrypted_session_token c) [] of
                     [] \<Rightarrow> Some None
                   | t \<Rightarrow> map_option Some (decrypt t)) of
               None \<Rightarrow> Inl Undecryptable
             | Some session_token \<Rightarrow>
                 (case decrypt secret of
                    None \<Rightarrow> Inl Undecryptable
                  | Some key \<Rightarrow>
                      Inr ((injection [] [] [])\<lparr>ir_signing := Some
                        \<lparr>sv_access_key_id = or_else (rc_access_key_id c) [], sv_secret_access_key = key,
                         sv_region = or_else (rc_aws_region c) [], sv_service = or_else (rc_aws_service c) [],
                         sv_session_token = session_token\<rparr>\<rparr>))))"

definition inject_auth ::
  "(string \<Rightarrow> string option) \<Rightarrow> resolved_credential \<Rightarrow> string option
     \<Rightarrow> (injection_error, injection_result) result" where
  "inject_auth decrypt c access_token =
     (case rc_wire_type c of
        BEARER_TOKEN \<Rightarrow> inject_bearer decrypt c
      | API_KEY \<Rightarrow> inject_api_key decrypt c
      | BASIC \<Rightarrow> inject_basic decrypt c
      | OAUTH2 \<Rightarrow> inject_oauth2 access_token
      | NO_AUTH \<Rightarrow> Inr (injection [] [] [])
      | SIGV4 \<Rightarrow> inject_sigv4 decrypt c
      | OTHER_WIRE _ \<Rightarrow> Inl Unsupported_Wire_Type)"

section \<open>Outbound headers\<close>

lemma dict_update_all_injected:
  "dict_ok e \<Longrightarrow> (k, v) \<in> set e \<Longrightarrow> dict_get (dict_update_all d e) k = Some v"
  by (simp add: dict_update_all_get map_of_eq_Some_iff rev_map [symmetric])

text \<open>The injected headers of a request, the merged cookie included.\<close>

definition injected_headers :: "injected_auth \<Rightarrow> string option \<Rightarrow> headers" where
  "injected_headers auth inbound_cookie =
     (case merge_cookie inbound_cookie (ia_cookies auth) of
        None \<Rightarrow> ia_headers auth
      | Some c \<Rightarrow> dict_set ''Cookie'' c (ia_headers auth))"

lemma apply_injection_headers:
  "apply_injection hs url auth cookie defaults = Inr (url', out) \<Longrightarrow>
     out = overlay_headers hs (injected_headers auth cookie)"
  by (auto simp: apply_injection_def injected_headers_def Let_def rbind_Inr_iff)

lemma overlay_origin:
  assumes "(k, v) \<in> set (overlay_headers hs injected)"
  shows "(k, v) \<in> set injected \<or>
    ((k, v) \<in> set hs \<and> str_lower k \<notin> set (map (\<lambda>(n, v). str_lower n) injected) \<and> str_lower k \<noteq> ''cookie'')"
  using assms set_dict_update_all [of _ injected] comprehend_filter [of k v _ hs]
  unfolding overlay_headers_def by fastforce

text \<open>
  C35: what an outbound request may carry. Every header is either injected, or one the caller
  sent that is neither a broker header, a hop-by-hop or spoofable header, a cookie, the stale
  length, nor a name (in any letter case) that an injected credential sets; and every injected
  header is sent with its value.
\<close>

theorem outbound_headers_policy:
  assumes "apply_injection (forward_headers inbound []) url auth cookie defaults = Inr (url', out)"
    and "dict_ok (ia_headers auth)"
  shows "list_all (\<lambda>(k, v). (k, v) \<in> set (injected_headers auth cookie) \<or>
      ((k, v) \<in> set inbound \<and> forwardable k \<and> str_lower k \<noteq> ''cookie'' \<and>
       list_all (\<lambda>(n, w). str_lower n \<noteq> str_lower k) (injected_headers auth cookie))) out \<and>
    list_all (\<lambda>(n, w). dict_get out n = Some w) (injected_headers auth cookie)"
proof -
  have out: "out = overlay_headers (forward_headers inbound []) (injected_headers auth cookie)"
    by (rule apply_injection_headers [OF assms(1)])
  have ok: "dict_ok (injected_headers auth cookie)"
    using assms(2) by (auto simp: injected_headers_def dict_ok_set split: option.splits)
  have "(k, v) \<in> set inbound \<and> forwardable k" if "(k, v) \<in> set (forward_headers inbound [])" for k v
    using that comprehend_filter [of k v _ inbound] by (auto simp: forward_headers_def dict_update_all_def)
  then have "(k, v) \<in> set (injected_headers auth cookie) \<or>
      ((k, v) \<in> set inbound \<and> forwardable k \<and> str_lower k \<noteq> ''cookie'' \<and>
       list_all (\<lambda>(n, w). str_lower n \<noteq> str_lower k) (injected_headers auth cookie))"
    if "(k, v) \<in> set out" for k v
    using overlay_origin [OF that [unfolded out]] by (force simp: list_all_iff)
  moreover have "dict_get out n = Some w" if "(n, w) \<in> set (injected_headers auth cookie)" for n w
    unfolding out overlay_headers_def by (rule dict_update_all_injected [OF ok that])
  ultimately show ?thesis by (fastforce simp: list_all_iff)
qed

lemma outbound_headers_policy_witness:
  "\<exists>url' out. apply_injection
      (forward_headers [(''authorization'', ''Bearer agent''), (''Cookie'', ''a=b''), (''x-api-key'', ''mine''),
        (''accept'', ''*/*'')] [])
      ''https://api.example/v1'' \<lparr>ia_headers = [(''X-API-Key'', ''stored'')], ia_query_params = [(''q'', ''1 2'')],
        ia_cookies = [(''sid'', ''s'')], ia_server_variables = []\<rparr> (Some ''a=b'') None = Inr (url', out) \<and>
    url' = ''https://api.example/v1?q=1+2'' \<and>
    out = [(''accept'', ''*/*''), (''X-API-Key'', ''stored''), (''Cookie'', ''a=b; sid=s'')] \<and>
    list_all (\<lambda>(n, w). dict_get out n = Some w) [(''X-API-Key'', ''stored''), (''Cookie'', ''a=b; sid=s'')]"
proof -
  let ?auth = "\<lparr>ia_headers = [(''X-API-Key'', ''stored'')], ia_query_params = [(''q'', ''1 2'')],
        ia_cookies = [(''sid'', ''s'')], ia_server_variables = []\<rparr>"
  let ?inbound = "[(''authorization'', ''Bearer agent''), (''Cookie'', ''a=b''), (''x-api-key'', ''mine''),
        (''accept'', ''*/*'')]"
  have run: "apply_injection (forward_headers ?inbound []) ''https://api.example/v1'' ?auth (Some ''a=b'') None
      = Inr (''https://api.example/v1?q=1+2'',
          [(''accept'', ''*/*''), (''X-API-Key'', ''stored''), (''Cookie'', ''a=b; sid=s'')])"
    by code_simp
  have "injected_headers ?auth (Some ''a=b'') = [(''X-API-Key'', ''stored''), (''Cookie'', ''a=b; sid=s'')]"
    by code_simp
  with outbound_headers_policy [OF run] run show ?thesis by simp
qed

section \<open>Server variables and the shape of a URL\<close>

definition url_delimiter :: "char \<Rightarrow> bool" where
  "url_delimiter c = (c \<in> {CHR '':'', CHR ''/'', CHR ''?'', CHR ''#'', CHR ''@'', CHR ''['', CHR '']'', CHR 0x5C,
     CHR ''&'', CHR ''='', CHR '';''})"

lemma no_delimiter_quote: "filter url_delimiter (url_quote s) = []"
proof -
  have "filter url_delimiter (quote_byte n) = []" if n: "n < 256" for n
  proof (cases "always_safe n")
    case True
    have code: "char_code (char_of n) = n" using n by (rule char_code_char_of)
    have "\<not> url_delimiter (char_of n)"
    proof
      assume "url_delimiter (char_of n)"
      then have "n \<in> char_code ` {CHR '':'', CHR ''/'', CHR ''?'', CHR ''#'', CHR ''@'', CHR ''['', CHR '']'', CHR 0x5C,
          CHR ''&'', CHR ''='', CHR '';''}"
        using code unfolding url_delimiter_def by (metis image_eqI)
      with True show False by (auto simp: always_safe_def char_code_def)
    qed
    with True show ?thesis by (simp add: quote_byte_def)
  next
    case False
    have hex: "\<not> url_delimiter (upper_hex d)" if "d < 16" for d
    proof -
      have "char_code (upper_hex d) = (if d < 10 then 48 + d else 55 + d)"
        using that by (simp add: upper_hex_def char_code_char_of)
      moreover have "url_delimiter c \<Longrightarrow> char_code c \<in> {58, 47, 63, 35, 64, 91, 93, 92, 38, 61, 59}" for c
        by (auto simp: url_delimiter_def char_code_def)
      ultimately show ?thesis using that by (fastforce split: if_splits)
    qed
    have "n div 16 < 16" "n mod 16 < 16" using n by simp_all
    moreover have "\<not> url_delimiter (CHR ''%'')" by (simp add: url_delimiter_def)
    ultimately show ?thesis using False hex by (simp add: quote_byte_def)
  qed
  moreover have "list_all (\<lambda>n. n < 256) (utf8 s)"
  proof -
    have "192 + n div 64 < 256" "128 + n mod 64 < 256" if "n < 256" for n :: nat
    proof -
      have "n div 64 < 4" "n mod 64 < 64" using that by simp_all
      then show "192 + n div 64 < 256" "128 + n mod 64 < 256" by linarith+
    qed
    then show ?thesis using char_code_less by (auto simp: utf8_def list_all_iff Let_def split: if_splits)
  qed
  ultimately show ?thesis by (auto simp: url_quote_def filter_concat list_all_iff)
qed

lemma find_hit: "List.find P xs = Some x \<Longrightarrow> x \<in> set xs \<and> P x"
  by (induction xs) (auto split: if_splits)

lemma strip_any_delimiters:
  assumes "strip_any alts s = Some r" and "list_all (\<lambda>a. filter url_delimiter a = []) alts"
  shows "filter url_delimiter r = filter url_delimiter s"
proof -
  obtain a where f: "List.find (\<lambda>a. prefix a s) alts = Some a" and r: "r = drop (length a) s"
    using assms(1) by (cases "List.find (\<lambda>a. prefix a s) alts") (auto simp: strip_any_def)
  from find_hit [OF f] have a: "a \<in> set alts" "prefix a s" by blast+
  with r have "s = a @ r" by (auto simp: prefix_def)
  with a(1) assms(2) show ?thesis by (auto simp: list_all_iff)
qed

lemma server_var_at_delimiters:
  assumes "server_var_at name s = Some r" and "filter url_delimiter name = []"
  shows "filter url_delimiter r = filter url_delimiter s"
proof -
  obtain a b where ab: "strip_any [''{'', ''%7B'', ''%7b''] s = Some a" "strip_any [name] a = Some b"
    "strip_any [''}'', ''%7D'', ''%7d''] b = Some r"
    using assms(1) by (auto simp: server_var_at_def Option.bind_eq_Some_conv)
  have "list_all (\<lambda>a. filter url_delimiter a = []) [''{'', ''%7B'', ''%7b'', ''}'', ''%7D'', ''%7d'']"
    by (simp add: url_delimiter_def)
  then show ?thesis
    using strip_any_delimiters [OF ab(1)] strip_any_delimiters [OF ab(2)] strip_any_delimiters [OF ab(3)]
      assms(2) by simp
qed

lemma substitute_var_delimiters:
  "filter url_delimiter name = [] \<Longrightarrow> filter url_delimiter encoded = [] \<Longrightarrow>
     filter url_delimiter (substitute_var name encoded s) = filter url_delimiter s"
proof (induction name encoded s rule: substitute_var.induct)
  case (2 name encoded c cs)
  show ?case
  proof (cases "server_var_at name (c # cs)")
    case None
    with 2 show ?thesis by simp
  next
    case (Some rest)
    with 2 server_var_at_delimiters [OF Some] show ?thesis by simp
  qed
qed simp

lemma substitute_all_delimiters:
  "list_all (\<lambda>(name, val). filter url_delimiter name = []) pairs \<Longrightarrow>
     filter url_delimiter (fold (\<lambda>(name, val) url. substitute_var name (url_quote val) url) pairs url)
       = filter url_delimiter url"
  by (induction pairs arbitrary: url) (auto simp: substitute_var_delimiters no_delimiter_quote)

text \<open>
  Substituting server variables never changes the structure of a URL. Whatever the values
  are, and as long as the declared names contain no delimiter, the result has exactly the
  delimiters of the template, in the same order: a value cannot add a path segment, a query, a
  port, or move the host.
\<close>

theorem server_variables_keep_structure:
  assumes "list_all (\<lambda>(name, val). filter url_delimiter name = []) (variables @ defaults)"
  shows "filter url_delimiter (apply_server_variables url variables defaults) = filter url_delimiter url"
  unfolding apply_server_variables_def by (rule substitute_all_delimiters [OF assms])

lemma server_variables_keep_structure_witness:
  "apply_server_variables ''https://{region}.api.example/%7Bver%7D/x'' [(''region'', ''evil.com/a?b'')] [(''ver'', ''v1'')]
     = ''https://evil.com%2Fa%3Fb.api.example/v1/x'' \<and>
   filter url_delimiter (apply_server_variables ''https://{region}.api.example/%7Bver%7D/x''
     [(''region'', ''evil.com/a?b'')] [(''ver'', ''v1'')]) = ''://'' @ ''//''"
proof -
  have "filter url_delimiter ''https://{region}.api.example/%7Bver%7D/x'' = ''://'' @ ''//''"
    by (simp add: url_delimiter_def)
  moreover have names: "list_all (\<lambda>(name, val). filter url_delimiter name = []) ([(''region'', ''evil.com/a?b'')] @ [(''ver'', ''v1'')])"
    by (simp add: url_delimiter_def)
  moreover have "apply_server_variables ''https://{region}.api.example/%7Bver%7D/x'' [(''region'', ''evil.com/a?b'')] [(''ver'', ''v1'')]
     = ''https://evil.com%2Fa%3Fb.api.example/v1/x''"
    by code_simp
  ultimately show ?thesis
    using server_variables_keep_structure [OF names, of "''https://{region}.api.example/%7Bver%7D/x''"]
    by (simp only: simp_thms)
qed

end
