(* ===== verification/Public_Url.thy ===== *)
theory Public_Url
  imports Py_Url
begin

text \<open>
  The public-origin helpers of \<open>shared/url.py\<close>: validation of configured base and redirect URLs,
  origin comparison, loopback hosts. A \<open>ValueError\<close> is a constructor of \<open>public_url_error\<close>.
\<close>

datatype public_url_error =
    Not_Http
  | No_Host
  | Has_Userinfo
  | Has_Query_Or_Fragment
  | Bad_Port
  | Unparseable url_error

definition default_port :: "string \<Rightarrow> nat" where
  "default_port scheme = (if scheme = ''http'' then 80 else if scheme = ''https'' then 443 else 0)"

definition equivalent_hosts :: "string list" where
  "equivalent_hosts = [''0.0.0.0'', ''127.0.0.1'', ''localhost'', ''::1'']"

text \<open>\<open>username\<close> and \<open>password\<close> of a network location: what precedes the last \<open>@\<close>, at its first colon.\<close>

definition netloc_userinfo :: "string \<Rightarrow> string option \<times> string option" where
  "netloc_userinfo netloc =
     (if CHR ''@'' \<notin> set netloc then (None, None)
      else (let info = join_with (CHR ''@'') (butlast (split_on (CHR ''@'') netloc));
                (user, colon, pw) = partition_at (CHR '':'') info
            in (Some user, if colon then Some pw else None)))"

definition truthy :: "string option \<Rightarrow> bool" where
  "truthy x = (case x of None \<Rightarrow> False | Some s \<Rightarrow> s \<noteq> [])"

definition check_public_url :: "bool \<Rightarrow> string \<Rightarrow> (public_url_error, unit) result" where
  "check_public_url allow_query raw =
     (case urlsplit raw of
        Inl e \<Rightarrow> Inl (Unparseable e)
      | Inr parts \<Rightarrow>
          if url_scheme parts \<notin> {''http'', ''https''} then Inl Not_Http
          else if \<not> truthy (netloc_hostname (url_netloc parts)) then Inl No_Host
          else if truthy (fst (netloc_userinfo (url_netloc parts)))
               \<or> truthy (snd (netloc_userinfo (url_netloc parts))) then Inl Has_Userinfo
          else if (\<not> allow_query \<and> url_query parts \<noteq> []) \<or> url_fragment parts \<noteq> []
               then Inl Has_Query_Or_Fragment
          else (case netloc_port (url_netloc parts) of Inl _ \<Rightarrow> Inl Bad_Port | Inr _ \<Rightarrow> Inr ()))"

definition normalize_base_url :: "string \<Rightarrow> (public_url_error, string) result" where
  "normalize_base_url raw =
     rbind (check_public_url False raw) (\<lambda>_. Inr (rstrip_char (CHR ''/'') raw))"

definition validate_redirect_uri :: "string \<Rightarrow> (public_url_error, string) result" where
  "validate_redirect_uri raw = rbind (check_public_url True raw) (\<lambda>_. Inr raw)"

text \<open>
  \<open>_origin\<close>; an unparseable port is no origin, and an explicit port 0 counts as absent, as
  Python's \<open>or\<close> does.
\<close>

definition url_origin :: "string \<Rightarrow> (url_error, (string \<times> string \<times> nat) option) result" where
  "url_origin url =
     rbind (urlsplit url) (\<lambda>parts.
       case netloc_hostname (url_netloc parts) of
         None \<Rightarrow> Inr None
       | Some host \<Rightarrow>
           if url_scheme parts = [] \<or> host = [] then Inr None
           else (case netloc_port (url_netloc parts) of
                   Inl _ \<Rightarrow> Inr None
                 | Inr port \<Rightarrow>
                     Inr (Some (url_scheme parts, host,
                       case port of Some p \<Rightarrow> if p = 0 then default_port (url_scheme parts) else p
                                  | None \<Rightarrow> default_port (url_scheme parts)))))"

definition same_origin :: "(string \<times> string \<times> nat) option \<Rightarrow> (string \<times> string \<times> nat) option \<Rightarrow> bool" where
  "same_origin oa ob =
     (case (oa, ob) of
        (Some (scheme_a, host_a, port_a), Some (scheme_b, host_b, port_b)) \<Rightarrow>
          if scheme_a \<noteq> scheme_b \<or> port_a \<noteq> port_b then False
          else if host_a = host_b then True
          else host_a \<in> set equivalent_hosts \<and> host_b \<in> set equivalent_hosts
      | _ \<Rightarrow> False)"

definition origins_equivalent :: "string \<Rightarrow> string \<Rightarrow> (url_error, bool) result" where
  "origins_equivalent a b =
     rbind (url_origin a) (\<lambda>oa. rbind (url_origin b) (\<lambda>ob. Inr (same_origin oa ob)))"

definition strip_brackets :: "string \<Rightarrow> string" where
  "strip_brackets s =
     (let p = (\<lambda>c. c = CHR ''['' \<or> c = CHR '']'') in rev (dropWhile p (rev (dropWhile p s))))"

definition is_loopback_host :: "string \<Rightarrow> bool" where
  "is_loopback_host host =
     (let host = str_lower (strip_brackets host) in
      if host = ''localhost'' then True
      else (case parse_ip host of None \<Rightarrow> False | Some a \<Rightarrow> is_loopback a))"

definition is_loopback_url :: "string \<Rightarrow> (url_error, bool) result" where
  "is_loopback_url url =
     rbind (urlsplit url) (\<lambda>parts.
       Inr (truthy (netloc_hostname (url_netloc parts)) \<and>
         is_loopback_host (case netloc_hostname (url_netloc parts) of None \<Rightarrow> [] | Some h \<Rightarrow> h)))"

text \<open>On comparable origins the comparison is an equivalence relation.\<close>

lemma same_origin_iff:
  "same_origin oa ob \<longleftrightarrow>
     (\<exists>s h h' p. oa = Some (s, h, p) \<and> ob = Some (s, h', p) \<and>
        (h = h' \<or> (h \<in> set equivalent_hosts \<and> h' \<in> set equivalent_hosts)))"
  by (cases oa; cases ob) (auto simp: same_origin_def)

lemma same_origin_equivalence:
  "oa \<noteq> None \<Longrightarrow> same_origin oa oa"
  "same_origin oa ob \<Longrightarrow> same_origin ob oa"
  "same_origin oa ob \<Longrightarrow> same_origin ob oc \<Longrightarrow> same_origin oa oc"
  unfolding same_origin_iff by fastforce+

lemma public_url_examples:
  "normalize_base_url ''https://api.example:8443/gw/'' = Inr ''https://api.example:8443/gw''"
  "normalize_base_url ''https://u:p@api.example'' = Inl Has_Userinfo"
  "origins_equivalent ''http://0.0.0.0'' ''http://localhost:80/x'' = Inr True"
  "is_loopback_url ''http://[::1]:9/'' = Inr True"
  by code_simp+

end
