(* ===== verification/Circuit.thy ===== *)
theory Circuit
  imports Store_Interface
begin

text \<open>
  The circuit breaker and the rate limiter of \<open>shared/resilience\<close>: policy over the shared-state
  backend. The breaker takes any \<open>state_store\<close>; the limiter's token bucket is the in-process
  backend's. Clock readings of the store calls are arguments. Telemetry is left out.
\<close>

section \<open>Circuit breaker\<close>

record breaker =
  failure_ratio :: real
  min_calls :: int
  window_s :: real
  cooldown_s :: int

datatype circuit_state = CLOSED | OPEN

record circuit_decision =
  cd_state :: circuit_state
  cd_allowed :: bool
  cd_retry_after :: int

definition open_key :: "string \<Rightarrow> string" where "open_key host = ''cb:open:'' @ host"
definition total_key :: "string \<Rightarrow> string" where "total_key host = ''cb:total:'' @ host"
definition fail_key :: "string \<Rightarrow> string" where "fail_key host = ''cb:fail:'' @ host"
definition report_key :: "string \<Rightarrow> string" where "report_key host = ''cb:report:'' @ host"
definition open_value :: string where "open_value = ''1''"

definition allow_call :: "'s state_store \<Rightarrow> breaker \<Rightarrow> real \<Rightarrow> string \<Rightarrow> 's \<Rightarrow> circuit_decision \<times> 's" where
  "allow_call st cb now host s =
     (let (latch, s) = sto_get st now (open_key host) s in
      case latch of
        Some _ \<Rightarrow> (\<lparr>cd_state = OPEN, cd_allowed = False, cd_retry_after = cooldown_s cb\<rparr>, s)
      | None \<Rightarrow> (\<lparr>cd_state = CLOSED, cd_allowed = True, cd_retry_after = 0\<rparr>, s))"

text \<open>A refused claim and any other error of the store report nothing.\<close>

definition claim_open_report :: "'s state_store \<Rightarrow> breaker \<Rightarrow> real \<times> real \<Rightarrow> string \<Rightarrow> 's \<Rightarrow> bool \<times> 's" where
  "claim_open_report st cb ts host s =
     (let (r, s) = sto_claim st (fst ts) (snd ts) (report_key host) open_value (of_int (cooldown_s cb)) s in
      (case r of Inr claimed \<Rightarrow> claimed | Inl _ \<Rightarrow> False, s))"

text \<open>
  \<open>_record\<close>: the clock readings of the total's increment, the failures' increment and the
  latch's claim. A ratio over a total of zero would be a division error; the total is at least
  one after its increment.
\<close>

definition trip_latch ::
  "'s state_store \<Rightarrow> breaker \<Rightarrow> real \<times> real \<Rightarrow> string \<Rightarrow> 's \<Rightarrow> (state_error, unit) result \<times> 's" where
  "trip_latch st cb ts host s =
     (let (r, s) = sto_claim st (fst ts) (snd ts) (open_key host) open_value (of_int (cooldown_s cb)) s in
      (case r of
         Inr _ \<Rightarrow> Inr ()
       | Inl e \<Rightarrow> if is_capacity_error e then Inr () else Inl e, s))"

definition record_counts ::
  "'s state_store \<Rightarrow> breaker \<Rightarrow> (real \<times> real) \<times> (real \<times> real) \<times> (real \<times> real) \<Rightarrow> string \<Rightarrow> bool \<Rightarrow> 's
     \<Rightarrow> (state_error, unit) result \<times> 's" where
  "record_counts st cb ts host good s =
     (let (t_total, t_fail, t_open) = ts;
          (r, s) = sto_incr st (fst t_total) (snd t_total) (total_key host) (window_s cb) 1 s in
      case r of
        Inl e \<Rightarrow> (Inl e, s)
      | Inr total_calls \<Rightarrow>
          if good then (Inr (), s)
          else
            (let (r, s) = sto_incr st (fst t_fail) (snd t_fail) (fail_key host) (window_s cb) 1 s in
             case r of
               Inl e \<Rightarrow> (Inl e, s)
             | Inr failures \<Rightarrow>
                 if total_calls < min_calls cb then (Inr (), s)
                 else if failure_ratio cb \<le> of_int failures / of_int total_calls
                 then trip_latch st cb t_open host s
                 else (Inr (), s)))"

definition record_outcome ::
  "'s state_store \<Rightarrow> breaker \<Rightarrow> (real \<times> real) \<times> (real \<times> real) \<times> (real \<times> real) \<Rightarrow> string \<Rightarrow> bool \<Rightarrow> 's
     \<Rightarrow> (state_error, unit) result \<times> 's" where
  "record_outcome st cb ts host good s =
     (let (r, s) = record_counts st cb ts host good s in
      (case r of
         Inr _ \<Rightarrow> Inr ()
       | Inl e \<Rightarrow> if is_capacity_error e then Inr () else Inl e, s))"

section \<open>Rate limiter\<close>

record rate_limiter =
  rate_per_s :: real
  rl_burst :: int
  key_prefix :: string

definition init_limiter :: "int \<Rightarrow> int \<Rightarrow> string \<Rightarrow> rate_limiter" where
  "init_limiter default_rpm burst namespace =
     \<lparr>rate_per_s = of_int default_rpm / 60, rl_burst = burst, key_prefix = ''rl:'' @ namespace @ '':''\<rparr>"

record rate_limit_outcome =
  ro_allowed :: bool
  ro_limit :: int
  ro_remaining :: int
  ro_retry_after :: int

definition rate_limit_headers :: "rate_limit_outcome \<Rightarrow> (string, string) dict" where
  "rate_limit_headers r =
     [(''RateLimit-Limit'', str_of_int (ro_limit r)),
      (''RateLimit-Remaining'', str_of_int (max 0 (ro_remaining r)))]"

text \<open>\<open>math.ceil\<close> of an infinite wait (a limiter without refill) is an \<open>OverflowError\<close>.\<close>

datatype limiter_error = Overflow_Error

definition acquire ::
  "backend_config \<Rightarrow> rate_limiter \<Rightarrow> real \<Rightarrow> string \<Rightarrow> int \<Rightarrow> backend
     \<Rightarrow> (limiter_error, rate_limit_outcome) result \<times> backend" where
  "acquire C limiter now actor_id cost s =
     (let (d, s) = token_bucket C now (key_prefix limiter @ actor_id) (rate_per_s limiter) (rl_burst limiter) cost s in
      (if rl_allowed d
       then Inr \<lparr>ro_allowed = True, ro_limit = rl_limit d, ro_remaining = rl_remaining d, ro_retry_after = 0\<rparr>
       else (case rl_retry_after d of
               None \<Rightarrow> Inl Overflow_Error
             | Some w \<Rightarrow> Inr \<lparr>ro_allowed = False, ro_limit = rl_limit d, ro_remaining = rl_remaining d,
                               ro_retry_after = \<lceil>w\<rceil>\<rparr>), s))"

section \<open>The breaker over the laws of its store\<close>

text \<open>The store after the two increments of a failed call.\<close>

definition after_counts ::
  "'s state_store \<Rightarrow> breaker \<Rightarrow> (real \<times> real) \<times> (real \<times> real) \<times> (real \<times> real) \<Rightarrow> string \<Rightarrow> 's \<Rightarrow> 's" where
  "after_counts st cb ts host s =
     snd (sto_incr st (fst (fst (snd ts))) (snd (fst (snd ts))) (fail_key host) (window_s cb) 1
       (snd (sto_incr st (fst (fst ts)) (snd (fst ts)) (total_key host) (window_s cb) 1 s)))"

lemmas breaker_keys = open_key_def total_key_def fail_key_def report_key_def

context counting_store
begin

text \<open>While the latch lives every call is refused, and it costs the upstream nothing.\<close>

lemma allow_open:
  "ok s \<Longrightarrow> entry_of s (open_key host) = Some (v, d) \<Longrightarrow> now < d \<Longrightarrow>
     allow_call st cb now host s =
       (\<lparr>cd_state = OPEN, cd_allowed = False, cd_retry_after = cooldown_s cb\<rparr>, s)"
  using get_live by (simp add: allow_call_def)

lemma allow_closed:
  "ok s \<Longrightarrow> \<nexists>v d. entry_of s (open_key host) = Some (v, d) \<and> now < d \<Longrightarrow>
     cd_allowed (fst (allow_call st cb now host s))"
  using get_dead [of s "open_key host" now]
  by (cases "sto_get st now (open_key host) s") (simp add: allow_call_def)

lemma allow_keeps: "ok s \<Longrightarrow> preserved ok entry_of [now] [] s (snd (allow_call st cb now host s))"
  using get_keeps [of s now "open_key host"]
  by (cases "sto_get st now (open_key host) s") (auto simp: allow_call_def split: option.splits)

lemma trip_latch_opens:
  assumes "ok s" and "trip_latch st cb (t, t') host s = (r, s')"
    and "\<And>e. fst (sto_claim st t t' (open_key host) open_value (of_int (cooldown_s cb)) s) \<noteq> Inl e"
  shows "ok s' \<and> (\<exists>v d. entry_of s' (open_key host) = Some (v, d) \<and> (d = t' + of_int (cooldown_s cb) \<or> t < d))"
proof -
  obtain q s1 where c: "sto_claim st t t' (open_key host) open_value (of_int (cooldown_s cb)) s = (q, s1)"
    by fastforce
  then obtain b where b: "q = Inr b" using assms(3) by (cases q) auto
  have s': "s' = s1" using assms(2) c b by (simp add: trip_latch_def)
  have k: "preserved ok entry_of [t, t'] [] s s1"
    using claim_keeps [OF assms(1), of t t' "open_key host" open_value "of_int (cooldown_s cb)"] c by simp
  show ?thesis
  proof (cases b)
    case True
    have "entry_of s1 (open_key host) = Some (open_value, t' + of_int (cooldown_s cb))"
      by (rule claim_written [OF assms(1)]) (use c b True in simp)
    with k s' show ?thesis by (auto dest: preservedD(1))
  next
    case False
    with c b have "sto_claim st t t' (open_key host) open_value (of_int (cooldown_s cb)) s = (Inr False, s1)"
      by simp
    from claim_dead [OF assms(1) this] obtain v d where e: "entry_of s (open_key host) = Some (v, d)" "t < d"
      by blast
    have "s1 = s" using claim_live [OF assms(1) e] c by simp
    with e k s' show ?thesis by (auto dest: preservedD(1))
  qed
qed

lemma record_trips:
  assumes s: "ok s"
    and n: "entry_of s (total_key host) = Some (str_of_int n, dn)" "snd t_total < dn"
    and f: "entry_of s (fail_key host) = Some (str_of_int f, df)" "snd t_fail < df"
      "fst t_total < df" "snd t_total < df"
    and cross: "min_calls cb \<le> n + 1" "failure_ratio cb \<le> of_int (f + 1) / of_int (n + 1)"
    and run: "record_outcome st cb (t_total, t_fail, (t, t')) host False s = (Inr (), s')"
    and counted: "fst (record_counts st cb (t_total, t_fail, (t, t')) host False s) = Inr ()"
    and room: "\<And>e. fst (sto_claim st t t' (open_key host) open_value (of_int (cooldown_s cb))
      (after_counts st cb (t_total, t_fail, (t, t')) host s)) \<noteq> Inl e"
  shows "ok s' \<and> (\<exists>v d. entry_of s' (open_key host) = Some (v, d) \<and> (d = t' + of_int (cooldown_s cb) \<or> t < d))"
proof -
  obtain q1 s1 where i1: "sto_incr st (fst t_total) (snd t_total) (total_key host) (window_s cb) 1 s = (q1, s1)"
    by fastforce
  obtain m where m: "q1 = Inr m" using counted i1 by (cases q1) (auto simp: record_counts_def)
  have m': "m = n + 1" using incr_live [OF s n(1,2)] i1 m by blast
  have k1: "preserved ok entry_of [fst t_total, snd t_total] [total_key host] s s1"
    using incr_keeps [OF s, of "fst t_total" "snd t_total" "total_key host" "window_s cb" 1] i1 by simp
  have s1: "ok s1" using k1 by (rule preservedD(1))
  have f1: "entry_of s1 (fail_key host) = Some (str_of_int f, df)"
    by (rule preservedD(2) [OF k1]) (use f in \<open>auto simp: breaker_keys\<close>)
  obtain q2 s2 where i2: "sto_incr st (fst t_fail) (snd t_fail) (fail_key host) (window_s cb) 1 s1 = (q2, s2)"
    by fastforce
  obtain g where g: "q2 = Inr g" using counted i1 m i2 by (cases q2) (auto simp: record_counts_def)
  have g': "g = f + 1" using incr_live [OF s1 f1 f(2)] i2 g by blast
  have s2: "ok s2"
    using incr_keeps [OF s1, of "fst t_fail" "snd t_fail" "fail_key host" "window_s cb" 1] i2
    by (auto dest: preservedD(1))
  obtain r where r: "trip_latch st cb (t, t') host s2 = (r, s')"
    using run i1 m i2 g m' g' cross
    by (auto simp: record_outcome_def record_counts_def split: prod.splits)
  have "after_counts st cb (t_total, t_fail, (t, t')) host s = s2" using i1 i2 by (simp add: after_counts_def)
  with trip_latch_opens [OF s2 r] room show ?thesis by simp
qed

lemma report_once:
  assumes "ok s" and "claim_open_report st cb (t, t') host s = (True, s')"
  shows "ok s' \<and> entry_of s' (report_key host) = Some (open_value, t' + of_int (cooldown_s cb))"
proof -
  obtain q s1 where c: "sto_claim st t t' (report_key host) open_value (of_int (cooldown_s cb)) s = (q, s1)"
    by fastforce
  with assms(2) have "q = Inr True \<and> s' = s1" by (auto simp: claim_open_report_def split: sum.splits)
  with claim_written [OF assms(1)] claim_keeps [OF assms(1), of t t' "report_key host" open_value "of_int (cooldown_s cb)"] c
  show ?thesis by (auto dest: preservedD(1))
qed

lemma report_again:
  "ok s \<Longrightarrow> entry_of s (report_key host) = Some (v, d) \<Longrightarrow> t < d \<Longrightarrow>
     claim_open_report st cb (t, t') host s = (False, s)"
  using claim_live by (simp add: claim_open_report_def)

text \<open>The only way a closed circuit opens: both counters counted and the ratio crossed.\<close>

lemma record_opens:
  assumes s: "ok s" and closed: "entry_of s (open_key host) = None"
    and run: "record_outcome st cb (t_total, t_fail, (t, t')) host good s = (r, s')"
    and opened: "entry_of s' (open_key host) = Some (v, d)"
  shows "ok s' \<and> \<not> good \<and> d = t' + of_int (cooldown_s cb) \<and>
    (\<exists>m g. fst (sto_incr st (fst t_total) (snd t_total) (total_key host) (window_s cb) 1 s) = Inr m \<and>
       fst (sto_incr st (fst t_fail) (snd t_fail) (fail_key host) (window_s cb) 1
         (snd (sto_incr st (fst t_total) (snd t_total) (total_key host) (window_s cb) 1 s))) = Inr g \<and>
       min_calls cb \<le> m \<and> failure_ratio cb \<le> of_int g / of_int m)"
proof -
  obtain q1 s1 where i1: "sto_incr st (fst t_total) (snd t_total) (total_key host) (window_s cb) 1 s = (q1, s1)"
    by fastforce
  have s1: "ok s1" "entry_of s1 (open_key host) = None"
    using incr_keeps [OF s, of "fst t_total" "snd t_total" "total_key host" "window_s cb" 1] i1
      incr_frame [OF s _ closed, of "total_key host" "fst t_total" "snd t_total" "window_s cb" 1]
    by (auto simp: breaker_keys dest: preservedD(1))
  obtain q2 s2 where i2: "sto_incr st (fst t_fail) (snd t_fail) (fail_key host) (window_s cb) 1 s1 = (q2, s2)"
    by fastforce
  have s2: "ok s2" "entry_of s2 (open_key host) = None"
    using incr_keeps [OF s1(1), of "fst t_fail" "snd t_fail" "fail_key host" "window_s cb" 1] i2
      incr_frame [OF s1(1) _ s1(2), of "fail_key host" "fst t_fail" "snd t_fail" "window_s cb" 1]
    by (auto simp: breaker_keys dest: preservedD(1))
  obtain m where m: "q1 = Inr m" "\<not> good"
    using run i1 s1(2) opened
    by (cases q1) (auto simp: record_outcome_def record_counts_def split: if_splits)
  obtain g where g: "q2 = Inr g"
    using run i1 m i2 s2(2) opened by (cases q2) (auto simp: record_outcome_def record_counts_def)
  have cross: "min_calls cb \<le> m \<and> failure_ratio cb \<le> of_int g / of_int m"
    using run i1 m i2 g s2(2) opened
    by (auto simp: record_outcome_def record_counts_def split: if_splits)
  obtain q3 s3 where c: "sto_claim st t t' (open_key host) open_value (of_int (cooldown_s cb)) s2 = (q3, s3)"
    by fastforce
  have s': "s' = s3"
    using run i1 m i2 g cross c
    by (auto simp: record_outcome_def record_counts_def trip_latch_def split: if_splits)
  have ok3: "ok s3"
    using claim_keeps [OF s2(1), of t t' "open_key host" open_value "of_int (cooldown_s cb)"] c
    by (auto dest: preservedD(1))
  have "q3 = Inr True"
  proof (cases q3)
    case (Inl e)
    with claim_refused [OF s2(1) c [unfolded Inl]] s2(2) s' opened show ?thesis by simp
  next
    case (Inr b)
    show ?thesis
    proof (cases b)
      case False
      with Inr c have "sto_claim st t t' (open_key host) open_value (of_int (cooldown_s cb)) s2 = (Inr False, s3)"
        by simp
      from claim_dead [OF s2(1) this] s2(2) show ?thesis by simp
    qed (use Inr in simp)
  qed
  with claim_written [OF s2(1), of t t' "open_key host"] c have
    "entry_of s3 (open_key host) = Some (open_value, t' + of_int (cooldown_s cb))" by simp
  with opened s' ok3 m i1 i2 g cross show ?thesis by auto
qed

end

section \<open>Properties\<close>

text \<open>
  A circuit opens for cause and then sheds. When recording an outcome opens the circuit of
  a host, the outcome was a failure and the two counters of the window reached the minimum and
  the ratio; and from then on every call to the host is refused until the cooldown has passed,
  whatever else the backend serves.
\<close>

theorem opened_circuit_sheds:
  assumes "reachable C s" and "memory_entry s (open_key host) = None"
    and "record_outcome (memory_store C) cb (t_total, t_fail, (t, t')) host good s = (r, s')"
    and "memory_entry s' (open_key host) = Some (v, d)"
    and "leaves (t' + of_int (cooldown_s cb)) [open_key host] ops" and "now < t' + of_int (cooldown_s cb)"
  shows "\<not> good \<and>
    (\<exists>m g. fst (incr_with_ttl C (fst t_total) (snd t_total) (total_key host) (window_s cb) 1 s) = Inr m \<and>
       fst (incr_with_ttl C (fst t_fail) (snd t_fail) (fail_key host) (window_s cb) 1
         (snd (incr_with_ttl C (fst t_total) (snd t_total) (total_key host) (window_s cb) 1 s))) = Inr g \<and>
       min_calls cb \<le> m \<and> failure_ratio cb \<le> of_int g / of_int m) \<and>
    \<not> cd_allowed (fst (allow_call (memory_store C) cb now host (run C ops s')))"
proof -
  from memory_counters.record_opens [OF reachable_memory_inv [OF assms(1)] assms(2,3,4)]
  have o: "memory_inv C s'" "\<not> good" "d = t' + of_int (cooldown_s cb)"
    and c: "\<exists>m g. fst (incr_with_ttl C (fst t_total) (snd t_total) (total_key host) (window_s cb) 1 s) = Inr m \<and>
       fst (incr_with_ttl C (fst t_fail) (snd t_fail) (fail_key host) (window_s cb) 1
         (snd (incr_with_ttl C (fst t_total) (snd t_total) (total_key host) (window_s cb) 1 s))) = Inr g \<and>
       min_calls cb \<le> m \<and> failure_ratio cb \<le> of_int g / of_int m"
    by (simp_all add: memory_store_def)
  have "memory_entry (run C ops s') (open_key host) = Some (v, d)"
    by (rule run_leaves(2) [OF o(1) assms(5) _ assms(4)]) (simp_all add: o)
  from memory_counters.allow_open [OF run_leaves(1) [OF o(1) assms(5)] this, of now cb] assms(6) o c
  show ?thesis by simp
qed

definition demo_breaker :: breaker where
  "demo_breaker = \<lparr>failure_ratio = 1 / 2, min_calls = 3, window_s = 60, cooldown_s = 30\<rparr>"

definition roomy_config :: backend_config where
  "roomy_config = \<lparr>default_budget = \<lparr>max_entries = 100, max_bytes = 100000, max_owner_share = None\<rparr>,
     namespace_budgets = [], max_total_bytes = 1000000, sweep_interval = 30\<rparr>"

lemma roomy_init: "init_backend roomy_config 0 = Inr demo_state"
  by (simp add: init_backend_def roomy_config_def demo_state_def budget_valid_def dict_update_all_def)

definition record_at :: "breaker \<Rightarrow> real \<times> bool \<Rightarrow> backend \<Rightarrow> backend" where
  "record_at cb call s =
     (let t = (fst call, fst call) in
      snd (record_outcome (memory_store roomy_config) cb (t, t, t) ''h'' (snd call) s))"

lemma opened_circuit_sheds_witness:
  "\<exists>s'. memory_entry s' (open_key ''h'') = Some (''1'', 35) \<and>
     \<not> cd_allowed (fst (allow_call (memory_store roomy_config) (demo_breaker\<lparr>min_calls := 1\<rparr>) 30 ''h''
       (run roomy_config [Op_Set 7 ''idem:b:k'' ''x'' 5] s')))"
proof -
  let ?cb = "demo_breaker\<lparr>min_calls := 1\<rparr>"
  let ?out = "record_outcome (memory_store roomy_config) ?cb ((5, 5), (5, 5), (5, 5)) ''h'' False demo_state"
  have r: "reachable roomy_config demo_state" by (rule reachable.start [OF roomy_init])
  have e: "memory_entry (snd ?out) (open_key ''h'') = Some (''1'', 35)" by code_simp
  have n: "memory_entry demo_state (open_key ''h'') = None" by code_simp
  have l: "leaves (5 + of_int (cooldown_s ?cb)) [open_key ''h''] [Op_Set 7 ''idem:b:k'' ''x'' 5]"
    by (simp add: leaves_def demo_breaker_def open_key_def)
  have now: "(30::real) < 5 + of_int (cooldown_s ?cb)" by (simp add: demo_breaker_def)
  from opened_circuit_sheds [OF r n prod.collapse [symmetric] e l now] e show ?thesis by blast
qed

definition calls_between :: "real \<Rightarrow> real \<Rightarrow> (real \<times> bool) list \<Rightarrow> (real \<times> bool) list" where
  "calls_between lo hi calls = filter (\<lambda>c. lo \<le> fst c \<and> fst c \<le> hi) calls"

definition skewed_calls :: "(real \<times> bool) list" where
  "skewed_calls = [(0, True), (50, False), (55, True), (61, True), (62, True), (63, False)]"

text \<open>
  The two counters do not cover the same window. The failures' window starts at its own
  first failure, so failures counted before the total was reset still count against the new
  total: with a ratio of one half, three calls in the total's window and five in the last 60
  seconds, of which one and two failed, open the circuit.
\<close>

theorem circuit_windows_skew:
  "\<not> cd_allowed (fst (allow_call (memory_store roomy_config) demo_breaker 64 ''h''
      (fold (record_at demo_breaker) skewed_calls demo_state))) \<and>
   cd_allowed (fst (allow_call (memory_store roomy_config) demo_breaker 62 ''h''
      (fold (record_at demo_breaker) (butlast skewed_calls) demo_state))) \<and>
   map snd (calls_between 3 63 skewed_calls) = [False, True, True, True, False] \<and>
   map snd (calls_between 60 63 skewed_calls) = [True, True, False]"
  by code_simp

section \<open>The limiter's retry hint\<close>

lemma run_other_buckets:
  "backend_inv C s \<Longrightarrow> list_all (\<lambda>op. \<not> is_bucket_op key op) ops \<Longrightarrow>
     dict_get (buckets (run C ops s)) key = dict_get (buckets s) key \<or> dict_get (buckets (run C ops s)) key = None"
proof (induction ops arbitrary: s)
  case (Cons op ops)
  have "backend_inv C (step C op s)" using step_keeps [OF Cons.prems(1)] by (simp add: keeps_def)
  from Cons.IH [OF this] step_buckets [OF Cons.prems(1), of key op] Cons.prems(2) show ?case by auto
qed simp

text \<open>
  The limiter's retry hint is sufficient. A caller who is denied, waits the whole seconds
  it was told and asks again for the same cost is served, whatever other operations the backend
  ran in between, provided none of them spent from its bucket and the cost fits the burst; and
  the hint is at least one second.
\<close>

theorem retry_after_suffices:
  assumes "reachable C s" and "acquire C limiter now actor cost s = (Inr r, s1)" and "\<not> ro_allowed r"
    and "cost \<le> rl_burst limiter" and "0 < rate_per_s limiter"
    and "list_all (\<lambda>op. \<not> is_bucket_op (key_prefix limiter @ actor) op) ops"
    and "now + of_int (ro_retry_after r) \<le> later"
  shows "1 \<le> ro_retry_after r \<and> (\<exists>r' s3. acquire C limiter later actor cost (run C ops s1) = (Inr r', s3) \<and> ro_allowed r')"
proof -
  let ?s2 = "run C ops s1"
  let ?key = "key_prefix limiter @ actor" and ?rate = "rate_per_s limiter" and ?burst = "rl_burst limiter"
  define left where "left = (\<lambda>now s. min (of_int ?burst)
    (case dict_get (buckets (maybe_sweep C now s)) ?key of
       Some b \<Rightarrow> b_tokens b + max 0 (now - b_updated b) * ?rate | None \<Rightarrow> of_int ?burst))"
  have allowed: "rl_allowed (fst (token_bucket C now ?key ?rate ?burst cost s)) = (of_int cost \<le> left now s)" for now s
    using token_bucket_get(1) [of C now ?key ?rate ?burst cost s]
    by (cases "dict_get (buckets (maybe_sweep C now s)) ?key") (simp_all add: left_def)
  obtain d where d: "token_bucket C now ?key ?rate ?burst cost s = (d, s1)"
    using assms(2) by (cases "token_bucket C now ?key ?rate ?burst cost s") (auto simp: acquire_def)
  have denied: "\<not> rl_allowed d" using assms(2,3) d by (auto simp: acquire_def split: if_splits)
  then have short: "left now s < of_int cost" using allowed [of now s] d by simp
  have wait: "rl_retry_after d = Some ((of_int cost - left now s) / ?rate)"
    using d denied assms(5)
    by (cases "dict_get (buckets (maybe_sweep C now s)) ?key")
       (auto simp: token_bucket_def Let_def left_def split: if_splits)
  have r: "ro_retry_after r = \<lceil>(of_int cost - left now s) / ?rate\<rceil>"
    using assms(2) d denied wait by (auto simp: acquire_def)
  have "1 \<le> ro_retry_after r" using short assms(5) unfolding r by simp
  moreover have "of_int cost \<le> left later ?s2"
  proof -
    obtain nb where nb: "dict_get (buckets s1) ?key = Some nb" "b_tokens nb = left now s" "b_updated nb = now"
    proof -
      let ?b = "case dict_get (buckets (maybe_sweep C now s)) ?key of Some b \<Rightarrow> b
        | None \<Rightarrow> \<lparr>b_tokens = of_int ?burst, b_updated = now, b_full = Minus_Inf\<rparr>"
      have l: "left now s = min (of_int ?burst) (b_tokens ?b + max 0 (now - b_updated ?b) * ?rate)"
        by (cases "dict_get (buckets (maybe_sweep C now s)) ?key") (simp_all add: left_def)
      from token_bucket_get(2) [where C = C and now = now and key = ?key and rate = ?rate
          and burst = ?burst and cost = cost and s = s, folded l, unfolded d snd_conv]
      obtain nb where "b_tokens nb = (if of_int cost \<le> left now s then left now s - of_int cost else left now s)"
        "b_updated nb = now"
        "\<forall>k. dict_get (buckets s1) k = (if k = ?key then Some nb else dict_get (buckets (maybe_sweep C now s)) k)"
        by blast
      with short have "b_tokens nb = left now s" "b_updated nb = now" "dict_get (buckets s1) ?key = Some nb"
        by simp_all
      then show thesis using that by blast
    qed
    have "(of_int cost - left now s) / ?rate \<le> later - now" using assms(7) unfolding r by linarith
    then have "of_int cost - left now s \<le> (later - now) * ?rate" using assms(5) by (simp add: pos_divide_le_eq)
    also have "\<dots> \<le> max 0 (later - now) * ?rate" using assms(5) by (intro mult_right_mono) auto
    finally have "of_int cost \<le> b_tokens nb + max 0 (later - b_updated nb) * ?rate" using nb by simp
    moreover have "dict_get (buckets (maybe_sweep C later ?s2)) ?key = Some nb
        \<or> dict_get (buckets (maybe_sweep C later ?s2)) ?key = None"
    proof -
      have "keeps C [now] [] s s1"
        using token_bucket_keeps [of C s now ?key ?rate ?burst cost] reachable_inv [OF assms(1)] d by simp
      then have s1: "backend_inv C s1" by (simp add: keeps_def)
      have "backend_inv C ?s2" using run_keeps [OF s1] by (simp add: keeps_def)
      from maybe_sweep_buckets [OF this, where now = later] run_other_buckets [OF s1 assms(6)] nb(1) show ?thesis
        unfolding buckets_drop_def by metis
    qed
    ultimately show ?thesis using assms(4) by (auto simp: left_def)
  qed
  ultimately show ?thesis
    using allowed [where now = later and s = ?s2] by (auto simp: acquire_def split: prod.splits)
qed

definition demo_limiter :: rate_limiter where
  "demo_limiter = init_limiter 60 1 ''caller''"

lemma retry_after_suffices_witness:
  "\<exists>s1 r s2. acquire roomy_config demo_limiter 1 ''a'' 1 (step roomy_config
        (Op_Token_Bucket 1 ''rl:caller:a'' 1 1 1) demo_state) = (Inr r, s1) \<and> \<not> ro_allowed r \<and>
     fst (acquire roomy_config demo_limiter 2 ''a'' 1 (run roomy_config [Op_Set 1 ''idem:b:k'' ''x'' 5] s1)) = Inr s2 \<and>
     ro_allowed s2"
proof -
  let ?s = "step roomy_config (Op_Token_Bucket 1 ''rl:caller:a'' 1 1 1) demo_state"
  have reach: "reachable roomy_config ?s" by (intro reachable.intros, rule roomy_init)
  have "fst (acquire roomy_config demo_limiter 1 ''a'' 1 ?s)
      = Inr \<lparr>ro_allowed = False, ro_limit = 1, ro_remaining = 0, ro_retry_after = 1\<rparr>"
    by code_simp
  then obtain s1 where s1: "acquire roomy_config demo_limiter 1 ''a'' 1 ?s
      = (Inr \<lparr>ro_allowed = False, ro_limit = 1, ro_remaining = 0, ro_retry_after = 1\<rparr>, s1)"
    by (metis prod.collapse)
  have ops: "list_all (\<lambda>op. \<not> is_bucket_op (key_prefix demo_limiter @ ''a'') op) [Op_Set 1 ''idem:b:k'' ''x'' 5]"
    by (simp add: is_bucket_op_def)
  from retry_after_suffices [OF reach s1 _ _ _ ops, of 2] s1 show ?thesis
    by (auto simp: demo_limiter_def init_limiter_def)
qed

end
