(* ===== verification/Broker_Errors.thy ===== *)
theory Broker_Errors
  imports Py_Json Rule_Matching
begin

text \<open>
  The broker's error taxonomy (\<open>broker/core/errors.py\<close>), the recovery directives an error carries
  (\<open>broker/core/directives.py\<close>), the operation-discovery errors, and their projection to an HTTP
  problem (\<open>broker/core/problem.py\<close>, \<open>broker/web/errors.py\<close>). Extension members and
  directive parameters are \<open>json\<close> values. The prose of a directive is kept where it is
  ASCII; where the code's text has dashes beyond the string model, the directive's instruction
  is an argument.
\<close>

section \<open>Directives\<close>

datatype agent_strategy = Wait | Retry | Modify_Headers | Prompt_Human | Switch_Toolkit | Fatal

fun strategy_value :: "agent_strategy \<Rightarrow> string" where
  "strategy_value Wait = ''wait''"
| "strategy_value Retry = ''retry''"
| "strategy_value Modify_Headers = ''modify_headers''"
| "strategy_value Prompt_Human = ''prompt_human''"
| "strategy_value Switch_Toolkit = ''switch_toolkit''"
| "strategy_value Fatal = ''fatal''"

record agent_directive =
  ad_strategy :: agent_strategy
  ad_parameters :: "(string, json) dict"
  ad_instruction :: string

definition directive_dump :: "agent_directive \<Rightarrow> json" where
  "directive_dump d =
     JObj [(''strategy'', JStr (strategy_value (ad_strategy d))), (''parameters'', JObj (ad_parameters d)),
           (''human_readable_instruction'', JStr (ad_instruction d))]"

definition json_opt :: "string option \<Rightarrow> json" where
  "json_opt v = (case v of None \<Rightarrow> JNull | Some s \<Rightarrow> JStr s)"

definition switch_toolkit_directive :: "int \<Rightarrow> agent_directive" where
  "switch_toolkit_directive status =
     \<lparr>ad_strategy = Switch_Toolkit, ad_parameters = [(''upstream_status'', JInt status)],
      ad_instruction = ''The upstream vendor returned a server error; try an alternative '' @
        ''vendor/API you are already bound for.''\<rparr>"

definition held_execution_directive :: "string \<Rightarrow> string \<Rightarrow> string \<Rightarrow> agent_directive" where
  "held_execution_directive held_id review_url instruction =
     \<lparr>ad_strategy = Prompt_Human,
      ad_parameters = [(''held_execution_id'', JStr held_id), (''review_url'', JStr review_url)],
      ad_instruction = instruction\<rparr>"

definition or_star :: "string option \<Rightarrow> string" where
  "or_star v = (case v of None \<Rightarrow> ''*'' | Some s \<Rightarrow> if s = [] then ''*'' else s)"

definition render_identity :: "string \<Rightarrow> string option \<Rightarrow> string option \<Rightarrow> string" where
  "render_identity vendor name version = join_with (CHR ''/'') [vendor, or_star name, or_star version]"

record identity_mismatch =
  expected_vendor :: string
  expected_name :: string
  expected_version :: string
  found_vendor :: string
  found_name :: "string option"
  found_version :: "string option"
  would_match_if_normalized :: bool

text \<open>The instruction is chosen by the flag and names the two rendered identities.\<close>

definition credential_identity_mismatch_directive ::
  "(bool \<Rightarrow> string \<Rightarrow> string \<Rightarrow> string) \<Rightarrow> identity_mismatch \<Rightarrow> agent_directive" where
  "credential_identity_mismatch_directive prose m =
     \<lparr>ad_strategy = Prompt_Human,
      ad_parameters =
        [(''expected'', JObj [(''vendor'', JStr (expected_vendor m)), (''name'', JStr (expected_name m)),
                               (''version'', JStr (expected_version m))]),
         (''found'', JObj [(''vendor'', JStr (found_vendor m)), (''name'', json_opt (found_name m)),
                            (''version'', json_opt (found_version m))]),
         (''would_match_if_normalized'', JBool (would_match_if_normalized m))],
      ad_instruction = prose (would_match_if_normalized m)
        (render_identity (expected_vendor m) (Some (expected_name m)) (Some (expected_version m)))
        (render_identity (found_vendor m) (found_name m) (found_version m))\<rparr>"

text \<open>The direct-binding twin differs in its prose.\<close>

definition direct_credential_identity_mismatch_directive ::
  "(bool \<Rightarrow> string \<Rightarrow> string \<Rightarrow> string) \<Rightarrow> identity_mismatch \<Rightarrow> agent_directive" where
  "direct_credential_identity_mismatch_directive prose m = credential_identity_mismatch_directive prose m"

definition exact_rule :: "string \<Rightarrow> string \<Rightarrow> json" where
  "exact_rule method path =
     JObj [(''effect'', JStr ''allow''), (''methods'', JList [JStr (str_upper method)]),
           (''path'', JStr path), (''match_mode'', JStr ''exact'')]"

definition suggested_permission_rules :: "regex_engine \<Rightarrow> string \<Rightarrow> string \<Rightarrow> json list option" where
  "suggested_permission_rules E method path =
     (if method = [] \<or> validate_path E (Some path) ''exact'' \<noteq> None then None
      else Some [exact_rule method path])"

record connect_target =
  ct_vendor_key :: string
  ct_registration :: "string option"

definition cli_command :: "connect_target \<Rightarrow> string" where
  "cli_command t =
     ''jentic connect '' @ ct_vendor_key t @
     (case ct_registration t of None \<Rightarrow> [] | Some r \<Rightarrow> '' --registration '' @ r)"

definition target_parameters :: "connect_target \<Rightarrow> (string, json) dict" where
  "target_parameters t =
     (''vendor_key'', JStr (ct_vendor_key t)) #
     (case ct_registration t of None \<Rightarrow> [] | Some r \<Rightarrow> [(''registration_id'', JStr r)])"

definition connect_parameters :: "connect_target option \<Rightarrow> json list option \<Rightarrow> (string, json) dict" where
  "connect_parameters connect rules =
     (case connect of
        None \<Rightarrow> []
      | Some t \<Rightarrow> [(''suggested_command'', JStr (cli_command t)), (''connect'', JObj (target_parameters t))]) @
     (case rules of
        None \<Rightarrow> []
      | Some rs \<Rightarrow> if rs = [] then [] else [(''suggested_rules'', JList rs)])"

definition api_connect_parameters :: "string \<Rightarrow> string \<Rightarrow> string \<Rightarrow> (string, json) dict" where
  "api_connect_parameters vendor name version =
     [(''suggested_command'', JStr (''jentic connect --api '' @ vendor @ ''/'' @ name @ ''/'' @ version)),
      (''connect'', JObj [(''api'', JObj [(''vendor'', JStr vendor), (''name'', JStr name),
                                             (''version'', JStr version)])])]"

definition or_nothing :: "string option \<Rightarrow> bool" where
  "or_nothing v = (case v of None \<Rightarrow> False | Some s \<Rightarrow> s \<noteq> [])"

definition no_credential_binding_directive ::
  "string \<Rightarrow> string \<times> string \<times> string \<Rightarrow> bool \<Rightarrow> connect_target option \<Rightarrow> json list option \<Rightarrow> string option
     \<Rightarrow> bool \<Rightarrow> agent_directive" where
  "no_credential_binding_directive prose api api_served connect rules provisioning_url connect_api =
     (let (vendor, name, version) = api;
          asked = or_nothing provisioning_url;
          params = dict_update_all
            [(''api'', JObj [(''vendor'', JStr vendor), (''name'', JStr name), (''version'', JStr version)]),
             (''api_served'', JBool api_served)]
            (connect_parameters (if asked then None else connect) rules);
          params = (if asked then AList.update ''provisioning_url'' (json_opt provisioning_url) params
                    else if connect = None \<and> connect_api
                    then dict_update_all params (api_connect_parameters vendor name version)
                    else params) in
      \<lparr>ad_strategy = Prompt_Human, ad_parameters = params, ad_instruction = prose\<rparr>)"

definition credential_binding_suspended_directive :: "string \<Rightarrow> string \<times> string \<times> string \<Rightarrow> agent_directive" where
  "credential_binding_suspended_directive prose api =
     (let (vendor, name, version) = api in
      \<lparr>ad_strategy = Prompt_Human,
       ad_parameters = [(''api'', JObj [(''vendor'', JStr vendor), (''name'', JStr name),
                                         (''version'', JStr version)])],
       ad_instruction = prose\<rparr>)"

definition ambiguous_credential_binding_directive :: "string list \<Rightarrow> agent_directive" where
  "ambiguous_credential_binding_directive candidates =
     \<lparr>ad_strategy = Modify_Headers,
      ad_parameters =
        [(''candidates'', JList (map JStr candidates)),
         (''headers'', JObj [(''Jentic-Credential-Id'',
            JStr (case candidates of [] \<Rightarrow> ''<credential_id>'' | c # _ \<Rightarrow> c))])],
      ad_instruction = ''Multiple bound credentials cover this API. Resend the same request '' @
        ''with the Jentic-Credential-Id header set to one of the ids in '' @
        ''parameters.candidates (Jentic-Credential-Name also works when names '' @ ''are unique).''\<rparr>"

definition direct_action_denied_directive ::
  "string \<Rightarrow> string option \<Rightarrow> json list option \<Rightarrow> string option \<Rightarrow> agent_directive" where
  "direct_action_denied_directive prose credential_id rules open_edit_url =
     (case open_edit_url of
        Some url \<Rightarrow> \<lparr>ad_strategy = Prompt_Human, ad_parameters = [(''provisioning_url'', JStr url)],
                     ad_instruction = prose\<rparr>
      | None \<Rightarrow>
          \<lparr>ad_strategy = Prompt_Human,
           ad_parameters =
             (case credential_id of
                None \<Rightarrow> []
              | Some i \<Rightarrow>
                  [(''edit'', JObj [(''credential_id'', JStr i),
                                     (''suggested_rules'', JList (case rules of None \<Rightarrow> [] | Some rs \<Rightarrow> rs))]),
                   (''suggested_command'', JStr (''jentic access edit '' @ i))]),
           ad_instruction = prose\<rparr>)"

definition approval_pending_limit_directive :: "int \<Rightarrow> int \<Rightarrow> agent_directive" where
  "approval_pending_limit_directive pending max_pending =
     \<lparr>ad_strategy = Prompt_Human, ad_parameters = [(''pending'', JInt pending), (''limit'', JInt max_pending)],
      ad_instruction = ''This call needs human approval, but you already have the maximum number of '' @
        ''calls waiting for review. Ask the user to review your pending approvals, then '' @
        ''send the call again once one is decided.''\<rparr>"

section \<open>The error taxonomy\<close>

datatype error_class =
    Broker_Base | Upstream_Url_Not_Allowed | Upgrade_Not_Supported | Payload_Too_Large
  | Mutation_Requires_Idempotency_Key | Idempotency_Conflict | Idempotency_In_Progress
  | Idempotency_Not_Recorded | Invalid_Revision_Pin | Unauthorized_Revision_Pin | Circuit_Open
  | Rate_Limit_Exceeded | Credential_Not_Provisioned | Credential_Undecryptable
  | Credential_Needs_Reconnect | Credential_Refresh_Transient | Invalid_Credential_Name
  | Ambiguous_Credential_Match | Action_Denied | Approval_Pending_Limit | Approval_Hold_Unavailable
  | Credential_Identity_Mismatch | Credential_Binding_Suspended | Upstream_Timeout
  | Upstream_Transport | Deadline_Exceeded | Upstream_Response_Too_Large
  | Upstream_Body_Interrupted | Runner_Scheme_Unsupported | Runner_Unavailable

datatype error_origin = Origin_Broker | Origin_Upstream

fun origin_value :: "error_origin \<Rightarrow> string" where
  "origin_value Origin_Broker = ''broker''"
| "origin_value Origin_Upstream = ''upstream''"

fun default_type :: "error_class \<Rightarrow> string" where
  "default_type Credential_Refresh_Transient = ''refresh_transient_error''"
| "default_type Credential_Binding_Suspended = ''credential_binding_suspended''"
| "default_type Upstream_Timeout = ''upstream_timeout''"
| "default_type Upstream_Transport = ''upstream_transport_error''"
| "default_type Deadline_Exceeded = ''deadline_exceeded''"
| "default_type Upstream_Response_Too_Large = ''upstream_response_too_large''"
| "default_type Upstream_Body_Interrupted = ''upstream_transport_error''"
| "default_type _ = ''about:blank''"

text \<open>
  \<open>be_report\<close> is the attribute of the circuit-open class, \<open>be_transport\<close> that of the
  interrupted body.
\<close>

record broker_error =
  be_class :: error_class
  be_detail :: string
  be_type :: string
  be_extra :: "(string, json) dict"
  be_origin :: error_origin
  be_directive :: "agent_directive option"
  be_headers :: "(string, string) dict"
  be_instance :: "string option"
  be_pre_send :: bool
  be_local_only :: bool
  be_report :: bool
  be_transport :: string

text \<open>The constructor with its defaults; further keyword arguments are record updates.\<close>

definition init_error :: "error_class \<Rightarrow> string \<Rightarrow> string option \<Rightarrow> broker_error" where
  "init_error cls detail type =
     \<lparr>be_class = cls, be_detail = detail,
      be_type = (case type of None \<Rightarrow> default_type cls | Some t \<Rightarrow> if t = [] then default_type cls else t),
      be_extra = [], be_origin = Origin_Broker, be_directive = None, be_headers = [], be_instance = None,
      be_pre_send = False, be_local_only = False, be_report = True, be_transport = []\<rparr>"

datatype discovery_error =
    Discovery_Base string
  | Operation_Not_Found "string option" "string option"
  | Method_Not_Allowed "string list"
  | Ambiguous_Match int
  | Too_Many_Candidates

definition comma_join :: "string list \<Rightarrow> string" where
  "comma_join xs = (case xs of [] \<Rightarrow> [] | y # ys \<Rightarrow> y @ concat (map (\<lambda>z. '', '' @ z) ys))"

fun discovery_detail :: "discovery_error \<Rightarrow> string" where
  "discovery_detail (Discovery_Base d) = d"
| "discovery_detail (Operation_Not_Found identifier detail) =
     (case detail of
        Some d \<Rightarrow> d
      | None \<Rightarrow>
          case identifier of
            Some i \<Rightarrow> ''Operation '' @ [CHR 0x27] @ i @ [CHR 0x27] @ '' not found''
          | None \<Rightarrow> ''Operation not found'')"
| "discovery_detail (Method_Not_Allowed ms) = ''Method not allowed; allowed: '' @ comma_join ms"
| "discovery_detail (Ambiguous_Match n) =
     ''Ambiguous URL match: '' @ str_of_int n @ '' candidates with equal specificity''"
| "discovery_detail Too_Many_Candidates = ''URL index returned too many candidates''"

section \<open>Problems\<close>

fun status_by_error :: "error_class \<Rightarrow> int option" where
  "status_by_error Action_Denied = Some 403"
| "status_by_error Approval_Pending_Limit = Some 403"
| "status_by_error Approval_Hold_Unavailable = Some 503"
| "status_by_error Credential_Identity_Mismatch = Some 403"
| "status_by_error Credential_Binding_Suspended = Some 403"
| "status_by_error Ambiguous_Credential_Match = Some 409"
| "status_by_error Invalid_Credential_Name = Some 400"
| "status_by_error Upstream_Url_Not_Allowed = Some 400"
| "status_by_error Upgrade_Not_Supported = Some 426"
| "status_by_error Payload_Too_Large = Some 413"
| "status_by_error Mutation_Requires_Idempotency_Key = Some 428"
| "status_by_error Idempotency_Conflict = Some 409"
| "status_by_error Idempotency_In_Progress = Some 409"
| "status_by_error Idempotency_Not_Recorded = Some 503"
| "status_by_error Invalid_Revision_Pin = Some 422"
| "status_by_error Unauthorized_Revision_Pin = Some 403"
| "status_by_error Circuit_Open = Some 503"
| "status_by_error Rate_Limit_Exceeded = Some 429"
| "status_by_error Credential_Not_Provisioned = Some 424"
| "status_by_error Credential_Undecryptable = Some 424"
| "status_by_error Credential_Needs_Reconnect = Some 424"
| "status_by_error Credential_Refresh_Transient = Some 502"
| "status_by_error Upstream_Timeout = Some 504"
| "status_by_error Upstream_Transport = Some 502"
| "status_by_error Deadline_Exceeded = Some 504"
| "status_by_error Upstream_Response_Too_Large = Some 502"
| "status_by_error Upstream_Body_Interrupted = Some 502"
| "status_by_error Runner_Scheme_Unsupported = Some 501"
| "status_by_error Runner_Unavailable = Some 503"
| "status_by_error Broker_Base = None"

definition status_for_broker_error :: "broker_error \<Rightarrow> int" where
  "status_for_broker_error e = (case status_by_error (be_class e) of None \<Rightarrow> 500 | Some s \<Rightarrow> s)"

fun discovery_problem_by_error :: "discovery_error \<Rightarrow> (int \<times> string) option" where
  "discovery_problem_by_error (Operation_Not_Found _ _) = Some (404, ''operation_not_found'')"
| "discovery_problem_by_error (Method_Not_Allowed _) = Some (405, ''method_not_allowed'')"
| "discovery_problem_by_error (Ambiguous_Match _) = Some (409, ''ambiguous_match'')"
| "discovery_problem_by_error Too_Many_Candidates = Some (503, ''too_many_candidates'')"
| "discovery_problem_by_error (Discovery_Base _) = None"

definition problem_body ::
  "int \<Rightarrow> string \<Rightarrow> string \<Rightarrow> (string, json) dict \<Rightarrow> error_origin \<Rightarrow> agent_directive option \<Rightarrow> string option
     \<Rightarrow> (string, json) dict" where
  "problem_body status detail type extra origin directive inst =
     (let body = dict_update_all
            [(''type'', JStr type), (''title'', JStr detail), (''status'', JInt status),
             (''detail'', JStr detail), (''error_origin'', JStr (origin_value origin))] extra;
          body = (case inst of None \<Rightarrow> body | Some i \<Rightarrow> AList.update ''instance'' (JStr i) body) in
      case directive of
        None \<Rightarrow> body
      | Some d \<Rightarrow> AList.update ''agent_directive'' (directive_dump d) body)"

definition broker_error_problem :: "broker_error \<Rightarrow> (string, json) dict" where
  "broker_error_problem e =
     problem_body (status_for_broker_error e) (be_detail e) (be_type e) (be_extra e) (be_origin e)
       (be_directive e) (be_instance e)"

definition discovery_error_problem :: "discovery_error \<Rightarrow> string option \<Rightarrow> (string, json) dict" where
  "discovery_error_problem e inst =
     (let (status, type) = (case discovery_problem_by_error e of None \<Rightarrow> (500, ''about:blank'') | Some p \<Rightarrow> p);
          extra = (case e of Method_Not_Allowed ms \<Rightarrow> [(''allowed_methods'', JList (map JStr ms))] | _ \<Rightarrow> []) in
      problem_body status (discovery_detail e) type extra Origin_Broker None inst)"

definition discovery_error_headers :: "discovery_error \<Rightarrow> (string, string) dict" where
  "discovery_error_headers e = (case e of Method_Not_Allowed ms \<Rightarrow> [(''Allow'', comma_join ms)] | _ \<Rightarrow> [])"

section \<open>Responses\<close>

record json_response =
  jr_status :: int
  jr_body :: "(string, json) dict"
  jr_headers :: "(string, string) dict"

definition error_origin_header :: string where "error_origin_header = ''Jentic-Error-Origin''"

definition problem_response ::
  "int \<Rightarrow> string \<Rightarrow> string \<Rightarrow> (string, json) dict \<Rightarrow> error_origin \<Rightarrow> agent_directive option
     \<Rightarrow> (string, string) dict \<Rightarrow> string option \<Rightarrow> json_response" where
  "problem_response status detail type extra origin directive hs inst =
     \<lparr>jr_status = status, jr_body = problem_body status detail type extra origin directive inst,
      jr_headers = AList.update error_origin_header (origin_value origin) hs\<rparr>"

definition handle_broker_error :: "broker_error \<Rightarrow> json_response" where
  "handle_broker_error e =
     problem_response (status_for_broker_error e) (be_detail e) (be_type e) (be_extra e) (be_origin e)
       (be_directive e) (be_headers e) (be_instance e)"

definition handle_discovery_error :: "string \<Rightarrow> discovery_error \<Rightarrow> json_response" where
  "handle_discovery_error request_path e =
     (let body = discovery_error_problem e (Some request_path) in
      \<lparr>jr_status = (case map_of body ''status'' of Some (JInt s) \<Rightarrow> s | _ \<Rightarrow> 0), jr_body = body,
       jr_headers = AList.update error_origin_header (origin_value Origin_Broker) (discovery_error_headers e)\<rparr>)"

definition handle_validation :: "json list \<Rightarrow> json_response" where
  "handle_validation sanitized =
     problem_response 422 ''Request validation failed'' ''about:blank#validation''
       [(''errors'', JList sanitized)] Origin_Broker None [] None"

definition handle_http_exception :: "int \<Rightarrow> string \<Rightarrow> (string, string) dict \<Rightarrow> json_response" where
  "handle_http_exception status detail hs =
     problem_response status detail ''about:blank'' [] Origin_Broker None hs None"

section \<open>What a rendered problem says\<close>

definition reserved_members :: "string list" where
  "reserved_members = [''type'', ''title'', ''status'', ''detail'', ''error_origin'', ''instance'', ''agent_directive'']"

lemma problem_body_members:
  assumes "list_all (\<lambda>k. k \<notin> set reserved_members) (map fst extra)"
    and k: "k \<in> {''type'', ''status'', ''detail'', ''error_origin''}"
  shows "dict_get (problem_body status detail type extra origin directive inst) k =
    dict_get [(''type'', JStr type), (''title'', JStr detail), (''status'', JInt status),
             (''detail'', JStr detail), (''error_origin'', JStr (origin_value origin))] k"
proof -
  have "k \<notin> fst ` set extra" using assms by (auto simp: reserved_members_def list_all_iff)
  then have e: "dict_get (rev extra) k = None" by (simp add: map_of_eq_None_iff)
  define base where "base = [(''type'', JStr type), (''title'', JStr detail), (''status'', JInt status),
    (''detail'', JStr detail), (''error_origin'', JStr (origin_value origin))]"
  have "dict_get (dict_update_all base extra) k = dict_get base k"
    by (simp add: dict_update_all_get e)
  moreover have "''instance'' \<noteq> k" "''agent_directive'' \<noteq> k" using k by auto
  ultimately show ?thesis
    unfolding problem_body_def base_def [symmetric] Let_def
    by (cases inst; cases directive) (simp_all add: dict_get_set)
qed

lemma status_range: "400 \<le> status_for_broker_error e \<and> status_for_broker_error e < 600"
  by (cases "be_class e") (simp_all add: status_for_broker_error_def)

text \<open>
  A domain error always leaves the broker as an error response: a 4xx or 5xx status, the
  status, type, detail and origin in the body, and the origin in its header, whatever extension
  members, directive, headers and instance it carries, as long as the extension members do not
  use the standard names (they would overwrite them).
\<close>

theorem broker_error_renders:
  assumes "list_all (\<lambda>k. k \<notin> set reserved_members) (map fst (be_extra e))"
  shows "400 \<le> jr_status (handle_broker_error e) \<and> jr_status (handle_broker_error e) < 600 \<and>
    dict_get (jr_body (handle_broker_error e)) ''status'' = Some (JInt (jr_status (handle_broker_error e))) \<and>
    dict_get (jr_body (handle_broker_error e)) ''type'' = Some (JStr (be_type e)) \<and>
    dict_get (jr_body (handle_broker_error e)) ''detail'' = Some (JStr (be_detail e)) \<and>
    dict_get (jr_body (handle_broker_error e)) ''error_origin'' = Some (JStr (origin_value (be_origin e))) \<and>
    dict_get (jr_headers (handle_broker_error e)) error_origin_header = Some (origin_value (be_origin e))"
  using status_range [of e]
  by (simp add: handle_broker_error_def problem_response_def problem_body_members [OF assms] dict_get_set)

definition sample_error :: broker_error where
  "sample_error = (init_error Upstream_Response_Too_Large ''too large'' None)
     \<lparr>be_extra := [(''max_response_bytes'', JInt 1024)], be_directive := Some (switch_toolkit_directive 200)\<rparr>"

lemma broker_error_renders_witness:
  "jr_status (handle_broker_error sample_error) = 502 \<and>
   dict_get (jr_body (handle_broker_error sample_error)) ''type'' = Some (JStr ''upstream_response_too_large'')"
proof -
  have "list_all (\<lambda>k. k \<notin> set reserved_members) (map fst (be_extra sample_error))" by code_simp
  from broker_error_renders [OF this] show ?thesis
    by (simp add: sample_error_def init_error_def handle_broker_error_def problem_response_def
        status_for_broker_error_def)
qed

end
