(* ===== verification/Retry_After.thy ===== *)
theory Retry_After
  imports Py_Int Complex_Main "HOL-Library.Code_Target_Nat"
begin

text \<open>
  \<open>shared/http/retry_after.py\<close> and \<open>broker/core/retry_after.py\<close>: from an upstream's
  \<open>Retry-After\<close> or \<open>X-RateLimit-Reset\<close> header to whole seconds. Python's \<open>float(text)\<close> is
  modelled with its special values; a finite float is the real it stands for, so rounding to 53
  bits is left out, and overflow to infinity is not. \<open>email.utils.parsedate_to_datetime\<close>
  is the parameter \<open>parse_date\<close>, from a text to a \<open>datetime\<close> or a caught exception.
\<close>

section \<open>Decimal texts and \<open>float\<close>\<close>

definition is_ascii_digit :: "char \<Rightarrow> bool" where
  "is_ascii_digit c = (char_digit c \<noteq> None)"

definition digits_nat :: "string \<Rightarrow> nat" where
  "digits_nat s = foldl (\<lambda>n c. 10 * n + (case char_digit c of None \<Rightarrow> 0 | Some d \<Rightarrow> d)) 0 s"

definition decimal_value :: "string \<Rightarrow> string \<Rightarrow> real" where
  "decimal_value whole fraction = real (digits_nat whole) + real (digits_nat fraction) / 10 ^ length fraction"

datatype py_float = Finite real | Infinite bool | Not_A_Number

text \<open>Underscores may stand between two digits; \<open>prev\<close> is the character read before.\<close>

fun drop_underscores :: "char \<Rightarrow> string \<Rightarrow> string option" where
  "drop_underscores prev [] = (if prev = CHR ''_'' then None else Some [])"
| "drop_underscores prev (c # cs) =
     (if c = CHR ''_'' then if is_ascii_digit prev then drop_underscores c cs else None
      else if prev = CHR ''_'' \<and> \<not> is_ascii_digit c then None
      else map_option (Cons c) (drop_underscores c cs))"

definition split_sign :: "string \<Rightarrow> bool \<times> string" where
  "split_sign s = (case s of
     CHR ''-'' # r \<Rightarrow> (True, r) | CHR ''+'' # r \<Rightarrow> (False, r) | _ \<Rightarrow> (False, s))"

definition split_digits :: "string \<Rightarrow> string \<times> string" where
  "split_digits s = (takeWhile is_ascii_digit s, dropWhile is_ascii_digit s)"

definition parse_exponent :: "string \<Rightarrow> int option" where
  "parse_exponent s = (case s of
     [] \<Rightarrow> Some 0
   | e # r \<Rightarrow>
       if e \<noteq> CHR ''e'' \<and> e \<noteq> CHR ''E'' then None
       else (let (neg, d) = split_sign r in
             if d \<noteq> [] \<and> list_all is_ascii_digit d
             then Some (if neg then - int (digits_nat d) else int (digits_nat d)) else None))"

text \<open>The least magnitude that rounds to infinity in double precision.\<close>

definition float_limit :: nat where "float_limit = 2 ^ 1024 - 2 ^ 970"

definition scaled_float :: "bool \<Rightarrow> nat \<Rightarrow> int \<Rightarrow> py_float" where
  "scaled_float neg m e =
     (let (num, den) = (if 0 \<le> e then (m * 10 ^ nat e, 1) else (m, 10 ^ nat (- e))) in
      if float_limit * den \<le> num then Infinite neg
      else Finite ((if neg then - 1 else 1) * (real num / real den)))"

definition py_float :: "string \<Rightarrow> py_float option" where
  "py_float text_value =
     (case drop_underscores (CHR '' '') (str_strip text_value) of
        None \<Rightarrow> None
      | Some s \<Rightarrow>
          (let (neg, s) = split_sign s in
           if str_lower s \<in> {''inf'', ''infinity''} then Some (Infinite neg)
           else if str_lower s = ''nan'' then Some Not_A_Number
           else
             (let (whole, r) = split_digits s;
                  (fraction, r) = (case r of CHR ''.'' # q \<Rightarrow> split_digits q | _ \<Rightarrow> ([], r)) in
              if whole = [] \<and> fraction = [] then None
              else map_option (\<lambda>e. scaled_float neg (digits_nat (whole @ fraction)) (e - int (length fraction)))
                     (parse_exponent r))))"

text \<open>\<open>math.ceil\<close> of an infinity is an \<open>OverflowError\<close>, of a NaN a \<open>ValueError\<close>.\<close>

datatype ceil_error = Ceil_Infinity | Ceil_NaN

fun ceil_minus :: "py_float \<Rightarrow> real \<Rightarrow> (ceil_error, int) result" where
  "ceil_minus (Finite x) now = Inr \<lceil>x - now\<rceil>"
| "ceil_minus (Infinite neg) now = Inl Ceil_Infinity"
| "ceil_minus Not_A_Number now = Inl Ceil_NaN"

section \<open>\<open>Retry-After\<close>\<close>

definition max_retry_after_s :: int where "max_retry_after_s = 86400"
definition max_digits :: nat where "max_digits = length (str_of_int max_retry_after_s)"

text \<open>The full match of the delay pattern: the whole digits and the fraction's.\<close>

definition match_delay :: "string \<Rightarrow> (string \<times> string) option" where
  "match_delay raw =
     (let (whole, r) = split_digits raw in
      if whole = [] then None
      else case r of
        [] \<Rightarrow> Some (whole, [])
      | c # fraction \<Rightarrow>
          if c = CHR ''.'' \<and> fraction \<noteq> [] \<and> list_all is_ascii_digit fraction
          then Some (whole, fraction) else None)"

text \<open>A \<open>datetime\<close>: its wall-clock fields as seconds since the epoch and its UTC offset.\<close>

record py_datetime =
  dt_local :: real
  dt_offset :: "real option"

definition timestamp_utc :: "py_datetime \<Rightarrow> real" where
  "timestamp_utc dt = dt_local dt - (case dt_offset dt of None \<Rightarrow> 0 | Some z \<Rightarrow> z)"

definition delay_seconds :: "string \<Rightarrow> string \<Rightarrow> int" where
  "delay_seconds whole fraction =
     (let whole = dropWhile (\<lambda>c. c = CHR ''0'') whole in
      if max_digits < length whole then max_retry_after_s
      else min (int (digits_nat whole) + (if list_ex (\<lambda>c. c \<noteq> CHR ''0'') fraction then 1 else 0))
             max_retry_after_s)"

definition parse_retry_after ::
  "(string \<Rightarrow> py_datetime option) \<Rightarrow> string option \<Rightarrow> real \<Rightarrow> int option" where
  "parse_retry_after parse_date value now =
     (case value of
        None \<Rightarrow> None
      | Some v \<Rightarrow>
          (let raw = str_strip v in
           if raw = [] then None
           else case match_delay raw of
             Some (whole, fraction) \<Rightarrow> Some (delay_seconds whole fraction)
           | None \<Rightarrow>
               map_option (\<lambda>when. min (max 0 \<lceil>timestamp_utc when - now\<rceil>) max_retry_after_s)
                 (parse_date raw)))"

section \<open>The broker's hint\<close>

definition get_header :: "(string, string) dict \<Rightarrow> string \<Rightarrow> string option" where
  "get_header hs name =
     (case map_of hs name of
        Some v \<Rightarrow> Some v
      | None \<Rightarrow> map_option snd (find (\<lambda>(k, v). str_lower k = str_lower name) hs))"

definition from_reset_epoch :: "string option \<Rightarrow> real \<Rightarrow> (ceil_error, int option) result" where
  "from_reset_epoch value now =
     (case value of
        None \<Rightarrow> Inr None
      | Some v \<Rightarrow>
          (let raw = str_strip v in
           if raw = [] then Inr None
           else case py_float raw of
             None \<Rightarrow> Inr None
           | Some reset \<Rightarrow> rbind (ceil_minus reset now) (\<lambda>n. Inr (Some n))))"

text \<open>The cap is a non-negative remaining budget, so \<open>int\<close> truncates it to its floor.\<close>

definition parse_retry_after_seconds ::
  "(string \<Rightarrow> py_datetime option) \<Rightarrow> (string, string) dict \<Rightarrow> real \<Rightarrow> real option
     \<Rightarrow> (ceil_error, int option) result" where
  "parse_retry_after_seconds parse_date hs now cap_s =
     rbind (case parse_retry_after parse_date (get_header hs ''retry-after'') now of
              Some n \<Rightarrow> Inr (Some n)
            | None \<Rightarrow> from_reset_epoch (get_header hs ''x-ratelimit-reset'') now)
       (\<lambda>seconds. Inr (map_option (\<lambda>n.
          (let n = max 0 n in
           case cap_s of None \<Rightarrow> n | Some c \<Rightarrow> min n (max 0 (if 0 \<le> c then \<lfloor>c\<rfloor> else \<lceil>c\<rceil>)))) seconds))"

section \<open>A wait is bounded and never early\<close>

lemma digits_nat_append: "digits_nat (xs @ ys) = digits_nat xs * 10 ^ length ys + digits_nat ys"
proof (induction ys rule: rev_induct)
  case (snoc y ys)
  then show ?case by (simp add: digits_nat_def algebra_simps split: option.split)
qed (simp add: digits_nat_def)

lemma char_digit_less: "char_digit c = Some d \<Longrightarrow> d < 10"
  by (auto simp: char_digit_def Let_def split: if_splits)

lemma digits_nat_less: "digits_nat s < 10 ^ length s"
proof (induction s rule: rev_induct)
  case (snoc c s)
  have "(case char_digit c of None \<Rightarrow> 0 | Some d \<Rightarrow> d) < (10::nat)"
    using char_digit_less [of c] by (cases "char_digit c") auto
  moreover have "digits_nat (s @ [c]) = 10 * digits_nat s + (case char_digit c of None \<Rightarrow> 0 | Some d \<Rightarrow> d)"
    by (simp add: digits_nat_def)
  ultimately show ?case using snoc by simp
qed (simp add: digits_nat_def)

lemma zero_digit: "char_digit (CHR ''0'') = Some 0"
  by code_simp

lemma digits_nat_strip: "digits_nat (dropWhile (\<lambda>c. c = CHR ''0'') s) = digits_nat s"
  by (induction s) (simp_all add: digits_nat_def zero_digit)

lemma digits_nat_zeros: "list_all (\<lambda>c. c = CHR ''0'') s \<Longrightarrow> digits_nat s = 0"
  by (induction s rule: rev_induct) (simp_all add: digits_nat_def zero_digit)

lemma digit_zero: "char_digit c = Some 0 \<Longrightarrow> c = CHR ''0''"
  proof -
  assume "char_digit c = Some 0"
  then have "char_code c = 48" by (auto simp: char_digit_def Let_def split: if_splits)
  then have "c = char_of (48::nat)" using char_of_char_code [of c] by simp
  also have "char_of (48::nat) = CHR ''0''" by code_simp
  finally show ?thesis .
qed

lemma leading_digit:
  assumes "is_ascii_digit c" "c \<noteq> CHR ''0''" shows "10 ^ length s \<le> digits_nat (c # s)"
proof -
  obtain d where d: "char_digit c = Some d" using assms(1) by (auto simp: is_ascii_digit_def)
  with assms(2) have "d \<noteq> 0" using digit_zero by metis
  moreover have "digits_nat (c # s) = d * 10 ^ length s + digits_nat s"
    using digits_nat_append [of "[c]" s] d by (simp add: digits_nat_def)
  ultimately show ?thesis by (cases d) auto
qed

lemma stripped_digits:
  assumes "list_all is_ascii_digit s" "dropWhile (\<lambda>c. c = CHR ''0'') s = c # r"
  shows "10 ^ length r \<le> digits_nat s"
proof -
  have "c \<noteq> CHR ''0''" using assms(2) hd_dropWhile [of "\<lambda>c. c = CHR ''0''" s] by simp
  moreover have "is_ascii_digit c"
    using assms set_dropWhileD [of c "\<lambda>c. c = CHR ''0''" s] by (simp add: list_all_iff)
  ultimately show ?thesis using leading_digit [of c r] digits_nat_strip [of s] assms(2) by simp
qed

lemma digits_nat_pos:
  assumes "list_all is_ascii_digit s" "list_ex (\<lambda>c. c \<noteq> CHR ''0'') s" shows "0 < digits_nat s"
proof -
  have "dropWhile (\<lambda>c. c = CHR ''0'') s \<noteq> []" using assms(2) by (auto simp: list_ex_iff)
  then obtain c r where "dropWhile (\<lambda>c. c = CHR ''0'') s = c # r" by (cases "dropWhile (\<lambda>c. c = CHR ''0'') s") auto
  from stripped_digits [OF assms(1) this] show ?thesis
    using zero_less_power [of "10::nat" "length r"] by linarith
qed

lemma rounded_up:
  fixes whole :: string
  assumes "list_all is_ascii_digit fraction"
  defines "n \<equiv> int (digits_nat whole) + (if list_ex (\<lambda>c. c \<noteq> CHR ''0'') fraction then 1 else 0)"
  shows "decimal_value whole fraction \<le> of_int n \<and> of_int n < decimal_value whole fraction + 1"
proof (cases "list_ex (\<lambda>c. c \<noteq> CHR ''0'') fraction")
  case True
  have "real (digits_nat fraction) < 10 ^ length fraction"
    using digits_nat_less [of fraction] by (metis of_nat_less_iff of_nat_numeral of_nat_power)
  then have "real (digits_nat fraction) / 10 ^ length fraction < 1" by (simp add: divide_less_eq)
  moreover have "0 < real (digits_nat fraction) / 10 ^ length fraction"
    using digits_nat_pos [OF assms(1) True] by simp
  ultimately show ?thesis using True by (simp add: n_def decimal_value_def)
next
  case False
  then have "digits_nat fraction = 0" by (intro digits_nat_zeros) (simp add: list_all_iff list_ex_iff)
  with False show ?thesis by (simp add: n_def decimal_value_def)
qed

lemma delay_seconds_covers:
  assumes digits: "list_all is_ascii_digit whole" "list_all is_ascii_digit fraction"
  shows "0 \<le> delay_seconds whole fraction \<and> delay_seconds whole fraction \<le> max_retry_after_s \<and>
    min (decimal_value whole fraction) (of_int max_retry_after_s) \<le> of_int (delay_seconds whole fraction) \<and>
    of_int (delay_seconds whole fraction) < decimal_value whole fraction + 1"
proof (cases "max_digits < length (dropWhile (\<lambda>c. c = CHR ''0'') whole)")
  case True
  have md: "max_digits = 5" by code_simp
  from True obtain c s where w: "dropWhile (\<lambda>c. c = CHR ''0'') whole = c # s" "5 \<le> length s"
    by (cases "dropWhile (\<lambda>c. c = CHR ''0'') whole") (auto simp: md)
  have "(10::nat) ^ 5 \<le> 10 ^ length s" by (rule power_increasing [OF w(2)]) simp
  with stripped_digits [OF digits(1) w(1)] have "100000 \<le> digits_nat whole" by simp
  then have "(100000::real) \<le> decimal_value whole fraction"
    by (simp add: decimal_value_def add_increasing2)
  with True show ?thesis by (simp add: delay_seconds_def max_retry_after_s_def)
next
  case False
  define n where "n = int (digits_nat whole) + (if list_ex (\<lambda>c. c \<noteq> CHR ''0'') fraction then 1 else 0)"
  have d: "delay_seconds whole fraction = min n max_retry_after_s"
    using False by (simp add: delay_seconds_def n_def digits_nat_strip)
  from rounded_up [OF digits(2), of whole] have "decimal_value whole fraction \<le> of_int n"
    "of_int n < decimal_value whole fraction + 1" "0 \<le> n" by (simp_all add: n_def)
  then show ?thesis unfolding d by (simp add: max_retry_after_s_def min_def)
qed

text \<open>The wait a header asks for, in real seconds.\<close>

definition asked_wait :: "(string \<Rightarrow> py_datetime option) \<Rightarrow> string \<Rightarrow> real \<Rightarrow> real option" where
  "asked_wait parse_date v now =
     (case match_delay (str_strip v) of
        Some (whole, fraction) \<Rightarrow> Some (decimal_value whole fraction)
      | None \<Rightarrow> map_option (\<lambda>when. timestamp_utc when - now) (parse_date (str_strip v)))"

lemma match_delay_digits:
  "match_delay raw = Some (whole, fraction) \<Longrightarrow> list_all is_ascii_digit whole \<and> list_all is_ascii_digit fraction"
  by (auto simp: match_delay_def split_digits_def list_all_iff dest: set_takeWhileD split: if_splits list.splits)

lemma date_covers:
  "min x (of_int max_retry_after_s) \<le> of_int (min (max 0 \<lceil>x\<rceil>) max_retry_after_s) \<and>
   of_int (min (max 0 \<lceil>x\<rceil>) max_retry_after_s) < max 0 x + 1"
proof -
  have "x \<le> of_int \<lceil>x\<rceil>" "of_int \<lceil>x\<rceil> < x + 1" by linarith+
  then show ?thesis unfolding max_retry_after_s_def min_def max_def by auto
qed

text \<open>
  A \<open>Retry-After\<close> is honoured up to one day. The parsed wait lies between zero and 86,400
  seconds, is never shorter than what the header asks (capped at one day), and less than one
  second longer.
\<close>

theorem retry_after_never_early:
  assumes "parse_retry_after parse_date (Some v) now = Some n"
  shows "0 \<le> n \<and> n \<le> max_retry_after_s \<and>
    (\<exists>asked. asked_wait parse_date v now = Some asked \<and>
       min asked (of_int max_retry_after_s) \<le> of_int n \<and> of_int n < max 0 asked + 1)"
proof (cases "match_delay (str_strip v)")
  case None
  with assms obtain w where w: "parse_date (str_strip v) = Some w"
    "n = min (max 0 \<lceil>timestamp_utc w - now\<rceil>) max_retry_after_s"
    by (auto simp: parse_retry_after_def Let_def split: if_splits)
  then show ?thesis using None date_covers [of "timestamp_utc w - now"]
    by (simp add: asked_wait_def max_retry_after_s_def)
next
  case (Some wf)
  obtain whole fraction where wf: "wf = (whole, fraction)" by fastforce
  from assms Some wf have "n = delay_seconds whole fraction"
    by (auto simp: parse_retry_after_def Let_def split: if_splits)
  moreover have "0 \<le> decimal_value whole fraction" by (simp add: decimal_value_def)
  ultimately show ?thesis
    using Some wf delay_seconds_covers match_delay_digits [of "str_strip v" whole fraction]
    by (simp add: asked_wait_def)
qed

lemma retry_after_never_early_witness:
  "parse_retry_after (\<lambda>_. None) (Some '' 007.25 '') 0 = Some 8 \<and>
   min (29/4) (of_int max_retry_after_s) \<le> (8::real) \<and> (8::real) < max 0 (29/4) + 1"
proof -
  have p: "parse_retry_after (\<lambda>_. None) (Some '' 007.25 '') 0 = Some 8" by code_simp
  have "asked_wait (\<lambda>_. None) '' 007.25 '' 0 = Some (29/4)" by code_simp
  with p retry_after_never_early [OF p] show ?thesis by simp
qed

end
