(* ===== verification/Runner.thy ===== *)
theory Runner
  imports Broker_Errors Circuit Injection Retry_After Py_Url
begin

text \<open>
  The execution envelope of \<open>broker/adapters/runners\<close>: the HTTP transport's error mapping and
  response cap, the circuit-breaker, retry and deadline decorators, and the scheme registry.

  A runner is a function from a request and a world to a result and a world. The world is a
  parameter: \<open>world\<close> gives the operations of the Python runtime a decorator uses (clocks,
  uniform randomness, sleeping, date parsing) and \<open>store_access\<close> the shared-state store inside it,
  which other tasks may change between two steps.
\<close>

section \<open>Requests, results, failures\<close>

record runner_request =
  rq_method :: string
  rq_url :: string
  rq_headers :: "(string, string) dict"
  rq_body :: "string option"
  rq_timeout :: real
  rq_signing :: "sigv4_material option"

record runner_result =
  rr_status :: int
  rr_body :: string
  rr_headers :: "(string, string) dict"
  rr_content_type :: "string option"
  rr_duration_ms :: int

text \<open>
  What a runner may raise: a domain error, the built-in \<open>TimeoutError\<close>, an error of the
  state backend, or a float that \<open>math.ceil\<close> refuses.
\<close>

datatype run_error = Domain broker_error | Timeout_Error | Store_Failure state_error | Ceil_Failure ceil_error

type_synonym run_outcome = "(run_error, runner_result) result"
type_synonym 'w runner = "runner_request \<Rightarrow> 'w \<Rightarrow> run_outcome \<times> 'w"

record 'w world =
  wd_monotonic :: "'w \<Rightarrow> real \<times> 'w"
  wd_wall :: "'w \<Rightarrow> real \<times> 'w"
  wd_uniform :: "real \<Rightarrow> real \<Rightarrow> 'w \<Rightarrow> real \<times> 'w"
  wd_sleep :: "real \<Rightarrow> 'w \<Rightarrow> 'w"
  wd_date :: "string \<Rightarrow> py_datetime option"

definition is_upstream_failure :: "broker_error \<Rightarrow> bool" where
  "is_upstream_failure e = (be_class e = Upstream_Timeout \<or> be_class e = Upstream_Transport)"

section \<open>Transport failures\<close>

text \<open>
  An exception of the client stack: the name of its class and the names of the classes it is an
  instance of.
\<close>

record transport_failure =
  tf_name :: string
  tf_classes :: "string list"

definition is_instance :: "transport_failure \<Rightarrow> string list \<Rightarrow> bool" where
  "is_instance x names = list_ex (\<lambda>n. n \<in> set (tf_classes x)) names"

definition transport_error_detail :: "transport_failure \<Rightarrow> string" where
  "transport_error_detail x = ''Upstream transport error ('' @ tf_name x @ '')''"

definition upstream_leg_errors :: "string list" where
  "upstream_leg_errors = [''httpx.NetworkError'', ''httpx.RemoteProtocolError'']"

definition map_transport_error :: "transport_failure \<Rightarrow> broker_error" where
  "map_transport_error x =
     (if is_instance x [''httpx.PoolTimeout''] then
        (init_error Upstream_Timeout ''The broker's upstream connection pool had no free connection in time.''
           (Some ''upstream_connect_failed''))\<lparr>be_pre_send := True, be_local_only := True\<rparr>
      else if is_instance x [''httpx.ConnectTimeout''] then
        (init_error Upstream_Timeout ''The upstream connection could not be established in time.''
           (Some ''upstream_connect_failed''))\<lparr>be_pre_send := True\<rparr>
      else if is_instance x [''httpx.TimeoutException''] then
        init_error Upstream_Timeout ''The upstream did not respond within the deadline.'' (Some ''upstream_timeout'')
      else if is_instance x [''httpx.ConnectError'', ''httpx.ProxyError'', ''UpstreamHostUnresolvedError''] then
        (init_error Upstream_Transport ''The upstream connection could not be established.''
           (Some ''upstream_connect_failed''))\<lparr>be_pre_send := True\<rparr>
      else if is_instance x upstream_leg_errors then
        init_error Upstream_Transport (transport_error_detail x) None
      else init_error Broker_Base (transport_error_detail x) (Some ''upstream_request_invalid''))"

section \<open>The HTTP transport\<close>

definition http_outbound_headers :: "(string, string) dict \<Rightarrow> (string, string) dict" where
  "http_outbound_headers hs =
     (if list_ex (\<lambda>(k, _). str_lower k = ''accept-encoding'') hs then hs
      else AList.update ''accept-encoding'' ''identity'' hs)"

text \<open>
  \<open>_cap_iter\<close>: the chunks the consumer gets, and how the iteration ends. The source is the
  chunks the upstream sends before it finishes or fails.
\<close>

datatype body_end = Body_Complete | Body_Failed transport_failure | Body_Too_Large broker_error

definition too_large_error :: "nat \<Rightarrow> int \<Rightarrow> broker_error" where
  "too_large_error cap status =
     (init_error Upstream_Response_Too_Large
        (''The upstream response exceeded the '' @ str_of_nat cap @ ''-byte response-size cap.'')
        (Some ''upstream_response_too_large''))
      \<lparr>be_extra := [(''max_response_bytes'', JInt (int cap))],
       be_directive := Some (switch_toolkit_directive status)\<rparr>"

fun cap_iter :: "nat \<Rightarrow> int \<Rightarrow> nat \<Rightarrow> string list \<Rightarrow> transport_failure option \<Rightarrow> string list \<times> body_end" where
  "cap_iter cap status got [] failure =
     ([], case failure of None \<Rightarrow> Body_Complete | Some x \<Rightarrow> Body_Failed x)"
| "cap_iter cap status got (chunk # chunks) failure =
     (let got = got + length chunk in
      if cap \<noteq> 0 \<and> cap < got then ([], Body_Too_Large (too_large_error cap status))
      else (let (out, fin) = cap_iter cap status got chunks failure in (chunk # out, fin)))"

datatype read_error = Read_Failed transport_failure | Read_Too_Large broker_error

definition read_capped :: "nat \<Rightarrow> int \<Rightarrow> string list \<Rightarrow> transport_failure option \<Rightarrow> (read_error, string) result" where
  "read_capped cap status chunks failure =
     (let (out, fin) = cap_iter cap status 0 chunks failure in
      case fin of
        Body_Complete \<Rightarrow> Inr (concat out)
      | Body_Failed x \<Rightarrow> Inl (Read_Failed x)
      | Body_Too_Large e \<Rightarrow> Inl (Read_Too_Large e))"

text \<open>
  The injected client: sending a request yields a failure before the response, or the response's
  status, headers, the chunks of its body and a failure after them.
\<close>

record http_response =
  hr_status :: int
  hr_headers :: "(string, string) dict"
  hr_chunks :: "string list"
  hr_failure :: "transport_failure option"

type_synonym 'w client = "runner_request \<Rightarrow> 'w \<Rightarrow> (transport_failure, http_response) result \<times> 'w"

definition http_run :: "'w client \<Rightarrow> ('w \<Rightarrow> real \<times> 'w) \<Rightarrow> nat \<Rightarrow> 'w runner" where
  "http_run send perf_counter cap request w =
     (let (start, w) = perf_counter w;
          (sent, w) = send (request\<lparr>rq_headers := http_outbound_headers (rq_headers request)\<rparr>) w in
      case sent of
        Inl x \<Rightarrow> (Inl (Domain (map_transport_error x)), w)
      | Inr resp \<Rightarrow>
          (case read_capped cap (hr_status resp) (hr_chunks resp) (hr_failure resp) of
             Inl (Read_Failed x) \<Rightarrow> (Inl (Domain (map_transport_error x)), w)
           | Inl (Read_Too_Large e) \<Rightarrow> (Inl (Domain e), w)
           | Inr body \<Rightarrow>
               (let (fin, w) = perf_counter w in
                (Inr \<lparr>rr_status = hr_status resp, rr_body = body, rr_headers = hr_headers resp,
                      rr_content_type = get_header (hr_headers resp) ''content-type'',
                      rr_duration_ms = \<lfloor>(fin - start) * 1000\<rfloor>\<rparr>, w))))"

text \<open>The streaming body: a failure once the response has started.\<close>

definition stream_body :: "nat \<Rightarrow> http_response \<Rightarrow> string list \<times> broker_error option" where
  "stream_body cap resp =
     (let (out, fin) = cap_iter cap (hr_status resp) 0 (hr_chunks resp) (hr_failure resp) in
      (out, case fin of
              Body_Complete \<Rightarrow> None
            | Body_Too_Large e \<Rightarrow> Some e
            | Body_Failed x \<Rightarrow>
                Some ((if is_instance x [''httpx.TimeoutException'']
                       then init_error Upstream_Body_Interrupted
                              ''The upstream stopped sending the response body within the deadline.''
                              (Some ''upstream_timeout'')
                       else init_error Upstream_Body_Interrupted (transport_error_detail x)
                              (Some ''upstream_transport_error''))\<lparr>be_transport := tf_name x\<rparr>)))"

section \<open>The circuit-breaker decorator\<close>

record ('w, 's) store_access =
  sa_get :: "'w \<Rightarrow> 's"
  sa_put :: "'s \<Rightarrow> 'w \<Rightarrow> 'w"

definition on_store :: "('w, 's) store_access \<Rightarrow> ('s \<Rightarrow> 'a \<times> 's) \<Rightarrow> 'w \<Rightarrow> 'a \<times> 'w" where
  "on_store A f w = (let (x, s) = f (sa_get A w) in (x, sa_put A s w))"

definition no_host_key :: string where "no_host_key = ''<no-host>''"

text \<open>A URL that does not parse raises in \<open>urlparse\<close>; \<open>select\<close> and the egress check parse it first.\<close>

definition host_of :: "string \<Rightarrow> string" where
  "host_of url =
     (case urlparse url of
        Inl _ \<Rightarrow> no_host_key
      | Inr (p, _) \<Rightarrow> if url_netloc p = [] then no_host_key else url_netloc p)"

text \<open>The clock readings of a store operation that reads the clock twice.\<close>

definition two_readings :: "'w world \<Rightarrow> 'w \<Rightarrow> (real \<times> real) \<times> 'w" where
  "two_readings W w = (let (t, w) = wd_monotonic W w; (t', w) = wd_monotonic W w in ((t, t'), w))"

definition open_error ::
  "'w world \<Rightarrow> ('w, 's) store_access \<Rightarrow> 's state_store \<Rightarrow> breaker \<Rightarrow> string \<Rightarrow> int \<Rightarrow> 'w \<Rightarrow> broker_error \<times> 'w" where
  "open_error W A st cb host retry_after_s w =
     (let (ts, w) = two_readings W w;
          (report, w) = on_store A (claim_open_report st cb ts host) w in
      ((init_error Circuit_Open ''Upstream circuit open; the broker is fast-failing to let it recover.''
          (Some ''circuit_open''))
        \<lparr>be_headers := [(''Retry-After'', str_of_int retry_after_s)], be_report := report\<rparr>, w))"

definition record_call ::
  "'w world \<Rightarrow> ('w, 's) store_access \<Rightarrow> 's state_store \<Rightarrow> breaker \<Rightarrow> string \<Rightarrow> bool \<Rightarrow> 'w
     \<Rightarrow> (state_error, unit) result \<times> 'w" where
  "record_call W A st cb host good w =
     (let (t_total, w) = two_readings W w; (t_fail, w) = two_readings W w; (t_open, w) = two_readings W w in
      on_store A (record_outcome st cb (t_total, t_fail, t_open) host good) w)"

definition circuit_run ::
  "'w world \<Rightarrow> ('w, 's) store_access \<Rightarrow> 's state_store \<Rightarrow> breaker \<Rightarrow> bool \<Rightarrow> 'w runner \<Rightarrow> 'w runner" where
  "circuit_run W A st cb blocking inner request w =
     (let host = host_of (rq_url request);
          (now, w) = wd_monotonic W w;
          (decision, w) = on_store A (allow_call st cb now host) w in
      if \<not> cd_allowed decision \<and> blocking then
        (let (e, w) = open_error W A st cb host (cd_retry_after decision) w in (Inl (Domain e), w))
      else
        (let (r, w) = inner request w in
         case r of
           Inl (Domain e) \<Rightarrow>
             if is_upstream_failure e \<and> \<not> be_local_only e then
               (let (q, w) = record_call W A st cb host False w in
                (case q of Inl se \<Rightarrow> Inl (Store_Failure se) | Inr _ \<Rightarrow> Inl (Domain e), w))
             else (Inl (Domain e), w)
         | Inl e \<Rightarrow> (Inl e, w)
         | Inr result \<Rightarrow>
             (let (q, w) = record_call W A st cb host (rr_status result < 500) w in
              (case q of Inl se \<Rightarrow> Inl (Store_Failure se) | Inr _ \<Rightarrow> Inr result, w))))"

section \<open>The retry decorator\<close>

record retry_config =
  max_attempts :: nat
  base_backoff_s :: real
  max_backoff_s :: real
  retry_statuses :: "int list"
  retry_deadline_s :: real

definition init_retry :: "int \<Rightarrow> real \<Rightarrow> real \<Rightarrow> int list option \<Rightarrow> real \<Rightarrow> retry_config" where
  "init_retry attempts base_s max_s statuses deadline_s =
     \<lparr>max_attempts = nat (max 1 attempts), base_backoff_s = max 0 base_s, max_backoff_s = max 0 max_s,
      retry_statuses = (case statuses of
         None \<Rightarrow> [429, 502, 503, 504] | Some ss \<Rightarrow> if ss = [] then [429, 502, 503, 504] else ss),
      retry_deadline_s = deadline_s\<rparr>"

definition idempotent_methods :: "string list" where
  "idempotent_methods = [''GET'', ''HEAD'', ''PUT'', ''DELETE'', ''OPTIONS'', ''TRACE'']"

definition is_idempotent :: "runner_request \<Rightarrow> bool" where
  "is_idempotent request = (str_upper (rq_method request) \<in> set idempotent_methods)"

definition should_retry_error :: "broker_error \<Rightarrow> bool \<Rightarrow> bool" where
  "should_retry_error e idempotent = (is_upstream_failure e \<and> (be_pre_send e \<or> idempotent))"

definition should_retry_status :: "retry_config \<Rightarrow> int \<Rightarrow> bool \<Rightarrow> bool" where
  "should_retry_status cfg status idempotent = (status \<in> set (retry_statuses cfg) \<and> idempotent)"

definition remaining_budget :: "'w world \<Rightarrow> real option \<Rightarrow> 'w \<Rightarrow> real option \<times> 'w" where
  "remaining_budget W deadline w =
     (case deadline of
        None \<Rightarrow> (None, w)
      | Some d \<Rightarrow> (let (t, w) = wd_monotonic W w in (Some (max 0 (d - t)), w)))"

definition backoff :: "'w world \<Rightarrow> retry_config \<Rightarrow> nat \<Rightarrow> int option \<Rightarrow> real option \<Rightarrow> 'w \<Rightarrow> real \<times> 'w" where
  "backoff W cfg attempt hint deadline w =
     (let (base, w) =
        (case hint of
           Some h \<Rightarrow> (of_int h, w)
         | None \<Rightarrow> wd_uniform W 0 (min (base_backoff_s cfg * 2 ^ (attempt - 1)) (max_backoff_s cfg)) w);
          (remaining, w) = remaining_budget W deadline w;
          base = (case remaining of None \<Rightarrow> base | Some r \<Rightarrow> min base r) in
      (max 0 base, w))"

definition has_budget :: "'w world \<Rightarrow> retry_config \<Rightarrow> nat \<Rightarrow> real \<Rightarrow> real option \<Rightarrow> 'w \<Rightarrow> bool \<times> 'w" where
  "has_budget W cfg attempt delay deadline w =
     (if max_attempts cfg \<le> attempt then (False, w)
      else (let (remaining, w) = remaining_budget W deadline w in
            (case remaining of None \<Rightarrow> True | Some r \<Rightarrow> \<not> r \<le> delay, w)))"

definition retry_sleep :: "'w world \<Rightarrow> real \<Rightarrow> 'w \<Rightarrow> 'w" where
  "retry_sleep W delay w = (if 0 < delay then wd_sleep W delay w else w)"

text \<open>
  One round of the loop: the outcome to return or raise, or the delay to sleep before the next
  attempt. \<open>on_budget\<close> is the tail the two retry branches share.
\<close>

definition on_budget ::
  "'w world \<Rightarrow> retry_config \<Rightarrow> nat \<Rightarrow> int option \<Rightarrow> real option \<Rightarrow> run_outcome \<Rightarrow> 'w
     \<Rightarrow> (run_outcome + real) \<times> 'w" where
  "on_budget W cfg attempt hint deadline out w =
     (let (delay, w) = backoff W cfg attempt hint deadline w;
          (ok, w) = has_budget W cfg attempt delay deadline w in
      (if ok then Inr delay else Inl out, w))"

definition after_attempt ::
  "'w world \<Rightarrow> retry_config \<Rightarrow> runner_request \<Rightarrow> real option \<Rightarrow> nat \<Rightarrow> run_outcome \<Rightarrow> 'w
     \<Rightarrow> (run_outcome + real) \<times> 'w" where
  "after_attempt W cfg request deadline attempt r w =
     (case r of
        Inl (Domain e) \<Rightarrow>
          if \<not> should_retry_error e (is_idempotent request) then (Inl r, w)
          else on_budget W cfg attempt None deadline r w
      | Inl _ \<Rightarrow> (Inl r, w)
      | Inr result \<Rightarrow>
          if \<not> should_retry_status cfg (rr_status result) (is_idempotent request) then (Inl r, w)
          else
            (let (cap_s, w) = remaining_budget W deadline w;
                 (now, w) = wd_wall W w in
             case parse_retry_after_seconds (wd_date W) (rr_headers result) now cap_s of
               Inl e \<Rightarrow> (Inl (Inl (Ceil_Failure e)), w)
             | Inr hint \<Rightarrow> on_budget W cfg attempt hint deadline r w))"

definition retry_round ::
  "'w world \<Rightarrow> retry_config \<Rightarrow> 'w runner \<Rightarrow> runner_request \<Rightarrow> real option \<Rightarrow> nat \<Rightarrow> 'w
     \<Rightarrow> (run_outcome + real) \<times> 'w" where
  "retry_round W cfg inner request deadline attempt w =
     (let (r, w) = inner request w in after_attempt W cfg request deadline attempt r w)"

text \<open>An outcome after which the policy may send the request again.\<close>

definition retryable :: "retry_config \<Rightarrow> runner_request \<Rightarrow> run_outcome \<Rightarrow> bool" where
  "retryable cfg request r = (case r of
     Inl (Domain e) \<Rightarrow> should_retry_error e (is_idempotent request)
   | Inl _ \<Rightarrow> False
   | Inr result \<Rightarrow> should_retry_status cfg (rr_status result) (is_idempotent request))"

lemma has_budget_bound: "fst (has_budget W cfg attempt delay deadline w) \<Longrightarrow> attempt < max_attempts cfg"
  by (simp add: has_budget_def split: if_splits)

lemma on_budget_out:
  "fst (on_budget W cfg attempt hint deadline out w) = Inl y \<Longrightarrow> y = out"
  "fst (on_budget W cfg attempt hint deadline out w) = Inr d \<Longrightarrow> attempt < max_attempts cfg"
  using has_budget_bound by (fastforce simp: on_budget_def split_beta Let_def split: if_splits)+

lemma after_attempt_stop:
  assumes "fst (after_attempt W cfg request deadline attempt r w) = Inl out"
  shows "out = r \<or> (\<exists>e. out = Inl (Ceil_Failure e))"
proof (cases r)
  case (Inl e)
  with assms show ?thesis
    by (cases e) (auto simp: after_attempt_def dest: on_budget_out split: if_splits)
next
  case (Inr result)
  with assms show ?thesis
    by (auto simp: after_attempt_def split_beta Let_def dest: on_budget_out split: if_splits sum.splits)
qed

lemma after_attempt_continue:
  assumes "fst (after_attempt W cfg request deadline attempt r w) = Inr d"
  shows "retryable cfg request r \<and> attempt < max_attempts cfg"
proof (cases r)
  case (Inl e)
  with assms show ?thesis
    by (cases e) (auto simp: after_attempt_def retryable_def dest: on_budget_out split: if_splits)
next
  case (Inr result)
  with assms show ?thesis
    by (auto simp: after_attempt_def retryable_def split_beta Let_def dest: on_budget_out split: if_splits sum.splits)
qed

lemma retry_round_bound:
  "retry_round W cfg inner request deadline attempt w = (Inr delay, w') \<Longrightarrow> attempt < max_attempts cfg"
  using after_attempt_continue [of W cfg request deadline attempt "fst (inner request w)" "snd (inner request w)" delay]
  by (simp add: retry_round_def split_beta)

function retry_loop ::
  "'w world \<Rightarrow> retry_config \<Rightarrow> 'w runner \<Rightarrow> runner_request \<Rightarrow> real option \<Rightarrow> nat \<Rightarrow> 'w \<Rightarrow> run_outcome \<times> 'w" where
  "retry_loop W cfg inner request deadline attempt w =
     (case retry_round W cfg inner request deadline attempt w of
        (Inl out, w) \<Rightarrow> (out, w)
      | (Inr delay, w) \<Rightarrow> retry_loop W cfg inner request deadline (Suc attempt) (retry_sleep W delay w))"
  by pat_completeness auto
termination
  by (relation "measure (\<lambda>(W, cfg, inner, request, deadline, attempt, w). max_attempts cfg - attempt)")
    (auto dest!: sym [of "(Inr _, _)"] retry_round_bound)

declare retry_loop.simps [simp del]

definition retry_run :: "'w world \<Rightarrow> retry_config \<Rightarrow> 'w runner \<Rightarrow> 'w runner" where
  "retry_run W cfg inner request w =
     (let (deadline, w) =
        (if 0 < retry_deadline_s cfg
         then (let (t, w) = wd_monotonic W w in (Some (t + retry_deadline_s cfg), w)) else (None, w)) in
      retry_loop W cfg inner request deadline 1 w)"

section \<open>The deadline decorator\<close>

text \<open>
  \<open>asyncio.timeout\<close> is the argument \<open>timeout_scope\<close>: it runs the call and gives its outcome, or
  nothing when it cancelled the call. A \<open>TimeoutError\<close> raised inside ends the call alike.
  \<open>show_s\<close> formats the deadline for the detail and the directive.
\<close>

type_synonym 'w timeout_scope = "real \<Rightarrow> ('w \<Rightarrow> run_outcome \<times> 'w) \<Rightarrow> 'w \<Rightarrow> run_outcome option \<times> 'w"

definition deadline_error :: "string \<Rightarrow> (string, json) dict \<Rightarrow> broker_error" where
  "deadline_error shown params =
     (init_error Deadline_Exceeded (''The request exceeded the broker's '' @ shown @ ''s overall deadline.'')
        (Some ''deadline_exceeded''))
      \<lparr>be_directive := Some \<lparr>ad_strategy = Wait, ad_parameters = params,
         ad_instruction = ''The request exceeded the broker's overall deadline waiting on the '' @
           ''upstream; wait briefly and retry, or issue the call asynchronously.''\<rparr>\<rparr>"

definition deadline_run :: "'w timeout_scope \<Rightarrow> (real \<Rightarrow> string \<times> json) \<Rightarrow> real \<Rightarrow> 'w runner \<Rightarrow> 'w runner" where
  "deadline_run scope show_s deadline_s inner request w =
     (if deadline_s \<le> 0 then inner request w
      else case scope deadline_s (inner request) w of
        (Some r, w) \<Rightarrow>
          (if r = Inl Timeout_Error
           then Inl (Domain (deadline_error (fst (show_s deadline_s)) [(''deadline_seconds'', snd (show_s deadline_s))]))
           else r, w)
      | (None, w) \<Rightarrow>
          (Inl (Domain (deadline_error (fst (show_s deadline_s)) [(''deadline_seconds'', snd (show_s deadline_s))])), w))"

section \<open>Streaming\<close>

text \<open>
  The streaming variants. A runner's \<open>stream\<close> opens the response (an \<open>opener\<close>); \<open>consume\<close> is what
  happens while it is open, which may end in an exception raised at the \<open>yield\<close>. The outcome is
  the exception that leaves the context, if any.
\<close>

record streaming_result =
  sr_status :: int
  sr_headers :: "(string, string) dict"
  sr_content_type :: "string option"
  sr_chunks :: "string list"
  sr_failure :: "broker_error option"

type_synonym 'w opener = "runner_request \<Rightarrow> 'w \<Rightarrow> (run_error, streaming_result) result \<times> 'w"
type_synonym 'w consumer = "streaming_result \<Rightarrow> 'w \<Rightarrow> run_error option \<times> 'w"

definition http_stream :: "'w client \<Rightarrow> nat \<Rightarrow> 'w opener" where
  "http_stream send cap request w =
     (let (sent, w) = send (request\<lparr>rq_headers := http_outbound_headers (rq_headers request)\<rparr>) w in
      case sent of
        Inl x \<Rightarrow> (Inl (Domain (map_transport_error x)), w)
      | Inr resp \<Rightarrow>
          (let (out, fin) = stream_body cap resp in
           (Inr \<lparr>sr_status = hr_status resp, sr_headers = hr_headers resp,
                 sr_content_type = get_header (hr_headers resp) ''content-type'',
                 sr_chunks = out, sr_failure = fin\<rparr>, w)))"

text \<open>The breaker records on the headers, never again for a body that fails.\<close>

definition circuit_stream ::
  "'w world \<Rightarrow> ('w, 's) store_access \<Rightarrow> 's state_store \<Rightarrow> breaker \<Rightarrow> bool \<Rightarrow> 'w opener \<Rightarrow> 'w consumer
     \<Rightarrow> runner_request \<Rightarrow> 'w \<Rightarrow> run_error option \<times> 'w" where
  "circuit_stream W A st cb blocking inner consume request w =
     (let host = host_of (rq_url request);
          (now, w) = wd_monotonic W w;
          (decision, w) = on_store A (allow_call st cb now host) w in
      if \<not> cd_allowed decision \<and> blocking then
        (let (e, w) = open_error W A st cb host (cd_retry_after decision) w in (Some (Domain e), w))
      else
        (let (r, w) = inner request w in
         case r of
           Inl (Domain e) \<Rightarrow>
             if is_upstream_failure e \<and> \<not> be_local_only e then
               (let (q, w) = record_call W A st cb host False w in
                (Some (case q of Inl se \<Rightarrow> Store_Failure se | Inr _ \<Rightarrow> Domain e), w))
             else (Some (Domain e), w)
         | Inl e \<Rightarrow> (Some e, w)
         | Inr result \<Rightarrow>
             (let (q, w) = record_call W A st cb host (sr_status result < 500) w in
              case q of Inl se \<Rightarrow> (Some (Store_Failure se), w) | Inr _ \<Rightarrow> consume result w)))"

text \<open>The retry decorator passes a stream through; the deadline bounds its opening only.\<close>

definition retry_stream :: "'w opener \<Rightarrow> 'w opener" where
  "retry_stream inner = inner"

type_synonym 'w open_scope =
  "real \<Rightarrow> ('w \<Rightarrow> (run_error, streaming_result) result \<times> 'w) \<Rightarrow> 'w \<Rightarrow> (run_error, streaming_result) result option \<times> 'w"

definition deadline_stream :: "'w open_scope \<Rightarrow> (real \<Rightarrow> string \<times> json) \<Rightarrow> real \<Rightarrow> 'w opener \<Rightarrow> 'w opener" where
  "deadline_stream scope show_s deadline_s inner request w =
     (let expired = Inl (Domain (deadline_error (fst (show_s deadline_s)) [(''deadline_seconds'', snd (show_s deadline_s))])) in
      if deadline_s \<le> 0 then inner request w
      else case scope deadline_s (inner request) w of
        (Some r, w) \<Rightarrow> (if r = Inl Timeout_Error then expired else r, w)
      | (None, w) \<Rightarrow> (expired, w))"

text \<open>A failure while the body streams leaves the breaker as recording the headers left it.\<close>

lemma circuit_stream_records_once:
  assumes "inner request w1 = (Inr result, w2)" and "record_call W A st cb (host_of (rq_url request)) (sr_status result < 500) w2 = (Inr (), w3)"
    and "wd_monotonic W w = (now, w0)" and "on_store A (allow_call st cb now (host_of (rq_url request))) w0 = (d, w1)"
    and "cd_allowed d \<or> \<not> blocking"
  shows "circuit_stream W A st cb blocking inner consume request w = consume result w3"
  using assms by (auto simp: circuit_stream_def Let_def)

end
