(* ===== verification/Runner_Properties.thy ===== *)
theory Runner_Properties
  imports Runner
begin

text \<open>
  What the envelope guarantees: the retry loop never resends a request that may have acted, a
  response stays within its cap, an open circuit keeps a call off the wire through the whole
  envelope, and a hostile rate-limit header escapes it.
\<close>

section \<open>Recording the attempts\<close>

text \<open>A runner that writes down every request it is given and its outcome.\<close>

type_synonym attempt_log = "(runner_request \<times> run_outcome) list"

definition recorded :: "'w runner \<Rightarrow> (attempt_log \<times> 'w) runner" where
  "recorded inner request lw =
     (let (r, w) = inner request (snd lw) in (r, (fst lw @ [(request, r)], w)))"

definition lift_read :: "('w \<Rightarrow> 'a \<times> 'w) \<Rightarrow> 'l \<times> 'w \<Rightarrow> 'a \<times> 'l \<times> 'w" where
  "lift_read f lw = (let (x, w) = f (snd lw) in (x, (fst lw, w)))"

definition log_world :: "'w world \<Rightarrow> ('l \<times> 'w) world" where
  "log_world W =
     \<lparr>wd_monotonic = lift_read (wd_monotonic W), wd_wall = lift_read (wd_wall W),
      wd_uniform = (\<lambda>a b. lift_read (wd_uniform W a b)),
      wd_sleep = (\<lambda>d lw. (fst lw, wd_sleep W d (snd lw))), wd_date = wd_date W\<rparr>"

text \<open>No operation but the inner runner writes the log.\<close>

lemma lift_read_log: "fst (snd (lift_read f lw)) = fst lw"
  by (simp add: lift_read_def split_beta)

lemma log_world_log:
  "fst (snd (wd_monotonic (log_world W) lw)) = fst lw" "fst (snd (wd_wall (log_world W) lw)) = fst lw"
  "fst (snd (wd_uniform (log_world W) a b lw)) = fst lw" "fst (wd_sleep (log_world W) d lw) = fst lw"
  by (simp_all add: log_world_def lift_read_log)

lemma remaining_budget_log: "fst (snd (remaining_budget (log_world W) deadline lw)) = fst lw"
  by (cases deadline) (simp_all add: remaining_budget_def split_beta Let_def log_world_log)

lemma backoff_log: "fst (snd (backoff (log_world W) cfg attempt hint deadline lw)) = fst lw"
  by (cases hint) (simp_all add: backoff_def split_beta Let_def log_world_log remaining_budget_log)

lemma has_budget_log: "fst (snd (has_budget (log_world W) cfg attempt delay deadline lw)) = fst lw"
  by (simp add: has_budget_def split_beta Let_def remaining_budget_log)

lemma retry_sleep_log: "fst (retry_sleep (log_world W) delay lw) = fst lw"
  by (simp add: retry_sleep_def log_world_log)

lemma on_budget_log: "fst (snd (on_budget (log_world W) cfg attempt hint deadline out lw)) = fst lw"
  by (simp add: on_budget_def split_beta Let_def backoff_log has_budget_log)

lemma after_attempt_log: "fst (snd (after_attempt (log_world W) cfg request deadline attempt r lw)) = fst lw"
proof (cases r)
  case (Inl e)
  then show ?thesis by (cases e) (simp_all add: after_attempt_def on_budget_log)
next
  case (Inr result)
  then show ?thesis
    by (simp add: after_attempt_def split_beta Let_def on_budget_log log_world_log remaining_budget_log
        split: sum.split)
qed

lemma retry_loop_log:
  assumes "retry_loop (log_world W) cfg (recorded inner) request deadline attempt lw = (out, lw')"
  shows "\<exists>new. fst lw' = fst lw @ new \<and> new \<noteq> [] \<and> length new + attempt \<le> max (Suc attempt) (Suc (max_attempts cfg)) \<and>
    list_all (\<lambda>(q, r). q = request) new \<and> list_all (\<lambda>(q, r). retryable cfg request r) (butlast new) \<and>
    (out = snd (last new) \<or> (\<exists>e. out = Inl (Ceil_Failure e)))"
  using assms
proof (induction "max_attempts cfg - attempt" arbitrary: attempt lw rule: less_induct)
  case less
  define r where "r = fst (inner request (snd lw))"
  define w where "w = (fst lw @ [(request, r)], snd (inner request (snd lw)))"
  have rec: "recorded inner request lw = (r, w)" by (simp add: recorded_def r_def w_def split_beta)
  obtain x w1 where a: "after_attempt (log_world W) cfg request deadline attempt r w = (x, w1)"
    by (metis surj_pair)
  have w1: "fst w1 = fst lw @ [(request, r)]"
    using after_attempt_log [of W cfg request deadline attempt r w] a by (simp add: w_def)
  have loop: "retry_loop (log_world W) cfg (recorded inner) request deadline attempt lw =
    (case (x, w1) of (Inl out, w) \<Rightarrow> (out, w)
      | (Inr delay, w) \<Rightarrow> retry_loop (log_world W) cfg (recorded inner) request deadline (Suc attempt)
          (retry_sleep (log_world W) delay w))"
    by (subst retry_loop.simps) (simp add: retry_round_def rec a)
  show ?case
  proof (cases x)
    case (Inl y)
    with loop less.prems have "out = y" "lw' = w1" by simp_all
    with w1 Inl after_attempt_stop [of "log_world W" cfg request deadline attempt r w] a show ?thesis
      by (intro exI [of _ "[(request, r)]"]) auto
  next
    case (Inr d)
    with after_attempt_continue [of "log_world W" cfg request deadline attempt r w] a
    have k: "retryable cfg request r" "attempt < max_attempts cfg" by simp_all
    from loop less.prems Inr have "retry_loop (log_world W) cfg (recorded inner) request deadline (Suc attempt)
      (retry_sleep (log_world W) d w1) = (out, lw')" by simp
    from less.hyps [OF _ this] k(2) have "\<exists>new. fst lw' = fst lw @ (request, r) # new \<and> new \<noteq> [] \<and>
        length new + Suc attempt \<le> Suc (max_attempts cfg) \<and>
        list_all (\<lambda>(q, r). q = request) new \<and> list_all (\<lambda>(q, r). retryable cfg request r) (butlast new) \<and>
        (out = snd (last new) \<or> (\<exists>e. out = Inl (Ceil_Failure e)))"
      by (simp add: retry_sleep_log w1)
    then obtain new where
      n: "fst lw' = fst lw @ (request, r) # new" "new \<noteq> []" "length new + Suc attempt \<le> Suc (max_attempts cfg)"
        "list_all (\<lambda>(q, r). q = request) new" "list_all (\<lambda>(q, r). retryable cfg request r) (butlast new)"
        "out = snd (last new) \<or> (\<exists>e. out = Inl (Ceil_Failure e))"
      by blast
    with k show ?thesis by (intro exI [of _ "(request, r) # new"]) auto
  qed
qed

text \<open>
  C16: a request that may have acted is never resent unless its method is idempotent. Whatever the
  upstream, the clock and the headers do, the retry decorator sends the same request between one
  and the configured number of times; after every attempt but the last the policy allowed another;
  and for a method outside the idempotent set those attempts all failed before any byte was
  sent. The caller gets the outcome of the last attempt, or the exception of the hint's parser.
\<close>

theorem unsafe_methods_never_resent:
  assumes "retry_run (log_world W) cfg (recorded inner) request ([], w) = (out, (sent, w'))"
  shows "sent \<noteq> [] \<and> length sent \<le> max 1 (max_attempts cfg) \<and> list_all (\<lambda>(q, r). q = request) sent \<and>
    list_all (\<lambda>(q, r). retryable cfg request r) (butlast sent) \<and>
    (\<not> is_idempotent request \<longrightarrow>
       list_all (\<lambda>(q, r). \<exists>e. r = Inl (Domain e) \<and> is_upstream_failure e \<and> be_pre_send e) (butlast sent)) \<and>
    (out = snd (last sent) \<or> (\<exists>e. out = Inl (Ceil_Failure e)))"
proof -
  define lw :: "attempt_log \<times> 'a" where "lw = (if 0 < retry_deadline_s cfg then snd (wd_monotonic (log_world W) ([], w)) else ([], w))"
  have lw: "fst lw = []" by (simp add: lw_def log_world_log)
  obtain deadline where d: "retry_loop (log_world W) cfg (recorded inner) request deadline 1 lw = (out, (sent, w'))"
    using assms by (cases "0 < retry_deadline_s cfg") (auto simp: retry_run_def split_beta Let_def lw_def)
  have pre: "\<not> is_idempotent request \<Longrightarrow> retryable cfg request r \<Longrightarrow>
      \<exists>e. r = Inl (Domain e) \<and> is_upstream_failure e \<and> be_pre_send e" for r
    by (auto simp: retryable_def should_retry_error_def should_retry_status_def
        split: sum.splits run_error.splits)
  from retry_loop_log [OF d] lw show ?thesis
    using pre by (auto simp: list_all_iff max_def split: if_splits)
qed

text \<open>A scripted world: the runner's answers in order; the clocks and the jitter stand still.\<close>

definition still_world :: "run_outcome list world" where
  "still_world =
     \<lparr>wd_monotonic = (\<lambda>w. (0, w)), wd_wall = (\<lambda>w. (0, w)), wd_uniform = (\<lambda>a b w. (0, w)),
      wd_sleep = (\<lambda>d w. w), wd_date = (\<lambda>s. None)\<rparr>"

definition scripted :: "run_outcome list runner" where
  "scripted request w = (case w of [] \<Rightarrow> (Inl Timeout_Error, []) | r # rs \<Rightarrow> (r, rs))"

definition post_request :: runner_request where
  "post_request = \<lparr>rq_method = ''post'', rq_url = ''https://api.host/orders'', rq_headers = [],
     rq_body = Some ''x'', rq_timeout = 30, rq_signing = None\<rparr>"

definition refused :: run_outcome where
  "refused = Inl (Domain (map_transport_error \<lparr>tf_name = ''ConnectError'', tf_classes = [''httpx.ConnectError'']\<rparr>))"

definition reply :: "int \<Rightarrow> (string, string) dict \<Rightarrow> run_outcome" where
  "reply status hs = Inr \<lparr>rr_status = status, rr_body = [], rr_headers = hs, rr_content_type = None, rr_duration_ms = 1\<rparr>"

definition demo_retry :: retry_config where "demo_retry = init_retry 3 (1/5) 5 None 0"

lemma unsafe_methods_never_resent_witness:
  "fst (retry_run (log_world still_world) demo_retry (recorded scripted) post_request
     ([], [refused, reply 503 [], reply 200 []])) = reply 503 []"
proof -
  let ?run = "retry_run (log_world still_world) demo_retry (recorded scripted) post_request
    ([], [refused, reply 503 [], reply 200 []])"
  have r: "?run = (fst ?run, (fst (snd ?run), snd (snd ?run)))" by simp
  have l: "map snd (fst (snd ?run)) = [refused, reply 503 []]" by code_simp
  then have "fst (snd ?run) \<noteq> []" by auto
  then have "snd (last (fst (snd ?run))) = reply 503 []" using l by (metis last_map last.simps list.discI)
  moreover have "case fst ?run of Inl (Ceil_Failure e) \<Rightarrow> False | _ \<Rightarrow> True" by code_simp
  ultimately show ?thesis using unsafe_methods_never_resent [OF r] by auto
qed

section \<open>A hostile rate-limit header\<close>

definition get_request :: runner_request where
  "get_request = post_request\<lparr>rq_method := ''GET'', rq_body := None\<rparr>"

text \<open>
  An upstream can turn its own 429 into an internal error of the broker. For an idempotent
  method the reset header is read as a float, and its ceiling is not defined for an infinity
  or a NaN: the decorator raises instead of returning the 429, after one attempt. A number
  that cannot be read, in contrast, is no hint.
\<close>

theorem reset_header_escapes:
  "retry_run still_world demo_retry scripted get_request [reply 429 [(''x-ratelimit-reset'', ''inf'')]] =
     (Inl (Ceil_Failure Ceil_Infinity), []) \<and>
   retry_run still_world demo_retry scripted get_request [reply 429 [(''x-ratelimit-reset'', ''nan'')]] =
     (Inl (Ceil_Failure Ceil_NaN), []) \<and>
   retry_run still_world demo_retry scripted get_request
     [reply 429 [(''x-ratelimit-reset'', ''soon'')], reply 200 []] = (reply 200 [], [])"
  by code_simp

section \<open>The response cap\<close>

lemma cap_iter_prefix:
  "fst (cap_iter cap status got chunks failure) @ drop (length (fst (cap_iter cap status got chunks failure))) chunks = chunks"
  by (induction cap status got chunks failure rule: cap_iter.induct) (auto simp: Let_def split_beta)

lemma cap_iter_bound:
  "cap \<noteq> 0 \<Longrightarrow> got \<le> cap \<Longrightarrow> got + length (concat (fst (cap_iter cap status got chunks failure))) \<le> cap"
  by (induction cap status got chunks failure rule: cap_iter.induct) (auto simp: Let_def split_beta add.assoc)

lemma cap_iter_end:
  "snd (cap_iter cap status got chunks failure) =
     (if cap \<noteq> 0 \<and> got \<le> cap \<and> cap < got + length (concat chunks) then Body_Too_Large (too_large_error cap status)
      else if cap = 0 \<or> got \<le> cap then (case failure of None \<Rightarrow> Body_Complete | Some x \<Rightarrow> Body_Failed x)
      else snd (cap_iter cap status got chunks failure))"
  by (induction cap status got chunks failure rule: cap_iter.induct) (auto simp: Let_def split_beta add.assoc)

lemma cap_iter_all:
  "cap = 0 \<or> got + length (concat chunks) \<le> cap \<Longrightarrow> fst (cap_iter cap status got chunks failure) = chunks"
  by (induction cap status got chunks failure rule: cap_iter.induct) (auto simp: Let_def split_beta add.assoc)

text \<open>
  The response cap is exact and holds while the body arrives. Whatever chunks the upstream
  sends, the consumer gets a prefix of them that never exceeds the cap; it gets all of them
  exactly when they fit (or no cap is set), and the too-large error exactly when they do not;
  and the buffered read returns their concatenation.
\<close>

theorem response_cap_exact:
  "(let (out, fin) = cap_iter cap status 0 chunks failure; fits = (cap = 0 \<or> length (concat chunks) \<le> cap) in
    prefix out chunks \<and> (cap = 0 \<or> length (concat out) \<le> cap) \<and>
    (fits = (fin = (case failure of None \<Rightarrow> Body_Complete | Some x \<Rightarrow> Body_Failed x))) \<and>
    (fits = (fin \<noteq> Body_Too_Large (too_large_error cap status))) \<and>
    (if fits then out = chunks else True) \<and>
    read_capped cap status chunks failure =
      (if \<not> fits then Inl (Read_Too_Large (too_large_error cap status))
       else case failure of None \<Rightarrow> Inr (concat chunks) | Some x \<Rightarrow> Inl (Read_Failed x)))"
proof -
  obtain out fin where c: "cap_iter cap status 0 chunks failure = (out, fin)" by fastforce
  have p: "prefix out chunks" using cap_iter_prefix [of cap status 0 chunks failure] c by (metis prefixI fst_conv)
  have b: "cap = 0 \<or> length (concat out) \<le> cap" using cap_iter_bound [of cap 0 status chunks failure] c by auto
  have e: "fin = (if cap \<noteq> 0 \<and> cap < length (concat chunks) then Body_Too_Large (too_large_error cap status)
      else (case failure of None \<Rightarrow> Body_Complete | Some x \<Rightarrow> Body_Failed x))"
    using cap_iter_end [of cap status 0 chunks failure] c by simp
  have a: "cap = 0 \<or> length (concat chunks) \<le> cap \<Longrightarrow> out = chunks"
    using cap_iter_all [of cap 0 chunks status failure] c by simp
  show ?thesis
    unfolding read_capped_def c Let_def prod.case
    using p b e a by (cases failure; cases "cap = 0 \<or> length (concat chunks) \<le> cap") auto
qed

section \<open>The circuit breaker inside the retry loop\<close>

lemma circuit_run_open:
  assumes "memory_inv C (sa_get A w)" and "memory_entry (sa_get A w) (open_key (host_of (rq_url request))) = Some (v, d)"
    and clock: "\<And>w. fst (wd_monotonic W w) < d" "\<And>w. sa_get A (snd (wd_monotonic W w)) = sa_get A w"
  shows "\<exists>e w'. be_class e = Circuit_Open \<and> be_headers e = [(''Retry-After'', str_of_int (cooldown_s cb))] \<and>
    (\<forall>inner. circuit_run W A (memory_store C) cb True inner request w = (Inl (Domain e), w'))"
proof -
  let ?host = "host_of (rq_url request)" and ?now = "fst (wd_monotonic W w)" and ?w = "snd (wd_monotonic W w)"
  have "allow_call (memory_store C) cb ?now ?host (sa_get A ?w) =
      (\<lparr>cd_state = OPEN, cd_allowed = False, cd_retry_after = cooldown_s cb\<rparr>, sa_get A ?w)"
    using memory_counters.allow_open [of C "sa_get A w" ?host v d ?now cb] assms(1,2) clock by simp
  then have a: "on_store A (allow_call (memory_store C) cb ?now ?host) ?w =
      (\<lparr>cd_state = OPEN, cd_allowed = False, cd_retry_after = cooldown_s cb\<rparr>, sa_put A (sa_get A ?w) ?w)"
    by (simp add: on_store_def)
  obtain e w' where e: "open_error W A (memory_store C) cb ?host (cooldown_s cb) (sa_put A (sa_get A ?w) ?w) = (e, w')"
    by (metis surj_pair)
  then have "be_class e = Circuit_Open \<and> be_headers e = [(''Retry-After'', str_of_int (cooldown_s cb))]"
    by (auto simp: open_error_def Let_def split_beta init_error_def)
  moreover have "circuit_run W A (memory_store C) cb True inner request w = (Inl (Domain e), w')" for inner
    using a e by (simp add: circuit_run_def split_beta Let_def)
  ultimately show ?thesis by blast
qed

text \<open>
  An open circuit keeps a call off the wire, through the composed envelope. While the latch
  of the request's host lives, the retry decorator around a blocking breaker answers with the
  circuit-open error and the cooldown as its retry hint, and nothing about the call depends on
  the transport: it is not invoked, not even by a retry.
\<close>

theorem open_circuit_never_dials:
  assumes "reachable C (sa_get A w)"
    and "memory_entry (sa_get A w) (open_key (host_of (rq_url request))) = Some (v, d)"
    and clock: "\<And>w. fst (wd_monotonic W w) < d" "\<And>w. sa_get A (snd (wd_monotonic W w)) = sa_get A w"
  shows "retry_run W cfg (circuit_run W A (memory_store C) cb True transport) request w =
      retry_run W cfg (circuit_run W A (memory_store C) cb True transport') request w \<and>
    (\<exists>e. fst (retry_run W cfg (circuit_run W A (memory_store C) cb True transport) request w) = Inl (Domain e) \<and>
       be_class e = Circuit_Open \<and> be_headers e = [(''Retry-After'', str_of_int (cooldown_s cb))])"
proof -
  let ?w = "if 0 < retry_deadline_s cfg then snd (wd_monotonic W w) else w"
  have get: "sa_get A ?w = sa_get A w" using clock by simp
  obtain e w' where e: "be_class e = Circuit_Open" "be_headers e = [(''Retry-After'', str_of_int (cooldown_s cb))]"
    and run: "\<And>inner. circuit_run W A (memory_store C) cb True inner request ?w = (Inl (Domain e), w')"
    using circuit_run_open [of C A ?w request v d W cb] get assms reachable_memory_inv [OF assms(1)] by auto
  have "retry_loop W cfg (circuit_run W A (memory_store C) cb True inner) request deadline 1 ?w = (Inl (Domain e), w')"
    for inner deadline
    by (subst retry_loop.simps)
      (simp add: retry_round_def run after_attempt_def should_retry_error_def is_upstream_failure_def e)
  then have "retry_run W cfg (circuit_run W A (memory_store C) cb True inner) request w = (Inl (Domain e), w')" for inner
    by (auto simp: retry_run_def split_beta Let_def split: if_splits)
  with e show ?thesis by simp
qed

definition store_world :: "real \<Rightarrow> backend world" where
  "store_world now =
     \<lparr>wd_monotonic = (\<lambda>w. (now, w)), wd_wall = (\<lambda>w. (now, w)), wd_uniform = (\<lambda>a b w. (0, w)),
      wd_sleep = (\<lambda>d w. w), wd_date = (\<lambda>s. None)\<rparr>"

definition store_itself :: "(backend, backend) store_access" where
  "store_itself = \<lparr>sa_get = (\<lambda>w. w), sa_put = (\<lambda>s w. s)\<rparr>"

lemma open_circuit_never_dials_witness:
  "\<exists>w e. fst (retry_run (store_world 30) demo_retry (circuit_run (store_world 30) store_itself
       (memory_store roomy_config) demo_breaker True (\<lambda>q w. (Inl Timeout_Error, w))) get_request w) = Inl (Domain e) \<and>
     be_class e = Circuit_Open"
proof -
  let ?w = "step roomy_config (Op_Set 5 (open_key ''api.host'') ''1'' 60) demo_state"
  have r: "reachable roomy_config ?w" by (rule reachable.operate [OF reachable.start [OF roomy_init]])
  have h: "host_of (rq_url get_request) = ''api.host''" by code_simp
  have m: "memory_entry ?w (open_key ''api.host'') = Some (''1'', 65)" by code_simp
  have "\<exists>e. fst (retry_run (store_world 30) demo_retry (circuit_run (store_world 30) store_itself
       (memory_store roomy_config) demo_breaker True (\<lambda>q w. (Inl Timeout_Error, w))) get_request ?w) = Inl (Domain e) \<and>
     be_class e = Circuit_Open \<and> be_headers e = [(''Retry-After'', str_of_int (cooldown_s demo_breaker))]"
    by (rule conjunct2 [OF open_circuit_never_dials [where v = "''1''" and d = 65]])
      (simp_all add: r h m store_itself_def store_world_def del: step.simps)
  then show ?thesis by blast
qed

end
