(* ===== verification/Runner_Registry.thy ===== *)
theory Runner_Registry
  imports Runner
begin

text \<open>
  \<open>RunnerRegistry\<close> (\<open>broker/adapters/runners/registry.py\<close>): scheme to runner, and the runners'
  lifecycle. An entry is an object shared by its schemes, so entries live in a store; two entries
  are equal when their fields are (the class is a dataclass). A runner is a value of type
  \<open>'r\<close> that can be compared; its \<open>startup\<close> is a parameter: absent, successful or raising.
\<close>

record 'r reg_entry =
  re_runner :: 'r
  re_required :: bool
  re_available :: bool

record 'r registry =
  by_scheme :: "(string, nat) dict"
  entry_store :: "'r reg_entry list"

definition empty_registry :: "'r registry" where
  "empty_registry = \<lparr>by_scheme = [], entry_store = []\<rparr>"

definition register :: "string list \<Rightarrow> 'r \<Rightarrow> bool \<Rightarrow> 'r registry \<Rightarrow> 'r registry" where
  "register schemes runner required g =
     g\<lparr>entry_store := entry_store g @ [\<lparr>re_runner = runner, re_required = required, re_available = True\<rparr>],
       by_scheme := dict_update_all (by_scheme g) (map (\<lambda>s. (str_lower s, length (entry_store g))) schemes)\<rparr>"

datatype select_error = Routing broker_error | Bad_Url url_error

definition select_runner :: "string \<Rightarrow> 'r registry \<Rightarrow> (select_error, 'r) result" where
  "select_runner url g =
     (case urlsplit url of
        Inl e \<Rightarrow> Inl (Bad_Url e)
      | Inr p \<Rightarrow>
          (let scheme = str_lower (url_scheme p) in
           case dict_get (by_scheme g) scheme of
             None \<Rightarrow> Inl (Routing (init_error Runner_Scheme_Unsupported
               (''No upstream runner is registered for the '' @ [CHR 0x27] @
                 (if scheme = [] then ''(none)'' else scheme) @ [CHR 0x27] @ '' scheme.'')
               (Some ''runner_scheme_unsupported'')))
           | Some i \<Rightarrow>
               (let entry = entry_store g ! i in
                if \<not> re_available entry then
                  Inl (Routing (init_error Runner_Unavailable
                    (''The runner for the '' @ [CHR 0x27] @ scheme @ [CHR 0x27] @ '' scheme is currently unavailable.'')
                    (Some ''runner_unavailable'')))
                else Inr (re_runner entry))))"

text \<open>The identifiers of the distinct entries: an entry equal to an earlier one is left out.\<close>

definition distinct_entries :: "'r registry \<Rightarrow> nat list" where
  "distinct_entries g =
     fold (\<lambda>(_, i) seen. if list_ex (\<lambda>j. entry_store g ! j = entry_store g ! i) seen then seen else seen @ [i])
       (by_scheme g) []"

text \<open>\<open>startup\<close>: a required runner's failure is raised, an optional one's degrades its entry.\<close>

datatype startup_outcome = Started | Start_Failed

fun startup_entries :: "('r \<Rightarrow> startup_outcome option) \<Rightarrow> nat list \<Rightarrow> 'r registry \<Rightarrow> bool \<times> 'r registry" where
  "startup_entries starter [] g = (True, g)"
| "startup_entries starter (i # is) g =
     (let entry = entry_store g ! i in
      case starter (re_runner entry) of
        None \<Rightarrow> startup_entries starter is g
      | Some Started \<Rightarrow> startup_entries starter is g
      | Some Start_Failed \<Rightarrow>
          if re_required entry then (False, g)
          else startup_entries starter is (g\<lparr>entry_store := (entry_store g)[i := entry\<lparr>re_available := False\<rparr>]\<rparr>))"

definition startup_registry :: "('r \<Rightarrow> startup_outcome option) \<Rightarrow> 'r registry \<Rightarrow> bool \<times> 'r registry" where
  "startup_registry starter g = startup_entries starter (distinct_entries g) g"

text \<open>\<open>aclose\<close> closes each distinct entry's runner and never raises: the runners it visits.\<close>

definition closed_runners :: "'r registry \<Rightarrow> 'r list" where
  "closed_runners g = map (\<lambda>i. re_runner (entry_store g ! i)) (distinct_entries g)"

section \<open>Selection\<close>

lemma select_registered:
  assumes "urlsplit url = Inr p" "str_lower (url_scheme p) = str_lower s" "s \<in> set schemes"
  shows "select_runner url (register schemes runner required g) = Inr runner"
proof -
  have "str_lower s \<in> fst ` set (rev (map (\<lambda>s. (str_lower s, length (entry_store g))) schemes))"
    using assms(3) by force
  then obtain i where i: "dict_get (rev (map (\<lambda>s. (str_lower s, length (entry_store g))) schemes)) (str_lower s) = Some i"
    by (cases "dict_get (rev (map (\<lambda>s. (str_lower s, length (entry_store g))) schemes)) (str_lower s)")
      (auto simp: map_of_eq_None_iff)
  from map_of_SomeD [OF i] have "i = length (entry_store g)" by auto
  with i have "dict_get (by_scheme (register schemes runner required g)) (str_lower s) = Some (length (entry_store g))"
    by (simp add: register_def dict_update_all_get)
  then show ?thesis using assms(1,2) by (simp add: select_runner_def register_def Let_def)
qed

text \<open>
  A failed optional runner registered under two schemes in two calls stays available under the
  second: the two entries are equal, so only the first is visited and degraded.
\<close>

lemma split_registration_stays_available:
  "(let g = register [''wss''] (1::nat) False (register [''ws''] 1 False empty_registry);
        g' = snd (startup_registry (\<lambda>_. Some Start_Failed) g) in
    select_runner ''wss://h/'' g' = Inr 1 \<and> (case select_runner ''ws://h/'' g' of Inl _ \<Rightarrow> True | Inr _ \<Rightarrow> False))"
  by code_simp

end
