(* ===== verification/Bulkhead.thy ===== *)
theory Bulkhead
  imports Prelude
begin

text \<open>
  \<open>_HostBulkhead\<close> of \<open>broker/adapters/runners/http.py\<close>: at most \<open>per_host\<close> gated calls per upstream
  host, over a bounded least-recently-used map of semaphores. Slots are objects, so the model keeps
  them in a store under an identifier: a task refers to the slot it was given, the map to the
  current slot of a host. Tasks interleave at their await points: entering \<open>guard\<close> (which
  runs up to waiting on the semaphore), getting a permit, leaving.
\<close>

record host_slot =
  in_flight :: nat
  permits :: nat

text \<open>A task inside \<open>guard\<close>: its host and its slot (none past the cap); waiting or holding.\<close>

datatype phase = Waiting | Holding | Ungated

record guard_task =
  gt_host :: string
  gt_slot :: nat
  gt_phase :: phase

record bulkhead =
  slot_of_host :: "(string, nat) dict"
  slot_store :: "host_slot list"
  guard_tasks :: "(nat, guard_task) dict"

record bulkhead_config =
  per_host :: nat
  max_hosts :: nat

definition empty_bulkhead :: bulkhead where
  "empty_bulkhead = \<lparr>slot_of_host = [], slot_store = [], guard_tasks = []\<rparr>"

definition slot_idle :: "bulkhead \<Rightarrow> nat \<Rightarrow> bool" where
  "slot_idle b i = (in_flight (slot_store b ! i) = 0)"

definition evict_idle :: "bulkhead \<Rightarrow> bulkhead" where
  "evict_idle b =
     (case find (\<lambda>(host, i). slot_idle b i) (slot_of_host b) of
        None \<Rightarrow> b
      | Some (host, _) \<Rightarrow> b\<lparr>slot_of_host := AList.delete host (slot_of_host b)\<rparr>)"

definition slot_for :: "bulkhead_config \<Rightarrow> string \<Rightarrow> bulkhead \<Rightarrow> nat option \<times> bulkhead" where
  "slot_for C host b =
     (case map_of (slot_of_host b) host of
        Some i \<Rightarrow> (Some i, b\<lparr>slot_of_host := AList.delete host (slot_of_host b) @ [(host, i)]\<rparr>)
      | None \<Rightarrow>
          (let b = (if max_hosts C \<le> length (slot_of_host b) then evict_idle b else b) in
           if max_hosts C \<le> length (slot_of_host b) then (None, b)
           else (Some (length (slot_store b)),
                 b\<lparr>slot_store := slot_store b @ [\<lparr>in_flight = 0, permits = per_host C\<rparr>],
                   slot_of_host := slot_of_host b @ [(host, length (slot_store b))]\<rparr>)))"

definition update_slot :: "nat \<Rightarrow> (host_slot \<Rightarrow> host_slot) \<Rightarrow> bulkhead \<Rightarrow> bulkhead" where
  "update_slot i f b = b\<lparr>slot_store := (slot_store b)[i := f (slot_store b ! i)]\<rparr>"

text \<open>\<open>guard\<close> up to the first suspension.\<close>

definition enter_guard :: "bulkhead_config \<Rightarrow> nat \<Rightarrow> string \<Rightarrow> bulkhead \<Rightarrow> bulkhead" where
  "enter_guard C t host b =
     (let (slot, b) = slot_for C host b in
      case slot of
        None \<Rightarrow> b\<lparr>guard_tasks := AList.update t \<lparr>gt_host = host, gt_slot = 0, gt_phase = Ungated\<rparr> (guard_tasks b)\<rparr>
      | Some i \<Rightarrow>
          (update_slot i (\<lambda>s. s\<lparr>in_flight := Suc (in_flight s)\<rparr>) b)
            \<lparr>guard_tasks := AList.update t \<lparr>gt_host = host, gt_slot = i, gt_phase = Waiting\<rparr> (guard_tasks b)\<rparr>)"

text \<open>The semaphore grants a permit to a waiting task while it has one.\<close>

definition grant_permit :: "nat \<Rightarrow> bulkhead \<Rightarrow> bulkhead option" where
  "grant_permit t b =
     (case map_of (guard_tasks b) t of
        None \<Rightarrow> None
      | Some g \<Rightarrow>
          if gt_phase g = Waiting \<and> 0 < permits (slot_store b ! gt_slot g) then
            Some ((update_slot (gt_slot g) (\<lambda>s. s\<lparr>permits := permits s - 1\<rparr>) b)
                    \<lparr>guard_tasks := AList.update t (g\<lparr>gt_phase := Holding\<rparr>) (guard_tasks b)\<rparr>)
          else None)"

text \<open>
  Leaving: the permit is released if it was held (a waiting task that is cancelled has none), and
  the slot's counter goes down in the \<open>finally\<close> clause.
\<close>

definition leave_guard :: "nat \<Rightarrow> bulkhead \<Rightarrow> bulkhead option" where
  "leave_guard t b =
     (case map_of (guard_tasks b) t of
        None \<Rightarrow> None
      | Some g \<Rightarrow>
          (let b' = b\<lparr>guard_tasks := AList.delete t (guard_tasks b)\<rparr> in
           Some (case gt_phase g of
             Ungated \<Rightarrow> b'
           | Waiting \<Rightarrow> update_slot (gt_slot g) (\<lambda>s. s\<lparr>in_flight := in_flight s - 1\<rparr>) b'
           | Holding \<Rightarrow> update_slot (gt_slot g)
                (\<lambda>s. s\<lparr>in_flight := in_flight s - 1, permits := Suc (permits s)\<rparr>) b')))"

text \<open>One step of any task; \<open>t\<close> is fresh when it enters.\<close>

inductive bulkhead_step :: "bulkhead_config \<Rightarrow> bulkhead \<Rightarrow> bulkhead \<Rightarrow> bool" for C where
  enter: "map_of (guard_tasks b) t = None \<Longrightarrow> bulkhead_step C b (enter_guard C t host b)"
| grant: "grant_permit t b = Some b' \<Longrightarrow> bulkhead_step C b b'"
| leave: "leave_guard t b = Some b' \<Longrightarrow> bulkhead_step C b b'"

inductive bulkhead_reachable :: "bulkhead_config \<Rightarrow> bulkhead \<Rightarrow> bool" for C where
  start: "bulkhead_reachable C empty_bulkhead"
| step: "bulkhead_reachable C b \<Longrightarrow> bulkhead_step C b b' \<Longrightarrow> bulkhead_reachable C b'"

inductive_cases bulkhead_stepE: "bulkhead_step C b b'"

section \<open>The invariant\<close>

definition tasks_of :: "bulkhead \<Rightarrow> guard_task list" where
  "tasks_of b = map snd (guard_tasks b)"

text \<open>The gated tasks of a slot, and those of them that hold a permit.\<close>

definition users :: "nat \<Rightarrow> guard_task list \<Rightarrow> guard_task list" where
  "users i gs = filter (\<lambda>g. gt_phase g \<noteq> Ungated \<and> gt_slot g = i) gs"

definition holders :: "nat \<Rightarrow> guard_task list \<Rightarrow> guard_task list" where
  "holders i gs = filter (\<lambda>g. gt_phase g = Holding \<and> gt_slot g = i) gs"

text \<open>
  Every slot counts its users and holders; a gated task's slot is the one its host maps to; no
  two hosts share a slot; the map stays within its bound.
\<close>

definition bulkhead_inv :: "bulkhead_config \<Rightarrow> bulkhead \<Rightarrow> bool" where
  "bulkhead_inv C b =
     (distinct (map fst (guard_tasks b)) \<and> distinct (map fst (slot_of_host b)) \<and>
      length (slot_of_host b) \<le> max_hosts C \<and>
      (\<forall>(host, i) \<in> set (slot_of_host b). i < length (slot_store b)) \<and>
      distinct (map snd (slot_of_host b)) \<and>
      (\<forall>i < length (slot_store b).
         in_flight (slot_store b ! i) = length (users i (tasks_of b)) \<and>
         permits (slot_store b ! i) + length (holders i (tasks_of b)) = per_host C) \<and>
      (\<forall>g \<in> set (tasks_of b). gt_phase g \<noteq> Ungated \<longrightarrow> map_of (slot_of_host b) (gt_host g) = Some (gt_slot g)))"

section \<open>The invariant is preserved\<close>

lemma entry_split:
  assumes "distinct (map fst xs)" "map_of xs k = Some v"
  obtains pre post where "xs = pre @ (k, v) # post" "k \<notin> fst ` set pre" "k \<notin> fst ` set post"
proof -
  from map_of_SomeD [OF assms(2)] obtain pre post where s: "xs = pre @ (k, v) # post"
    by (auto simp: in_set_conv_decomp)
  with assms(1) show ?thesis by (intro that [OF s]) auto
qed

lemma delete_absent: "k \<notin> fst ` set xs \<Longrightarrow> AList.delete k xs = xs"
  by (induction xs) auto

lemma delete_split:
  "k \<notin> fst ` set pre \<Longrightarrow> k \<notin> fst ` set post \<Longrightarrow> AList.delete k (pre @ (k, v) # post) = pre @ post"
  by (simp add: AList.delete_eq filter_append) (simp add: delete_absent flip: AList.delete_eq)

lemma update_split:
  "k \<notin> fst ` set pre \<Longrightarrow> AList.update k v' (pre @ (k, v) # post) = pre @ (k, v') # post"
  by (induction pre) auto

lemma update_fresh: "map_of xs k = None \<Longrightarrow> AList.update k v xs = xs @ [(k, v)]"
  by (induction xs) (auto split: if_splits)

lemma users_append [simp]: "users i (xs @ ys) = users i xs @ users i ys"
  by (simp add: users_def)

lemma holders_append [simp]: "holders i (xs @ ys) = holders i xs @ holders i ys"
  by (simp add: holders_def)

lemma users_single [simp]: "users i [g] = (if gt_phase g \<noteq> Ungated \<and> gt_slot g = i then [g] else [])"
  by (simp add: users_def)

lemma holders_single [simp]: "holders i [g] = (if gt_phase g = Holding \<and> gt_slot g = i then [g] else [])"
  by (simp add: holders_def)

lemma bulkhead_invD:
  assumes "bulkhead_inv C b"
  shows "distinct (map fst (guard_tasks b))" "distinct (map fst (slot_of_host b))"
    "length (slot_of_host b) \<le> max_hosts C" "\<And>host i. (host, i) \<in> set (slot_of_host b) \<Longrightarrow> i < length (slot_store b)"
    "distinct (map snd (slot_of_host b))"
    "\<And>i. i < length (slot_store b) \<Longrightarrow> in_flight (slot_store b ! i) = length (users i (tasks_of b))"
    "\<And>i. i < length (slot_store b) \<Longrightarrow>
       permits (slot_store b ! i) + length (holders i (tasks_of b)) = per_host C"
    "\<And>g. g \<in> set (tasks_of b) \<Longrightarrow> gt_phase g \<noteq> Ungated \<Longrightarrow> map_of (slot_of_host b) (gt_host g) = Some (gt_slot g)"
  using assms by (auto simp: bulkhead_inv_def)

lemma bulkhead_invI:
  assumes "distinct (map fst (guard_tasks b))" "distinct (map fst (slot_of_host b))"
    "length (slot_of_host b) \<le> max_hosts C" "\<And>host i. (host, i) \<in> set (slot_of_host b) \<Longrightarrow> i < length (slot_store b)"
    "distinct (map snd (slot_of_host b))"
    "\<And>i. i < length (slot_store b) \<Longrightarrow> in_flight (slot_store b ! i) = length (users i (tasks_of b))"
    "\<And>i. i < length (slot_store b) \<Longrightarrow>
       permits (slot_store b ! i) + length (holders i (tasks_of b)) = per_host C"
    "\<And>g. g \<in> set (tasks_of b) \<Longrightarrow> gt_phase g \<noteq> Ungated \<Longrightarrow> map_of (slot_of_host b) (gt_host g) = Some (gt_slot g)"
  shows "bulkhead_inv C b"
  using assms by (auto simp: bulkhead_inv_def)

lemma evict_idle_inv:
  assumes inv: "bulkhead_inv C b" shows "bulkhead_inv C (evict_idle b)"
proof (cases "find (\<lambda>(host, i). slot_idle b i) (slot_of_host b)")
  case None
  then show ?thesis using inv by (simp add: evict_idle_def)
next
  case (Some p)
  obtain host i where p: "p = (host, i)" by fastforce
  from Some p have mem: "(host, i) \<in> set (slot_of_host b)" and idle: "slot_idle b i"
    by (auto simp: find_Some_iff in_set_conv_nth)
  note D = bulkhead_invD [OF inv]
  have m: "map_of (slot_of_host b) host = Some i" using D(2) mem by (rule map_of_is_SomeI)
  obtain pre post where s: "slot_of_host b = pre @ (host, i) # post" "host \<notin> fst ` set pre" "host \<notin> fst ` set post"
    by (rule entry_split [OF D(2) m])
  have b': "evict_idle b = b\<lparr>slot_of_host := pre @ post\<rparr>"
    using Some p s by (simp add: evict_idle_def delete_split)
  have none: "users i (tasks_of b) = []" using idle D(4) [OF mem] D(6) by (simp add: slot_idle_def)
  have g: "map_of (pre @ post) (gt_host g) = Some (gt_slot g)"
    if "g \<in> set (tasks_of b)" "gt_phase g \<noteq> Ungated" for g
  proof -
    have "gt_slot g \<noteq> i" using none that by (auto simp: users_def filter_empty_conv)
    then have "gt_host g \<noteq> host" using D(8) [OF that] m by auto
    then show ?thesis using D(8) [OF that] s(1) by (simp add: map_add_def split: option.splits)
  qed
  show ?thesis unfolding b' bulkhead_inv_def
    using D(1-7) g s(1) by (auto simp: tasks_of_def)
qed

text \<open>What \<open>slot_for\<close> gives: the host's current slot, with every task's slot still current.\<close>

lemma slot_for_inv:
  assumes inv: "bulkhead_inv C b" and run: "slot_for C host b = (slot, b')"
  shows "bulkhead_inv C b' \<and> guard_tasks b' = guard_tasks b \<and>
    (\<forall>i. slot = Some i \<longrightarrow> map_of (slot_of_host b') host = Some i)"
proof (cases "map_of (slot_of_host b) host")
  case (Some i)
  note D = bulkhead_invD [OF inv]
  obtain pre post where s: "slot_of_host b = pre @ (host, i) # post" "host \<notin> fst ` set pre" "host \<notin> fst ` set post"
    by (rule entry_split [OF D(2) Some])
  have b': "slot = Some i" "b' = b\<lparr>slot_of_host := pre @ post @ [(host, i)]\<rparr>"
    using run Some s by (simp_all add: slot_for_def delete_split)
  have m: "map_of (pre @ post @ [(host, i)]) = map_of (slot_of_host b)"
    using s D(2) by (subst map_of_inject_set) auto
  have "bulkhead_inv C b'" unfolding b'(2) bulkhead_inv_def
    using D s by (auto simp: tasks_of_def m simp del: map_of_append)
  then show ?thesis using b' Some m by (simp del: map_of_append)
next
  case None
  define c where "c = (if max_hosts C \<le> length (slot_of_host b) then evict_idle b else b)"
  have c: "bulkhead_inv C c" using inv evict_idle_inv by (simp add: c_def)
  have same: "guard_tasks c = guard_tasks b" by (simp add: c_def evict_idle_def split: option.split)
  have n: "map_of (slot_of_host c) host = None"
    using None by (auto simp: c_def evict_idle_def AList.delete_conv split: option.split)
  note D = bulkhead_invD [OF c]
  show ?thesis
  proof (cases "max_hosts C \<le> length (slot_of_host c)")
    case True
    then have "slot = None" "b' = c" using run None by (simp_all add: slot_for_def c_def [symmetric])
    with c same show ?thesis by simp
  next
    case False
    let ?n = "length (slot_store c)"
    have b': "slot = Some ?n" "b' = c\<lparr>slot_store := slot_store c @ [\<lparr>in_flight = 0, permits = per_host C\<rparr>],
        slot_of_host := slot_of_host c @ [(host, ?n)]\<rparr>"
      using run None False by (simp_all add: slot_for_def c_def [symmetric])
    have new: "users ?n (tasks_of c) = []" "holders ?n (tasks_of c) = []"
      using D(4,8) by (fastforce simp: users_def holders_def filter_empty_conv dest!: map_of_SomeD)+
    have sl: "?n \<notin> snd ` set (slot_of_host c)" using D(4) by fastforce
    have h: "host \<notin> fst ` set (slot_of_host c)" using n by (simp add: map_of_eq_None_iff)
    have cur: "map_of (slot_of_host c @ [(host, ?n)]) (gt_host g) = Some (gt_slot g)"
      if "map_of (slot_of_host c) (gt_host g) = Some (gt_slot g)" for g
    proof -
      have "gt_host g \<noteq> host" using that n by auto
      with that show ?thesis by (simp add: map_add_def)
    qed
    have tk: "tasks_of b' = tasks_of c" by (simp add: b'(2) tasks_of_def)
    have "bulkhead_inv C b'"
    proof (rule bulkhead_invI)
      show "map_of (slot_of_host b') (gt_host g) = Some (gt_slot g)"
        if "g \<in> set (tasks_of b')" "gt_phase g \<noteq> Ungated" for g
      proof -
        from that have "g \<in> set (tasks_of c)" by (simp only: tk)
        from cur [OF D(8) [OF this that(2)]] show ?thesis by (simp add: b'(2))
      qed
      show "in_flight (slot_store b' ! i) = length (users i (tasks_of b'))" if "i < length (slot_store b')" for i
        unfolding tk using that D(6) [of i] new by (auto simp: b'(2) nth_append less_Suc_eq)
      show "permits (slot_store b' ! i) + length (holders i (tasks_of b')) = per_host C"
        if "i < length (slot_store b')" for i
        unfolding tk using that D(7) [of i] new by (auto simp: b'(2) nth_append less_Suc_eq)
    qed (use D(1-3,5) less_SucI [OF D(4)] False sl h in \<open>auto simp: b'(2)\<close>)
    then show ?thesis using b' same n by (simp add: map_add_def)
  qed
qed

lemma task_split:
  assumes "bulkhead_inv C b" "map_of (guard_tasks b) t = Some g"
  obtains pre post where "guard_tasks b = pre @ (t, g) # post"
    "\<And>g'. AList.update t g' (guard_tasks b) = pre @ (t, g') # post"
    "AList.delete t (guard_tasks b) = pre @ post"
proof -
  obtain pre post where "guard_tasks b = pre @ (t, g) # post" "t \<notin> fst ` set pre" "t \<notin> fst ` set post"
    by (rule entry_split [OF bulkhead_invD(1) [OF assms(1)] assms(2)])
  then show ?thesis by (intro that) (simp_all add: update_split delete_split)
qed

lemma gated_slot:
  assumes "bulkhead_inv C b" "map_of (guard_tasks b) t = Some g" "gt_phase g \<noteq> Ungated"
  shows "gt_slot g < length (slot_store b)" "map_of (slot_of_host b) (gt_host g) = Some (gt_slot g)"
proof -
  have "g \<in> set (tasks_of b)" using map_of_SomeD [OF assms(2)] by (force simp: tasks_of_def)
  with bulkhead_invD(8) [OF assms(1)] assms(3) show "map_of (slot_of_host b) (gt_host g) = Some (gt_slot g)" by simp
  then show "gt_slot g < length (slot_store b)" using bulkhead_invD(4) [OF assms(1)] by (auto dest: map_of_SomeD)
qed

lemma enter_guard_inv:
  assumes inv: "bulkhead_inv C b" and fresh: "map_of (guard_tasks b) t = None"
  shows "bulkhead_inv C (enter_guard C t host b)"
proof -
  obtain slot c where s: "slot_for C host b = (slot, c)" by fastforce
  from slot_for_inv [OF inv s] have c: "bulkhead_inv C c" "guard_tasks c = guard_tasks b"
    and m: "\<And>i. slot = Some i \<Longrightarrow> map_of (slot_of_host c) host = Some i" by auto
  note D = bulkhead_invD [OF c(1)]
  have u: "AList.update t g (guard_tasks c) = guard_tasks c @ [(t, g)]" for g
    using fresh c(2) by (simp add: update_fresh)
  have t: "t \<notin> fst ` set (guard_tasks c)" using fresh c(2) by (simp add: map_of_eq_None_iff)
  show ?thesis
  proof (cases slot)
    case None
    then show ?thesis unfolding bulkhead_inv_def
      using D t by (auto simp: enter_guard_def s u tasks_of_def)
  next
    case (Some i)
    have i: "i < length (slot_store c)" using D(4) m [OF Some] by (auto dest: map_of_SomeD)
    have e: "enter_guard C t host b = c\<lparr>slot_store := (slot_store c)[i := (slot_store c ! i)\<lparr>in_flight := Suc (in_flight (slot_store c ! i))\<rparr>],
        guard_tasks := guard_tasks c @ [(t, \<lparr>gt_host = host, gt_slot = i, gt_phase = Waiting\<rparr>)]\<rparr>"
      by (simp add: enter_guard_def s Some u update_slot_def)
    show ?thesis unfolding bulkhead_inv_def e
      using D t i m [OF Some] by (auto simp: tasks_of_def nth_list_update)
  qed
qed

text \<open>
  A step that changes one task and its slot keeps the invariant if it moves the slot's counters
  by what the task stops and starts to use.
\<close>

lemma replace_task_inv:
  assumes inv: "bulkhead_inv C b" and g: "map_of (guard_tasks b) t = Some g" "gt_phase g \<noteq> Ungated"
    and s: "guard_tasks b = pre @ (t, g) # post"
    and b': "b' = b\<lparr>slot_store := (slot_store b)[gt_slot g := f], guard_tasks := pre @ new @ post\<rparr>"
    and new: "new = [] \<or> (\<exists>g'. new = [(t, g')] \<and> gt_phase g' \<noteq> Ungated \<and> gt_slot g' = gt_slot g \<and> gt_host g' = gt_host g)"
    and f: "in_flight f + 1 = in_flight (slot_store b ! gt_slot g) + length new"
      "permits f + length (holders (gt_slot g) (map snd new)) =
         permits (slot_store b ! gt_slot g) + (if gt_phase g = Holding then 1 else 0)"
  shows "bulkhead_inv C b'"
proof (rule bulkhead_invI)
  note D = bulkhead_invD [OF inv]
  have i: "gt_slot g < length (slot_store b)" by (rule gated_slot(1) [OF inv g])
  have tb: "tasks_of b = map snd pre @ [g] @ map snd post" "tasks_of b' = map snd pre @ map snd new @ map snd post"
    by (simp_all add: tasks_of_def s b')
  have u: "length (users j (map snd new)) = (if j = gt_slot g then length new else 0)" for j
    using new by (auto simp: users_def)
  have h: "j \<noteq> gt_slot g \<Longrightarrow> holders j (map snd new) = []" for j
    using new by (auto simp: holders_def)
  show "in_flight (slot_store b' ! j) = length (users j (tasks_of b'))" if "j < length (slot_store b')" for j
    using that i D(6) [of j] f(1) g(2) u [of j] unfolding tb users_append users_single
    by (cases "j = gt_slot g") (simp_all add: b')
  show "permits (slot_store b' ! j) + length (holders j (tasks_of b')) = per_host C" if "j < length (slot_store b')" for j
    using that i D(7) [of j] f(2) h [of j] unfolding tb holders_append holders_single
    by (cases "j = gt_slot g"; cases "gt_phase g = Holding") (simp_all add: b')
  show "map_of (slot_of_host b') (gt_host x) = Some (gt_slot x)" if "x \<in> set (tasks_of b')" "gt_phase x \<noteq> Ungated" for x
  proof (cases "x \<in> snd ` set new")
    case True
    then show ?thesis using new gated_slot(2) [OF inv g] by (auto simp only: b' simp_thms image_iff list.set prod.sel) auto
  next
    case False
    then have "x \<in> set (tasks_of b)" using that(1) unfolding tb by auto
    then show ?thesis using D(8) [of x] that(2) by (simp only: b') simp
  qed
qed (use bulkhead_invD(1-5) [OF inv] s new in \<open>fastforce simp: b'\<close>)+

lemma grant_permit_inv:
  assumes inv: "bulkhead_inv C b" and run: "grant_permit t b = Some b'"
  shows "bulkhead_inv C b'"
proof -
  from run obtain g where g: "map_of (guard_tasks b) t = Some g" "gt_phase g = Waiting"
    "0 < permits (slot_store b ! gt_slot g)" by (auto simp: grant_permit_def split: option.splits if_splits)
  obtain pre post where s: "guard_tasks b = pre @ (t, g) # post"
    "\<And>g'. AList.update t g' (guard_tasks b) = pre @ (t, g') # post" by (rule task_split [OF inv g(1)]) blast
  show ?thesis
  proof (rule replace_task_inv [OF inv g(1) _ s(1)])
    show "b' = b\<lparr>slot_store := (slot_store b)[gt_slot g := (slot_store b ! gt_slot g)
          \<lparr>permits := permits (slot_store b ! gt_slot g) - 1\<rparr>],
        guard_tasks := pre @ [(t, g\<lparr>gt_phase := Holding\<rparr>)] @ post\<rparr>"
      using run g by (simp add: grant_permit_def update_slot_def s(2))
  qed (use g in simp_all)
qed

lemma leave_guard_inv:
  assumes inv: "bulkhead_inv C b" and run: "leave_guard t b = Some b'"
  shows "bulkhead_inv C b'"
proof -
  note D = bulkhead_invD [OF inv]
  from run obtain g where g: "map_of (guard_tasks b) t = Some g"
    by (auto simp: leave_guard_def split: option.splits)
  obtain pre post where s: "guard_tasks b = pre @ (t, g) # post"
    "AList.delete t (guard_tasks b) = pre @ post" by (rule task_split [OF inv g]) blast
  have tb: "tasks_of b = map snd pre @ [g] @ map snd post" by (simp add: tasks_of_def s)
  show ?thesis
  proof (cases "gt_phase g = Ungated")
    case True
    then have b': "b' = b\<lparr>guard_tasks := pre @ post\<rparr>" using run g s(2) by (simp add: leave_guard_def)
    have t': "tasks_of b' = map snd pre @ map snd post" by (simp add: b' tasks_of_def)
    have c: "users j (tasks_of b') = users j (tasks_of b)" "holders j (tasks_of b') = holders j (tasks_of b)" for j
      unfolding tb t' users_append holders_append users_single holders_single using True by simp_all
    show ?thesis
    proof (rule bulkhead_invI)
      show "map_of (slot_of_host b') (gt_host x) = Some (gt_slot x)" if "x \<in> set (tasks_of b')" "gt_phase x \<noteq> Ungated" for x
      proof -
        from that(1) have "x \<in> set (tasks_of b)" unfolding tb t' by auto
        from D(8) [OF this that(2)] show ?thesis by (simp add: b')
      qed
    qed (use D(1-7) s(1) c in \<open>auto simp: b'\<close>)
  next
    case False
    have pos: "0 < in_flight (slot_store b ! gt_slot g)"
      using D(6) [OF gated_slot(1) [OF inv g False]] False unfolding tb users_append users_single by simp
    let ?sl = "slot_store b ! gt_slot g"
    show ?thesis
    proof (rule replace_task_inv [OF inv g False s(1), where new = "[]"])
      show "b' = b\<lparr>slot_store := (slot_store b)[gt_slot g := ?sl\<lparr>in_flight := in_flight ?sl - 1,
            permits := permits ?sl + (if gt_phase g = Holding then 1 else 0)\<rparr>], guard_tasks := pre @ [] @ post\<rparr>"
        using run g s(2) False by (cases "gt_phase g"; cases b) (auto simp: leave_guard_def update_slot_def)
    qed (use pos in \<open>simp_all add: holders_def\<close>)
  qed
qed

lemma bulkhead_reachable_inv: "bulkhead_reachable C b \<Longrightarrow> bulkhead_inv C b"
proof (induction rule: bulkhead_reachable.induct)
  case start
  then show ?case by (simp add: bulkhead_inv_def empty_bulkhead_def tasks_of_def)
next
  case (step b b')
  from step.hyps(2) step.IH show ?case
    by (cases rule: bulkhead_stepE) (auto intro: enter_guard_inv grant_permit_inv leave_guard_inv)
qed

definition holding :: "string \<Rightarrow> bulkhead \<Rightarrow> guard_task list" where
  "holding host b = filter (\<lambda>g. gt_phase g = Holding \<and> gt_host g = host) (tasks_of b)"

text \<open>
  C18: the bulkhead isolates hosts. In every interleaving of calls entering, getting a permit,
  leaving or being cancelled, at most \<open>per_host\<close> gated calls to one host are on the wire, the
  map of semaphores stays within its bound, and the semaphore a busy host maps to is still the
  one its calls hold: eviction never splits a host over two semaphores.
\<close>

theorem bulkhead_caps_host:
  assumes "bulkhead_reachable C b"
  shows "length (holding host b) \<le> per_host C \<and> length (slot_of_host b) \<le> max_hosts C \<and>
    list_all (\<lambda>g. gt_phase g = Ungated \<or> map_of (slot_of_host b) (gt_host g) = Some (gt_slot g)) (tasks_of b)"
proof -
  have inv: "bulkhead_inv C b" by (rule bulkhead_reachable_inv [OF assms])
  note D = bulkhead_invD [OF inv]
  have "length (holding host b) \<le> per_host C"
  proof (cases "map_of (slot_of_host b) host")
    case None
    then have "holding host b = []" using D(8) by (fastforce simp: holding_def filter_empty_conv)
    then show ?thesis by simp
  next
    case (Some i)
    have "holding host b = filter (\<lambda>g. gt_host g = host) (holders i (tasks_of b))"
      using D(8) Some by (auto simp: holding_def holders_def intro!: filter_cong)
    then have "length (holding host b) \<le> length (holders i (tasks_of b))" by simp
    also have "\<dots> \<le> per_host C"
      using D(7) [of i] D(4) map_of_SomeD [OF Some] by (metis le_add2)
    finally show ?thesis .
  qed
  with D(3,8) show ?thesis by (auto simp: list_all_iff)
qed

lemma bulkhead_caps_host_witness:
  "\<exists>b. bulkhead_reachable \<lparr>per_host = 1, max_hosts = 1\<rparr> b \<and> length (holding ''a'' b) = 1 \<and>
     length (guard_tasks b) = 3 \<and> length (holding ''a'' b) \<le> per_host \<lparr>per_host = 1, max_hosts = 1\<rparr>"
proof -
  let ?C = "\<lparr>per_host = 1, max_hosts = 1\<rparr>"
  let ?b3 = "enter_guard ?C 2 ''b'' (enter_guard ?C 1 ''a'' (enter_guard ?C 0 ''a'' empty_bulkhead))"
  obtain b where b: "grant_permit 1 ?b3 = Some b" "length (holding ''a'' b) = 1" "length (guard_tasks b) = 3"
  proof -
    have "case grant_permit 1 ?b3 of None \<Rightarrow> False | Some b \<Rightarrow> length (holding ''a'' b) = 1 \<and> length (guard_tasks b) = 3"
      by code_simp
    then show ?thesis using that by (cases "grant_permit 1 ?b3") auto
  qed
  have r1: "bulkhead_reachable ?C (enter_guard ?C 0 ''a'' empty_bulkhead)"
    by (rule bulkhead_reachable.step [OF bulkhead_reachable.start bulkhead_step.enter]) code_simp
  have r2: "bulkhead_reachable ?C (enter_guard ?C 1 ''a'' (enter_guard ?C 0 ''a'' empty_bulkhead))"
    by (rule bulkhead_reachable.step [OF r1 bulkhead_step.enter]) code_simp
  have r3: "bulkhead_reachable ?C ?b3"
    by (rule bulkhead_reachable.step [OF r2 bulkhead_step.enter]) code_simp
  have "bulkhead_reachable ?C b" by (rule bulkhead_reachable.step [OF r3 bulkhead_step.grant [OF b(1)]])
  with bulkhead_caps_host [OF this, of "''a''"] b(2,3) show ?thesis by blast
qed

end
