(* ===== verification/Credential_Scope.thy ===== *)
theory Credential_Scope
  imports Broker_Errors "HOL-Library.List_Lexorder"
begin

text \<open>
  Which credential covers which API: \<open>shared/models/api_identity.py\<close>, and the reverse lookups
  of \<open>shared/access_guidance.py\<close> that a missing-credential directive uses. The registrable domain of
  a host (the public suffix list) is the parameter \<open>vendor_of\<close>.
\<close>

section \<open>Slugs\<close>

definition api_field_max_length :: nat where "api_field_max_length = 100"

definition slug_char :: "char \<Rightarrow> bool" where
  "slug_char c = (let n = char_code c in 97 \<le> n \<and> n \<le> 122 \<or> 48 \<le> n \<and> n \<le> 57 \<or> c = CHR ''-'')"

text \<open>\<open>_SLUG_RE.sub\<close>: each maximal run of other characters becomes one hyphen.\<close>

fun sub_runs :: "bool \<Rightarrow> string \<Rightarrow> string" where
  "sub_runs in_run [] = []"
| "sub_runs in_run (c # cs) =
     (if slug_char c then c # sub_runs False cs
      else if in_run then sub_runs True cs else CHR ''-'' # sub_runs True cs)"

definition strip_hyphens :: "string \<Rightarrow> string" where
  "strip_hyphens s = rstrip_char (CHR ''-'') (lstrip_char (CHR ''-'') s)"

definition slugify_api_field :: "string \<Rightarrow> string" where
  "slugify_api_field v = take api_field_max_length (strip_hyphens (sub_runs False (str_lower (str_strip v))))"

section \<open>Scopes\<close>

record credential_scope =
  cs_vendor :: string
  cs_name :: "string option"
  cs_version :: "string option"

definition non_empty :: "string \<Rightarrow> string option" where
  "non_empty s = (if s = [] then None else Some s)"

definition canonical_credential_scope :: "string \<Rightarrow> string option \<Rightarrow> string option \<Rightarrow> credential_scope" where
  "canonical_credential_scope vendor name version =
     \<lparr>cs_vendor = slugify_api_field vendor,
      cs_name = (case name of None \<Rightarrow> None | Some n \<Rightarrow> if n = [] then None else non_empty (slugify_api_field n)),
      cs_version = (case version of None \<Rightarrow> None | Some v \<Rightarrow> if v = [] then None else non_empty (str_strip v))\<rparr>"

record api_reference =
  api_vendor :: string
  api_name :: string
  api_version :: string

definition credential_covers :: "credential_scope \<Rightarrow> api_reference \<Rightarrow> bool" where
  "credential_covers scope api =
     (cs_vendor scope = slugify_api_field (api_vendor api) \<and>
      (case cs_name scope of None \<Rightarrow> True | Some n \<Rightarrow> n = slugify_api_field (api_name api)) \<and>
      (case cs_version scope of None \<Rightarrow> True | Some v \<Rightarrow> v = str_strip (api_version api)))"

definition credential_specificity :: "credential_scope \<Rightarrow> nat" where
  "credential_specificity scope =
     (if cs_name scope = None then 0 else 1) + (if cs_version scope = None then 0 else 1)"

text \<open>The SQL fragment on a row's three columns (\<open>NULL\<close> is \<open>None\<close>).\<close>

definition credential_coverage_where ::
  "bool \<Rightarrow> bool \<Rightarrow> string \<Rightarrow> string option \<Rightarrow> string option \<Rightarrow> api_reference \<Rightarrow> bool" where
  "credential_coverage_where name_scoped version_scoped row_vendor row_name row_version api =
     (row_vendor = api_vendor api \<and>
      (name_scoped \<longrightarrow> (case row_name of None \<Rightarrow> True | Some n \<Rightarrow> n = api_name api)) \<and>
      (version_scoped \<longrightarrow> (case row_version of None \<Rightarrow> True | Some v \<Rightarrow> v = api_version api)))"

section \<open>Vendors from hosts\<close>

text \<open>
  \<open>shared/vendor_domain.py\<close>; \<open>private_suffix\<close> is the public suffix list's lookup (nothing for
  a host that is itself a suffix).
\<close>

definition single_operator_suffixes :: "string list" where
  "single_operator_suffixes = [''googleapis.com'']"

definition normalise_host :: "string \<Rightarrow> string" where
  "normalise_host host =
     (let v = str_lower (str_strip host) in
      case v of
        CHR ''['' # r \<Rightarrow> takeWhile (\<lambda>c. c \<noteq> CHR '']'') r
      | _ \<Rightarrow>
          (let v = (if count_list v (CHR '':'') = 1 then
                      (let (name, _, port) = partition_at (CHR '':'') v in
                       if list_all (\<lambda>c. char_digit c \<noteq> None) port then name else v)
                    else v) in
           rstrip_char (CHR ''.'') v))"

definition registrable_domain :: "(string \<Rightarrow> string option) \<Rightarrow> string \<Rightarrow> string option" where
  "registrable_domain private_suffix host =
     (let v = normalise_host host in
      if v = [] then None
      else if parse_ip v \<noteq> None then Some v
      else
        (let labels = filter (\<lambda>l. l \<noteq> []) (split_on (CHR ''.'') v);
             normalised = join_with (CHR ''.'') labels in
         case labels of
           [] \<Rightarrow> None
         | [_] \<Rightarrow> Some normalised
         | _ \<Rightarrow>
             (case find (\<lambda>s. normalised = s \<or> suffix (CHR ''.'' # s) normalised) single_operator_suffixes of
                Some s \<Rightarrow> Some s
              | None \<Rightarrow>
                  (case private_suffix normalised of
                     None \<Rightarrow> Some normalised
                   | Some d \<Rightarrow> if d = [] then Some normalised else Some d))))"

definition vendor_from_api_id :: "(string \<Rightarrow> string option) \<Rightarrow> string \<Rightarrow> string option" where
  "vendor_from_api_id private_suffix api_id =
     (if api_id = [] then None else registrable_domain private_suffix (hd (split_on (CHR ''/'') api_id)))"

section \<open>Connect targets\<close>

definition catalog_import_name :: "string \<Rightarrow> string" where
  "catalog_import_name catalog_id =
     (let (_, sep, sub) = partition_at (CHR ''/'') catalog_id in if sep \<and> sub \<noteq> [] then sub else catalog_id)"

definition catalog_api_scopes :: "(string \<Rightarrow> string option) \<Rightarrow> string \<Rightarrow> credential_scope list" where
  "catalog_api_scopes vendor_of catalog_id =
     (let raw_vendor = (case vendor_of catalog_id of None \<Rightarrow> catalog_id | Some v \<Rightarrow> if v = [] then catalog_id else v) in
      map (\<lambda>n. canonical_credential_scope raw_vendor (Some n) None)
        (remdups [catalog_import_name catalog_id, catalog_id]))"

definition catalog_api_id_covers :: "(string \<Rightarrow> string option) \<Rightarrow> string \<Rightarrow> api_reference \<Rightarrow> bool" where
  "catalog_api_id_covers vendor_of catalog_id api =
     list_ex (\<lambda>scope. credential_covers scope api) (catalog_api_scopes vendor_of catalog_id)"

text \<open>The vendor registry: connect keys in configuration order, each with its catalog id.\<close>

definition connect_vendor_key :: "(string \<Rightarrow> string option) \<Rightarrow> (string, string) dict \<Rightarrow> api_reference \<Rightarrow> string option" where
  "connect_vendor_key vendor_of entries api =
     map_option fst (find (\<lambda>(key, catalog_id). catalog_api_id_covers vendor_of catalog_id api) entries)"

record registration =
  reg_id :: string
  reg_vendor :: string
  reg_catalog_id :: string

definition str_key :: "string \<Rightarrow> nat list" where "str_key s = map char_code s"

definition resolve_target ::
  "(string \<Rightarrow> string option) \<Rightarrow> (string, string) dict \<Rightarrow> registration list \<Rightarrow> api_reference \<Rightarrow> connect_target option" where
  "resolve_target vendor_of entries registrations api =
     (case connect_vendor_key vendor_of entries api of
        Some key \<Rightarrow> Some \<lparr>ct_vendor_key = key, ct_registration = None\<rparr>
      | None \<Rightarrow>
          (case sort_key (\<lambda>r. [str_key (reg_vendor r), str_key (reg_id r)])
                  (filter (\<lambda>r. catalog_api_id_covers vendor_of (reg_catalog_id r) api) registrations) of
             [] \<Rightarrow> None
           | [r] \<Rightarrow> Some \<lparr>ct_vendor_key = reg_vendor r, ct_registration = Some (reg_id r)\<rparr>
           | r # _ \<Rightarrow> Some \<lparr>ct_vendor_key = reg_vendor r, ct_registration = None\<rparr>))"

section \<open>Slugs are stable unless truncated\<close>

lemma sub_runs_chars: "list_all slug_char (sub_runs b s)"
  by (induction b s rule: sub_runs.induct) (auto simp: slug_char_def Let_def)

lemma sub_runs_fixed: "list_all slug_char s \<Longrightarrow> sub_runs b s = s"
  by (induction s arbitrary: b) auto

lemma slug_char_plain: "slug_char c \<Longrightarrow> lower_char c = c \<and> \<not> is_space c"
  by (auto simp: slug_char_def lower_char_def is_space_def Let_def char_code_def)

lemma slug_plain:
  assumes "list_all slug_char s" shows "sub_runs False (str_lower (str_strip s)) = s"
proof -
  have "str_strip s = s" using assms slug_char_plain by (intro str_strip_plain) (auto simp: list_all_iff)
  moreover have "str_lower s = s" using assms slug_char_plain by (auto simp: str_lower_def list_all_iff intro: map_idI)
  ultimately show ?thesis using assms by (simp add: sub_runs_fixed)
qed

lemma strip_hyphens_sub: "set (strip_hyphens s) \<subseteq> set s"
  by (auto simp: strip_hyphens_def rstrip_char_def lstrip_char_def dest!: set_dropWhileD)

lemma slugify_chars: "list_all slug_char (slugify_api_field v)"
  using sub_runs_chars [of False "str_lower (str_strip v)"] strip_hyphens_sub
  by (fastforce simp: slugify_api_field_def list_all_iff dest: in_set_takeD)

lemma strip_hyphens_idem: "strip_hyphens (strip_hyphens s) = strip_hyphens s"
proof -
  define t where "t = dropWhile (\<lambda>c. c = CHR ''-'') s"
  define r where "r = rev (dropWhile (\<lambda>c. c = CHR ''-'') (rev t))"
  have sr: "strip_hyphens s = r"
    by (simp add: strip_hyphens_def rstrip_char_def lstrip_char_def t_def r_def)
  have "r = [] \<or> hd r \<noteq> CHR ''-''"
  proof (cases "r = []")
    case False
    obtain q where "t = r @ q" unfolding r_def
      by (metis dropWhile_eq_drop append_take_drop_id rev_append rev_rev_ident takeWhile_dropWhile_id)
    with False have "hd r = hd t" "t \<noteq> []" by (auto simp: hd_append)
    with hd_dropWhile [of "\<lambda>c. c = CHR ''-''" s] show ?thesis by (simp add: t_def)
  qed simp
  then have l: "dropWhile (\<lambda>c. c = CHR ''-'') r = r" by (cases r) auto
  have "rev (dropWhile (\<lambda>c. c = CHR ''-'') (rev r)) = r"
    by (simp add: r_def dropWhile_idem)
  with l sr show ?thesis by (simp add: strip_hyphens_def rstrip_char_def lstrip_char_def)
qed

lemma slugify_idem:
  assumes "length (slugify_api_field v) < api_field_max_length"
  shows "slugify_api_field (slugify_api_field v) = slugify_api_field v"
proof -
  let ?s = "strip_hyphens (sub_runs False (str_lower (str_strip v)))"
  have "slugify_api_field v = ?s" using assms by (simp add: slugify_api_field_def)
  moreover have "sub_runs False (str_lower (str_strip (slugify_api_field v))) = slugify_api_field v"
    by (rule slug_plain [OF slugify_chars])
  ultimately show ?thesis using strip_hyphens_idem assms by (simp add: slugify_api_field_def)
qed

text \<open>A truncated slug may end in a hyphen, which slugging it again drops.\<close>

lemma slugify_truncation:
  "slugify_api_field (slugify_api_field (replicate 99 (CHR ''a'') @ '' bc'')) \<noteq>
   slugify_api_field (replicate 99 (CHR ''a'') @ '' bc'')"
  by code_simp

end
