(* ===== verification/Credential_Resolver.thy ===== *)
theory Credential_Resolver
  imports Complex_Main Credential_Scope Injection
begin

text \<open>
  Which credential a call is served with: the derivation of an agent's bindings
  (\<open>broker/repos/credential_binding_resolver.py\<close>), the selection of one credential among the
  bound ones (\<open>broker/services/credentials/resolver.py\<close>) and its errors as the broker's
  (\<open>broker/services/credentials/orchestrator.py\<close>). A database table is the list of its rows in
  primary-key order, an SQL query the filter it states. Audit and telemetry are left out.
\<close>

section \<open>Rows\<close>

datatype stored_type =
    ST_API_KEY | ST_BASIC_AUTH | ST_STATIC_BEARER_TOKEN | ST_SESSION_TOKEN | ST_OAUTH2_CLIENT_CREDENTIALS
  | ST_OAUTH2_AUTHORIZATION_CODE | ST_OAUTH2_DEVICE_CODE | ST_OAUTH2_IMPLICIT | ST_NO_AUTH | ST_AWS_SIGV4

fun to_wire :: "stored_type \<Rightarrow> wire_type" where
  "to_wire ST_STATIC_BEARER_TOKEN = BEARER_TOKEN"
| "to_wire ST_SESSION_TOKEN = BEARER_TOKEN"
| "to_wire ST_API_KEY = API_KEY"
| "to_wire ST_BASIC_AUTH = BASIC"
| "to_wire ST_NO_AUTH = NO_AUTH"
| "to_wire ST_AWS_SIGV4 = SIGV4"
| "to_wire ST_OAUTH2_CLIENT_CREDENTIALS = OAUTH2"
| "to_wire ST_OAUTH2_AUTHORIZATION_CODE = OAUTH2"
| "to_wire ST_OAUTH2_DEVICE_CODE = OAUTH2"
| "to_wire ST_OAUTH2_IMPLICIT = OAUTH2"

record api_key_child =
  ak_encrypted_key :: "string option"
  ak_location :: credential_location
  ak_field_name :: "string option"

record basic_child =
  ba_username :: "string option"
  ba_encrypted_password :: "string option"

record token_child =
  to_encrypted_access :: "string option"
  to_encrypted_refresh :: "string option"
  to_expires_at :: "real option"

record sigv4_child =
  si_access_key_id :: "string option"
  si_encrypted_secret :: "string option"
  si_encrypted_session_token :: "string option"
  si_region :: "string option"
  si_service :: "string option"

text \<open>The header columns of a credential and its secret-material children.\<close>

record credential_row =
  cr_id :: string
  cr_name :: string
  cr_created_by :: "string option"
  cr_created_at :: "real option"
  cr_api_vendor :: string
  cr_api_name :: "string option"
  cr_api_version :: "string option"
  cr_active :: bool
  cr_state :: string
  cr_type :: stored_type
  cr_provider :: string
  cr_account_ref :: "string option"
  cr_server_variables :: "(string, string) dict option"
  cr_token_value :: "string option option"
  cr_api_key :: "api_key_child option"
  cr_basic :: "basic_child option"
  cr_oauth_token :: "token_child option"
  cr_sigv4 :: "sigv4_child option"

record binding_row =
  ab_agent_id :: string
  ab_credential_id :: string
  ab_rule_set_id :: "string option"
  ab_suspended :: bool

section \<open>Deriving the bindings\<close>

record bound_credential =
  bc_credential_id :: string
  bc_rule_set_id :: "string option"

record credential_derivation =
  cd_credentials :: "bound_credential list"
  cd_agent_bound_any :: bool
  cd_api_served :: bool
  cd_identity_mismatch :: "identity_mismatch option"
  cd_binding_suspended :: bool

definition row_covers :: "credential_row \<Rightarrow> api_reference \<Rightarrow> bool" where
  "row_covers c api = credential_coverage_where True True (cr_api_vendor c) (cr_api_name c) (cr_api_version c) api"

definition covering_credentials :: "credential_row list \<Rightarrow> api_reference \<Rightarrow> string list" where
  "covering_credentials creds api =
     map cr_id (filter (\<lambda>c. row_covers c api \<and> cr_active c \<and> cr_state c = ''connected'') creds)"

definition axes_matched :: "credential_scope \<Rightarrow> api_reference \<Rightarrow> nat" where
  "axes_matched scope api =
     (if cs_vendor scope = slugify_api_field (api_vendor api) then 1 else 0) +
     (if cs_name scope \<noteq> None \<and> cs_name scope = Some (slugify_api_field (api_name api)) then 1 else 0) +
     (if cs_version scope \<noteq> None \<and> cs_version scope = Some (str_strip (api_version api)) then 1 else 0)"

text \<open>
  The nearest miss. \<open>ordered\<close> is the query's \<open>ORDER BY\<close> (which places \<open>NULL\<close>s as the database
  does). The running best starts below every rank.
\<close>

type_synonym identity_columns = "string \<times> string option \<times> string option"

definition better_miss ::
  "api_reference \<Rightarrow> identity_columns \<Rightarrow> (nat \<times> nat \<times> identity_mismatch) option \<Rightarrow> (nat \<times> nat \<times> identity_mismatch) option" where
  "better_miss api row best =
     (let (vendor, name, version) = row;
          scope = canonical_credential_scope vendor name version;
          would_match = credential_covers scope api in
      if cs_vendor scope \<noteq> slugify_api_field (api_vendor api) \<and> \<not> would_match then best
      else
        (let r1 = (if would_match then 1 else 0); r2 = axes_matched scope api;
             found = (r1, r2, \<lparr>expected_vendor = api_vendor api, expected_name = api_name api,
                expected_version = api_version api, found_vendor = vendor, found_name = name,
                found_version = version, would_match_if_normalized = would_match\<rparr>) in
         case best of
           None \<Rightarrow> Some found
         | Some (b1, b2, _) \<Rightarrow> if b1 < r1 \<or> b1 = r1 \<and> b2 < r2 then Some found else best))"

definition nearest_miss ::
  "(identity_columns list \<Rightarrow> identity_columns list) \<Rightarrow> credential_row list \<Rightarrow> string list \<Rightarrow> api_reference
     \<Rightarrow> identity_mismatch option" where
  "nearest_miss ordered creds bound_ids api =
     map_option (snd \<circ> snd) (fold (better_miss api)
       (ordered (remdups (map (\<lambda>c. (cr_api_vendor c, cr_api_name c, cr_api_version c))
          (filter (\<lambda>c. cr_id c \<in> set bound_ids \<and> cr_active c) creds)))) None)"

definition suspended_covers :: "credential_row list \<Rightarrow> string list \<Rightarrow> api_reference \<Rightarrow> bool" where
  "suspended_covers creds suspended_ids api =
     list_ex (\<lambda>c. cr_id c \<in> set suspended_ids \<and> row_covers c api) creds"

definition derive_credentials ::
  "(identity_columns list \<Rightarrow> identity_columns list) \<Rightarrow> binding_row list \<Rightarrow> credential_row list \<Rightarrow> string
     \<Rightarrow> api_reference \<Rightarrow> credential_derivation" where
  "derive_credentials ordered bindings creds agent_id api =
     (let rows = filter (\<lambda>b. ab_agent_id b = agent_id) bindings;
          rule_sets = dict_update_all [] (map (\<lambda>b. (ab_credential_id b, ab_rule_set_id b))
            (filter (\<lambda>b. \<not> ab_suspended b) rows));
          suspended_ids = map ab_credential_id (filter ab_suspended rows);
          covering_ids = covering_credentials creds api;
          candidates = map (\<lambda>(cid, rs). \<lparr>bc_credential_id = cid, bc_rule_set_id = rs\<rparr>)
            (sort_key (str_key \<circ> fst) (filter (\<lambda>(cid, _). cid \<in> set covering_ids) rule_sets)) in
      \<lparr>cd_credentials = candidates,
       cd_agent_bound_any = (rule_sets \<noteq> []),
       cd_api_served = (covering_ids \<noteq> []),
       cd_identity_mismatch =
         (if candidates = [] \<and> rule_sets \<noteq> [] \<and> covering_ids = []
          then nearest_miss ordered creds (map fst rule_sets) api else None),
       cd_binding_suspended =
         (candidates = [] \<and> suspended_ids \<noteq> [] \<and> suspended_covers creds suspended_ids api)\<rparr>)"

section \<open>Selecting a credential\<close>

record credential_candidate =
  ca_id :: string
  ca_name :: string
  ca_last4 :: string
  ca_created_at :: "real option"

definition to_candidate :: "credential_row \<Rightarrow> credential_candidate" where
  "to_candidate c = \<lparr>ca_id = cr_id c, ca_name = cr_name c, ca_last4 = rev (take 4 (rev (cr_id c))),
     ca_created_at = cr_created_at c\<rparr>"

datatype resolution_error =
    Not_Provisioned api_reference
  | Ambiguous_Credential api_reference nat "credential_candidate list"
  | Name_Not_Found api_reference string "credential_candidate list"
  | Id_Not_Found api_reference string "credential_candidate list"

text \<open>The rest of \<open>ResolvedCredential\<close>, over what \<open>inject_auth\<close> reads of it.\<close>

record resolved = resolved_credential +
  rs_name :: string
  rs_created_by :: "string option"
  rs_stored_type :: stored_type
  rs_provider :: string
  rs_server_variables :: "(string, string) dict option"
  rs_encrypted_access_token :: "string option"
  rs_encrypted_refresh_token :: "string option"
  rs_token_expires_at :: "real option"
  rs_account_ref :: "string option"

definition list_by_vendor :: "credential_row list \<Rightarrow> string \<Rightarrow> credential_row list" where
  "list_by_vendor creds vendor =
     filter (\<lambda>c. cr_api_vendor c = vendor \<or> cr_api_vendor c = slugify_api_field vendor) creds"

definition bare_resolved :: "credential_row \<Rightarrow> resolved" where
  "bare_resolved c =
     \<lparr>rc_credential_id = cr_id c, rc_wire_type = to_wire (cr_type c), rc_encrypted_secret = None,
      rc_location = None, rc_field_name = None, rc_username = None, rc_encrypted_password = None,
      rc_encrypted_secret_access_key = None, rc_aws_region = None, rc_aws_service = None,
      rc_encrypted_session_token = None, rc_access_key_id = None,
      rs_name = cr_name c, rs_created_by = cr_created_by c, rs_stored_type = cr_type c,
      rs_provider = cr_provider c, rs_server_variables = cr_server_variables c,
      rs_encrypted_access_token = None, rs_encrypted_refresh_token = None, rs_token_expires_at = None,
      rs_account_ref = None\<rparr>"

definition build_resolved :: "credential_row \<Rightarrow> (resolution_error, resolved) result" where
  "build_resolved c =
     (let r = bare_resolved c in
      case to_wire (cr_type c) of
        BEARER_TOKEN \<Rightarrow> Inr (r\<lparr>rc_encrypted_secret := Option.bind (cr_token_value c) (\<lambda>v. v)\<rparr>)
      | API_KEY \<Rightarrow>
          Inr (case cr_api_key c of
            None \<Rightarrow> r\<lparr>rc_location := Some LOC_HEADER, rc_field_name := Some ''Authorization''\<rparr>
          | Some k \<Rightarrow> r\<lparr>rc_encrypted_secret := ak_encrypted_key k, rc_location := Some (ak_location k),
                       rc_field_name := ak_field_name k\<rparr>)
      | BASIC \<Rightarrow>
          Inr (case cr_basic c of
            None \<Rightarrow> r
          | Some b \<Rightarrow> r\<lparr>rc_username := ba_username b, rc_encrypted_password := ba_encrypted_password b\<rparr>)
      | OAUTH2 \<Rightarrow>
          Inr (case cr_oauth_token c of
            None \<Rightarrow> r\<lparr>rs_account_ref := cr_account_ref c\<rparr>
          | Some t \<Rightarrow> r\<lparr>rs_encrypted_access_token := to_encrypted_access t,
                       rs_encrypted_refresh_token := to_encrypted_refresh t,
                       rs_token_expires_at := to_expires_at t, rs_account_ref := cr_account_ref c\<rparr>)
      | NO_AUTH \<Rightarrow> Inr r
      | SIGV4 \<Rightarrow>
          Inr (case cr_sigv4 c of
            None \<Rightarrow> r
          | Some s \<Rightarrow> r\<lparr>rc_access_key_id := si_access_key_id s, rc_encrypted_secret_access_key := si_encrypted_secret s,
                       rc_encrypted_session_token := si_encrypted_session_token s,
                       rc_aws_region := si_region s, rc_aws_service := si_service s\<rparr>)
      | OTHER_WIRE _ \<Rightarrow>
          Inl (Not_Provisioned \<lparr>api_vendor = cr_api_vendor c,
            api_name = (case cr_api_name c of None \<Rightarrow> [] | Some n \<Rightarrow> n),
            api_version = (case cr_api_version c of None \<Rightarrow> [] | Some v \<Rightarrow> v)\<rparr>))"

text \<open>What the caller pins: the allowed ids, an id, a name, the request's server variables.\<close>

record resolve_request =
  rq_allowed_ids :: "string list option"
  rq_credential_id :: "string option"
  rq_credential_name :: "string option"
  rq_server_variables :: "(string, string) dict option"
  rq_variables_unresolved :: bool

definition row_scope :: "credential_row \<Rightarrow> credential_scope" where
  "row_scope c = canonical_credential_scope (cr_api_vendor c) (cr_api_name c) (cr_api_version c)"

definition covering_rows :: "credential_row list \<Rightarrow> api_reference \<Rightarrow> resolve_request \<Rightarrow> credential_row list" where
  "covering_rows creds api q =
     (let candidates = list_by_vendor creds (api_vendor api);
          candidates = (case rq_allowed_ids q of
             None \<Rightarrow> candidates | Some allowed \<Rightarrow> filter (\<lambda>c. cr_id c \<in> set allowed) candidates) in
      filter (\<lambda>c. cr_active c \<and> credential_covers (row_scope c) api \<and>
        server_variables_compatible (cr_server_variables c) (rq_server_variables q) (rq_variables_unresolved q))
        candidates)"

definition narrow_by_id ::
  "api_reference \<Rightarrow> string option \<Rightarrow> credential_row list \<Rightarrow> (resolution_error, credential_row list) result" where
  "narrow_by_id api wanted covering =
     (case wanted of
        None \<Rightarrow> Inr covering
      | Some i \<Rightarrow>
          (case filter (\<lambda>c. cr_id c = i) covering of
             [] \<Rightarrow> Inl (Id_Not_Found api i (map to_candidate covering))
           | by_id \<Rightarrow> Inr by_id))"

definition narrow_by_name ::
  "api_reference \<Rightarrow> string option \<Rightarrow> credential_row list \<Rightarrow> (resolution_error, credential_row list) result" where
  "narrow_by_name api wanted covering =
     (case wanted of
        None \<Rightarrow> Inr covering
      | Some n \<Rightarrow>
          (case filter (\<lambda>c. cr_name c = n) covering of
             [] \<Rightarrow> Inl (Name_Not_Found api n (map to_candidate covering))
           | named \<Rightarrow> Inr named))"

definition most_specific :: "credential_row list \<Rightarrow> credential_row list" where
  "most_specific covering =
     (let best = Max (set (map (\<lambda>c. credential_specificity (row_scope c)) covering)) in
      filter (\<lambda>c. credential_specificity (row_scope c) = best) covering)"

definition resolve_credential ::
  "credential_row list \<Rightarrow> api_reference \<Rightarrow> resolve_request \<Rightarrow> (resolution_error, resolved) result" where
  "resolve_credential creds api q =
     (let covering = covering_rows creds api q in
      if covering = [] then Inl (Not_Provisioned api)
      else rbind (narrow_by_id api (rq_credential_id q) covering) (\<lambda>covering.
           rbind (narrow_by_name api (rq_credential_name q) covering) (\<lambda>covering.
           (case most_specific covering of
              [c] \<Rightarrow> build_resolved c
            | matches \<Rightarrow> Inl (Ambiguous_Credential api (length matches) (map to_candidate matches))))))"

section \<open>What selection promises\<close>

text \<open>A row the caller may be served with: all of the conditions at once, in no order.\<close>

definition selectable :: "api_reference \<Rightarrow> resolve_request \<Rightarrow> credential_row \<Rightarrow> bool" where
  "selectable api q c =
     (cr_active c \<and> cr_api_vendor c \<in> {api_vendor api, slugify_api_field (api_vendor api)} \<and>
      credential_covers (row_scope c) api \<and>
      server_variables_compatible (cr_server_variables c) (rq_server_variables q) (rq_variables_unresolved q) \<and>
      (case rq_allowed_ids q of None \<Rightarrow> True | Some allowed \<Rightarrow> cr_id c \<in> set allowed) \<and>
      (case rq_credential_id q of None \<Rightarrow> True | Some i \<Rightarrow> cr_id c = i) \<and>
      (case rq_credential_name q of None \<Rightarrow> True | Some n \<Rightarrow> cr_name c = n))"

definition specificity :: "credential_row \<Rightarrow> nat" where
  "specificity c = credential_specificity (row_scope c)"

lemma narrow_by_id_Inr:
  "narrow_by_id api wanted xs = Inr ys \<longleftrightarrow>
     (ys = filter (\<lambda>c. case wanted of None \<Rightarrow> True | Some i \<Rightarrow> cr_id c = i) xs \<and> (wanted = None \<or> ys \<noteq> []))"
  by (cases wanted) (auto simp: narrow_by_id_def split: list.splits)

lemma narrow_by_name_Inr:
  "narrow_by_name api wanted xs = Inr ys \<longleftrightarrow>
     (ys = filter (\<lambda>c. case wanted of None \<Rightarrow> True | Some n \<Rightarrow> cr_name c = n) xs \<and> (wanted = None \<or> ys \<noteq> []))"
  by (cases wanted) (auto simp: narrow_by_name_def split: list.splits)

text \<open>The filters of the code, applied one after the other, are the one filter of the contract.\<close>

lemma narrowed_rows:
  "filter (\<lambda>c. case rq_credential_name q of None \<Rightarrow> True | Some n \<Rightarrow> cr_name c = n)
     (filter (\<lambda>c. case rq_credential_id q of None \<Rightarrow> True | Some i \<Rightarrow> cr_id c = i) (covering_rows creds api q)) =
   filter (selectable api q) creds"
  by (cases "rq_allowed_ids q")
    (auto simp: covering_rows_def list_by_vendor_def selectable_def Let_def intro!: filter_cong)

lemma resolve_credential_cases:
  "resolve_credential creds api q = Inr r \<longleftrightarrow>
     filter (selectable api q) creds \<noteq> [] \<and>
     (\<exists>c. most_specific (filter (selectable api q) creds) = [c] \<and> build_resolved c = Inr r)"
proof -
  let ?S = "filter (selectable api q) creds"
  let ?byid = "filter (\<lambda>c. case rq_credential_id q of None \<Rightarrow> True | Some i \<Rightarrow> cr_id c = i) (covering_rows creds api q)"
  have ne: "?S \<noteq> [] \<Longrightarrow> covering_rows creds api q \<noteq> [] \<and> ?byid \<noteq> []"
    unfolding narrowed_rows [symmetric] by (auto simp: filter_empty_conv simp del: filter_filter)
  have "resolve_credential creds api q = Inr r \<longleftrightarrow>
      ?S \<noteq> [] \<and> (case most_specific ?S of [c] \<Rightarrow> build_resolved c
        | ms \<Rightarrow> Inl (Ambiguous_Credential api (length ms) (map to_candidate ms))) = Inr r"
    using ne narrowed_rows [of q creds api]
    by (auto simp: resolve_credential_def rbind_Inr_iff narrow_by_id_Inr narrow_by_name_Inr Let_def)
  then show ?thesis by (auto split: list.splits)
qed

lemma filter_single_iff:
  "distinct xs \<Longrightarrow> filter P xs = [c] \<longleftrightarrow> c \<in> set xs \<and> P c \<and> (\<forall>y \<in> set xs. P y \<longrightarrow> y = c)"
proof (induction xs)
  case (Cons x xs)
  then show ?case by (auto simp: filter_empty_conv)
qed simp

lemma most_specific_iff:
  assumes "distinct xs"
  shows "most_specific xs = [c] \<longleftrightarrow> c \<in> set xs \<and> (\<forall>y \<in> set xs. y \<noteq> c \<longrightarrow> specificity y < specificity c)"
proof (cases "xs = []")
  case False
  let ?best = "Max (specificity ` set xs)"
  have m: "most_specific xs = filter (\<lambda>c. specificity c = ?best) xs"
    by (simp add: most_specific_def specificity_def image_def)
  have up: "y \<in> set xs \<Longrightarrow> specificity y \<le> ?best" for y by simp
  have "?best \<in> specificity ` set xs" using False by (intro Max_in) auto
  then obtain b where b: "b \<in> set xs" "specificity b = ?best" by auto
  show ?thesis unfolding m filter_single_iff [OF assms]
    using up b by (metis le_neq_implies_less less_le_not_le)
qed (simp add: most_specific_def)

lemma build_resolved_facts:
  "\<exists>r. build_resolved c = Inr r \<and> rc_credential_id r = cr_id c \<and> rc_wire_type r = to_wire (cr_type c) \<and>
     rs_server_variables r = cr_server_variables c"
  by (cases "cr_type c")
    (auto simp: build_resolved_def bare_resolved_def Let_def split: option.split)

text \<open>
  C17: selection refines its contract. A call is served with a credential exactly when, among the
  rows that are active, belong to the API's vendor, cover the API, fit the request's server
  variables, lie within the caller's bound ids and match the id and name the caller gave, there
  is one that is strictly more specific than all the others; and then it is that one. The order
  of the code's filters, and of the rows, does not matter.
\<close>

theorem resolution_is_unique_best:
  assumes "distinct (map cr_id creds)"
  shows "resolve_credential creds api q = Inr r \<longleftrightarrow>
    (\<exists>c. c \<in> set creds \<and> selectable api q c \<and> build_resolved c = Inr r \<and>
       list_all (\<lambda>c'. selectable api q c' \<longrightarrow> c' = c \<or> specificity c' < specificity c) creds)"
proof -
  have "distinct (filter (selectable api q) creds)" using assms by (simp add: distinct_map)
  from most_specific_iff [OF this] show ?thesis
    unfolding resolve_credential_cases
    by (auto simp: list_all_iff filter_empty_conv)
qed

definition demo_row :: "string \<Rightarrow> string option \<Rightarrow> credential_row" where
  "demo_row i name =
     \<lparr>cr_id = i, cr_name = ''main'', cr_created_by = None, cr_created_at = None, cr_api_vendor = ''acme-com'',
      cr_api_name = name, cr_api_version = None, cr_active = True, cr_state = ''connected'',
      cr_type = ST_STATIC_BEARER_TOKEN, cr_provider = ''static'', cr_account_ref = None,
      cr_server_variables = None, cr_token_value = Some (Some ''enc''), cr_api_key = None, cr_basic = None,
      cr_oauth_token = None, cr_sigv4 = None\<rparr>"

definition demo_api :: api_reference where
  "demo_api = \<lparr>api_vendor = ''acme.com'', api_name = ''pay'', api_version = ''1''\<rparr>"

definition demo_resolve :: resolve_request where
  "demo_resolve = \<lparr>rq_allowed_ids = Some [''c1'', ''c2''], rq_credential_id = None, rq_credential_name = None,
     rq_server_variables = None, rq_variables_unresolved = False\<rparr>"

lemma resolution_is_unique_best_witness:
  "\<exists>r. resolve_credential [demo_row ''c1'' None, demo_row ''c2'' (Some ''pay''), demo_row ''c3'' (Some ''pay'')]
     demo_api demo_resolve = Inr r \<and> rc_credential_id r = ''c2''"
proof -
  let ?creds = "[demo_row ''c1'' None, demo_row ''c2'' (Some ''pay''), demo_row ''c3'' (Some ''pay'')]"
  have d: "distinct (map cr_id ?creds)" by (simp add: demo_row_def)
  obtain r where r: "build_resolved (demo_row ''c2'' (Some ''pay'')) = Inr r" "rc_credential_id r = ''c2''"
    using build_resolved_facts [of "demo_row ''c2'' (Some ''pay'')"] by (auto simp: demo_row_def)
  have "list_all (\<lambda>c'. selectable demo_api demo_resolve c' \<longrightarrow> c' = demo_row ''c2'' (Some ''pay'') \<or>
      specificity c' < specificity (demo_row ''c2'' (Some ''pay''))) ?creds"
    "selectable demo_api demo_resolve (demo_row ''c2'' (Some ''pay''))" by code_simp+
  with r show ?thesis unfolding resolution_is_unique_best [OF d] by auto
qed

end
