(* ===== verification/Agent_Rules.thy ===== *)
theory Agent_Rules
  imports Complex_Main Rule_Evaluation Py_Json
begin

text \<open>
  \<open>AgentRuleEvaluator\<close> (\<open>broker/repos/agent_rule_evaluator.py\<close>): the rules of a binding or of its
  rule set, read from the control database, kept in a TTL-LRU cache whose misses are coalesced by
  \<open>SingleFlight\<close> (\<open>broker/core/singleflight.py\<close>), and evaluated. The database is a function of
  time; loads run concurrently, so they are steps of their own: begin, read, finish or fail.
\<close>

section \<open>Stored rules\<close>

text \<open>
  A JSON column as the driver gives it: \<open>NULL\<close>, text (SQLite) or a decoded value.
  \<open>py_str\<close> is \<open>str(item)\<close> for the scalars a rule list holds; an item that is itself a list or an
  object is shown as its JSON text.
\<close>

datatype json_column = Col_Null | Col_Text string | Col_Value json

definition py_str :: "json \<Rightarrow> string" where
  "py_str v =
     (case v of
        JStr s \<Rightarrow> s
      | JNull \<Rightarrow> ''None''
      | JBool b \<Rightarrow> (if b then ''True'' else ''False'')
      | _ \<Rightarrow> json_dumps v)"

definition json_strings :: "json \<Rightarrow> string list option" where
  "json_strings v = (case v of JList vs \<Rightarrow> Some (map py_str vs) | _ \<Rightarrow> None)"

definition coerce_json_list :: "json_column \<Rightarrow> string list option" where
  "coerce_json_list col =
     (case col of
        Col_Null \<Rightarrow> None
      | Col_Text s \<Rightarrow> Option.bind (json_loads s) json_strings
      | Col_Value v \<Rightarrow> json_strings v)"

record rule_row =
  row_id :: "string option"
  row_effect :: string
  row_methods :: json_column
  row_path :: "string option"
  row_operations :: json_column
  row_match_mode :: "string option"

text \<open>The two tables in \<open>sequence\<close> order, each row under the columns its query selects it by.\<close>

record rule_tables =
  binding_rules :: "((string \<times> string) \<times> rule_row) list"
  rule_set_rules :: "(string \<times> rule_row) list"

text \<open>Where a call's rules come from: the attached set, else the binding itself.\<close>

record rule_source =
  src_agent :: string
  src_credential :: string
  src_rule_set :: "string option"

definition to_rule :: "regex_engine \<Rightarrow> rule_row \<Rightarrow> permission_rule" where
  "to_rule E row =
     \<lparr>rule_effect = row_effect row,
      rule_methods = normalize_methods (coerce_json_list (row_methods row)),
      rule_path = compile_matcher E (row_path row)
        (case row_match_mode row of None \<Rightarrow> ''regex'' | Some m \<Rightarrow> if m = [] then ''regex'' else m),
      rule_operations = coerce_json_list (row_operations row),
      rule_id = row_id row\<rparr>"

definition fetch_rules :: "regex_engine \<Rightarrow> rule_tables \<Rightarrow> rule_source \<Rightarrow> permission_rule list" where
  "fetch_rules E db src =
     map (to_rule E)
       (case src_rule_set src of
          Some rs \<Rightarrow> map snd (filter (\<lambda>(k, _). k = rs) (rule_set_rules db))
        | None \<Rightarrow> map snd (filter (\<lambda>(k, _). k = (src_agent src, src_credential src)) (binding_rules db)))"

abbreviation nul :: char where "nul \<equiv> CHR 0x00"

definition rule_cache_key :: "rule_source \<Rightarrow> string" where
  "rule_cache_key src =
     (case src_rule_set src of
        Some rs \<Rightarrow> ''set'' @ nul # rs
      | None \<Rightarrow> ''binding'' @ nul # src_agent src @ nul # src_credential src)"

section \<open>Evaluating them\<close>

record rule_evaluation =
  re_verdict :: string
  re_rules_loaded :: nat
  re_matched_rule_id :: "string option"
  re_divergence :: "path_divergence option"

definition evaluate_loaded ::
  "regex_engine \<Rightarrow> permission_rule list \<Rightarrow> string \<Rightarrow> string \<Rightarrow> string option \<Rightarrow> string option \<Rightarrow> rule_evaluation" where
  "evaluate_loaded E rules method path operation_id upstream_path =
     (if rules = [] then
        \<lparr>re_verdict = ''deny'', re_rules_loaded = 0, re_matched_rule_id = None, re_divergence = None\<rparr>
      else
        (let idx = first_matching_rule E rules \<lparr>req_method = method, req_path = path, req_operation = operation_id\<rparr> in
         \<lparr>re_verdict = rule_verdict rules idx, re_rules_loaded = length rules,
          re_matched_rule_id = (case idx of None \<Rightarrow> None | Some i \<Rightarrow> rule_id (rules ! i)),
          re_divergence = (case upstream_path of
             None \<Rightarrow> None | Some u \<Rightarrow> base_path_divergence E rules method path u operation_id)\<rparr>))"

section \<open>The cache and its loads\<close>

record cache_config =
  cache_ttl :: real
  cache_max :: nat
  max_in_flight :: nat

text \<open>A load: its source and, once the query has run, the rules and the time they were read.\<close>

record rule_load =
  ld_source :: rule_source
  ld_rules :: "(permission_rule list \<times> real) option"

record rule_cache =
  rule_entries :: "(string, permission_rule list \<times> real) dict"
  in_flight_loads :: "(string, nat) dict"
  running_loads :: "(nat, rule_load) dict"

definition empty_rule_cache :: rule_cache where
  "empty_rule_cache = \<lparr>rule_entries = [], in_flight_loads = [], running_loads = []\<rparr>"

definition move_to_end :: "'k \<Rightarrow> 'v \<Rightarrow> ('k, 'v) dict \<Rightarrow> ('k, 'v) dict" where
  "move_to_end k v d = dict_del k d @ [(k, v)]"

text \<open>A hit answers at once; otherwise the caller loads, or waits for the load in flight.\<close>

definition cache_lookup :: "cache_config \<Rightarrow> rule_source \<Rightarrow> real \<Rightarrow> rule_cache \<Rightarrow> permission_rule list option \<times> rule_cache" where
  "cache_lookup C src now s =
     (case dict_get (rule_entries s) (rule_cache_key src) of
        Some (rules, cached_at) \<Rightarrow>
          if now - cached_at < cache_ttl C
          then (Some rules, s\<lparr>rule_entries := move_to_end (rule_cache_key src) (rules, cached_at) (rule_entries s)\<rparr>)
          else (None, s)
      | None \<Rightarrow> (None, s))"

definition begin_load :: "cache_config \<Rightarrow> nat \<Rightarrow> rule_source \<Rightarrow> rule_cache \<Rightarrow> rule_cache" where
  "begin_load C l src s =
     (let s = s\<lparr>running_loads := dict_set l \<lparr>ld_source = src, ld_rules = None\<rparr> (running_loads s)\<rparr> in
      if max_in_flight C \<le> length (in_flight_loads s) then s
      else s\<lparr>in_flight_loads := dict_set (rule_cache_key src) l (in_flight_loads s)\<rparr>)"

definition read_load :: "regex_engine \<Rightarrow> rule_tables \<Rightarrow> nat \<Rightarrow> real \<Rightarrow> rule_cache \<Rightarrow> rule_cache" where
  "read_load E db l now s =
     (case dict_get (running_loads s) l of
        None \<Rightarrow> s
      | Some ld \<Rightarrow> s\<lparr>running_loads := dict_set l (ld\<lparr>ld_rules := Some (fetch_rules E db (ld_source ld), now)\<rparr>) (running_loads s)\<rparr>)"

text \<open>The leader removes only its own entry of the in-flight map.\<close>

definition end_load :: "nat \<Rightarrow> rule_load \<Rightarrow> rule_cache \<Rightarrow> rule_cache" where
  "end_load l ld s =
     s\<lparr>running_loads := dict_del l (running_loads s),
       in_flight_loads := (if dict_get (in_flight_loads s) (rule_cache_key (ld_source ld)) = Some l
                           then dict_del (rule_cache_key (ld_source ld)) (in_flight_loads s)
                           else in_flight_loads s)\<rparr>"

definition store_rules :: "cache_config \<Rightarrow> string \<Rightarrow> permission_rule list \<times> real \<Rightarrow> rule_cache \<Rightarrow> rule_cache" where
  "store_rules C key entry s =
     (let es = move_to_end key entry (rule_entries s) in
      s\<lparr>rule_entries := drop (length es - cache_max C) es\<rparr>)"

definition finish_load :: "cache_config \<Rightarrow> nat \<Rightarrow> real \<Rightarrow> rule_cache \<Rightarrow> rule_cache" where
  "finish_load C l now s =
     (case dict_get (running_loads s) l of
        None \<Rightarrow> s
      | Some ld \<Rightarrow>
          (case ld_rules ld of
             None \<Rightarrow> s
           | Some (rules, _) \<Rightarrow> end_load l ld (store_rules C (rule_cache_key (ld_source ld)) (rules, now) s)))"

definition fail_load :: "nat \<Rightarrow> rule_cache \<Rightarrow> rule_cache" where
  "fail_load l s = (case dict_get (running_loads s) l of None \<Rightarrow> s | Some ld \<Rightarrow> end_load l ld s)"

section \<open>Invalidation\<close>

definition drop_keys :: "(string \<Rightarrow> bool) \<Rightarrow> rule_cache \<Rightarrow> rule_cache" where
  "drop_keys P s = s\<lparr>rule_entries := filter (\<lambda>(k, _). \<not> P k) (rule_entries s)\<rparr>"

definition invalidate_binding :: "string \<Rightarrow> string \<Rightarrow> rule_cache \<Rightarrow> rule_cache" where
  "invalidate_binding agent cred = drop_keys (\<lambda>k. k = ''binding'' @ nul # agent @ nul # cred)"

definition invalidate_agent :: "string \<Rightarrow> rule_cache \<Rightarrow> rule_cache" where
  "invalidate_agent agent = drop_keys (\<lambda>k. prefix (''binding'' @ nul # agent @ [nul]) k)"

definition invalidate_credential :: "string \<Rightarrow> rule_cache \<Rightarrow> rule_cache" where
  "invalidate_credential cred = drop_keys (\<lambda>k. prefix (''binding'' @ [nul]) k \<and> suffix (nul # cred) k)"

definition invalidate_rule_set :: "string \<Rightarrow> rule_cache \<Rightarrow> rule_cache" where
  "invalidate_rule_set rs = drop_keys (\<lambda>k. k = ''set'' @ nul # rs)"

definition clear_rules :: "rule_cache \<Rightarrow> rule_cache" where
  "clear_rules s = s\<lparr>rule_entries := []\<rparr>"

section \<open>Interleavings\<close>

text \<open>
  The cache under concurrent calls, writers and invalidations. \<open>hist\<close> is the content of the
  database over time; \<open>D\<close> bounds how long after its query returned a load may still store.
\<close>

definition source_ok :: "rule_source \<Rightarrow> bool" where
  "source_ok src = (nul \<notin> set (src_agent src))"

inductive rule_step ::
  "regex_engine \<Rightarrow> cache_config \<Rightarrow> real \<Rightarrow> (real \<Rightarrow> rule_tables) \<Rightarrow> real \<times> rule_cache \<Rightarrow> real \<times> rule_cache \<Rightarrow> bool"
  for E C D hist where
  pass: "t \<le> t' \<Longrightarrow> rule_step E C D hist (t, s) (t', s)"
| look: "rule_step E C D hist (t, s) (t, snd (cache_lookup C src t s))"
| load: "source_ok src \<Longrightarrow> dict_get (in_flight_loads s) (rule_cache_key src) = None \<Longrightarrow>
    dict_get (running_loads s) l = None \<Longrightarrow> rule_step E C D hist (t, s) (t, begin_load C l src s)"
| read: "rule_step E C D hist (t, s) (t, read_load E (hist t) l t s)"
| finish: "dict_get (running_loads s) l = Some ld \<Longrightarrow> ld_rules ld = Some (rules, r) \<Longrightarrow> t \<le> r + D \<Longrightarrow>
    rule_step E C D hist (t, s) (t, finish_load C l t s)"
| fail: "rule_step E C D hist (t, s) (t, fail_load l s)"
| invalidate: "rule_step E C D hist (t, s) (t, drop_keys P s)"

inductive rule_reachable ::
  "regex_engine \<Rightarrow> cache_config \<Rightarrow> real \<Rightarrow> (real \<Rightarrow> rule_tables) \<Rightarrow> real \<Rightarrow> rule_cache \<Rightarrow> bool"
  for E C D hist where
  init: "rule_reachable E C D hist t empty_rule_cache"
| step: "rule_reachable E C D hist t s \<Longrightarrow> rule_step E C D hist (t, s) (t', s') \<Longrightarrow> rule_reachable E C D hist t' s'"

definition entry_fresh ::
  "regex_engine \<Rightarrow> real \<Rightarrow> (real \<Rightarrow> rule_tables) \<Rightarrow> real \<Rightarrow> string \<times> permission_rule list \<times> real \<Rightarrow> bool" where
  "entry_fresh E D hist t e =
     (case e of (key, rules, c) \<Rightarrow>
        \<exists>src r. source_ok src \<and> key = rule_cache_key src \<and> rules = fetch_rules E (hist r) src \<and>
          c - D \<le> r \<and> r \<le> c \<and> c \<le> t)"

definition load_fresh ::
  "regex_engine \<Rightarrow> (real \<Rightarrow> rule_tables) \<Rightarrow> real \<Rightarrow> nat \<times> rule_load \<Rightarrow> bool" where
  "load_fresh E hist t p =
     (case p of (l, ld) \<Rightarrow>
        source_ok (ld_source ld) \<and>
        (case ld_rules ld of None \<Rightarrow> True | Some (rules, r) \<Rightarrow> rules = fetch_rules E (hist r) (ld_source ld) \<and> r \<le> t))"

definition rule_cache_inv ::
  "regex_engine \<Rightarrow> cache_config \<Rightarrow> real \<Rightarrow> (real \<Rightarrow> rule_tables) \<Rightarrow> real \<Rightarrow> rule_cache \<Rightarrow> bool" where
  "rule_cache_inv E C D hist t s =
     ((\<forall>e \<in> set (rule_entries s). entry_fresh E D hist t e) \<and> length (rule_entries s) \<le> cache_max C \<and>
      (\<forall>p \<in> set (running_loads s). load_fresh E hist t p))"

lemma split_at_first:
  "xs @ c # ys = xs' @ c # ys' \<Longrightarrow> c \<notin> set xs \<Longrightarrow> c \<notin> set xs' \<Longrightarrow> xs = xs' \<and> ys = ys'"
proof (induction xs arbitrary: xs')
  case Nil
  then show ?case by (cases xs') auto
next
  case (Cons x xs)
  then show ?case by (cases xs') auto
qed

lemma rule_key_source:
  assumes "rule_cache_key src = rule_cache_key src'" "source_ok src" "source_ok src'"
  shows "fetch_rules E db src = fetch_rules E db src'"
proof (cases "src_rule_set src"; cases "src_rule_set src'")
  assume "src_rule_set src = None" "src_rule_set src' = None"
  then have "src_agent src @ nul # src_credential src = src_agent src' @ nul # src_credential src'"
    using assms(1) by (simp add: rule_cache_key_def)
  then have "src_agent src = src_agent src' \<and> src_credential src = src_credential src'"
    using assms(2,3) by (intro split_at_first) (simp_all add: source_ok_def)
  with \<open>src_rule_set src = None\<close> \<open>src_rule_set src' = None\<close> show ?thesis by (simp add: fetch_rules_def)
qed (use assms(1) in \<open>auto simp: rule_cache_key_def fetch_rules_def\<close>)

lemma entry_fresh_mono: "entry_fresh E D hist t e \<Longrightarrow> t \<le> t' \<Longrightarrow> entry_fresh E D hist t' e"
  by (cases e) (force simp: entry_fresh_def)

lemma load_fresh_mono: "load_fresh E hist t p \<Longrightarrow> t \<le> t' \<Longrightarrow> load_fresh E hist t' p"
  by (cases p) (auto simp: load_fresh_def split: option.splits)

lemma move_to_end_set: "set (move_to_end k v d) \<subseteq> insert (k, v) (set d)"
  using set_dict_del by (fastforce simp: move_to_end_def)

lemma move_to_end_length: "dict_get d k \<noteq> None \<Longrightarrow> length (move_to_end k v d) \<le> length d"
proof -
  assume "dict_get d k \<noteq> None"
  then obtain v where "(k, v) \<in> set d" by (auto dest: map_of_SomeD)
  then have "length (dict_del k d) < length d"
    unfolding AList.delete_eq by (intro length_filter_less [of "(k, v)"]) auto
  then show ?thesis by (simp add: move_to_end_def)
qed

lemma end_load_inv:
  assumes "rule_cache_inv E C D hist t s" shows "rule_cache_inv E C D hist t (end_load l ld s)"
  using assms set_dict_del [of l "running_loads s"] by (auto simp: rule_cache_inv_def end_load_def)

lemma cache_lookup_inv:
  assumes "rule_cache_inv E C D hist t s" shows "rule_cache_inv E C D hist t (snd (cache_lookup C src t s))"
proof (cases "dict_get (rule_entries s) (rule_cache_key src)")
  case None
  then show ?thesis using assms by (simp add: cache_lookup_def)
next
  case (Some e)
  obtain rules c where e: "e = (rules, c)" by fastforce
  have m: "(rule_cache_key src, rules, c) \<in> set (rule_entries s)" using Some e map_of_SomeD by fastforce
  let ?es = "move_to_end (rule_cache_key src) (rules, c) (rule_entries s)"
  have "set ?es \<subseteq> set (rule_entries s)" using move_to_end_set m by fastforce
  moreover have "length ?es \<le> length (rule_entries s)" by (rule move_to_end_length) (simp add: Some)
  ultimately show ?thesis using assms Some e by (auto simp: cache_lookup_def rule_cache_inv_def)
qed

lemma begin_load_inv:
  assumes "rule_cache_inv E C D hist t s" "source_ok src" shows "rule_cache_inv E C D hist t (begin_load C l src s)"
proof -
  have "load_fresh E hist t (l, \<lparr>ld_source = src, ld_rules = None\<rparr>)" using assms(2) by (simp add: load_fresh_def)
  then show ?thesis
    using assms(1) set_dict_set [of l "\<lparr>ld_source = src, ld_rules = None\<rparr>" "running_loads s"]
    by (auto simp: begin_load_def rule_cache_inv_def Let_def)
qed

lemma read_load_inv:
  assumes "rule_cache_inv E C D hist t s" shows "rule_cache_inv E C D hist t (read_load E (hist t) l t s)"
proof (cases "dict_get (running_loads s) l")
  case (Some ld)
  let ?ld = "ld\<lparr>ld_rules := Some (fetch_rules E (hist t) (ld_source ld), t)\<rparr>"
  have "load_fresh E hist t (l, ld)" using assms map_of_SomeD [OF Some] by (auto simp: rule_cache_inv_def)
  then have "load_fresh E hist t (l, ?ld)" by (simp add: load_fresh_def)
  then show ?thesis
    using assms set_dict_set [of l ?ld "running_loads s"] Some by (auto simp: read_load_def rule_cache_inv_def)
qed (use assms in \<open>simp add: read_load_def\<close>)

lemma store_rules_inv:
  assumes "rule_cache_inv E C D hist t s" "entry_fresh E D hist t (key, e)"
  shows "rule_cache_inv E C D hist t (store_rules C key e s)"
  using assms move_to_end_set [of key e "rule_entries s"]
  by (fastforce simp: rule_cache_inv_def store_rules_def Let_def dest: in_set_dropD)

lemma finish_load_inv:
  assumes inv: "rule_cache_inv E C D hist t s" and l: "dict_get (running_loads s) l = Some ld"
    "ld_rules ld = Some (rules, r)" "t \<le> r + D"
  shows "rule_cache_inv E C D hist t (finish_load C l t s)"
proof -
  have "load_fresh E hist t (l, ld)" using inv map_of_SomeD [OF l(1)] by (auto simp: rule_cache_inv_def)
  then have "entry_fresh E D hist t (rule_cache_key (ld_source ld), rules, t)"
    using l(2,3) by (auto simp: load_fresh_def entry_fresh_def intro!: exI [of _ "ld_source ld"] exI [of _ r])
  from end_load_inv [OF store_rules_inv [OF inv this]] show ?thesis
    using l by (simp add: finish_load_def)
qed

lemma rule_reachable_inv: "rule_reachable E C D hist t s \<Longrightarrow> rule_cache_inv E C D hist t s"
proof (induction rule: rule_reachable.induct)
  case (init t)
  then show ?case by (simp add: rule_cache_inv_def empty_rule_cache_def)
next
  case (step t s t' s')
  from step.hyps(2) show ?case
  proof cases
    case pass
    with step.IH show ?thesis by (auto simp: rule_cache_inv_def intro: entry_fresh_mono load_fresh_mono)
  next
    case (invalidate P)
    with step.IH invalidate show ?thesis
      by (auto simp: rule_cache_inv_def drop_keys_def intro: order_trans [OF length_filter_le])
  next
    case (fail l)
    with step.IH end_load_inv show ?thesis by (auto simp: fail_load_def split: option.split)
  qed (use step.IH in \<open>auto intro: cache_lookup_inv begin_load_inv read_load_inv finish_load_inv\<close>)
qed

text \<open>
  How stale an enforced rule list can be. Whatever calls, loads, failures, evictions and
  invalidations interleave, the rules a hit answers with are the ones the database held for that
  very binding or rule set at some moment less than the TTL plus the storing delay before the
  call; never another binding's. And the cache never exceeds its bound.
\<close>

theorem cached_rules_recent:
  assumes "rule_reachable E C D hist t s" and "source_ok src" and "cache_lookup C src t s = (Some rules, s')"
  shows "(\<exists>r. t - cache_ttl C - D < r \<and> r \<le> t \<and> rules = fetch_rules E (hist r) src) \<and>
    length (rule_entries s') \<le> cache_max C"
proof -
  have inv: "rule_cache_inv E C D hist t s" by (rule rule_reachable_inv [OF assms(1)])
  from assms(3) obtain c where c: "dict_get (rule_entries s) (rule_cache_key src) = Some (rules, c)" "t - c < cache_ttl C"
    by (auto simp: cache_lookup_def split: option.splits if_splits)
  then obtain src' r where r: "source_ok src'" "rule_cache_key src = rule_cache_key src'"
    "rules = fetch_rules E (hist r) src'" "c - D \<le> r" "r \<le> c" "c \<le> t"
    using inv map_of_SomeD [OF c(1)] by (auto simp: rule_cache_inv_def entry_fresh_def)
  have "rules = fetch_rules E (hist r) src" using rule_key_source [OF r(2) assms(2) r(1)] r(3) by simp
  moreover have "length (rule_entries s') \<le> cache_max C"
    using cache_lookup_inv [OF inv, of src] assms(3) by (simp add: rule_cache_inv_def)
  ultimately show ?thesis using r c(2) by (intro conjI exI [of _ r]) auto
qed

definition demo_source :: rule_source where
  "demo_source = \<lparr>src_agent = ''a'', src_credential = ''c'', src_rule_set = None\<rparr>"

definition granting :: rule_tables where
  "granting = \<lparr>binding_rules = [((''a'', ''c''), \<lparr>row_id = Some ''r1'', row_effect = ''allow'',
       row_methods = Col_Text ''[\"GET\"]'', row_path = None, row_operations = Col_Null, row_match_mode = None\<rparr>)],
     rule_set_rules = []\<rparr>"

definition revoked :: rule_tables where "revoked = \<lparr>binding_rules = [], rule_set_rules = []\<rparr>"

definition demo_cache_config :: cache_config where
  "demo_cache_config = \<lparr>cache_ttl = 30, cache_max = 5000, max_in_flight = 10000\<rparr>"

text \<open>A load that read before the revocation and stores after the invalidation.\<close>

definition raced_cache :: "regex_engine \<Rightarrow> rule_cache" where
  "raced_cache E =
     finish_load demo_cache_config 0 2 (invalidate_binding ''a'' ''c''
       (read_load E granting 0 0 (begin_load demo_cache_config 0 demo_source empty_rule_cache)))"

definition demo_rules_engine :: regex_engine where
  "demo_rules_engine = \<lparr>re_compile_error = (\<lambda>_. None), re_fullmatch = (\<lambda>_ _. False)\<rparr>"

lemma cached_rules_recent_witness:
  "\<exists>s s' rules. rule_reachable demo_rules_engine demo_cache_config 5 (\<lambda>t. if t < 1 then granting else revoked) 20 s \<and>
     cache_lookup demo_cache_config demo_source 20 s = (Some rules, s') \<and> rules \<noteq> [] \<and>
     (\<exists>r::real. -15 < r \<and> r \<le> 20 \<and> rules = fetch_rules demo_rules_engine (if r < 1 then granting else revoked) demo_source)"
proof -
  let ?E = demo_rules_engine and ?C = demo_cache_config and ?h = "\<lambda>t::real. if t < 1 then granting else revoked"
  let ?b = "begin_load ?C 0 demo_source empty_rule_cache"
  let ?r = "read_load ?E granting 0 0 ?b"
  let ?f = "finish_load ?C 0 0 ?r"
  have "rule_reachable ?E ?C 5 ?h 0 ?b"
    by (rule rule_reachable.step [OF rule_reachable.init rule_step.load])
      (simp_all add: source_ok_def demo_source_def empty_rule_cache_def)
  from rule_reachable.step [OF this, of 0 ?r] have "rule_reachable ?E ?C 5 ?h 0 ?r"
    using rule_step.read [of ?E ?C 5 ?h 0 ?b 0] by simp
  then have "rule_reachable ?E ?C 5 ?h 0 ?f"
  proof (rule rule_reachable.step)
    have l: "dict_get (running_loads ?r) 0 = Some \<lparr>ld_source = demo_source, ld_rules = Some (fetch_rules ?E granting demo_source, 0)\<rparr>"
      by (simp add: read_load_def begin_load_def empty_rule_cache_def demo_cache_config_def)
    show "rule_step ?E ?C 5 ?h (0, ?r) (0, ?f)" by (rule rule_step.finish [OF l, of _ 0]) (simp, linarith)
  qed
  then have reach: "rule_reachable ?E ?C 5 ?h 20 ?f"
    by (rule rule_reachable.step) (rule rule_step.pass, simp)
  obtain rules s' where hit: "cache_lookup ?C demo_source 20 ?f = (Some rules, s')" "rules \<noteq> []"
  proof -
    have "case fst (cache_lookup ?C demo_source 20 ?f) of None \<Rightarrow> False | Some rs \<Rightarrow> rs \<noteq> []" by code_simp
    then show ?thesis using that by (cases "cache_lookup ?C demo_source 20 ?f") (auto split: option.splits)
  qed
  have ok: "source_ok demo_source" by (simp add: source_ok_def demo_source_def)
  have "\<exists>r::real. 20 - cache_ttl ?C - 5 < r \<and> r \<le> 20 \<and> rules = fetch_rules ?E (?h r) demo_source"
    using cached_rules_recent [OF reach ok hit(1)] by blast
  then have "\<exists>r::real. -15 < r \<and> r \<le> 20 \<and> rules = fetch_rules ?E (?h r) demo_source"
    by (simp add: demo_cache_config_def)
  with reach hit show ?thesis by blast
qed

text \<open>
  An invalidation does not reach a load in flight. A load that read a binding's rules before
  they were revoked stores them after the revocation has invalidated the binding, and for the rest
  of the TTL the calls of that binding are judged by the revoked rules.
\<close>

theorem invalidation_misses_load:
  "(case fst (cache_lookup demo_cache_config demo_source 30 (raced_cache demo_rules_engine)) of
      None \<Rightarrow> False
    | Some rules \<Rightarrow> re_verdict (evaluate_loaded demo_rules_engine rules ''GET'' ''/x'' None None) = ''allow'') \<and>
   re_verdict (evaluate_loaded demo_rules_engine (fetch_rules demo_rules_engine revoked demo_source) ''GET'' ''/x'' None None) = ''deny''"
  by code_simp

end
