(* ===== verification/Authorization.thy ===== *)
theory Authorization
  imports Credential_Resolver Agent_Rules Egress
begin

text \<open>
  Execution authorization: \<open>broker/services/execution/authorization.py\<close> and the error mapping of
  \<open>broker/services/credentials/orchestrator.py\<close>, over the derivation, the selection and the rules
  of the theories it imports. Counters, events and log lines are left out; what a lookup of another
  service yields (an open session's link, the shared registrations) is a field of the environment.
\<close>

section \<open>The environment\<close>

text \<open>
  \<open>ev_rules\<close> is \<open>_get_rules\<close>: the rule list of a source, from the cache or the database.
  \<open>ev_prose\<close> is the instruction text of a directive, \<open>ev_show_time\<close> and \<open>ev_repr\<close>
  the JSON form of a time and the \<open>repr\<close> of a list of names.
\<close>

record auth_env =
  ev_engine :: regex_engine
  ev_ordered :: "identity_columns list \<Rightarrow> identity_columns list"
  ev_bindings :: "binding_row list"
  ev_credentials :: "credential_row list"
  ev_rules :: "rule_source \<Rightarrow> permission_rule list"
  ev_vendor_of :: "string \<Rightarrow> string option"
  ev_vendor_entries :: "(string, string) dict"
  ev_registrations :: "registration list"
  ev_open_session_url :: "api_reference \<Rightarrow> string option"
  ev_open_edit_url :: "string \<Rightarrow> string option"
  ev_manual_flows :: bool
  ev_intent_id :: string
  ev_prose :: "string \<Rightarrow> string"
  ev_mismatch_prose :: "bool \<Rightarrow> string \<Rightarrow> string \<Rightarrow> string"
  ev_show_time :: "real \<Rightarrow> string"
  ev_repr :: "string list \<Rightarrow> string"

datatype auth_error = Denied broker_error | Assertion_Failed | Bad_Upstream_Url url_error

definition api_triple :: "api_reference \<Rightarrow> string \<times> string \<times> string" where
  "api_triple api = (api_vendor api, api_name api, api_version api)"

definition env_connect_target :: "auth_env \<Rightarrow> api_reference \<Rightarrow> connect_target option" where
  "env_connect_target V api = resolve_target (ev_vendor_of V) (ev_vendor_entries V) (ev_registrations V) api"

section \<open>Resolution errors as the broker's\<close>

definition api_text :: "api_reference \<Rightarrow> string" where
  "api_text api = ''('' @ api_vendor api @ '', '' @ api_name api @ '', '' @ api_version api @ '')''"

definition candidate_json :: "auth_env \<Rightarrow> credential_candidate \<Rightarrow> json" where
  "candidate_json V c =
     JObj [(''id'', JStr (ca_id c)), (''name'', JStr (ca_name c)), (''last4'', JStr (ca_last4 c)),
           (''created_at'', case ca_created_at c of None \<Rightarrow> JNull | Some t \<Rightarrow> JStr (ev_show_time V t))]"

definition candidates_extra :: "auth_env \<Rightarrow> credential_candidate list \<Rightarrow> (string, json) dict" where
  "candidates_extra V cs = [(''candidates'', JList (map (candidate_json V) cs))]"

definition quoted :: "string \<Rightarrow> string" where "quoted s = [CHR 0x27] @ s @ [CHR 0x27]"

definition not_provisioned_error :: "auth_env \<Rightarrow> api_reference \<Rightarrow> json list option \<Rightarrow> broker_error" where
  "not_provisioned_error V api rules =
     (let connect = env_connect_target V api;
          url = ev_open_session_url V api;
          asked = or_nothing url;
          connect_api = (connect = None \<and> ev_manual_flows V \<and>
            api_vendor api \<noteq> [] \<and> api_name api \<noteq> [] \<and> api_version api \<noteq> []);
          params = dict_update_all
            [(''intent_id'', JStr (ev_intent_id V)), (''vendor'', JStr (api_vendor api))]
            (connect_parameters (if asked then None else connect) rules);
          params = (if connect_api \<and> \<not> asked
                    then dict_update_all params (api_connect_parameters (api_vendor api) (api_name api) (api_version api))
                    else params);
          params = (if asked then dict_set ''provisioning_url'' (json_opt url) params else params) in
      (init_error Credential_Not_Provisioned
         (''No credential provisioned for '' @ quoted (api_vendor api) @ ''.'') (Some ''credential_not_provisioned''))
        \<lparr>be_extra := [(''intent_id'', JStr (ev_intent_id V))],
         be_directive := Some \<lparr>ad_strategy = Prompt_Human, ad_parameters = params,
           ad_instruction = ev_prose V ''credential_not_provisioned''\<rparr>\<rparr>)"

fun resolution_denial ::
  "auth_env \<Rightarrow> resolve_request \<Rightarrow> string \<Rightarrow> string \<Rightarrow> api_reference \<Rightarrow> resolution_error \<Rightarrow> broker_error" where
  "resolution_denial V q method path api (Not_Provisioned _) =
     not_provisioned_error V api (suggested_permission_rules (ev_engine V) method path)"
| "resolution_denial V q method path api (Name_Not_Found a n cs) =
     (init_error Invalid_Credential_Name
        (''No credential named '' @ quoted n @ '' for api '' @ api_text a @ ''; available: '' @ ev_repr V (map ca_name cs))
        (Some ''credential_name_not_found''))\<lparr>be_extra := candidates_extra V cs\<rparr>"
| "resolution_denial V q method path api (Id_Not_Found a i cs) =
     (init_error Invalid_Credential_Name
        (''No bound credential with id '' @ quoted i @ '' for api '' @ api_text a @ ''; available: '' @ ev_repr V (map ca_id cs))
        (Some ''credential_id_not_found''))\<lparr>be_extra := candidates_extra V cs\<rparr>"
| "resolution_denial V q method path api (Ambiguous_Credential a n cs) =
     (let e = (init_error Ambiguous_Credential_Match
                 (''Ambiguous: '' @ str_of_nat n @ '' active credentials match api '' @ api_text a)
                 (Some (if rq_allowed_ids q \<noteq> None then ''ambiguous_credential_binding'' else ''ambiguous_credential'')))
                \<lparr>be_extra := candidates_extra V cs\<rparr> in
      if rq_allowed_ids q \<noteq> None
      then e\<lparr>be_directive := Some (ambiguous_credential_binding_directive (map ca_id cs))\<rparr> else e)"

text \<open>\<open>select\<close>: no credential path without a vendor.\<close>

definition select_credential ::
  "auth_env \<Rightarrow> api_reference \<Rightarrow> resolve_request \<Rightarrow> string \<Rightarrow> string \<Rightarrow> (broker_error, resolved option) result" where
  "select_credential V api q method path =
     (if api_vendor api = [] then Inr None
      else case resolve_credential (ev_credentials V) api q of
        Inl e \<Rightarrow> Inl (resolution_denial V q method path api e)
      | Inr r \<Rightarrow> Inr (Some r))"

section \<open>Denials\<close>

datatype denial_reason =
    No_Credential_Binding | Identity_Mismatch | Binding_Suspended | No_Rules_Loaded | No_Rule_Matched | Ambiguous_Path

fun denial_value :: "denial_reason \<Rightarrow> string" where
  "denial_value No_Credential_Binding = ''no_credential_binding''"
| "denial_value Identity_Mismatch = ''credential_identity_mismatch''"
| "denial_value Binding_Suspended = ''credential_binding_suspended''"
| "denial_value No_Rules_Loaded = ''no_rules_loaded''"
| "denial_value No_Rule_Matched = ''no_rule_matched''"
| "denial_value Ambiguous_Path = ''ambiguous_path''"

definition no_binding_denial ::
  "auth_env \<Rightarrow> credential_derivation \<Rightarrow> api_reference \<Rightarrow> string \<Rightarrow> json list option \<Rightarrow> broker_error" where
  "no_binding_denial V d api inst rules =
     (init_error Action_Denied ''No credential binding for this API'' (Some ''no_credential_binding''))
       \<lparr>be_instance := Some inst,
        be_directive := Some (no_credential_binding_directive (ev_prose V ''no_credential_binding'') (api_triple api)
          (cd_api_served d) (env_connect_target V api) rules (ev_open_session_url V api) (ev_manual_flows V))\<rparr>"

definition empty_derivation_denial ::
  "auth_env \<Rightarrow> credential_derivation \<Rightarrow> api_reference \<Rightarrow> string \<Rightarrow> json list option \<Rightarrow> broker_error" where
  "empty_derivation_denial V d api inst rules =
     (case cd_identity_mismatch d of
        Some m \<Rightarrow>
          if cd_agent_bound_any d \<and> \<not> cd_api_served d then
            (init_error Credential_Identity_Mismatch ''A bound credential's identity does not cover this API''
               (Some ''credential_identity_mismatch''))
              \<lparr>be_instance := Some inst,
               be_directive := Some (direct_credential_identity_mismatch_directive (ev_mismatch_prose V) m)\<rparr>
          else no_binding_denial V d api inst rules
      | None \<Rightarrow> no_binding_denial V d api inst rules)"

definition suspended_binding_denial :: "auth_env \<Rightarrow> api_reference \<Rightarrow> string \<Rightarrow> broker_error" where
  "suspended_binding_denial V api inst =
     (init_error Credential_Binding_Suspended ''The credential binding for this API is suspended'' None)
       \<lparr>be_instance := Some inst,
        be_directive := Some (credential_binding_suspended_directive
          (ev_prose V ''credential_binding_suspended'') (api_triple api))\<rparr>"

text \<open>A rule-level denial; the detail's prose is named by its reason.\<close>

definition rule_denial :: "auth_env \<Rightarrow> string \<Rightarrow> denial_reason \<Rightarrow> agent_directive option \<Rightarrow> broker_error" where
  "rule_denial V inst reason directive =
     (init_error Action_Denied (ev_prose V (denial_value reason)) (Some ''action_denied''))
       \<lparr>be_instance := Some inst,
        be_directive := Some (case directive of
          Some d \<Rightarrow> d
        | None \<Rightarrow> direct_action_denied_directive (ev_prose V ''action_denied'') None None None)\<rparr>"

section \<open>Authorizing a call\<close>

record auth_request =
  ar_agent :: string
  ar_api :: api_reference
  ar_operation :: "string option"
  ar_method :: string
  ar_path :: string
  ar_instance :: string
  ar_credential_name :: "string option"
  ar_credential_id :: "string option"
  ar_server_variables :: "(string, string) dict option"
  ar_variables_unresolved :: bool
  ar_upstream_url :: "string option"

definition derive_credential_bindings :: "auth_env \<Rightarrow> auth_request \<Rightarrow> (auth_error, credential_derivation) result" where
  "derive_credential_bindings V q =
     (let api = ar_api q in
      if api_vendor api = [] \<or> api_name api = [] \<or> api_version api = [] then Inl Assertion_Failed
      else
        (let d = derive_credentials (ev_ordered V) (ev_bindings V) (ev_credentials V) (ar_agent q) api in
         if cd_credentials d = [] then
           Inl (Denied (if cd_binding_suspended d then suspended_binding_denial V api (ar_instance q)
             else empty_derivation_denial V d api (ar_instance q)
                    (suggested_permission_rules (ev_engine V) (ar_method q) (ar_path q))))
         else Inr d))"

record execution_authorization =
  ea_allowed_ids :: "string list"
  ea_selected :: resolved
  ea_verdict :: string
  ea_matched_rule :: "string option"

definition raw_upstream_path :: "auth_request \<Rightarrow> (auth_error, string option) result" where
  "raw_upstream_path q =
     (case ar_upstream_url q of
        None \<Rightarrow> Inr None
      | Some url \<Rightarrow> (case urlparse_path url of Inl e \<Rightarrow> Inl (Bad_Upstream_Url e) | Inr p \<Rightarrow> Inr (Some p)))"

definition authorize_with ::
  "auth_env \<Rightarrow> auth_request \<Rightarrow> string list \<Rightarrow> resolved \<Rightarrow> string option \<Rightarrow> (auth_error, execution_authorization) result" where
  "authorize_with V q allowed_ids selected rule_set =
     rbind (raw_upstream_path q) (\<lambda>raw.
       if has_ambiguous_traversal (ar_path q) \<or> (case raw of None \<Rightarrow> False | Some p \<Rightarrow> has_ambiguous_traversal p) then
         Inl (Denied (rule_denial V (ar_instance q) Ambiguous_Path None))
       else
         (let upstream_path = map_option (\<lambda>p. normalize_path (if p = [] then ''/'' else p)) raw;
              rules = ev_rules V \<lparr>src_agent = ar_agent q, src_credential = rc_credential_id selected, src_rule_set = rule_set\<rparr>;
              evaluation = evaluate_loaded (ev_engine V) rules (ar_method q) (ar_path q) (ar_operation q)
                (if upstream_path \<noteq> Some (ar_path q) then upstream_path else None) in
          if re_verdict evaluation = ''require-approval'' then
            Inr \<lparr>ea_allowed_ids = allowed_ids, ea_selected = selected, ea_verdict = ''require-approval'',
                 ea_matched_rule = re_matched_rule_id evaluation\<rparr>
          else if re_verdict evaluation \<noteq> ''allow'' then
            Inl (Denied (rule_denial V (ar_instance q)
              (if re_rules_loaded evaluation = 0 then No_Rules_Loaded else No_Rule_Matched)
              (Some (direct_action_denied_directive (ev_prose V ''action_denied'')
                (Some (rc_credential_id selected))
                (suggested_permission_rules (ev_engine V) (ar_method q) (ar_path q))
                (ev_open_edit_url V (rc_credential_id selected))))))
          else Inr \<lparr>ea_allowed_ids = allowed_ids, ea_selected = selected, ea_verdict = ''allow'', ea_matched_rule = None\<rparr>))"

definition resolve_request_of :: "auth_request \<Rightarrow> string list \<Rightarrow> resolve_request" where
  "resolve_request_of q allowed_ids =
     \<lparr>rq_allowed_ids = Some allowed_ids, rq_credential_id = ar_credential_id q,
      rq_credential_name = ar_credential_name q, rq_server_variables = ar_server_variables q,
      rq_variables_unresolved = ar_variables_unresolved q\<rparr>"

definition authorize_execution :: "auth_env \<Rightarrow> auth_request \<Rightarrow> (auth_error, execution_authorization) result" where
  "authorize_execution V q =
     rbind (derive_credential_bindings V q) (\<lambda>d.
       (let allowed_ids = map bc_credential_id (cd_credentials d);
            rule_set_ids = dict_update_all [] (map (\<lambda>b. (bc_credential_id b, bc_rule_set_id b)) (cd_credentials d)) in
        case select_credential V (ar_api q) (resolve_request_of q allowed_ids) (ar_method q) (ar_path q) of
          Inl e \<Rightarrow> Inl (Denied e)
        | Inr None \<Rightarrow> Inl Assertion_Failed
        | Inr (Some selected) \<Rightarrow>
            authorize_with V q allowed_ids selected
              (case dict_get rule_set_ids (rc_credential_id selected) of None \<Rightarrow> None | Some rs \<Rightarrow> rs)))"

section \<open>What an authorization rests on\<close>

lemma derived_candidate:
  assumes "b \<in> set (cd_credentials (derive_credentials ordered bindings creds agent api))"
  shows "\<exists>r c. r \<in> set bindings \<and> ab_agent_id r = agent \<and> \<not> ab_suspended r \<and>
      ab_credential_id r = bc_credential_id b \<and> ab_rule_set_id r = bc_rule_set_id b \<and>
      c \<in> set creds \<and> cr_id c = bc_credential_id b \<and> row_covers c api \<and> cr_active c \<and> cr_state c = ''connected''"
  using assms subsetD [OF set_dict_update_all]
  by (fastforce simp: derive_credentials_def Let_def covering_credentials_def)

lemma select_credential_Some:
  assumes "select_credential V api q method path = Inr (Some r)"
  shows "\<exists>c. c \<in> set (ev_credentials V) \<and> selectable api q c \<and> cr_id c = rc_credential_id r"
proof -
  have "resolve_credential (ev_credentials V) api q = Inr r"
    using assms by (auto simp: select_credential_def split: if_splits sum.splits)
  then obtain c where c: "most_specific (filter (selectable api q) (ev_credentials V)) = [c]" "build_resolved c = Inr r"
    unfolding resolve_credential_cases by blast
  have "c \<in> set (most_specific (filter (selectable api q) (ev_credentials V)))" by (simp add: c(1))
  then have "c \<in> set (ev_credentials V) \<and> selectable api q c" by (simp add: most_specific_def Let_def)
  then show ?thesis using build_resolved_facts [of c] c(2) by (intro exI [of _ c]) auto
qed

text \<open>The path that is forwarded, when there is one, parses and has no ambiguous dot segment.\<close>

definition upstream_unambiguous :: "auth_request \<Rightarrow> bool" where
  "upstream_unambiguous q =
     (case raw_upstream_path q of
        Inl _ \<Rightarrow> False
      | Inr None \<Rightarrow> True
      | Inr (Some p) \<Rightarrow> \<not> has_ambiguous_traversal p)"

lemma authorize_with_Inr:
  assumes "authorize_with V q ids selected rs = Inr a"
  shows "ea_selected a = selected \<and> ea_allowed_ids a = ids \<and> \<not> has_ambiguous_traversal (ar_path q) \<and>
    upstream_unambiguous q \<and>
    (let rules = ev_rules V \<lparr>src_agent = ar_agent q, src_credential = rc_credential_id selected, src_rule_set = rs\<rparr>;
         idx = first_matching_rule (ev_engine V) rules
           \<lparr>req_method = ar_method q, req_path = ar_path q, req_operation = ar_operation q\<rparr> in
     rules \<noteq> [] \<and> ea_verdict a = rule_verdict rules idx \<and> ea_verdict a \<noteq> ''deny'')"
proof -
  let ?rules = "ev_rules V \<lparr>src_agent = ar_agent q, src_credential = rc_credential_id selected, src_rule_set = rs\<rparr>"
  obtain raw where raw: "raw_upstream_path q = Inr raw" "\<not> has_ambiguous_traversal (ar_path q)"
    "upstream_unambiguous q"
    using assms by (auto simp: authorize_with_def rbind_Inr_iff upstream_unambiguous_def split: if_splits option.splits)
  define up where "up = map_option (\<lambda>p. normalize_path (if p = [] then ''/'' else p)) raw"
  define ev where "ev = evaluate_loaded (ev_engine V) ?rules (ar_method q) (ar_path q) (ar_operation q)
     (if up \<noteq> Some (ar_path q) then up else None)"
  have "?rules \<noteq> []" and v: "re_verdict ev \<in> {''allow'', ''require-approval''}" "ea_verdict a = re_verdict ev"
    and s: "ea_selected a = selected" "ea_allowed_ids a = ids"
    using assms raw by (auto simp: authorize_with_def up_def [symmetric] ev_def [symmetric] Let_def evaluate_loaded_def
        split: if_splits) (auto simp: ev_def evaluate_loaded_def)
  moreover from this(1) have "re_verdict ev = rule_verdict ?rules (first_matching_rule (ev_engine V) ?rules
      \<lparr>req_method = ar_method q, req_path = ar_path q, req_operation = ar_operation q\<rparr>)"
    by (simp add: ev_def evaluate_loaded_def Let_def)
  ultimately show ?thesis using raw(2,3) by (auto simp: Let_def)
qed

text \<open>
  C5: nothing runs on an agent's behalf without a grant. When a call is authorized, or held for
  approval, the agent has an unsuspended binding to the very credential selected; that credential
  is active, connected, of the API's vendor, covers the API and fits the request's server
  variables; the path the rules see and the path sent upstream have a single reading; and the verdict is the one the rules of that binding
  (or of its attached set) give, which are not empty: an allow means a constraining allow rule
  decides first.
\<close>

theorem authorization_grounded:
  assumes "authorize_execution V q = Inr a"
  shows "\<exists>b c. b \<in> set (ev_bindings V) \<and> ab_agent_id b = ar_agent q \<and> \<not> ab_suspended b \<and>
      ab_credential_id b = rc_credential_id (ea_selected a) \<and>
      c \<in> set (ev_credentials V) \<and> cr_id c = rc_credential_id (ea_selected a) \<and> cr_active c \<and>
      credential_covers (row_scope c) (ar_api q) \<and>
      server_variables_compatible (cr_server_variables c) (ar_server_variables q) (ar_variables_unresolved q) \<and>
      list_ex (\<lambda>c. cr_id c = rc_credential_id (ea_selected a) \<and> cr_state c = ''connected'') (ev_credentials V) \<and>
      \<not> has_ambiguous_traversal (ar_path q) \<and> upstream_unambiguous q \<and>
      (let rules = ev_rules V \<lparr>src_agent = ar_agent q, src_credential = rc_credential_id (ea_selected a),
             src_rule_set = ab_rule_set_id b\<rparr>;
           request = \<lparr>req_method = ar_method q, req_path = ar_path q, req_operation = ar_operation q\<rparr> in
       rules \<noteq> [] \<and> ea_verdict a = rule_verdict rules (first_matching_rule (ev_engine V) rules request) \<and>
       (ea_verdict a = ''allow'') = evaluate_rules (ev_engine V) rules request \<and>
       ea_verdict a \<in> {''allow'', ''require-approval''})"
proof -
  let ?d = "derive_credentials (ev_ordered V) (ev_bindings V) (ev_credentials V) (ar_agent q) (ar_api q)"
  let ?ids = "map bc_credential_id (cd_credentials ?d)"
  let ?sets = "map (\<lambda>b. (bc_credential_id b, bc_rule_set_id b)) (cd_credentials ?d)"
  from assms have d: "derive_credential_bindings V q = Inr ?d"
    by (auto simp: authorize_execution_def rbind_Inr_iff derive_credential_bindings_def Let_def split: if_splits)
  obtain sel where sel: "select_credential V (ar_api q) (resolve_request_of q ?ids) (ar_method q) (ar_path q) = Inr (Some sel)"
    and w: "authorize_with V q ?ids sel (case dict_get (dict_update_all [] ?sets) (rc_credential_id sel) of None \<Rightarrow> None | Some rs \<Rightarrow> rs) = Inr a"
    using assms by (auto simp: authorize_execution_def d Let_def split: sum.splits option.splits)
  note A = authorize_with_Inr [OF w]
  from select_credential_Some [OF sel] obtain c where c: "c \<in> set (ev_credentials V)"
    "selectable (ar_api q) (resolve_request_of q ?ids) c" "cr_id c = rc_credential_id sel" by blast
  then have "rc_credential_id sel \<in> set ?ids" by (simp add: selectable_def resolve_request_of_def)
  then have "rc_credential_id sel \<in> fst ` set (rev ?sets)" by force
  then obtain rs where rs: "dict_get (rev ?sets) (rc_credential_id sel) = Some rs"
    by (cases "dict_get (rev ?sets) (rc_credential_id sel)") (auto simp: map_of_eq_None_iff)
  then have get: "dict_get (dict_update_all [] ?sets) (rc_credential_id sel) = Some rs"
    by (simp add: dict_update_all_get)
  from map_of_SomeD [OF rs] obtain b where b: "b \<in> set (cd_credentials ?d)" "bc_credential_id b = rc_credential_id sel"
    "bc_rule_set_id b = rs" by auto
  from derived_candidate [OF b(1)] obtain r c' where r: "r \<in> set (ev_bindings V)" "ab_agent_id r = ar_agent q"
    "\<not> ab_suspended r" "ab_credential_id r = rc_credential_id sel" "ab_rule_set_id r = rs"
    "c' \<in> set (ev_credentials V)" "cr_id c' = rc_credential_id sel" "cr_state c' = ''connected''"
    using b by auto
  let ?rules = "ev_rules V \<lparr>src_agent = ar_agent q, src_credential = rc_credential_id sel, src_rule_set = rs\<rparr>"
  let ?req = "\<lparr>req_method = ar_method q, req_path = ar_path q, req_operation = ar_operation q\<rparr>"
  have v: "?rules \<noteq> []" "ea_verdict a = rule_verdict ?rules (first_matching_rule (ev_engine V) ?rules ?req)"
    "ea_verdict a \<noteq> ''deny''" "ea_selected a = sel" "\<not> has_ambiguous_traversal (ar_path q)" "upstream_unambiguous q"
    using A [unfolded get option.case Let_def] by blast+
  have "(ea_verdict a = ''allow'') = evaluate_rules (ev_engine V) ?rules ?req"
    by (simp add: evaluate_rules_def is_allowed_verdict v(2))
  moreover have "ea_verdict a \<in> {''allow'', ''require-approval''}"
    using v(2,3) rule_verdict_cases [of ?rules "first_matching_rule (ev_engine V) ?rules ?req"] by auto
  moreover have "list_ex (\<lambda>c. cr_id c = rc_credential_id sel \<and> cr_state c = ''connected'') (ev_credentials V)"
    using r by (auto simp: list_ex_iff)
  ultimately show ?thesis using c r v
    by (intro exI [of _ r] exI [of _ c]) (simp add: selectable_def resolve_request_of_def Let_def)
qed

definition demo_env :: auth_env where
  "demo_env =
     \<lparr>ev_engine = demo_rules_engine, ev_ordered = (\<lambda>rows. rows),
      ev_bindings = [\<lparr>ab_agent_id = ''a'', ab_credential_id = ''c'', ab_rule_set_id = None, ab_suspended = False\<rparr>],
      ev_credentials = [(demo_row ''c'' (Some ''pay''))\<lparr>cr_api_vendor := ''acme''\<rparr>],
      ev_rules = fetch_rules demo_rules_engine granting, ev_vendor_of = (\<lambda>_. None), ev_vendor_entries = [],
      ev_registrations = [], ev_open_session_url = (\<lambda>_. None), ev_open_edit_url = (\<lambda>_. None),
      ev_manual_flows = False, ev_intent_id = ''i'', ev_prose = (\<lambda>k. k), ev_mismatch_prose = (\<lambda>_ e f. e),
      ev_show_time = (\<lambda>_. ''now''), ev_repr = (\<lambda>ns. comma_join ns)\<rparr>"

definition demo_call :: auth_request where
  "demo_call =
     \<lparr>ar_agent = ''a'', ar_api = \<lparr>api_vendor = ''acme'', api_name = ''pay'', api_version = ''1''\<rparr>,
      ar_operation = None, ar_method = ''get'', ar_path = ''/x'', ar_instance = ''/execute'',
      ar_credential_name = None, ar_credential_id = None, ar_server_variables = None,
      ar_variables_unresolved = False, ar_upstream_url = Some ''https://api.acme/v1/x''\<rparr>"

lemma authorization_grounded_witness:
  "\<exists>a. authorize_execution demo_env demo_call = Inr a \<and> ea_verdict a = ''allow'' \<and>
     \<not> has_ambiguous_traversal (ar_path demo_call) \<and>
     (\<exists>b. b \<in> set (ev_bindings demo_env) \<and> ab_credential_id b = rc_credential_id (ea_selected a))"
proof -
  have "case authorize_execution demo_env demo_call of Inl _ \<Rightarrow> False | Inr a \<Rightarrow> ea_verdict a = ''allow''" by code_simp
  then obtain a where a: "authorize_execution demo_env demo_call = Inr a" "ea_verdict a = ''allow''"
    by (auto split: sum.splits)
  from authorization_grounded [OF a(1)] a show ?thesis by blast
qed

text \<open>
  The traversal guard reads the path that \<open>urlparse\<close> gives, which leaves out the parameters of the
  last segment: an escaped traversal behind a semicolon is not seen, though the URL is forwarded
  as it is.
\<close>

lemma params_hide_traversal:
  "has_ambiguous_traversal ''/x;%2F..%2Fa''"
  "authorize_execution V (q\<lparr>ar_upstream_url := Some ''https://api.acme/x;%2F..%2Fa''\<rparr>) =
   authorize_execution V (q\<lparr>ar_upstream_url := Some ''https://api.acme/x''\<rparr>)"
proof -
  show "has_ambiguous_traversal ''/x;%2F..%2Fa''" by code_simp
  have "urlparse_path ''https://api.acme/x;%2F..%2Fa'' = Inr ''/x''"
    "urlparse_path ''https://api.acme/x'' = Inr ''/x''" by code_simp+
  then show "authorize_execution V (q\<lparr>ar_upstream_url := Some ''https://api.acme/x;%2F..%2Fa''\<rparr>) =
     authorize_execution V (q\<lparr>ar_upstream_url := Some ''https://api.acme/x''\<rparr>)"
    by (simp add: authorize_execution_def derive_credential_bindings_def resolve_request_of_def Let_def
        authorize_with_def raw_upstream_path_def cong: if_cong option.case_cong sum.case_cong)
qed

end
