(* ===== verification/Job_Queue.thy ===== *)
theory Job_Queue
  imports Complex_Main Py_Json
begin

text \<open>
  The job queue of the admin database: \<open>admin/core/schema/jobs.py\<close>, the status transitions of
  \<open>admin/repos/job_repo.py\<close>, \<open>shared/jobs/enqueue.py\<close> and the claim, completion and failure
  transactions of \<open>shared/jobs/worker.py\<close>. A table is the list of its rows in insertion order and a
  transaction a function on the database; the clock is an argument. Events are rows, because a
  reclaim reads them back; audit entries and log lines are left out.
\<close>

section \<open>Rows\<close>

datatype job_status =
  Job_Queued | Job_Running | Job_Completed | Job_Failed | Job_Cancelled | Job_Dead_Letter | Job_Held

datatype job_kind = Kind_Import | Kind_Execution

record job =
  job_id :: string
  job_kind :: job_kind
  job_status :: job_status
  job_actor_type :: string
  job_error :: "string option"
  job_execution_id :: "string option"
  job_visible_at :: "real option"
  job_attempts :: nat
  job_payload :: "(string, json) dict"
  job_created_by :: string
  job_created_at :: real

record job_result =
  res_job_id :: string
  res_kind :: job_kind
  res_body :: "(string, json) dict"
  res_content_type :: "string option"
  res_available_until :: "real option"

datatype hold_state = Hold_Pending | Hold_Approved | Hold_Denied | Hold_Expired | Hold_Withdrawn

record hold =
  hold_id :: string
  hold_job_id :: string
  hold_agent_id :: string
  hold_credential_id :: string
  hold_api :: "string \<times> string \<times> string"
  hold_operation_id :: "string option"
  hold_method :: string
  hold_path :: string
  hold_fingerprint :: string
  hold_matched_rule :: "string option"
  hold_state :: hold_state
  hold_expires_at :: real
  hold_decided_at :: "real option"
  hold_decided_by :: "string option"
  hold_reason :: "string option"
  hold_trace_id :: "string option"
  hold_execution_id :: "string option"
  hold_created_by :: string

record event =
  ev_type :: string
  ev_job_id :: "string option"
  ev_execution_id :: "string option"
  ev_trace_id :: "string option"
  ev_actor_id :: string
  ev_created_at :: real

record admin_db =
  db_jobs :: "job list"
  db_holds :: "hold list"
  db_results :: "job_result list"
  db_records :: "string list"
  db_events :: "event list"

definition find_job :: "string \<Rightarrow> admin_db \<Rightarrow> job option" where
  "find_job i db = find (\<lambda>j. job_id j = i) (db_jobs db)"

text \<open>\<open>UPDATE jobs SET \<dots> WHERE p\<close>.\<close>

definition update_jobs :: "(job \<Rightarrow> bool) \<Rightarrow> (job \<Rightarrow> job) \<Rightarrow> admin_db \<Rightarrow> admin_db" where
  "update_jobs p f db = db\<lparr>db_jobs := map (\<lambda>j. if p j then f j else j) (db_jobs db)\<rparr>"

definition update_holds :: "(hold \<Rightarrow> bool) \<Rightarrow> (hold \<Rightarrow> hold) \<Rightarrow> admin_db \<Rightarrow> admin_db" where
  "update_holds p f db = db\<lparr>db_holds := map (\<lambda>h. if p h then f h else h) (db_holds db)\<rparr>"

definition add_result :: "job_result \<Rightarrow> admin_db \<Rightarrow> admin_db" where
  "add_result r db = db\<lparr>db_results := db_results db @ [r]\<rparr>"

definition add_event :: "event \<Rightarrow> admin_db \<Rightarrow> admin_db" where
  "add_event e db = db\<lparr>db_events := db_events db @ [e]\<rparr>"

definition job_event :: "string \<Rightarrow> job \<Rightarrow> real \<Rightarrow> event" where
  "job_event ty j now =
     \<lparr>ev_type = ty, ev_job_id = Some (job_id j), ev_execution_id = None, ev_trace_id = None,
      ev_actor_id = job_created_by j, ev_created_at = now\<rparr>"

section \<open>Enqueueing, cancelling\<close>

text \<open>A primary key that is taken raises \<open>IntegrityError\<close>, here \<open>None\<close>.\<close>

definition insert_job :: "job \<Rightarrow> admin_db \<Rightarrow> admin_db option" where
  "insert_job j db =
     (if find_job (job_id j) db = None then Some (db\<lparr>db_jobs := db_jobs db @ [j]\<rparr>) else None)"

definition new_job ::
  "string \<Rightarrow> job_kind \<Rightarrow> job_status \<Rightarrow> string \<Rightarrow> string \<Rightarrow> string option \<Rightarrow> (string, json) dict \<Rightarrow> real \<Rightarrow> job" where
  "new_job i kind status created_by actor_type execution_id payload now =
     \<lparr>job_id = i, job_kind = kind, job_status = status, job_actor_type = actor_type, job_error = None,
      job_execution_id = execution_id, job_visible_at = None, job_attempts = 0, job_payload = payload,
      job_created_by = created_by, job_created_at = now\<rparr>"

definition enqueue_job ::
  "string \<Rightarrow> job_kind \<Rightarrow> string \<Rightarrow> string \<Rightarrow> string option \<Rightarrow> (string, json) dict \<Rightarrow> real \<Rightarrow> admin_db \<Rightarrow> admin_db option" where
  "enqueue_job i kind created_by actor_type execution_id payload now db =
     insert_job (new_job i kind Job_Queued created_by actor_type execution_id payload now) db"

text \<open>\<open>JobRepository.transition\<close>: whether a row matched.\<close>

definition transition :: "string \<Rightarrow> job_status \<Rightarrow> job_status \<Rightarrow> admin_db \<Rightarrow> bool \<times> admin_db" where
  "transition i from_status to_status db =
     (let p = (\<lambda>j. job_id j = i \<and> job_status j = from_status) in
      (list_ex p (db_jobs db), update_jobs p (\<lambda>j. j\<lparr>job_status := to_status, job_visible_at := None\<rparr>) db))"

definition cancel_if_active :: "string \<Rightarrow> admin_db \<Rightarrow> admin_db" where
  "cancel_if_active i db =
     update_jobs (\<lambda>j. job_id j = i \<and> job_status j \<in> {Job_Queued, Job_Running, Job_Held})
       (\<lambda>j. j\<lparr>job_status := Job_Cancelled\<rparr>) db"

datatype cancel_error = Job_Not_Found | Job_Awaiting_Approval

text \<open>\<open>JobService.cancel\<close> of a visible job: a held execution settles only through its hold.\<close>

definition cancel_job :: "string \<Rightarrow> admin_db \<Rightarrow> (cancel_error, unit) result \<times> admin_db" where
  "cancel_job i db =
     (case find_job i db of
        None \<Rightarrow> (Inl Job_Not_Found, db)
      | Some j \<Rightarrow>
          if job_status j = Job_Held \<and> job_kind j = Kind_Execution then (Inl Job_Awaiting_Approval, db)
          else (Inr (), cancel_if_active i db))"

definition cancel_active_for_actor :: "string \<Rightarrow> admin_db \<Rightarrow> admin_db" where
  "cancel_active_for_actor actor db =
     update_jobs (\<lambda>j. job_created_by j = actor \<and> job_status j \<in> {Job_Queued, Job_Running})
       (\<lambda>j. j\<lparr>job_status := Job_Cancelled, job_visible_at := None\<rparr>) db"

definition cancel_queued_executions_for_actor :: "string \<Rightarrow> admin_db \<Rightarrow> admin_db" where
  "cancel_queued_executions_for_actor actor db =
     update_jobs (\<lambda>j. job_created_by j = actor \<and> job_kind j = Kind_Execution \<and> job_status j = Job_Queued)
       (\<lambda>j. j\<lparr>job_status := Job_Cancelled, job_visible_at := None\<rparr>) db"

section \<open>Claiming\<close>

record worker_config =
  wc_kinds :: "job_kind list"
  wc_visibility_timeout :: real
  wc_max_attempts :: nat
  wc_backoff_base :: real
  wc_backoff_max :: real
  wc_retention :: real

text \<open>
  \<open>RUNNING\<close> and past its visibility deadline means a dead worker; a NULL deadline compares as
  false.
\<close>

definition claimable :: "worker_config \<Rightarrow> real \<Rightarrow> job \<Rightarrow> bool" where
  "claimable W now j =
     (job_kind j \<in> set (wc_kinds W) \<and>
      (job_status j = Job_Queued \<and> (case job_visible_at j of None \<Rightarrow> True | Some t \<Rightarrow> t \<le> now) \<or>
       job_status j = Job_Running \<and> (case job_visible_at j of None \<Rightarrow> False | Some t \<Rightarrow> t < now)))"

definition claimed :: "worker_config \<Rightarrow> real \<Rightarrow> job \<Rightarrow> job" where
  "claimed W now j =
     j\<lparr>job_status := Job_Running, job_visible_at := Some (now + wc_visibility_timeout W),
       job_attempts := Suc (job_attempts j)\<rparr>"

definition claim_next :: "worker_config \<Rightarrow> real \<Rightarrow> admin_db \<Rightarrow> job option \<times> admin_db" where
  "claim_next W now db =
     (case find (claimable W now) (sort_key job_created_at (db_jobs db)) of
        None \<Rightarrow> (None, db)
      | Some j \<Rightarrow> (Some (claimed W now j), update_jobs (\<lambda>k. job_id k = job_id j) (claimed W now) db))"

section \<open>Refusing a second run\<close>

definition approved_hold :: "string \<Rightarrow> admin_db \<Rightarrow> hold option" where
  "approved_hold i db = find (\<lambda>h. hold_job_id h = i \<and> hold_state h = Hold_Approved) (db_holds db)"

definition dispatched_key :: string where "dispatched_key = ''_dispatched''"

definition max_tracked_dispatched :: nat where "max_tracked_dispatched = 1024"

text \<open>The loop's own memory of dispatched jobs, oldest first.\<close>

definition track_dispatched :: "string \<Rightarrow> string list \<Rightarrow> string list" where
  "track_dispatched i tracked =
     (let tracked = removeAll i tracked in
      (if max_tracked_dispatched \<le> length tracked then tl tracked else tracked) @ [i])"

text \<open>
  \<open>job.execution_id or payload.get("execution_id") or f"exec_{job.id}"\<close>, when it is a string.
\<close>

definition run_execution_id :: "job \<Rightarrow> string option" where
  "run_execution_id j =
     (case job_execution_id j of
        Some (c # cs) \<Rightarrow> Some (c # cs)
      | _ \<Rightarrow>
          (if json_truthy (dict_get (job_payload j) ''execution_id'') then
             (case dict_get (job_payload j) ''execution_id'' of Some (JStr x) \<Rightarrow> Some x | _ \<Rightarrow> None)
           else Some (''exec_'' @ job_id j)))"

text \<open>\<open>^[0-9a-f]{32}$\<close> (\<open>$\<close> also matches before a final newline), but not all zeros.\<close>

definition hex_lower :: "char \<Rightarrow> bool" where
  "hex_lower c = (let n = char_code c in 48 \<le> n \<and> n \<le> 57 \<or> 97 \<le> n \<and> n \<le> 102)"

definition valid_trace_id :: "string \<Rightarrow> bool" where
  "valid_trace_id t =
     (32 \<le> length t \<and> list_all hex_lower (take 32 t) \<and> drop 32 t \<in> {[], [char_of (10::nat)]} \<and>
      t \<noteq> replicate 32 (CHR ''0''))"

definition payload_trace_id :: "job \<Rightarrow> string option" where
  "payload_trace_id j =
     (case dict_get (job_payload j) ''trace_id'' of
        Some (JStr t) \<Rightarrow> if valid_trace_id t then Some t else None
      | Some (JInt n) \<Rightarrow> if valid_trace_id (str_of_int n) then Some (str_of_int n) else None
      | _ \<Rightarrow> None)"

definition has_execution_dispatched :: "string list \<Rightarrow> job \<Rightarrow> admin_db \<Rightarrow> bool" where
  "has_execution_dispatched tracked j db =
     (dict_get (job_payload j) dispatched_key = Some (JBool True) \<or> job_id j \<in> set tracked \<or>
      (let x = run_execution_id j in
       (x \<noteq> None \<and> the x \<in> set (db_records db)) \<or>
       list_ex (\<lambda>e. ev_job_id e = Some (job_id j) \<or> (x \<noteq> None \<and> ev_execution_id e = x) \<or>
           (case payload_trace_id j of
              None \<Rightarrow> False
            | Some t \<Rightarrow> ev_trace_id e = Some t \<and> ev_type e = ''credential.accessed'' \<and>
                (job_created_by j \<noteq> [] \<longrightarrow> ev_actor_id e = job_created_by j) \<and> job_created_at j \<le> ev_created_at e))
         (db_events db)))"

text \<open>
  \<open>_refuse_approved_reclaim\<close>: whether the claim (the row as it was returned) ends here. The row is
  locked for the transaction. The result body of a refused approved run is \<open>resume_problem\<close>.
\<close>

definition problem_content_type :: string where "problem_content_type = ''application/problem+json''"

definition approval_problem ::
  "string \<Rightarrow> string \<Rightarrow> string \<Rightarrow> (string \<times> string) option \<Rightarrow> (string, json) dict" where
  "approval_problem type title detail held =
     [(''type'', JStr type), (''title'', JStr title), (''status'', JInt 403), (''detail'', JStr detail),
      (''error_origin'', JStr ''broker'')] @
     (case held of None \<Rightarrow> [] | Some (i, state) \<Rightarrow>
        [(''held_execution'', JObj [(''id'', JStr i), (''state'', JStr state)])])"

definition approval_resume_failed_problem :: "string \<Rightarrow> (string, json) dict" where
  "approval_resume_failed_problem i =
     dict_set ''status'' (JInt 409)
       (approval_problem ''approval_resume_failed'' ''Approved execution could not resume''
          ''The worker running this approved execution stopped mid-run; it is not re-run''
          (Some (i, ''approved'')))"

definition fail_row :: "string \<Rightarrow> job \<Rightarrow> job" where
  "fail_row reason j = j\<lparr>job_status := Job_Failed, job_error := Some reason, job_visible_at := None\<rparr>"

definition refuse_approved_reclaim ::
  "worker_config \<Rightarrow> string list \<Rightarrow> job \<Rightarrow> real \<Rightarrow> admin_db \<Rightarrow> bool \<times> admin_db" where
  "refuse_approved_reclaim W tracked task now db =
     (if job_kind task \<noteq> Kind_Execution \<or> job_attempts task \<le> 1 then (False, db)
      else (case find_job (job_id task) db of
        None \<Rightarrow> (True, db)
      | Some j \<Rightarrow>
          if job_status j \<noteq> Job_Running \<or> job_attempts j \<noteq> job_attempts task then (True, db)
          else (case approved_hold (job_id task) db of
            Some h \<Rightarrow>
              (True, add_result \<lparr>res_job_id = job_id task, res_kind = job_kind task,
                   res_body = approval_resume_failed_problem (hold_id h),
                   res_content_type = Some problem_content_type,
                   res_available_until = Some (now + wc_retention W)\<rparr>
                 (update_jobs (\<lambda>k. job_id k = job_id task)
                   (fail_row ''approved execution interrupted; not re-run'') db))
          | None \<Rightarrow>
              if has_execution_dispatched tracked j db then
                (True, update_jobs (\<lambda>k. job_id k = job_id task)
                   (fail_row ''execution interrupted after dispatch; not re-run'') db)
              else (False, db))))"

section \<open>Recording an outcome\<close>

definition set_execution_id_for_job :: "string \<Rightarrow> string \<Rightarrow> admin_db \<Rightarrow> admin_db" where
  "set_execution_id_for_job i execution_id db =
     update_holds (\<lambda>h. hold_job_id h = i \<and> hold_state h = Hold_Approved)
       (\<lambda>h. h\<lparr>hold_execution_id := Some execution_id\<rparr>) db"

text \<open>\<open>_complete_job\<close>: the body and content type are the handler's.\<close>

definition complete_job ::
  "worker_config \<Rightarrow> string \<Rightarrow> job_kind \<Rightarrow> (string, json) dict \<Rightarrow> string option \<Rightarrow> real \<Rightarrow> admin_db \<Rightarrow> admin_db" where
  "complete_job W i kind body content_type now db =
     (case find_job i db of
        None \<Rightarrow> db
      | Some j \<Rightarrow>
          if job_status j \<noteq> Job_Running then db
          else
            (let approved = (kind = Kind_Execution \<and> approved_hold i db \<noteq> None);
                 status = (if approved \<and> dict_get body ''status'' = Some (JStr ''failed'') then Job_Failed else Job_Completed);
                 db = update_jobs (\<lambda>k. job_id k = i) (\<lambda>k. k\<lparr>job_status := status, job_visible_at := None, job_error := None\<rparr>) db;
                 db = (case dict_get body ''execution_id'' of
                         Some (JStr (c # cs)) \<Rightarrow> if approved then set_execution_id_for_job i (c # cs) db else db
                       | _ \<Rightarrow> db);
                 db = add_result \<lparr>res_job_id = i, res_kind = kind, res_body = body, res_content_type = content_type,
                   res_available_until = (if approved then Some (now + wc_retention W) else None)\<rparr> db in
             if kind = Kind_Import then add_event (job_event ''import.completed'' j now) db else db))"

text \<open>The message a row keeps: \<open>error[:128] if error else None\<close>.\<close>

definition error_max_len :: nat where "error_max_len = 128"

definition terminal_job ::
  "string \<Rightarrow> job_status \<Rightarrow> string \<Rightarrow> nat option \<Rightarrow> string option \<Rightarrow> real \<Rightarrow> admin_db \<Rightarrow> bool \<times> admin_db" where
  "terminal_job i status err claim_attempts event_type now db =
     (case find_job i db of
        None \<Rightarrow> (False, db)
      | Some j \<Rightarrow>
          if claim_attempts \<noteq> None \<and> (job_status j \<noteq> Job_Running \<or> Some (job_attempts j) \<noteq> claim_attempts)
          then (False, db)
          else
            (let ty = (case event_type of Some t \<Rightarrow> t
                       | None \<Rightarrow> if status = Job_Dead_Letter then ''job.failed_permanently'' else ''import.failed'') in
             (True, add_event (job_event ty j now)
                (update_jobs (\<lambda>k. job_id k = i) (\<lambda>k. k\<lparr>job_status := status,
                   job_error := (if err = [] then None else Some (take error_max_len err)), job_visible_at := None\<rparr>) db))))"

definition backoff_s :: "worker_config \<Rightarrow> nat \<Rightarrow> real" where
  "backoff_s W attempts = min (wc_backoff_base W * 2 ^ (attempts - 1)) (wc_backoff_max W)"

definition handle_failure :: "worker_config \<Rightarrow> job \<Rightarrow> string \<Rightarrow> real \<Rightarrow> admin_db \<Rightarrow> admin_db" where
  "handle_failure W task err now db =
     (if job_kind task = Kind_Execution \<and> approved_hold (job_id task) db \<noteq> None then
        snd (terminal_job (job_id task) Job_Failed err (Some (job_attempts task)) None now db)
      else if wc_max_attempts W \<le> job_attempts task then
        snd (terminal_job (job_id task) Job_Dead_Letter err (Some (job_attempts task)) None now db)
      else
        update_jobs (\<lambda>j. job_id j = job_id task \<and> job_status j = Job_Running \<and> job_attempts j = job_attempts task)
          (\<lambda>j. j\<lparr>job_status := Job_Queued, job_error := Some (take error_max_len err),
             job_visible_at := Some (now + backoff_s W (job_attempts task))\<rparr>) db)"

definition fail_claimed_job :: "job \<Rightarrow> string \<Rightarrow> real \<Rightarrow> admin_db \<Rightarrow> admin_db" where
  "fail_claimed_job task err now db =
     snd (terminal_job (job_id task) Job_Failed err (Some (job_attempts task))
       (Some (if job_kind task = Kind_Import then ''import.failed'' else ''job.failed_permanently'')) now db)"

definition fail_job :: "string \<Rightarrow> string \<Rightarrow> real \<Rightarrow> admin_db \<Rightarrow> admin_db" where
  "fail_job i err now db = snd (terminal_job i Job_Failed err None None now db)"

text \<open>\<open>_mark_dispatched_best_effort\<close>, when its write goes through.\<close>

definition mark_dispatched :: "job \<Rightarrow> admin_db \<Rightarrow> admin_db" where
  "mark_dispatched task db =
     (if job_kind task \<noteq> Kind_Execution \<or> dict_get (job_payload task) dispatched_key = Some (JBool True) then db
      else update_jobs (\<lambda>j. job_id j = job_id task \<and> job_status j = Job_Running \<and> job_attempts j = job_attempts task)
        (\<lambda>j. j\<lparr>job_payload := dict_set dispatched_key (JBool True) (job_payload task)\<rparr>) db)"

end
