(* ===== verification/Held_Executions.thy ===== *)
theory Held_Executions
  imports Job_Queue Credential_Scope Injection Url_Path "HOL-Library.Product_Lexorder"
begin

text \<open>
  Calls held for human approval: \<open>shared/jobs/hold.py\<close> (filing, expiry, withdrawal),
  \<open>admin/services/held_execution_service.py\<close> and \<open>admin/repos/held_execution_repo.py\<close> (the decision).
  Each operation is one transaction of the admin database, serialised as the code arranges it
  (a per-agent lock, row locks, \<open>BEGIN IMMEDIATE\<close>); an error rolls it back. Identifiers a
  transaction generates are arguments. Request bodies are ASCII and hold no float literals; SHA-256
  is the parameter \<open>hash\<close>. Audit entries and events of the approval surface are left out.
\<close>

section \<open>The fingerprint\<close>

definition utf8_str :: "string \<Rightarrow> string" where
  "utf8_str s = map char_of (utf8 s)"

text \<open>\<open>json.dumps(sort_keys=True, separators=(",", ":"), ensure_ascii=False).encode()\<close>.\<close>

definition json_quote_plain :: "string \<Rightarrow> string" where
  "json_quote_plain s =
     quote_char # concat (map (\<lambda>c. if c = quote_char \<or> c = backslash_char \<or> char_code c < 32
                                   then json_escape c else utf8_str [c]) s) @ [quote_char]"

fun json_dumps_sorted :: "json \<Rightarrow> string" where
  "json_dumps_sorted (JStr s) = json_quote_plain s"
| "json_dumps_sorted (JList vs) = CHR ''['' # join_with (CHR '','') (map json_dumps_sorted vs) @ '']''"
| "json_dumps_sorted (JObj ms) =
     CHR ''{'' # join_with (CHR '','') (map snd (sort_key fst
       (map (\<lambda>(k, v). (str_key k, json_quote_plain k @ CHR '':'' # json_dumps_sorted v)) ms))) @ ''}''"
| "json_dumps_sorted v = json_dumps v"

definition canonical_body :: "string option \<Rightarrow> string" where
  "canonical_body body =
     (case body of
        None \<Rightarrow> []
      | Some b \<Rightarrow>
          if b = [] then []
          else (case json_loads b of None \<Rightarrow> b | Some v \<Rightarrow> json_dumps_sorted v))"

text \<open>\<open>parse_qsl(query, keep_blank_values=True)\<close>.\<close>

definition form_unquote :: "string \<Rightarrow> string" where
  "form_unquote s = unquote (map (\<lambda>c. if c = CHR ''+'' then CHR '' '' else c) s)"

definition parse_qsl :: "string \<Rightarrow> (string \<times> string) list" where
  "parse_qsl query =
     map (\<lambda>field. let (name, _, val) = partition_at (CHR ''='') field in (form_unquote name, form_unquote val))
       (filter (\<lambda>field. field \<noteq> []) (split_on (CHR ''&'') query))"

definition canonical_query :: "string \<Rightarrow> string" where
  "canonical_query query =
     (if query = [] then []
      else urlencode (sort_key (\<lambda>(k, v). (str_key k, str_key v)) (parse_qsl query)))"

abbreviation nul_char :: char where "nul_char \<equiv> char_of (0 :: nat)"

definition compute_execution_fingerprint ::
  "(string \<Rightarrow> string) \<Rightarrow> string \<Rightarrow> string \<Rightarrow> string \<Rightarrow> string \<Rightarrow> string \<Rightarrow> string option \<Rightarrow> string" where
  "compute_execution_fingerprint hash agent credential meth path query body =
     hash (concat (map (\<lambda>part. utf8_str part @ [nul_char])
       [agent, credential, str_upper meth, path, canonical_query query]) @ canonical_body body)"

section \<open>Filing\<close>

record hold_request =
  hr_agent :: string
  hr_actor_type :: string
  hr_credential :: string
  hr_matched_rule :: "string option"
  hr_api :: "string \<times> string \<times> string"
  hr_operation :: "string option"
  hr_method :: string
  hr_path :: string
  hr_query :: string
  hr_body :: "string option"
  hr_trace_id :: "string option"
  hr_execution_id :: string
  hr_payload :: "(string, json) dict"
  hr_ttl :: real
  hr_max_pending :: nat

record hold_outcome =
  ho_job_id :: string
  ho_hold_id :: string
  ho_expires_at :: real
  ho_execution_id :: "string option"
  ho_joined :: bool

datatype hold_error =
    Pending_Limit nat nat
  | Integrity_Error
  | Hold_Forbidden
  | Hold_Not_Found
  | Hold_Already_Decided hold_state
  | Hold_Job_Not_Held

definition request_fingerprint :: "(string \<Rightarrow> string) \<Rightarrow> hold_request \<Rightarrow> string" where
  "request_fingerprint hash r =
     compute_execution_fingerprint hash (hr_agent r) (hr_credential r) (hr_method r) (hr_path r) (hr_query r) (hr_body r)"

definition pending_by_fingerprint :: "string \<Rightarrow> admin_db \<Rightarrow> hold option" where
  "pending_by_fingerprint fp db =
     find (\<lambda>h. hold_fingerprint h = fp \<and> hold_state h = Hold_Pending) (db_holds db)"

definition pending_of_agent :: "string \<Rightarrow> hold \<Rightarrow> bool" where
  "pending_of_agent agent h = (hold_agent_id h = agent \<and> hold_state h = Hold_Pending)"

definition count_pending_by_agent :: "string \<Rightarrow> admin_db \<Rightarrow> nat" where
  "count_pending_by_agent agent db = length (filter (pending_of_agent agent) (db_holds db))"

definition joined_outcome :: "hold \<Rightarrow> admin_db \<Rightarrow> hold_outcome" where
  "joined_outcome h db =
     \<lparr>ho_job_id = hold_job_id h, ho_hold_id = hold_id h, ho_expires_at = hold_expires_at h,
      ho_execution_id = (case find_job (hold_job_id h) db of None \<Rightarrow> None | Some j \<Rightarrow> job_execution_id j),
      ho_joined = True\<rparr>"

text \<open>The primary key and the partial unique index on pending fingerprints.\<close>

definition insert_hold :: "hold \<Rightarrow> admin_db \<Rightarrow> admin_db option" where
  "insert_hold h db =
     (if list_ex (\<lambda>k. hold_id k = hold_id h) (db_holds db) \<or> pending_by_fingerprint (hold_fingerprint h) db \<noteq> None
      then None else Some (db\<lparr>db_holds := db_holds db @ [h]\<rparr>))"

definition new_hold :: "hold_request \<Rightarrow> string \<Rightarrow> string \<Rightarrow> string \<Rightarrow> real \<Rightarrow> hold" where
  "new_hold r fp i jid expires =
     \<lparr>hold_id = i, hold_job_id = jid, hold_agent_id = hr_agent r, hold_credential_id = hr_credential r,
      hold_api = hr_api r, hold_operation_id = hr_operation r, hold_method = str_upper (hr_method r),
      hold_path = hr_path r, hold_fingerprint = fp, hold_matched_rule = hr_matched_rule r,
      hold_state = Hold_Pending, hold_expires_at = expires, hold_decided_at = None, hold_decided_by = None,
      hold_reason = None, hold_trace_id = hr_trace_id r, hold_execution_id = None, hold_created_by = hr_agent r\<rparr>"

definition file_hold ::
  "(string \<Rightarrow> string) \<Rightarrow> hold_request \<Rightarrow> string \<Rightarrow> string \<Rightarrow> real \<Rightarrow> admin_db \<Rightarrow> (hold_error, hold_outcome) result \<times> admin_db" where
  "file_hold hash r jid hid now db =
     (let fp = request_fingerprint hash r in
      case pending_by_fingerprint fp db of
        Some h \<Rightarrow> (Inr (joined_outcome h db), db)
      | None \<Rightarrow>
          (let pending = count_pending_by_agent (hr_agent r) db in
           if hr_max_pending r \<le> pending then (Inl (Pending_Limit pending (hr_max_pending r)), db)
           else
             (let expires = now + hr_ttl r;
                  j = new_job jid Kind_Execution Job_Held (hr_agent r) (hr_actor_type r)
                        (Some (hr_execution_id r)) (hr_payload r) now in
              case Option.bind (insert_job j db) (insert_hold (new_hold r fp hid jid expires)) of
                Some db' \<Rightarrow>
                  (Inr \<lparr>ho_job_id = jid, ho_hold_id = hid, ho_expires_at = expires,
                        ho_execution_id = Some (hr_execution_id r), ho_joined = False\<rparr>, db')
              | None \<Rightarrow>
                  (case pending_by_fingerprint fp db of
                     None \<Rightarrow> (Inl Integrity_Error, db)
                   | Some h \<Rightarrow> (Inr (joined_outcome h db), db)))))"

section \<open>Results of calls that did not run\<close>

definition state_value :: "hold_state \<Rightarrow> string" where
  "state_value s =
     (case s of Hold_Pending \<Rightarrow> ''pending'' | Hold_Approved \<Rightarrow> ''approved'' | Hold_Denied \<Rightarrow> ''denied''
      | Hold_Expired \<Rightarrow> ''expired'' | Hold_Withdrawn \<Rightarrow> ''withdrawn'')"

definition approval_denied_problem :: "string \<Rightarrow> string option \<Rightarrow> (string, json) dict" where
  "approval_denied_problem i reason =
     approval_problem ''approval_denied'' ''Execution approval denied''
       (''A reviewer denied this held execution'' @
        (case reason of Some (c # cs) \<Rightarrow> '': '' @ c # cs | _ \<Rightarrow> []))
       (Some (i, state_value Hold_Denied))"

definition approval_expired_problem :: "string \<Rightarrow> (string, json) dict" where
  "approval_expired_problem i =
     approval_problem ''approval_expired'' ''Execution approval expired''
       ''No reviewer decided this held execution before its approval expired''
       (Some (i, state_value Hold_Expired))"

definition approval_required_problem :: "string \<Rightarrow> (string, json) dict" where
  "approval_required_problem inst =
     dict_set ''instance'' (JStr inst)
       (approval_problem ''approval_required'' ''Execution approval required''
          ''A permission rule requires approval for this call and the job carries none'' None)"

definition fail_held_job :: "string \<Rightarrow> (string, json) dict \<Rightarrow> string \<Rightarrow> admin_db \<Rightarrow> admin_db" where
  "fail_held_job i problem err db =
     (let p = (\<lambda>j. job_id j = i \<and> job_status j = Job_Held) in
      if list_ex p (db_jobs db) then
        add_result \<lparr>res_job_id = i, res_kind = Kind_Execution, res_body = problem,
            res_content_type = Some problem_content_type, res_available_until = None\<rparr>
          (update_jobs p (fail_row err) db)
      else db)"

section \<open>Settling a hold\<close>

text \<open>
  \<open>HeldExecutionService.decide\<close>: \<open>visible\<close> is the reviewer's access filter. The compare-and-set takes a
  pending, unexpired hold; the job must still be held, or the decision rolls back.
\<close>

definition decide_row :: "hold_state \<Rightarrow> string \<Rightarrow> string option \<Rightarrow> real \<Rightarrow> hold \<Rightarrow> hold" where
  "decide_row s by_whom reason now h =
     h\<lparr>hold_state := s, hold_decided_at := Some now, hold_decided_by := Some by_whom, hold_reason := reason\<rparr>"

definition decide_hold ::
  "(hold \<Rightarrow> bool) \<Rightarrow> bool \<Rightarrow> string \<Rightarrow> string \<Rightarrow> bool \<Rightarrow> string option \<Rightarrow> real \<Rightarrow> admin_db
     \<Rightarrow> (hold_error, unit) result \<times> admin_db" where
  "decide_hold visible is_agent reviewer i approve reason now db =
     (if is_agent then (Inl Hold_Forbidden, db)
      else (case find (\<lambda>h. hold_id h = i) (db_holds db) of
        None \<Rightarrow> (Inl Hold_Not_Found, db)
      | Some h \<Rightarrow>
          if \<not> visible h then (Inl Hold_Not_Found, db)
          else if \<not> (hold_state h = Hold_Pending \<and> now < hold_expires_at h) then
            (Inl (Hold_Already_Decided (if hold_state h = Hold_Pending then Hold_Expired else hold_state h)), db)
          else
            (let db1 = update_holds (\<lambda>k. hold_id k = i)
                         (decide_row (if approve then Hold_Approved else Hold_Denied) reviewer reason now) db;
                 (moved, db2) = transition (hold_job_id h) Job_Held (if approve then Job_Queued else Job_Failed) db1 in
             if \<not> moved then (Inl Hold_Job_Not_Held, db)
             else if approve then (Inr (), db2)
             else (Inr (),
               add_result \<lparr>res_job_id = hold_job_id h, res_kind = Kind_Execution,
                   res_body = approval_denied_problem i reason, res_content_type = Some problem_content_type,
                   res_available_until = None\<rparr>
                 (update_jobs (\<lambda>j. job_id j = hold_job_id h) (\<lambda>j. j\<lparr>job_error := Some ''approval denied''\<rparr>) db2)))))"

definition settle_row :: "hold_state \<Rightarrow> string option \<Rightarrow> real \<Rightarrow> hold \<Rightarrow> hold" where
  "settle_row s by_whom now h = h\<lparr>hold_state := s, hold_decided_at := Some now, hold_decided_by := by_whom\<rparr>"

definition withdraw_hold :: "string \<Rightarrow> string \<Rightarrow> real \<Rightarrow> admin_db \<Rightarrow> (hold_error, unit) result \<times> admin_db" where
  "withdraw_hold caller i now db =
     (case find (\<lambda>h. hold_id h = i) (db_holds db) of
        None \<Rightarrow> (Inl Hold_Not_Found, db)
      | Some h \<Rightarrow>
          if hold_created_by h \<noteq> caller then (Inl Hold_Not_Found, db)
          else if hold_state h \<noteq> Hold_Pending then (Inl (Hold_Already_Decided (hold_state h)), db)
          else
            (let db1 = update_holds (\<lambda>k. hold_id k = i) (settle_row Hold_Withdrawn (Some caller) now) db;
                 (moved, db2) = transition (hold_job_id h) Job_Held Job_Cancelled db1 in
             if moved then (Inr (), db2) else (Inl Hold_Job_Not_Held, db)))"

text \<open>The sweep: every lapsed hold in one update, then its job.\<close>

definition lapsed :: "real \<Rightarrow> hold \<Rightarrow> bool" where
  "lapsed now h = (hold_state h = Hold_Pending \<and> hold_expires_at h \<le> now)"

definition expire_lapsed_approvals :: "real \<Rightarrow> admin_db \<Rightarrow> nat \<times> admin_db" where
  "expire_lapsed_approvals now db =
     (let expired = filter (lapsed now) (db_holds db);
          db = update_holds (lapsed now)
                 (\<lambda>h. h\<lparr>hold_state := Hold_Expired, hold_decided_at := Some now\<rparr>) db in
      (length expired,
       foldl (\<lambda>db h. fail_held_job (hold_job_id h) (approval_expired_problem (hold_id h)) ''approval expired'' db)
         db expired))"

text \<open>An archived agent's held calls.\<close>

definition withdraw_pending_for_agent :: "string \<Rightarrow> string \<Rightarrow> real \<Rightarrow> admin_db \<Rightarrow> nat \<times> admin_db" where
  "withdraw_pending_for_agent agent actor now db =
     (let withdrawn = filter (pending_of_agent agent) (db_holds db);
          db = update_holds (pending_of_agent agent) (settle_row Hold_Withdrawn (Some actor) now) db in
      (length withdrawn,
       foldl (\<lambda>db h. snd (transition (hold_job_id h) Job_Held Job_Cancelled db)) db withdrawn))"

end
