(* ===== verification/Hold_Invariant.thy ===== *)
theory Hold_Invariant
  imports Held_Executions
begin

text \<open>
  The invariant that ties the rows of the job queue to those of the approvals, and its
  preservation by every transaction: a hold is pending exactly while its job is held, a hold that
  was denied, expired or withdrawn has a settled job that was never claimed, an agent's pending
  holds stay within the cap, and pending fingerprints are unique. Every transaction but an insertion
  rewrites rows pointwise, so one lemma covers them.
\<close>

section \<open>The invariant\<close>

definition settled :: "job \<Rightarrow> bool" where
  "settled j = (job_status j \<in> {Job_Completed, Job_Failed, Job_Cancelled, Job_Dead_Letter})"

definition pair_ok :: "hold \<Rightarrow> job \<Rightarrow> bool" where
  "pair_ok h j =
     (job_kind j = Kind_Execution \<and>
      (case hold_state h of
         Hold_Pending \<Rightarrow> job_status j = Job_Held \<and> job_attempts j = 0
       | Hold_Approved \<Rightarrow> job_status j \<noteq> Job_Held
       | _ \<Rightarrow> settled j \<and> job_attempts j = 0))"

definition hold_inv :: "nat \<Rightarrow> admin_db \<Rightarrow> bool" where
  "hold_inv cap db =
     (distinct (map job_id (db_jobs db)) \<and> distinct (map hold_id (db_holds db)) \<and>
      distinct (map hold_job_id (db_holds db)) \<and>
      distinct (map hold_fingerprint (filter (\<lambda>h. hold_state h = Hold_Pending) (db_holds db))) \<and>
      (\<forall>h\<in>set (db_holds db). \<exists>j\<in>set (db_jobs db). job_id j = hold_job_id h) \<and>
      (\<forall>h\<in>set (db_holds db). \<forall>j\<in>set (db_jobs db). job_id j = hold_job_id h \<longrightarrow> pair_ok h j) \<and>
      (\<forall>j\<in>set (db_jobs db). job_status j = Job_Held \<longrightarrow> (\<exists>h\<in>set (db_holds db). hold_job_id h = job_id j)) \<and>
      (\<forall>agent. count_pending_by_agent agent db \<le> cap))"

lemma hold_invD:
  assumes "hold_inv cap db"
  shows "distinct (map job_id (db_jobs db))" "distinct (map hold_id (db_holds db))"
    "distinct (map hold_job_id (db_holds db))"
    "distinct (map hold_fingerprint (filter (\<lambda>h. hold_state h = Hold_Pending) (db_holds db)))"
    "\<And>h. h \<in> set (db_holds db) \<Longrightarrow> \<exists>j\<in>set (db_jobs db). job_id j = hold_job_id h"
    "\<And>h j. h \<in> set (db_holds db) \<Longrightarrow> j \<in> set (db_jobs db) \<Longrightarrow> job_id j = hold_job_id h \<Longrightarrow> pair_ok h j"
    "\<And>j. j \<in> set (db_jobs db) \<Longrightarrow> job_status j = Job_Held \<Longrightarrow> \<exists>h\<in>set (db_holds db). hold_job_id h = job_id j"
    "\<And>agent. count_pending_by_agent agent db \<le> cap"
  using assms unfolding hold_inv_def by blast+

section \<open>Rewriting rows\<close>

text \<open>What a rewrite of rows may never touch, and what it must keep of each pair.\<close>

definition keeps_job_key :: "(job \<Rightarrow> job) \<Rightarrow> bool" where
  "keeps_job_key f = (\<forall>j. job_id (f j) = job_id j \<and> job_kind (f j) = job_kind j \<and> job_attempts j \<le> job_attempts (f j))"

definition keeps_hold_key :: "(hold \<Rightarrow> hold) \<Rightarrow> bool" where
  "keeps_hold_key g =
     (\<forall>h. hold_id (g h) = hold_id h \<and> hold_job_id (g h) = hold_job_id h \<and> hold_agent_id (g h) = hold_agent_id h \<and>
        hold_fingerprint (g h) = hold_fingerprint h \<and> (hold_state (g h) = Hold_Pending \<longrightarrow> hold_state h = Hold_Pending))"

lemma length_filter_mono: "(\<And>x. p x \<Longrightarrow> q x) \<Longrightarrow> length (filter p xs) \<le> length (filter q xs)"
  by (induction xs) (auto intro: le_SucI)

lemma distinct_filter_image:
  "distinct (map f (filter q xs)) \<Longrightarrow> (\<And>x. p (g x) \<Longrightarrow> q x) \<Longrightarrow> (\<And>x. f (g x) = f x) \<Longrightarrow>
   distinct (map f (filter p (map g xs)))"
  by (induction xs) (auto split: if_splits)

lemma hold_inv_rewrite:
  assumes inv: "hold_inv cap db" and f: "keeps_job_key f" and g: "keeps_hold_key g"
    and pair: "\<And>h j. h \<in> set (db_holds db) \<Longrightarrow> j \<in> set (db_jobs db) \<Longrightarrow> job_id j = hold_job_id h \<Longrightarrow>
      pair_ok h j \<Longrightarrow> pair_ok (g h) (f j)"
    and held: "\<And>j. j \<in> set (db_jobs db) \<Longrightarrow> job_status (f j) = Job_Held \<Longrightarrow> job_status j = Job_Held"
    and jobs: "db_jobs db' = map f (db_jobs db)" and holds: "db_holds db' = map g (db_holds db)"
  shows "hold_inv cap db'"
proof -
  note I = hold_invD [OF inv]
  have ids: "map job_id (db_jobs db') = map job_id (db_jobs db)" "map hold_id (db_holds db') = map hold_id (db_holds db)"
    "map hold_job_id (db_holds db') = map hold_job_id (db_holds db)"
    using f g by (simp_all add: jobs holds keeps_job_key_def keeps_hold_key_def)
  have "count_pending_by_agent agent db' \<le> count_pending_by_agent agent db" for agent
    unfolding count_pending_by_agent_def holds filter_map length_map
    by (rule length_filter_mono) (use g in \<open>auto simp: pending_of_agent_def keeps_hold_key_def\<close>)
  then have cap: "count_pending_by_agent agent db' \<le> cap" for agent using I(8) le_trans by blast
  have fp: "distinct (map hold_fingerprint (filter (\<lambda>h. hold_state h = Hold_Pending) (db_holds db')))"
    unfolding holds by (rule distinct_filter_image [OF I(4)]) (use g in \<open>auto simp: keeps_hold_key_def\<close>)
  have "\<exists>j\<in>set (db_jobs db'). job_id j = hold_job_id h" if "h \<in> set (db_holds db')" for h
    using that I(5) f g by (fastforce simp: jobs holds keeps_job_key_def keeps_hold_key_def)
  moreover have "pair_ok h j" if "h \<in> set (db_holds db')" "j \<in> set (db_jobs db')" "job_id j = hold_job_id h" for h j
    using that I(6) pair f g by (auto simp: jobs holds keeps_job_key_def keeps_hold_key_def)
  moreover have "\<exists>h\<in>set (db_holds db'). hold_job_id h = job_id j"
    if "j \<in> set (db_jobs db')" "job_status j = Job_Held" for j
    using that I(7) held f g by (fastforce simp: jobs holds keeps_job_key_def keeps_hold_key_def)
  ultimately show ?thesis using cap fp I(1-3) unfolding hold_inv_def ids by blast
qed

text \<open>A rewrite of jobs alone: it leaves held jobs alone and never revives a settled one.\<close>

definition job_step :: "job \<Rightarrow> job \<Rightarrow> bool" where
  "job_step j k =
     (job_id k = job_id j \<and> job_kind k = job_kind j \<and> job_attempts j \<le> job_attempts k \<and>
      (k \<noteq> j \<longrightarrow> job_status j \<noteq> Job_Held \<and> job_status k \<noteq> Job_Held) \<and>
      (settled j \<longrightarrow> settled k \<and> job_attempts k = job_attempts j))"

lemma job_step_refl: "job_step j j"
  by (simp add: job_step_def)

lemma pair_ok_step: "pair_ok h j \<Longrightarrow> job_step j k \<Longrightarrow> pair_ok h k"
  by (cases "k = j"; cases "hold_state h") (auto simp: pair_ok_def job_step_def)

lemma pair_ok_same_state: "hold_state k = hold_state h \<Longrightarrow> pair_ok k j = pair_ok h j"
  by (simp add: pair_ok_def)

lemma hold_inv_jobs:
  assumes inv: "hold_inv cap db" and step: "\<And>j. j \<in> set (db_jobs db) \<Longrightarrow> job_step j (f j)"
    and jobs: "db_jobs db' = map f (db_jobs db)"
    and g: "keeps_hold_key g" "\<And>h. hold_state (g h) = hold_state h" and holds: "db_holds db' = map g (db_holds db)"
  shows "hold_inv cap db'"
proof -
  define f' where "f' j = (if j \<in> set (db_jobs db) then f j else j)" for j
  have "db_jobs db' = map f' (db_jobs db)" by (simp add: jobs f'_def)
  moreover have s: "job_step j (f' j)" for j using step by (simp add: f'_def job_step_refl)
  then have "keeps_job_key f'" by (simp add: keeps_job_key_def job_step_def)
  moreover have "pair_ok (g h) (f' j)" if "pair_ok h j" for h j
    using pair_ok_step [OF that s] pair_ok_same_state [OF g(2)] by blast
  moreover have "job_status j = Job_Held" if "job_status (f' j) = Job_Held" for j
    using s [of j] that by (auto simp: job_step_def)
  ultimately show ?thesis using hold_inv_rewrite [OF inv _ g(1) _ _ _ holds] by blast
qed

lemma keeps_hold_key_id: "keeps_hold_key (\<lambda>h. h)"
  by (simp add: keeps_hold_key_def)

lemma hold_inv_update_jobs:
  assumes "hold_inv cap db" "\<And>j. j \<in> set (db_jobs db) \<Longrightarrow> p j \<Longrightarrow> job_step j (f j)"
  shows "hold_inv cap (update_jobs p f db)"
  by (rule hold_inv_jobs [OF assms(1), where f = "\<lambda>j. if p j then f j else j" and g = "\<lambda>h. h"])
    (auto simp: update_jobs_def assms(2) job_step_refl keeps_hold_key_id)

lemma hold_inv_frame:
  assumes "hold_inv cap db" "db_jobs db' = db_jobs db" "db_holds db' = db_holds db"
  shows "hold_inv cap db'"
  using assms by (simp add: hold_inv_def count_pending_by_agent_def)

lemma add_result_frame [simp]: "db_jobs (add_result r db) = db_jobs db" "db_holds (add_result r db) = db_holds db"
  by (simp_all add: add_result_def)

lemma add_event_frame [simp]: "db_jobs (add_event e db) = db_jobs db" "db_holds (add_event e db) = db_holds db"
  by (simp_all add: add_event_def)

lemma hold_inv_add [simp]:
  "hold_inv cap (add_result r db) = hold_inv cap db" "hold_inv cap (add_event e db) = hold_inv cap db"
  by (simp_all add: hold_inv_def count_pending_by_agent_def)

lemma find_SomeD: "find p xs = Some x \<Longrightarrow> x \<in> set xs \<and> p x"
  by (auto simp: find_Some_iff)

lemma find_job_Some: "find_job i db = Some j \<Longrightarrow> j \<in> set (db_jobs db) \<and> job_id j = i"
  by (auto simp: find_job_def find_Some_iff)

lemma unique_job:
  "hold_inv cap db \<Longrightarrow> j \<in> set (db_jobs db) \<Longrightarrow> k \<in> set (db_jobs db) \<Longrightarrow> job_id j = job_id k \<Longrightarrow> j = k"
  using hold_invD(1) by (metis distinct_map inj_onD)

lemma unique_hold:
  "hold_inv cap db \<Longrightarrow> h \<in> set (db_holds db) \<Longrightarrow> k \<in> set (db_holds db) \<Longrightarrow> hold_job_id h = hold_job_id k \<Longrightarrow> h = k"
  using hold_invD(3) by (metis distinct_map inj_onD)

lemma unique_hold_id:
  "hold_inv cap db \<Longrightarrow> h \<in> set (db_holds db) \<Longrightarrow> k \<in> set (db_holds db) \<Longrightarrow> hold_id h = hold_id k \<Longrightarrow> h = k"
  using hold_invD(2) by (metis distinct_map inj_onD)

lemma held_unclaimed: "hold_inv cap db \<Longrightarrow> j \<in> set (db_jobs db) \<Longrightarrow> job_status j = Job_Held \<Longrightarrow> job_attempts j = 0"
proof -
  assume inv: "hold_inv cap db" and j: "j \<in> set (db_jobs db)" "job_status j = Job_Held"
  then obtain h where "h \<in> set (db_holds db)" "hold_job_id h = job_id j" using hold_invD(7) by blast
  with hold_invD(6) [OF inv _ j(1)] have "pair_ok h j" by metis
  with j(2) show ?thesis by (cases "hold_state h") (auto simp: pair_ok_def settled_def)
qed

section \<open>The queue's transactions\<close>

lemma job_fresh: "find_job i db = None \<longleftrightarrow> i \<notin> job_id ` set (db_jobs db)"
  by (auto simp: find_job_def find_None_iff)

lemma hold_inv_insert_job:
  assumes inv: "hold_inv cap db" and ins: "insert_job j db = Some db'" and st: "job_status j \<noteq> Job_Held"
  shows "hold_inv cap db'"
proof -
  from ins have db': "db' = db\<lparr>db_jobs := db_jobs db @ [j]\<rparr>" and fresh: "job_id j \<notin> job_id ` set (db_jobs db)"
    by (auto simp: insert_job_def job_fresh split: if_splits)
  have ne: "hold_job_id h \<noteq> job_id j" "job_id j \<noteq> hold_job_id h" if "h \<in> set (db_holds db)" for h
    using hold_invD(5) [OF inv that] fresh by (metis imageI)+
  show ?thesis using inv fresh st
    unfolding hold_inv_def db' count_pending_by_agent_def by (auto simp: ne)
qed

lemma enqueue_job_inv: "hold_inv cap db \<Longrightarrow> enqueue_job i k by_whom ty x pl now db = Some db' \<Longrightarrow> hold_inv cap db'"
  unfolding enqueue_job_def by (rule hold_inv_insert_job) (assumption, assumption, simp add: new_job_def)

lemma cancel_job_inv:
  assumes "hold_inv cap db" shows "hold_inv cap (snd (cancel_job i db))"
proof (cases "find_job i db")
  case (Some j)
  then have j: "j \<in> set (db_jobs db)" "job_id j = i" using find_job_Some by auto
  have kind: "job_status j = Job_Held \<Longrightarrow> job_kind j = Kind_Execution"
    using hold_invD(6,7) [OF assms] j(1) by (metis pair_ok_def)
  have "hold_inv cap (cancel_if_active i db)" if "job_status j \<noteq> Job_Held"
    unfolding cancel_if_active_def
  proof (rule hold_inv_update_jobs [OF assms])
    fix k assume k: "k \<in> set (db_jobs db)" "job_id k = i \<and> job_status k \<in> {Job_Queued, Job_Running, Job_Held}"
    with j that unique_job [OF assms] have "job_status k \<in> {Job_Queued, Job_Running}" by (metis insert_iff singletonD)
    then show "job_step k (k\<lparr>job_status := Job_Cancelled\<rparr>)" by (auto simp: job_step_def settled_def)
  qed
  with Some kind assms show ?thesis by (auto simp: cancel_job_def)
qed (simp add: cancel_job_def assms)

lemma cancel_for_actor_inv:
  assumes "hold_inv cap db"
  shows "hold_inv cap (cancel_active_for_actor actor db)"
    "hold_inv cap (cancel_queued_executions_for_actor actor db)"
  unfolding cancel_active_for_actor_def cancel_queued_executions_for_actor_def
  by (rule hold_inv_update_jobs [OF assms]; auto simp: job_step_def settled_def)+

lemma claim_next_Some:
  assumes "claim_next W now db = (Some t, db')"
  shows "\<exists>j\<in>set (db_jobs db). claimable W now j \<and> t = claimed W now j \<and>
    db' = update_jobs (\<lambda>k. job_id k = job_id j) (claimed W now) db"
proof -
  obtain j where "find (claimable W now) (sort_key job_created_at (db_jobs db)) = Some j"
    "t = claimed W now j" "db' = update_jobs (\<lambda>k. job_id k = job_id j) (claimed W now) db"
    using assms by (auto simp: claim_next_def split: option.splits)
  moreover from this(1) have "j \<in> set (sort_key job_created_at (db_jobs db)) \<and> claimable W now j"
    by (rule find_SomeD)
  ultimately show ?thesis by (metis set_sort)
qed

lemma claim_next_inv:
  assumes inv: "hold_inv cap db" and "claim_next W now db = (r, db')"
  shows "hold_inv cap db'"
proof (cases r)
  case None
  then show ?thesis using assms by (auto simp: claim_next_def split: option.splits)
next
  case (Some t)
  from claim_next_Some [OF assms(2) [unfolded Some]] obtain j where j: "j \<in> set (db_jobs db)" "claimable W now j"
    "db' = update_jobs (\<lambda>k. job_id k = job_id j) (claimed W now) db" by blast
  show ?thesis unfolding j(3)
  proof (rule hold_inv_update_jobs [OF inv])
    fix k assume "k \<in> set (db_jobs db)" "job_id k = job_id j"
    then have "k = j" using j(1) unique_job [OF inv] by blast
    with j(2) show "job_step k (claimed W now k)" by (auto simp: job_step_def claimable_def claimed_def settled_def)
  qed
qed

text \<open>A row that the transaction found \<open>RUNNING\<close> ends in a status that is not \<open>HELD\<close>.\<close>

lemma hold_inv_one_running:
  assumes inv: "hold_inv cap db" and j: "find_job i db = Some j" "job_status j = Job_Running"
    and f: "\<And>k. job_id (f k) = job_id k \<and> job_kind (f k) = job_kind k \<and> job_attempts (f k) = job_attempts k \<and>
      job_status (f k) \<noteq> Job_Held"
  shows "hold_inv cap (update_jobs (\<lambda>k. job_id k = i) f db)"
proof (rule hold_inv_update_jobs [OF inv])
  fix k assume k: "k \<in> set (db_jobs db)" "job_id k = i"
  with find_job_Some [OF j(1)] unique_job [OF inv] have "k = j" by metis
  with j(2) f [of k] show "job_step k (f k)" by (simp add: job_step_def settled_def)
qed

lemma refuse_approved_reclaim_inv:
  assumes "hold_inv cap db" shows "hold_inv cap (snd (refuse_approved_reclaim W tracked t now db))"
  using assms hold_inv_one_running [OF assms, where f = "fail_row _"]
  by (auto simp: refuse_approved_reclaim_def fail_row_def split: option.splits)

lemma set_execution_id_inv: "hold_inv cap db \<Longrightarrow> hold_inv cap (set_execution_id_for_job i x db)"
  unfolding set_execution_id_for_job_def update_holds_def
  by (rule hold_inv_jobs [where f = "\<lambda>j. j" and
        g = "\<lambda>h. if hold_job_id h = i \<and> hold_state h = Hold_Approved then h\<lparr>hold_execution_id := Some x\<rparr> else h"])
    (auto simp: job_step_refl keeps_hold_key_def)

lemma complete_job_inv:
  assumes "hold_inv cap db" shows "hold_inv cap (complete_job W i kind body ct now db)"
proof (cases "find_job i db")
  case (Some j)
  then show ?thesis
    using assms hold_inv_one_running [OF assms Some, where
        f = "\<lambda>k. k\<lparr>job_status := _, job_visible_at := None, job_error := None\<rparr>"]
    by (auto simp: complete_job_def Let_def set_execution_id_inv split: option.splits json.splits list.splits)
qed (simp add: complete_job_def assms)

lemma terminal_job_claimed_inv:
  "hold_inv cap db \<Longrightarrow> s \<noteq> Job_Held \<Longrightarrow> hold_inv cap (snd (terminal_job i s err (Some n) ty now db))"
  using hold_inv_one_running [where f = "\<lambda>k. k\<lparr>job_status := s, job_error := _, job_visible_at := None\<rparr>"]
  by (auto simp: terminal_job_def Let_def split: option.splits)

lemma handle_failure_inv: "hold_inv cap db \<Longrightarrow> hold_inv cap (handle_failure W t err now db)"
  by (auto simp: handle_failure_def terminal_job_claimed_inv job_step_def settled_def intro!: hold_inv_update_jobs)

lemma fail_claimed_job_inv: "hold_inv cap db \<Longrightarrow> hold_inv cap (fail_claimed_job t err now db)"
  by (simp add: fail_claimed_job_def terminal_job_claimed_inv)

lemma mark_dispatched_inv: "hold_inv cap db \<Longrightarrow> hold_inv cap (mark_dispatched t db)"
  by (auto simp: mark_dispatched_def job_step_def settled_def intro!: hold_inv_update_jobs)

text \<open>A job without a handler: its claim shows that it is not held.\<close>

lemma fail_job_inv:
  assumes inv: "hold_inv cap db" and k: "\<And>k. k \<in> set (db_jobs db) \<Longrightarrow> job_id k = i \<Longrightarrow> job_attempts k \<noteq> 0"
  shows "hold_inv cap (fail_job i err now db)"
proof -
  have "job_status j \<noteq> Job_Held" if "j \<in> set (db_jobs db)" "job_id j = i" for j
    using held_unclaimed [OF inv that(1)] k [OF that] by auto
  then have "hold_inv cap (update_jobs (\<lambda>k. job_id k = i)
      (\<lambda>k. k\<lparr>job_status := Job_Failed, job_error := e, job_visible_at := None\<rparr>) db)" for e
    by (intro hold_inv_update_jobs [OF inv]) (auto simp: job_step_def settled_def)
  then show ?thesis using inv by (auto simp: fail_job_def terminal_job_def Let_def split: option.splits)
qed

section \<open>The approvals' transactions\<close>

text \<open>Holds that leave \<open>pending\<close> together with their jobs.\<close>

lemma hold_inv_settle:
  assumes inv: "hold_inv cap db" and keys: "keeps_job_key f" "keeps_hold_key g"
    and pend: "\<And>h. h \<in> set (db_holds db) \<Longrightarrow> p h \<Longrightarrow> hold_state h = Hold_Pending"
    and same: "\<And>h. \<not> p h \<Longrightarrow> g h = h"
    and moved: "\<And>h j. p h \<Longrightarrow> job_id j = hold_job_id h \<Longrightarrow> pair_ok h j \<Longrightarrow> job_status j = Job_Held \<Longrightarrow>
      h \<in> set (db_holds db) \<Longrightarrow> pair_ok (g h) (f j)"
    and other: "\<And>j. (\<forall>h\<in>set (db_holds db). p h \<longrightarrow> hold_job_id h \<noteq> job_id j) \<Longrightarrow> f j = j"
    and rows: "db_jobs db' = map f (db_jobs db)" "db_holds db' = map g (db_holds db)"
  shows "hold_inv cap db'"
proof (rule hold_inv_rewrite [OF inv keys _ _ rows])
  fix h j assume h: "h \<in> set (db_holds db)" and j: "j \<in> set (db_jobs db)" "job_id j = hold_job_id h" and ok: "pair_ok h j"
  show "pair_ok (g h) (f j)"
  proof (cases "p h")
    case True
    with pend [OF h] ok have "job_status j = Job_Held" by (simp add: pair_ok_def)
    then show ?thesis using moved True j(2) ok h by blast
  next
    case False
    have "f j = j" by (rule other) (use False unique_hold [OF inv _ h] j(2) in metis)
    with False same ok show ?thesis by simp
  qed
next
  fix j assume j: "j \<in> set (db_jobs db)" and held: "job_status (f j) = Job_Held"
  show "job_status j = Job_Held"
  proof (cases "\<exists>h\<in>set (db_holds db). p h \<and> hold_job_id h = job_id j")
    case True
    then obtain h where h: "h \<in> set (db_holds db)" "p h" "hold_job_id h = job_id j" by blast
    with hold_invD(6) [OF inv h(1) j] pend [OF h(1,2)] show ?thesis by (simp add: pair_ok_def)
  next
    case False
    then have "f j = j" using other by blast
    with held show ?thesis by simp
  qed
qed

lemma pending_by_fingerprint_None:
  "pending_by_fingerprint fp db = None \<longleftrightarrow>
   (\<forall>h\<in>set (db_holds db). hold_state h = Hold_Pending \<longrightarrow> hold_fingerprint h \<noteq> fp)"
  by (auto simp: pending_by_fingerprint_def find_None_iff)

lemma hold_inv_insert_held:
  assumes inv: "hold_inv cap db"
    and ins: "Option.bind (insert_job j db) (insert_hold h) = Some db'"
    and j: "job_status j = Job_Held" "job_attempts j = 0" "job_kind j = Kind_Execution" "job_id j = hold_job_id h"
    and h: "hold_state h = Hold_Pending" and room: "count_pending_by_agent (hold_agent_id h) db < cap"
  shows "hold_inv cap db'"
proof -
  note I = hold_invD [OF inv]
  from ins have db': "db' = db\<lparr>db_jobs := db_jobs db @ [j], db_holds := db_holds db @ [h]\<rparr>"
    and jfresh: "job_id j \<notin> job_id ` set (db_jobs db)" and hfresh: "hold_id h \<notin> hold_id ` set (db_holds db)"
    and fp: "\<forall>k\<in>set (db_holds db). hold_state k = Hold_Pending \<longrightarrow> hold_fingerprint k \<noteq> hold_fingerprint h"
    by (auto simp: insert_job_def insert_hold_def job_fresh pending_by_fingerprint_None list_ex_iff split: if_splits)
  have ne: "hold_job_id k \<noteq> hold_job_id h" "hold_job_id h \<noteq> hold_job_id k" if "k \<in> set (db_holds db)" for k
    using I(5) [OF that] jfresh j(4) by (metis imageI)+
  have jne: "job_id k \<noteq> hold_job_id h" if "k \<in> set (db_jobs db)" for k
    using jfresh j(4) that by (metis imageI)
  have "count_pending_by_agent a db' \<le> cap" for a
    using I(8) [of a] room by (auto simp: db' count_pending_by_agent_def pending_of_agent_def)
  moreover have "pair_ok h j" using j h by (simp add: pair_ok_def)
  moreover have "distinct (map hold_fingerprint (filter (\<lambda>k. hold_state k = Hold_Pending) (db_holds db')))"
    using I(4) fp h by (auto simp: db')
  moreover have "distinct (map job_id (db_jobs db'))" "distinct (map hold_id (db_holds db'))"
    "distinct (map hold_job_id (db_holds db'))"
    using I(1-3) jfresh hfresh ne by (auto simp: db')
  moreover have "\<forall>k\<in>set (db_holds db'). \<exists>i\<in>set (db_jobs db'). job_id i = hold_job_id k"
    using I(5) j(4) by (auto simp: db')
  moreover have "\<forall>k\<in>set (db_holds db'). \<forall>i\<in>set (db_jobs db'). job_id i = hold_job_id k \<longrightarrow> pair_ok k i"
    using I(6) j(4) ne jne \<open>pair_ok h j\<close> by (auto simp: db')
  moreover have "\<forall>i\<in>set (db_jobs db'). job_status i = Job_Held \<longrightarrow> (\<exists>k\<in>set (db_holds db'). hold_job_id k = job_id i)"
    using I(7) j(4) by (auto simp: db')
  ultimately show ?thesis unfolding hold_inv_def by blast
qed

lemma file_hold_inv:
  assumes "hold_inv cap db" "hr_max_pending r \<le> cap"
  shows "hold_inv cap (snd (file_hold hash r jid hid now db))"
  using assms hold_inv_insert_held [OF assms(1)]
  by (auto simp: file_hold_def Let_def new_job_def new_hold_def split: option.splits)

text \<open>Every operation that settles holds is of this shape.\<close>

definition job_settles :: "hold_state \<Rightarrow> (job \<Rightarrow> job) \<Rightarrow> bool" where
  "job_settles s f =
     (s \<noteq> Hold_Pending \<and>
      (\<forall>j. job_id (f j) = job_id j \<and> job_kind (f j) = job_kind j \<and> job_attempts (f j) = job_attempts j \<and>
         (if s = Hold_Approved then job_status (f j) \<noteq> Job_Held else settled (f j))))"

definition hold_settles :: "hold_state \<Rightarrow> (hold \<Rightarrow> hold) \<Rightarrow> bool" where
  "hold_settles s g =
     (\<forall>h. hold_id (g h) = hold_id h \<and> hold_job_id (g h) = hold_job_id h \<and> hold_agent_id (g h) = hold_agent_id h \<and>
        hold_fingerprint (g h) = hold_fingerprint h \<and> hold_state (g h) = s)"

definition settle_jobs :: "string set \<Rightarrow> (job \<Rightarrow> job) \<Rightarrow> job list \<Rightarrow> job list" where
  "settle_jobs ids f = map (\<lambda>j. if job_id j \<in> ids \<and> job_status j = Job_Held then f j else j)"

lemma pair_ok_settles:
  assumes f: "job_settles s f" and g: "hold_settles s g" and ok: "pair_ok h j" and held: "job_status j = Job_Held"
  shows "pair_ok (g h) (f j)"
proof -
  have "job_attempts j = 0 \<or> hold_state h = Hold_Approved" "job_kind j = Kind_Execution" "hold_state h \<noteq> Hold_Approved"
    using ok held by (auto simp: pair_ok_def split: hold_state.splits)
  with f g show ?thesis
    by (cases s) (auto simp: pair_ok_def job_settles_def hold_settles_def)
qed

lemma hold_inv_settle_set:
  assumes inv: "hold_inv cap db" and f: "job_settles s f" and g: "hold_settles s g"
    and pend: "\<And>h. h \<in> set (db_holds db) \<Longrightarrow> p h \<Longrightarrow> hold_state h = Hold_Pending"
    and jobs: "db_jobs db' = settle_jobs (hold_job_id ` {h \<in> set (db_holds db). p h}) f (db_jobs db)"
    and holds: "db_holds db' = map (\<lambda>h. if p h then g h else h) (db_holds db)"
  shows "hold_inv cap db'"
proof (rule hold_inv_settle [where p = p, OF inv _ _ _ _ _ _ jobs [unfolded settle_jobs_def] holds])
  show "keeps_job_key (\<lambda>j. if job_id j \<in> hold_job_id ` {h \<in> set (db_holds db). p h} \<and> job_status j = Job_Held then f j else j)"
    using f by (auto simp: keeps_job_key_def job_settles_def)
  show "keeps_hold_key (\<lambda>h. if p h then g h else h)"
    using f g by (auto simp: keeps_hold_key_def job_settles_def hold_settles_def)
qed (auto simp: pair_ok_settles [OF f g] pend)

lemma decide_hold_inv:
  assumes inv: "hold_inv cap db"
  shows "hold_inv cap (snd (decide_hold visible ag reviewer i approve reason now db))"
proof (cases "find (\<lambda>h. hold_id h = i) (db_holds db)")
  case (Some h)
  then have h: "h \<in> set (db_holds db)" "hold_id h = i" by (auto dest: find_SomeD)
  define s where "s = (if approve then Hold_Approved else Hold_Denied)"
  define f where "f j = (let j = j\<lparr>job_status := if approve then Job_Queued else Job_Failed, job_visible_at := None\<rparr> in
    if approve then j else j\<lparr>job_error := Some ''approval denied''\<rparr>)" for j :: job
  have s: "job_settles s f" "hold_settles s (decide_row s reviewer reason now)"
    by (auto simp: s_def f_def job_settles_def hold_settles_def settled_def decide_row_def)
  have one: "k = h" if "k \<in> set (db_holds db)" "hold_id k = i" for k using unique_hold_id [OF inv that(1) h(1)] that h by simp
  then have ids: "hold_job_id ` {k \<in> set (db_holds db). hold_id k = i} = {hold_job_id h}" using h by blast
  have held: "job_status j = Job_Held" if "hold_state h = Hold_Pending" "j \<in> set (db_jobs db)" "job_id j = hold_job_id h" for j
    using hold_invD(6) [OF inv h(1) that(2,3)] that(1) by (simp add: pair_ok_def)
  have "hold_inv cap db'" if p: "hold_state h = Hold_Pending"
    and "db_holds db' = map (\<lambda>k. if hold_id k = i then decide_row s reviewer reason now k else k) (db_holds db)"
    and "db_jobs db' = map (\<lambda>j. if job_id j = hold_job_id h then f j else j) (db_jobs db)" for db'
    by (rule hold_inv_settle_set [OF inv s _ _ that(2)])
      (use one p held that(3) in \<open>auto simp: settle_jobs_def ids\<close>)
  with Some inv held show ?thesis
    by (auto simp: decide_hold_def Let_def transition_def update_jobs_def update_holds_def f_def s_def
        cong: map_cong)
qed (simp add: decide_hold_def inv)

lemma withdraw_hold_inv:
  assumes inv: "hold_inv cap db"
  shows "hold_inv cap (snd (withdraw_hold caller i now db))"
proof (cases "find (\<lambda>h. hold_id h = i) (db_holds db)")
  case (Some h)
  then have h: "h \<in> set (db_holds db)" "hold_id h = i" by (auto dest: find_SomeD)
  let ?f = "\<lambda>j. j\<lparr>job_status := Job_Cancelled, job_visible_at := None\<rparr>" and ?g = "settle_row Hold_Withdrawn (Some caller) now"
  have one: "k = h" if "k \<in> set (db_holds db)" "hold_id k = i" for k using unique_hold_id [OF inv that(1) h(1)] that h by simp
  then have ids: "hold_job_id ` {k \<in> set (db_holds db). hold_id k = i} = {hold_job_id h}" using h by blast
  have "hold_inv cap db'" if p: "hold_state h = Hold_Pending"
    and "db_holds db' = map (\<lambda>k. if hold_id k = i then ?g k else k) (db_holds db)"
    and "db_jobs db' = settle_jobs {hold_job_id h} ?f (db_jobs db)" for db'
    by (rule hold_inv_settle_set [where s = Hold_Withdrawn, OF inv _ _ _ that(3) [folded ids] that(2)])
      (use one p in \<open>auto simp: job_settles_def hold_settles_def settled_def settle_row_def\<close>)
  with Some inv show ?thesis
    by (auto simp: withdraw_hold_def Let_def transition_def update_jobs_def update_holds_def settle_jobs_def)
qed (simp add: withdraw_hold_def inv)

text \<open>The batches: a fold over rows with distinct jobs is one pointwise rewrite.\<close>

lemma settle_jobs_comp:
  assumes "\<And>j. job_id (f j) = job_id j" "\<And>j. job_status (f j) \<noteq> Job_Held"
  shows "settle_jobs B f (settle_jobs A f js) = settle_jobs (A \<union> B) f js"
  using assms by (auto simp: settle_jobs_def)

lemma settle_jobs_empty [simp]: "settle_jobs {} f js = js"
  by (simp add: settle_jobs_def)

lemma foldl_settle_jobs:
  assumes step: "\<And>db h. db_holds (op db h) = db_holds db \<and> db_jobs (op db h) = settle_jobs {hold_job_id h} f (db_jobs db)"
    and f: "\<And>j. job_id (f j) = job_id j" "\<And>j. job_status (f j) \<noteq> Job_Held"
  shows "db_holds (foldl op db hs) = db_holds db \<and>
    db_jobs (foldl op db hs) = settle_jobs (hold_job_id ` set hs) f (db_jobs db)"
  by (induction hs arbitrary: db) (simp_all add: step settle_jobs_comp [OF f] Un_commute)

lemma fail_held_job_rows:
  "db_holds (fail_held_job i problem err db) = db_holds db \<and>
   db_jobs (fail_held_job i problem err db) = settle_jobs {i} (fail_row err) (db_jobs db)"
  by (auto simp: fail_held_job_def Let_def add_result_def update_jobs_def settle_jobs_def list_ex_iff intro!: map_idI [symmetric])

lemma transition_held_rows:
  "db_holds (snd (transition i Job_Held s db)) = db_holds db \<and>
   db_jobs (snd (transition i Job_Held s db)) =
     settle_jobs {i} (\<lambda>j. j\<lparr>job_status := s, job_visible_at := None\<rparr>) (db_jobs db)"
  by (simp add: transition_def Let_def update_jobs_def settle_jobs_def)

lemma expire_lapsed_approvals_inv:
  assumes inv: "hold_inv cap db"
  shows "hold_inv cap (snd (expire_lapsed_approvals now db))"
proof -
  let ?op = "\<lambda>db h. fail_held_job (hold_job_id h) (approval_expired_problem (hold_id h)) ''approval expired'' db"
  let ?g = "\<lambda>h. h\<lparr>hold_state := Hold_Expired, hold_decided_at := Some now\<rparr>"
  note rows = foldl_settle_jobs [of ?op "fail_row ''approval expired''"]
  show ?thesis
    by (rule hold_inv_settle_set [OF inv, where s = Hold_Expired and p = "lapsed now" and g = ?g and
          f = "fail_row ''approval expired''"])
      (simp_all add: expire_lapsed_approvals_def Let_def rows fail_held_job_rows fail_row_def update_holds_def
        job_settles_def hold_settles_def settled_def lapsed_def)
qed

lemma withdraw_pending_for_agent_inv:
  assumes inv: "hold_inv cap db"
  shows "hold_inv cap (snd (withdraw_pending_for_agent agent actor now db))"
proof -
  let ?op = "\<lambda>db h. snd (transition (hold_job_id h) Job_Held Job_Cancelled db)"
  let ?f = "\<lambda>j. j\<lparr>job_status := Job_Cancelled, job_visible_at := None\<rparr>"
  note rows = foldl_settle_jobs [of ?op ?f]
  show ?thesis
    by (rule hold_inv_settle_set [OF inv, where s = Hold_Withdrawn and p = "pending_of_agent agent" and
          g = "settle_row Hold_Withdrawn (Some actor) now" and f = ?f])
      (simp_all add: withdraw_pending_for_agent_def Let_def rows transition_held_rows update_holds_def settle_row_def
        job_settles_def hold_settles_def settled_def pending_of_agent_def [abs_def])
qed

definition empty_admin_db :: admin_db where
  "empty_admin_db = \<lparr>db_jobs = [], db_holds = [], db_results = [], db_records = [], db_events = []\<rparr>"

lemma hold_inv_empty: "hold_inv cap empty_admin_db"
  by (simp add: hold_inv_def empty_admin_db_def count_pending_by_agent_def)

end
