(* ===== verification/Worker_Loop.thy ===== *)
theory Worker_Loop
  imports Hold_Invariant
begin

text \<open>
  The worker loop of \<open>shared/jobs/worker.py\<close> around the transactions of the queue: the retries of a
  completion write, the reconnect backoff, the retention sweep, and the whole system (the database,
  the claims the workers hold, each worker's memory of dispatched jobs) as a step relation in which
  any two transactions interleave and any worker dies at any await. A claim is the row as it was
  returned. What is observed is the log of handler starts.
\<close>

section \<open>The loop's own functions\<close>

text \<open>\<open>_reconnect_backoff_s\<close>: base and cap are configured, the jitter is in \<open>[0, 1)\<close>.\<close>

definition reconnect_backoff_s :: "real \<Rightarrow> real \<Rightarrow> nat \<Rightarrow> real \<Rightarrow> real" where
  "reconnect_backoff_s base cap attempt jitter =
     (let capped = min (base * 2 ^ (attempt - 1)) cap in capped / 2 + capped / 2 * jitter)"

definition sweep_results :: "real \<Rightarrow> admin_db \<Rightarrow> admin_db" where
  "sweep_results now db =
     db\<lparr>db_results := filter (\<lambda>r. case res_available_until r of None \<Rightarrow> True | Some t \<Rightarrow> \<not> t < now) (db_results db)\<rparr>"

text \<open>\<open>_mark_dispatched_best_effort\<close>: the claim keeps the stamped payload when a row matched.\<close>

definition marked_claim :: "job \<Rightarrow> admin_db \<Rightarrow> job" where
  "marked_claim t db =
     (if job_kind t = Kind_Execution \<and>
         list_ex (\<lambda>j. job_id j = job_id t \<and> job_status j = Job_Running \<and> job_attempts j = job_attempts t) (db_jobs db)
      then t\<lparr>job_payload := dict_set dispatched_key (JBool True) (job_payload t)\<rparr> else t)"

definition mark_best_effort :: "bool \<Rightarrow> job \<Rightarrow> admin_db \<Rightarrow> job \<times> admin_db" where
  "mark_best_effort ok t db =
     (if ok \<and> dict_get (job_payload t) dispatched_key \<noteq> Some (JBool True)
      then (marked_claim t db, mark_dispatched t db) else (t, db))"

text \<open>
  \<open>_complete_with_retry\<close>: what each write of the completion met, whether the stamp after it went
  through, and the delays slept.
\<close>

datatype write_outcome = Write_Done | Commit_Unknown bool | Write_Failed

definition completion_max_retries :: nat where "completion_max_retries = 3"
definition completion_retry_base_s :: real where "completion_retry_base_s = 0.05"

record completion =
  co_claim :: job
  co_tracked :: "string list"
  co_db :: admin_db
  co_writes :: nat
  co_sleeps :: "real list"

function complete_with_retry ::
  "worker_config \<Rightarrow> (nat \<Rightarrow> write_outcome) \<Rightarrow> (nat \<Rightarrow> bool) \<Rightarrow> (string, json) dict \<Rightarrow> string option \<Rightarrow> real
     \<Rightarrow> nat \<Rightarrow> completion \<Rightarrow> completion" where
  "complete_with_retry W outs marks body ct now attempt c =
     (let t = co_claim c;
          done = complete_job W (job_id t) (job_kind t) body ct now (co_db c);
          c = c\<lparr>co_writes := Suc (co_writes c)\<rparr> in
      case outs attempt of
        Write_Done \<Rightarrow> c\<lparr>co_db := done, co_tracked := removeAll (job_id t) (co_tracked c)\<rparr>
      | Commit_Unknown landed \<Rightarrow>
          (let (t, db) = mark_best_effort (marks attempt) t (if landed then done else co_db c) in
           c\<lparr>co_claim := t, co_db := db\<rparr>)
      | Write_Failed \<Rightarrow>
          (let (t, db) = mark_best_effort (marks attempt) t (co_db c); c = c\<lparr>co_claim := t, co_db := db\<rparr> in
           if completion_max_retries \<le> attempt then c
           else complete_with_retry W outs marks body ct now (Suc attempt)
                  (c\<lparr>co_sleeps := co_sleeps c @ [completion_retry_base_s * 2 ^ attempt]\<rparr>)))"
  by pat_completeness auto
termination
  by (relation "measure (\<lambda>(W, outs, marks, body, ct, now, attempt, c). completion_max_retries - attempt)") auto

declare complete_with_retry.simps [simp del]

text \<open>However its writes fail, a completion makes at most four and sleeps at most 0.35 seconds.\<close>

lemma completion_bounds:
  "attempt \<le> completion_max_retries \<Longrightarrow>
   co_writes (complete_with_retry W outs marks body ct now attempt c) \<le> co_writes c + (4 - attempt) \<and>
   sum_list (co_sleeps (complete_with_retry W outs marks body ct now attempt c)) \<le>
     sum_list (co_sleeps c) + completion_retry_base_s * (2 ^ completion_max_retries - 2 ^ attempt)"
proof (induction "completion_max_retries - attempt" arbitrary: attempt c)
  case 0
  then have a: "attempt = completion_max_retries" by simp
  show ?case
    by (subst (1 2) complete_with_retry.simps)
      (simp add: a Let_def completion_max_retries_def split: write_outcome.splits prod.splits)
next
  case (Suc n)
  let ?t = "co_claim c"
  show ?case
  proof (cases "outs attempt = Write_Failed")
    case False
    have "(2::real) ^ attempt \<le> 2 ^ completion_max_retries" using Suc.prems by simp
    moreover have "Suc (co_writes c) \<le> co_writes c + 4 - attempt" using Suc.prems by (simp add: completion_max_retries_def)
    ultimately show ?thesis using False
      by (simp add: complete_with_retry.simps [of _ _ _ _ _ _ attempt] Let_def completion_retry_base_s_def
          split: write_outcome.splits prod.splits)
  next
    case True
    obtain t db where m: "mark_best_effort (marks attempt) ?t (co_db c) = (t, db)" by fastforce
    let ?c = "c\<lparr>co_writes := Suc (co_writes c), co_claim := t, co_db := db,
      co_sleeps := co_sleeps c @ [completion_retry_base_s * 2 ^ attempt]\<rparr>"
    have lt: "attempt < completion_max_retries" using Suc.hyps(2) by simp
    define r where "r = complete_with_retry W outs marks body ct now (Suc attempt) ?c"
    have eq: "complete_with_retry W outs marks body ct now attempt c = r"
      using True m lt by (simp add: complete_with_retry.simps [of _ _ _ _ _ _ attempt] Let_def r_def)
    have "n = completion_max_retries - Suc attempt" using Suc.hyps(2) by simp
    from Suc.hyps(1) [OF this, of ?c] lt
    have "co_writes r \<le> Suc (co_writes c) + (4 - Suc attempt)"
      and s: "sum_list (co_sleeps r) \<le> sum_list (co_sleeps c) + completion_retry_base_s * 2 ^ attempt
        + completion_retry_base_s * (2 ^ completion_max_retries - 2 ^ Suc attempt)"
      by (simp_all add: r_def)
    moreover have "Suc (co_writes c) + (4 - Suc attempt) = co_writes c + (4 - attempt)"
      using lt by (simp add: completion_max_retries_def)
    moreover have "completion_retry_base_s * 2 ^ attempt + completion_retry_base_s * (2 ^ completion_max_retries - 2 ^ Suc attempt)
        = completion_retry_base_s * (2 ^ completion_max_retries - 2 ^ attempt)"
      by (simp add: algebra_simps)
    ultimately show ?thesis unfolding eq by (metis add.assoc)
  qed
qed

lemma backoff_range: "0 < wc_backoff_base W \<Longrightarrow> 0 < wc_backoff_max W \<Longrightarrow> 0 < backoff_s W n \<and> backoff_s W n \<le> wc_backoff_max W"
  by (simp add: backoff_s_def)

lemma backoff_mono: "0 < wc_backoff_base W \<Longrightarrow> m \<le> n \<Longrightarrow> backoff_s W m \<le> backoff_s W n"
  unfolding backoff_s_def by (intro min.mono) (auto intro!: mult_left_mono power_increasing)

lemma reconnect_range:
  assumes "0 < base" "0 < cap" "0 \<le> jitter" "jitter < 1"
  shows "min (base * 2 ^ (n - 1)) cap / 2 \<le> reconnect_backoff_s base cap n jitter \<and> reconnect_backoff_s base cap n jitter < cap"
proof -
  define c where "c = min (base * 2 ^ (n - 1)) cap"
  have c: "0 < c" "c \<le> cap" using assms by (auto simp: c_def)
  have "c / 2 * jitter < c / 2 * 1" using c(1) assms(4) by (intro mult_strict_left_mono) auto
  moreover have "0 \<le> c / 2 * jitter" using c(1) assms(3) by simp
  ultimately show ?thesis using c(2) unfolding reconnect_backoff_s_def Let_def c_def [symmetric] by linarith
qed

end
