(* ===== verification/Job_System.thy ===== *)
theory Job_System
  imports Worker_Loop
begin

text \<open>
  The queue and the approvals as one concurrent system: the transactions of the clients (enqueue,
  file, decide, withdraw, cancel), of the sweeps and of the handlers interleave with those of any
  number of workers, each holding claims. A claim passes the reclaim check, starts its handler, and
  ends in an outcome, or is lost with its worker at any point. The log holds every handler start as
  the job and the claim's number.
\<close>

section \<open>Steps\<close>

inductive client_step :: "nat \<Rightarrow> (string \<Rightarrow> string) \<Rightarrow> admin_db \<Rightarrow> admin_db \<Rightarrow> bool"
  for cap :: nat and hash :: "string \<Rightarrow> string" where
  enqueue: "enqueue_job i k by_whom ty x pl now db = Some db' \<Longrightarrow> client_step cap hash db db'"
| file_call: "hr_max_pending r = cap \<Longrightarrow> client_step cap hash db (snd (file_hold hash r jid hid now db))"
| decide: "client_step cap hash db (snd (decide_hold visible ag reviewer i approve reason now db))"
| withdraw: "client_step cap hash db (snd (withdraw_hold caller i now db))"
| archive: "client_step cap hash db (snd (withdraw_pending_for_agent agent actor now db))"
| cancel: "client_step cap hash db (snd (cancel_job i db))"
| cancel_active: "client_step cap hash db (cancel_active_for_actor actor db)"
| cancel_queued: "client_step cap hash db (cancel_queued_executions_for_actor actor db)"
| expire: "client_step cap hash db (snd (expire_lapsed_approvals now db))"
| sweep: "client_step cap hash db (sweep_results now db)"
| handler_event: "client_step cap hash db (add_event e db)"
| handler_record: "client_step cap hash db (db\<lparr>db_records := db_records db @ [x]\<rparr>)"

datatype phase = Phase_Claimed | Phase_Cleared | Phase_Started | Phase_Returned "(string, json) dict" "string option"

record task =
  tk_worker :: nat
  tk_job :: job
  tk_phase :: phase

record system =
  sys_db :: admin_db
  sys_tasks :: "task list"
  sys_tracked :: "nat \<Rightarrow> string list"
  sys_started :: "(string \<times> nat) list"

definition init_system :: system where
  "init_system = \<lparr>sys_db = empty_admin_db, sys_tasks = [], sys_tracked = (\<lambda>_. []), sys_started = []\<rparr>"

definition forget :: "nat \<Rightarrow> string \<Rightarrow> (nat \<Rightarrow> string list) \<Rightarrow> nat \<Rightarrow> string list" where
  "forget w i tracked = tracked(w := removeAll i (tracked w))"

inductive sys_step :: "worker_config \<Rightarrow> nat \<Rightarrow> (string \<Rightarrow> string) \<Rightarrow> system \<Rightarrow> system \<Rightarrow> bool"
  for W :: worker_config and cap :: nat and hash :: "string \<Rightarrow> string" where
  client: "client_step cap hash (sys_db s) db \<Longrightarrow> sys_step W cap hash s (s\<lparr>sys_db := db\<rparr>)"
| claim:
    "claim_next W now (sys_db s) = (Some j, db) \<Longrightarrow>
     sys_step W cap hash s (s\<lparr>sys_db := db, sys_tasks := sys_tasks s @ [\<lparr>tk_worker = w, tk_job = j, tk_phase = Phase_Claimed\<rparr>]\<rparr>)"
| refused:
    "sys_tasks s = xs @ t # ys \<Longrightarrow> tk_phase t = Phase_Claimed \<Longrightarrow>
     refuse_approved_reclaim W (sys_tracked s (tk_worker t)) (tk_job t) now (sys_db s) = (True, db) \<Longrightarrow>
     sys_step W cap hash s (s\<lparr>sys_db := db, sys_tasks := xs @ ys,
       sys_tracked := forget (tk_worker t) (job_id (tk_job t)) (sys_tracked s)\<rparr>)"
| cleared:
    "sys_tasks s = xs @ t # ys \<Longrightarrow> tk_phase t = Phase_Claimed \<Longrightarrow>
     refuse_approved_reclaim W (sys_tracked s (tk_worker t)) (tk_job t) now (sys_db s) = (False, db) \<Longrightarrow>
     sys_step W cap hash s (s\<lparr>sys_db := db, sys_tasks := xs @ t\<lparr>tk_phase := Phase_Cleared\<rparr> # ys\<rparr>)"
| no_handler:
    "sys_tasks s = xs @ t # ys \<Longrightarrow> tk_phase t = Phase_Cleared \<Longrightarrow> job_kind (tk_job t) \<notin> set (wc_kinds W) \<Longrightarrow>
     sys_step W cap hash s (s\<lparr>sys_db := fail_job (job_id (tk_job t)) err now (sys_db s), sys_tasks := xs @ ys\<rparr>)"
| start:
    "sys_tasks s = xs @ t # ys \<Longrightarrow> tk_phase t = Phase_Cleared \<Longrightarrow> job_kind (tk_job t) \<in> set (wc_kinds W) \<Longrightarrow>
     sys_step W cap hash s (s\<lparr>sys_tasks := xs @ t\<lparr>tk_phase := Phase_Started\<rparr> # ys,
       sys_started := sys_started s @ [(job_id (tk_job t), job_attempts (tk_job t))]\<rparr>)"
| raised:
    "sys_tasks s = xs @ t # ys \<Longrightarrow> tk_phase t = Phase_Started \<Longrightarrow>
     sys_step W cap hash s (s\<lparr>sys_db := handle_failure W (tk_job t) err now (sys_db s), sys_tasks := xs @ ys\<rparr>)"
| raised_non_retryable:
    "sys_tasks s = xs @ t # ys \<Longrightarrow> tk_phase t = Phase_Started \<Longrightarrow>
     sys_step W cap hash s (s\<lparr>sys_db := fail_claimed_job (tk_job t) err now (sys_db s), sys_tasks := xs @ ys\<rparr>)"
| returned:
    "sys_tasks s = xs @ t # ys \<Longrightarrow> tk_phase t = Phase_Started \<Longrightarrow>
     sys_step W cap hash s (s\<lparr>sys_tasks := xs @ t\<lparr>tk_phase := Phase_Returned body ct\<rparr> # ys,
       sys_tracked := (if job_kind (tk_job t) = Kind_Execution
         then (sys_tracked s)(tk_worker t := track_dispatched (job_id (tk_job t)) (sys_tracked s (tk_worker t)))
         else sys_tracked s)\<rparr>)"
| completed:
    "sys_tasks s = xs @ t # ys \<Longrightarrow> tk_phase t = Phase_Returned body ct \<Longrightarrow>
     sys_step W cap hash s (s\<lparr>sys_db := complete_job W (job_id (tk_job t)) (job_kind (tk_job t)) body ct now (sys_db s),
       sys_tasks := xs @ ys, sys_tracked := forget (tk_worker t) (job_id (tk_job t)) (sys_tracked s)\<rparr>)"
| completed_unacknowledged:
    "sys_tasks s = xs @ t # ys \<Longrightarrow> tk_phase t = Phase_Returned body ct \<Longrightarrow>
     sys_step W cap hash s (s\<lparr>sys_db := complete_job W (job_id (tk_job t)) (job_kind (tk_job t)) body ct now (sys_db s)\<rparr>)"
| marked:
    "sys_tasks s = xs @ t # ys \<Longrightarrow> tk_phase t = Phase_Returned body ct \<Longrightarrow>
     mark_best_effort True (tk_job t) (sys_db s) = (j, db) \<Longrightarrow>
     sys_step W cap hash s (s\<lparr>sys_db := db, sys_tasks := xs @ t\<lparr>tk_job := j\<rparr> # ys\<rparr>)"
| lost:
    "sys_tasks s = xs @ t # ys \<Longrightarrow> sys_step W cap hash s (s\<lparr>sys_tasks := xs @ ys\<rparr>)"
| restarted:
    "sys_step W cap hash s (s\<lparr>sys_tasks := filter (\<lambda>t. tk_worker t \<noteq> w) (sys_tasks s), sys_tracked := (sys_tracked s)(w := [])\<rparr>)"

inductive reachable :: "worker_config \<Rightarrow> nat \<Rightarrow> (string \<Rightarrow> string) \<Rightarrow> system \<Rightarrow> bool"
  for W :: worker_config and cap :: nat and hash :: "string \<Rightarrow> string" where
  init: "reachable W cap hash init_system"
| step: "reachable W cap hash s \<Longrightarrow> sys_step W cap hash s s' \<Longrightarrow> reachable W cap hash s'"

section \<open>How rows evolve\<close>

text \<open>No transaction removes a job, lowers its attempts, or attaches a hold to an existing job.\<close>

definition evolves :: "admin_db \<Rightarrow> admin_db \<Rightarrow> bool" where
  "evolves db db' =
     ((\<forall>j\<in>set (db_jobs db). \<exists>k\<in>set (db_jobs db'). job_id k = job_id j \<and> job_kind k = job_kind j \<and> job_attempts j \<le> job_attempts k) \<and>
      hold_job_id ` set (db_holds db') \<subseteq> hold_job_id ` set (db_holds db) \<union> - job_id ` set (db_jobs db))"

lemma evolves_refl [simp]: "evolves db db"
  by (auto simp: evolves_def)

lemma evolves_trans: "evolves a b \<Longrightarrow> evolves b c \<Longrightarrow> evolves a c"
proof -
  assume a: "evolves a b" and b: "evolves b c"
  then have ids: "job_id ` set (db_jobs a) \<subseteq> job_id ` set (db_jobs b)"
    by (auto simp: evolves_def image_iff) (metis)
  have "\<exists>k\<in>set (db_jobs c). job_id k = job_id j \<and> job_kind k = job_kind j \<and> job_attempts j \<le> job_attempts k"
    if j: "j \<in> set (db_jobs a)" for j
  proof -
    obtain k where k: "k \<in> set (db_jobs b)" "job_id k = job_id j" "job_kind k = job_kind j" "job_attempts j \<le> job_attempts k"
      using a j unfolding evolves_def by blast
    then obtain l where "l \<in> set (db_jobs c)" "job_id l = job_id k" "job_kind l = job_kind k" "job_attempts k \<le> job_attempts l"
      using b unfolding evolves_def by blast
    with k show ?thesis by (metis le_trans)
  qed
  moreover have "hold_job_id ` set (db_holds c) \<subseteq> hold_job_id ` set (db_holds a) \<union> - job_id ` set (db_jobs a)"
  proof -
    have "hold_job_id ` set (db_holds c) \<subseteq> hold_job_id ` set (db_holds b) \<union> - job_id ` set (db_jobs b)"
      "hold_job_id ` set (db_holds b) \<subseteq> hold_job_id ` set (db_holds a) \<union> - job_id ` set (db_jobs a)"
      using a b by (simp_all only: evolves_def)
    with ids show ?thesis by (meson Compl_subset_Compl_iff Un_mono le_supI order_refl order_trans sup_ge1 sup_ge2)
  qed
  ultimately show ?thesis by (simp add: evolves_def)
qed

lemma evolves_rewrite:
  assumes "db_jobs db' = map f (db_jobs db)" "keeps_job_key f" "hold_job_id ` set (db_holds db') \<subseteq> hold_job_id ` set (db_holds db)"
  shows "evolves db db'"
  using assms by (auto simp: evolves_def keeps_job_key_def)

lemma evolves_update_jobs:
  "(\<And>j. job_id (f j) = job_id j \<and> job_kind (f j) = job_kind j \<and> job_attempts j \<le> job_attempts (f j)) \<Longrightarrow>
   evolves db (update_jobs p f db)"
  by (rule evolves_rewrite [where f = "\<lambda>j. if p j then f j else j"]) (auto simp: update_jobs_def keeps_job_key_def)

lemma evolves_update_holds: "(\<And>h. hold_job_id (f h) = hold_job_id h) \<Longrightarrow> evolves db (update_holds p f db)"
  by (rule evolves_rewrite [where f = "\<lambda>j. j"]) (auto simp: update_holds_def keeps_job_key_def)

lemma evolves_frame [simp]:
  "evolves db (add_result r db') = evolves db db'" "evolves db (add_event e db') = evolves db db'"
  "evolves db (db'\<lparr>db_records := x\<rparr>) = evolves db db'" "evolves db (db'\<lparr>db_results := y\<rparr>) = evolves db db'"
  by (simp_all add: evolves_def)

lemmas evolves_rules = evolves_update_jobs evolves_update_holds

lemma evolves_foldl: "(\<And>db h. evolves db (op db h)) \<Longrightarrow> evolves db (foldl op db hs)"
  by (induction hs arbitrary: db) (auto intro: evolves_trans)

lemma keeps_fail_row: "job_id (fail_row e j) = job_id j \<and> job_kind (fail_row e j) = job_kind j \<and> job_attempts (fail_row e j) = job_attempts j"
  by (simp add: fail_row_def)

lemma evolves_transition: "evolves db (snd (transition i a b db))"
  by (simp add: transition_def Let_def evolves_rules)

lemma evolves_fail_held_job: "evolves db (fail_held_job i problem err db)"
  by (simp add: fail_held_job_def Let_def evolves_rules keeps_fail_row)

lemma evolves_insert_job: "insert_job j db = Some db' \<Longrightarrow> evolves db db'"
  by (auto simp: insert_job_def evolves_def split: if_splits)

lemma evolves_file_hold:
  "evolves db (snd (file_hold hash r jid hid now db))"
proof -
  have "evolves db db'" if "insert_job j db = Some db1" "insert_hold h db1 = Some db'" "hold_job_id h = job_id j" for db' j h db1
    using that by (auto simp: insert_job_def insert_hold_def evolves_def job_fresh split: if_splits) (force simp: image_iff)+
  then show ?thesis
    by (auto simp: file_hold_def Let_def bind_eq_Some_conv new_job_def new_hold_def split: option.splits)
qed

lemma evolves_decide_hold: "evolves db (snd (decide_hold visible ag reviewer i approve reason now db))"
proof -
  have decided: "evolves db (snd (transition a b c (update_holds p (decide_row s reviewer reason now) db)))" for a b c p s
    by (rule evolves_trans [OF evolves_update_holds evolves_transition]) (simp add: decide_row_def)
  moreover have "evolves db (update_jobs q (\<lambda>j. j\<lparr>job_error := e\<rparr>) (snd (transition a b c (update_holds p (decide_row s reviewer reason now) db))))" for a b c p q e s
    by (rule evolves_trans [OF decided evolves_update_jobs]) simp
  ultimately show ?thesis
    by (auto simp: decide_hold_def Let_def split: option.splits prod.splits) (metis snd_conv)+
qed

lemma evolves_withdraw_hold: "evolves db (snd (withdraw_hold caller i now db))"
proof -
  have "evolves db (snd (transition a b c (update_holds p (settle_row s w now) db)))" for a b c p s w
    by (rule evolves_trans [OF evolves_update_holds evolves_transition]) (simp add: settle_row_def)
  then show ?thesis
    by (auto simp: withdraw_hold_def Let_def split: option.splits prod.splits) (metis snd_conv)
qed

lemma evolves_client: "client_step cap hash db db' \<Longrightarrow> evolves db db'"
proof (induction rule: client_step.induct)
  case (expire db now)
  show ?case unfolding expire_lapsed_approvals_def Let_def snd_conv
    by (rule evolves_trans [OF evolves_update_holds evolves_foldl]) (simp_all add: evolves_fail_held_job)
next
  case (archive db agent actor now)
  show ?case unfolding withdraw_pending_for_agent_def Let_def snd_conv
    by (rule evolves_trans [OF evolves_update_holds evolves_foldl]) (simp_all add: evolves_transition settle_row_def)
qed (auto simp: enqueue_job_def evolves_insert_job evolves_file_hold evolves_decide_hold evolves_withdraw_hold
    cancel_job_def cancel_if_active_def cancel_active_for_actor_def cancel_queued_executions_for_actor_def
    sweep_results_def evolves_rules split: option.splits)

lemma hold_inv_client: "client_step cap hash db db' \<Longrightarrow> hold_inv cap db \<Longrightarrow> hold_inv cap db'"
  by (induction rule: client_step.induct)
    (auto simp: file_hold_inv decide_hold_inv withdraw_hold_inv withdraw_pending_for_agent_inv cancel_job_inv
      cancel_for_actor_inv expire_lapsed_approvals_inv sweep_results_def enqueue_job_inv elim: hold_inv_frame)

lemma evolves_refuse: "evolves db (snd (refuse_approved_reclaim W tracked t now db))"
  by (auto simp: refuse_approved_reclaim_def evolves_rules keeps_fail_row split: option.splits)

lemma evolves_complete: "evolves db (complete_job W i kind body ct now db)"
proof -
  have "evolves db (set_execution_id_for_job i x db)" for i x db
    by (simp add: set_execution_id_for_job_def evolves_rules)
  moreover have u: "evolves db (update_jobs p (\<lambda>k. k\<lparr>job_status := s, job_visible_at := None, job_error := None\<rparr>) db)" for p s
    by (simp add: evolves_rules)
  ultimately show ?thesis
    by (auto simp: complete_job_def Let_def split: option.splits json.splits list.splits intro: evolves_trans [OF u])
qed

lemma evolves_terminal: "evolves db (snd (terminal_job i s err n ty now db))"
  by (auto simp: terminal_job_def Let_def evolves_rules split: option.splits)

lemma evolves_worker:
  "evolves db (handle_failure W t err now db)" "evolves db (fail_claimed_job t err now db)"
  "evolves db (fail_job i err now db)" "evolves db (mark_dispatched t db)"
  by (simp_all add: handle_failure_def fail_claimed_job_def fail_job_def mark_dispatched_def evolves_terminal evolves_rules)

lemma evolves_claim: "claim_next W now db = (Some t, db') \<Longrightarrow> evolves db db'"
  by (drule claim_next_Some) (auto simp: claimed_def intro!: evolves_update_jobs)

section \<open>The invariant of the system\<close>

definition claim_key :: "task \<Rightarrow> string \<times> nat" where
  "claim_key t = (job_id (tk_job t), job_attempts (tk_job t))"

definition claim_known :: "admin_db \<Rightarrow> string \<times> nat \<Rightarrow> bool" where
  "claim_known db key = (1 \<le> snd key \<and> (\<exists>j\<in>set (db_jobs db). job_id j = fst key \<and> snd key \<le> job_attempts j))"

definition held_ids :: "admin_db \<Rightarrow> string set" where
  "held_ids db = hold_job_id ` set (db_holds db)"

definition task_ok :: "admin_db \<Rightarrow> (string \<times> nat) list \<Rightarrow> task \<Rightarrow> bool" where
  "task_ok db started t =
     (claim_known db (claim_key t) \<and>
      (\<exists>j\<in>set (db_jobs db). job_id j = job_id (tk_job t) \<and> job_kind j = job_kind (tk_job t)) \<and>
      (tk_phase t \<in> {Phase_Claimed, Phase_Cleared} \<longrightarrow> claim_key t \<notin> set started) \<and>
      (tk_phase t = Phase_Cleared \<and> job_id (tk_job t) \<in> held_ids db \<longrightarrow> job_attempts (tk_job t) = 1))"

definition sys_inv :: "nat \<Rightarrow> system \<Rightarrow> bool" where
  "sys_inv cap s =
     (hold_inv cap (sys_db s) \<and> distinct (map claim_key (sys_tasks s)) \<and> distinct (sys_started s) \<and>
      (\<forall>t\<in>set (sys_tasks s). task_ok (sys_db s) (sys_started s) t) \<and>
      (\<forall>key\<in>set (sys_started s). claim_known (sys_db s) key \<and> (fst key \<in> held_ids (sys_db s) \<longrightarrow> snd key = 1)))"

lemma sys_inv_tracked [simp]: "sys_inv cap (s\<lparr>sys_tracked := m\<rparr>) = sys_inv cap s"
  by (simp add: sys_inv_def)

lemma claim_known_evolves:
  assumes "evolves db db'" "claim_known db key"
  shows "claim_known db' key"
proof -
  obtain j where j: "j \<in> set (db_jobs db)" "job_id j = fst key" "snd key \<le> job_attempts j"
    using assms(2) by (auto simp: claim_known_def)
  then obtain k where "k \<in> set (db_jobs db')" "job_id k = job_id j" "job_attempts j \<le> job_attempts k"
    using assms(1) unfolding evolves_def by blast
  with j assms(2) show ?thesis unfolding claim_known_def by (metis le_trans)
qed

lemma held_ids_evolves: "evolves db db' \<Longrightarrow> claim_known db key \<Longrightarrow> fst key \<in> held_ids db' \<Longrightarrow> fst key \<in> held_ids db"
proof -
  assume e: "evolves db db'" and known: "claim_known db key" and held: "fst key \<in> held_ids db'"
  have "fst key \<in> job_id ` set (db_jobs db)" using known by (force simp: claim_known_def)
  moreover have "held_ids db' \<subseteq> held_ids db \<union> - job_id ` set (db_jobs db)" using e by (simp add: evolves_def held_ids_def)
  ultimately show ?thesis using held by (meson ComplD UnE in_mono)
qed

lemma task_ok_evolves:
  assumes "evolves db db'" "task_ok db started t"
  shows "task_ok db' started t"
proof -
  have known: "claim_known db (claim_key t)" using assms(2) by (simp add: task_ok_def)
  have "job_id (tk_job t) \<in> held_ids db' \<Longrightarrow> job_id (tk_job t) \<in> held_ids db"
    using held_ids_evolves [OF assms(1) known] by (simp add: claim_key_def)
  moreover have "\<exists>j\<in>set (db_jobs db'). job_id j = job_id (tk_job t) \<and> job_kind j = job_kind (tk_job t)"
    using assms unfolding evolves_def task_ok_def by metis
  ultimately show ?thesis using assms claim_known_evolves [OF assms(1) known] by (simp add: task_ok_def)
qed

lemma sys_inv_evolves:
  assumes "sys_inv cap s" "evolves (sys_db s) db" "hold_inv cap db"
  shows "sys_inv cap (s\<lparr>sys_db := db\<rparr>)"
proof -
  have "claim_known db key \<and> (fst key \<in> held_ids db \<longrightarrow> snd key = 1)" if "key \<in> set (sys_started s)" for key
    using assms(1) that claim_known_evolves [OF assms(2)] held_ids_evolves [OF assms(2)] unfolding sys_inv_def by blast
  with assms show ?thesis by (simp add: sys_inv_def task_ok_evolves [OF assms(2)])
qed

lemma sys_inv_db:
  "sys_inv cap s \<Longrightarrow> evolves (sys_db s) db \<Longrightarrow> (hold_inv cap (sys_db s) \<Longrightarrow> hold_inv cap db) \<Longrightarrow> sys_inv cap (s\<lparr>sys_db := db\<rparr>)"
  by (rule sys_inv_evolves) (simp_all add: sys_inv_def)

lemma sys_inv_drop:
  "sys_inv cap s \<Longrightarrow> sys_tasks s = xs @ t # ys \<Longrightarrow> sys_inv cap (s\<lparr>sys_tasks := xs @ ys\<rparr>)"
  by (simp add: sys_inv_def)

lemma sys_inv_filter: "sys_inv cap s \<Longrightarrow> sys_inv cap (s\<lparr>sys_tasks := filter p (sys_tasks s)\<rparr>)"
  by (auto simp: sys_inv_def distinct_map_filter)

lemma sys_inv_replace:
  "sys_inv cap s \<Longrightarrow> sys_tasks s = xs @ t # ys \<Longrightarrow> claim_key t' = claim_key t \<Longrightarrow> task_ok (sys_db s) (sys_started s) t' \<Longrightarrow>
   sys_inv cap (s\<lparr>sys_tasks := xs @ t' # ys\<rparr>)"
  by (auto simp: sys_inv_def)

lemma task_ok_later:
  "task_ok db started t \<Longrightarrow> job_id j = job_id (tk_job t) \<Longrightarrow> job_kind j = job_kind (tk_job t) \<Longrightarrow>
   job_attempts j = job_attempts (tk_job t) \<Longrightarrow> p \<notin> {Phase_Claimed, Phase_Cleared} \<Longrightarrow>
   task_ok db started (t\<lparr>tk_job := j, tk_phase := p\<rparr>)"
  by (auto simp: task_ok_def claim_key_def)

text \<open>A claim of a held call passes the reclaim check only as the first one.\<close>

lemma cleared_first:
  assumes inv: "hold_inv cap db" and known: "claim_known db (job_id t, job_attempts t)"
    and kind: "j \<in> set (db_jobs db)" "job_id j = job_id t" "job_kind j = job_kind t"
    and pass: "refuse_approved_reclaim W tracked t now db = (False, db')"
    and held: "job_id t \<in> held_ids db"
  shows "job_attempts t = 1"
proof (rule ccontr)
  assume n: "job_attempts t \<noteq> 1"
  obtain h where h: "h \<in> set (db_holds db)" "hold_job_id h = job_id t" using held by (auto simp: held_ids_def)
  have ok: "pair_ok h j" using hold_invD(6) [OF inv h(1) kind(1)] kind(2) h(2) by simp
  then have "job_kind t = Kind_Execution" using kind by (simp add: pair_ok_def)
  with n known pass obtain k where k: "find_job (job_id t) db = Some k" "job_status k = Job_Running" "approved_hold (job_id t) db = None"
    by (auto simp: refuse_approved_reclaim_def claim_known_def split: if_splits option.splits)
  then have "k = j" using find_job_Some [OF k(1)] unique_job [OF inv _ kind(1)] kind(2) by metis
  moreover have "hold_state h \<noteq> Hold_Approved" using k(3) h by (auto simp: approved_hold_def find_None_iff)
  ultimately show False using ok k(2) by (cases "hold_state h") (auto simp: pair_ok_def settled_def)
qed

lemma sys_inv_step:
  assumes "sys_step W cap hash s s'" and inv: "sys_inv cap s"
  shows "sys_inv cap s'"
  using assms(1)
proof cases
  case (client db)
  then show ?thesis using sys_inv_db [OF inv evolves_client hold_inv_client] by blast
next
  case (claim now j db w)
  let ?t = "\<lparr>tk_worker = w, tk_job = j, tk_phase = Phase_Claimed\<rparr>"
  note I = inv [unfolded sys_inv_def]
  from claim_next_Some [OF claim(2)] obtain k where k: "k \<in> set (db_jobs (sys_db s))" "j = claimed W now k"
    "db = update_jobs (\<lambda>l. job_id l = job_id k) (claimed W now) (sys_db s)" by blast
  have j: "j \<in> set (db_jobs db)" "job_id j = job_id k" "job_attempts j = Suc (job_attempts k)"
    using k by (auto simp: update_jobs_def claimed_def)
  have new: "(job_id j, job_attempts j) \<noteq> key" if "claim_known (sys_db s) key" for key
  proof
    assume key: "(job_id j, job_attempts j) = key"
    with that j obtain l where l: "l \<in> set (db_jobs (sys_db s))" "job_id l = job_id k" "Suc (job_attempts k) \<le> job_attempts l"
      by (auto simp: claim_known_def)
    then have "l = k" using unique_job [of cap "sys_db s" l k] k(1) I by blast
    with l(3) show False by simp
  qed
  have fresh: "claim_key ?t \<notin> claim_key ` set (sys_tasks s)" "claim_key ?t \<notin> set (sys_started s)"
    using new I by (auto simp: claim_key_def task_ok_def)
  have "sys_inv cap (s\<lparr>sys_db := db\<rparr>)"
    using I claim(2) claim_next_inv evolves_claim by (intro sys_inv_evolves [OF inv]) blast+
  moreover have "task_ok db (sys_started s) ?t"
    using j fresh(2) by (auto simp: task_ok_def claim_known_def claim_key_def)
  ultimately show ?thesis using fresh unfolding claim(1) by (auto simp: sys_inv_def)
next
  case (refused xs t ys now db)
  have "sys_inv cap (s\<lparr>sys_db := db\<rparr>)"
    using sys_inv_db [OF inv evolves_refuse refuse_approved_reclaim_inv] refused(4) by (metis snd_conv)
  from sys_inv_drop [OF this, of xs t ys] refused show ?thesis by simp
next
  case (cleared xs t ys now db)
  have i: "sys_inv cap (s\<lparr>sys_db := db\<rparr>)"
    using sys_inv_db [OF inv evolves_refuse refuse_approved_reclaim_inv] cleared(4) by (metis snd_conv)
  have ev: "evolves (sys_db s) db" using cleared(4) evolves_refuse by (metis snd_conv)
  have t: "task_ok (sys_db s) (sys_started s) t" "task_ok db (sys_started s) t" using inv i cleared(2) by (auto simp: sys_inv_def)
  have "job_attempts (tk_job t) = 1" if "job_id (tk_job t) \<in> held_ids db"
  proof -
    have "job_id (tk_job t) \<in> held_ids (sys_db s)"
      using held_ids_evolves [OF ev, of "claim_key t"] t(1) that by (simp add: task_ok_def claim_key_def)
    moreover obtain j where "j \<in> set (db_jobs (sys_db s))" "job_id j = job_id (tk_job t)" "job_kind j = job_kind (tk_job t)"
      using t(1) unfolding task_ok_def by blast
    moreover have "hold_inv cap (sys_db s)" "claim_known (sys_db s) (job_id (tk_job t), job_attempts (tk_job t))"
      using inv t(1) by (simp_all add: sys_inv_def task_ok_def claim_key_def)
    ultimately show ?thesis using cleared_first [OF _ _ _ _ _ cleared(4)] by blast
  qed
  then have "task_ok db (sys_started s) (t\<lparr>tk_phase := Phase_Cleared\<rparr>)"
    using t(2) cleared(3) by (simp add: task_ok_def claim_key_def)
  from sys_inv_replace [OF i _ _, of xs t ys, simplified, OF cleared(2) _ this] show ?thesis
    unfolding cleared(1) by (simp add: claim_key_def)
next
  case (no_handler xs t ys err now)
  have "task_ok (sys_db s) (sys_started s) t" using inv no_handler(2) by (simp add: sys_inv_def)
  then have "job_attempts k \<noteq> 0" if "k \<in> set (db_jobs (sys_db s))" "job_id k = job_id (tk_job t)" for k
    using that inv unique_job by (fastforce simp: task_ok_def claim_known_def claim_key_def sys_inv_def)
  then have "sys_inv cap (s\<lparr>sys_db := fail_job (job_id (tk_job t)) err now (sys_db s)\<rparr>)"
    using inv by (intro sys_inv_evolves [OF inv]) (auto simp: sys_inv_def fail_job_inv evolves_worker)
  from sys_inv_drop [OF this, of xs t ys] no_handler show ?thesis by simp
next
  case (start xs t ys)
  have t: "task_ok (sys_db s) (sys_started s) t" using inv start(2) by (simp add: sys_inv_def)
  have others: "claim_key u \<noteq> claim_key t" if "u \<in> set (xs @ ys)" for u
  proof -
    have "distinct (map claim_key (xs @ t # ys))" using inv start(2) by (simp add: sys_inv_def)
    then have "claim_key t \<notin> claim_key ` set (xs @ ys)" by auto
    with that show ?thesis by (metis imageI)
  qed
  let ?key = "(job_id (tk_job t), job_attempts (tk_job t))" and ?db = "sys_db s" and ?log = "sys_started s"
  have key: "?key \<notin> set ?log" "claim_known ?db ?key" "fst ?key \<in> held_ids ?db \<longrightarrow> snd ?key = 1"
    using t start(3) by (auto simp: task_ok_def claim_key_def)
  have "task_ok ?db (?log @ [?key]) u" if "u \<in> set (xs @ ys)" for u
  proof -
    have "task_ok ?db ?log u" using inv start(2) that by (auto simp: sys_inv_def)
    moreover have "claim_key u \<noteq> ?key" using others [OF that] by (simp add: claim_key_def)
    ultimately show ?thesis by (simp add: task_ok_def)
  qed
  moreover have "task_ok ?db (?log @ [?key]) (t\<lparr>tk_phase := Phase_Started\<rparr>)"
    using t by (simp add: task_ok_def claim_key_def)
  moreover have "distinct (map claim_key (xs @ t\<lparr>tk_phase := Phase_Started\<rparr> # ys))"
    using inv start(2) by (simp add: sys_inv_def claim_key_def)
  ultimately show ?thesis using inv key start(2) unfolding start(1) by (auto simp: sys_inv_def)
next
  case (raised xs t ys err now)
  have "sys_inv cap (s\<lparr>sys_db := handle_failure W (tk_job t) err now (sys_db s)\<rparr>)"
    by (rule sys_inv_db [OF inv evolves_worker(1) handle_failure_inv])
  from sys_inv_drop [OF this, of xs t ys] raised show ?thesis by simp
next
  case (raised_non_retryable xs t ys err now)
  have "sys_inv cap (s\<lparr>sys_db := fail_claimed_job (tk_job t) err now (sys_db s)\<rparr>)"
    by (rule sys_inv_db [OF inv evolves_worker(2) fail_claimed_job_inv])
  from sys_inv_drop [OF this, of xs t ys] raised_non_retryable show ?thesis by simp
next
  case (returned xs t ys body ct)
  have "task_ok (sys_db s) (sys_started s) (t\<lparr>tk_phase := Phase_Returned body ct\<rparr>)"
    using inv returned(2) by (auto simp: sys_inv_def task_ok_def claim_key_def)
  from sys_inv_replace [OF inv returned(2) _ this] show ?thesis unfolding returned(1) by (simp add: claim_key_def)
next
  case (completed xs t ys body ct now)
  have "sys_inv cap (s\<lparr>sys_db := complete_job W (job_id (tk_job t)) (job_kind (tk_job t)) body ct now (sys_db s)\<rparr>)"
    by (rule sys_inv_db [OF inv evolves_complete complete_job_inv])
  from sys_inv_drop [OF this, of xs t ys] completed show ?thesis by simp
next
  case (completed_unacknowledged xs t ys body ct now)
  then show ?thesis using sys_inv_db [OF inv evolves_complete complete_job_inv] by blast
next
  case (marked xs t ys body ct j db)
  have "job_id j = job_id (tk_job t)" "job_kind j = job_kind (tk_job t)" "job_attempts j = job_attempts (tk_job t)"
    using marked(4) by (auto simp: mark_best_effort_def marked_claim_def split: if_splits)
  moreover have i: "sys_inv cap (s\<lparr>sys_db := db\<rparr>)"
    using inv marked(4) by (intro sys_inv_evolves [OF inv])
      (auto simp: sys_inv_def mark_best_effort_def mark_dispatched_inv evolves_worker split: if_splits)
  moreover have "task_ok db (sys_started s) t" using i marked(2) by (simp add: sys_inv_def)
  ultimately have "task_ok db (sys_started s) (t\<lparr>tk_job := j\<rparr>)" "claim_key (t\<lparr>tk_job := j\<rparr>) = claim_key t"
    using marked(3) by (auto simp: task_ok_def claim_key_def)
  with sys_inv_replace [OF i, of xs t ys "t\<lparr>tk_job := j\<rparr>"] marked(2) show ?thesis unfolding marked(1) by simp
next
  case (lost xs t ys)
  then show ?thesis using sys_inv_drop [OF inv] by blast
next
  case (restarted w)
  then show ?thesis using sys_inv_filter [OF inv] by simp
qed

lemma sys_inv_reachable: "reachable W cap hash s \<Longrightarrow> sys_inv cap s"
proof (induction rule: reachable.induct)
  case init
  show ?case using hold_inv_empty by (simp add: sys_inv_def init_system_def)
next
  case (step s s')
  then show ?case using sys_inv_step by blast
qed

end
