(* ===== verification/Job_Properties.thy ===== *)
theory Job_Properties
  imports Job_System
begin

text \<open>
  What the queue and its approvals promise, over every interleaving of the system: a held call runs
  at most once and only after its approval, holds and jobs agree, a decision is final, the retries of
  a completion write end; and the two places where the code does less than its comments say: the
  retry budget does not bound claims, and a failed approved call is reported as a failed import.
\<close>

section \<open>Decisions are final\<close>

text \<open>A settled hold stays as it is, but for the execution id that a finished run stamps on an approved one.\<close>

definition settled_as :: "hold \<Rightarrow> hold \<Rightarrow> bool" where
  "settled_as h k =
     (\<exists>x. k = h\<lparr>hold_execution_id := x\<rparr> \<and> (hold_state h \<noteq> Hold_Approved \<longrightarrow> x = hold_execution_id h))"

definition keeps_decisions :: "admin_db \<Rightarrow> admin_db \<Rightarrow> bool" where
  "keeps_decisions db db' =
     (\<forall>h\<in>set (db_holds db). hold_state h \<noteq> Hold_Pending \<longrightarrow> (\<exists>k\<in>set (db_holds db'). settled_as h k))"

lemma settled_as_refl: "settled_as h h"
  unfolding settled_as_def by (rule exI [of _ "hold_execution_id h"]) simp

lemma keeps_decisions_same: "db_holds db' = db_holds db \<Longrightarrow> keeps_decisions db db'"
  using settled_as_refl by (fastforce simp: keeps_decisions_def)

lemma keeps_decisions_add:
  "keeps_decisions db (add_result r d) = keeps_decisions db d" "keeps_decisions db (add_event e d) = keeps_decisions db d"
  by (simp_all add: keeps_decisions_def)

lemma keeps_decisions_update:
  assumes "\<And>h. h \<in> set (db_holds db) \<Longrightarrow> p h \<Longrightarrow> hold_state h = Hold_Pending"
    and "db_holds db' = map (\<lambda>h. if p h then g h else h) (db_holds db)"
  shows "keeps_decisions db db'"
  unfolding keeps_decisions_def assms(2) using assms(1) settled_as_refl by (fastforce simp: image_iff)

lemma update_frames [simp]:
  "db_holds (update_jobs p f db) = db_holds db" "db_jobs (update_holds q g db) = db_jobs db"
  "db_holds (update_holds q g db) = map (\<lambda>h. if q h then g h else h) (db_holds db)"
  by (simp_all add: update_jobs_def update_holds_def)

lemma transition_holds [simp]: "db_holds (snd (transition i a b db)) = db_holds db"
  by (simp add: transition_def Let_def)

lemma batch_holds [simp]:
  "db_holds (foldl (\<lambda>db h. snd (transition (hold_job_id h) a b db)) db hs) = db_holds db"
  "db_holds (foldl (\<lambda>db h. fail_held_job (hold_job_id h) (q h) err db) db hs) = db_holds db"
  by (induction hs arbitrary: db) (simp_all add: fail_held_job_rows)

lemma queue_holds [simp]:
  "db_holds (snd (cancel_job i db)) = db_holds db" "db_holds (cancel_active_for_actor actor db) = db_holds db"
  "db_holds (cancel_queued_executions_for_actor actor db) = db_holds db"
  "db_holds (sweep_results now db) = db_holds db" "db_holds (snd (terminal_job i st err n ty now db)) = db_holds db"
  by (auto simp: cancel_job_def cancel_if_active_def cancel_active_for_actor_def sweep_results_def terminal_job_def Let_def
      cancel_queued_executions_for_actor_def split: option.splits)

lemma insert_job_holds: "insert_job j db = Some db' \<Longrightarrow> db_holds db' = db_holds db"
  by (auto simp: insert_job_def split: if_splits)

lemma keeps_decisions_file: "keeps_decisions db (snd (file_hold hash r jid hid now db))"
  using settled_as_refl
  by (fastforce simp: keeps_decisions_def file_hold_def Let_def bind_eq_Some_conv insert_hold_def
      dest!: insert_job_holds split: option.splits if_splits)

lemma pending_of_id:
  assumes "hold_inv cap db" "find (\<lambda>h. hold_id h = i) (db_holds db) = Some h" "hold_state h = Hold_Pending"
    "k \<in> set (db_holds db)" "hold_id k = i"
  shows "hold_state k = Hold_Pending"
proof -
  have "h \<in> set (db_holds db)" "hold_id h = i" using find_SomeD [OF assms(2)] by auto
  then have "k = h" using unique_hold_id [OF assms(1) assms(4)] assms(5) by simp
  with assms(3) show ?thesis by simp
qed

lemma keeps_decisions_decide:
  assumes inv: "hold_inv cap db"
  shows "keeps_decisions db (snd (decide_hold visible ag reviewer i approve reason now db))"
proof -
  have K: "keeps_decisions db db'" if "find (\<lambda>h. hold_id h = i) (db_holds db) = Some h" "hold_state h = Hold_Pending"
    "db_holds db' = map (\<lambda>h. if hold_id h = i then g h else h) (db_holds db)" for h g db'
    using keeps_decisions_update [OF _ that(3)] pending_of_id [OF inv that(1,2)] by blast
  then show ?thesis
    by (auto simp: decide_hold_def Let_def keeps_decisions_same transition_def intro: K split: option.splits)
qed

lemma keeps_decisions_withdraw:
  assumes inv: "hold_inv cap db"
  shows "keeps_decisions db (snd (withdraw_hold caller i now db))"
proof -
  have K: "keeps_decisions db db'" if "find (\<lambda>h. hold_id h = i) (db_holds db) = Some h" "hold_state h = Hold_Pending"
    "db_holds db' = map (\<lambda>h. if hold_id h = i then g h else h) (db_holds db)" for h g db'
    using keeps_decisions_update [OF _ that(3)] pending_of_id [OF inv that(1,2)] by blast
  then show ?thesis
    by (auto simp: withdraw_hold_def Let_def keeps_decisions_same transition_def intro: K split: option.splits)
qed

lemma keeps_decisions_client:
  "client_step cap hash db db' \<Longrightarrow> hold_inv cap db \<Longrightarrow> keeps_decisions db db'"
proof (induction rule: client_step.induct)
  case (enqueue i k by_whom ty x pl now db db')
  then show ?case by (auto simp: enqueue_job_def dest!: insert_job_holds intro!: keeps_decisions_same)
next
  case (archive db agent actor now)
  show ?case by (rule keeps_decisions_update [where p = "pending_of_agent agent" and g = "settle_row Hold_Withdrawn (Some actor) now"])
      (simp_all add: pending_of_agent_def [abs_def] withdraw_pending_for_agent_def Let_def)
next
  case (expire db now)
  show ?case by (rule keeps_decisions_update [where p = "lapsed now" and g = "\<lambda>h. h\<lparr>hold_state := Hold_Expired, hold_decided_at := Some now\<rparr>"])
      (simp_all add: lapsed_def [abs_def] expire_lapsed_approvals_def Let_def)
qed (simp_all add: keeps_decisions_file keeps_decisions_decide keeps_decisions_withdraw keeps_decisions_same)

lemma keeps_decisions_execution_id: "keeps_decisions db (set_execution_id_for_job i x db)"
proof -
  let ?g = "\<lambda>h. if hold_job_id h = i \<and> hold_state h = Hold_Approved then h\<lparr>hold_execution_id := Some x\<rparr> else h"
  have "db_holds (set_execution_id_for_job i x db) = map ?g (db_holds db)"
    by (simp add: set_execution_id_for_job_def)
  moreover have "\<exists>k\<in>set (map ?g hs). settled_as h k" if "h \<in> set hs" for h hs
    by (rule bexI [of _ "?g h"]) (use that settled_as_refl in \<open>auto simp: settled_as_def\<close>)
  ultimately show ?thesis by (simp only: keeps_decisions_def) blast
qed

lemma completion_holds:
  "db_holds (case v of Some (JStr (c # cs)) \<Rightarrow> if a then set_execution_id_for_job i (c # cs) d else d | _ \<Rightarrow> d) = db_holds d \<or>
   (\<exists>x. db_holds (case v of Some (JStr (c # cs)) \<Rightarrow> if a then set_execution_id_for_job i (c # cs) d else d | _ \<Rightarrow> d)
     = db_holds (set_execution_id_for_job i x d))"
  by (auto split: option.splits json.splits list.splits)

lemma set_execution_id_holds: "db_holds d = db_holds db \<Longrightarrow> db_holds (set_execution_id_for_job i x d) = db_holds (set_execution_id_for_job i x db)"
  by (simp add: set_execution_id_for_job_def)

lemma keeps_decisions_complete: "keeps_decisions db (complete_job W i kind body ct now db)"
proof (cases "find_job i db")
  case (Some j)
  have K: "keeps_decisions db db'" if h: "db_holds db' = db_holds d \<or> (\<exists>x. db_holds db' = db_holds (set_execution_id_for_job i x d))"
    and same: "db_holds d = db_holds db" for d db'
    using h
  proof
    assume "\<exists>x. db_holds db' = db_holds (set_execution_id_for_job i x d)"
    then obtain x where "db_holds db' = db_holds (set_execution_id_for_job i x db)"
      using set_execution_id_holds [OF same] by auto
    with keeps_decisions_execution_id [of db i x] show ?thesis by (simp add: keeps_decisions_def)
  qed (simp add: same keeps_decisions_same)
  let ?a = "kind = Kind_Execution \<and> approved_hold i db \<noteq> None"
  have L: "keeps_decisions db (case dict_get body ''execution_id'' of
      Some (JStr (c # cs)) \<Rightarrow> if ?a then set_execution_id_for_job i (c # cs) d else d | _ \<Rightarrow> d)"
    if "db_holds d = db_holds db" for d
    by (rule K [OF _ that], rule completion_holds)
  show ?thesis
    unfolding complete_job_def Some Let_def option.case
    by (simp only: if_distrib [where f = "keeps_decisions db"] keeps_decisions_add if_cancel, split if_split)
      (intro conjI impI keeps_decisions_same refl L update_frames)
qed (simp add: complete_job_def keeps_decisions_same)

lemma worker_holds [simp]:
  "db_holds (snd (refuse_approved_reclaim W tracked t now db)) = db_holds db"
  "db_holds (handle_failure W t err now db) = db_holds db" "db_holds (fail_claimed_job t err now db) = db_holds db"
  "db_holds (fail_job i err now db) = db_holds db" "db_holds (mark_dispatched t db) = db_holds db"
  by (auto simp: refuse_approved_reclaim_def handle_failure_def fail_claimed_job_def fail_job_def mark_dispatched_def
      split: option.splits)

lemma keeps_decisions_step:
  "sys_step W cap hash s s' \<Longrightarrow> hold_inv cap (sys_db s) \<Longrightarrow> keeps_decisions (sys_db s) (sys_db s')"
proof (induction rule: sys_step.induct)
  case (claim now s j db w)
  have "db_holds db = db_holds (sys_db s)" using claim_next_Some [OF claim(1)] by auto
  then show ?case by (simp add: keeps_decisions_same)
next
  case (refused s xs t ys now db)
  then have "db_holds db = db_holds (sys_db s)" by (metis snd_conv worker_holds(1))
  then show ?case by (simp add: keeps_decisions_same)
next
  case (cleared s xs t ys now db)
  then have "db_holds db = db_holds (sys_db s)" by (metis snd_conv worker_holds(1))
  then show ?case by (simp add: keeps_decisions_same)
next
  case (marked s xs t ys body ct j db)
  then have "db_holds db = db_holds (sys_db s)" by (auto simp: mark_best_effort_def split: if_splits)
  then show ?case by (simp add: keeps_decisions_same)
qed (simp_all add: keeps_decisions_same keeps_decisions_client keeps_decisions_complete)

section \<open>A run with a held call\<close>

definition sample_worker :: worker_config where
  "sample_worker =
     \<lparr>wc_kinds = [Kind_Execution, Kind_Import], wc_visibility_timeout = 300, wc_max_attempts = 3, wc_backoff_base = 2,
      wc_backoff_max = 60, wc_retention = 86400\<rparr>"

definition sample_request :: hold_request where
  "sample_request =
     \<lparr>hr_agent = ''a'', hr_actor_type = ''agent'', hr_credential = ''c'', hr_matched_rule = None,
      hr_api = (''v'', ''n'', ''1''), hr_operation = None, hr_method = ''POST'', hr_path = ''/p'', hr_query = [],
      hr_body = None, hr_trace_id = None, hr_execution_id = ''x'', hr_payload = [], hr_ttl = 60, hr_max_pending = 1\<rparr>"

definition sample_hash :: "string \<Rightarrow> string" where "sample_hash s = []"

abbreviation filed_db :: admin_db where
  "filed_db \<equiv> snd (file_hold sample_hash sample_request ''j'' ''h'' 0 empty_admin_db)"

abbreviation approved_db :: admin_db where
  "approved_db \<equiv> snd (decide_hold (\<lambda>_. True) False ''u'' ''h'' True None 1 filed_db)"

lemmas run_defs = file_hold_def decide_hold_def sample_request_def sample_worker_def empty_admin_db_def
  pending_by_fingerprint_def count_pending_by_agent_def insert_job_def insert_hold_def find_job_def new_job_def new_hold_def
  request_fingerprint_def compute_execution_fingerprint_def sample_hash_def decide_row_def transition_def
  update_jobs_def update_holds_def Let_def

lemma filed_db_rows:
  "db_jobs filed_db = [new_job ''j'' Kind_Execution Job_Held ''a'' ''agent'' (Some ''x'') [] 0]"
  "db_holds filed_db = [new_hold sample_request [] ''h'' ''j'' 60]"
  by (simp_all add: run_defs)

lemma approved_db_rows:
  "db_jobs approved_db = [new_job ''j'' Kind_Execution Job_Queued ''a'' ''agent'' (Some ''x'') [] 0]"
  "db_holds approved_db = [decide_row Hold_Approved ''u'' None 1 (new_hold sample_request [] ''h'' ''j'' 60)]"
  by (simp_all add: run_defs str_upper_def)

lemma reachable_filed: "reachable sample_worker 1 sample_hash (init_system\<lparr>sys_db := filed_db\<rparr>)"
proof (rule reachable.step [OF reachable.init sys_step.client])
  show "client_step 1 sample_hash (sys_db init_system) filed_db"
    using client_step.file_call [of sample_request 1 sample_hash empty_admin_db]
    by (simp add: init_system_def sample_request_def)
qed

lemma reachable_approved: "reachable sample_worker 1 sample_hash (init_system\<lparr>sys_db := approved_db\<rparr>)"
  using reachable.step [OF reachable_filed sys_step.client, of approved_db] client_step.decide by simp

lemma reachable_started:
  "\<exists>s. reachable sample_worker 1 sample_hash s \<and> sys_started s = [(''j'', 1)] \<and>
     db_holds (sys_db s) = [decide_row Hold_Approved ''u'' None 1 (new_hold sample_request [] ''h'' ''j'' 60)]"
proof -
  let ?j = "claimed sample_worker 2 (new_job ''j'' Kind_Execution Job_Queued ''a'' ''agent'' (Some ''x'') [] 0)"
  define db where "db = update_jobs (\<lambda>k. job_id k = ''j'') (claimed sample_worker 2) approved_db"
  let ?t = "\<lparr>tk_worker = 0, tk_job = ?j, tk_phase = Phase_Claimed\<rparr>"
  have claim: "claim_next sample_worker 2 approved_db = (Some ?j, db)"
    by (simp add: claim_next_def approved_db_rows claimable_def sample_worker_def new_job_def db_def)
  let ?s = "init_system\<lparr>sys_db := db, sys_tasks := [?t]\<rparr>"
  have s1: "reachable sample_worker 1 sample_hash ?s"
    using reachable.step [OF reachable_approved sys_step.claim [where j = ?j and db = db and w = 0 and now = 2]] claim
    by (simp add: init_system_def)
  have "refuse_approved_reclaim sample_worker (sys_tracked ?s 0) ?j 3 db = (False, db)"
    by (simp add: refuse_approved_reclaim_def claimed_def new_job_def)
  then have s2: "reachable sample_worker 1 sample_hash (?s\<lparr>sys_tasks := [?t\<lparr>tk_phase := Phase_Cleared\<rparr>]\<rparr>)"
    using reachable.step [OF s1 sys_step.cleared [where xs = "[]" and t = ?t and ys = "[]" and now = 3 and db = db]]
    by simp
  have "reachable sample_worker 1 sample_hash
      (?s\<lparr>sys_tasks := [?t\<lparr>tk_phase := Phase_Started\<rparr>], sys_started := [(''j'', 1)]\<rparr>)"
    using reachable.step [OF s2 sys_step.start [where xs = "[]" and t = "?t\<lparr>tk_phase := Phase_Cleared\<rparr>" and ys = "[]"]]
    by (simp add: claimed_def new_job_def sample_worker_def init_system_def)
  then show ?thesis
    by - (rule exI, rule conjI, assumption, simp add: db_def approved_db_rows)
qed

section \<open>The properties\<close>

text \<open>
  C3: A call held for approval runs at most once, and only if its hold was approved: over every
  interleaving of clients, sweeps and workers (which may die anywhere and be reclaimed), the handler
  of the held job is started at most once, and never while the hold is pending, denied, expired or
  withdrawn.
\<close>

theorem held_call_runs_once:
  assumes "reachable W cap hash s" "h \<in> set (db_holds (sys_db s))"
  shows "length (filter (\<lambda>(i, n). i = hold_job_id h) (sys_started s)) \<le> 1 \<and>
    (filter (\<lambda>(i, n). i = hold_job_id h) (sys_started s) \<noteq> [] \<longrightarrow> hold_state h = Hold_Approved)"
proof -
  note inv = sys_inv_reachable [OF assms(1), unfolded sys_inv_def]
  have key: "(i, n) = (hold_job_id h, 1) \<and> claim_known (sys_db s) (i, n)"
    if "(i, n) \<in> set (filter (\<lambda>(i, n). i = hold_job_id h) (sys_started s))" for i n
    using that inv assms(2) by (fastforce simp: held_ids_def)
  have "distinct (filter (\<lambda>(i, n). i = hold_job_id h) (sys_started s))" using inv by simp
  moreover have "set (filter (\<lambda>(i, n). i = hold_job_id h) (sys_started s)) \<subseteq> {(hold_job_id h, 1)}" using key by force
  ultimately have "length (filter (\<lambda>(i, n). i = hold_job_id h) (sys_started s)) \<le> 1"
    using distinct_card card_mono [of "{(hold_job_id h, 1::nat)}"] by (metis card.empty card.insert empty_iff finite.simps One_nat_def)
  moreover have "hold_state h = Hold_Approved" if ne: "filter (\<lambda>(i, n). i = hold_job_id h) (sys_started s) \<noteq> []"
  proof -
    obtain i n where "(i, n) \<in> set (filter (\<lambda>(i, n). i = hold_job_id h) (sys_started s))"
      using ne by (metis last_in_set surj_pair)
    with key obtain j where j: "j \<in> set (db_jobs (sys_db s))" "job_id j = hold_job_id h" "1 \<le> job_attempts j"
      by (fastforce simp: claim_known_def)
    with inv have "pair_ok h j" using hold_invD(6) [of cap "sys_db s" h j] assms(2) by blast
    with j(3) show ?thesis by (cases "hold_state h") (auto simp: pair_ok_def)
  qed
  ultimately show ?thesis by blast
qed

theorem held_call_runs_once_witness:
  "\<exists>s h. reachable sample_worker 1 sample_hash s \<and> h \<in> set (db_holds (sys_db s)) \<and> sys_started s = [(hold_job_id h, 1)] \<and>
     hold_state h = Hold_Approved"
proof -
  obtain s where s: "reachable sample_worker 1 sample_hash s" "sys_started s = [(''j'', 1)]"
    "db_holds (sys_db s) = [decide_row Hold_Approved ''u'' None 1 (new_hold sample_request [] ''h'' ''j'' 60)]"
    using reachable_started by blast
  let ?h = "decide_row Hold_Approved ''u'' None 1 (new_hold sample_request [] ''h'' ''j'' 60)"
  have h: "?h \<in> set (db_holds (sys_db s))" "hold_job_id ?h = ''j''" by (simp_all add: s(3) decide_row_def new_hold_def)
  with held_call_runs_once [OF s(1) h(1)] s show ?thesis by (intro exI [of _ s] exI [of _ ?h]) simp
qed

text \<open>
  C12: Holds and jobs agree in every reachable state: a hold is pending exactly while its job is held,
  every held job has a hold, no agent has more pending holds than the cap, and no two pending holds
  share a fingerprint.
\<close>

theorem holds_agree_with_jobs:
  assumes "reachable W cap hash s"
  shows "(\<forall>h\<in>set (db_holds (sys_db s)). \<exists>j\<in>set (db_jobs (sys_db s)). job_id j = hold_job_id h \<and>
       (hold_state h = Hold_Pending \<longleftrightarrow> job_status j = Job_Held)) \<and>
    (\<forall>j\<in>set (db_jobs (sys_db s)). job_status j = Job_Held \<longrightarrow> (\<exists>h\<in>set (db_holds (sys_db s)). hold_job_id h = job_id j)) \<and>
    (\<forall>agent. count_pending_by_agent agent (sys_db s) \<le> cap) \<and>
    distinct (map hold_fingerprint (filter (\<lambda>h. hold_state h = Hold_Pending) (db_holds (sys_db s))))"
proof -
  have inv: "hold_inv cap (sys_db s)" using sys_inv_reachable [OF assms] by (simp add: sys_inv_def)
  have "\<exists>j\<in>set (db_jobs (sys_db s)). job_id j = hold_job_id h \<and> (hold_state h = Hold_Pending \<longleftrightarrow> job_status j = Job_Held)"
    if h: "h \<in> set (db_holds (sys_db s))" for h
  proof -
    obtain j where j: "j \<in> set (db_jobs (sys_db s))" "job_id j = hold_job_id h" using hold_invD(5) [OF inv h] by blast
    with hold_invD(6) [OF inv h] have "pair_ok h j" by blast
    then have "hold_state h = Hold_Pending \<longleftrightarrow> job_status j = Job_Held"
      by (cases "hold_state h") (auto simp: pair_ok_def settled_def)
    with j show ?thesis by blast
  qed
  with hold_invD(4,7,8) [OF inv] show ?thesis by blast
qed

theorem holds_agree_with_jobs_witness:
  "db_jobs filed_db \<noteq> [] \<and> count_pending_by_agent ''a'' filed_db \<le> 1"
proof -
  have "count_pending_by_agent ''a'' (sys_db (init_system\<lparr>sys_db := filed_db\<rparr>)) \<le> 1"
    using holds_agree_with_jobs [OF reachable_filed] by (elim conjE) (drule spec [where x = "''a''"])
  then show ?thesis by (simp add: filed_db_rows del: One_nat_def)
qed

text \<open>
  C20: A decision is final: once a hold is approved, denied, expired or withdrawn, no step of the
  system changes its row or removes it, with one exception: a finished run stamps its execution id on an approved hold.
\<close>

theorem decisions_are_final:
  assumes "reachable W cap hash s" "sys_step W cap hash s s'"
    and "h \<in> set (db_holds (sys_db s))" "hold_state h \<noteq> Hold_Pending"
  shows "\<exists>x. h\<lparr>hold_execution_id := x\<rparr> \<in> set (db_holds (sys_db s')) \<and>
    (hold_state h \<noteq> Hold_Approved \<longrightarrow> x = hold_execution_id h)"
proof -
  have "hold_inv cap (sys_db s)" using sys_inv_reachable [OF assms(1)] by (simp add: sys_inv_def)
  from keeps_decisions_step [OF assms(2) this] assms(3,4) show ?thesis unfolding keeps_decisions_def settled_as_def by blast
qed

theorem decisions_are_final_witness:
  "\<exists>k\<in>set (db_holds (snd (expire_lapsed_approvals 1000 approved_db))). hold_id k = ''h'' \<and> hold_state k = Hold_Approved \<and>
     hold_decided_by k = Some ''u''"
proof -
  let ?h = "decide_row Hold_Approved ''u'' None 1 (new_hold sample_request [] ''h'' ''j'' 60)"
  have h: "?h \<in> set (db_holds (sys_db (init_system\<lparr>sys_db := approved_db\<rparr>)))" by (simp add: approved_db_rows)
  have "sys_step sample_worker 1 sample_hash (init_system\<lparr>sys_db := approved_db\<rparr>)
      (init_system\<lparr>sys_db := approved_db\<rparr>\<lparr>sys_db := snd (expire_lapsed_approvals 1000 approved_db)\<rparr>)"
    by (rule sys_step.client) (simp add: client_step.expire)
  from decisions_are_final [OF reachable_approved this h]
  obtain k where "k \<in> set (db_holds (snd (expire_lapsed_approvals 1000 approved_db)))" "hold_id k = ''h''"
    "hold_state k = Hold_Approved" "hold_decided_by k = Some ''u''"
    by (auto simp: decide_row_def new_hold_def)
  then show ?thesis by blast
qed

text \<open>
  C25: Recording an outcome ends: whatever each write and each stamp meets, a finished handler's
  result is written at most four times, with at most 0.35 seconds of sleep in between.
\<close>

theorem completion_ends:
  "co_writes (complete_with_retry W outs marks body ct now 0 c) \<le> co_writes c + 4 \<and>
   sum_list (co_sleeps (complete_with_retry W outs marks body ct now 0 c)) \<le> sum_list (co_sleeps c) + 0.35"
  using completion_bounds [of 0 W outs marks body ct now c]
  by (simp add: completion_max_retries_def completion_retry_base_s_def)

section \<open>Where the code does less than it says\<close>

text \<open>A claim whose worker dies leaves the row to the next claim.\<close>

lemma claim_start_die:
  assumes r: "reachable W cap hash s" and s: "db_jobs (sys_db s) = [j]" "sys_tasks s = []"
    and j: "job_kind j = Kind_Import" "claimable W now j"
  shows "\<exists>s'. reachable W cap hash s' \<and> db_jobs (sys_db s') = [claimed W now j] \<and> sys_tasks s' = [] \<and>
    sys_started s' = sys_started s @ [(job_id j, Suc (job_attempts j))]"
proof -
  let ?j = "claimed W now j" and ?db = "update_jobs (\<lambda>k. job_id k = job_id j) (claimed W now) (sys_db s)"
  let ?t = "\<lparr>tk_worker = 0, tk_job = ?j, tk_phase = Phase_Claimed\<rparr>"
  let ?s1 = "s\<lparr>sys_db := ?db, sys_tasks := [?t]\<rparr>"
  have kinds: "job_kind ?j \<in> set (wc_kinds W)" using j by (simp add: claimable_def claimed_def)
  have "claim_next W now (sys_db s) = (Some ?j, ?db)" using s j by (simp add: claim_next_def)
  then have s1: "reachable W cap hash ?s1"
    using reachable.step [OF r sys_step.claim [where j = ?j and db = ?db and w = 0]] s(2) by simp
  have "refuse_approved_reclaim W (sys_tracked ?s1 0) ?j now ?db = (False, ?db)"
    using j by (simp add: refuse_approved_reclaim_def claimed_def)
  then have s2: "reachable W cap hash (?s1\<lparr>sys_tasks := [?t\<lparr>tk_phase := Phase_Cleared\<rparr>]\<rparr>)"
    using reachable.step [OF s1 sys_step.cleared [where xs = "[]" and t = ?t and ys = "[]" and db = ?db]] by simp
  let ?s3 = "?s1\<lparr>sys_tasks := [?t\<lparr>tk_phase := Phase_Started\<rparr>], sys_started := sys_started s @ [(job_id j, Suc (job_attempts j))]\<rparr>"
  have s3: "reachable W cap hash ?s3"
    using reachable.step [OF s2 sys_step.start [where xs = "[]" and t = "?t\<lparr>tk_phase := Phase_Cleared\<rparr>" and ys = "[]"]] kinds
    by (simp add: claimed_def)
  have "reachable W cap hash (?s3\<lparr>sys_tasks := []\<rparr>)"
    using reachable.step [OF s3 sys_step.lost [where xs = "[]" and ys = "[]"]] by simp
  then show ?thesis
    by - (rule exI, rule conjI, assumption, simp add: s update_jobs_def)
qed

text \<open>
  The retry budget does not bound how often a job runs: it is read only when a handler raises,
  so a job whose worker dies each time (an import that exhausts its memory) is claimed and started
  again without end, whatever \<open>max_attempts\<close> is.
\<close>

theorem lost_claims_escape_budget:
  assumes "Kind_Import \<in> set (wc_kinds W)"
  shows "\<exists>s. reachable W cap hash s \<and> sys_started s = map (\<lambda>k. (''i'', Suc k)) [0..<n]"
proof -
  let ?j0 = "new_job ''i'' Kind_Import Job_Queued ''u'' ''user'' None [] 0"
  have "\<exists>s j. reachable W cap hash s \<and> db_jobs (sys_db s) = [j] \<and> sys_tasks s = [] \<and> job_id j = ''i'' \<and>
      job_kind j = Kind_Import \<and> job_attempts j = n \<and> (\<exists>now. claimable W now j) \<and>
      sys_started s = map (\<lambda>k. (''i'', Suc k)) [0..<n]"
  proof (induction n)
    case 0
    let ?db = "empty_admin_db\<lparr>db_jobs := [?j0]\<rparr>"
    have "client_step cap hash (sys_db init_system) ?db"
      by (rule client_step.enqueue [of "''i''" Kind_Import "''u''" "''user''" None "[]" 0])
        (simp add: enqueue_job_def insert_job_def find_job_def init_system_def empty_admin_db_def new_job_def)
    from reachable.step [OF reachable.init sys_step.client [OF this]]
    have "reachable W cap hash (init_system\<lparr>sys_db := ?db\<rparr>)" .
    moreover have "claimable W 0 ?j0" using assms by (simp add: claimable_def new_job_def)
    ultimately show ?case
      by (intro exI [of _ "init_system\<lparr>sys_db := ?db\<rparr>"] exI [of _ ?j0]) (auto simp: init_system_def new_job_def)
  next
    case (Suc n)
    then obtain s j now where s: "reachable W cap hash s" "db_jobs (sys_db s) = [j]" "sys_tasks s = []" "job_id j = ''i''"
      "job_kind j = Kind_Import" "job_attempts j = n" "claimable W now j" "sys_started s = map (\<lambda>k. (''i'', Suc k)) [0..<n]"
      by blast
    have "claimable W (now + wc_visibility_timeout W + 1) (claimed W now j)"
      using assms s(5) by (simp add: claimable_def claimed_def)
    moreover obtain s' where "reachable W cap hash s'" "db_jobs (sys_db s') = [claimed W now j]" "sys_tasks s' = []"
      "sys_started s' = sys_started s @ [(job_id j, Suc (job_attempts j))]"
      using claim_start_die [OF s(1-3,5,7)] by blast
    ultimately show ?case
      using s by (intro exI [of _ s'] exI [of _ "claimed W now j"]) (auto simp: claimed_def)
  qed
  then show ?thesis by blast
qed

theorem lost_claims_escape_budget_witness:
  "wc_max_attempts sample_worker = 3 \<and>
   (\<exists>s. reachable sample_worker 1 sample_hash s \<and> length (sys_started s) = 1000)"
proof -
  have "Kind_Import \<in> set (wc_kinds sample_worker)" by (simp add: sample_worker_def)
  from lost_claims_escape_budget [OF this, of 1 sample_hash 1000]
  obtain s where "reachable sample_worker 1 sample_hash s" "sys_started s = map (\<lambda>k. (''i'', Suc k)) [0..<1000]" by blast
  then show ?thesis by (auto simp: sample_worker_def intro!: exI [of _ s])
qed

text \<open>
  An approved call that fails is reported as a failed import: its job ends \<open>FAILED\<close> and the event
  written, which telemetry reads as a failed spec import, is \<open>import.failed\<close>, although the job is an
  execution.
\<close>

theorem approved_failure_reports_import:
  assumes "find_job (job_id t) db = Some j" "job_kind t = Kind_Execution" "job_status j = Job_Running"
    and "job_attempts j = job_attempts t" "approved_hold (job_id t) db \<noteq> None"
  shows "\<exists>e. db_events (handle_failure W t err now db) = db_events db @ [e] \<and> ev_job_id e = Some (job_id t) \<and>
    ev_type e = ''import.failed''"
  using assms find_job_Some [OF assms(1)]
  by (simp add: handle_failure_def terminal_job_def Let_def add_event_def update_jobs_def job_event_def)

theorem approved_failure_reports_import_witness:
  "let db = update_jobs (\<lambda>_. True) (claimed sample_worker 2) approved_db; t = hd (db_jobs db) in
   \<exists>e. db_events (handle_failure sample_worker t ''boom'' 3 db) = db_events db @ [e] \<and> ev_type e = ''import.failed''"
proof -
  let ?db = "update_jobs (\<lambda>_. True) (claimed sample_worker 2) approved_db"
  have rows: "db_jobs ?db = [claimed sample_worker 2 (new_job ''j'' Kind_Execution Job_Queued ''a'' ''agent'' (Some ''x'') [] 0)]"
    "db_holds ?db = [decide_row Hold_Approved ''u'' None 1 (new_hold sample_request [] ''h'' ''j'' 60)]"
    by (simp_all add: update_jobs_def approved_db_rows)
  have "\<exists>e. db_events (handle_failure sample_worker (hd (db_jobs ?db)) ''boom'' 3 ?db) = db_events ?db @ [e] \<and>
      ev_job_id e = Some (job_id (hd (db_jobs ?db))) \<and> ev_type e = ''import.failed''"
    by (rule approved_failure_reports_import [where j = "hd (db_jobs ?db)"])
      (simp_all add: find_job_def approved_hold_def rows approved_db_rows claimed_def new_job_def decide_row_def new_hold_def)
  then show ?thesis unfolding Let_def by blast
qed

end
