(* ===== verification/Execution.thy ===== *)
theory Execution
  imports Runner_Registry Credential_Scope
begin

text \<open>
  The execution pipeline both callers run: \<open>broker/services/execution/pipeline.py\<close> (runner envelope,
  then the post-response stages), \<open>service.py\<close> (\<open>run_execution\<close>: one dispatch, one record, its
  events) and \<open>executor.py\<close> (the worker's adapter, which classifies a failure by whether the call was
  dispatched). The world of an execution holds the world of the runners, the rows of the admin
  database, the fates of the transactions still to come, and a log of every dispatched request.
\<close>

section \<open>Trace ids, origins, tags\<close>

definition hex_digit_lower :: "char \<Rightarrow> bool" where
  "hex_digit_lower c = (c \<in> set ''0123456789abcdef'')"

text \<open>\<open>_TRACE_ID_PATTERN\<close>: its \<open>$\<close> also matches before a final newline.\<close>

definition trace_id_matches :: "string \<Rightarrow> bool" where
  "trace_id_matches s =
     (let body = (if s \<noteq> [] \<and> last s = CHR 0x0A then butlast s else s) in
      length body = 32 \<and> list_all hex_digit_lower body)"

definition valid_trace_id_or_none :: "string option \<Rightarrow> string option" where
  "valid_trace_id_or_none t =
     (case t of None \<Rightarrow> None
      | Some s \<Rightarrow> if trace_id_matches s \<and> s \<noteq> replicate 32 (CHR ''0'') then Some s else None)"

definition valid_trace_id_or_minted :: "string \<Rightarrow> string option \<Rightarrow> string" where
  "valid_trace_id_or_minted minted t = (case valid_trace_id_or_none t of Some s \<Rightarrow> s | None \<Rightarrow> minted)"

definition origins :: "string list" where
  "origins = [''cli'', ''dashboard'', ''api'', ''agent'', ''system'', ''mcp'']"

definition origin_or_none :: "string option \<Rightarrow> string option" where
  "origin_or_none t =
     (case t of None \<Rightarrow> None | Some s \<Rightarrow> if s \<noteq> [] \<and> s \<in> set origins then Some s else None)"

definition thirdparty_auth_error_tag :: "int option \<Rightarrow> string option \<Rightarrow> string option" where
  "thirdparty_auth_error_tag http_status vendor =
     (case http_status of
        None \<Rightarrow> None
      | Some s \<Rightarrow>
          if or_nothing vendor
          then (if s = 401 then Some ''auth_thirdparty_unauthorized''
                else if s = 403 then Some ''auth_thirdparty_forbidden'' else None)
          else None)"

section \<open>Contexts and outcomes\<close>

record operation_info =
  oi_id :: string
  oi_path :: "string option"
  oi_method :: "string option"
  oi_relative_path :: "string option"

record request_context =
  rx_url :: string
  rx_method :: string
  rx_trace_id :: string
  rx_toolkit_id :: "string option"
  rx_operation :: "operation_info option"
  rx_api_vendor :: "string option"
  rx_api_name :: "string option"
  rx_api_version :: "string option"
  rx_pinned_revisions :: "json option"
  rx_credential_id :: "string option"
  rx_credential_name :: "string option"

record exec_context =
  ec_execution_id :: string
  ec_toolkit_id :: "string option"
  ec_operation :: "operation_info option"
  ec_api :: "api_reference option"
  ec_trace_id :: string

record exec_outcome =
  xo_result :: runner_result
  xo_context :: exec_context
  xo_origin :: "error_origin option"

definition text_or_empty :: "string option \<Rightarrow> string" where
  "text_or_empty t = (case t of None \<Rightarrow> [] | Some s \<Rightarrow> s)"

definition context_api :: "request_context \<Rightarrow> api_reference option" where
  "context_api rx =
     (if or_nothing (rx_api_vendor rx)
      then Some \<lparr>api_vendor = text_or_empty (rx_api_vendor rx), api_name = text_or_empty (rx_api_name rx),
                 api_version = text_or_empty (rx_api_version rx)\<rparr>
      else None)"

section \<open>The pipeline\<close>

definition enrich_error_origin :: "exec_outcome \<Rightarrow> exec_outcome" where
  "enrich_error_origin o1 =
     (if xo_origin o1 \<noteq> None then o1
      else if 400 \<le> rr_status (xo_result o1) then o1\<lparr>xo_origin := Some Origin_Upstream\<rparr>
      else o1)"

definition default_stages :: "(exec_outcome \<Rightarrow> exec_outcome) list" where
  "default_stages = [enrich_error_origin]"

text \<open>\<open>build_runner\<close>: the retry loop only where the runner can retry and it is enabled, the deadline always.\<close>

definition build_runner ::
  "'w world \<Rightarrow> 'w timeout_scope \<Rightarrow> (real \<Rightarrow> string \<times> json) \<Rightarrow> real \<Rightarrow> (bool \<times> int \<times> real \<times> real \<times> int list) option
     \<Rightarrow> bool \<Rightarrow> 'w runner \<Rightarrow> 'w runner" where
  "build_runner W scope show_s deadline_s retry supports_retries base =
     deadline_run scope show_s deadline_s
       (case retry of
          None \<Rightarrow> base
        | Some (enabled, attempts, base_s, max_s, statuses) \<Rightarrow>
            if enabled \<and> supports_retries
            then retry_run W (init_retry attempts base_s max_s (Some statuses) deadline_s) base
            else base)"

definition pipeline_execute ::
  "(exec_outcome \<Rightarrow> exec_outcome) list \<Rightarrow> 'w runner \<Rightarrow> runner_request \<Rightarrow> exec_context \<Rightarrow> 'w
     \<Rightarrow> (run_error, exec_outcome) result \<times> 'w" where
  "pipeline_execute stages runner request context w =
     (case runner request w of
        (Inl e, w) \<Rightarrow> (Inl e, w)
      | (Inr r, w) \<Rightarrow>
          (Inr (foldl (\<lambda>acc stage. stage acc) \<lparr>xo_result = r, xo_context = context, xo_origin = None\<rparr> stages), w))"

section \<open>Rows and transactions\<close>

datatype exec_status = Exec_Completed | Exec_Failed

record exec_record =
  xr_id :: string
  xr_toolkit_id :: "string option"
  xr_trace_id :: string
  xr_started_at :: real
  xr_status :: exec_status
  xr_duration_ms :: int
  xr_operation :: "operation_info option"
  xr_api :: "string option \<times> string option \<times> string option"
  xr_http_status :: "int option"
  xr_error :: "string option"
  xr_pinned_revisions :: "json option"
  xr_actor_id :: string
  xr_actor_type :: string
  xr_origin :: "string option"
  xr_credential :: "string option \<times> string option"

record exec_event =
  xe_type :: string
  xe_severity :: string
  xe_summary :: string
  xe_requires_action :: bool
  xe_execution_id :: "string option"
  xe_trace_id :: "string option"
  xe_job_id :: "string option"
  xe_created_by :: string
  xe_actor_id :: string
  xe_actor_type :: string
  xe_data :: "(string, json) dict"
  xe_created_at :: real

text \<open>
  What one transaction meets: it commits (an event whose best-effort write failed is missing from
  it), it is rolled back with an error, or it commits and the acknowledgement is lost.
\<close>

datatype tx_fate = Tx_Commit "bool list" | Tx_Fail | Tx_Unacknowledged

text \<open>What the tracking broker keeps: nothing, the outcome returned, the error raised.\<close>

datatype tracked = Not_Dispatched | Call_Returned exec_outcome | Call_Raised run_error

record 'w exec_world =
  xw_inner :: 'w
  xw_fates :: "tx_fate list"
  xw_records :: "exec_record list"
  xw_events :: "exec_event list"
  xw_dispatched :: "runner_request list"
  xw_tracked :: tracked

definition keep_events :: "bool list \<Rightarrow> exec_event list \<Rightarrow> exec_event list" where
  "keep_events flags evs =
     map snd (filter fst (zip (flags @ replicate (length evs - length flags) True) evs))"

text \<open>One transaction: an append-only record, whose taken id is an error, and best-effort events.\<close>

definition write_tx :: "exec_record option \<Rightarrow> exec_event list \<Rightarrow> 'w exec_world \<Rightarrow> bool \<times> 'w exec_world" where
  "write_tx rec evs w =
     (let fate = (case xw_fates w of [] \<Rightarrow> Tx_Commit [] | f # _ \<Rightarrow> f);
          w = w\<lparr>xw_fates := tl (xw_fates w)\<rparr>;
          written = (\<lambda>evs. w\<lparr>xw_records := xw_records w @ (case rec of None \<Rightarrow> [] | Some r \<Rightarrow> [r]),
                             xw_events := xw_events w @ evs\<rparr>) in
      if (case rec of None \<Rightarrow> False | Some r \<Rightarrow> xr_id r \<in> set (map xr_id (xw_records w))) then (False, w)
      else case fate of
        Tx_Commit flags \<Rightarrow> (True, written (keep_events flags evs))
      | Tx_Fail \<Rightarrow> (False, w)
      | Tx_Unacknowledged \<Rightarrow> (False, written evs))"

section \<open>Brokers\<close>

type_synonym 'w exec_broker =
  "runner_request \<Rightarrow> exec_context \<Rightarrow> 'w exec_world \<Rightarrow> (run_error, exec_outcome) result \<times> 'w exec_world"

text \<open>\<open>default_broker\<close>: the pipeline over the runner; the request is logged.\<close>

definition default_broker :: "'w runner \<Rightarrow> 'w exec_broker" where
  "default_broker runner request context w =
     (let (r, inner) = pipeline_execute default_stages runner request context (xw_inner w) in
      (r, w\<lparr>xw_inner := inner, xw_dispatched := xw_dispatched w @ [request]\<rparr>))"

text \<open>\<open>_DispatchTrackingBroker\<close>.\<close>

definition tracking_broker :: "'w exec_broker \<Rightarrow> 'w exec_broker" where
  "tracking_broker inner request context w =
     (let (r, w) = inner request context w in
      (r, w\<lparr>xw_tracked := (case r of Inl e \<Rightarrow> Call_Raised e | Inr x \<Rightarrow> Call_Returned x)\<rparr>))"

section \<open>Running one call\<close>

record exec_call =
  xc_context :: request_context
  xc_body :: "string option"
  xc_headers :: "(string, string) dict option"
  xc_timeout :: real
  xc_execution_id :: "string option"
  xc_actor_id :: string
  xc_actor_type :: string
  xc_origin :: "string option"
  xc_detect :: bool
  xc_signing :: "sigv4_material option"
  xc_emit_lifecycle :: bool

text \<open>
  Repeated-failure detection is an argument here: given the failure's key and the rows its
  transaction sees, the event it adds, if any.
\<close>

record failure_key =
  fk_actor_id :: string
  fk_actor_type :: string
  fk_credential_id :: "string option"
  fk_operation :: "operation_info option"
  fk_trace_id :: "string option"

type_synonym 'w detector =
  "failure_key \<Rightarrow> exec_record list \<Rightarrow> exec_event list \<Rightarrow> 'w \<Rightarrow> exec_event list \<times> 'w"

definition no_detector :: "'w detector" where
  "no_detector key records events w = ([], w)"

definition summary_field_len :: nat where "summary_field_len = 128"

definition tags_data :: "string list \<Rightarrow> (string, json) dict" where
  "tags_data tags = (if tags = [] then [] else [(''tags'', JList (map JStr tags))])"

definition option_list :: "'a option \<Rightarrow> 'a list" where
  "option_list x = (case x of None \<Rightarrow> [] | Some y \<Rightarrow> [y])"

definition lifecycle_event ::
  "exec_call \<Rightarrow> string \<Rightarrow> exec_status \<Rightarrow> string option \<Rightarrow> string option \<Rightarrow> bool \<Rightarrow> real \<Rightarrow> exec_event" where
  "lifecycle_event call execution_id status err tag cancelled now =
     (let base = \<lparr>xe_type = ''execution.completed'', xe_severity = ''info'',
            xe_summary = ''Execution '' @ execution_id @ '' completed'', xe_requires_action = False,
            xe_execution_id = Some execution_id,
            xe_trace_id = valid_trace_id_or_none (Some (rx_trace_id (xc_context call))), xe_job_id = None,
            xe_created_by = xc_actor_id call, xe_actor_id = xc_actor_id call, xe_actor_type = xc_actor_type call,
            xe_data = tags_data (option_list (origin_or_none (xc_origin call))), xe_created_at = now\<rparr> in
      if status = Exec_Completed then base
      else base\<lparr>xe_type := ''execution.failed'', xe_severity := ''error'',
             xe_summary := ''Execution failed: '' @
               take summary_field_len (case err of Some (c # cs) \<Rightarrow> c # cs | _ \<Rightarrow> ''unknown''),
             xe_requires_action := \<not> cancelled,
             xe_data := tags_data (option_list tag @ option_list (origin_or_none (xc_origin call)))\<rparr>)"

definition exec_record_of ::
  "exec_call \<Rightarrow> string \<Rightarrow> real \<Rightarrow> exec_status \<Rightarrow> int option \<Rightarrow> int \<Rightarrow> string option \<Rightarrow> exec_record" where
  "exec_record_of call execution_id started status http duration err =
     (let rx = xc_context call in
      \<lparr>xr_id = execution_id, xr_toolkit_id = (if or_nothing (rx_toolkit_id rx) then rx_toolkit_id rx else None),
       xr_trace_id = rx_trace_id rx, xr_started_at = started, xr_status = status, xr_duration_ms = duration,
       xr_operation = rx_operation rx, xr_api = (rx_api_vendor rx, rx_api_name rx, rx_api_version rx),
       xr_http_status = http, xr_error = err, xr_pinned_revisions = rx_pinned_revisions rx,
       xr_actor_id = xc_actor_id call, xr_actor_type = xc_actor_type call, xr_origin = xc_origin call,
       xr_credential = (rx_credential_id rx, rx_credential_name rx)\<rparr>)"

text \<open>\<open>_emit_execution_lifecycle\<close>: the event, and detection on a failure that was not a cancellation.\<close>

definition emit_lifecycle ::
  "'w detector \<Rightarrow> exec_call \<Rightarrow> exec_record \<Rightarrow> string option \<Rightarrow> bool \<Rightarrow> real \<Rightarrow> 'w exec_world
     \<Rightarrow> exec_event list \<times> 'w exec_world" where
  "emit_lifecycle detect call rec tag cancelled now w =
     (let e = lifecycle_event call (xr_id rec) (xr_status rec) (xr_error rec) tag cancelled now in
      if xr_status rec = Exec_Failed \<and> xc_detect call \<and> \<not> cancelled then
        (let key = \<lparr>fk_actor_id = xc_actor_id call, fk_actor_type = xc_actor_type call,
               fk_credential_id = rx_credential_id (xc_context call), fk_operation = rx_operation (xc_context call),
               fk_trace_id = xe_trace_id e\<rparr>;
             (more_events, inner) = detect key (xw_records w @ [rec]) (xw_events w @ [e]) (xw_inner w) in
         (e # more_events, w\<lparr>xw_inner := inner\<rparr>))
      else ([e], w))"

definition circuit_open_event :: "exec_call \<Rightarrow> real \<Rightarrow> (url_error, exec_event) result" where
  "circuit_open_event call now =
     rbind (urlparse (rx_url (xc_context call))) (\<lambda>(p, _).
       let host = (if url_netloc p = [] then ''<unknown>'' else url_netloc p) in
       Inr \<lparr>xe_type = ''upstream.circuit_open'', xe_severity = ''warning'',
            xe_summary = ''Circuit breaker opened for upstream '' @ host, xe_requires_action = False,
            xe_execution_id = None, xe_trace_id = None, xe_job_id = None, xe_created_by = xc_actor_id call,
            xe_actor_id = xc_actor_id call, xe_actor_type = xc_actor_type call,
            xe_data = [(''host'', JStr host)], xe_created_at = now\<rparr>)"

text \<open>The exception that leaves \<open>run_execution\<close>: the one of the call, or one of its transaction.\<close>

datatype exec_failure = Broker_Raised run_error | Record_Raised

definition upstream_returned :: "int \<Rightarrow> string" where
  "upstream_returned s = ''Upstream returned '' @ str_of_int s"

definition runner_request_of :: "exec_call \<Rightarrow> runner_request" where
  "runner_request_of call =
     \<lparr>rq_method = rx_method (xc_context call), rq_url = rx_url (xc_context call),
      rq_headers = (case xc_headers call of None \<Rightarrow> [] | Some h \<Rightarrow> h), rq_body = xc_body call,
      rq_timeout = xc_timeout call, rq_signing = xc_signing call\<rparr>"

definition exec_context_of :: "exec_call \<Rightarrow> string \<Rightarrow> exec_context" where
  "exec_context_of call execution_id =
     (let rx = xc_context call in
      \<lparr>ec_execution_id = execution_id, ec_toolkit_id = rx_toolkit_id rx, ec_operation = rx_operation rx,
       ec_api = context_api rx, ec_trace_id = rx_trace_id rx\<rparr>)"

text \<open>A domain error is recorded, then raised again; any other exception leaves no record.\<close>

definition record_broker_error ::
  "'w detector \<Rightarrow> exec_call \<Rightarrow> string \<Rightarrow> real \<Rightarrow> real \<Rightarrow> broker_error \<Rightarrow> 'w exec_world \<Rightarrow> bool \<times> 'w exec_world" where
  "record_broker_error detect call execution_id started now e w =
     (let rec = exec_record_of call execution_id started Exec_Failed None 0 (Some (take 128 (be_detail e)));
          (evs, w) = (if xc_emit_lifecycle call then emit_lifecycle detect call rec None False now w else ([], w)) in
      case (if be_class e = Circuit_Open \<and> be_report e then map_sum id (\<lambda>x. [x]) (circuit_open_event call now) else Inr []) of
        Inl _ \<Rightarrow> (False, w\<lparr>xw_fates := tl (xw_fates w)\<rparr>)
      | Inr circuit \<Rightarrow> write_tx (Some rec) (evs @ circuit) w)"

definition record_outcome ::
  "'w detector \<Rightarrow> exec_call \<Rightarrow> string \<Rightarrow> real \<Rightarrow> real \<Rightarrow> runner_result \<Rightarrow> 'w exec_world \<Rightarrow> bool \<times> 'w exec_world" where
  "record_outcome detect call execution_id started now r w =
     (let status = (if 400 \<le> rr_status r then Exec_Failed else Exec_Completed);
          rec = exec_record_of call execution_id started status (Some (rr_status r)) (rr_duration_ms r)
                  (if status = Exec_Failed then Some (upstream_returned (rr_status r)) else None);
          tag = thirdparty_auth_error_tag (Some (rr_status r)) (rx_api_vendor (xc_context call));
          (evs, w) = (if xc_emit_lifecycle call then emit_lifecycle detect call rec tag False now w else ([], w)) in
      write_tx (Some rec) evs w)"

definition call_id :: "string \<Rightarrow> exec_call \<Rightarrow> string" where
  "call_id minted call = (if or_nothing (xc_execution_id call) then text_or_empty (xc_execution_id call) else minted)"

definition run_execution ::
  "'w detector \<Rightarrow> 'w exec_broker \<Rightarrow> string \<Rightarrow> real \<Rightarrow> real \<Rightarrow> exec_call \<Rightarrow> 'w exec_world
     \<Rightarrow> (exec_failure, exec_outcome) result \<times> 'w exec_world" where
  "run_execution detect broker minted started now call w =
     (let execution_id = call_id minted call in
      case broker (runner_request_of call) (exec_context_of call execution_id) w of
        (Inl (Domain e), w) \<Rightarrow>
          (case record_broker_error detect call execution_id started now e w of
             (True, w) \<Rightarrow> (Inl (Broker_Raised (Domain e)), w)
           | (False, w) \<Rightarrow> (Inl Record_Raised, w))
      | (Inl err, w) \<Rightarrow> (Inl (Broker_Raised err), w)
      | (Inr outcome, w) \<Rightarrow>
          (case record_outcome detect call execution_id started now (xo_result outcome) w of
             (True, w) \<Rightarrow> (Inr outcome, w)
           | (False, w) \<Rightarrow> (Inl Record_Raised, w)))"

text \<open>\<open>persist_streaming_execution\<close>: a streamed call's record, written once its end is known.\<close>

definition persist_streaming_execution ::
  "'w detector \<Rightarrow> exec_call \<Rightarrow> string \<Rightarrow> real \<Rightarrow> real \<Rightarrow> exec_status \<Rightarrow> int option \<Rightarrow> int \<Rightarrow> string option
     \<Rightarrow> bool \<Rightarrow> 'w exec_world \<Rightarrow> bool \<times> 'w exec_world" where
  "persist_streaming_execution detect call execution_id started now status http duration err cancelled w =
     (let rec = exec_record_of call execution_id started status http duration err;
          tag = thirdparty_auth_error_tag http (rx_api_vendor (xc_context call));
          (evs, w) = emit_lifecycle detect call rec tag cancelled now w in
      write_tx (Some rec) evs w)"

section \<open>The worker's adapter\<close>

record exec_result =
  xs_status :: int
  xs_body :: string
  xs_content_type :: "string option"
  xs_duration_ms :: int

datatype executor_error =
    Selection_Failed select_error
  | Propagated exec_failure
  | Record_Not_Persisted "exec_result option" "string option" bool

definition exec_result_of :: "exec_outcome \<Rightarrow> exec_result" where
  "exec_result_of x =
     \<lparr>xs_status = rr_status (xo_result x), xs_body = rr_body (xo_result x),
      xs_content_type = rr_content_type (xo_result x), xs_duration_ms = rr_duration_ms (xo_result x)\<rparr>"

text \<open>The name of an exception's class.\<close>

fun error_type_name :: "run_error \<Rightarrow> string" where
  "error_type_name (Domain e) = ''BrokerError''"
| "error_type_name Timeout_Error = ''TimeoutError''"
| "error_type_name (Store_Failure (Capacity_Error _ _ _ _)) = ''StateBackendCapacityError''"
| "error_type_name (Store_Failure Value_Error) = ''ValueError''"
| "error_type_name (Ceil_Failure Ceil_Infinity) = ''OverflowError''"
| "error_type_name (Ceil_Failure Ceil_NaN) = ''ValueError''"

definition failure_reason :: "tracked \<Rightarrow> string option" where
  "failure_reason t =
     (case t of
        Call_Raised (Domain e) \<Rightarrow> Some (take 128 (be_detail e))
      | Call_Raised e \<Rightarrow> Some (error_type_name e)
      | _ \<Rightarrow> None)"

definition kept_result :: "tracked \<Rightarrow> exec_result option" where
  "kept_result t = (case t of Call_Returned x \<Rightarrow> Some (exec_result_of x) | _ \<Rightarrow> None)"

definition classify_failure :: "tracked \<Rightarrow> exec_failure \<Rightarrow> executor_error" where
  "classify_failure t f =
     (case t of
        Not_Dispatched \<Rightarrow> Propagated f
      | _ \<Rightarrow>
          (case f of
             Broker_Raised (Domain e) \<Rightarrow> Propagated f
           | Broker_Raised e \<Rightarrow> Record_Not_Persisted (kept_result t) (failure_reason t) True
           | Record_Raised \<Rightarrow> Record_Not_Persisted (kept_result t) (failure_reason t) False))"

definition pipeline_executor ::
  "'w runner registry \<Rightarrow> string \<Rightarrow> real \<Rightarrow> real \<Rightarrow> exec_call \<Rightarrow> 'w exec_world
     \<Rightarrow> (executor_error, exec_result) result \<times> 'w exec_world" where
  "pipeline_executor registry minted started now call w =
     (case select_runner (rx_url (xc_context call)) registry of
        Inl e \<Rightarrow> (Inl (Selection_Failed e), w)
      | Inr runner \<Rightarrow>
          (case run_execution no_detector (tracking_broker (default_broker runner)) minted started now
                  (call\<lparr>xc_emit_lifecycle := False, xc_detect := False\<rparr>) (w\<lparr>xw_tracked := Not_Dispatched\<rparr>) of
             (Inl f, w) \<Rightarrow> (Inl (classify_failure (xw_tracked w) f), w)
           | (Inr x, w) \<Rightarrow> (Inr (exec_result_of x), w)))"

section \<open>One dispatch, one record\<close>

lemma write_tx_frame [simp]: "xw_dispatched (snd (write_tx rec evs w)) = xw_dispatched w" "xw_inner (snd (write_tx rec evs w)) = xw_inner w"
  "xw_tracked (snd (write_tx rec evs w)) = xw_tracked w"
  by (auto simp: write_tx_def Let_def split: tx_fate.splits)

lemma write_tx_True: "write_tx (Some r) evs w = (True, w') \<Longrightarrow> xw_records w' = xw_records w @ [r]"
  by (auto simp: write_tx_def Let_def split: if_splits tx_fate.splits)

lemma write_tx_records: "\<exists>rs. xw_records (snd (write_tx (Some r) evs w)) = xw_records w @ rs \<and> length rs \<le> 1"
  by (auto simp: write_tx_def Let_def split: if_splits tx_fate.splits)

lemma emit_lifecycle_frame:
  "emit_lifecycle detect call rec tag cancelled now w = (evs, w') \<Longrightarrow>
   xw_records w' = xw_records w \<and> xw_dispatched w' = xw_dispatched w \<and> xw_tracked w' = xw_tracked w"
  by (auto simp: emit_lifecycle_def Let_def split: if_splits prod.splits)

text \<open>What a recording step leaves: at most one more record, and the given one when it succeeds.\<close>

definition records_one :: "'w exec_world \<Rightarrow> bool \<times> 'w exec_world \<Rightarrow> (exec_record \<Rightarrow> bool) \<Rightarrow> bool" where
  "records_one w res p =
     (xw_dispatched (snd res) = xw_dispatched w \<and> xw_tracked (snd res) = xw_tracked w \<and>
      (\<exists>rs. xw_records (snd res) = xw_records w @ rs \<and> length rs \<le> 1 \<and> (fst res \<longrightarrow> (\<exists>r. rs = [r] \<and> p r))))"

lemma records_one_tx:
  assumes "xw_records w1 = xw_records w" "xw_dispatched w1 = xw_dispatched w" "xw_tracked w1 = xw_tracked w" "p r"
  shows "records_one w (write_tx (Some r) evs w1) p"
proof (cases "write_tx (Some r) evs w1")
  case (Pair ok w2)
  then show ?thesis
    using write_tx_frame [of "Some r" evs w1] write_tx_records [of r evs w1] write_tx_True [of r evs w1 w2] assms
    by (cases ok) (auto simp: records_one_def)
qed

definition failed_record :: "string \<Rightarrow> broker_error \<Rightarrow> exec_record \<Rightarrow> bool" where
  "failed_record i e r =
     (xr_id r = i \<and> xr_status r = Exec_Failed \<and> xr_http_status r = None \<and> xr_error r = Some (take 128 (be_detail e)))"

definition outcome_record :: "string \<Rightarrow> runner_result \<Rightarrow> exec_record \<Rightarrow> bool" where
  "outcome_record i x r =
     (xr_id r = i \<and> xr_http_status r = Some (rr_status x) \<and> (xr_status r = Exec_Failed) = (400 \<le> rr_status x) \<and>
      xr_error r = (if 400 \<le> rr_status x then Some (upstream_returned (rr_status x)) else None) \<and>
      xr_duration_ms r = rr_duration_ms x)"

lemma record_broker_error_one:
  "records_one w (record_broker_error detect call i started now e w) (failed_record i e)"
proof -
  define rec where "rec = exec_record_of call i started Exec_Failed None 0 (Some (take 128 (be_detail e)))"
  have r: "failed_record i e rec" by (simp add: rec_def failed_record_def exec_record_of_def Let_def)
  obtain evs w1 where l: "(if xc_emit_lifecycle call then emit_lifecycle detect call rec None False now w else ([], w)) = (evs, w1)"
    by fastforce
  then have f: "xw_records w1 = xw_records w" "xw_dispatched w1 = xw_dispatched w" "xw_tracked w1 = xw_tracked w"
    by (auto dest: emit_lifecycle_frame split: if_splits)
  show ?thesis
    unfolding record_broker_error_def rec_def [symmetric] Let_def l prod.case
    using records_one_tx [where p = "failed_record i e" and r = rec, OF f r] f by (auto simp: records_one_def split: sum.splits)
qed

lemma record_outcome_one: "records_one w (record_outcome detect call i started now x w) (outcome_record i x)"
proof -
  define st where "st = (if 400 \<le> rr_status x then Exec_Failed else Exec_Completed)"
  define rec where "rec = exec_record_of call i started st (Some (rr_status x)) (rr_duration_ms x)
    (if st = Exec_Failed then Some (upstream_returned (rr_status x)) else None)"
  have r: "outcome_record i x rec" by (simp add: rec_def st_def outcome_record_def exec_record_of_def Let_def)
  let ?tag = "thirdparty_auth_error_tag (Some (rr_status x)) (rx_api_vendor (xc_context call))"
  obtain evs w1 where l: "(if xc_emit_lifecycle call then emit_lifecycle detect call rec ?tag False now w else ([], w)) = (evs, w1)"
    by fastforce
  then have f: "xw_records w1 = xw_records w" "xw_dispatched w1 = xw_dispatched w" "xw_tracked w1 = xw_tracked w"
    by (auto dest: emit_lifecycle_frame split: if_splits)
  show ?thesis
    unfolding record_outcome_def st_def [symmetric] Let_def rec_def [symmetric] l prod.case
    by (rule records_one_tx [where p = "outcome_record i x" and r = rec, OF f r])
qed

text \<open>What \<open>run_execution\<close> asks of a broker: a call is one dispatch, and writes no row.\<close>

locale execution_broker =
  fixes broker :: "'w exec_broker"
  assumes dispatches: "xw_dispatched (snd (broker rq ctx w)) = xw_dispatched w @ [rq]"
    and no_rows: "xw_records (snd (broker rq ctx w)) = xw_records w"
begin

lemma run_one:
  assumes "run_execution detect broker minted started now call w = (r, w')"
  shows "xw_dispatched w' = xw_dispatched w @ [runner_request_of call] \<and>
    (\<exists>rs. xw_records w' = xw_records w @ rs \<and>
       (case r of
          Inr x \<Rightarrow> \<exists>rec. rs = [rec] \<and> outcome_record (call_id minted call) (xo_result x) rec
        | Inl Record_Raised \<Rightarrow> length rs \<le> 1
        | Inl (Broker_Raised e) \<Rightarrow>
            (case e of Domain b \<Rightarrow> \<exists>rec. rs = [rec] \<and> failed_record (call_id minted call) b rec | _ \<Rightarrow> rs = [])))"
proof -
  let ?i = "call_id minted call"
  obtain res w1 where b: "broker (runner_request_of call) (exec_context_of call ?i) w = (res, w1)" by fastforce
  have f: "xw_dispatched w1 = xw_dispatched w @ [runner_request_of call]" "xw_records w1 = xw_records w"
    using dispatches [of "runner_request_of call" "exec_context_of call ?i" w] no_rows [of "runner_request_of call" "exec_context_of call ?i" w]
    by (simp_all add: b)
  note run = assms [unfolded run_execution_def Let_def b]
  show ?thesis
  proof (cases res)
    case (Inr x)
    note one = record_outcome_one [of w1 detect call ?i started now "xo_result x"]
    obtain ok w2 where "record_outcome detect call ?i started now (xo_result x) w1 = (ok, w2)" by fastforce
    then show ?thesis using run one f Inr by (cases ok) (auto simp: records_one_def)
  next
    case (Inl e)
    show ?thesis
    proof (cases e)
      case (Domain d)
      note one = record_broker_error_one [of w1 detect call ?i started now d]
      obtain ok w2 where "record_broker_error detect call ?i started now d w1 = (ok, w2)" by fastforce
      then show ?thesis using run one f Inl Domain by (cases ok) (auto simp: records_one_def)
    qed (use run f Inl in auto)
  qed
qed

end

interpretation direct: execution_broker "default_broker runner" for runner
  by unfold_locales (simp_all add: default_broker_def Let_def split: prod.splits)

interpretation tracking: execution_broker "tracking_broker (default_broker runner)" for runner
  by unfold_locales (simp_all add: tracking_broker_def default_broker_def Let_def split: prod.splits)

lemma run_execution_Inr:
  "run_execution detect broker minted started now call w = (Inr x, w') \<Longrightarrow>
   \<exists>w1. broker (runner_request_of call) (exec_context_of call (call_id minted call)) w = (Inr x, w1)"
  by (auto simp: run_execution_def Let_def split: prod.splits sum.splits run_error.splits bool.splits)

lemma default_broker_origin:
  "default_broker runner rq ctx w = (Inr x, w') \<Longrightarrow> xo_origin x = (if 400 \<le> rr_status (xo_result x) then Some Origin_Upstream else None)"
  by (auto simp: default_broker_def pipeline_execute_def default_stages_def enrich_error_origin_def Let_def
      split: prod.splits sum.splits if_splits)

text \<open>
  C19: however the runner answers and whatever its transaction meets, running an execution
  dispatches exactly one request. A returned outcome has exactly one record, with the upstream's status, failed
  exactly from 400 up and then tagged as the upstream's error; a domain error raised again has exactly one failed record
  without a status, carrying its detail; any other error has none; and when the record could not be confirmed there is
  at most one.
\<close>

theorem one_dispatch_one_record:
  assumes "run_execution detect (default_broker runner) minted started now call w = (r, w')"
  shows "xw_dispatched w' = xw_dispatched w @ [runner_request_of call] \<and>
    (\<exists>rs. xw_records w' = xw_records w @ rs \<and>
       (case r of
          Inr x \<Rightarrow> (\<exists>rec. rs = [rec] \<and> outcome_record (call_id minted call) (xo_result x) rec) \<and>
            xo_origin x = (if 400 \<le> rr_status (xo_result x) then Some Origin_Upstream else None)
        | Inl Record_Raised \<Rightarrow> length rs \<le> 1
        | Inl (Broker_Raised e) \<Rightarrow>
            (case e of Domain b \<Rightarrow> \<exists>rec. rs = [rec] \<and> failed_record (call_id minted call) b rec | _ \<Rightarrow> rs = [])))"
proof -
  have "xo_origin x = (if 400 \<le> rr_status (xo_result x) then Some Origin_Upstream else None)" if "r = Inr x" for x
    using run_execution_Inr [OF assms [unfolded that]] default_broker_origin by blast
  with direct.run_one [OF assms] show ?thesis by (cases r) auto
qed

definition sample_call :: exec_call where
  "sample_call =
     \<lparr>xc_context = \<lparr>rx_url = ''https://api.acme/v1'', rx_method = ''POST'', rx_trace_id = replicate 32 (CHR ''a''),
        rx_toolkit_id = None, rx_operation = None, rx_api_vendor = Some ''acme'', rx_api_name = None, rx_api_version = None,
        rx_pinned_revisions = None, rx_credential_id = Some ''c'', rx_credential_name = None\<rparr>,
      xc_body = None, xc_headers = None, xc_timeout = 30, xc_execution_id = Some ''exec_1'', xc_actor_id = ''a'',
      xc_actor_type = ''agent'', xc_origin = Some ''mcp'', xc_detect = True, xc_signing = None, xc_emit_lifecycle = True\<rparr>"

definition fresh_world :: "'w \<Rightarrow> 'w exec_world" where
  "fresh_world w = \<lparr>xw_inner = w, xw_fates = [], xw_records = [], xw_events = [], xw_dispatched = [], xw_tracked = Not_Dispatched\<rparr>"

definition refusing_runner :: "int \<Rightarrow> unit runner" where
  "refusing_runner status request w =
     (Inr \<lparr>rr_status = status, rr_body = ''no'', rr_headers = [], rr_content_type = None, rr_duration_ms = 7\<rparr>, w)"

lemma one_dispatch_one_record_witness:
  "case run_execution no_detector (default_broker (refusing_runner 401)) ''m'' 1 2 sample_call (fresh_world ()) of
     (Inr x, w) \<Rightarrow> map rq_url (xw_dispatched w) = [''https://api.acme/v1''] \<and> xo_origin x = Some Origin_Upstream \<and>
       map xr_http_status (xw_records w) = [Some 401] \<and> map xe_type (xw_events w) = [''execution.failed'']
   | _ \<Rightarrow> False"
proof -
  obtain r w where rw: "run_execution no_detector (default_broker (refusing_runner 401)) ''m'' 1 2 sample_call (fresh_world ()) = (r, w)"
    by fastforce
  have "case run_execution no_detector (default_broker (refusing_runner 401)) ''m'' 1 2 sample_call (fresh_world ()) of
     (Inr x, w) \<Rightarrow> xo_origin x = Some Origin_Upstream \<and>
       map xr_http_status (xw_records w) = [Some 401] \<and> map xe_type (xw_events w) = [''execution.failed'']
   | _ \<Rightarrow> False" by code_simp
  with one_dispatch_one_record [OF rw] show ?thesis unfolding rw
    by (auto simp: fresh_world_def runner_request_of_def sample_call_def split: sum.splits)
qed

section \<open>What the worker is told\<close>

lemma run_execution_tracked:
  assumes "run_execution detect (tracking_broker (default_broker runner)) minted started now call w = (r, w')"
  shows "(case fst (runner (runner_request_of call) (xw_inner w)) of
      Inl e \<Rightarrow> xw_tracked w' = Call_Raised e \<and> r = Inl (if \<exists>d. e = Domain d \<and> r \<noteq> Inl Record_Raised then Broker_Raised e else
          if \<exists>d. e = Domain d then Record_Raised else Broker_Raised e)
    | Inr y \<Rightarrow> \<exists>x. xw_tracked w' = Call_Returned x \<and> xo_result x = y \<and> (r = Inr x \<or> r = Inl Record_Raised))"
proof -
  let ?i = "call_id minted call"
  let ?rq = "runner_request_of call"
  obtain res inner where run: "runner ?rq (xw_inner w) = (res, inner)" by fastforce
  show ?thesis
  proof (cases res)
    case (Inl e)
    let ?w1 = "w\<lparr>xw_inner := inner, xw_dispatched := xw_dispatched w @ [?rq], xw_tracked := Call_Raised e\<rparr>"
    have b: "tracking_broker (default_broker runner) ?rq (exec_context_of call ?i) w = (Inl e, ?w1)"
      by (simp add: tracking_broker_def default_broker_def pipeline_execute_def run Inl)
    note a = assms [unfolded run_execution_def Let_def b]
    show ?thesis
    proof (cases e)
      case (Domain d)
      obtain ok w2 where o: "record_broker_error detect call ?i started now d ?w1 = (ok, w2)" by fastforce
      have "xw_tracked w2 = Call_Raised e"
        using record_broker_error_one [of ?w1 detect call ?i started now d] by (simp add: records_one_def o)
      then show ?thesis using a o Domain run Inl by (cases ok) auto
    qed (use a run Inl in auto)
  next
    case (Inr y)
    define x where "x = foldl (\<lambda>acc stage. stage acc) \<lparr>xo_result = y, xo_context = exec_context_of call ?i, xo_origin = None\<rparr> default_stages"
    have y: "xo_result x = y" by (simp add: x_def default_stages_def enrich_error_origin_def)
    let ?w1 = "w\<lparr>xw_inner := inner, xw_dispatched := xw_dispatched w @ [?rq], xw_tracked := Call_Returned x\<rparr>"
    have b: "tracking_broker (default_broker runner) ?rq (exec_context_of call ?i) w = (Inr x, ?w1)"
      by (simp add: tracking_broker_def default_broker_def pipeline_execute_def run Inr x_def)
    note a = assms [unfolded run_execution_def Let_def b]
    obtain ok w2 where o: "record_outcome detect call ?i started now (xo_result x) ?w1 = (ok, w2)" by fastforce
    have "xw_tracked w2 = Call_Returned x"
      using record_outcome_one [of ?w1 detect call ?i started now "xo_result x"] by (simp add: records_one_def o)
    then show ?thesis using a o y run Inr by (cases ok) auto
  qed
qed

lemma executor_dispatches:
  "xw_dispatched (snd (pipeline_executor registry minted started now call w)) \<in> {xw_dispatched w, xw_dispatched w @ [runner_request_of call]}"
proof (cases "select_runner (rx_url (xc_context call)) registry")
  case (Inl e)
  then show ?thesis by (simp add: pipeline_executor_def)
next
  case (Inr runner)
  let ?call = "call\<lparr>xc_emit_lifecycle := False, xc_detect := False\<rparr>" and ?w = "w\<lparr>xw_tracked := Not_Dispatched\<rparr>"
  obtain res w2 where run: "run_execution no_detector (tracking_broker (default_broker runner)) minted started now ?call ?w = (res, w2)"
    by fastforce
  have "xw_dispatched w2 = xw_dispatched w @ [runner_request_of call]"
    using tracking.run_one [OF run] by (simp add: runner_request_of_def)
  then show ?thesis by (simp add: pipeline_executor_def Inr run split: sum.splits)
qed

definition result_of_runner :: "runner_result \<Rightarrow> exec_result" where
  "result_of_runner y =
     \<lparr>xs_status = rr_status y, xs_body = rr_body y, xs_content_type = rr_content_type y, xs_duration_ms = rr_duration_ms y\<rparr>"

text \<open>
  C24: the worker learns what the upstream did. If the runner cannot be selected, nothing happened. Otherwise
  exactly one request was dispatched, and what the executor says follows the runner's own answer: a result is the runner's, with its
  status, body, content type and duration, and its record is committed; an error propagated as itself is the runner's
  domain error, and its failed record is committed; any other failure says that the record is in doubt and carries the very result the
  upstream gave, or the broker's reason, or that the call crashed.
\<close>

theorem executor_reports_truth:
  assumes "pipeline_executor registry minted started now call w = (r, w')"
  shows "case select_runner (rx_url (xc_context call)) registry of
      Inl e \<Rightarrow> r = Inl (Selection_Failed e) \<and> w' = w
    | Inr runner \<Rightarrow>
        xw_dispatched w' = xw_dispatched w @ [runner_request_of call] \<and>
        (case r of
           Inr x \<Rightarrow> \<exists>y rec. fst (runner (runner_request_of call) (xw_inner w)) = Inr y \<and> x = result_of_runner y \<and>
             xw_records w' = xw_records w @ [rec] \<and> outcome_record (call_id minted call) y rec
         | Inl (Selection_Failed e) \<Rightarrow> False
         | Inl (Propagated f) \<Rightarrow> \<exists>e rec. fst (runner (runner_request_of call) (xw_inner w)) = Inl (Domain e) \<and>
             f = Broker_Raised (Domain e) \<and> xw_records w' = xw_records w @ [rec] \<and> failed_record (call_id minted call) e rec
         | Inl (Record_Not_Persisted res reason crashed) \<Rightarrow>
             (case fst (runner (runner_request_of call) (xw_inner w)) of
                Inr y \<Rightarrow> \<not> crashed \<and> res = Some (result_of_runner y)
              | Inl (Domain e) \<Rightarrow> \<not> crashed \<and> res = None \<and> reason = Some (take 128 (be_detail e))
              | Inl e \<Rightarrow> crashed \<and> res = None \<and> reason = Some (error_type_name e)))"
proof (cases "select_runner (rx_url (xc_context call)) registry")
  case (Inl e)
  then show ?thesis using assms by (simp add: pipeline_executor_def)
next
  case (Inr runner)
  let ?call = "call\<lparr>xc_emit_lifecycle := False, xc_detect := False\<rparr>" and ?w = "w\<lparr>xw_tracked := Not_Dispatched\<rparr>"
  have same: "runner_request_of ?call = runner_request_of call" "call_id minted ?call = call_id minted call"
    by (simp_all add: runner_request_of_def call_id_def)
  obtain res w2 where run: "run_execution no_detector (tracking_broker (default_broker runner)) minted started now ?call ?w = (res, w2)"
    by fastforce
  note one = tracking.run_one [OF run, unfolded same] and tracked = run_execution_tracked [OF run, unfolded same]
  note of_runner = exec_result_of_def result_of_runner_def
  have w': "w' = w2" "r = (case res of Inl f \<Rightarrow> Inl (classify_failure (xw_tracked w2) f) | Inr x \<Rightarrow> Inr (exec_result_of x))"
    using assms by (auto simp: pipeline_executor_def Inr run split: sum.splits)
  show ?thesis
  proof (cases res)
    case (Inr x)
    then have "fst (runner (runner_request_of call) (xw_inner w)) = Inr (xo_result x)"
      using tracked by (auto split: sum.splits)
    then show ?thesis using one w' Inr \<open>select_runner _ _ = Inr runner\<close> by (auto simp: of_runner)
  next
    case (Inl f)
    show ?thesis
    proof (cases "fst (runner (runner_request_of call) (xw_inner w))")
      case (Inr y)
      then have "f = Record_Raised" "\<exists>x. xw_tracked w2 = Call_Returned x \<and> xo_result x = y" using tracked Inl by auto
      then show ?thesis using one w' Inl Inr \<open>select_runner _ _ = Inr runner\<close>
        by (auto simp: classify_failure_def kept_result_def of_runner)
    next
      case e: (Inl e)
      then have "xw_tracked w2 = Call_Raised e" using tracked by simp
      then show ?thesis using one w' Inl e tracked \<open>select_runner _ _ = Inr runner\<close>
        by (cases e) (auto simp: classify_failure_def kept_result_def failure_reason_def split: if_splits)
    qed
  qed
qed

lemma executor_reports_truth_witness:
  "case pipeline_executor (register [''https''] (refusing_runner 200) True empty_registry) ''m'' 1 2 sample_call
      ((fresh_world ())\<lparr>xw_fates := [Tx_Fail]\<rparr>) of
     (Inl (Record_Not_Persisted (Some x) _ False), w) \<Rightarrow> xs_status x = 200 \<and> length (xw_dispatched w) = 1 \<and> xw_records w = []
   | _ \<Rightarrow> False"
proof -
  let ?g = "register [''https''] (refusing_runner 200) True empty_registry" and ?w = "(fresh_world ())\<lparr>xw_fates := [Tx_Fail]\<rparr>"
  obtain r w where rw: "pipeline_executor ?g ''m'' 1 2 sample_call ?w = (r, w)" by fastforce
  have "case pipeline_executor ?g ''m'' 1 2 sample_call ?w of
     (Inl (Record_Not_Persisted (Some x) _ False), w) \<Rightarrow> xs_status x = 200 \<and> xw_records w = [] | _ \<Rightarrow> False" by code_simp
  moreover have "case select_runner (rx_url (xc_context sample_call)) ?g of Inl _ \<Rightarrow> False | Inr _ \<Rightarrow> True" by code_simp
  ultimately show ?thesis using executor_reports_truth [OF rw] unfolding rw
    by (auto simp: fresh_world_def split: sum.splits executor_error.splits option.splits bool.splits)
qed

end
