(* ===== verification/Token_Refresh.thy ===== *)
theory Token_Refresh
  imports Credential_Resolver
begin

text \<open>
  Refreshing an OAuth2 access token: \<open>broker/services/credentials/refresh.py\<close> over the token row of
  \<open>control/repos/oauth_token_repo.py\<close>. The first part is the code's decisions, one definition per
  method. The second is one credential as a concurrent system: any number of broker calls hold
  snapshots of the row while refreshes, connects (\<open>connect_service.py\<close>) and edits of the token endpoint
  (\<open>control/services/credentials/service.py\<close>) interleave under the credential's lock. The provider is
  outside: it may answer with a rotated refresh token or without one, refuse, or answer after the
  caller is gone.
\<close>

section \<open>The row\<close>

record grant_row =
  gr_access :: "string option"
  gr_refresh :: "string option"
  gr_expires_at :: "real option"
  gr_scope :: "string option"
  gr_revoked :: bool
  gr_last_refreshed :: "real option"

text \<open>\<open>update_tokens\<close>: a missing refresh token or scope keeps the stored one; a revocation is lifted.\<close>

definition update_tokens ::
  "string \<Rightarrow> string option \<Rightarrow> real option \<Rightarrow> string option \<Rightarrow> real \<Rightarrow> grant_row option \<Rightarrow> grant_row option" where
  "update_tokens access refresh expires scope now row =
     (case row of
        None \<Rightarrow> None
      | Some r \<Rightarrow>
          Some \<lparr>gr_access = Some access, gr_refresh = (if refresh = None then gr_refresh r else refresh),
                gr_expires_at = expires, gr_scope = (if scope = None then gr_scope r else scope),
                gr_revoked = False, gr_last_refreshed = Some now\<rparr>)"

definition text_of :: "string option \<Rightarrow> string" where
  "text_of t = (case t of None \<Rightarrow> [] | Some s \<Rightarrow> s)"

section \<open>Freshness\<close>

definition is_fresh :: "real option \<Rightarrow> real \<Rightarrow> real \<Rightarrow> bool" where
  "is_fresh expires skew now = (case expires of None \<Rightarrow> True | Some e \<Rightarrow> now < e - skew)"

definition snapshot_valid :: "resolved \<Rightarrow> real \<Rightarrow> real \<Rightarrow> bool" where
  "snapshot_valid r skew now = (rs_encrypted_access_token r \<noteq> None \<and> is_fresh (rs_token_expires_at r) skew now)"

text \<open>
  The environment: the decryption, the provider's skew, which providers mint from an account
  reference, which names the registry knows.
\<close>

record refresh_env =
  tf_decrypt :: "string \<Rightarrow> string option"
  tf_skew :: "string \<Rightarrow> real option"
  tf_mints :: "string \<Rightarrow> bool"
  tf_known :: "string \<Rightarrow> bool"

definition expiry_skew :: "refresh_env \<Rightarrow> string \<Rightarrow> real" where
  "expiry_skew V provider = (case tf_skew V provider of None \<Rightarrow> 60 | Some s \<Rightarrow> s)"

text \<open>What \<open>_refresh_locked\<close> decides over the row it reads under the lock.\<close>

datatype locked_decision = Serve_Stored string | Grant_Missing | Refresh_With resolved

definition with_tokens :: "string option \<Rightarrow> string option \<Rightarrow> real option \<Rightarrow> resolved \<Rightarrow> resolved" where
  "with_tokens access refresh expires r =
     r\<lparr>rs_encrypted_access_token := access, rs_encrypted_refresh_token := refresh, rs_token_expires_at := expires\<rparr>"

definition not_expired :: "real option \<Rightarrow> real \<Rightarrow> bool" where
  "not_expired expires now = (case expires of None \<Rightarrow> True | Some e \<Rightarrow> now < e)"

definition locked_decision :: "refresh_env \<Rightarrow> grant_row option \<Rightarrow> resolved \<Rightarrow> real \<Rightarrow> locked_decision" where
  "locked_decision V row r now =
     (case row of
        None \<Rightarrow>
          if or_nothing (rs_account_ref r) \<and> tf_mints V (rs_provider r)
          then Refresh_With (with_tokens None None None r) else Grant_Missing
      | Some g \<Rightarrow>
          if gr_revoked g then Grant_Missing
          else (case gr_access g of
                  Some (c # cs) \<Rightarrow>
                    if is_fresh (gr_expires_at g) (expiry_skew V (rs_provider r)) now then Serve_Stored (c # cs)
                    else if Some (c # cs) \<noteq> rs_encrypted_access_token r \<and> not_expired (gr_expires_at g) now
                    then Serve_Stored (c # cs)
                    else Refresh_With (with_tokens (gr_access g) (gr_refresh g) (gr_expires_at g) r)
                | _ \<Rightarrow> Refresh_With (with_tokens (gr_access g) (gr_refresh g) (gr_expires_at g) r)))"

section \<open>The refresh\<close>

datatype refresh_error =
    Refresh_Invalid_Grant string
  | Refresh_Transient string string
  | Refresh_Undecryptable
  | Refresh_Raised string

record fresh_tokens =
  ft_access :: string
  ft_refresh :: "string option"
  ft_expires_at :: "real option"
  ft_scope :: "string option"

text \<open>
  What the provider's \<open>refresh\<close> does: tokens, \<open>InvalidGrantError\<close>, a transport or provider failure by
  its class name, the decryption error of the token view, or any other exception. The view it is
  given is lazy: the refresh token decrypts, is missing, or does not decrypt, when it asks.
\<close>

datatype provider_reply =
  Provider_Granted fresh_tokens | Provider_Invalid_Grant | Provider_Failed string | Provider_Undecryptable | Provider_Raised string

datatype token_view = View_Token string | View_Missing | View_Undecryptable

type_synonym 'v provider = "resolved \<Rightarrow> token_view \<Rightarrow> 'v \<Rightarrow> provider_reply \<times> 'v"

definition token_view_of :: "refresh_env \<Rightarrow> resolved \<Rightarrow> token_view" where
  "token_view_of V r =
     (case rs_encrypted_refresh_token r of
        None \<Rightarrow> View_Missing
      | Some c \<Rightarrow> (case tf_decrypt V c of None \<Rightarrow> View_Undecryptable | Some t \<Rightarrow> View_Token t))"

definition do_refresh ::
  "refresh_env \<Rightarrow> 'v provider \<Rightarrow> resolved \<Rightarrow> 'v \<Rightarrow> (refresh_error, fresh_tokens) result \<times> 'v" where
  "do_refresh V provider r w =
     (let i = rc_credential_id r in
      if \<not> tf_known V (rs_provider r) then (Inl (Refresh_Transient i (''unknown provider: '' @ rs_provider r)), w)
      else (case provider r (token_view_of V r) w of
              (Provider_Granted t, w) \<Rightarrow> (Inr t, w)
            | (Provider_Invalid_Grant, w) \<Rightarrow> (Inl (Refresh_Invalid_Grant i), w)
            | (Provider_Failed name, w) \<Rightarrow> (Inl (Refresh_Transient i name), w)
            | (Provider_Undecryptable, w) \<Rightarrow> (Inl Refresh_Undecryptable, w)
            | (Provider_Raised name, w) \<Rightarrow> (Inl (Refresh_Raised name), w)))"

text \<open>\<open>direct_oauth2.refresh\<close>: the client's material, the refresh token, then the call to the endpoint.\<close>

definition direct_provider ::
  "('v \<Rightarrow> (provider_reply, 'm) result) \<Rightarrow> ('m \<Rightarrow> string \<Rightarrow> 'v \<Rightarrow> provider_reply \<times> 'v) \<Rightarrow> 'v provider" where
  "direct_provider material post r view w =
     (case material w of
        Inl e \<Rightarrow> (e, w)
      | Inr m \<Rightarrow>
          (case view of
             View_Token t \<Rightarrow> post m t w
           | View_Missing \<Rightarrow> (Provider_Failed ''ProviderError'', w)
           | View_Undecryptable \<Rightarrow> (Provider_Undecryptable, w)))"

text \<open>\<open>_refresh_locked\<close> and \<open>ensure_fresh\<close>; \<open>encrypt\<close> draws a fresh nonce, so it is an argument of the call.\<close>

definition refresh_locked ::
  "refresh_env \<Rightarrow> (string \<Rightarrow> string) \<Rightarrow> 'v provider \<Rightarrow> resolved \<Rightarrow> real
     \<Rightarrow> grant_row option \<Rightarrow> 'v \<Rightarrow> (refresh_error, string) result \<times> grant_row option \<times> 'v" where
  "refresh_locked V encrypt provider r now row w =
     (case locked_decision V row r now of
        Serve_Stored c \<Rightarrow>
          ((case tf_decrypt V c of None \<Rightarrow> Inl Refresh_Undecryptable | Some t \<Rightarrow> Inr t), row, w)
      | Grant_Missing \<Rightarrow> (Inl (Refresh_Invalid_Grant (rc_credential_id r)), row, w)
      | Refresh_With r \<Rightarrow>
          (case do_refresh V provider r w of
             (Inl e, w) \<Rightarrow> (Inl e, row, w)
           | (Inr t, w) \<Rightarrow>
               (Inr (ft_access t),
                update_tokens (encrypt (ft_access t))
                  (if or_nothing (ft_refresh t) then map_option encrypt (ft_refresh t) else None)
                  (ft_expires_at t) (ft_scope t) now row, w)))"

definition ensure_fresh ::
  "refresh_env \<Rightarrow> (string \<Rightarrow> string) \<Rightarrow> 'v provider \<Rightarrow> resolved \<Rightarrow> real
     \<Rightarrow> real \<Rightarrow> grant_row option \<Rightarrow> 'v \<Rightarrow> (refresh_error, string) result \<times> grant_row option \<times> 'v" where
  "ensure_fresh V encrypt provider r now locked_now row w =
     (if snapshot_valid r (expiry_skew V (rs_provider r)) now then
        ((case tf_decrypt V (the (rs_encrypted_access_token r)) of None \<Rightarrow> Inl Refresh_Undecryptable | Some t \<Rightarrow> Inr t), row, w)
      else refresh_locked V encrypt provider r locked_now row w)"

section \<open>Token endpoints\<close>

text \<open>\<open>control/services/credentials/token_endpoint.py\<close>: a port that does not parse, or 0, is the scheme's default.\<close>

definition token_origin :: "string \<Rightarrow> (url_error, string \<times> string \<times> nat option) result" where
  "token_origin url =
     rbind (urlsplit url) (\<lambda>p.
       let scheme = str_lower (url_scheme p);
           port = (case netloc_port (url_netloc p) of Inl _ \<Rightarrow> None | Inr q \<Rightarrow> q) in
       Inr (scheme, str_lower (text_of (netloc_hostname (url_netloc p))),
         if port = None \<or> port = Some 0
         then (if scheme = ''http'' then Some 80 else if scheme = ''https'' then Some 443 else None) else port))"

definition same_token_origin :: "string \<Rightarrow> string option \<Rightarrow> (url_error, bool) result" where
  "same_token_origin url stored =
     (if \<not> or_nothing stored then Inr False
      else rbind (token_origin url) (\<lambda>a. rbind (token_origin (the stored)) (\<lambda>b. Inr (a = b))))"

definition minted_at_current_origin :: "string option \<Rightarrow> string option \<Rightarrow> (url_error, bool) result" where
  "minted_at_current_origin minted current =
     (case minted of None \<Rightarrow> Inr True | Some m \<Rightarrow> same_token_origin m current)"

lemma same_token_originD: "same_token_origin a (Some b) = Inr True \<Longrightarrow> token_origin a = token_origin b"
  by (auto simp: same_token_origin_def rbind_Inr_iff split: if_splits)

section \<open>One credential as a concurrent system\<close>

text \<open>
  A call holds its snapshot (\<open>Waiting\<close>), or has sent a refresh token under the lock (\<open>Sending\<close>). What
  the providers know is a ghost: the refresh tokens ever issued, those still live (a rotation
  retires the one it replaces), and the endpoint each was minted at. A sent token is logged with the endpoint it went to
  and whether it was live. \<open>gs_lost\<close>: a rotation happened whose row update did not commit.
\<close>

datatype call_phase = Waiting resolved | Sending resolved string

record grant_system =
  gs_row :: "grant_row option"
  gs_endpoint :: string
  gs_locked :: bool
  gs_calls :: "call_phase list"
  gs_issued :: "string list"
  gs_live :: "string list"
  gs_minted :: "string \<Rightarrow> string"
  gs_sent :: "(string \<times> string \<times> bool) list"
  gs_lost :: bool

text \<open>A new grant or a rotation: the token is new to everyone.\<close>

definition issue_token :: "string \<Rightarrow> string \<Rightarrow> grant_system \<Rightarrow> grant_system" where
  "issue_token n endpoint s =
     s\<lparr>gs_issued := n # gs_issued s, gs_live := n # gs_live s, gs_minted := (gs_minted s)(n := endpoint)\<rparr>"

definition retire_token :: "string \<Rightarrow> grant_system \<Rightarrow> grant_system" where
  "retire_token t s = s\<lparr>gs_live := removeAll t (gs_live s)\<rparr>"

inductive grant_step :: "refresh_env \<Rightarrow> grant_system \<Rightarrow> grant_system \<Rightarrow> bool" for V :: refresh_env where
  snapshot:
    "rs_encrypted_access_token r = Option.bind (gs_row s) gr_access \<Longrightarrow>
     grant_step V s (s\<lparr>gs_calls := gs_calls s @ [Waiting r]\<rparr>)"
| done_without_refresh:
    "gs_calls s = xs @ Waiting r # ys \<Longrightarrow> grant_step V s (s\<lparr>gs_calls := xs @ ys\<rparr>)"
| send:
    "gs_calls s = xs @ Waiting r # ys \<Longrightarrow> \<not> gs_locked s \<Longrightarrow> locked_decision V (gs_row s) r now = Refresh_With r' \<Longrightarrow>
     token_view_of V r' = View_Token t \<Longrightarrow>
     grant_step V s (s\<lparr>gs_calls := xs @ Sending r' t # ys, gs_locked := True,
       gs_sent := gs_sent s @ [(t, gs_endpoint s, t \<in> set (gs_live s))]\<rparr>)"
| answered_rotated:
    "gs_calls s = xs @ Sending r t # ys \<Longrightarrow> t \<in> set (gs_live s) \<Longrightarrow> n \<notin> set (gs_issued s) \<Longrightarrow> n \<noteq> [] \<Longrightarrow>
     tf_decrypt V cn = Some n \<Longrightarrow>
     grant_step V s ((issue_token n (gs_endpoint s) (retire_token t s))\<lparr>gs_calls := xs @ ys, gs_locked := False,
       gs_row := update_tokens ca (Some cn) expires scope now (gs_row s)\<rparr>)"
| answered_unrotated:
    "gs_calls s = xs @ Sending r t # ys \<Longrightarrow> t \<in> set (gs_live s) \<Longrightarrow>
     grant_step V s (s\<lparr>gs_calls := xs @ ys, gs_locked := False,
       gs_row := update_tokens ca None expires scope now (gs_row s)\<rparr>)"
| refused:
    "gs_calls s = xs @ Sending r t # ys \<Longrightarrow> grant_step V s (s\<lparr>gs_calls := xs @ ys, gs_locked := False\<rparr>)"
| answer_lost:
    "gs_calls s = xs @ Sending r t # ys \<Longrightarrow> t \<in> set (gs_live s) \<Longrightarrow> n \<notin> set (gs_issued s) \<Longrightarrow>
     grant_step V s ((issue_token n (gs_endpoint s) (retire_token t s))\<lparr>gs_calls := xs @ ys, gs_locked := False, gs_lost := True\<rparr>)"
| connect:
    "\<not> gs_locked s \<Longrightarrow> minted_at_current_origin (Some minted) (Some (gs_endpoint s)) = Inr True \<Longrightarrow>
     n \<notin> set (gs_issued s) \<Longrightarrow> tf_decrypt V cn = Some n \<Longrightarrow>
     row' = (case gs_row s of
       Some _ \<Rightarrow> update_tokens ca (Some cn) expires scope now (gs_row s)
     | None \<Rightarrow> Some \<lparr>gr_access = Some ca, gr_refresh = Some cn, gr_expires_at = expires, gr_scope = scope,
         gr_revoked = False, gr_last_refreshed = None\<rparr>) \<Longrightarrow>
     grant_step V s ((issue_token n minted s)\<lparr>gs_row := row'\<rparr>)"
| edit_endpoint:
    "\<not> gs_locked s \<Longrightarrow> same_token_origin url (Some (gs_endpoint s)) = Inr same \<Longrightarrow>
     grant_step V s (s\<lparr>gs_endpoint := url, gs_row := (if same then gs_row s else None)\<rparr>)"

inductive grant_reachable :: "refresh_env \<Rightarrow> grant_system \<Rightarrow> bool" for V :: refresh_env where
  init: "grant_reachable V \<lparr>gs_row = None, gs_endpoint = endpoint, gs_locked = False, gs_calls = [], gs_issued = [],
    gs_live = [], gs_minted = (\<lambda>_. []), gs_sent = [], gs_lost = False\<rparr>"
| step: "grant_reachable V s \<Longrightarrow> grant_step V s s' \<Longrightarrow> grant_reachable V s'"

fun is_sending :: "call_phase \<Rightarrow> bool" where
  "is_sending (Sending r t) = True"
| "is_sending (Waiting r) = False"

text \<open>The stored refresh token is live and was minted at the current endpoint; a refresh under way sent that token.\<close>

definition row_token :: "refresh_env \<Rightarrow> grant_row option \<Rightarrow> string option" where
  "row_token V row = Option.bind (Option.bind row gr_refresh) (tf_decrypt V)"

definition stored_token :: "refresh_env \<Rightarrow> grant_system \<Rightarrow> string option" where
  "stored_token V s = row_token V (gs_row s)"

definition grant_inv :: "refresh_env \<Rightarrow> grant_system \<Rightarrow> bool" where
  "grant_inv V s =
     (set (gs_live s) \<subseteq> set (gs_issued s) \<and>
      length (filter is_sending (gs_calls s)) = (if gs_locked s then 1 else 0) \<and>
      (\<forall>r t. Sending r t \<in> set (gs_calls s) \<longrightarrow> stored_token V s = Some t) \<and>
      (\<forall>t. stored_token V s = Some t \<longrightarrow> t \<in> set (gs_issued s) \<and> token_origin (gs_minted s t) = token_origin (gs_endpoint s) \<and> (gs_lost s \<or> t \<in> set (gs_live s))) \<and>
      (\<forall>(t, endpoint, live)\<in>set (gs_sent s). t \<in> set (gs_issued s) \<and> token_origin (gs_minted s t) = token_origin endpoint \<and> (gs_lost s \<or> live)))"

lemma row_token_None [simp]: "row_token V None = None"
  by (simp add: row_token_def)

lemma row_token_update:
  "row \<noteq> None \<Longrightarrow> row_token V (update_tokens ca r e sc now row) = (if r = None then row_token V row else Option.bind r (tf_decrypt V))"
  by (cases row) (auto simp: update_tokens_def row_token_def)

lemma sending_row:
  "locked_decision V row r now = Refresh_With r' \<Longrightarrow> token_view_of V r' = View_Token t \<Longrightarrow> row_token V row = Some t"
  by (auto simp: locked_decision_def token_view_of_def with_tokens_def row_token_def split: option.splits if_splits list.splits)

lemma inv_sending:
  assumes "grant_inv V s" "gs_calls s = xs @ Sending r t # ys"
  shows "stored_token V s = Some t \<and> gs_row s \<noteq> None \<and> filter is_sending (xs @ ys) = [] \<and>
    (\<forall>r t. Sending r t \<notin> set (xs @ ys))"
proof -
  have "length (filter is_sending (xs @ ys)) = 0" using assms by (auto simp: grant_inv_def split: if_splits)
  then have "filter is_sending (xs @ ys) = []" by (simp only: length_0_conv)
  moreover from this have "\<forall>r t. Sending r t \<notin> set (xs @ ys)" by (metis filter_empty_conv is_sending.simps(1))
  moreover have s: "stored_token V s = Some t" using assms by (simp add: grant_inv_def)
  moreover have "gs_row s \<noteq> None" using s by (cases "gs_row s") (auto simp: stored_token_def)
  ultimately show ?thesis by blast
qed

lemma inv_unlocked: "grant_inv V s \<Longrightarrow> \<not> gs_locked s \<Longrightarrow> Sending r t \<notin> set (gs_calls s)"
  by (auto simp: grant_inv_def filter_empty_conv)

lemmas grant_simps = grant_inv_def stored_token_def issue_token_def retire_token_def row_token_update

lemma grant_inv_step: "grant_step V s s' \<Longrightarrow> grant_inv V s \<Longrightarrow> grant_inv V s'"
proof (induction rule: grant_step.induct)
  case (snapshot r s)
  then show ?case by (auto simp: grant_simps)
next
  case (done_without_refresh s xs r ys)
  then show ?case by (auto simp: grant_simps)
next
  case (send s xs r ys now r' t)
  have "stored_token V s = Some t" using sending_row [OF send(3,4)] by (simp add: stored_token_def)
  with send show ?case by (auto simp: grant_simps filter_empty_conv)
next
  case (answered_rotated s xs r t ys n cn ca expires scope now)
  note i = inv_sending [OF answered_rotated(6,1)]
  show ?case using answered_rotated i by (auto simp: grant_simps)
next
  case (answered_unrotated s xs r t ys ca expires scope now)
  note i = inv_sending [OF answered_unrotated(3,1)]
  show ?case using answered_unrotated i by (auto simp: grant_simps)
next
  case (refused s xs r t ys)
  note i = inv_sending [OF refused(2,1)]
  show ?case using refused i by (auto simp: grant_simps)
next
  case (answer_lost s xs r t ys n)
  note i = inv_sending [OF answer_lost(4,1)]
  show ?case using answer_lost i by (auto simp: grant_simps)
next
  case (connect s minted n cn row' ca expires scope now)
  have o1: "token_origin minted = token_origin (gs_endpoint s)"
    using connect(2) by (auto simp: minted_at_current_origin_def dest: same_token_originD)
  have st: "row_token V row' = Some n"
    using connect(4,5) by (cases "gs_row s") (auto simp: row_token_update, simp add: row_token_def)
  show ?case using connect(1,3,6) o1 st inv_unlocked [OF connect(6,1)] by (auto simp: grant_simps)
next
  case (edit_endpoint s url same)
  note none = inv_unlocked [OF edit_endpoint(3,1)]
  show ?case
  proof (cases same)
    case True
    then have "token_origin url = token_origin (gs_endpoint s)" using edit_endpoint(2) same_token_originD by simp
    then show ?thesis using edit_endpoint True none by (auto simp: grant_simps)
  next
    case False
    then show ?thesis using edit_endpoint none by (auto simp: grant_simps)
  qed
qed

lemma grant_inv_reachable: "grant_reachable V s \<Longrightarrow> grant_inv V s"
proof (induction rule: grant_reachable.induct)
  case (init endpoint)
  show ?case by (simp add: grant_inv_def stored_token_def)
next
  case (step s s')
  then show ?case using grant_inv_step by blast
qed

section \<open>What reaches the provider\<close>

text \<open>
  C7: single-flight refresh. However calls, connects and endpoint edits interleave, at most one
  refresh of a credential is under way, and every refresh token ever sent was minted at the origin
  it was sent to; as long as no rotation was lost between the provider and the row, it was live when it was sent: a
  rotated-out token is never replayed.
\<close>

theorem refresh_never_replays:
  assumes "grant_reachable V s"
  shows "length (filter is_sending (gs_calls s)) \<le> 1 \<and>
    (\<forall>(t, endpoint, live)\<in>set (gs_sent s).
       token_origin (gs_minted s t) = token_origin endpoint \<and> (\<not> gs_lost s \<longrightarrow> live))"
  using grant_inv_reachable [OF assms] by (fastforce simp: grant_inv_def)

text \<open>A call that waited while another refreshed takes the new token from the row; the provider is not asked.\<close>

lemma waiter_shares_refresh:
  assumes "gr_access g = Some c" "c \<noteq> []" "\<not> gr_revoked g" "rs_encrypted_access_token r \<noteq> Some c" "not_expired (gr_expires_at g) now"
  shows "refresh_locked V encrypt provider r now (Some g) w =
    ((case tf_decrypt V c of None \<Rightarrow> Inl Refresh_Undecryptable | Some t \<Rightarrow> Inr t), Some g, w)"
  using assms by (cases c) (auto simp: refresh_locked_def locked_decision_def)

definition plain_env :: refresh_env where
  "plain_env = \<lparr>tf_decrypt = Some, tf_skew = (\<lambda>_. None), tf_mints = (\<lambda>_. False), tf_known = (\<lambda>_. True)\<rparr>"

definition sample_snapshot :: resolved where
  "sample_snapshot = (bare_resolved (demo_row ''c'' None))\<lparr>rs_encrypted_access_token := Some ''at1''\<rparr>"

definition refresh_start :: grant_system where
  "refresh_start =
     \<lparr>gs_row = None, gs_endpoint = ''https://idp/token'', gs_locked = False, gs_calls = [], gs_issued = [],
      gs_live = [], gs_minted = (\<lambda>_. []), gs_sent = [], gs_lost = False\<rparr>"

definition refresh_connected :: grant_system where
  "refresh_connected = (issue_token ''rt1'' ''https://idp/token'' refresh_start)
     \<lparr>gs_row := Some \<lparr>gr_access = Some ''at1'', gr_refresh = Some ''rt1'', gr_expires_at = Some 100, gr_scope = None,
        gr_revoked = False, gr_last_refreshed = None\<rparr>\<rparr>"

definition refresh_waiting :: "nat \<Rightarrow> grant_system" where
  "refresh_waiting n = refresh_connected\<lparr>gs_calls := replicate n (Waiting sample_snapshot)\<rparr>"

definition locked_snapshot :: resolved where
  "locked_snapshot = with_tokens (Some ''at1'') (Some ''rt1'') (Some 100) sample_snapshot"

definition refresh_sent :: grant_system where
  "refresh_sent = (refresh_waiting 2)\<lparr>gs_calls := [Sending locked_snapshot ''rt1'', Waiting sample_snapshot],
     gs_locked := True, gs_sent := [(''rt1'', ''https://idp/token'', True)]\<rparr>"

definition refresh_lost :: grant_system where
  "refresh_lost = (issue_token ''rt2'' ''https://idp/token'' (retire_token ''rt1'' refresh_sent))
     \<lparr>gs_calls := [Waiting sample_snapshot], gs_locked := False, gs_lost := True\<rparr>"

definition refresh_replayed :: grant_system where
  "refresh_replayed = refresh_lost\<lparr>gs_calls := [Sending locked_snapshot ''rt1''], gs_locked := True,
     gs_sent := [(''rt1'', ''https://idp/token'', True), (''rt1'', ''https://idp/token'', False)]\<rparr>"

lemma sample_decision: "locked_decision plain_env (gs_row refresh_connected) sample_snapshot 200 = Refresh_With locked_snapshot"
  by (simp add: locked_decision_def refresh_connected_def issue_token_def sample_snapshot_def plain_env_def is_fresh_def
      expiry_skew_def not_expired_def locked_snapshot_def)

lemma refresh_run: "grant_reachable plain_env refresh_sent"
proof -
  have "grant_reachable plain_env refresh_start" unfolding refresh_start_def by (rule grant_reachable.init)
  moreover have "minted_at_current_origin (Some ''https://idp/token'') (Some ''https://idp/token'') = Inr True" by code_simp
  then have "grant_step plain_env refresh_start refresh_connected"
    unfolding refresh_connected_def
    by (intro grant_step.connect [where cn = "''rt1''" and ca = "''at1''" and expires = "Some 100" and scope = None])
      (simp_all add: refresh_start_def plain_env_def)
  ultimately have c: "grant_reachable plain_env refresh_connected" by (rule grant_reachable.step)
  have snap: "rs_encrypted_access_token sample_snapshot = Option.bind (gs_row refresh_connected) gr_access"
    by (simp add: sample_snapshot_def refresh_connected_def issue_token_def)
  have w1: "grant_step plain_env refresh_connected (refresh_waiting 1)"
    using grant_step.snapshot [of sample_snapshot refresh_connected plain_env, OF snap]
    by (simp add: refresh_waiting_def) (simp add: refresh_connected_def issue_token_def refresh_start_def)
  have w2: "grant_step plain_env (refresh_waiting 1) (refresh_waiting 2)"
    using grant_step.snapshot [of sample_snapshot "refresh_waiting 1" plain_env] snap
    by (simp add: refresh_waiting_def numeral_2_eq_2)
  have s: "grant_step plain_env (refresh_waiting 2) refresh_sent"
    using grant_step.send [of "refresh_waiting 2" "[]" sample_snapshot "[Waiting sample_snapshot]" plain_env 200 locked_snapshot "''rt1''"]
      sample_decision
    by (simp add: refresh_waiting_def numeral_2_eq_2 refresh_sent_def)
      (simp add: refresh_connected_def issue_token_def refresh_start_def token_view_of_def locked_snapshot_def with_tokens_def plain_env_def)
  from c w1 w2 s show ?thesis by (blast intro: grant_reachable.step)
qed

lemma refresh_never_replays_witness:
  "gs_sent refresh_sent = [(''rt1'', ''https://idp/token'', True)] \<and> length (filter is_sending (gs_calls refresh_sent)) \<le> 1"
  using refresh_never_replays [OF refresh_run] by (simp add: refresh_sent_def)

text \<open>
  The exception is real: when the provider has rotated and the row's transaction is lost, the
  next refresh replays the retired token, since the transaction holds the network call.
\<close>

lemma lost_rotation_replays: "grant_reachable plain_env refresh_replayed \<and> (''rt1'', ''https://idp/token'', False) \<in> set (gs_sent refresh_replayed)"
proof -
  have live: "gs_live refresh_sent = [''rt1'']" "gs_issued refresh_sent = [''rt1'']"
    by (simp_all add: refresh_sent_def refresh_waiting_def refresh_connected_def issue_token_def refresh_start_def)
  have "grant_step plain_env refresh_sent refresh_lost"
    using grant_step.answer_lost [of refresh_sent "[]" locked_snapshot "''rt1''" "[Waiting sample_snapshot]" "''rt2''" plain_env] live
    by (simp add: refresh_lost_def) (simp add: refresh_sent_def refresh_waiting_def refresh_connected_def refresh_start_def issue_token_def)
  moreover have "gs_row refresh_lost = gs_row refresh_connected"
    by (simp add: refresh_lost_def issue_token_def retire_token_def refresh_sent_def refresh_waiting_def)
  then have "grant_step plain_env refresh_lost refresh_replayed"
    using grant_step.send [of refresh_lost "[]" sample_snapshot "[]" plain_env 200 locked_snapshot "''rt1''"] sample_decision
    by (simp add: refresh_lost_def refresh_replayed_def)
      (simp add: refresh_sent_def refresh_waiting_def refresh_connected_def issue_token_def retire_token_def refresh_start_def
        token_view_of_def locked_snapshot_def with_tokens_def plain_env_def)
  ultimately show ?thesis using refresh_run by (auto intro: grant_reachable.step simp: refresh_replayed_def)
qed

end
