(* ===== verification/Credential_Injection.thy ===== *)
theory Credential_Injection
  imports Execution Authorization Token_Refresh
begin

text \<open>
  \<open>CredentialService\<close> of \<open>broker/services/credentials/orchestrator.py\<close>: resolve, refresh, decrypt, and
  record the use before the material leaves. Both callers go through \<open>inject\<close>; it never makes the
  upstream call. The refresh of an OAuth2 token is \<open>TokenRefresher.ensure_fresh\<close> (\<open>Token_Refresh\<close>) over
  the inner world.
\<close>

record queued_auth = injected_auth +
  qa_credential_id :: "string option"
  qa_credential_name :: "string option"
  qa_signing :: "sigv4_material option"

definition no_injection :: queued_auth where
  "no_injection = \<lparr>ia_headers = [], ia_query_params = [], ia_cookies = [], ia_server_variables = [],
     qa_credential_id = None, qa_credential_name = None, qa_signing = None\<rparr>"

record injection_call =
  ic_api :: api_reference
  ic_actor_id :: string
  ic_actor_type :: string
  ic_actor_name :: "string option"
  ic_credential_name :: "string option"
  ic_credential_id :: "string option"
  ic_allowed :: "string list option"
  ic_trace_id :: "string option"
  ic_preresolved :: "resolved option"
  ic_server_variables :: "(string, string) dict option"
  ic_variables_unresolved :: bool

text \<open>
  \<open>ij_label\<close> is \<open>summary_label\<close> (it reads Unicode categories), \<open>ij_text\<close> \<open>summary_text\<close> (its ellipsis is
  outside the string model), \<open>ij_wire\<close> the value of a wire type.
\<close>

record 'w injector =
  ij_auth :: auth_env
  ij_decrypt :: "string \<Rightarrow> string option"
  ij_refresh :: "resolved \<Rightarrow> 'w \<Rightarrow> (refresh_error, string) result \<times> 'w"
  ij_label :: "string option \<Rightarrow> string \<Rightarrow> string"
  ij_text :: "string \<Rightarrow> string"
  ij_wire :: "wire_type \<Rightarrow> string"

datatype inject_failure =
    Inject_Denied broker_error
  | Inject_Value_Error injection_error
  | Inject_Raised string
  | Access_Not_Recorded

text \<open>\<open>_emit_credential_failure\<close>: best effort, in a transaction of its own.\<close>

definition credential_failure_event ::
  "injection_call \<Rightarrow> string \<Rightarrow> string \<Rightarrow> string option \<Rightarrow> string list \<Rightarrow> bool \<Rightarrow> (string, json) dict \<Rightarrow> real \<Rightarrow> exec_event" where
  "credential_failure_event c type summary owner tags requires_action data now =
     \<lparr>xe_type = type, xe_severity = ''warning'', xe_summary = summary, xe_requires_action = requires_action,
      xe_execution_id = None, xe_trace_id = None, xe_job_id = None,
      xe_created_by = (if or_nothing owner then text_or_empty owner else ic_actor_id c), xe_actor_id = ic_actor_id c,
      xe_actor_type = ic_actor_type c, xe_data = data @ tags_data tags, xe_created_at = now\<rparr>"

definition emit_best_effort :: "exec_event \<Rightarrow> 'w exec_world \<Rightarrow> 'w exec_world" where
  "emit_best_effort e w = snd (write_tx None [e] w)"

definition resolve_request_of_call :: "injection_call \<Rightarrow> resolve_request" where
  "resolve_request_of_call c =
     \<lparr>rq_allowed_ids = ic_allowed c, rq_credential_id = ic_credential_id c, rq_credential_name = ic_credential_name c,
      rq_server_variables = ic_server_variables c, rq_variables_unresolved = ic_variables_unresolved c\<rparr>"

text \<open>\<open>_resolve_mapped\<close>: a missing credential is also an event. The caller has a vendor.\<close>

definition resolve_mapped ::
  "'w injector \<Rightarrow> injection_call \<Rightarrow> real \<Rightarrow> 'w exec_world \<Rightarrow> (broker_error, resolved option) result \<times> 'w exec_world" where
  "resolve_mapped J c now w =
     (case select_credential (ij_auth J) (ic_api c) (resolve_request_of_call c) [] [] of
        Inl e \<Rightarrow>
          (Inl e, if be_class e = Credential_Not_Provisioned
             then emit_best_effort (credential_failure_event c ''credential.not_provisioned''
                    (''No credential provisioned for '' @ quoted (api_vendor (ic_api c))) None [] False [] now) w
             else w)
      | Inr r \<Rightarrow> (Inr r, w))"

definition undecryptable_error :: "auth_env \<Rightarrow> string \<Rightarrow> string \<Rightarrow> broker_error" where
  "undecryptable_error V i vendor =
     (init_error Credential_Undecryptable
        (''Credential '' @ quoted i @ '' for '' @ quoted vendor @
         '' cannot be decrypted with the configured encryption keys'') (Some ''credential_undecryptable''))
       \<lparr>be_extra := [(''credential_id'', JStr i), (''api_vendor'', JStr vendor)],
        be_directive := Some \<lparr>ad_strategy = Prompt_Human,
          ad_parameters = [(''credential_id'', JStr i), (''vendor'', JStr vendor)],
          ad_instruction = ev_prose V ''credential_undecryptable''\<rparr>\<rparr>"

definition needs_reconnect_error :: "auth_env \<Rightarrow> string \<Rightarrow> broker_error" where
  "needs_reconnect_error V i =
     (init_error Credential_Needs_Reconnect
        (''OAuth2 credential '' @ quoted i @ '' requires re-connect (grant revoked)'') (Some ''credential_needs_reconnect''))
       \<lparr>be_directive := Some \<lparr>ad_strategy = Prompt_Human, ad_parameters = [],
          ad_instruction = ev_prose V ''credential_needs_reconnect''\<rparr>\<rparr>"

definition refresh_transient_error :: "string \<Rightarrow> string \<Rightarrow> broker_error" where
  "refresh_transient_error i detail =
     init_error Credential_Refresh_Transient
       (''Transient error refreshing credential '' @ quoted i @ (if detail = [] then [] else '' ('' @ detail @ '')''))
       (Some ''refresh_transient_error'')"

definition credential_undecryptable ::
  "'w injector \<Rightarrow> injection_call \<Rightarrow> resolved \<Rightarrow> real \<Rightarrow> 'w exec_world \<Rightarrow> (inject_failure, 'a) result \<times> 'w exec_world" where
  "credential_undecryptable J c r now w =
     (let vendor = api_vendor (ic_api c); i = rc_credential_id r in
      (Inl (Inject_Denied (undecryptable_error (ij_auth J) i vendor)),
       emit_best_effort (credential_failure_event c ''credential.undecryptable''
         (''Credential '' @ ij_label J (Some (rs_name r)) i @ '' cannot be decrypted for '' @ quoted vendor)
         (rs_created_by r) [] True [(''credential_id'', JStr i), (''api_vendor'', JStr vendor)] now) w))"

definition refresh_denied ::
  "'w injector \<Rightarrow> injection_call \<Rightarrow> resolved \<Rightarrow> refresh_error \<Rightarrow> real \<Rightarrow> 'w exec_world
     \<Rightarrow> (inject_failure, 'a) result \<times> 'w exec_world" where
  "refresh_denied J c r e now w =
     (case e of
        Refresh_Undecryptable \<Rightarrow> credential_undecryptable J c r now w
      | Refresh_Raised name \<Rightarrow> (Inl (Inject_Raised name), w)
      | Refresh_Transient i detail \<Rightarrow> (Inl (Inject_Denied (refresh_transient_error i detail)), w)
      | Refresh_Invalid_Grant i \<Rightarrow>
          (Inl (Inject_Denied (needs_reconnect_error (ij_auth J) i)),
           emit_best_effort (credential_failure_event c ''credential.refresh_failed''
             (''Credential '' @ ij_label J (Some (rs_name r)) (rc_credential_id r) @ '' refresh failed for '' @
               quoted (api_vendor (ic_api c))) (rs_created_by r) [''auth_jentic''] False [] now) w))"

text \<open>\<open>emit_credential_access\<close>: one event per use, with identifiers only.\<close>

definition credential_access_event :: "'w injector \<Rightarrow> injection_call \<Rightarrow> resolved \<Rightarrow> real \<Rightarrow> exec_event" where
  "credential_access_event J c r now =
     (let api = ic_api c in
      \<lparr>xe_type = ''credential.accessed'', xe_severity = ''info'',
       xe_summary = ''Credential '' @ ij_label J (Some (rs_name r)) (rc_credential_id r) @ '' accessed by '' @
         ij_label J (ic_actor_name c) (ic_actor_id c) @ '' for '' @
         ij_text J (join_with (CHR ''/'') (filter (\<lambda>p. p \<noteq> []) [api_vendor api, api_name api, api_version api])),
       xe_requires_action = False, xe_execution_id = None, xe_trace_id = valid_trace_id_or_none (ic_trace_id c),
       xe_job_id = None,
       xe_created_by = (if or_nothing (rs_created_by r) then text_or_empty (rs_created_by r) else ic_actor_id c),
       xe_actor_id = ic_actor_id c, xe_actor_type = ic_actor_type c,
       xe_data = [(''credential_id'', JStr (rc_credential_id r)), (''provider'', JStr (rs_provider r)),
         (''wire_type'', JStr (ij_wire J (rc_wire_type r))), (''api_vendor'', JStr (api_vendor api)),
         (''api_name'', JStr (api_name api)), (''api_version'', JStr (api_version api))],
       xe_created_at = now\<rparr>)"

text \<open>A transaction whose only write is not best effort: an event that fails rolls it back.\<close>

definition write_required :: "exec_event \<Rightarrow> 'w exec_world \<Rightarrow> bool \<times> 'w exec_world" where
  "write_required e w =
     (case xw_fates w of
        Tx_Commit (False # _) # fates \<Rightarrow> (False, w\<lparr>xw_fates := fates\<rparr>)
      | _ \<Rightarrow> write_tx None [e] w)"

definition access_recorded ::
  "'w injector \<Rightarrow> injection_call \<Rightarrow> resolved \<Rightarrow> injection_result \<Rightarrow> real \<Rightarrow> 'w exec_world
     \<Rightarrow> (inject_failure, queued_auth) result \<times> 'w exec_world" where
  "access_recorded J c r m now w =
     (case write_required (credential_access_event J c r now) w of
        (False, w) \<Rightarrow> (Inl Access_Not_Recorded, w)
      | (True, w) \<Rightarrow>
          (Inr \<lparr>ia_headers = ir_headers m, ia_query_params = ir_query_params m, ia_cookies = ir_cookies m,
                ia_server_variables = (case rs_server_variables r of None \<Rightarrow> [] | Some vs \<Rightarrow> vs),
                qa_credential_id = Some (rc_credential_id r), qa_credential_name = Some (rs_name r),
                qa_signing = ir_signing m\<rparr>, w))"

definition inject_resolved ::
  "'w injector \<Rightarrow> injection_call \<Rightarrow> resolved \<Rightarrow> real \<Rightarrow> 'w exec_world \<Rightarrow> (inject_failure, queued_auth) result \<times> 'w exec_world" where
  "inject_resolved J c r now w =
     (let (token, w) =
        (if rc_wire_type r = OAUTH2
         then (let (t, inner) = ij_refresh J r (xw_inner w) in (map_sum id Some t, w\<lparr>xw_inner := inner\<rparr>))
         else (Inr None, w)) in
      case token of
        Inl e \<Rightarrow> refresh_denied J c r e now w
      | Inr t \<Rightarrow>
          (case inject_auth (ij_decrypt J) (resolved_credential.truncate r) t of
             Inl Undecryptable \<Rightarrow> credential_undecryptable J c r now w
           | Inl e \<Rightarrow> (Inl (Inject_Value_Error e), w)
           | Inr m \<Rightarrow> access_recorded J c r m now w))"

definition inject_credential ::
  "'w injector \<Rightarrow> injection_call \<Rightarrow> real \<Rightarrow> 'w exec_world \<Rightarrow> (inject_failure, queued_auth) result \<times> 'w exec_world" where
  "inject_credential J c now w =
     (if api_vendor (ic_api c) = [] then (Inr no_injection, w)
      else case (case ic_preresolved c of Some r \<Rightarrow> (Inr (Some r), w) | None \<Rightarrow> resolve_mapped J c now w) of
        (Inl e, w) \<Rightarrow> (Inl (Inject_Denied e), w)
      | (Inr None, w) \<Rightarrow> (Inr no_injection, w)
      | (Inr (Some r), w) \<Rightarrow> inject_resolved J c r now w)"

section \<open>A credential's use is on record before it leaves\<close>

lemma write_required_True:
  "write_required e w = (True, w') \<Longrightarrow> xw_events w' = xw_events w @ [e] \<and> xw_dispatched w' = xw_dispatched w \<and> xw_records w' = xw_records w"
  by (auto simp: write_required_def write_tx_def keep_events_def Let_def split: list.splits tx_fate.splits bool.splits)

lemma write_required_frame: "xw_dispatched (snd (write_required e w)) = xw_dispatched w"
  by (auto simp: write_required_def split: list.splits tx_fate.splits bool.splits)

lemma emit_best_effort_frame [simp]: "xw_dispatched (emit_best_effort e w) = xw_dispatched w"
  by (simp add: emit_best_effort_def)

lemma refresh_denied_frame:
  "fst (refresh_denied J c r e now w) \<noteq> Inr x \<and> xw_dispatched (snd (refresh_denied J c r e now w)) = xw_dispatched w"
  by (simp add: refresh_denied_def credential_undecryptable_def Let_def split: refresh_error.splits)

lemma refresh_denied_not_Inr: "refresh_denied J c r e now w \<noteq> (Inr x, w')"
  using refresh_denied_frame [of J c r e now w x] by (metis fst_conv)

lemma access_recorded_frame: "xw_dispatched (snd (access_recorded J c r m now w)) = xw_dispatched w"
  using write_required_frame [of "credential_access_event J c r now" w]
  by (auto simp: access_recorded_def split: prod.splits bool.splits)

lemma inject_resolved_frame: "xw_dispatched (snd (inject_resolved J c r now w)) = xw_dispatched w"
  by (auto simp: inject_resolved_def Let_def refresh_denied_frame access_recorded_frame credential_undecryptable_def
      split: prod.splits sum.splits injection_error.splits)

lemma resolve_mapped_frame: "xw_dispatched (snd (resolve_mapped J c now w)) = xw_dispatched w"
  by (auto simp: resolve_mapped_def split: sum.splits)

lemma inject_frame: "xw_dispatched (snd (inject_credential J c now w)) = xw_dispatched w"
proof -
  obtain r w1 where s: "(case ic_preresolved c of Some r \<Rightarrow> (Inr (Some r), w) | None \<Rightarrow> resolve_mapped J c now w) = (r, w1)"
    by fastforce
  then have f: "xw_dispatched w1 = xw_dispatched w"
    using resolve_mapped_frame [of J c now w] by (cases "ic_preresolved c") auto
  show ?thesis
  proof (cases r)
    case (Inl e)
    then show ?thesis using f by (simp add: inject_credential_def s)
  next
    case (Inr x)
    then show ?thesis using f by (cases x) (simp_all add: inject_credential_def s inject_resolved_frame)
  qed
qed

lemma access_recorded_Inr:
  "access_recorded J c r m now w = (Inr a, w') \<Longrightarrow>
   qa_credential_id a = Some (rc_credential_id r) \<and> credential_access_event J c r now \<in> set (xw_events w')"
  by (auto simp: access_recorded_def dest: write_required_True split: prod.splits bool.splits)

lemma inject_resolved_Inr:
  "inject_resolved J c r now w = (Inr a, w') \<Longrightarrow>
   qa_credential_id a = Some (rc_credential_id r) \<and> credential_access_event J c r now \<in> set (xw_events w')"
  by (auto simp: inject_resolved_def Let_def credential_undecryptable_def refresh_denied_not_Inr
      split: prod.splits sum.splits injection_error.splits dest: access_recorded_Inr)

definition records_use :: "injection_call \<Rightarrow> string \<Rightarrow> exec_event \<Rightarrow> bool" where
  "records_use c i e =
     (xe_type e = ''credential.accessed'' \<and> dict_get (xe_data e) ''credential_id'' = Some (JStr i) \<and>
      xe_actor_id e = ic_actor_id c \<and> xe_trace_id e = valid_trace_id_or_none (ic_trace_id c))"

text \<open>
  C6: no credential is used off the record or outside its boundary. When injection hands out a
  credential's material, the credential is the one selected before, or is one of the allowed ids and selectable for
  the call; the event of that use, naming the credential, the actor and the trace, has been committed; and
  nothing has been sent upstream.
\<close>

theorem credential_use_is_audited:
  assumes "inject_credential J c now w = (Inr a, w')" "qa_credential_id a = Some i"
  shows "list_ex (records_use c i) (xw_events w') \<and> xw_dispatched w' = xw_dispatched w \<and>
    (case ic_preresolved c of
       Some r \<Rightarrow> rc_credential_id r = i
     | None \<Rightarrow> (case ic_allowed c of None \<Rightarrow> True | Some ids \<Rightarrow> i \<in> set ids) \<and>
         (\<exists>k\<in>set (ev_credentials (ij_auth J)). cr_id k = i \<and> selectable (ic_api c) (resolve_request_of_call c) k))"
proof -
  obtain r w1 where r: "(case ic_preresolved c of Some r \<Rightarrow> (Inr (Some r), w) | None \<Rightarrow> resolve_mapped J c now w) = (Inr (Some r), w1)"
    "inject_resolved J c r now w1 = (Inr a, w')"
    using assms by (auto simp: inject_credential_def no_injection_def split: if_splits prod.splits sum.splits option.splits)
  have e: "rc_credential_id r = i" "credential_access_event J c r now \<in> set (xw_events w')"
    using inject_resolved_Inr [OF r(2)] assms(2) by auto
  have "records_use c i (credential_access_event J c r now)"
    using e(1) by (simp add: records_use_def credential_access_event_def Let_def)
  then have "list_ex (records_use c i) (xw_events w')" using e(2) by (auto simp: list_ex_iff)
  moreover have "xw_dispatched w' = xw_dispatched w" using inject_frame [of J c now w] assms(1) by simp
  moreover have "(case ic_allowed c of None \<Rightarrow> True | Some ids \<Rightarrow> i \<in> set ids) \<and>
      (\<exists>k\<in>set (ev_credentials (ij_auth J)). cr_id k = i \<and> selectable (ic_api c) (resolve_request_of_call c) k)"
    if "ic_preresolved c = None"
  proof -
    have "select_credential (ij_auth J) (ic_api c) (resolve_request_of_call c) [] [] = Inr (Some r)"
      using r(1) that by (auto simp: resolve_mapped_def split: sum.splits)
    from select_credential_Some [OF this] e(1) obtain k where k: "k \<in> set (ev_credentials (ij_auth J))" "cr_id k = i"
      "selectable (ic_api c) (resolve_request_of_call c) k" by auto
    then show ?thesis by (auto simp: selectable_def resolve_request_of_call_def split: option.splits)
  qed
  moreover have "rc_credential_id k = i" if "ic_preresolved c = Some k" for k
    using r(1) that e(1) by simp
  ultimately show ?thesis by (simp split: option.splits)
qed

definition sample_injector :: "unit injector" where
  "sample_injector =
     \<lparr>ij_auth = demo_env, ij_decrypt = (\<lambda>c. Some (''plain-'' @ c)), ij_refresh = (\<lambda>r w. (Inl (Refresh_Raised ''none''), w)),
      ij_label = (\<lambda>name i. i), ij_text = (\<lambda>s. s), ij_wire = (\<lambda>_. ''bearer_token'')\<rparr>"

definition sample_injection :: injection_call where
  "sample_injection =
     \<lparr>ic_api = \<lparr>api_vendor = ''acme'', api_name = ''pay'', api_version = ''1''\<rparr>, ic_actor_id = ''a'', ic_actor_type = ''agent'',
      ic_actor_name = None, ic_credential_name = None, ic_credential_id = None, ic_allowed = Some [''c''],
      ic_trace_id = Some (replicate 32 (CHR ''a'')), ic_preresolved = None, ic_server_variables = None,
      ic_variables_unresolved = False\<rparr>"

lemma credential_use_is_audited_witness:
  "case inject_credential sample_injector sample_injection 5 (fresh_world ()) of
     (Inr a, w) \<Rightarrow> ia_headers a = [(''Authorization'', ''Bearer plain-enc'')] \<and> list_ex (records_use sample_injection ''c'') (xw_events w)
   | _ \<Rightarrow> False"
proof -
  obtain r w where rw: "inject_credential sample_injector sample_injection 5 (fresh_world ()) = (r, w)" by fastforce
  have c: "case inject_credential sample_injector sample_injection 5 (fresh_world ()) of
     (Inr a, w) \<Rightarrow> ia_headers a = [(''Authorization'', ''Bearer plain-enc'')] \<and> qa_credential_id a = Some ''c'' | _ \<Rightarrow> False"
    by code_simp
  then obtain a where a: "r = Inr a" "ia_headers a = [(''Authorization'', ''Bearer plain-enc'')]" "qa_credential_id a = Some ''c''"
    unfolding rw by (auto split: sum.splits)
  from credential_use_is_audited [OF rw [unfolded a(1)] a(3)] a show ?thesis by (simp add: rw)
qed

end
