(* ===== verification/Actor_Authority.thy ===== *)
theory Actor_Authority
  imports Prelude
begin

text \<open>
  Who may still act: the permission catalogue with its worklist expansion
  (\<open>shared/auth/permission_catalog.py\<close>) and the one-read answer about an actor that has no token any
  more (\<open>broker/repos/actor_status.py\<close>), over the rows of the admin database it queries.
\<close>

section \<open>The catalogue\<close>

definition implication_map :: "(string, string list) dict" where
  "implication_map =
    [(''org:admin'',
       [''capabilities:execute'', ''capabilities:read'', ''users:write'', ''users:read'', ''jobs:write'', ''jobs:read'',
        ''events:write'', ''events:read'', ''credentials:read'', ''credentials:write'', ''credentials:connect'',
        ''apis:read'', ''apis:write'', ''catalog:import'', ''overlays:confirm'', ''executions:read'', ''audit:read'',
        ''agents:write'', ''agents:read'', ''config:write'', ''config:read'', ''oauth-clients:write'',
        ''oauth-clients:read'']),
     (''capabilities:execute'', [''capabilities:read'', ''apis:read'', ''executions:read'']),
     (''users:write'', [''users:read'']),
     (''jobs:write'', [''jobs:read'']),
     (''events:write'', [''events:read'']),
     (''credentials:write'', [''credentials:read'', ''credentials:connect'']),
     (''apis:write'', [''apis:read'', ''catalog:import'']),
     (''catalog:import'', [''apis:read'']),
     (''overlays:confirm'', [''apis:read'']),
     (''agents:write'', [''agents:read'']),
     (''config:write'', [''config:read'']),
     (''oauth-clients:write'', [''oauth-clients:read'']),
     (''owner:resources:read'', [''owner:credentials:read'', ''owner:agents:read''])]"

definition broker_execute_permission :: string where
  "broker_execute_permission = ''capabilities:execute''"

definition implied_by :: "string \<Rightarrow> string list" where
  "implied_by p = (case dict_get implication_map p of None \<Rightarrow> [] | Some ps \<Rightarrow> ps)"

section \<open>The worklist\<close>

text \<open>The inner loop: what is implied and new joins the result and the frontier.\<close>

fun add_implied :: "string list \<Rightarrow> string list \<Rightarrow> string list \<Rightarrow> string list \<times> string list" where
  "add_implied [] result frontier = (result, frontier)"
| "add_implied (p # ps) result frontier =
     (if p \<in> set result then add_implied ps result frontier
      else add_implied ps (result @ [p]) (frontier @ [p]))"

definition known_permissions :: "string set" where
  "known_permissions = set (concat (map snd implication_map))"

lemma implied_known: "set (implied_by p) \<subseteq> known_permissions"
proof (cases "dict_get implication_map p")
  case (Some ps)
  then have "(p, ps) \<in> set implication_map" by (rule map_of_SomeD)
  with Some show ?thesis by (auto simp: implied_by_def known_permissions_def)
qed (simp add: implied_by_def)

definition missing :: "string list \<Rightarrow> nat" where
  "missing result = card (known_permissions - set result)"

lemma missing_add: "p \<in> known_permissions \<Longrightarrow> p \<notin> set result \<Longrightarrow> Suc (missing (result @ [p])) = missing result"
proof -
  assume "p \<in> known_permissions" "p \<notin> set result"
  moreover have "known_permissions - set (result @ [p]) = (known_permissions - set result) - {p}" by auto
  moreover have "finite (known_permissions - set result)" by (simp add: known_permissions_def)
  ultimately show ?thesis unfolding missing_def by (metis Diff_iff card.remove)
qed

lemma add_implied_measure:
  "set ps \<subseteq> known_permissions \<Longrightarrow> add_implied ps result frontier = (result', frontier') \<Longrightarrow>
   2 * missing result' + length frontier' \<le> 2 * missing result + length frontier"
proof (induction ps result frontier rule: add_implied.induct)
  case (2 p ps result frontier)
  then show ?case using missing_add [of p result] by (auto split: if_splits)
qed simp

text \<open>\<open>compute_effective\<close>: \<open>frontier.pop()\<close> takes the last element.\<close>

function effective_loop :: "string list \<Rightarrow> string list \<Rightarrow> string list" where
  "effective_loop result frontier =
     (if frontier = [] then result
      else (let (result', frontier') = add_implied (implied_by (last frontier)) result (butlast frontier) in
            effective_loop result' frontier'))"
  by pat_completeness auto
termination
proof (relation "measure (\<lambda>(result, frontier). 2 * missing result + length frontier)", goal_cases)
  case (2 result frontier x result' frontier')
  then show ?case
    using add_implied_measure [OF implied_known, of "last frontier" result "butlast frontier" result' frontier']
    by (cases frontier rule: rev_cases) (auto split: prod.splits)
qed simp

declare effective_loop.simps [simp del]

definition compute_effective :: "string list \<Rightarrow> string list" where
  "compute_effective grants = effective_loop grants grants"

definition compute_implies_transitive :: "string \<Rightarrow> string list" where
  "compute_implies_transitive p = effective_loop [] [p]"

definition implication :: "(string \<times> string) set" where
  "implication = {(p, q). q \<in> set (implied_by p)}"

lemma add_implied_sets:
  "add_implied ps result frontier = (result', frontier') \<Longrightarrow>
   set result' = set result \<union> set ps \<and> set frontier' = set frontier \<union> (set ps - set result)"
  by (induction ps result frontier rule: add_implied.induct) (auto split: if_splits)

lemma effective_loop_sound:
  "set result \<union> implication `` set frontier \<subseteq> R \<Longrightarrow> implication `` R \<subseteq> R \<Longrightarrow> set (effective_loop result frontier) \<subseteq> R"
proof (induction result frontier rule: effective_loop.induct)
  case (1 result frontier)
  show ?case
  proof (cases "frontier = []")
    case False
    obtain result' frontier' where a: "add_implied (implied_by (last frontier)) result (butlast frontier) = (result', frontier')" by fastforce
    note s = add_implied_sets [OF a]
    have "set (implied_by (last frontier)) \<subseteq> implication `` set frontier"
      using False by (auto simp: implication_def)
    then have "set (implied_by (last frontier)) \<subseteq> R" using 1(2) by auto
    moreover have b: "implication `` set (butlast frontier) \<subseteq> R"
      using 1(2) in_set_butlastD [of _ frontier] by blast
    ultimately have "set result' \<union> implication `` set frontier' \<subseteq> R"
      using s 1(2,3) b by auto
    from 1(1) [OF False a [symmetric] refl this 1(3)] show ?thesis using False a by (simp add: effective_loop.simps)
  qed (use 1 in \<open>simp add: effective_loop.simps\<close>)
qed

lemma effective_loop_closed:
  assumes "\<And>p. p \<in> set result \<union> S \<Longrightarrow> p \<in> set frontier \<or> set (implied_by p) \<subseteq> set result"
  shows "set result \<subseteq> set (effective_loop result frontier) \<and>
    (\<forall>p\<in>set (effective_loop result frontier) \<union> S. set (implied_by p) \<subseteq> set (effective_loop result frontier))"
  using assms
proof (induction result frontier rule: effective_loop.induct)
  case (1 result frontier)
  show ?case
  proof (cases "frontier = []")
    case False
    obtain result' frontier' where a: "add_implied (implied_by (last frontier)) result (butlast frontier) = (result', frontier')" by fastforce
    note s = add_implied_sets [OF a]
    have f: "set frontier = insert (last frontier) (set (butlast frontier))"
      using False by (cases frontier rule: rev_cases) auto
    have inv: "p \<in> set frontier' \<or> set (implied_by p) \<subseteq> set result'" if p: "p \<in> set result' \<union> S" for p
    proof (cases "p \<in> set result \<union> S")
      case True
      with 1(2) [OF True] s f show ?thesis by auto
    next
      case new: False
      with p s show ?thesis by auto
    qed
    from 1(1) [OF False a [symmetric] refl inv] have "set result' \<subseteq> set (effective_loop result' frontier') \<and>
      (\<forall>p\<in>set (effective_loop result' frontier') \<union> S. set (implied_by p) \<subseteq> set (effective_loop result' frontier'))" by blast
    moreover have "effective_loop result frontier = effective_loop result' frontier'"
      using False a by (simp add: effective_loop.simps)
    ultimately show ?thesis using s by auto
  next
    case True
    then show ?thesis using 1(2) by (auto simp: effective_loop.simps)
  qed
qed

lemma closed_trancl: "implication `` R \<subseteq> R \<Longrightarrow> implication\<^sup>* `` R \<subseteq> R"
proof
  fix q
  assume R: "implication `` R \<subseteq> R" and "q \<in> implication\<^sup>* `` R"
  then obtain p where "(p, q) \<in> implication\<^sup>*" "p \<in> R" by blast
  then show "q \<in> R" using R by (induction rule: rtrancl_induct) auto
qed

lemma effective_closure: "set (compute_effective grants) = implication\<^sup>* `` set grants"
proof
  have "implication `` (implication\<^sup>* `` set grants) \<subseteq> implication\<^sup>* `` set grants"
    by (auto intro: rtrancl_into_rtrancl)
  then show "set (compute_effective grants) \<subseteq> implication\<^sup>* `` set grants"
    unfolding compute_effective_def by (intro effective_loop_sound) auto
  have c: "set grants \<subseteq> set (compute_effective grants)"
    "\<forall>p\<in>set (compute_effective grants). set (implied_by p) \<subseteq> set (compute_effective grants)"
    using effective_loop_closed [of grants "{}" grants] unfolding compute_effective_def by auto
  then have "implication `` set (compute_effective grants) \<subseteq> set (compute_effective grants)"
    by (auto simp: implication_def)
  from closed_trancl [OF this] c(1) show "implication\<^sup>* `` set grants \<subseteq> set (compute_effective grants)" by blast
qed

lemma implies_closure: "set (compute_implies_transitive p) = implication\<^sup>+ `` {p}"
proof
  have "implication `` (implication\<^sup>+ `` {p}) \<subseteq> implication\<^sup>+ `` {p}"
    by (auto intro: trancl_into_trancl)
  then show "set (compute_implies_transitive p) \<subseteq> implication\<^sup>+ `` {p}"
    unfolding compute_implies_transitive_def by (intro effective_loop_sound) auto
  let ?r = "set (compute_implies_transitive p)"
  have c: "\<forall>q\<in>insert p ?r. set (implied_by q) \<subseteq> ?r"
    using effective_loop_closed [of "[]" "{p}" "[p]"] unfolding compute_implies_transitive_def by auto
  show "implication\<^sup>+ `` {p} \<subseteq> ?r"
  proof
    fix q
    assume "q \<in> implication\<^sup>+ `` {p}"
    then have "(p, q) \<in> implication\<^sup>+" by simp
    then show "q \<in> ?r" using c by (induction rule: trancl_induct) (auto simp: implication_def)
  qed
qed

text \<open>
  C22: the two worklists of the permission catalogue compute closures of its implications: the
  effective set of some grants is every grant and whatever follows from one in any number of
  steps, and nothing else; what a permission implies is what follows in at least one step.
\<close>

theorem effective_is_closure:
  "set (compute_effective grants) = implication\<^sup>* `` set grants \<and>
   set (compute_implies_transitive p) = implication\<^sup>+ `` {p}"
  by (rule conjI [OF effective_closure implies_closure])

section \<open>Liveness and the permission in one read\<close>

record agent_row =
  ag_id :: string
  ag_status :: string
  ag_owner_id :: "string option"

record user_row =
  us_id :: string
  us_active :: bool
  us_deleted :: bool

record actor_tables =
  at_agents :: "agent_row list"
  at_users :: "user_row list"
  at_actor_grants :: "(string \<times> string \<times> string) list"
  at_user_grants :: "(string \<times> string) list"

record actor_authority =
  aa_active :: bool
  aa_holds_permission :: bool

definition no_authority :: actor_authority where
  "no_authority = \<lparr>aa_active = False, aa_holds_permission = False\<rparr>"

definition owner_inactive :: string where "owner_inactive = ''owner_inactive''"

text \<open>\<open>_AGENT_STATUS_SQL\<close>: an owned agent follows its owner's account.\<close>

definition effective_status :: "actor_tables \<Rightarrow> agent_row \<Rightarrow> string" where
  "effective_status T a =
     (if ag_status a \<noteq> ''active'' then ag_status a
      else case ag_owner_id a of
        None \<Rightarrow> ''active''
      | Some owner \<Rightarrow>
          if list_ex (\<lambda>u. us_id u = owner \<and> us_active u \<and> \<not> us_deleted u) (at_users T) then ''active''
          else owner_inactive)"

definition authority :: "actor_tables \<Rightarrow> string \<Rightarrow> string \<Rightarrow> string \<Rightarrow> actor_authority" where
  "authority T actor_id actor_type permission =
     (if actor_type = ''agent'' then
        (case find (\<lambda>a. ag_id a = actor_id) (at_agents T) of
           None \<Rightarrow> no_authority
         | Some a \<Rightarrow>
             \<lparr>aa_active = (effective_status T a = ''active''),
              aa_holds_permission = list_ex (\<lambda>g. g = (actor_id, ''agent'', permission)) (at_actor_grants T)\<rparr>)
      else if actor_type = ''user'' then
        (case find (\<lambda>u. us_id u = actor_id) (at_users T) of
           None \<Rightarrow> no_authority
         | Some u \<Rightarrow>
             \<lparr>aa_active = (us_active u \<and> \<not> us_deleted u),
              aa_holds_permission =
                permission \<in> set (compute_effective (map snd (filter (\<lambda>g. fst g = actor_id) (at_user_grants T))))\<rparr>)
      else no_authority)"

text \<open>What makes an actor able to execute now, stated over the rows.\<close>

definition may_execute :: "actor_tables \<Rightarrow> string \<Rightarrow> string \<Rightarrow> bool" where
  "may_execute T actor_id actor_type =
     (let a = authority T actor_id actor_type broker_execute_permission in aa_active a \<and> aa_holds_permission a)"

lemma find_unique:
  "distinct (map f xs) \<Longrightarrow> find (\<lambda>x. f x = i) xs = Some a \<longleftrightarrow> a \<in> set xs \<and> f a = i"
  by (induction xs) auto

lemma find_none: "find (\<lambda>x. f x = i) xs = None \<longleftrightarrow> (\<forall>a\<in>set xs. f a \<noteq> i)"
  by (auto simp: find_None_iff)

lemma effective_status_active:
  "effective_status T a = ''active'' \<longleftrightarrow> ag_status a = ''active'' \<and>
     (\<forall>owner. ag_owner_id a = Some owner \<longrightarrow> (\<exists>u\<in>set (at_users T). us_id u = owner \<and> us_active u \<and> \<not> us_deleted u))"
  by (auto simp: effective_status_def owner_inactive_def list_ex_iff split: option.splits)

lemma user_grants_effective:
  "p \<in> set (compute_effective (map snd (filter (\<lambda>g. fst g = i) gs))) \<longleftrightarrow> (\<exists>g. (i, g) \<in> set gs \<and> (g, p) \<in> implication\<^sup>*)"
  unfolding effective_closure by force

lemma agent_authority:
  assumes "distinct (map ag_id (at_agents T))"
  shows "aa_active (authority T i ''agent'' p) \<longleftrightarrow> (\<exists>a\<in>set (at_agents T). ag_id a = i \<and> effective_status T a = ''active'')"
    and "aa_holds_permission (authority T i ''agent'' p) \<longleftrightarrow>
      (\<exists>a\<in>set (at_agents T). ag_id a = i) \<and> (i, ''agent'', p) \<in> set (at_actor_grants T)"
proof -
  have "(\<exists>a\<in>set (at_agents T). ag_id a = i \<and> effective_status T a = ''active'') \<longleftrightarrow> effective_status T b = ''active''"
    if "find (\<lambda>a. ag_id a = i) (at_agents T) = Some b" for b
    using that find_unique [OF assms, of i] by (metis option.inject)
  then show "aa_active (authority T i ''agent'' p) \<longleftrightarrow> (\<exists>a\<in>set (at_agents T). ag_id a = i \<and> effective_status T a = ''active'')"
    by (auto simp: authority_def no_authority_def find_none split: option.splits)
  show "aa_holds_permission (authority T i ''agent'' p) \<longleftrightarrow>
      (\<exists>a\<in>set (at_agents T). ag_id a = i) \<and> (i, ''agent'', p) \<in> set (at_actor_grants T)"
    using find_unique [OF assms, of i] by (auto simp: authority_def no_authority_def find_none list_ex_iff split: option.splits)
qed

lemma user_authority:
  assumes "distinct (map us_id (at_users T))"
  shows "aa_active (authority T i ''user'' p) \<longleftrightarrow> (\<exists>u\<in>set (at_users T). us_id u = i \<and> us_active u \<and> \<not> us_deleted u)"
    and "aa_holds_permission (authority T i ''user'' p) \<longleftrightarrow>
      (\<exists>u\<in>set (at_users T). us_id u = i) \<and> (\<exists>g. (i, g) \<in> set (at_user_grants T) \<and> (g, p) \<in> implication\<^sup>*)"
proof -
  have "(\<exists>u\<in>set (at_users T). us_id u = i \<and> us_active u \<and> \<not> us_deleted u) \<longleftrightarrow> us_active v \<and> \<not> us_deleted v"
    if "find (\<lambda>u. us_id u = i) (at_users T) = Some v" for v
    using that find_unique [OF assms, of i] by (metis option.inject)
  then show "aa_active (authority T i ''user'' p) \<longleftrightarrow> (\<exists>u\<in>set (at_users T). us_id u = i \<and> us_active u \<and> \<not> us_deleted u)"
    by (auto simp: authority_def no_authority_def find_none split: option.splits)
  show "aa_holds_permission (authority T i ''user'' p) \<longleftrightarrow>
      (\<exists>u\<in>set (at_users T). us_id u = i) \<and> (\<exists>g. (i, g) \<in> set (at_user_grants T) \<and> (g, p) \<in> implication\<^sup>*)"
    using find_unique [OF assms, of i]
    by (auto simp: authority_def no_authority_def find_none user_grants_effective split: option.splits)
qed

lemma other_authority: "ty \<noteq> ''agent'' \<Longrightarrow> ty \<noteq> ''user'' \<Longrightarrow> authority T i ty p = no_authority"
  by (simp add: authority_def)

text \<open>
  C23: the live check says what the rows say. An actor counts as active exactly when it is an agent whose own row is active and
  whose owner (if it has one) is an active user that is not deleted, or a user that is active and not deleted; it
  holds a permission exactly when it has a row and, as an agent, the very grant, as a user, a grant that
  implies the permission. So a missing row and every other actor type give neither. Ids are primary keys.
\<close>

theorem authority_reads_rows:
  assumes "distinct (map ag_id (at_agents T))" and "distinct (map us_id (at_users T))"
  shows "(aa_active (authority T i ty p) \<longleftrightarrow>
      ty = ''agent'' \<and> (\<exists>a\<in>set (at_agents T). ag_id a = i \<and> ag_status a = ''active'' \<and>
        (\<forall>owner. ag_owner_id a = Some owner \<longrightarrow>
           (\<exists>u\<in>set (at_users T). us_id u = owner \<and> us_active u \<and> \<not> us_deleted u))) \<or>
      ty = ''user'' \<and> (\<exists>u\<in>set (at_users T). us_id u = i \<and> us_active u \<and> \<not> us_deleted u)) \<and>
    (aa_holds_permission (authority T i ty p) \<longleftrightarrow>
      ty = ''agent'' \<and> (\<exists>a\<in>set (at_agents T). ag_id a = i) \<and> (i, ''agent'', p) \<in> set (at_actor_grants T) \<or>
      ty = ''user'' \<and> (\<exists>u\<in>set (at_users T). us_id u = i) \<and>
        (\<exists>g. (i, g) \<in> set (at_user_grants T) \<and> (g, p) \<in> implication\<^sup>*))"
proof -
  consider "ty = ''agent''" | "ty = ''user''" | "ty \<noteq> ''agent''" "ty \<noteq> ''user''" by blast
  then show ?thesis
  proof cases
    case 1
    then show ?thesis using agent_authority [OF assms(1), of i p] by (simp add: effective_status_active)
  next
    case 2
    then show ?thesis using user_authority [OF assms(2), of i p] by simp
  next
    case 3
    then show ?thesis by (simp add: other_authority no_authority_def)
  qed
qed

definition sample_tables :: actor_tables where
  "sample_tables =
     \<lparr>at_agents = [\<lparr>ag_id = ''a'', ag_status = ''active'', ag_owner_id = Some ''u''\<rparr>],
      at_users = [\<lparr>us_id = ''u'', us_active = True, us_deleted = False\<rparr>],
      at_actor_grants = [(''a'', ''agent'', ''capabilities:execute'')],
      at_user_grants = [(''u'', ''org:admin'')]\<rparr>"

lemma authority_reads_rows_witness:
  "aa_active (authority sample_tables ''a'' ''agent'' ''capabilities:execute'') \<and>
   aa_holds_permission (authority sample_tables ''u'' ''user'' ''capabilities:execute'') \<and>
   \<not> aa_holds_permission (authority sample_tables ''a'' ''agent'' ''apis:read'')"
proof -
  have d: "distinct (map ag_id (at_agents sample_tables))" "distinct (map us_id (at_users sample_tables))"
    by (simp_all add: sample_tables_def)
  have "''capabilities:execute'' \<in> set (implied_by ''org:admin'')" by code_simp
  then have "(''org:admin'', ''capabilities:execute'') \<in> implication\<^sup>*" by (auto simp: implication_def)
  then show ?thesis unfolding authority_reads_rows [OF d, THEN conjunct1] authority_reads_rows [OF d, THEN conjunct2]
    by (simp add: sample_tables_def)
qed

end
