(* ===== verification/Queued_Execution.thy ===== *)
theory Queued_Execution
  imports Credential_Injection Actor_Authority Held_Executions
begin

text \<open>
  A queued execution at run time: the re-authorization of
  \<open>broker/services/execution/queued_authorization.py\<close>, its problems (\<open>shared/jobs/queued_denials.py\<close>)
  and the handler of \<open>shared/jobs/execution_handler.py\<close>, which decrypts the payload, authorizes,
  re-reads the actor, injects the credential, dispatches through the pipeline and keeps the result. Each read sees its own
  state: what the authorizer reads and what the last check reads are different fields of the
  environment.
\<close>

section \<open>The payload\<close>

definition payload_text :: "string \<Rightarrow> (string, json) dict \<Rightarrow> string option" where
  "payload_text key d = (case dict_get d key of Some (JStr s) \<Rightarrow> Some s | _ \<Rightarrow> None)"

definition str_map :: "json option \<Rightarrow> (string, string) dict option" where
  "str_map v =
     (case v of
        Some (JObj kvs) \<Rightarrow> if kvs = [] then None else Some (map (\<lambda>(k, x). (k, py_str x)) kvs)
      | _ \<Rightarrow> None)"

text \<open>An optional text field of a model: missing, null or a text; anything else does not validate.\<close>

definition text_field :: "string \<Rightarrow> (string, json) dict \<Rightarrow> string option option" where
  "text_field key d =
     (case dict_get d key of None \<Rightarrow> Some None | Some JNull \<Rightarrow> Some None | Some (JStr s) \<Rightarrow> Some (Some s) | _ \<Rightarrow> None)"

definition operation_from_job_payload :: "(string, json) dict \<Rightarrow> operation_info option" where
  "operation_from_job_payload payload =
     (case dict_get payload ''operation'' of
        Some (JObj o1) \<Rightarrow>
          if o1 = [] then None
          else (case (dict_get o1 ''id'', text_field ''path'' o1, text_field ''method'' o1, text_field ''relative_path'' o1) of
                  (Some (JStr i), Some p, Some m, Some r) \<Rightarrow>
                    Some \<lparr>oi_id = i, oi_path = p, oi_method = m, oi_relative_path = r\<rparr>
                | _ \<Rightarrow> None)
      | _ \<Rightarrow> None)"

definition encrypted_payload_key :: string where "encrypted_payload_key = ''_enc''"
definition inbound_cookie_key :: string where "inbound_cookie_key = ''inbound_cookie_enc''"

section \<open>Denials\<close>

definition queued_execution_instance :: "string \<Rightarrow> (url_error, string) result" where
  "queued_execution_instance url =
     rbind (urlparse url) (\<lambda>(p, _). Inr (''/'' @ url_netloc p @ url_path p))"

definition inactive_actor_problem :: "string \<Rightarrow> (string, json) dict" where
  "inactive_actor_problem inst =
     [(''type'', JStr ''unauthorized''), (''title'', JStr ''Unauthorized''), (''status'', JInt 401),
      (''detail'', JStr ''The actor that queued this execution is no longer active.''), (''instance'', JStr inst)]"

definition insufficient_scope_problem :: "string \<Rightarrow> (string, json) dict" where
  "insufficient_scope_problem inst =
     [(''type'', JStr ''insufficient_scope''), (''title'', JStr ''Forbidden''), (''status'', JInt 403),
      (''detail'', JStr (''Insufficient scope: '' @ quoted broker_execute_permission @ '' required'')),
      (''instance'', JStr inst)]"

section \<open>The authorizer\<close>

record queued_request =
  zr_actor_id :: string
  zr_actor_type :: string
  zr_method :: string
  zr_url :: string
  zr_api :: api_reference
  zr_operation :: "operation_info option"
  zr_credential_id :: "string option"
  zr_server_variables :: "(string, string) dict option"
  zr_variables_unresolved :: bool
  zr_job_id :: string

datatype queued_verdict =
    Verdict_Denied "(string, json) dict"
  | Verdict_Allowed "string list" "string option"

text \<open>What the authorizer reads: the actor's rows, the bindings and rules, the approvals.\<close>

record queued_authorizer =
  za_tables :: actor_tables
  za_env :: auth_env
  za_admin :: admin_db

definition auth_request_of :: "queued_request \<Rightarrow> string \<Rightarrow> string \<Rightarrow> auth_request" where
  "auth_request_of q path inst =
     \<lparr>ar_agent = zr_actor_id q, ar_api = zr_api q, ar_operation = map_option oi_id (zr_operation q),
      ar_method = zr_method q, ar_path = path, ar_instance = inst, ar_credential_name = None,
      ar_credential_id = zr_credential_id q, ar_server_variables = zr_server_variables q,
      ar_variables_unresolved = zr_variables_unresolved q, ar_upstream_url = Some (zr_url q)\<rparr>"

text \<open>\<open>rule_request_path\<close>: the enqueued relative path, else the normalized upstream path.\<close>

definition rule_request_path :: "string option \<Rightarrow> string \<Rightarrow> (url_error, string) result" where
  "rule_request_path relative url =
     (case relative of
        Some p \<Rightarrow> Inr p
      | None \<Rightarrow> rbind (urlparse_path url) (\<lambda>p. Inr (normalize_path (if p = [] then ''/'' else p))))"

definition approval_gate :: "queued_authorizer \<Rightarrow> queued_request \<Rightarrow> string \<Rightarrow> execution_authorization \<Rightarrow> queued_verdict" where
  "approval_gate A q inst a =
     (if ea_verdict a = ''require-approval'' \<and> \<not> (zr_job_id q \<noteq> [] \<and> approved_hold (zr_job_id q) (za_admin A) \<noteq> None)
      then Verdict_Denied (approval_required_problem inst)
      else Verdict_Allowed (ea_allowed_ids a) (Some (rc_credential_id (ea_selected a))))"

definition authorize_queued :: "queued_authorizer \<Rightarrow> queued_request \<Rightarrow> (auth_error, queued_verdict) result" where
  "authorize_queued A q =
     (case queued_execution_instance (zr_url q) of
        Inl e \<Rightarrow> Inl (Bad_Upstream_Url e)
      | Inr inst \<Rightarrow>
          (let actor = authority (za_tables A) (zr_actor_id q) (zr_actor_type q) broker_execute_permission in
           if \<not> aa_active actor then Inr (Verdict_Denied (inactive_actor_problem inst))
           else if \<not> aa_holds_permission actor then Inr (Verdict_Denied (insufficient_scope_problem inst))
           else if api_vendor (zr_api q) = [] \<or> api_name (zr_api q) = [] \<or> api_version (zr_api q) = [] then
             Inr (Verdict_Denied (discovery_error_problem
               (Operation_Not_Found None (Some (ev_prose (za_env A) ''unregistered''))) (Some inst)))
           else (case rule_request_path (Option.bind (zr_operation q) oi_relative_path) (zr_url q) of
                   Inl e \<Rightarrow> Inl (Bad_Upstream_Url e)
                 | Inr path \<Rightarrow>
                     (case authorize_execution (za_env A) (auth_request_of q path inst) of
                        Inl (Denied e) \<Rightarrow> Inr (Verdict_Denied (broker_error_problem e))
                      | Inl e \<Rightarrow> Inl e
                      | Inr a \<Rightarrow> Inr (approval_gate A q inst a)))))"

section \<open>The handler's environment\<close>

text \<open>
  The collaborators a worker is wired with; \<open>qe_resolve\<close> is the name resolution of the first and of the second
  egress check, \<open>qe_actors\<close> the rows the last check reads. \<open>qe_str\<close> and \<open>qe_type_name\<close> are the \<open>str\<close> and the class
  name of an exception that is not a domain error's detail.
\<close>

record 'w queued_env =
  qe_egress :: "egress_config option"
  qe_resolve :: "bool \<Rightarrow> string \<Rightarrow> ip_addr list option"
  qe_decrypt :: "(string \<Rightarrow> string option) option"
  qe_authorizer :: "queued_authorizer option"
  qe_actors :: "actor_tables option"
  qe_injector :: "'w injector option"
  qe_registry :: "'w runner registry"
  qe_detect :: "'w detector"
  qe_str :: "executor_error \<Rightarrow> string"
  qe_type_name :: "executor_error \<Rightarrow> string"
  qe_timeout :: real
  qe_minted :: string
  qe_now :: real

text \<open>The constructor's checks: credentials are injected only for an actor that is re-authorized and re-read.\<close>

definition handler_wired :: "'w queued_env \<Rightarrow> bool" where
  "handler_wired Q =
     ((qe_injector Q \<noteq> None \<longrightarrow> qe_authorizer Q \<noteq> None \<and> qe_actors Q \<noteq> None) \<and>
      (qe_actors Q \<noteq> None \<longrightarrow> qe_authorizer Q \<noteq> None))"

datatype handler_error =
    Missing_Actor
  | Payload_Undecryptable
  | Payload_Malformed
  | Bad_Body
  | Url_Refused egress_error
  | Url_Broken url_error
  | Authorizer_Raised auth_error
  | Injection_Unchecked
  | Injection_Raised inject_failure

definition held_payload_undecryptable :: "(string, json) dict" where
  "held_payload_undecryptable =
     [(''type'', JStr ''approval_hold_unavailable''), (''title'', JStr ''Held execution could not run''),
      (''status'', JInt 503),
      (''detail'', JStr (''The worker has no credentials encryption keyset to read this held execution; '' @ ''it was not run'')),
      (''error_origin'', JStr ''broker'')]"

type_synonym job_result_payload = "(string, json) dict \<times> string option"

text \<open>The sealed payload: \<open>Inl\<close> an exception, \<open>Inr None\<close> no keyset.\<close>

definition open_payload :: "'w queued_env \<Rightarrow> (string, json) dict \<Rightarrow> (handler_error, (string, json) dict option) result" where
  "open_payload Q payload =
     (case dict_get payload encrypted_payload_key of
        None \<Rightarrow> Inr (Some payload)
      | Some blob \<Rightarrow>
          (case qe_decrypt Q of
             None \<Rightarrow> Inr None
           | Some decrypt \<Rightarrow>
               (case decrypt (py_str blob) of
                  None \<Rightarrow> Inl Payload_Undecryptable
                | Some s \<Rightarrow> (case json_loads s of Some (JObj d) \<Rightarrow> Inr (Some d) | _ \<Rightarrow> Inl Payload_Malformed))))"

text \<open>\<open>_inbound_cookie\<close>: a cookie that cannot be read is dropped.\<close>

definition inbound_cookie :: "'w queued_env \<Rightarrow> (string, json) dict \<Rightarrow> string option" where
  "inbound_cookie Q payload =
     (case dict_get payload inbound_cookie_key of
        Some (JStr (c # cs)) \<Rightarrow> (case qe_decrypt Q of None \<Rightarrow> None | Some decrypt \<Rightarrow> decrypt (c # cs))
      | _ \<Rightarrow> None)"

section \<open>Lifecycle and denials\<close>

record queued_context =
  qc_job_id :: string
  qc_actor_id :: string
  qc_actor_type :: string
  qc_payload :: "(string, json) dict"
  qc_execution_id :: string
  qc_trace_id :: string
  qc_url :: string

definition queued_lifecycle_event ::
  "queued_context \<Rightarrow> exec_status \<Rightarrow> string option \<Rightarrow> string option \<Rightarrow> real \<Rightarrow> exec_event" where
  "queued_lifecycle_event c status err tag now =
     (let origin = option_list (origin_or_none (payload_text ''origin'' (qc_payload c)));
          base = \<lparr>xe_type = ''execution.completed'', xe_severity = ''info'',
            xe_summary = ''Execution completed (job '' @ qc_job_id c @ '')'', xe_requires_action = False,
            xe_execution_id = Some (qc_execution_id c), xe_trace_id = valid_trace_id_or_none (Some (qc_trace_id c)),
            xe_job_id = Some (qc_job_id c), xe_created_by = qc_actor_id c, xe_actor_id = qc_actor_id c,
            xe_actor_type = qc_actor_type c, xe_data = tags_data origin, xe_created_at = now\<rparr> in
      if status = Exec_Completed then base
      else base\<lparr>xe_type := ''execution.failed'', xe_severity := ''error'',
             xe_summary := ''Execution failed: '' @
               take summary_field_len (case err of Some (x # xs) \<Rightarrow> x # xs | _ \<Rightarrow> ''unknown''),
             xe_requires_action := True, xe_data := tags_data (option_list tag @ origin)\<rparr>)"

text \<open>\<open>_write_lifecycle\<close>: whatever the transaction meets, the handler goes on.\<close>

definition write_lifecycle ::
  "'w queued_env \<Rightarrow> queued_context \<Rightarrow> exec_status \<Rightarrow> string option \<Rightarrow> string option \<Rightarrow> string option \<Rightarrow> 'w exec_world
     \<Rightarrow> 'w exec_world" where
  "write_lifecycle Q c status err tag credential w =
     (let e = queued_lifecycle_event c status err tag (qe_now Q);
          (more_events, w) =
            (if status = Exec_Failed then
               (let key = \<lparr>fk_actor_id = qc_actor_id c, fk_actor_type = qc_actor_type c, fk_credential_id = credential,
                      fk_operation = operation_from_job_payload (qc_payload c), fk_trace_id = xe_trace_id e\<rparr>;
                    (evs, inner) = qe_detect Q key (xw_records w) (xw_events w @ [e]) (xw_inner w) in
                (evs, w\<lparr>xw_inner := inner\<rparr>))
             else ([], w)) in
      snd (write_tx None (e # more_events) w))"

definition status_text :: "exec_status \<Rightarrow> string" where
  "status_text s = (case s of Exec_Completed \<Rightarrow> ''completed'' | Exec_Failed \<Rightarrow> ''failed'')"

definition json_int :: "int option \<Rightarrow> json" where
  "json_int n = (case n of None \<Rightarrow> JNull | Some k \<Rightarrow> JInt k)"

definition deny_queued ::
  "'w queued_env \<Rightarrow> queued_context \<Rightarrow> (string, json) dict \<Rightarrow> 'w exec_world \<Rightarrow> job_result_payload \<times> 'w exec_world" where
  "deny_queued Q c problem w =
     (let type = (case dict_get problem ''type'' of Some (JStr (x # xs)) \<Rightarrow> x # xs | _ \<Rightarrow> ''about:blank'') in
      (([(''execution_id'', JStr (qc_execution_id c)), (''status'', JStr ''failed''),
         (''http_status'', case dict_get problem ''status'' of Some (JInt n) \<Rightarrow> JInt n | _ \<Rightarrow> JNull),
         (''duration_ms'', JInt 0), (''problem'', JObj problem)], None),
       write_lifecycle Q c Exec_Failed (Some (''Authorization denied ('' @ type @ '')'')) None
         (payload_text ''credential_id'' (qc_payload c)) w))"

section \<open>The last read of the actor\<close>

definition recheck_denial :: "actor_tables \<Rightarrow> string \<Rightarrow> string \<Rightarrow> (string \<Rightarrow> (string, json) dict) option" where
  "recheck_denial T actor_id actor_type =
     (if actor_type \<notin> {''agent'', ''user''} then Some inactive_actor_problem
      else (let a = authority T actor_id actor_type broker_execute_permission in
            if \<not> aa_active a then Some inactive_actor_problem
            else if \<not> aa_holds_permission a then Some insufficient_scope_problem else None))"

text \<open>The verdict of the authorizer and the recheck; the flag says that a live identity was established.\<close>

definition admit_queued :: "'w queued_env \<Rightarrow> queued_request \<Rightarrow> (handler_error, queued_verdict \<times> bool) result" where
  "admit_queued Q q =
     (case qe_authorizer Q of
        None \<Rightarrow> Inr (Verdict_Allowed [] None, False)
      | Some A \<Rightarrow>
          (case authorize_queued A q of
             Inl e \<Rightarrow> Inl (Authorizer_Raised e)
           | Inr (Verdict_Denied p) \<Rightarrow> Inr (Verdict_Denied p, False)
           | Inr (Verdict_Allowed ids cred) \<Rightarrow>
               (case qe_actors Q of
                  None \<Rightarrow> Inr (Verdict_Allowed ids cred, False)
                | Some T \<Rightarrow>
                    (case recheck_denial T (zr_actor_id q) (zr_actor_type q) of
                       None \<Rightarrow> Inr (Verdict_Allowed ids cred, True)
                     | Some problem \<Rightarrow>
                         (case queued_execution_instance (zr_url q) of
                            Inl e \<Rightarrow> Inl (Url_Broken e)
                          | Inr inst \<Rightarrow> Inr (Verdict_Denied (problem inst), False))))))"

section \<open>After the dispatch\<close>

fun cut_at :: "string \<Rightarrow> string \<Rightarrow> string" where
  "cut_at marker [] = []"
| "cut_at marker (c # cs) = (if prefix marker (c # cs) then [] else c # cut_at marker cs)"

definition redact_sql :: "string \<Rightarrow> string" where
  "redact_sql s = str_strip (cut_at ''[SQL:'' s)"

definition error_text :: "'w queued_env \<Rightarrow> executor_error \<Rightarrow> string" where
  "error_text Q e =
     (case e of
        Selection_Failed (Routing b) \<Rightarrow> be_detail b
      | Propagated (Broker_Raised (Domain b)) \<Rightarrow> be_detail b
      | _ \<Rightarrow> qe_str Q e)"

record settled =
  se_status :: exec_status
  se_http_status :: "int option"
  se_error :: "string option"
  se_body :: string
  se_content_type :: "string option"
  se_duration_ms :: int

definition settled_result :: "exec_result \<Rightarrow> string \<Rightarrow> settled" where
  "settled_result x remark =
     \<lparr>se_status = (if 400 \<le> xs_status x then Exec_Failed else Exec_Completed), se_http_status = Some (xs_status x),
      se_error = (if 400 \<le> xs_status x then Some (upstream_returned (xs_status x) @ remark) else None),
      se_body = xs_body x, se_content_type = xs_content_type x, se_duration_ms = xs_duration_ms x\<rparr>"

definition settled_error :: "string \<Rightarrow> settled" where
  "settled_error err =
     \<lparr>se_status = Exec_Failed, se_http_status = None, se_error = Some err, se_body = [], se_content_type = None,
      se_duration_ms = 0\<rparr>"

definition record_not_persisted :: string where
  "record_not_persisted = ''execution record not persisted''"

definition settle :: "'w queued_env \<Rightarrow> (executor_error, exec_result) result \<Rightarrow> settled" where
  "settle Q r =
     (case r of
        Inr x \<Rightarrow> settled_result x []
      | Inl (Record_Not_Persisted (Some x) _ _) \<Rightarrow> settled_result x ('' ('' @ record_not_persisted @ '')'')
      | Inl (Record_Not_Persisted None reason _) \<Rightarrow>
          settled_error (take summary_field_len
            (if or_nothing reason then text_or_empty reason @ '' ('' @ record_not_persisted @ '')''
             else ''Execution record not persisted''))
      | Inl e \<Rightarrow>
          (let safe = redact_sql (error_text Q e) in
           settled_error (take summary_field_len (if safe = [] then qe_type_name Q e else safe))))"

definition result_payload :: "string \<Rightarrow> settled \<Rightarrow> job_result_payload" where
  "result_payload execution_id s =
     ([(''execution_id'', JStr execution_id), (''status'', JStr (status_text (se_status s))),
       (''http_status'', json_int (se_http_status s)), (''duration_ms'', JInt (se_duration_ms s))] @
      (if se_body s = [] then [] else [(''body_b64'', JStr (b64encode (se_body s)))]),
      se_content_type s)"

section \<open>The handler\<close>

definition queued_request_of :: "queued_context \<Rightarrow> queued_request" where
  "queued_request_of c =
     (let p = qc_payload c in
      \<lparr>zr_actor_id = qc_actor_id c, zr_actor_type = qc_actor_type c,
       zr_method = (case payload_text ''method'' p of None \<Rightarrow> ''GET'' | Some m \<Rightarrow> m), zr_url = qc_url c,
       zr_api = \<lparr>api_vendor = text_or_empty (payload_text ''api_vendor'' p), api_name = text_or_empty (payload_text ''api_name'' p),
         api_version = text_or_empty (payload_text ''api_version'' p)\<rparr>,
       zr_operation = operation_from_job_payload p, zr_credential_id = payload_text ''credential_id'' p,
       zr_server_variables = str_map (dict_get p ''server_variables''),
       zr_variables_unresolved = (dict_get p ''server_variables_unresolved'' = Some (JBool True)),
       zr_job_id = qc_job_id c\<rparr>)"

definition injection_call_of :: "queued_context \<Rightarrow> string list \<Rightarrow> string option \<Rightarrow> injection_call" where
  "injection_call_of c ids cred =
     (let q = queued_request_of c in
      \<lparr>ic_api = zr_api q, ic_actor_id = qc_actor_id c, ic_actor_type = qc_actor_type c, ic_actor_name = None,
       ic_credential_name = None, ic_credential_id = cred, ic_allowed = Some ids, ic_trace_id = Some (qc_trace_id c),
       ic_preresolved = None, ic_server_variables = zr_server_variables q,
       ic_variables_unresolved = zr_variables_unresolved q\<rparr>)"

text \<open>The injection of an admitted call; the defaults count only when a credential may be injected.\<close>

definition inject_queued ::
  "'w queued_env \<Rightarrow> queued_context \<Rightarrow> string list \<Rightarrow> string option \<Rightarrow> bool \<Rightarrow> 'w exec_world
     \<Rightarrow> (handler_error, queued_auth \<times> (string, string) dict option) result \<times> 'w exec_world" where
  "inject_queued Q c ids cred live w =
     (case qe_injector Q of
        None \<Rightarrow> (Inr (no_injection, None), w)
      | Some J \<Rightarrow>
          if \<not> or_nothing (payload_text ''api_vendor'' (qc_payload c)) then (Inr (no_injection, None), w)
          else if \<not> live then (Inl Injection_Unchecked, w)
          else (case inject_credential J (injection_call_of c ids cred) (qe_now Q) w of
                  (Inl e, w) \<Rightarrow> (Inl (Injection_Raised e), w)
                | (Inr a, w) \<Rightarrow> (Inr (a, str_map (dict_get (qc_payload c) ''server_variable_defaults'')), w)))"

definition exec_call_of ::
  "'w queued_env \<Rightarrow> queued_context \<Rightarrow> string \<Rightarrow> headers \<Rightarrow> string option \<Rightarrow> queued_auth \<Rightarrow> exec_call" where
  "exec_call_of Q c url hs body a =
     (let p = qc_payload c; q = queued_request_of c in
      \<lparr>xc_context = \<lparr>rx_url = url, rx_method = zr_method q, rx_trace_id = qc_trace_id c,
         rx_toolkit_id = payload_text ''toolkit_id'' p, rx_operation = zr_operation q,
         rx_api_vendor = payload_text ''api_vendor'' p, rx_api_name = payload_text ''api_name'' p,
         rx_api_version = payload_text ''api_version'' p, rx_pinned_revisions = dict_get p ''pinned_revisions'',
         rx_credential_id = qa_credential_id a, rx_credential_name = qa_credential_name a\<rparr>,
       xc_body = body, xc_headers = Some hs, xc_timeout = qe_timeout Q, xc_execution_id = Some (qc_execution_id c),
       xc_actor_id = qc_actor_id c, xc_actor_type = qc_actor_type c, xc_origin = payload_text ''origin'' p,
       xc_detect = False, xc_signing = qa_signing a, xc_emit_lifecycle = False\<rparr>)"

text \<open>The outbound URL and headers: injection applied, and a URL it rewrote checked again.\<close>

definition outbound_queued ::
  "'w queued_env \<Rightarrow> queued_context \<Rightarrow> queued_auth \<Rightarrow> (string, string) dict option \<Rightarrow> (handler_error, string \<times> headers) result" where
  "outbound_queued Q c a defaults =
     (case apply_injection (case str_map (dict_get (qc_payload c) ''headers'') of None \<Rightarrow> [] | Some hs \<Rightarrow> hs) (qc_url c)
             (injected_auth.truncate a) (inbound_cookie Q (qc_payload c)) defaults of
        Inl e \<Rightarrow> Inl (Url_Broken e)
      | Inr (url, hs) \<Rightarrow>
          if ia_server_variables a \<noteq> [] \<or> (defaults \<noteq> None \<and> defaults \<noteq> Some []) then
            (case validate_upstream_url_async (qe_resolve Q True) url (qe_egress Q) of
               Inl e \<Rightarrow> Inl (Url_Refused e) | Inr url \<Rightarrow> Inr (url, hs))
          else Inr (url, hs))"

definition dispatch_queued ::
  "'w queued_env \<Rightarrow> queued_context \<Rightarrow> exec_call \<Rightarrow> 'w exec_world \<Rightarrow> job_result_payload \<times> 'w exec_world" where
  "dispatch_queued Q c call w =
     (let (r, w) = pipeline_executor (qe_registry Q) (qe_minted Q) (qe_now Q) (qe_now Q) call w;
          s = settle Q r;
          tag = thirdparty_auth_error_tag (se_http_status s) (rx_api_vendor (xc_context call)) in
      (result_payload (qc_execution_id c) s,
       write_lifecycle Q c (se_status s) (se_error s) tag (rx_credential_id (xc_context call)) w))"

definition run_admitted ::
  "'w queued_env \<Rightarrow> queued_context \<Rightarrow> string option \<Rightarrow> string list \<Rightarrow> string option \<Rightarrow> bool \<Rightarrow> 'w exec_world
     \<Rightarrow> (handler_error, job_result_payload) result \<times> 'w exec_world" where
  "run_admitted Q c body ids cred live w =
     (case inject_queued Q c ids cred live w of
        (Inl e, w) \<Rightarrow> (Inl e, w)
      | (Inr (a, defaults), w) \<Rightarrow>
          (case outbound_queued Q c a defaults of
             Inl e \<Rightarrow> (Inl e, w)
           | Inr (url, hs) \<Rightarrow> map_prod Inr id (dispatch_queued Q c (exec_call_of Q c url hs body a) w)))"

definition context_of :: "'w queued_env \<Rightarrow> string \<Rightarrow> string \<Rightarrow> string \<Rightarrow> (string, json) dict \<Rightarrow> string \<Rightarrow> queued_context" where
  "context_of Q jid actor_id actor_type p url =
     \<lparr>qc_job_id = jid, qc_actor_id = actor_id, qc_actor_type = actor_type, qc_payload = p,
      qc_execution_id = (case payload_text ''execution_id'' p of None \<Rightarrow> ''exec_'' @ jid | Some i \<Rightarrow> i),
      qc_trace_id = valid_trace_id_or_minted (qe_minted Q) (Some (text_or_empty (payload_text ''trace_id'' p))),
      qc_url = url\<rparr>"

definition run_opened ::
  "'w queued_env \<Rightarrow> string \<Rightarrow> string \<Rightarrow> string \<Rightarrow> (string, json) dict \<Rightarrow> 'w exec_world
     \<Rightarrow> (handler_error, job_result_payload) result \<times> 'w exec_world" where
  "run_opened Q jid actor_id actor_type p w =
     (case (case payload_text ''body_b64'' p of
              Some (x # xs) \<Rightarrow> map_option Some (b64decode (x # xs)) | _ \<Rightarrow> Some None) of
        None \<Rightarrow> (Inl Bad_Body, w)
      | Some body \<Rightarrow>
          (case validate_upstream_url_async (qe_resolve Q False) (text_or_empty (payload_text ''upstream_url'' p)) (qe_egress Q) of
             Inl e \<Rightarrow> (Inl (Url_Refused e), w)
           | Inr url \<Rightarrow>
               (let c = context_of Q jid actor_id actor_type p url in
                case admit_queued Q (queued_request_of c) of
                  Inl e \<Rightarrow> (Inl e, w)
                | Inr (Verdict_Denied problem, _) \<Rightarrow> map_prod Inr id (deny_queued Q c problem w)
                | Inr (Verdict_Allowed ids cred, live) \<Rightarrow> run_admitted Q c body ids cred live w)))"

definition handle_execution ::
  "'w queued_env \<Rightarrow> string \<Rightarrow> (string, json) dict option \<Rightarrow> string option \<Rightarrow> string option \<Rightarrow> 'w exec_world
     \<Rightarrow> (handler_error, job_result_payload) result \<times> 'w exec_world" where
  "handle_execution Q jid payload created_by actor_type w =
     (if \<not> or_nothing created_by \<or> \<not> or_nothing actor_type then (Inl Missing_Actor, w)
      else case open_payload Q (case payload of None \<Rightarrow> [] | Some p \<Rightarrow> p) of
        Inl e \<Rightarrow> (Inl e, w)
      | Inr None \<Rightarrow>
          (Inr ([(''execution_id'', JStr (''exec_'' @ jid)), (''status'', JStr ''failed''), (''http_status'', JInt 503),
                 (''duration_ms'', JInt 0), (''problem'', JObj held_payload_undecryptable)], None), w)
      | Inr (Some p) \<Rightarrow> run_opened Q jid (text_or_empty created_by) (text_or_empty actor_type) p w)"

end
