(* ===== verification/Queued_Properties.thy ===== *)
theory Queued_Properties
  imports Queued_Execution
begin

text \<open>
  What a queued execution guarantees: an exception of the handler means that nothing was sent, at most one request
  is sent in any run, and a request is sent only for an actor that is live, permitted and authorized
  now, with an approval when a rule asks for one.
\<close>

section \<open>Frames\<close>

lemma write_lifecycle_frame [simp]: "xw_dispatched (write_lifecycle Q c s err tag cred w) = xw_dispatched w"
  by (auto simp: write_lifecycle_def Let_def split: prod.splits)

lemma deny_frame [simp]: "xw_dispatched (snd (deny_queued Q c problem w)) = xw_dispatched w"
  by (simp add: deny_queued_def Let_def)

lemma dispatch_queued_dispatched:
  "xw_dispatched (snd (dispatch_queued Q c call w)) \<in> {xw_dispatched w, xw_dispatched w @ [runner_request_of call]}"
  using executor_dispatches [of "qe_registry Q" "qe_minted Q" "qe_now Q" "qe_now Q" call w]
  by (auto simp: dispatch_queued_def Let_def split: prod.splits)

lemma inject_queued_frame: "inject_queued Q c ids cred live w = (r, w') \<Longrightarrow> xw_dispatched w' = xw_dispatched w"
proof -
  assume a: "inject_queued Q c ids cred live w = (r, w')"
  have "xw_dispatched (snd (inject_credential J call now w)) = xw_dispatched w" for J call now
    by (rule inject_frame)
  with a show ?thesis by (auto simp: inject_queued_def split: option.splits if_splits prod.splits sum.splits) (metis snd_conv)+
qed

section \<open>The paths of a run\<close>

definition sends :: "'w exec_world \<Rightarrow> 'w exec_world \<Rightarrow> runner_request \<Rightarrow> bool" where
  "sends w w' rq = (xw_dispatched w' = xw_dispatched w @ [rq])"

lemma run_admitted_cases:
  assumes "run_admitted Q c body ids cred live w = (r, w')"
  shows "xw_dispatched w' = xw_dispatched w \<or>
    (\<exists>a defaults url hs w1 p. inject_queued Q c ids cred live w = (Inr (a, defaults), w1) \<and>
       outbound_queued Q c a defaults = Inr (url, hs) \<and> sends w w' (runner_request_of (exec_call_of Q c url hs body a)) \<and> r = Inr p)"
proof -
  obtain res w1 where i: "inject_queued Q c ids cred live w = (res, w1)" by fastforce
  note f = inject_queued_frame [OF i]
  show ?thesis
  proof (cases res)
    case (Inl e)
    then show ?thesis using assms f by (simp add: run_admitted_def i)
  next
    case (Inr ad)
    obtain a defaults where ad: "ad = (a, defaults)" by fastforce
    show ?thesis
    proof (cases "outbound_queued Q c a defaults")
      case (Inl e)
      then show ?thesis using assms f Inr ad by (simp add: run_admitted_def i)
    next
      case out: (Inr uh)
      obtain url hs where uh: "uh = (url, hs)" by fastforce
      obtain p w2 where d: "dispatch_queued Q c (exec_call_of Q c url hs body a) w1 = (p, w2)" by fastforce
      have "r = Inr p" "w' = w2" using assms by (simp_all add: run_admitted_def i Inr ad out uh d)
      moreover have "xw_dispatched w2 \<in> {xw_dispatched w, xw_dispatched w @ [runner_request_of (exec_call_of Q c url hs body a)]}"
        using dispatch_queued_dispatched [of Q c "exec_call_of Q c url hs body a" w1] d f by simp
      ultimately show ?thesis using i Inr ad out uh by (auto simp: sends_def)
    qed
  qed
qed

text \<open>The body that a payload holds; \<open>None\<close> when it cannot be decoded.\<close>

definition queued_body :: "(string, json) dict \<Rightarrow> string option option" where
  "queued_body p = (case payload_text ''body_b64'' p of Some (x # xs) \<Rightarrow> map_option Some (b64decode (x # xs)) | _ \<Rightarrow> Some None)"

text \<open>What a run that sends has passed through.\<close>

definition sent_by ::
  "'w queued_env \<Rightarrow> string \<Rightarrow> string \<Rightarrow> string \<Rightarrow> (string, json) dict \<Rightarrow> 'w exec_world \<Rightarrow> runner_request \<Rightarrow> queued_context
     \<Rightarrow> string list \<Rightarrow> string option \<Rightarrow> queued_auth \<Rightarrow> bool" where
  "sent_by Q jid actor_id actor_type p w rq c ids cred a =
     (c = context_of Q jid actor_id actor_type p (qc_url c) \<and>
      validate_upstream_url_async (qe_resolve Q False) (text_or_empty (payload_text ''upstream_url'' p)) (qe_egress Q) = Inr (qc_url c) \<and>
      (\<exists>live body defaults url hs w1.
         queued_body p = Some body \<and>
         admit_queued Q (queued_request_of c) = Inr (Verdict_Allowed ids cred, live) \<and>
         inject_queued Q c ids cred live w = (Inr (a, defaults), w1) \<and>
         outbound_queued Q c a defaults = Inr (url, hs) \<and>
         rq = runner_request_of (exec_call_of Q c url hs body a)))"

lemma run_opened_cases:
  assumes "run_opened Q jid actor_id actor_type p w = (r, w')"
  shows "xw_dispatched w' = xw_dispatched w \<or>
    (\<exists>rq c ids cred a res. sends w w' rq \<and> sent_by Q jid actor_id actor_type p w rq c ids cred a \<and> r = Inr res)"
proof -
  define body where "body = queued_body p"
  note run = assms [unfolded run_opened_def queued_body_def [symmetric] body_def [symmetric] Let_def]
  show ?thesis
  proof (cases body)
    case None
    then show ?thesis using run by simp
  next
    case (Some b)
    let ?raw = "text_or_empty (payload_text ''upstream_url'' p)"
    show ?thesis
    proof (cases "validate_upstream_url_async (qe_resolve Q False) ?raw (qe_egress Q)")
      case (Inl e)
      then show ?thesis using run Some by simp
    next
      case url: (Inr url)
      let ?c = "context_of Q jid actor_id actor_type p url"
      have c: "qc_url ?c = url" by (simp add: context_of_def)
      show ?thesis
      proof (cases "admit_queued Q (queued_request_of ?c)")
        case (Inl e)
        then show ?thesis using run Some url by simp
      next
        case adm: (Inr v)
        obtain verdict live where v: "v = (verdict, live)" by fastforce
        show ?thesis
        proof (cases verdict)
          case (Verdict_Denied problem)
          then have "xw_dispatched w' = xw_dispatched w"
            using run Some url adm v deny_frame [of Q ?c problem w] by (cases "deny_queued Q ?c problem w") simp
          then show ?thesis by simp
        next
          case (Verdict_Allowed ids cred)
          then have "run_admitted Q ?c b ids cred live w = (r, w')" using run Some url adm v by simp
          from run_admitted_cases [OF this] show ?thesis
            using c url adm v Verdict_Allowed Some unfolding sent_by_def body_def by metis
        qed
      qed
    qed
  qed
qed

lemma handle_cases:
  assumes "handle_execution Q jid payload created_by actor_type w = (r, w')"
  shows "xw_dispatched w' = xw_dispatched w \<or>
    (\<exists>i ty p rq c ids cred a res. created_by = Some i \<and> actor_type = Some ty \<and>
       open_payload Q (case payload of None \<Rightarrow> [] | Some p \<Rightarrow> p) = Inr (Some p) \<and> sends w w' rq \<and>
       sent_by Q jid i ty p w rq c ids cred a \<and> r = Inr res)"
proof (cases "or_nothing created_by \<and> or_nothing actor_type")
  case False
  then show ?thesis using assms by (auto simp: handle_execution_def split: if_splits)
next
  case True
  then obtain i ty where a: "created_by = Some i" "actor_type = Some ty"
    by (auto simp: or_nothing_def split: option.splits)
  note run = assms [unfolded handle_execution_def]
  show ?thesis
  proof (cases "open_payload Q (case payload of None \<Rightarrow> [] | Some p \<Rightarrow> p)")
    case (Inl e)
    then show ?thesis using run True by simp
  next
    case (Inr opened)
    show ?thesis
    proof (cases opened)
      case None
      then show ?thesis using run True Inr by auto
    next
      case (Some p)
      then have "run_opened Q jid i ty p w = (r, w')" using run True Inr a by (simp add: text_or_empty_def)
      from run_opened_cases [OF this] a show ?thesis using Inr Some by blast
    qed
  qed
qed

section \<open>Raising means nothing was sent\<close>

text \<open>
  C13: a queued call is sent at most once per run, and a run that raises has sent nothing. So a
  job the worker retries after an exception never repeats a request.
\<close>

theorem raised_run_sent_nothing:
  assumes "handle_execution Q jid payload created_by actor_type w = (r, w')"
  shows "case r of
      Inl e \<Rightarrow> xw_dispatched w' = xw_dispatched w
    | Inr res \<Rightarrow> xw_dispatched w' = xw_dispatched w \<or> (\<exists>rq. xw_dispatched w' = xw_dispatched w @ [rq])"
  using handle_cases [OF assms] by (auto simp: sends_def split: sum.splits)

section \<open>A sent call was authorized\<close>



lemma recheck_denial_None: "recheck_denial T i ty = None \<Longrightarrow> may_execute T i ty"
  by (auto simp: recheck_denial_def may_execute_def Let_def split: if_splits)

lemma admit_queued_Allowed:
  assumes "admit_queued Q q = Inr (Verdict_Allowed ids cred, live)" "qe_authorizer Q = Some A"
  shows "authorize_queued A q = Inr (Verdict_Allowed ids cred) \<and>
    (\<forall>T. qe_actors Q = Some T \<longrightarrow> may_execute T (zr_actor_id q) (zr_actor_type q) \<and> live) \<and>
    (qe_actors Q = None \<longrightarrow> \<not> live)"
  using assms by (auto simp: admit_queued_def recheck_denial_None split: sum.splits queued_verdict.splits option.splits)











section \<open>The wiring\<close>

text \<open>
  A wired handler never injects for an actor it has not re-read. With the constructor's
  checks passed, the run-time error of an unchecked injection cannot happen.
\<close>

theorem wired_handler_checks_identity:
  assumes "handler_wired Q"
  shows "fst (handle_execution Q jid payload created_by actor_type w) \<noteq> Inl Injection_Unchecked"
proof -
  have inj: "fst (inject_queued Q c ids cred live w) \<noteq> Inl Injection_Unchecked"
    if "admit_queued Q q = Inr (Verdict_Allowed ids cred, live)" for c ids cred live w q
  proof (cases "qe_injector Q")
    case (Some J)
    then obtain A T where "qe_authorizer Q = Some A" "qe_actors Q = Some T" using assms by (auto simp: handler_wired_def)
    then have live using admit_queued_Allowed [OF that] by blast
    then show ?thesis using Some by (auto simp: inject_queued_def split: prod.splits sum.splits)
  qed (simp add: inject_queued_def)
  have adm: "fst (run_admitted Q c b ids cred live w) \<noteq> Inl Injection_Unchecked"
    if "admit_queued Q q = Inr (Verdict_Allowed ids cred, live)" for c b ids cred live w q
    using inj [OF that, of c w]
    by (auto simp: run_admitted_def outbound_queued_def split: prod.splits sum.splits if_splits)
  have admitted: "admit_queued Q q \<noteq> Inl Injection_Unchecked" for q
    by (auto simp: admit_queued_def split: option.splits sum.splits queued_verdict.splits)
  have run: "fst (run_opened Q jid i ty p w) \<noteq> Inl Injection_Unchecked" for i ty p
  proof -
    define c where "c = context_of Q jid i ty p"
    have "fst (case admit_queued Q (queued_request_of (c url)) of
        Inl e \<Rightarrow> (Inl e, w)
      | Inr (Verdict_Denied problem, _) \<Rightarrow> map_prod Inr id (deny_queued Q (c url) problem w)
      | Inr (Verdict_Allowed ids cred, live) \<Rightarrow> run_admitted Q (c url) b ids cred live w) \<noteq> Inl Injection_Unchecked" for url b
      using admitted [of "queued_request_of (c url)"] adm [of "queued_request_of (c url)"]
      by (auto split: sum.splits queued_verdict.splits prod.splits)
    then show ?thesis unfolding run_opened_def Let_def c_def [symmetric] by (auto split: option.splits sum.splits)
  qed
  have "open_payload Q p \<noteq> Inl Injection_Unchecked" for p
    by (auto simp: open_payload_def split: option.splits json.splits)
  then show ?thesis using run
    by (auto simp: handle_execution_def split: option.splits sum.splits)
qed

section \<open>A concrete run\<close>

definition demo_queue_env :: "actor_tables \<Rightarrow> int \<Rightarrow> unit queued_env" where
  "demo_queue_env T status =
     \<lparr>qe_egress = None, qe_resolve = (\<lambda>_ _. None), qe_decrypt = None,
      qe_authorizer = Some \<lparr>za_tables = sample_tables, za_env = demo_env, za_admin = \<lparr>db_jobs = [], db_holds = [], db_results = [], db_records = [], db_events = []\<rparr>\<rparr>,
      qe_actors = Some T, qe_injector = Some sample_injector,
      qe_registry = register [''https''] (refusing_runner status) True empty_registry, qe_detect = no_detector,
      qe_str = (\<lambda>_. []), qe_type_name = (\<lambda>_. ''Exception''), qe_timeout = 30, qe_minted = replicate 32 (CHR ''b''), qe_now = 5\<rparr>"

definition demo_payload :: "(string, json) dict" where
  "demo_payload =
     [(''upstream_url'', JStr ''https://api.acme/v1/x''), (''method'', JStr ''get''), (''execution_id'', JStr ''exec_7''),
      (''api_vendor'', JStr ''acme''), (''api_name'', JStr ''pay''), (''api_version'', JStr ''1''),
      (''operation'', JObj [(''id'', JStr ''op''), (''relative_path'', JStr ''/x'')])]"


lemma demo_bad_body:
  "case handle_execution (demo_queue_env sample_tables 200) ''j1'' (Some (dict_set ''body_b64'' (JStr ''A'') demo_payload))
      (Some ''a'') (Some ''agent'') (fresh_world ()) of
     (Inl e, w) \<Rightarrow> e = Bad_Body | _ \<Rightarrow> False"
  by code_simp

lemma raised_run_sent_nothing_witness:
  "case handle_execution (demo_queue_env sample_tables 200) ''j1'' (Some (dict_set ''body_b64'' (JStr ''A'') demo_payload))
      (Some ''a'') (Some ''agent'') (fresh_world ()) of
     (Inl e, w) \<Rightarrow> e = Bad_Body \<and> xw_dispatched w = [] | _ \<Rightarrow> False"
proof -
  obtain r w where rw: "handle_execution (demo_queue_env sample_tables 200) ''j1'' (Some (dict_set ''body_b64'' (JStr ''A'') demo_payload))
      (Some ''a'') (Some ''agent'') (fresh_world ()) = (r, w)" by fastforce
  from raised_run_sent_nothing [OF rw] demo_bad_body show ?thesis
    unfolding rw by (auto simp: fresh_world_def split: sum.splits)
qed


lemma wired_handler_checks_identity_witness:
  "handler_wired (demo_queue_env sample_tables 200) \<and>
   fst (handle_execution (demo_queue_env sample_tables 200) ''j1'' (Some demo_payload) (Some ''a'') (Some ''agent'') (fresh_world ()))
     \<noteq> Inl Injection_Unchecked"
proof -
  have "handler_wired (demo_queue_env sample_tables 200)" by (simp add: handler_wired_def demo_queue_env_def)
  with wired_handler_checks_identity [OF this] show ?thesis by blast
qed

end
