(* ===== verification/Responses.thy ===== *)
theory Responses
  imports Execution Injection Idempotency
begin

text \<open>
  The responses of the proxy: header names (\<open>broker/core/headers.py\<close>), the packed \<open>tracestate\<close> member
  (\<open>shared/tracing.py\<close>) and the assembly, replay and metadata functions of
  \<open>broker/web/routers/execute.py\<close> and \<open>broker/web/streaming.py\<close>. A response keeps its headers as the dictionary it is
  constructed with; HTTP names are compared without case, so a header is the list of its lines.
\<close>

section \<open>The request's context at the edge\<close>

record edge_context = request_context +
  ex_prefer :: "string option"
  ex_server_variables :: "(string, string) dict option"
  ex_server_variable_defaults :: "(string, string) dict option"
  ex_variables_unresolved :: bool
  ex_has_server_variable :: bool

section \<open>Header names\<close>

datatype jentic_header =
    JH_Execution_Id | JH_Operation | JH_Api_Vendor | JH_Credential_Id | JH_Credential_Name
  | JH_Upstream_Status | JH_Error_Origin | JH_Hint | JH_Idempotent_Replayed | JH_Body_Omitted

fun header_name :: "jentic_header \<Rightarrow> string" where
  "header_name JH_Execution_Id = ''Jentic-Execution-Id''"
| "header_name JH_Operation = ''Jentic-Operation''"
| "header_name JH_Api_Vendor = ''Jentic-Api-Vendor''"
| "header_name JH_Credential_Id = ''Jentic-Credential-Id''"
| "header_name JH_Credential_Name = ''Jentic-Credential-Name''"
| "header_name JH_Upstream_Status = ''Jentic-Upstream-Status''"
| "header_name JH_Error_Origin = ''Jentic-Error-Origin''"
| "header_name JH_Hint = ''Jentic-Hint''"
| "header_name JH_Idempotent_Replayed = ''Idempotent-Replayed''"
| "header_name JH_Body_Omitted = ''Jentic-Idempotency-Body-Omitted''"

definition tracestate_header :: string where "tracestate_header = ''tracestate''"

definition region_mismatch_text :: string where
  "region_mismatch_text =
     ''This API requires a specific region or server variable. If your API key is '' @
     ''valid, ensure your credential is configured for the correct region.''"

section \<open>Metadata\<close>

definition or_placeholder :: "string option \<Rightarrow> string" where
  "or_placeholder v = (if or_nothing v then text_or_empty v else ''_'')"

definition pack_jentic_tracestate ::
  "string \<Rightarrow> string option \<Rightarrow> string option \<Rightarrow> string option \<Rightarrow> string option \<Rightarrow> string" where
  "pack_jentic_tracestate execution_id toolkit vendor name version =
     join_with (CHR '':'') (map or_placeholder [Some execution_id, toolkit, vendor, name, version])"

definition tracestate_line :: "'c request_context_scheme \<Rightarrow> string \<Rightarrow> string \<times> string" where
  "tracestate_line c execution_id =
     (tracestate_header, ''jentic='' @ pack_jentic_tracestate execution_id (rx_toolkit_id c)
        (rx_api_vendor c) (rx_api_name c) (rx_api_version c))"

text \<open>What both routes say of the operation and the credential.\<close>

definition attribution_lines :: "'c request_context_scheme \<Rightarrow> headers" where
  "attribution_lines c =
     (case rx_operation c of None \<Rightarrow> [] | Some op \<Rightarrow> [(header_name JH_Operation, oi_id op)]) @
     (if or_nothing (rx_api_vendor c) then [(header_name JH_Api_Vendor, text_or_empty (rx_api_vendor c))] else []) @
     (if or_nothing (rx_credential_id c) then [(header_name JH_Credential_Id, text_or_empty (rx_credential_id c))] else []) @
     (if or_nothing (rx_credential_name c)
      then [(header_name JH_Credential_Name, header_safe_value (text_or_empty (rx_credential_name c)))] else [])"

definition metadata_headers :: "'c request_context_scheme \<Rightarrow> string \<Rightarrow> headers" where
  "metadata_headers c execution_id =
     (header_name JH_Execution_Id, execution_id) # attribution_lines c @ [tracestate_line c execution_id]"

definition region_mismatch_hint :: "int \<Rightarrow> 'c edge_context_scheme \<Rightarrow> string option" where
  "region_mismatch_hint status c =
     (if status \<in> {401, 403} \<and> ex_has_server_variable c then Some region_mismatch_text else None)"

definition hint_lines :: "int \<Rightarrow> 'c edge_context_scheme \<Rightarrow> headers" where
  "hint_lines status c =
     (case region_mismatch_hint status c of None \<Rightarrow> [] | Some t \<Rightarrow> [(header_name JH_Hint, t)])"

text \<open>\<open>_metadata_headers\<close> of the streaming route, which writes the status and the origin itself.\<close>

definition streaming_metadata :: "'c edge_context_scheme \<Rightarrow> string \<Rightarrow> int \<Rightarrow> headers" where
  "streaming_metadata c execution_id status =
     [(header_name JH_Execution_Id, execution_id), (header_name JH_Upstream_Status, str_of_int status)] @
     attribution_lines c @
     (if 400 \<le> status then [(header_name JH_Error_Origin, origin_value Origin_Upstream)] else []) @
     hint_lines status c @ [tracestate_line c execution_id]"

section \<open>Responses\<close>

record response =
  rsp_status :: int
  rsp_media_type :: "string option"
  rsp_headers :: headers
  rsp_body :: string

definition header_lines :: "headers \<Rightarrow> string \<Rightarrow> string list" where
  "header_lines hs name = map snd (filter (\<lambda>(k, v). str_lower k = str_lower name) hs)"

text \<open>\<open>_assemble_response\<close>: \<open>{**passthrough, **metadata}\<close>.\<close>

definition response_metadata :: "exec_outcome \<Rightarrow> 'c edge_context_scheme \<Rightarrow> headers" where
  "response_metadata x c =
     metadata_headers c (ec_execution_id (xo_context x)) @
     [(header_name JH_Upstream_Status, str_of_int (rr_status (xo_result x)))] @
     (case xo_origin x of None \<Rightarrow> [] | Some w \<Rightarrow> [(header_name JH_Error_Origin, origin_value w)]) @
     hint_lines (rr_status (xo_result x)) c"

definition assemble_response :: "exec_outcome \<Rightarrow> 'c edge_context_scheme \<Rightarrow> response" where
  "assemble_response x c =
     \<lparr>rsp_status = rr_status (xo_result x), rsp_media_type = rr_content_type (xo_result x),
      rsp_headers = dict_update_all (passthrough_response_headers (rr_headers (xo_result x))) (response_metadata x c),
      rsp_body = rr_body (xo_result x)\<rparr>"

definition replay_response :: "stored_response \<Rightarrow> response" where
  "replay_response s =
     (let hs = filter (\<lambda>(k, v). str_lower k \<noteq> ''cache-control'') (stored_response.sr_headers s);
          hs = dict_set (header_name JH_Idempotent_Replayed) ''true'' hs;
          hs = dict_set ''cache-control'' passthrough_cache_control hs in
      \<lparr>rsp_status = stored_response.sr_status s, rsp_media_type = None,
       rsp_headers = (if sr_body_omitted s then dict_del ''content-length'' (dict_set (header_name JH_Body_Omitted) ''true'' hs)
                      else hs),
       rsp_body = sr_body s\<rparr>)"

text \<open>
  \<open>dict(response.headers)\<close>: the framework keeps the header lines with lower-case names, in order, and what it
  adds itself (the parameter \<open>added\<close>); reading one name gives its first line.
\<close>

definition header_dict :: "(response \<Rightarrow> headers) \<Rightarrow> response \<Rightarrow> headers" where
  "header_dict added r =
     fold (\<lambda>(k, v) d. if dict_get d k = None then d @ [(k, v)] else d)
       (map (\<lambda>(k, v). (str_lower k, v)) (rsp_headers r) @ added r) []"

section \<open>What a response says\<close>

lemma dict_update_all_cons:
  "k \<notin> fst ` set e \<Longrightarrow> dict_update_all ((k, v) # d) e = (k, v) # dict_update_all d e"
  by (induction e arbitrary: d) (auto simp: dict_update_all_def)

lemma dict_get_first:
  "dict_get (fold (\<lambda>(k, v) d. if dict_get d k = None then d @ [(k, v)] else d) xs d) k =
     (case dict_get d k of None \<Rightarrow> dict_get xs k | Some v \<Rightarrow> Some v)"
proof (induction xs arbitrary: d)
  case (Cons p xs)
  then show ?case by (cases p) (auto simp: map_add_def split: option.splits)
qed (simp split: option.splits)

lemma header_dict_get:
  "dict_get (header_dict added r) k = dict_get (map (\<lambda>(k, v). (str_lower k, v)) (rsp_headers r) @ added r) k"
  unfolding header_dict_def dict_get_first by (simp del: map_of_append)

lemmas header_names = header_name.simps tracestate_header_def

lemma attribution_names:
  "fst ` set (attribution_lines c) \<subseteq> header_name ` {JH_Operation, JH_Api_Vendor, JH_Credential_Id, JH_Credential_Name}"
  by (auto simp: attribution_lines_def split: option.splits if_splits)

lemma subseq_keeps_distinct: "subseq xs ys \<Longrightarrow> distinct ys \<Longrightarrow> distinct xs"
  by (induction rule: list_emb.induct) (auto dest: list_emb_set)

lemma response_metadata_ok: "dict_ok (response_metadata x c)"
proof -
  let ?names = "[header_name JH_Execution_Id] @ map header_name [JH_Operation, JH_Api_Vendor, JH_Credential_Id, JH_Credential_Name] @
      [tracestate_header] @ [header_name JH_Upstream_Status] @ [header_name JH_Error_Origin] @ [header_name JH_Hint]"
  have "subseq (map fst (attribution_lines c)) (map header_name [JH_Operation, JH_Api_Vendor, JH_Credential_Id, JH_Credential_Name])"
    by (simp add: attribution_lines_def del: header_name.simps split: option.splits)
  moreover have "map fst (response_metadata x c) = [header_name JH_Execution_Id] @ map fst (attribution_lines c) @ [tracestate_header] @
      [header_name JH_Upstream_Status] @ (if xo_origin x = None then [] else [header_name JH_Error_Origin]) @
      (if region_mismatch_hint (rr_status (xo_result x)) c = None then [] else [header_name JH_Hint])"
    by (simp add: response_metadata_def metadata_headers_def tracestate_line_def hint_lines_def del: header_name.simps split: option.splits)
  ultimately have "subseq (map fst (response_metadata x c)) ?names"
    by (simp only:) (intro list_emb_append_mono; simp del: header_name.simps)
  moreover have "distinct ?names" by code_simp
  ultimately show ?thesis using subseq_keeps_distinct by blast
qed

lemma response_metadata_names:
  "(k, v) \<in> set (response_metadata x c) \<Longrightarrow> k \<in> set (tracestate_header # map header_name [JH_Execution_Id, JH_Operation,
      JH_Api_Vendor, JH_Credential_Id, JH_Credential_Name, JH_Upstream_Status, JH_Error_Origin, JH_Hint])"
  using subsetD [OF attribution_names [of c], of k]
  by (force simp: response_metadata_def metadata_headers_def tracestate_line_def hint_lines_def simp del: header_name.simps
      split: option.splits)

lemma response_metadata_lower:
  "(k, v) \<in> set (response_metadata x c) \<Longrightarrow> str_lower k \<noteq> ''cache-control''"
proof -
  assume "(k, v) \<in> set (response_metadata x c)"
  from response_metadata_names [OF this]
  have "k \<in> set (tracestate_header # map header_name [JH_Execution_Id, JH_Operation,
      JH_Api_Vendor, JH_Credential_Id, JH_Credential_Name, JH_Upstream_Status, JH_Error_Origin, JH_Hint])" .
  moreover have "list_all (\<lambda>k. str_lower k \<noteq> ''cache-control'') (tracestate_header # map header_name [JH_Execution_Id, JH_Operation,
      JH_Api_Vendor, JH_Credential_Id, JH_Credential_Name, JH_Upstream_Status, JH_Error_Origin, JH_Hint])"
    by code_simp
  ultimately show ?thesis unfolding list_all_iff by blast
qed

lemma passthrough_line:
  assumes "(k, v) \<in> set (passthrough_response_headers hs)" "k \<noteq> ''cache-control''"
  shows "(k, v) \<in> set hs \<and> str_lower k \<notin> set hop_by_hop_headers \<and> str_lower k \<notin> set decoded_body_headers"
proof -
  from assms have "(k, v) \<in> set (comprehend (filter (\<lambda>(k, v). str_lower k \<noteq> ''cache-control'') (comprehend (filter (\<lambda>(k, v).
       str_lower k \<notin> set hop_by_hop_headers \<and> str_lower k \<notin> set decoded_body_headers) hs))))"
    unfolding passthrough_response_headers_def private_cache_control_def
    by (meson Pair_inject insertE set_dict_set subsetD)
  then show ?thesis by (auto dest!: comprehend_filter)
qed

lemma dict_set_lines:
  "dict_ok d \<Longrightarrow> \<forall>k'\<in>fst ` set d. str_lower k' \<noteq> n \<Longrightarrow> str_lower k = n \<Longrightarrow>
   filter (\<lambda>(k, _). str_lower k = n) (dict_set k v d) = [(k, v)]"
  by (induction d) (auto simp: filter_empty_conv)

lemma unnamed_lines:
  "str_lower name \<notin> str_lower ` fst ` set e \<Longrightarrow> header_lines (dict_update_all d e) name = header_lines d name"
proof (induction e arbitrary: d)
  case (Cons p e)
  obtain k v where p: "p = (k, v)" by (cases p)
  have "filter (\<lambda>(k, v). str_lower k = str_lower name) (dict_set k v d) = filter (\<lambda>(k, v). str_lower k = str_lower name) d"
    using Cons.prems by (induction d) (auto simp: p)
  then show ?case using Cons by (simp add: dict_update_all_def header_lines_def p)
qed (simp add: dict_update_all_def)

lemma private_lines: "header_lines (private_cache_control hs) ''cache-control'' = [passthrough_cache_control]"
proof -
  define d where "d = comprehend (filter (\<lambda>(k, v). str_lower k \<noteq> ''cache-control'') hs)"
  have "str_lower k \<noteq> n" if "k \<in> fst ` set (comprehend (filter (\<lambda>(k, v). str_lower k \<noteq> n) hs))" for n k
  proof -
    from that obtain v where "(k, v) \<in> set (comprehend (filter (\<lambda>(k, v). str_lower k \<noteq> n) hs))" by auto
    from comprehend_filter [OF this] show ?thesis by simp
  qed
  then have "\<forall>k\<in>fst ` set d. str_lower k \<noteq> ''cache-control''" unfolding d_def by blast
  moreover have l: "str_lower ''cache-control'' = ''cache-control''" by code_simp
  ultimately have "filter (\<lambda>(k, _). str_lower k = ''cache-control'') (dict_set ''cache-control'' passthrough_cache_control d) =
      [(''cache-control'', passthrough_cache_control)]"
    by (intro dict_set_lines) (simp_all only: d_def comprehend_ok)
  then show ?thesis
    by (simp only: header_lines_def private_cache_control_def l d_def [symmetric] list.map snd_conv)
qed

text \<open>
  C30: the proxy mirrors the upstream and speaks for itself. Status and body are the upstream's. Every metadata value is in
  the response under its name. Every other header is an upstream header that is neither hop-by-hop nor describes
  the decoded body, and the only Cache-Control forbids shared caching.
\<close>

theorem response_mirrors_upstream:
  "rsp_status (assemble_response x c) = rr_status (xo_result x) \<and>
   rsp_body (assemble_response x c) = rr_body (xo_result x) \<and>
   header_lines (rsp_headers (assemble_response x c)) ''cache-control'' = [passthrough_cache_control] \<and>
   (\<forall>(name, v)\<in>set (response_metadata x c). dict_get (rsp_headers (assemble_response x c)) name = Some v) \<and>
   (\<forall>(k, v)\<in>set (rsp_headers (assemble_response x c)).
      (k, v) \<in> set (response_metadata x c) \<or> k = ''cache-control'' \<or>
      ((k, v) \<in> set (rr_headers (xo_result x)) \<and> str_lower k \<notin> set hop_by_hop_headers \<and> str_lower k \<notin> set decoded_body_headers))"
proof (intro conjI ballI)
  have l: "str_lower ''cache-control'' = ''cache-control''" by code_simp
  have "str_lower ''cache-control'' \<notin> str_lower ` fst ` set (response_metadata x c)"
    unfolding l using response_metadata_lower by fastforce
  then show "header_lines (rsp_headers (assemble_response x c)) ''cache-control'' = [passthrough_cache_control]"
    by (simp add: assemble_response_def unnamed_lines passthrough_response_headers_def private_lines)
next
  fix p assume "p \<in> set (response_metadata x c)"
  moreover obtain name v where p: "p = (name, v)" by (cases p)
  ultimately have "dict_get (rev (response_metadata x c)) name = Some v"
    using response_metadata_ok [of x c] by (simp add: map_of_is_SomeI distinct_rev rev_map [symmetric])
  then show "case p of (name, v) \<Rightarrow> dict_get (rsp_headers (assemble_response x c)) name = Some v"
    by (simp add: p assemble_response_def dict_update_all_get)
next
  fix p assume "p \<in> set (rsp_headers (assemble_response x c))"
  moreover obtain k v where p: "p = (k, v)" by (cases p)
  ultimately have "(k, v) \<in> set (passthrough_response_headers (rr_headers (xo_result x))) \<or> (k, v) \<in> set (response_metadata x c)"
    using set_dict_update_all by (fastforce simp: assemble_response_def)
  then show "case p of (k, v) \<Rightarrow> (k, v) \<in> set (response_metadata x c) \<or> k = ''cache-control'' \<or>
      ((k, v) \<in> set (rr_headers (xo_result x)) \<and> str_lower k \<notin> set hop_by_hop_headers \<and> str_lower k \<notin> set decoded_body_headers)"
    using passthrough_line by (auto simp: p)
qed (simp_all add: assemble_response_def)

definition demo_edge_context :: edge_context where
  "demo_edge_context =
     \<lparr>rx_url = ''https://api.acme/v1/x'', rx_method = ''GET'', rx_trace_id = ''t'', rx_toolkit_id = None, rx_operation = None,
      rx_api_vendor = Some ''acme'', rx_api_name = None, rx_api_version = None, rx_pinned_revisions = None,
      rx_credential_id = None, rx_credential_name = None, ex_prefer = None, ex_server_variables = None,
      ex_server_variable_defaults = None, ex_variables_unresolved = False, ex_has_server_variable = True\<rparr>"

definition demo_outcome :: exec_outcome where
  "demo_outcome =
     \<lparr>xo_result = \<lparr>rr_status = 401, rr_body = ''no'', rr_headers = [(''Keep-Alive'', ''9''), (''ETag'', ''e'')],
        rr_content_type = None, rr_duration_ms = 3\<rparr>,
      xo_context = \<lparr>ec_execution_id = ''e'', ec_toolkit_id = None, ec_operation = None, ec_api = None, ec_trace_id = ''t''\<rparr>,
      xo_origin = Some Origin_Upstream\<rparr>"

lemma demo_response:
  "(header_name JH_Hint, region_mismatch_text) \<in> set (response_metadata demo_outcome demo_edge_context) \<and>
   (''Keep-Alive'', ''9'') \<notin> set (response_metadata demo_outcome demo_edge_context) \<and> ''Keep-Alive'' \<noteq> ''cache-control'' \<and>
   str_lower ''Keep-Alive'' \<in> set hop_by_hop_headers"
  by code_simp

text \<open>A 401 of an API with a server variable: the hint is there, the upstream's Keep-Alive is not.\<close>

lemma response_mirrors_upstream_witness:
  "dict_get (rsp_headers (assemble_response demo_outcome demo_edge_context)) (header_name JH_Hint) = Some region_mismatch_text \<and>
   (''Keep-Alive'', ''9'') \<notin> set (rsp_headers (assemble_response demo_outcome demo_edge_context))"
  using response_mirrors_upstream [of demo_outcome demo_edge_context] demo_response by blast

lemma passthrough_single:
  "str_lower k \<notin> set hop_by_hop_headers \<Longrightarrow> str_lower k \<notin> set decoded_body_headers \<Longrightarrow> str_lower k \<noteq> n \<Longrightarrow>
   k \<noteq> n \<Longrightarrow> n = ''cache-control'' \<Longrightarrow> passthrough_response_headers [(k, v)] = [(k, v), (n, passthrough_cache_control)]"
  by (simp add: passthrough_response_headers_def private_cache_control_def comprehend_def dict_update_all_def)

lemma lower_names:
  "str_lower ''jentic-credential-id'' \<notin> set hop_by_hop_headers \<and> str_lower ''jentic-credential-id'' \<notin> set decoded_body_headers \<and>
   str_lower ''jentic-credential-id'' \<noteq> ''cache-control'' \<and> ''jentic-credential-id'' \<noteq> ''cache-control'' \<and>
   str_lower ''jentic-credential-id'' = str_lower (header_name JH_Credential_Id) \<and>
   str_lower ''cache-control'' \<noteq> str_lower (header_name JH_Credential_Id)"
  "str_lower ''jentic-execution-id'' \<notin> set hop_by_hop_headers \<and> str_lower ''jentic-execution-id'' \<notin> set decoded_body_headers \<and>
   str_lower ''jentic-execution-id'' \<noteq> ''cache-control'' \<and> ''jentic-execution-id'' \<noteq> ''cache-control'' \<and>
   str_lower ''jentic-execution-id'' = str_lower (header_name JH_Execution_Id) \<and>
   list_all (\<lambda>k. k \<noteq> ''jentic-execution-id'') (tracestate_header # map header_name [JH_Execution_Id, JH_Operation,
      JH_Api_Vendor, JH_Credential_Id, JH_Credential_Name, JH_Upstream_Status, JH_Error_Origin, JH_Hint])"
  "list_all (\<lambda>k. str_lower k \<noteq> str_lower (header_name JH_Credential_Id)) (tracestate_header # map header_name [JH_Execution_Id,
      JH_Operation, JH_Api_Vendor, JH_Upstream_Status, JH_Error_Origin, JH_Hint])"
  by code_simp+

lemma key_absent: "(\<And>k u. (k, u) \<in> S \<Longrightarrow> k \<noteq> n) \<Longrightarrow> n \<notin> fst ` S"
  by force

lemma forged_lines:
  "passthrough_response_headers [(''jentic-credential-id'', v)] =
     [(''jentic-credential-id'', v), (''cache-control'', passthrough_cache_control)]"
  "passthrough_response_headers [(''jentic-execution-id'', v)] =
     [(''jentic-execution-id'', v), (''cache-control'', passthrough_cache_control)]"
  by (rule passthrough_single [OF _ _ _ _ refl]; use lower_names in blast)+

lemma no_credential_names:
  "(k, w) \<in> set (response_metadata x (c\<lparr>rx_credential_id := None, rx_credential_name := None\<rparr>)) \<Longrightarrow>
   str_lower k \<noteq> str_lower (header_name JH_Credential_Id)"
proof -
  assume "(k, w) \<in> set (response_metadata x (c\<lparr>rx_credential_id := None, rx_credential_name := None\<rparr>))"
  then have "k \<in> set (tracestate_header # map header_name [JH_Execution_Id, JH_Operation, JH_Api_Vendor, JH_Upstream_Status,
      JH_Error_Origin, JH_Hint])"
    by (force simp: response_metadata_def metadata_headers_def tracestate_line_def hint_lines_def attribution_lines_def
        or_nothing_def simp del: header_name.simps split: option.splits if_splits)
  then show ?thesis using lower_names(3) unfolding list_all_iff by blast
qed

text \<open>
  C36: the upstream can speak in the broker's name. HTTP clients hand over lower-case names, which the metadata keys do not
  replace: with no credential used, an upstream \<open>jentic-credential-id\<close> line is the response's only one, and an upstream
  \<open>jentic-execution-id\<close> is what the idempotency record keeps in place of the broker's.
\<close>

theorem upstream_forges_attribution:
  "header_lines (rsp_headers (assemble_response
       \<lparr>xo_result = \<lparr>rr_status = 200, rr_body = body, rr_headers = [(''jentic-credential-id'', v)], rr_content_type = None,
          rr_duration_ms = d\<rparr>, xo_context = ctx, xo_origin = w\<rparr>
       (c\<lparr>rx_credential_id := None, rx_credential_name := None\<rparr>))) (header_name JH_Credential_Id) = [v] \<and>
   dict_get (header_dict added (assemble_response
       \<lparr>xo_result = \<lparr>rr_status = 200, rr_body = body, rr_headers = [(''jentic-execution-id'', v)], rr_content_type = None,
          rr_duration_ms = d\<rparr>, xo_context = ctx, xo_origin = w\<rparr> c)) (str_lower (header_name JH_Execution_Id)) = Some v"
proof (intro conjI)
  have n: "str_lower (header_name JH_Credential_Id) \<notin> str_lower ` fst ` set (response_metadata x (c\<lparr>rx_credential_id := None,
      rx_credential_name := None\<rparr>))" for x using no_credential_names [of _ _ x c] by force
  show "header_lines (rsp_headers (assemble_response
       \<lparr>xo_result = \<lparr>rr_status = 200, rr_body = body, rr_headers = [(''jentic-credential-id'', v)], rr_content_type = None,
          rr_duration_ms = d\<rparr>, xo_context = ctx, xo_origin = w\<rparr>
       (c\<lparr>rx_credential_id := None, rx_credential_name := None\<rparr>))) (header_name JH_Credential_Id) = [v]"
    unfolding assemble_response_def response.simps unnamed_lines [OF n] exec_outcome.simps runner_result.simps
    using lower_names(1) by (simp add: forged_lines(1) header_lines_def del: header_name.simps)
next
  let ?x = "\<lparr>xo_result = \<lparr>rr_status = 200, rr_body = body, rr_headers = [(''jentic-execution-id'', v)], rr_content_type = None,
          rr_duration_ms = d\<rparr>, xo_context = ctx, xo_origin = w\<rparr>"
  have "k \<noteq> ''jentic-execution-id''" if "(k, u) \<in> set (response_metadata ?x c)" for k u
    using response_metadata_names [OF that] lower_names(2) unfolding list_all_iff by blast
  then have "''jentic-execution-id'' \<notin> fst ` set (response_metadata ?x c)" by (rule key_absent)
  then have "rsp_headers (assemble_response ?x c) = (''jentic-execution-id'', v) #
      dict_update_all [(''cache-control'', passthrough_cache_control)] (response_metadata ?x c)"
    using lower_names(2) by (simp add: assemble_response_def forged_lines(2) dict_update_all_cons del: header_name.simps)
  then show "dict_get (header_dict added (assemble_response ?x c)) (str_lower (header_name JH_Execution_Id)) = Some v"
    using lower_names(2) by (simp add: header_dict_get del: header_name.simps)
qed

end
