(* ===== verification/Discovery.thy ===== *)
theory Discovery
  imports Execution
begin

text \<open>
  Operation discovery and revision pins: \<open>broker/core/revisions.py\<close>,
  \<open>shared/broker/revision_label.py\<close> and \<open>broker/services/discovery.py\<close>. The registry behind
  \<open>RegistryResolverProtocol\<close> is a parameter, already applied to the caller's identity; it answers from
  one state of the registry. A UUID is its 32 lower-case hexadecimal digits.
\<close>

section \<open>Revision labels\<close>

definition hex_char :: "char \<Rightarrow> bool" where
  "hex_char c = (let n = char_code c in (48 \<le> n \<and> n \<le> 57) \<or> (65 \<le> n \<and> n \<le> 70) \<or> (97 \<le> n \<and> n \<le> 102))"

definition hex_word :: "nat \<Rightarrow> string \<Rightarrow> bool" where
  "hex_word n s = (length s = n \<and> list_all hex_char s)"

definition rev_label_prefix :: string where "rev_label_prefix = ''rev_''"

definition encode_rev_label :: "string \<Rightarrow> string" where
  "encode_rev_label uuid = rev_label_prefix @ uuid"

definition decode_rev_label :: "string \<Rightarrow> string option" where
  "decode_rev_label label =
     (if prefix rev_label_prefix label \<and> hex_word 32 (drop 4 label) then Some (str_lower (drop 4 label)) else None)"

text \<open>The hyphenated form, 8-4-4-4-12.\<close>

definition uuid_text :: "string \<Rightarrow> bool" where
  "uuid_text s =
     (case split_on (CHR ''-'') s of
        [a, b, c, d, e] \<Rightarrow> hex_word 8 a \<and> hex_word 4 b \<and> hex_word 4 c \<and> hex_word 4 d \<and> hex_word 12 e
      | _ \<Rightarrow> False)"

text \<open>\<open>rev_label\<close>, on the two forms the pin's pattern admits; anything else is returned as it is.\<close>

definition rev_label :: "string \<Rightarrow> string" where
  "rev_label revision =
     (if prefix rev_label_prefix revision then
        (case decode_rev_label revision of None \<Rightarrow> revision | Some u \<Rightarrow> encode_rev_label u)
      else if uuid_text revision then encode_rev_label (str_lower (filter (\<lambda>c. c \<noteq> CHR ''-'') revision))
      else revision)"

section \<open>The pin header\<close>

definition vendor_char :: "char \<Rightarrow> bool" where
  "vendor_char c = (let n = char_code c in (97 \<le> n \<and> n \<le> 122) \<or> (48 \<le> n \<and> n \<le> 57) \<or> c = CHR ''-'')"

text \<open>\<open>api.split(":", 2)\<close>, when it has three parts.\<close>

definition split_identity :: "string \<Rightarrow> (string \<times> string \<times> string) option" where
  "split_identity api =
     (case partition_at (CHR '':'') api of
        (vendor, True, rest) \<Rightarrow>
          (case partition_at (CHR '':'') rest of
             (name, True, version) \<Rightarrow> Some (vendor, name, version)
           | _ \<Rightarrow> None)
      | _ \<Rightarrow> None)"

text \<open>\<open>_PIN\<close>, with the parts the code then splits off: the identity's text, its parts, the revision.\<close>

definition match_pin :: "string \<Rightarrow> (string \<times> (string \<times> string \<times> string) \<times> string) option" where
  "match_pin part =
     (case partition_at (CHR ''='') part of
        (api, True, wanted) \<Rightarrow>
          (case split_identity api of
             Some (vendor, name, version) \<Rightarrow>
               if vendor \<noteq> [] \<and> list_all vendor_char vendor \<and> name \<noteq> [] \<and> version \<noteq> [] \<and>
                  (decode_rev_label wanted \<noteq> None \<or> uuid_text wanted)
               then Some (api, (vendor, name, version), wanted) else None
           | None \<Rightarrow> None)
      | _ \<Rightarrow> None)"

type_synonym pins = "(string \<times> string \<times> string, string) dict"

text \<open>\<open>py_repr\<close> is \<open>repr\<close> of a string.\<close>

definition malformed_pin :: "(string \<Rightarrow> string) \<Rightarrow> string \<Rightarrow> broker_error" where
  "malformed_pin py_repr part =
     init_error Invalid_Revision_Pin
       (''Malformed Jentic-Revision value: '' @ py_repr part @
        '' (expected vendor:name:version=<revision_id>, with the revision_id from '' @
        ''GET /apis/{vendor}/{name}/{version}/revisions)'') (Some ''invalid_revision_pin'')"

definition conflicting_pin :: "(string \<Rightarrow> string) \<Rightarrow> string \<Rightarrow> string \<Rightarrow> string \<Rightarrow> broker_error" where
  "conflicting_pin py_repr api earlier revision =
     init_error Invalid_Revision_Pin
       (''Conflicting Jentic-Revision values for '' @ api @ '': '' @ py_repr earlier @ '' and '' @ py_repr revision @
        '' (pin each API to one revision)'') (Some ''invalid_revision_pin'')"

definition add_pin :: "(string \<Rightarrow> string) \<Rightarrow> pins \<Rightarrow> string \<Rightarrow> (broker_error, pins) result" where
  "add_pin py_repr out part =
     (case match_pin part of
        None \<Rightarrow> Inl (malformed_pin py_repr part)
      | Some (api, key, wanted) \<Rightarrow>
          (let revision = str_strip wanted in
           case dict_get out key of
             Some earlier \<Rightarrow>
               if rev_label earlier \<noteq> rev_label revision then Inl (conflicting_pin py_repr api earlier revision)
               else Inr (dict_set key revision out)
           | None \<Rightarrow> Inr (dict_set key revision out)))"

fun add_pins :: "(string \<Rightarrow> string) \<Rightarrow> pins \<Rightarrow> string list \<Rightarrow> (broker_error, pins) result" where
  "add_pins py_repr out [] = Inr out"
| "add_pins py_repr out (p # ps) = rbind (add_pin py_repr out p) (\<lambda>out. add_pins py_repr out ps)"

definition pin_parts :: "string option \<Rightarrow> string list" where
  "pin_parts header =
     filter (\<lambda>p. p \<noteq> []) (map str_strip (split_on (CHR '','') (text_or_empty header)))"

definition parse_revisions :: "(string \<Rightarrow> string) \<Rightarrow> string option \<Rightarrow> (broker_error, pins) result" where
  "parse_revisions py_repr header = add_pins py_repr [] (pin_parts header)"

section \<open>Resolving\<close>

record resolve_result =
  rv_operation :: operation_info
  rv_api :: api_reference
  rv_server_variables :: "(string, string) dict"
  rv_server_variable_defaults :: "(string, string) dict"
  rv_variables_unresolved :: bool

datatype pin_outcome = Pin_Resolved | Pin_Unknown | Pin_Archived | Pin_Forbidden | Pin_Host_Change_Held

type_synonym pin_result = "pin_outcome \<times> string option"

text \<open>The resolver: an operation (live, or of a revision), and a pin (vendor, name, version, label).\<close>

record resolver =
  rl_operation :: "string \<Rightarrow> string \<Rightarrow> string option \<Rightarrow> (discovery_error, resolve_result option) result"
  rl_pin :: "string \<Rightarrow> string \<Rightarrow> string \<Rightarrow> string \<Rightarrow> pin_result"

datatype discover_failure = Pin_Refused broker_error | Discovery_Refused discovery_error

definition pin_text :: "string \<times> string \<times> string \<Rightarrow> string \<Rightarrow> string" where
  "pin_text key revision = (let (vendor, name, version) = key in vendor @ '':'' @ name @ '':'' @ version @ ''='' @ revision)"

definition host_change_held :: "string \<Rightarrow> broker_error" where
  "host_change_held pin =
     init_error Unauthorized_Revision_Pin
       (''Pinned draft revision '' @ pin @ '' serves different server hosts than the '' @
        ''API's live revision; an organisation admin ('org:admin') must promote '' @ ''or pin it.'')
       (Some ''host_change_requires_operator'')"

definition pin_refusal :: "pin_outcome \<Rightarrow> string \<Rightarrow> broker_error" where
  "pin_refusal outcome pin =
     (case outcome of
        Pin_Host_Change_Held \<Rightarrow> host_change_held pin
      | Pin_Forbidden \<Rightarrow> init_error Unauthorized_Revision_Pin (''Not authorised to pin draft revision: '' @ pin)
                           (Some ''unauthorized_revision_pin'')
      | Pin_Archived \<Rightarrow> init_error Invalid_Revision_Pin (''Cannot pin archived revision: '' @ pin) (Some ''archived_revision_pin'')
      | _ \<Rightarrow> init_error Invalid_Revision_Pin (''Unknown revision pin: '' @ pin) (Some ''unknown_revision_pin''))"

definition resolve_pin_for_api :: "resolver \<Rightarrow> api_reference \<Rightarrow> pins \<Rightarrow> (broker_error, string option) result" where
  "resolve_pin_for_api L api pins =
     (let key = (api_vendor api, api_name api, api_version api) in
      case dict_get pins key of
        None \<Rightarrow> Inr None
      | Some revision \<Rightarrow>
          (case rl_pin L (api_vendor api) (api_name api) (api_version api) (rev_label revision) of
             (Pin_Resolved, Some i) \<Rightarrow> Inr (Some i)
           | (outcome, _) \<Rightarrow> Inl (pin_refusal outcome (pin_text key revision))))"

definition pin_order :: "(string \<times> string \<times> string) \<times> string \<Rightarrow> nat list list" where
  "pin_order p = (let ((a, b, c), _) = p in [str_key a, str_key b, str_key c])"

text \<open>\<open>allowed_methods.extend(\<dots>)\<close>: each method once.\<close>

definition add_methods :: "string list \<Rightarrow> string list \<Rightarrow> string list" where
  "add_methods allowed ms = fold (\<lambda>m acc. if m \<in> set acc then acc else acc @ [m]) ms allowed"

text \<open>The loop over the sorted pins, with the methods that pinned revisions serve the URL for.\<close>

fun try_pins ::
  "resolver \<Rightarrow> string \<Rightarrow> string \<Rightarrow> string list \<Rightarrow> pins \<Rightarrow> (discover_failure, (resolve_result \<times> string) option) result" where
  "try_pins L meth url allowed [] =
     (if allowed = [] then Inr None
      else Inl (Discovery_Refused (Method_Not_Allowed (sort_key str_key allowed))))"
| "try_pins L meth url allowed ((key, revision) # ps) =
     (let (vendor, name, version) = key in
      case rl_pin L vendor name version (rev_label revision) of
        (outcome, Some i) \<Rightarrow>
          if outcome \<noteq> Pin_Resolved \<and> outcome \<noteq> Pin_Host_Change_Held then try_pins L meth url allowed ps
          else (case rl_operation L meth url (Some i) of
                  Inl (Method_Not_Allowed ms) \<Rightarrow>
                    try_pins L meth url (add_methods allowed ms) ps
                | Inl e \<Rightarrow> Inl (Discovery_Refused e)
                | Inr None \<Rightarrow> try_pins L meth url allowed ps
                | Inr (Some r) \<Rightarrow>
                    if outcome = Pin_Host_Change_Held then Inl (Pin_Refused (host_change_held (pin_text key revision)))
                    else Inr (Some (r, i)))
      | (_, None) \<Rightarrow> try_pins L meth url allowed ps)"

definition discover_via_pins ::
  "resolver \<Rightarrow> string \<Rightarrow> string \<Rightarrow> pins \<Rightarrow> (discover_failure, (resolve_result \<times> string) option) result" where
  "discover_via_pins L meth url pins = try_pins L meth url [] (sort_key pin_order pins)"

section \<open>The discovery stage of a call\<close>

text \<open>
  The \<open>DISCOVER\<close> stage of the execute route (\<open>broker/web/routers/execute.py\<close>): the live operation, else one
  of the caller's pins; a pin on the discovered API is resolved again. The second component is the
  execution's \<open>pinned_revisions\<close>; \<open>Inr None\<close> is an unregistered URL.
\<close>

definition pinned_entry :: "api_reference \<Rightarrow> string \<Rightarrow> (string, string) dict" where
  "pinned_entry api revision = [(api_vendor api @ '':'' @ api_name api @ '':'' @ api_version api, revision)]"

definition repin ::
  "resolver \<Rightarrow> string \<Rightarrow> string \<Rightarrow> pins \<Rightarrow> resolve_result
     \<Rightarrow> (discover_failure, (resolve_result \<times> (string, string) dict option) option) result" where
  "repin L meth url pins r =
     (case resolve_pin_for_api L (rv_api r) pins of
        Inl e \<Rightarrow> Inl (Pin_Refused e)
      | Inr None \<Rightarrow> Inr (Some (r, None))
      | Inr (Some i) \<Rightarrow>
          (case rl_operation L meth url (Some i) of
             Inl e \<Rightarrow> Inl (Discovery_Refused e)
           | Inr None \<Rightarrow>
               Inl (Discovery_Refused (Operation_Not_Found None (Some ''Operation not found in the pinned revision.'')))
           | Inr (Some p) \<Rightarrow> Inr (Some (p, Some (pinned_entry (rv_api p) i)))))"

definition discover_call ::
  "resolver \<Rightarrow> string \<Rightarrow> string \<Rightarrow> pins
     \<Rightarrow> (discover_failure, (resolve_result \<times> (string, string) dict option) option) result" where
  "discover_call L meth url pins =
     (case rl_operation L meth url None of
        Inl e \<Rightarrow> Inl (Discovery_Refused e)
      | Inr None \<Rightarrow>
          if pins = [] then Inr None
          else (case discover_via_pins L meth url pins of
                  Inl e \<Rightarrow> Inl e
                | Inr None \<Rightarrow> Inr None
                | Inr (Some (r, i)) \<Rightarrow> Inr (Some (r, Some (pinned_entry (rv_api r) i))))
      | Inr (Some r) \<Rightarrow> if pins = [] then Inr (Some (r, None)) else repin L meth url pins r)"

section \<open>Which revision serves a call\<close>

lemma try_pins_Some:
  "try_pins L meth url allowed ps = Inr (Some (r, i)) \<Longrightarrow>
   \<exists>v n w revision. ((v, n, w), revision) \<in> set ps \<and> rl_pin L v n w (rev_label revision) = (Pin_Resolved, Some i) \<and>
     rl_operation L meth url (Some i) = Inr (Some r)"
proof (induction ps arbitrary: allowed)
  case (Cons p ps)
  obtain v n w revision where p: "p = ((v, n, w), revision)" by (metis surj_pair)
  obtain outcome found where pin: "rl_pin L v n w (rev_label revision) = (outcome, found)" by fastforce
  let ?here = "outcome = Pin_Resolved \<and> found = Some i \<and> rl_operation L meth url (Some i) = Inr (Some r)"
  have "(\<exists>allowed. try_pins L meth url allowed ps = Inr (Some (r, i))) \<or> ?here"
    using Cons.prems
    by (auto simp: p pin Let_def split: option.splits sum.splits if_split_asm discovery_error.splits)
  then show ?case
  proof
    assume "\<exists>allowed. try_pins L meth url allowed ps = Inr (Some (r, i))"
    then show ?thesis using Cons.IH by (meson list.set_intros(2))
  qed (use p pin in auto)
qed (simp split: if_splits)

lemma resolve_pin_Some:
  "resolve_pin_for_api L api pins = Inr (Some i) \<Longrightarrow>
   \<exists>revision. dict_get pins (api_vendor api, api_name api, api_version api) = Some revision \<and>
     rl_pin L (api_vendor api) (api_name api) (api_version api) (rev_label revision) = (Pin_Resolved, Some i)"
  by (auto simp: resolve_pin_for_api_def Let_def split: option.splits prod.splits pin_outcome.splits)

lemma resolve_pin_None:
  "resolve_pin_for_api L api pins = Inr None \<Longrightarrow> dict_get pins (api_vendor api, api_name api, api_version api) = None"
  by (auto simp: resolve_pin_for_api_def Let_def split: option.splits prod.splits pin_outcome.splits)

lemma repin_Some:
  "repin L meth url pins q = Inr (Some (r, pinned)) \<Longrightarrow>
   (pinned = None \<and> r = q \<and> resolve_pin_for_api L (rv_api q) pins = Inr None) \<or>
   (\<exists>i. resolve_pin_for_api L (rv_api q) pins = Inr (Some i) \<and> rl_operation L meth url (Some i) = Inr (Some r) \<and>
      pinned = Some (pinned_entry (rv_api r) i))"
  by (auto simp: repin_def split: sum.splits option.splits)

lemma discover_call_Some:
  assumes "discover_call L meth url pins = Inr (Some (r, pinned))"
  shows "case pinned of
      None \<Rightarrow> rl_operation L meth url None = Inr (Some r) \<and>
        dict_get pins (api_vendor (rv_api r), api_name (rv_api r), api_version (rv_api r)) = None
    | Some entry \<Rightarrow> (\<exists>v n w revision i. ((v, n, w), revision) \<in> set pins \<and>
        rl_pin L v n w (rev_label revision) = (Pin_Resolved, Some i) \<and>
        rl_operation L meth url (Some i) = Inr (Some r) \<and> entry = pinned_entry (rv_api r) i)"
proof (cases "rl_operation L meth url None")
  case (Inr live)
  show ?thesis
  proof (cases live)
    case None
    then obtain i where "discover_via_pins L meth url pins = Inr (Some (r, i))" "pinned = Some (pinned_entry (rv_api r) i)"
      using assms Inr by (auto simp: discover_call_def split: if_splits sum.splits option.splits prod.splits)
    note found = this
    from try_pins_Some [OF found(1) [unfolded discover_via_pins_def]] show ?thesis
      unfolding set_sort found(2) option.case by blast
  next
    case (Some q)
    show ?thesis
    proof (cases "pins = []")
      case True
      then show ?thesis using assms Inr Some by (auto simp: discover_call_def)
    next
      case False
      then have "repin L meth url pins q = Inr (Some (r, pinned))" using assms Inr Some by (simp add: discover_call_def)
      from repin_Some [OF this] show ?thesis
      proof (elim disjE exE conjE)
        assume "pinned = None" "r = q" "resolve_pin_for_api L (rv_api q) pins = Inr None"
        then show ?thesis using Inr Some resolve_pin_None by simp
      next
        fix i
        assume i: "resolve_pin_for_api L (rv_api q) pins = Inr (Some i)" "rl_operation L meth url (Some i) = Inr (Some r)"
          "pinned = Some (pinned_entry (rv_api r) i)"
        from resolve_pin_Some [OF i(1)] obtain revision where
          "((api_vendor (rv_api q), api_name (rv_api q), api_version (rv_api q)), revision) \<in> set pins"
          "rl_pin L (api_vendor (rv_api q)) (api_name (rv_api q)) (api_version (rv_api q)) (rev_label revision) = (Pin_Resolved, Some i)"
          by (meson map_of_SomeD)
        then show ?thesis using i(2,3) by (simp only: option.case) blast
      qed
    qed
  qed
qed (use assms in \<open>simp add: discover_call_def\<close>)

text \<open>
  C26: a call runs on the revision its caller pinned, or on the live one. The operation that discovery returns without a
  pinned revision is the live one, and no pin names its API; one with a pinned revision is what that very revision
  says of the URL, and the resolver resolved one of the caller's pins to it: never an archived,
  foreign or unknown revision, nor a draft held for its changed hosts.
\<close>

theorem discovery_honours_pins:
  assumes "discover_call L meth url pins = Inr (Some (r, pinned))"
  shows "case pinned of
      None \<Rightarrow> rl_operation L meth url None = Inr (Some r) \<and>
        dict_get pins (api_vendor (rv_api r), api_name (rv_api r), api_version (rv_api r)) = None
    | Some entry \<Rightarrow> (\<exists>v n w revision i. ((v, n, w), revision) \<in> set pins \<and>
        rl_pin L v n w (rev_label revision) = (Pin_Resolved, Some i) \<and>
        rl_operation L meth url (Some i) = Inr (Some r) \<and> entry = pinned_entry (rv_api r) i)"
  using assms by (rule discover_call_Some)

text \<open>A registry with a live revision and a draft of one API, and a foreign draft of another.\<close>

definition demo_result :: "string \<Rightarrow> resolve_result" where
  "demo_result op =
     \<lparr>rv_operation = \<lparr>oi_id = op, oi_path = Some ''/x'', oi_method = Some ''GET'', oi_relative_path = Some ''/x''\<rparr>,
      rv_api = \<lparr>api_vendor = ''acme'', api_name = ''pay'', api_version = ''1''\<rparr>, rv_server_variables = [],
      rv_server_variable_defaults = [], rv_variables_unresolved = False\<rparr>"

definition demo_label :: string where "demo_label = ''rev_0123456789abcdef0123456789abcdef''"

definition demo_registry :: resolver where
  "demo_registry =
     \<lparr>rl_operation = (\<lambda>m u i. Inr (case i of None \<Rightarrow> Some (demo_result ''live'')
        | Some k \<Rightarrow> if k = ''draft'' then Some (demo_result ''drafted'') else None)),
      rl_pin = (\<lambda>v n w l. if v = ''acme'' \<and> l = demo_label then (Pin_Resolved, Some ''draft'') else (Pin_Forbidden, None))\<rparr>"

definition demo_pins :: pins where "demo_pins = [((''acme'', ''pay'', ''1''), demo_label)]"

lemma discovery_honours_pins_witness:
  "\<exists>r entry i. discover_call demo_registry ''GET'' ''u'' demo_pins = Inr (Some (r, Some entry)) \<and>
     oi_id (rv_operation r) = ''drafted'' \<and> entry = pinned_entry (rv_api r) i \<and>
     rl_operation demo_registry ''GET'' ''u'' (Some i) = Inr (Some r)"
proof -
  have "discover_call demo_registry ''GET'' ''u'' demo_pins =
      Inr (Some (demo_result ''drafted'', Some (pinned_entry (rv_api (demo_result ''drafted'')) ''draft'')))"
    by code_simp
  from discovery_honours_pins [OF this] this show ?thesis by (auto simp: demo_result_def)
qed

end
