(* ===== verification/Edge.thy ===== *)
theory Edge
  imports Responses Discovery Queued_Execution
begin

text \<open>
  What the execute route (\<open>broker/web/routers/execute.py\<close>) reads of a request and what it writes for the worker:
  the capped body, the pins, the trace id, the call's context, and the payload of a queued or held job. The payload
  is read back by the handler of \<open>Queued_Execution\<close>. Inbound header names are in lower case, as the server interface
  delivers them, and may repeat; reading one name gives its first line.
\<close>

section \<open>Requests\<close>

text \<open>The body is the list of its chunks; \<open>eq_cut\<close>: the client goes away after the last of them.\<close>

record edge_request =
  eq_method :: string
  eq_headers :: headers
  eq_raw_path :: "string option"
  eq_scope_path :: string
  eq_query :: string
  eq_url_path :: string
  eq_base_url :: string
  eq_body :: "string list"
  eq_cut :: bool

definition header_values :: "headers \<Rightarrow> string \<Rightarrow> string list" where
  "header_values hs name = map snd (filter (\<lambda>(k, _). k = name) hs)"

section \<open>The body\<close>

definition body_methods :: "string list" where
  "body_methods = [''POST'', ''PUT'', ''PATCH'', ''DELETE'']"

record body_limits =
  bl_max :: int
  bl_by_type :: "(string, int) dict"

definition resolve_body_cap :: "string option \<Rightarrow> body_limits \<Rightarrow> int" where
  "resolve_body_cap content_type cfg =
     (if \<not> or_nothing content_type then bl_max cfg
      else (let mime = str_lower (str_strip (fst (partition_at (CHR '';'') (text_or_empty content_type)))) in
            case dict_get (bl_by_type cfg) mime of
              Some n \<Rightarrow> n
            | None \<Rightarrow>
                (case dict_get (bl_by_type cfg) (fst (partition_at (CHR ''/'') mime) @ ''/*'') of
                   Some n \<Rightarrow> n
                 | None \<Rightarrow> bl_max cfg)))"

datatype body_error = Body_Refused broker_error | Client_Gone

definition payload_too_large :: "int \<Rightarrow> broker_error" where
  "payload_too_large cap =
     init_error Payload_Too_Large (''Request body exceeds the '' @ str_of_int cap @ ''-byte cap.'') (Some ''payload_too_large'')"

fun read_chunks :: "int \<Rightarrow> bool \<Rightarrow> string list \<Rightarrow> string \<Rightarrow> (body_error, string) result" where
  "read_chunks cap gone [] body = (if gone then Inl Client_Gone else Inr body)"
| "read_chunks cap gone (c # cs) body =
     (if cap < int (length body + length c) then Inl (Body_Refused (payload_too_large cap))
      else read_chunks cap gone cs (body @ c))"

definition read_capped_body :: "edge_request \<Rightarrow> int \<Rightarrow> (body_error, string) result" where
  "read_capped_body rq cap = read_chunks cap (eq_cut rq) (eq_body rq) []"

definition read_request_body :: "edge_request \<Rightarrow> body_limits \<Rightarrow> (body_error, string option) result" where
  "read_request_body rq cfg =
     (if eq_method rq \<notin> set body_methods then Inr None
      else map_sum id Some (read_capped_body rq (resolve_body_cap (dict_get (eq_headers rq) ''content-type'') cfg)))"

section \<open>Preferences, pins, trace\<close>

definition has_text :: "string \<Rightarrow> string \<Rightarrow> bool" where
  "has_text p s = list_ex (\<lambda>i. prefix p (drop i s)) [0..<Suc (length s)]"

definition should_async :: "string option \<Rightarrow> bool" where
  "should_async prefer = (case prefer of None \<Rightarrow> False | Some p \<Rightarrow> has_text ''respond-async'' (str_lower p))"

definition revision_header :: "edge_request \<Rightarrow> string option" where
  "revision_header rq =
     (let vs = header_values (eq_headers rq) ''jentic-revision'' in
      if vs = [] then None else Some (join_with (CHR '','') vs))"

definition parse_traceparent :: "string option \<Rightarrow> string option" where
  "parse_traceparent t =
     (if \<not> or_nothing t then None
      else (let parts = split_on (CHR ''-'') (text_or_empty t) in
            if length parts < 4 then None else valid_trace_id_or_none (Some (str_lower (parts ! 1)))))"

text \<open>\<open>active\<close> is the trace id of the active span, \<open>minted\<close> a fresh one.\<close>

definition derive_trace_id :: "string option \<Rightarrow> string \<Rightarrow> headers \<Rightarrow> string" where
  "derive_trace_id active minted hs =
     (case active of
        Some t \<Rightarrow> t
      | None \<Rightarrow>
          (case parse_traceparent (dict_get hs ''traceparent'') of
             Some t \<Rightarrow> t
           | None \<Rightarrow>
               (case valid_trace_id_or_none (Some (str_lower (text_or_empty (dict_get hs ''x-request-id'')))) of
                  Some t \<Rightarrow> t
                | None \<Rightarrow> minted)))"

section \<open>The context of a call\<close>

definition or_none :: "(string, string) dict \<Rightarrow> (string, string) dict option" where
  "or_none d = (if d = [] then None else Some d)"

definition context_from_discovery ::
  "string \<Rightarrow> string \<Rightarrow> string option \<Rightarrow> string \<Rightarrow> headers \<Rightarrow> resolve_result \<Rightarrow> edge_context" where
  "context_from_discovery url meth active minted hs r =
     \<lparr>rx_url = url, rx_method = meth, rx_trace_id = derive_trace_id active minted hs, rx_toolkit_id = None,
      rx_operation = Some (rv_operation r), rx_api_vendor = Some (api_vendor (rv_api r)),
      rx_api_name = Some (api_name (rv_api r)), rx_api_version = Some (api_version (rv_api r)),
      rx_pinned_revisions = None, rx_credential_id = None, rx_credential_name = None,
      ex_prefer = dict_get hs ''prefer'', ex_server_variables = or_none (rv_server_variables r),
      ex_server_variable_defaults = or_none (rv_server_variable_defaults r),
      ex_variables_unresolved = rv_variables_unresolved r, ex_has_server_variable = False\<rparr>"

section \<open>Cookies and injection\<close>

definition request_cookie :: "edge_request \<Rightarrow> string option" where
  "request_cookie rq =
     (let joined = join_cookies (header_values (eq_headers rq) ''cookie'') in if joined = [] then None else Some joined)"

definition apply_request_injection ::
  "string \<Rightarrow> injected_auth \<Rightarrow> edge_request \<Rightarrow> (string, string) dict option \<Rightarrow> (url_error, string \<times> headers) result" where
  "apply_request_injection url a rq defaults =
     apply_injection (forward_headers (eq_headers rq) []) url a (request_cookie rq) defaults"

text \<open>Without a keyset (no \<open>encrypt\<close>) the cookie is not kept.\<close>

definition captured_cookie :: "edge_request \<Rightarrow> (string \<Rightarrow> string) option \<Rightarrow> string option" where
  "captured_cookie rq encrypt =
     (case (request_cookie rq, encrypt) of (Some c, Some enc) \<Rightarrow> Some (enc c) | _ \<Rightarrow> None)"

section \<open>The payload of a queued call\<close>

definition json_texts :: "(string, string) dict \<Rightarrow> json" where
  "json_texts d = JObj (map (\<lambda>(k, v). (k, JStr v)) d)"

definition operation_dump :: "operation_info \<Rightarrow> json" where
  "operation_dump i =
     JObj [(''id'', JStr (oi_id i)), (''path'', json_opt (oi_path i)), (''method'', json_opt (oi_method i)),
           (''relative_path'', json_opt (oi_relative_path i))]"

definition texts_member :: "string \<Rightarrow> (string, string) dict option \<Rightarrow> (string, json) dict" where
  "texts_member key d = (case d of None \<Rightarrow> [] | Some xs \<Rightarrow> if xs = [] then [] else [(key, json_texts xs)])"

definition async_job_payload ::
  "'c edge_context_scheme \<Rightarrow> string \<Rightarrow> string \<Rightarrow> string option \<Rightarrow> string list option \<Rightarrow> string option \<Rightarrow> headers
     \<Rightarrow> string option \<Rightarrow> (string, json) dict" where
  "async_job_payload c execution_id origin selected allowed body hs cookie =
     [(''execution_id'', JStr execution_id), (''upstream_url'', JStr (rx_url c)), (''method'', JStr (rx_method c)),
      (''trace_id'', JStr (rx_trace_id c)),
      (''operation'', case rx_operation c of None \<Rightarrow> JNull | Some i \<Rightarrow> operation_dump i),
      (''api_vendor'', json_opt (rx_api_vendor c)), (''api_name'', json_opt (rx_api_name c)),
      (''api_version'', json_opt (rx_api_version c)), (''origin'', JStr origin)] @
     (case selected of None \<Rightarrow> [] | Some i \<Rightarrow> [(''credential_id'', JStr i)]) @
     (case allowed of None \<Rightarrow> [] | Some ids \<Rightarrow> [(''allowed_credential_ids'', JList (map JStr ids))]) @
     (if json_truthy (rx_pinned_revisions c)
      then [(''pinned_revisions'', case rx_pinned_revisions c of None \<Rightarrow> JNull | Some p \<Rightarrow> p)] else []) @
     texts_member ''server_variables'' (ex_server_variables c) @
     texts_member ''server_variable_defaults'' (ex_server_variable_defaults c) @
     (if ex_variables_unresolved c then [(''server_variables_unresolved'', JBool True)] else []) @
     (if or_nothing body then [(''body_b64'', JStr (b64encode (text_or_empty body)))] else []) @
     texts_member ''headers'' (Some hs) @
     (if or_nothing cookie then [(inbound_cookie_key, JStr (text_or_empty cookie))] else [])"

text \<open>\<open>json.dumps\<close> with its default separators, a comma and a colon each with a blank.\<close>

definition spaced :: "string list \<Rightarrow> string list" where
  "spaced xs = (case xs of [] \<Rightarrow> [] | y # ys \<Rightarrow> y # map ((#) (CHR '' '')) ys)"

fun json_dumps_default :: "json \<Rightarrow> string" where
  "json_dumps_default (JList vs) = CHR ''['' # join_with (CHR '','') (spaced (map json_dumps_default vs)) @ '']''"
| "json_dumps_default (JObj ms) =
     CHR ''{'' # join_with (CHR '','') (spaced (map (\<lambda>(k, v). json_quote k @ '': '' @ json_dumps_default v) ms)) @ ''}''"
| "json_dumps_default v = json_dumps v"

definition sealed_payload :: "(string \<Rightarrow> string) \<Rightarrow> (string, json) dict \<Rightarrow> (string, json) dict" where
  "sealed_payload encrypt p = [(encrypted_payload_key, JStr (encrypt (json_dumps_default (JObj p))))]"

section \<open>The default writer is read back\<close>

lemma skip_ws_blank: "skip_ws (CHR '' '' # s) = skip_ws s"
  by (simp add: skip_ws_def json_space_def char_code_def)

lemma blank_value: "json_value n (CHR '' '' # s) = json_value n s"
  by (cases n) (simp_all add: skip_ws_blank)

lemma blank_elements: "json_elements n (CHR '' '' # s) = json_elements n s"
  by (cases n) (simp_all add: blank_value)

lemma blank_members: "json_members n (CHR '' '' # s) = json_members n s"
  by (cases n) (simp_all add: skip_ws_blank)

lemma join_with_first: "join_with c ((y # x) # xs) = y # join_with c (x # xs)"
  by (cases xs) (auto simp: join_with_Cons)

lemma join_spaced: "xs \<noteq> [] \<Longrightarrow> join_with c (spaced (x # xs)) = x @ c # CHR '' '' # join_with c (spaced xs)"
  by (cases xs) (auto simp: spaced_def join_with_Cons join_with_first)

lemma join_spaced_single: "join_with c (spaced [x]) = x"
  by (simp add: spaced_def)

lemma default_dumps_first:
  "\<exists>c cs. json_dumps_default v = c # cs \<and> \<not> json_space c \<and> c \<noteq> CHR '']'' \<and> c \<noteq> CHR ''}''"
  using json_dumps_first [of v] by (cases v) auto

lemma elements_default:
  assumes "\<And>v n r. v \<in> set vs \<Longrightarrow> json_fuel v \<le> n \<Longrightarrow> value_end r \<Longrightarrow>
      json_value n (json_dumps_default v @ r) = Some (v, r)"
    and "vs \<noteq> []" and "sum_list (map (\<lambda>v. Suc (json_fuel v)) vs) \<le> n"
  shows "json_elements n (join_with (CHR '','') (spaced (map json_dumps_default vs)) @ CHR '']'' # r) = Some (vs, r)"
  using assms
proof (induction vs arbitrary: n)
  case (Cons v vs)
  obtain m where n: "n = Suc m" using Cons.prems(3) by (cases n) auto
  have v: "json_value m (json_dumps_default v @ r') = Some (v, r')" if "value_end r'" for r'
    using Cons.prems that n by simp
  show ?case
  proof (cases "vs = []")
    case True
    with v [of "CHR '']'' # r"] show ?thesis by (simp add: n value_end_def join_spaced_single)
  next
    case False
    let ?rest = "join_with (CHR '','') (spaced (map json_dumps_default vs)) @ CHR '']'' # r"
    have "json_elements m ?rest = Some (vs, r)"
      by (rule Cons.IH) (use Cons.prems False n in auto)
    with False v [of "CHR '','' # CHR '' '' # ?rest"] show ?thesis
      by (simp add: n value_end_def join_spaced blank_elements)
  qed
qed simp

lemma members_default:
  assumes "\<And>k v n r. (k, v) \<in> set ms \<Longrightarrow> json_fuel v \<le> n \<Longrightarrow> value_end r \<Longrightarrow>
      json_value n (json_dumps_default v @ r) = Some (v, r)"
    and "ms \<noteq> []" and "sum_list (map (\<lambda>(k, v). Suc (json_fuel v)) ms) \<le> n"
  shows "json_members n (join_with (CHR '','') (spaced (map (\<lambda>(k, v). json_quote k @ '': '' @ json_dumps_default v) ms))
      @ CHR ''}'' # r) = Some (ms, r)"
  using assms
proof (induction ms arbitrary: n)
  case (Cons p ms)
  obtain k v where p: "p = (k, v)" by (cases p)
  obtain m where n: "n = Suc m" using Cons.prems(3) p by (cases n) auto
  have v: "json_value m (json_dumps_default v @ r') = Some (v, r')" if "value_end r'" for r'
  proof (rule Cons.prems(1) [of k])
    show "json_fuel v \<le> m" using Cons.prems(3) n p by simp
  qed (use p that in simp_all)
  show ?case
  proof (cases "ms = []")
    case True
    with v [of "CHR ''}'' # r"] show ?thesis
      by (simp add: n p value_end_def json_quote_def json_string_quoted join_spaced_single blank_value)
  next
    case False
    let ?rest = "join_with (CHR '','') (spaced (map (\<lambda>(k, v). json_quote k @ '': '' @ json_dumps_default v) ms)) @ CHR ''}'' # r"
    have "json_members m ?rest = Some (ms, r)"
      by (rule Cons.IH) (use Cons.prems False n p in auto)
    with False v [of "CHR '','' # CHR '' '' # ?rest"] show ?thesis
      by (simp add: n p value_end_def join_spaced blank_value blank_members json_quote_def json_string_quoted)
  qed
qed simp

lemma value_default:
  "json_ok v \<Longrightarrow> json_fuel v \<le> n \<Longrightarrow> value_end r \<Longrightarrow> json_value n (json_dumps_default v @ r) = Some (v, r)"
proof (induction v arbitrary: n r)
  case (JList vs)
  obtain m where n: "n = Suc m" using JList.prems(2) by (cases n) auto
  show ?case
  proof (cases "vs = []")
    case True
    then show ?thesis by (simp add: n spaced_def)
  next
    case False
    obtain v vs' where vs: "vs = v # vs'" using False by (cases vs) auto
    obtain c cs where c: "json_dumps_default v = c # cs" "\<not> json_space c" "c \<noteq> CHR '']''"
      using default_dumps_first by blast
    have first: "\<exists>cs'. join_with (CHR '','') (spaced (map json_dumps_default vs)) = c # cs'"
      by (cases vs') (auto simp: vs c join_spaced join_spaced_single)
    have "json_elements m (join_with (CHR '','') (spaced (map json_dumps_default vs)) @ CHR '']'' # r) = Some (vs, r)"
      by (rule elements_default) (use JList False n in \<open>auto simp: list_all_iff\<close>)
    with first c show ?thesis by (auto simp: n)
  qed
next
  case (JObj ms)
  obtain m where n: "n = Suc m" using JObj.prems(2) by (cases n) auto
  show ?case
  proof (cases "ms = []")
    case True
    then show ?thesis by (simp add: n spaced_def)
  next
    case False
    let ?text = "join_with (CHR '','') (spaced (map (\<lambda>(k, v). json_quote k @ '': '' @ json_dumps_default v) ms))"
    have first: "\<exists>cs'. ?text = quote_char # cs'"
    proof (cases ms)
      case (Cons p ms')
      then show ?thesis by (cases p; cases ms') (auto simp: json_quote_def join_spaced join_spaced_single)
    qed (use False in simp)
    have "json_members m (?text @ CHR ''}'' # r) = Some (ms, r)"
    proof (rule members_default)
      show "json_value i (json_dumps_default v @ r) = Some (v, r)"
        if "(k, v) \<in> set ms" "json_fuel v \<le> i" "value_end r" for k v i r
        by (rule JObj.IH [of "(k, v)"]) (use that JObj.prems(1) in \<open>auto simp: list_all_iff\<close>)
    qed (use JObj.prems False n in auto)
    moreover have "dict_update_all [] ms = ms" using dict_rebuild [of ms "[]"] JObj.prems by simp
    ultimately show ?thesis using first by (auto simp: n)
  qed
qed (simp_all only: json_dumps_default.simps json_value_dumps)

lemma spaced_longer: "length (join_with c xs) \<le> length (join_with c (spaced xs))"
proof (induction xs)
  case (Cons x xs)
  then show ?case by (cases xs) (simp_all add: join_spaced join_spaced_single join_with_Cons)
qed (simp add: spaced_def)

lemma sum_list_spaced:
  "list_all (\<lambda>v. f v \<le> 2 * length (g v)) vs \<Longrightarrow>
     sum_list (map (\<lambda>v. Suc (f v)) vs) \<le> 2 * length (join_with c (spaced (map g vs))) + 2"
  using sum_list_fuel [of f g vs c] spaced_longer [of c "map g vs"] by linarith

lemma default_fuel_bound: "json_fuel v \<le> 2 * length (json_dumps_default v)"
proof (induction v)
  case (JList vs)
  then have "list_all (\<lambda>v. json_fuel v \<le> 2 * length (json_dumps_default v)) vs"
    by (simp add: list_all_iff)
  from sum_list_spaced [OF this, of "CHR '',''"] show ?case by simp
next
  case (JObj ms)
  then have "list_all (\<lambda>(k, v). json_fuel v \<le> 2 * length (json_quote k @ '': '' @ json_dumps_default v)) ms"
    by (fastforce simp: list_all_iff)
  with sum_list_spaced [of "\<lambda>(k, v). json_fuel v" "\<lambda>(k, v). json_quote k @ '': '' @ json_dumps_default v" ms "CHR '',''"]
  show ?case by (simp add: case_prod_unfold)
qed (use json_fuel_bound in \<open>simp_all del: json_dumps.simps json_fuel.simps\<close>)

lemma json_loads_default: "json_ok v \<Longrightarrow> json_loads (json_dumps_default v) = Some v"
  using value_default [of v "2 * length (json_dumps_default v) + 2" "[]"] default_fuel_bound [of v]
  by (simp add: json_loads_def value_end_def skip_ws_def del: json_value.simps)

section \<open>The worker reads what the edge wrote\<close>

definition members :: "(string \<times> bool \<times> json) list \<Rightarrow> (string, json) dict" where
  "members l = concat (map (\<lambda>(k, present, v). if present then [(k, v)] else []) l)"

lemma members_names: "fst ` set (members l) \<subseteq> fst ` set l"
  by (force simp: members_def split: if_splits)

lemma members_get:
  "distinct (map fst l) \<Longrightarrow>
   dict_get (members l) k = (case map_of l k of Some (present, v) \<Rightarrow> if present then Some v else None | None \<Rightarrow> None)"
proof (induction l)
  case (Cons m l)
  obtain j present v where m: "m = (j, present, v)" by (metis prod_cases3)
  have "dict_get (members l) j = None" using Cons.prems members_names [of l] by (auto simp: m map_of_eq_None_iff)
  then show ?case using Cons by (auto simp: members_def m)
qed (simp add: members_def)

lemma members_ok: "distinct (map fst l) \<Longrightarrow> dict_ok (members l)"
proof (induction l)
  case (Cons m l)
  obtain j present v where m: "m = (j, present, v)" by (metis prod_cases3)
  have "j \<notin> fst ` set (members l)" using Cons.prems members_names [of l] by (auto simp: m)
  then show ?case using Cons by (auto simp: members_def m)
qed (simp add: members_def)

definition payload_members ::
  "'c edge_context_scheme \<Rightarrow> string \<Rightarrow> string \<Rightarrow> string option \<Rightarrow> string list option \<Rightarrow> string option \<Rightarrow> headers
     \<Rightarrow> string option \<Rightarrow> (string \<times> bool \<times> json) list" where
  "payload_members c execution_id origin selected allowed body hs cookie =
     [(''execution_id'', True, JStr execution_id), (''upstream_url'', True, JStr (rx_url c)),
      (''method'', True, JStr (rx_method c)), (''trace_id'', True, JStr (rx_trace_id c)),
      (''operation'', True, case rx_operation c of None \<Rightarrow> JNull | Some i \<Rightarrow> operation_dump i),
      (''api_vendor'', True, json_opt (rx_api_vendor c)), (''api_name'', True, json_opt (rx_api_name c)),
      (''api_version'', True, json_opt (rx_api_version c)), (''origin'', True, JStr origin),
      (''credential_id'', selected \<noteq> None, JStr (the selected)),
      (''allowed_credential_ids'', allowed \<noteq> None, JList (map JStr (the allowed))),
      (''pinned_revisions'', json_truthy (rx_pinned_revisions c),
         case rx_pinned_revisions c of None \<Rightarrow> JNull | Some p \<Rightarrow> p),
      (''server_variables'', Option.bind (ex_server_variables c) or_none \<noteq> None, json_texts (the (ex_server_variables c))),
      (''server_variable_defaults'', Option.bind (ex_server_variable_defaults c) or_none \<noteq> None,
         json_texts (the (ex_server_variable_defaults c))),
      (''server_variables_unresolved'', ex_variables_unresolved c, JBool True),
      (''body_b64'', or_nothing body, JStr (b64encode (text_or_empty body))),
      (''headers'', hs \<noteq> [], json_texts hs),
      (inbound_cookie_key, or_nothing cookie, JStr (text_or_empty cookie))]"

lemma payload_as_members:
  "async_job_payload c i origin selected allowed body hs cookie = members (payload_members c i origin selected allowed body hs cookie)"
proof -
  have t: "texts_member key d = (if Option.bind d or_none \<noteq> None then [(key, json_texts (the d))] else [])" for key d
    by (simp add: texts_member_def or_none_def split: option.splits)
  show ?thesis
    unfolding async_job_payload_def members_def payload_members_def t
    by (cases selected; cases allowed; simp add: or_none_def)
qed

lemma payload_keys: "distinct (map fst (payload_members c i origin selected allowed body hs cookie))"
proof -
  have "distinct [''execution_id'', ''upstream_url'', ''method'', ''trace_id'', ''operation'', ''api_vendor'', ''api_name'',
      ''api_version'', ''origin'', ''credential_id'', ''allowed_credential_ids'', ''pinned_revisions'', ''server_variables'',
      ''server_variable_defaults'', ''server_variables_unresolved'', ''body_b64'', ''headers'', inbound_cookie_key]"
    by code_simp
  then show ?thesis by (simp only: payload_members_def list.map fst_conv)
qed

lemmas payload_get = members_get [OF payload_keys, folded payload_as_members]

lemma payload_text_get:
  "payload_text k (async_job_payload c i origin selected allowed body hs cookie) =
     (case map_of (payload_members c i origin selected allowed body hs cookie) k of
        Some (True, JStr s) \<Rightarrow> Some s | _ \<Rightarrow> None)"
  by (auto simp: payload_text_def payload_get split: option.splits prod.splits bool.splits json.splits)

lemma str_map_texts: "str_map (Some (json_texts d)) = or_none d"
  by (simp add: str_map_def json_texts_def or_none_def comp_def case_prod_unfold py_str_def)

lemma str_map_None: "str_map None = None"
  by (simp add: str_map_def)

lemma bind_or_none: "Option.bind x or_none = Some y \<Longrightarrow> or_none (the x) = Some y"
  by (cases x) auto

text \<open>Each reader of the handler, on the payload.\<close>

lemma payload_texts:
  fixes c i origin selected allowed body hs cookie
  defines "p \<equiv> async_job_payload c i origin selected allowed body hs cookie"
  shows "payload_text ''execution_id'' p = Some i" "payload_text ''upstream_url'' p = Some (rx_url c)"
    "payload_text ''method'' p = Some (rx_method c)" "payload_text ''trace_id'' p = Some (rx_trace_id c)"
    "payload_text ''api_vendor'' p = rx_api_vendor c" "payload_text ''api_name'' p = rx_api_name c"
    "payload_text ''api_version'' p = rx_api_version c" "payload_text ''origin'' p = Some origin"
    "payload_text ''credential_id'' p = selected"
    "payload_text ''body_b64'' p = (if or_nothing body then Some (b64encode (text_or_empty body)) else None)"
  unfolding p_def payload_text_get payload_members_def
  by (auto simp: json_opt_def split: option.splits bool.splits)

lemma payload_gets:
  fixes c i origin selected allowed body hs cookie
  defines "p \<equiv> async_job_payload c i origin selected allowed body hs cookie"
  shows "dict_get p ''operation'' = Some (case rx_operation c of None \<Rightarrow> JNull | Some x \<Rightarrow> operation_dump x)"
    "str_map (dict_get p ''server_variables'') = Option.bind (ex_server_variables c) or_none"
    "str_map (dict_get p ''server_variable_defaults'') = Option.bind (ex_server_variable_defaults c) or_none"
    "str_map (dict_get p ''headers'') = or_none hs"
    "dict_get p ''server_variables_unresolved'' = (if ex_variables_unresolved c then Some (JBool True) else None)"
    "dict_get p ''pinned_revisions'' = (if json_truthy (rx_pinned_revisions c) then rx_pinned_revisions c else None)"
    "dict_get p inbound_cookie_key = (if or_nothing cookie then Some (JStr (text_or_empty cookie)) else None)"
    "dict_get p encrypted_payload_key = None"
  unfolding p_def payload_get payload_members_def
  by (auto simp: str_map_texts str_map_None bind_or_none or_none_def [of hs] json_truthy_def inbound_cookie_key_def
      encrypted_payload_key_def split: option.splits)

lemma operation_read:
  "dict_get p ''operation'' = Some (case x of None \<Rightarrow> JNull | Some j \<Rightarrow> operation_dump j) \<Longrightarrow> operation_from_job_payload p = x"
proof (cases x)
  case (Some j)
  have "text_field k [(''id'', JStr a), (''path'', json_opt b), (''method'', json_opt d), (''relative_path'', json_opt e)] =
      (if k = ''id'' then Some (Some a) else if k = ''path'' then Some b else if k = ''method'' then Some d
       else if k = ''relative_path'' then Some e else Some None)" for k a b d e
    by (auto simp: text_field_def json_opt_def split: option.splits)
  moreover assume "dict_get p ''operation'' = Some (case x of None \<Rightarrow> JNull | Some j \<Rightarrow> operation_dump j)"
  ultimately show ?thesis by (simp add: Some operation_from_job_payload_def operation_dump_def)
qed (simp add: operation_from_job_payload_def)

text \<open>The values a payload is built from are Python dictionaries.\<close>

definition context_ok :: "'c edge_context_scheme \<Rightarrow> bool" where
  "context_ok c =
     (list_all (\<lambda>d. case d of None \<Rightarrow> True | Some xs \<Rightarrow> dict_ok xs) [ex_server_variables c, ex_server_variable_defaults c] \<and>
      (case rx_pinned_revisions c of None \<Rightarrow> True | Some v \<Rightarrow> json_ok v))"

lemma json_texts_ok: "dict_ok d \<Longrightarrow> json_ok (json_texts d)"
  by (auto simp: json_texts_def list_all_iff comp_def case_prod_unfold)

lemma operation_dump_ok: "json_ok (operation_dump x)"
proof -
  have "distinct [''id'', ''path'', ''method'', ''relative_path'']" by code_simp
  then show ?thesis by (simp only: operation_dump_def json_ok.simps list.map fst_conv list.pred_inject prod.case)
      (simp add: json_opt_def split: option.splits)
qed

lemma json_opt_ok: "json_ok (json_opt t)"
  by (cases t) (simp_all add: json_opt_def)

lemma payload_ok:
  assumes "context_ok c" "dict_ok hs"
  shows "json_ok (JObj (async_job_payload c i origin selected allowed body hs cookie))"
proof -
  have "json_ok v" if "(k, True, v) \<in> set (payload_members c i origin selected allowed body hs cookie)" for k v
    using that assms
    by (auto simp: payload_members_def context_ok_def json_texts_ok operation_dump_ok json_opt_ok list_all_iff
        bind_eq_Some_conv json_truthy_def split: option.splits)
  then show ?thesis
    using members_ok [OF payload_keys]
    by (auto simp: payload_as_members list_all_iff members_def split: if_splits)
qed

text \<open>
  C28: a queued call is the call the edge admitted. Whether its payload is kept in clear or sealed, the worker reads back
  the payload that the edge wrote, and from it the same actor-independent request: method, API, operation, credential, server
  variables, URL, origin, pins, execution and trace ids, the body when there is one, the replayed headers and the
  caller's cookie.
\<close>

theorem queued_payload_roundtrip:
  assumes "context_ok c" "valid_trace_id_or_none (Some (rx_trace_id c)) = Some (rx_trace_id c)"
    and "qe_decrypt Q = Some dec" "\<And>s. dec (enc s) = Some s" "\<And>s. enc s \<noteq> []"
    and p: "p = async_job_payload c i origin selected allowed body (replay_headers (eq_headers rq)) (captured_cookie rq (Some enc))"
    and k: "k = context_of Q jid actor actor_type p url"
  shows "open_payload Q p = Inr (Some p) \<and> open_payload Q (sealed_payload enc p) = Inr (Some p) \<and>
    queued_request_of k =
      \<lparr>zr_actor_id = actor, zr_actor_type = actor_type, zr_method = rx_method c, zr_url = url,
       zr_api = \<lparr>api_vendor = text_or_empty (rx_api_vendor c), api_name = text_or_empty (rx_api_name c),
         api_version = text_or_empty (rx_api_version c)\<rparr>,
       zr_operation = rx_operation c, zr_credential_id = selected,
       zr_server_variables = Option.bind (ex_server_variables c) or_none,
       zr_variables_unresolved = ex_variables_unresolved c, zr_job_id = jid\<rparr> \<and>
    qc_execution_id k = i \<and> qc_trace_id k = rx_trace_id c \<and>
    payload_text ''upstream_url'' p = Some (rx_url c) \<and> payload_text ''origin'' p = Some origin \<and>
    Option.bind (payload_text ''body_b64'' p) b64decode = (if or_nothing body then body else None) \<and>
    str_map (dict_get p ''headers'') = or_none (replay_headers (eq_headers rq)) \<and>
    str_map (dict_get p ''server_variable_defaults'') = Option.bind (ex_server_variable_defaults c) or_none \<and>
    dict_get p ''pinned_revisions'' = (if json_truthy (rx_pinned_revisions c) then rx_pinned_revisions c else None) \<and>
    inbound_cookie Q p = request_cookie rq"
proof -
  note T = payload_texts [of c i origin selected allowed body "replay_headers (eq_headers rq)" "captured_cookie rq (Some enc)", folded p]
  note G = payload_gets [of c i origin selected allowed body "replay_headers (eq_headers rq)" "captured_cookie rq (Some enc)", folded p]
  have clear: "open_payload Q p = Inr (Some p)" by (simp add: open_payload_def G(8))
  have "json_ok (JObj p)" unfolding p by (rule payload_ok [OF assms(1)]) (simp add: replay_headers_def comprehend_ok)
  then have "json_loads (json_dumps_default (JObj p)) = Some (JObj p)" by (rule json_loads_default)
  then have sealed: "open_payload Q (sealed_payload enc p) = Inr (Some p)"
    by (simp add: open_payload_def sealed_payload_def assms(3,4) py_str_def del: json_dumps_default.simps)
  have request: "queued_request_of k =
      \<lparr>zr_actor_id = actor, zr_actor_type = actor_type, zr_method = rx_method c, zr_url = url,
       zr_api = \<lparr>api_vendor = text_or_empty (rx_api_vendor c), api_name = text_or_empty (rx_api_name c),
         api_version = text_or_empty (rx_api_version c)\<rparr>,
       zr_operation = rx_operation c, zr_credential_id = selected,
       zr_server_variables = Option.bind (ex_server_variables c) or_none,
       zr_variables_unresolved = ex_variables_unresolved c, zr_job_id = jid\<rparr>"
    by (simp add: k queued_request_of_def context_of_def T G(2,5) operation_read [OF G(1)] Let_def)
  have ids: "qc_execution_id k = i" "qc_trace_id k = rx_trace_id c"
    by (simp_all add: k context_of_def T text_or_empty_def valid_trace_id_or_minted_def assms(2))
  have body: "Option.bind (payload_text ''body_b64'' p) b64decode = (if or_nothing body then body else None)"
    by (auto simp: T(10) or_nothing_def text_or_empty_def split: option.splits)
  have "captured_cookie rq (Some enc) = map_option enc (request_cookie rq)"
    by (simp add: captured_cookie_def split: option.splits)
  then have cookie: "inbound_cookie Q p = request_cookie rq"
    using assms(4,5) [of "the (request_cookie rq)"]
    by (cases "request_cookie rq"; cases "enc (the (request_cookie rq))")
       (simp_all add: inbound_cookie_def G(7) or_nothing_def text_or_empty_def assms(3))
  show ?thesis by (intro conjI clear sealed request ids T(2,8) body G(4,3,6) cookie)
qed

definition demo_worker :: "unit queued_env" where
  "demo_worker =
     \<lparr>qe_egress = None, qe_resolve = (\<lambda>_ _. None), qe_decrypt = Some (\<lambda>s. Some (tl s)), qe_authorizer = None, qe_actors = None,
      qe_injector = None, qe_registry = empty_registry, qe_detect = no_detector, qe_str = (\<lambda>_. []), qe_type_name = (\<lambda>_. ''Error''),
      qe_timeout = 30, qe_minted = replicate 32 (CHR ''b''), qe_now = 5\<rparr>"

definition demo_edge_request :: edge_request where
  "demo_edge_request =
     \<lparr>eq_method = ''POST'', eq_headers = [(''cookie'', ''a=1''), (''content-type'', ''text/plain''), (''cookie'', ''b=2'')],
      eq_raw_path = Some ''/https://api.acme/v1/x'', eq_scope_path = ''/https://api.acme/v1/x'', eq_query = [],
      eq_url_path = ''/https://api.acme/v1/x'', eq_base_url = ''https://broker.acme/'', eq_body = [''hel'', ''lo''], eq_cut = False\<rparr>"

definition demo_posted :: edge_context where
  "demo_posted =
     demo_edge_context\<lparr>rx_method := ''POST'', rx_trace_id := replicate 32 (CHR ''a''),
       rx_operation := Some \<lparr>oi_id = ''op'', oi_path = Some ''/x'', oi_method = None, oi_relative_path = Some ''/x''\<rparr>,
       ex_server_variables := Some [(''region'', ''eu'')]\<rparr>"

text \<open>A sealed POST with two cookie lines.\<close>

lemma queued_payload_roundtrip_witness:
  "\<exists>p. open_payload demo_worker (sealed_payload ((#) (CHR ''!'')) p) = Inr (Some p) \<and>
     inbound_cookie demo_worker p = Some ''a=1; b=2'' \<and>
     Option.bind (payload_text ''body_b64'' p) b64decode = Some ''hello'' \<and>
     str_map (dict_get p ''headers'') = Some [(''content-type'', ''text/plain'')] \<and>
     zr_server_variables (queued_request_of (context_of demo_worker ''j'' ''a'' ''agent'' p ''https://api.acme/v1/x'')) =
       Some [(''region'', ''eu'')]"
proof -
  have c: "context_ok demo_posted"
    "valid_trace_id_or_none (Some (rx_trace_id demo_posted)) = Some (rx_trace_id demo_posted)"
    "replay_headers (eq_headers demo_edge_request) = [(''content-type'', ''text/plain'')]"
    "request_cookie demo_edge_request = Some ''a=1; b=2''"
    "Option.bind (ex_server_variables demo_posted) or_none = Some [(''region'', ''eu'')]"
    by code_simp+
  have d: "qe_decrypt demo_worker = Some (\<lambda>s. Some (tl s))" by (simp add: demo_worker_def)
  define p where "p = async_job_payload demo_posted ''e'' ''api'' (Some ''c'') (Some [''c'']) (Some ''hello'')
      (replay_headers (eq_headers demo_edge_request)) (captured_cookie demo_edge_request (Some ((#) (CHR ''!''))))"
  have "Option.bind (payload_text ''body_b64'' p) b64decode = (if or_nothing (Some ''hello'') then Some ''hello'' else None)"
    and "open_payload demo_worker (sealed_payload ((#) (CHR ''!'')) p) = Inr (Some p)"
    and "str_map (dict_get p ''headers'') = or_none (replay_headers (eq_headers demo_edge_request))"
    and "inbound_cookie demo_worker p = request_cookie demo_edge_request"
    and "zr_server_variables (queued_request_of (context_of demo_worker ''j'' ''a'' ''agent'' p ''https://api.acme/v1/x'')) =
        Option.bind (ex_server_variables demo_posted) or_none"
    using queued_payload_roundtrip [OF c(1,2) d, of "(#) (CHR ''!'')", OF _ _ p_def refl] by simp_all
  with c(3-5) show ?thesis by (intro exI [of _ p]) (simp add: or_none_def or_nothing_def)
qed

end
