(* ===== verification/Streaming.thy ===== *)
theory Streaming
  imports Responses Runner
begin

text \<open>
  The streaming route: \<open>broker/web/streaming.py\<close> and the persistence of a stream's outcome in
  \<open>broker/web/routers/execute.py\<close>. The upstream's body is the list of its chunks with the failure that ends it; what the
  client and the clock do to it is a script of pulls. The completion callback gets the settled outcome.
\<close>

section \<open>Outcomes\<close>

record stream_outcome =
  so_execution_id :: string
  so_http_status :: "int option"
  so_duration_ms :: int
  so_error :: "string option"
  so_bytes :: nat
  so_circuit_open :: bool
  so_cancelled :: bool

definition new_outcome :: "string \<Rightarrow> int option \<Rightarrow> stream_outcome" where
  "new_outcome i status =
     \<lparr>so_execution_id = i, so_http_status = status, so_duration_ms = 0, so_error = None, so_bytes = 0,
      so_circuit_open = False, so_cancelled = False\<rparr>"

text \<open>What may end a call before its response headers: an error, or a cancellation.\<close>

datatype open_failure = Open_Raised run_error | Open_Cancelled

text \<open>The class name of an exception is the parameter \<open>name\<close>.\<close>

definition body_error_type :: "(run_error \<Rightarrow> string) \<Rightarrow> broker_error \<Rightarrow> string" where
  "body_error_type name e = (if be_class e = Upstream_Body_Interrupted then be_transport e else name (Domain e))"

definition pre_header_error :: "(run_error \<Rightarrow> string) \<Rightarrow> open_failure \<Rightarrow> string" where
  "pre_header_error name f =
     (case f of
        Open_Cancelled \<Rightarrow> ''cancelled''
      | Open_Raised (Domain e) \<Rightarrow>
          if be_type e \<noteq> default_type Broker_Base then be_type e else ''server_error: '' @ name (Domain e)
      | Open_Raised e \<Rightarrow> ''server_error: '' @ name e)"

definition pre_header_outcome :: "(run_error \<Rightarrow> string) \<Rightarrow> string \<Rightarrow> int \<Rightarrow> open_failure \<Rightarrow> stream_outcome" where
  "pre_header_outcome name i duration f =
     (new_outcome i None)
       \<lparr>so_duration_ms := duration, so_error := Some (pre_header_error name f),
        so_circuit_open := (case f of Open_Raised (Domain e) \<Rightarrow> be_class e = Circuit_Open \<and> be_report e | _ \<Rightarrow> False),
        so_cancelled := (f = Open_Cancelled)\<rparr>"

section \<open>Relaying the body\<close>

text \<open>
  One pull of the body: the clock before it, and what happens: the upstream answers, and the frame this gives is
  delivered or not (the client is gone, or the task is cancelled in the send); the wait times out; the task is cancelled
  while it waits. A script that has run out delivers.
\<close>

datatype pull_fate = Pull_Answered bool | Pull_Timed_Out | Pull_Cancelled

type_synonym pull = "real \<times> pull_fate"

datatype frame = Frame_Start int headers | Frame_Chunk string | Frame_End

text \<open>How the response ended: with its final frame, by the broker without one, or cut off by the client's side.\<close>

datatype relay_end = Relay_Complete | Relay_Aborted | Relay_Cut

definition deadline_passed :: "real option \<Rightarrow> pull list \<Rightarrow> bool" where
  "deadline_passed deadline pulls =
     (case (deadline, pulls) of (Some d, (t, _) # _) \<Rightarrow> d - t \<le> 0 | _ \<Rightarrow> False)"

definition next_fate :: "pull list \<Rightarrow> pull_fate" where
  "next_fate pulls = (case pulls of [] \<Rightarrow> Pull_Answered True | (_, f) # _ \<Rightarrow> f)"

abbreviation client_disconnect :: string where "client_disconnect \<equiv> ''client_disconnect''"

definition or_disconnect :: "string option \<Rightarrow> string option" where
  "or_disconnect e = (if or_nothing e then e else Some client_disconnect)"

text \<open>\<open>guarded_body\<close> under \<open>stream_response\<close>, from the first pull.\<close>

fun relay ::
  "(run_error \<Rightarrow> string) \<Rightarrow> real option \<Rightarrow> pull list \<Rightarrow> string list \<Rightarrow> broker_error option \<Rightarrow> stream_outcome
     \<Rightarrow> frame list \<times> stream_outcome \<times> relay_end" where
  "relay name deadline pulls [] fin out =
     (if deadline_passed deadline pulls then ([], out\<lparr>so_error := Some ''transfer_deadline_exceeded''\<rparr>, Relay_Aborted)
      else case next_fate pulls of
        Pull_Timed_Out \<Rightarrow> ([], out\<lparr>so_error := Some ''transfer_deadline_exceeded''\<rparr>, Relay_Aborted)
      | Pull_Cancelled \<Rightarrow> ([], out\<lparr>so_error := Some client_disconnect\<rparr>, Relay_Cut)
      | Pull_Answered delivered \<Rightarrow>
          (case fin of
             Some e \<Rightarrow> ([], out\<lparr>so_error := Some (''upstream_error: '' @ body_error_type name e)\<rparr>, Relay_Aborted)
           | None \<Rightarrow> if delivered then ([Frame_End], out, Relay_Complete) else ([], out, Relay_Cut)))"
| "relay name deadline pulls (c # cs) fin out =
     (if deadline_passed deadline pulls then ([], out\<lparr>so_error := Some ''transfer_deadline_exceeded''\<rparr>, Relay_Aborted)
      else case next_fate pulls of
        Pull_Timed_Out \<Rightarrow> ([], out\<lparr>so_error := Some ''transfer_deadline_exceeded''\<rparr>, Relay_Aborted)
      | Pull_Cancelled \<Rightarrow> ([], out\<lparr>so_error := Some client_disconnect\<rparr>, Relay_Cut)
      | Pull_Answered delivered \<Rightarrow>
          (let out = out\<lparr>so_bytes := so_bytes out + length c\<rparr> in
           if delivered then
             (let (frames, out, fin) = relay name deadline (tl pulls) cs fin out in (Frame_Chunk c # frames, out, fin))
           else ([], out\<lparr>so_error := Some client_disconnect\<rparr>, Relay_Cut)))"

text \<open>
  A response to its end: the start frame, the body, the settled outcome. A start that is not delivered leaves a body that
  never started.
\<close>

definition stream_response ::
  "(run_error \<Rightarrow> string) \<Rightarrow> real option \<Rightarrow> bool \<Rightarrow> pull list \<Rightarrow> int \<Rightarrow> response \<Rightarrow> streaming_result \<Rightarrow> stream_outcome
     \<Rightarrow> frame list \<times> stream_outcome \<times> relay_end" where
  "stream_response name deadline started pulls duration r result out =
     (if \<not> started then ([], out\<lparr>so_duration_ms := duration, so_error := or_disconnect (so_error out)\<rparr>, Relay_Cut)
      else (let (frames, out, fin) = relay name deadline pulls (sr_chunks result) (sr_failure result) out in
            (Frame_Start (rsp_status r) (rsp_headers r) # frames, out\<lparr>so_duration_ms := duration\<rparr>, fin)))"

section \<open>Opening a stream\<close>

text \<open>What a streamed call meets: the opener, the class names, the script of its body and the clocks.\<close>

record 'w stream_env =
  sv_open :: "runner_request \<Rightarrow> 'w \<Rightarrow> (open_failure, streaming_result) result \<times> 'w"
  sv_name :: "run_error \<Rightarrow> string"
  sv_deadline :: real
  sv_body_start :: real
  sv_started :: bool
  sv_pulls :: "pull list"
  sv_duration_ms :: int

definition streaming_response :: "'c edge_context_scheme \<Rightarrow> string \<Rightarrow> streaming_result \<Rightarrow> response" where
  "streaming_response c i result =
     \<lparr>rsp_status = streaming_result.sr_status result, rsp_media_type = streaming_result.sr_content_type result,
      rsp_headers = dict_update_all (passthrough_streaming_headers (streaming_result.sr_headers result))
        (streaming_metadata c i (streaming_result.sr_status result)), rsp_body = []\<rparr>"

text \<open>\<open>open_streaming_response\<close> and its response, run to the end; the outcome is what the callback receives.\<close>

definition open_streaming ::
  "'w stream_env \<Rightarrow> runner_request \<Rightarrow> 'c edge_context_scheme \<Rightarrow> string \<Rightarrow> 'w
     \<Rightarrow> ((open_failure, frame list \<times> relay_end) result \<times> stream_outcome) \<times> 'w" where
  "open_streaming S request c i w =
     (case sv_open S request w of
        (Inl f, w) \<Rightarrow> ((Inl f, pre_header_outcome (sv_name S) i (sv_duration_ms S) f), w)
      | (Inr result, w) \<Rightarrow>
          (let deadline = (if 0 < sv_deadline S then Some (sv_body_start S + sv_deadline S) else None);
               (frames, out, fin) = stream_response (sv_name S) deadline (sv_started S) (sv_pulls S) (sv_duration_ms S)
                 (streaming_response c i result) result (new_outcome i (Some (streaming_result.sr_status result))) in
           ((Inr (frames, fin), out), w)))"

section \<open>Persisting an outcome\<close>

definition missing_outcome_error :: string where
  "missing_outcome_error = ''server_error: missing_outcome_error''"

text \<open>The status and the error that \<open>_persist_streaming_outcome\<close> records.\<close>

definition outcome_error :: "stream_outcome \<Rightarrow> string option" where
  "outcome_error out =
     (if so_error out = None \<and> so_http_status out = None then Some missing_outcome_error else so_error out)"

definition outcome_status :: "stream_outcome \<Rightarrow> exec_status" where
  "outcome_status out =
     (if or_nothing (outcome_error out) \<or> (case so_http_status out of None \<Rightarrow> False | Some s \<Rightarrow> 400 \<le> s)
      then Exec_Failed else Exec_Completed)"

definition recorded_error :: "stream_outcome \<Rightarrow> string option" where
  "recorded_error out =
     (case (outcome_status out, outcome_error out, so_http_status out) of
        (Exec_Failed, None, Some s) \<Rightarrow> Some (upstream_returned s)
      | _ \<Rightarrow> outcome_error out)"

definition effective_persist_limit :: "int \<Rightarrow> int \<Rightarrow> int" where
  "effective_persist_limit configured pool_max = min configured (max 1 (pool_max - 1))"

text \<open>
  The write: the event of an open circuit first, in a transaction of its own, then a slot of the gate, then the
  record. Whatever fails is counted, and nothing is raised.
\<close>

datatype slot_wait = Slot_Acquired | Slot_Timed_Out | Slot_Cancelled

definition emit_streaming_circuit :: "exec_call \<Rightarrow> real \<Rightarrow> 'w exec_world \<Rightarrow> 'w exec_world" where
  "emit_streaming_circuit call now w =
     (case circuit_open_event call now of
        Inl _ \<Rightarrow> w\<lparr>xw_fates := tl (xw_fates w)\<rparr>
      | Inr e \<Rightarrow> snd (write_tx None [e] w))"

definition persist_streaming_outcome ::
  "'w detector \<Rightarrow> exec_call \<Rightarrow> real \<Rightarrow> real \<Rightarrow> slot_wait \<Rightarrow> stream_outcome \<Rightarrow> 'w exec_world \<Rightarrow> bool \<times> 'w exec_world" where
  "persist_streaming_outcome detect call started now waited out w =
     (let w = (if so_circuit_open out then emit_streaming_circuit call now w else w) in
      if waited \<noteq> Slot_Acquired then (False, w)
      else persist_streaming_execution detect call (so_execution_id out) started now (outcome_status out) (so_http_status out)
             (so_duration_ms out) (recorded_error out) (so_cancelled out) w)"

section \<open>The record tells how the response ended\<close>

lemma relay_facts_all:
  assumes "relay name deadline pulls cs fin out = (frames, out', ended)" and "so_error out = None"
  shows "so_http_status out' = so_http_status out \<and> so_execution_id out' = so_execution_id out \<and>
     (\<exists>n m. frames = map Frame_Chunk (take n cs) @ (if ended = Relay_Complete then [Frame_End] else []) \<and> n \<le> m \<and> m \<le> Suc n \<and>
        so_bytes out' = so_bytes out + length (concat (take m cs)) \<and> (so_error out' = None \<longrightarrow> n = length cs)) \<and>
     (so_error out' = None \<longrightarrow> fin = None \<and> ended \<noteq> Relay_Aborted) \<and>
     (so_error out' = None \<or> so_error out' \<noteq> Some []) \<and> (ended = Relay_Complete \<longrightarrow> so_error out' = None)"
  using assms
proof (induction cs arbitrary: pulls out frames)
  case Nil
  then show ?case
    by (auto simp: Let_def split: if_splits pull_fate.splits option.splits intro!: exI [of _ 0])
next
  case (Cons c cs)
  let ?out = "out\<lparr>so_bytes := so_bytes out + length c\<rparr>"
  show ?case
  proof (cases "\<not> deadline_passed deadline pulls \<and> next_fate pulls = Pull_Answered True")
    case True
    then obtain fs where r: "relay name deadline (tl pulls) cs fin ?out = (fs, out', ended)" "frames = Frame_Chunk c # fs"
      using Cons.prems(1) by (auto simp: Let_def split: prod.splits)
    from Cons.IH [OF r(1)] Cons.prems(2) obtain n m where
      "fs = map Frame_Chunk (take n cs) @ (if ended = Relay_Complete then [Frame_End] else [])" "n \<le> m" "m \<le> Suc n"
      "so_bytes out' = so_bytes ?out + length (concat (take m cs))" "so_error out' = None \<longrightarrow> n = length cs" by auto
    then have "\<exists>n m. frames = map Frame_Chunk (take n (c # cs)) @ (if ended = Relay_Complete then [Frame_End] else []) \<and> n \<le> m \<and>
        m \<le> Suc n \<and> so_bytes out' = so_bytes out + length (concat (take m (c # cs))) \<and> (so_error out' = None \<longrightarrow> n = length (c # cs))"
      by (intro exI [of _ "Suc n"] exI [of _ "Suc m"]) (simp add: r(2))
    then show ?thesis using Cons.IH [OF r(1)] Cons.prems(2) by auto
  next
    case False
    then have "frames = [] \<and> so_error out' \<noteq> None \<and> so_error out' \<noteq> Some [] \<and> ended \<noteq> Relay_Complete \<and>
        so_http_status out' = so_http_status out \<and> so_execution_id out' = so_execution_id out \<and>
        so_bytes out' \<in> {so_bytes out, so_bytes out + length c}"
      using Cons.prems(1) by (auto simp: Let_def split: if_splits pull_fate.splits)
    then show ?thesis by (auto intro: exI [of _ 0] exI [of _ "Suc 0"])
  qed
qed

lemmas relay_facts =
  relay_facts_all [THEN conjunct1]
  relay_facts_all [THEN conjunct2, THEN conjunct1]
  relay_facts_all [THEN conjunct2, THEN conjunct2, THEN conjunct1]
  relay_facts_all [THEN conjunct2, THEN conjunct2, THEN conjunct2, THEN conjunct1]
  relay_facts_all [THEN conjunct2, THEN conjunct2, THEN conjunct2, THEN conjunct2, THEN conjunct1]
  relay_facts_all [THEN conjunct2, THEN conjunct2, THEN conjunct2, THEN conjunct2, THEN conjunct2]

text \<open>What the client saw: the start frame, the first \<open>n\<close> chunks, and the final frame or not.\<close>

definition relayed :: "streaming_result \<Rightarrow> frame list \<Rightarrow> nat \<Rightarrow> bool \<Rightarrow> bool" where
  "relayed result frames n final =
     (\<exists>hs. frames = Frame_Start (streaming_result.sr_status result) hs # map Frame_Chunk (take n (sr_chunks result)) @
        (if final then [Frame_End] else []))"

lemma stream_response_facts:
  assumes run: "stream_response name deadline started pulls duration r result (new_outcome i (Some st)) = (frames, out, ended)"
    and "rsp_status r = streaming_result.sr_status result"
  shows "so_http_status out = Some st" "so_execution_id out = i" "so_error out = None \<or> so_error out \<noteq> Some []"
    "so_error out = None \<longrightarrow> sr_failure result = None \<and> ended \<noteq> Relay_Aborted" "ended = Relay_Complete \<longrightarrow> so_error out = None"
    "frames = [] \<and> ended = Relay_Cut \<and> so_error out \<noteq> None \<or>
     (\<exists>n. relayed result frames n (ended = Relay_Complete) \<and> (so_error out = None \<longrightarrow> n = length (sr_chunks result)))"
proof -
  have "so_http_status out = Some st \<and> so_execution_id out = i \<and> (so_error out = None \<or> so_error out \<noteq> Some []) \<and>
     (so_error out = None \<longrightarrow> sr_failure result = None \<and> ended \<noteq> Relay_Aborted) \<and> (ended = Relay_Complete \<longrightarrow> so_error out = None) \<and>
     (frames = [] \<and> ended = Relay_Cut \<and> so_error out \<noteq> None \<or>
     (\<exists>n. relayed result frames n (ended = Relay_Complete) \<and> (so_error out = None \<longrightarrow> n = length (sr_chunks result))))"
  proof (cases started)
    case False
    then show ?thesis using run by (auto simp: stream_response_def new_outcome_def or_disconnect_def or_nothing_def)
  next
    case True
    let ?o = "new_outcome i (Some st)"
    obtain fs out1 where r: "relay name deadline pulls (sr_chunks result) (sr_failure result) ?o = (fs, out1, ended)"
      "frames = Frame_Start (rsp_status r) (rsp_headers r) # fs" "out = out1\<lparr>so_duration_ms := duration\<rparr>"
      using run True by (auto simp: stream_response_def split: prod.splits)
    have o: "so_error ?o = None" "so_http_status ?o = Some st" "so_execution_id ?o = i" by (simp_all add: new_outcome_def)
    note F = relay_facts [OF r(1) o(1)]
    from F(3) obtain n where "fs = map Frame_Chunk (take n (sr_chunks result)) @ (if ended = Relay_Complete then [Frame_End] else [])"
      "so_error out1 = None \<longrightarrow> n = length (sr_chunks result)" by (elim conjE exE) (rule that)
    then have n: "\<exists>n. relayed result frames n (ended = Relay_Complete) \<and> (so_error out = None \<longrightarrow> n = length (sr_chunks result))"
      by (intro exI [of _ n]) (simp add: relayed_def r(2,3) assms(2))
    have e: "so_error out = None \<or> so_error out \<noteq> Some []" using F(5) by (auto simp: r(3))
    show ?thesis
      by (intro conjI e disjI2 [OF n]) (simp_all add: r(3) F(1,2) o F(4,6))
  qed
  then show "so_http_status out = Some st" "so_execution_id out = i" "so_error out = None \<or> so_error out \<noteq> Some []"
    "so_error out = None \<longrightarrow> sr_failure result = None \<and> ended \<noteq> Relay_Aborted" "ended = Relay_Complete \<longrightarrow> so_error out = None"
    "frames = [] \<and> ended = Relay_Cut \<and> so_error out \<noteq> None \<or>
     (\<exists>n. relayed result frames n (ended = Relay_Complete) \<and> (so_error out = None \<longrightarrow> n = length (sr_chunks result)))"
    by simp_all
qed

text \<open>
  C27: a streamed call's record says how its response ended. A stream that never opened is recorded as failed without an
  upstream status. Otherwise the client saw the upstream's chunks in order, up to some point; the response ends
  with its final frame only when it saw them all and the upstream ended well; a call recorded as completed has an upstream
  status below 400 and its whole body was delivered; one that the broker cut off is recorded as failed and has no final frame.
\<close>

theorem stream_record_truth:
  assumes run: "open_streaming S request c i w = ((r, out), w')"
    and typed: "\<And>e. fst (sv_open S request w) = Inl (Open_Raised (Domain e)) \<Longrightarrow> be_type e \<noteq> []"
  shows "so_execution_id out = i \<and>
    (case r of
       Inl _ \<Rightarrow> so_http_status out = None \<and> outcome_status out = Exec_Failed
     | Inr (frames, ended) \<Rightarrow>
         (\<exists>result n. sv_open S request w = (Inr result, w') \<and> so_http_status out = Some (streaming_result.sr_status result) \<and>
            (frames = [] \<or> relayed result frames n (ended = Relay_Complete)) \<and>
            (ended = Relay_Complete \<longrightarrow> sr_failure result = None \<and> length (sr_chunks result) \<le> n \<and>
               (outcome_status out = Exec_Completed) = (streaming_result.sr_status result < 400)) \<and>
            (outcome_status out = Exec_Completed \<longrightarrow> streaming_result.sr_status result < 400 \<and> sr_failure result = None \<and>
               frames \<noteq> [] \<and> length (sr_chunks result) \<le> n) \<and>
            (ended = Relay_Aborted \<longrightarrow> outcome_status out = Exec_Failed \<and> Frame_End \<notin> set frames)))"
proof (cases "fst (sv_open S request w)")
  case (Inl f)
  then have r: "r = Inl f" "out = pre_header_outcome (sv_name S) i (sv_duration_ms S) f"
    using run by (auto simp: open_streaming_def split: prod.splits sum.splits)
  have "pre_header_error (sv_name S) f \<noteq> []"
    using typed Inl by (auto simp: pre_header_error_def split: open_failure.splits run_error.splits)
  then show ?thesis
    by (simp add: r pre_header_outcome_def new_outcome_def outcome_status_def outcome_error_def or_nothing_def)
next
  case (Inr result)
  then have o: "sv_open S request w = (Inr result, w')" using run
    by (cases "sv_open S request w") (auto simp: open_streaming_def Let_def split: prod.splits)
  obtain frames ended where r: "r = Inr (frames, ended)" and s: "stream_response (sv_name S)
      (if 0 < sv_deadline S then Some (sv_body_start S + sv_deadline S) else None) (sv_started S) (sv_pulls S) (sv_duration_ms S)
      (streaming_response c i result) result (new_outcome i (Some (streaming_result.sr_status result))) = (frames, out, ended)"
    using run by (auto simp: open_streaming_def o Let_def split: prod.splits)
  note F = stream_response_facts [OF s, unfolded streaming_response_def response.simps, OF refl]
  have status: "(outcome_status out = Exec_Completed) = (so_error out = None \<and> streaming_result.sr_status result < 400)"
    using F(1,3) by (auto simp: outcome_status_def outcome_error_def or_nothing_def split: option.splits)
  obtain n where n: "frames = [] \<and> ended = Relay_Cut \<and> so_error out \<noteq> None \<or>
     relayed result frames n (ended = Relay_Complete) \<and> (so_error out = None \<longrightarrow> n = length (sr_chunks result))"
    using F(6) by metis
  have final: "ended = Relay_Aborted \<longrightarrow> outcome_status out = Exec_Failed \<and> Frame_End \<notin> set frames"
    using n F(4) status by (cases "outcome_status out") (auto simp: relayed_def)
  have whole: "so_error out = None \<Longrightarrow> sr_failure result = None \<and> frames \<noteq> [] \<and> length (sr_chunks result) \<le> n"
    using n F(4) by (auto simp: relayed_def)
  show ?thesis
    unfolding r sum.case prod.case
  proof (intro conjI exI [of _ result] exI [of _ n])
    show "so_execution_id out = i" "sv_open S request w = (Inr result, w')"
      "so_http_status out = Some (streaming_result.sr_status result)" by (fact F(2), fact o, fact F(1))
    show "frames = [] \<or> relayed result frames n (ended = Relay_Complete)" using n by blast
    show "ended = Relay_Complete \<longrightarrow> sr_failure result = None \<and> length (sr_chunks result) \<le> n \<and>
        (outcome_status out = Exec_Completed) = (streaming_result.sr_status result < 400)" using F(5) whole status by blast
    show "outcome_status out = Exec_Completed \<longrightarrow> streaming_result.sr_status result < 400 \<and> sr_failure result = None \<and>
        frames \<noteq> [] \<and> length (sr_chunks result) \<le> n" using whole status by simp
  qed (rule final)
qed

definition demo_stream :: "broker_error option \<Rightarrow> pull list \<Rightarrow> unit stream_env" where
  "demo_stream failure pulls =
     \<lparr>sv_open = (\<lambda>rq w. (Inr \<lparr>streaming_result.sr_status = 200, sr_headers = [], sr_content_type = None, sr_chunks = [''ab'', ''c''],
        sr_failure = failure\<rparr>, w)), sv_name = (\<lambda>_. ''E''), sv_deadline = 30, sv_body_start = 0, sv_started = True, sv_pulls = pulls,
      sv_duration_ms = 7\<rparr>"

definition demo_context :: edge_context where
  "demo_context =
     \<lparr>rx_url = ''https://api.acme/v1/x'', rx_method = ''GET'', rx_trace_id = ''t'', rx_toolkit_id = None, rx_operation = None,
      rx_api_vendor = Some ''acme'', rx_api_name = None, rx_api_version = None, rx_pinned_revisions = None,
      rx_credential_id = None, rx_credential_name = None, ex_prefer = None, ex_server_variables = None,
      ex_server_variable_defaults = None, ex_variables_unresolved = False, ex_has_server_variable = False\<rparr>"

definition demo_request :: runner_request where
  "demo_request =
     \<lparr>rq_method = ''GET'', rq_url = ''https://api.acme/v1/x'', rq_headers = [], rq_body = None, rq_timeout = 30, rq_signing = None\<rparr>"

text \<open>A body that the transfer deadline cuts off after its first chunk.\<close>

lemma stream_record_truth_witness:
  "\<exists>frames out. open_streaming (demo_stream None [(1, Pull_Answered True), (31, Pull_Answered True)]) demo_request demo_context ''e'' () =
      ((Inr (frames, Relay_Aborted), out), ()) \<and> outcome_status out = Exec_Failed \<and> Frame_End \<notin> set frames \<and> length frames = 2"
proof -
  let ?run = "open_streaming (demo_stream None [(1, Pull_Answered True), (31, Pull_Answered True)]) demo_request demo_context ''e'' ()"
  obtain frames ended out where r: "?run = ((Inr (frames, ended), out), ())" and e: "ended = Relay_Aborted" "length frames = 2"
    by (auto simp: open_streaming_def demo_stream_def stream_response_def deadline_passed_def next_fate_def Let_def
        split: prod.splits)
  have "fst (sv_open (demo_stream None [(1, Pull_Answered True), (31, Pull_Answered True)]) demo_request ()) \<noteq> Inl f" for f
    by (simp add: demo_stream_def)
  with stream_record_truth [OF r] e r show ?thesis by auto
qed

end
