(* ===== verification/Proxy.thy ===== *)
theory Proxy
  imports Edge Streaming
begin

text \<open>
  \<open>_handle\<close> of \<open>broker/web/routers/execute.py\<close> and the functions it calls: one request from its headers to its
  response. The world of a call holds the world of executions, the admin database and the shared-state store. The
  application's collaborators are the fields of \<open>edge_env\<close>; the identity is what the access dependency established.
\<close>

section \<open>The environment\<close>

text \<open>What the injected unregistered-URL hook does: answer, decline, raise a problem of its own, or raise.\<close>

datatype hook_outcome = Hook_Answer response | Hook_Declined | Hook_Problem json_response | Hook_Broken

record caller =
  ca_sub :: string
  ca_type :: string
  ca_origin :: string
  ca_name :: "string option"

text \<open>
  \<open>ee_resolve\<close> is the name resolution of the first and of the second egress check, \<open>ee_refusal\<close> the message of the
  error, \<open>ee_repr\<close> \<open>repr\<close>, \<open>ee_iso\<close> \<open>isoformat\<close>, \<open>ee_agent_name\<close> the name on the agent's row; \<open>ee_broker\<close> is the injected broker or the
  default one over the selected runner, which streams if \<open>ee_streams\<close>.
\<close>

record ('w, 's) edge_env =
  ee_egress :: egress_config
  ee_resolve :: "bool \<Rightarrow> string \<Rightarrow> ip_addr list option"
  ee_refusal :: "egress_error \<Rightarrow> string"
  ee_resolver :: resolver
  ee_repr :: "string \<Rightarrow> string"
  ee_hook :: "(string \<Rightarrow> string \<Rightarrow> hook_outcome) option"
  ee_caller :: caller
  ee_auth :: auth_env
  ee_injector :: "'w injector"
  ee_broker :: "'w exec_broker"
  ee_streams :: bool
  ee_stream :: "'w stream_env"
  ee_persist_wait :: slot_wait
  ee_detect :: "'w detector"
  ee_store :: "('s state_store \<times> idem_config) option"
  ee_begin_at :: "real \<times> real \<times> real \<times> real"
  ee_complete_at :: "real \<times> real \<times> real \<times> real"
  ee_sha :: "string \<Rightarrow> string"
  ee_hex :: "string \<Rightarrow> string"
  ee_encrypt :: "(string \<Rightarrow> string) option"
  ee_agent_name :: "string \<Rightarrow> string option"
  ee_added :: "response \<Rightarrow> headers"
  ee_limits :: body_limits
  ee_timeout :: real
  ee_passthrough :: bool
  ee_hold_ttl :: real
  ee_max_pending :: nat
  ee_jobs_base :: "string option"
  ee_public_base :: "string option"
  ee_trace :: "string option"
  ee_minted_trace :: string
  ee_execution_id :: string
  ee_job_id :: string
  ee_hold_id :: string
  ee_started :: real
  ee_now :: real
  ee_iso :: "real \<Rightarrow> string"

record ('w, 's) edge_world =
  gw_exec :: "'w exec_world"
  gw_admin :: admin_db
  gw_store :: 's

datatype edge_failure =
    Edge_Refused broker_error
  | Edge_Undiscovered discovery_error
  | Edge_Unauthorized auth_error
  | Edge_Bad_Url url_error
  | Edge_Injection inject_failure
  | Edge_Run exec_failure
  | Edge_Open open_failure
  | Edge_Begin idem_error
  | Edge_Complete state_error
  | Edge_Hook json_response
  | Edge_Hold hold_error
  | Edge_Transaction
  | Edge_Client_Gone

datatype edge_reply = Reply response | Reply_Json int json headers | Streamed "frame list" relay_end

section \<open>Egress, body, injection\<close>

definition check_egress :: "('w, 's) edge_env \<Rightarrow> bool \<Rightarrow> string \<Rightarrow> (edge_failure, string) result" where
  "check_egress E again url =
     (case validate_upstream_url_async (ee_resolve E again) url (Some (ee_egress E)) of
        Inl e \<Rightarrow> Inl (Edge_Refused (init_error Upstream_Url_Not_Allowed (ee_refusal E e) (Some ''invalid_upstream_url'')))
      | Inr url \<Rightarrow> Inr url)"

definition edge_body :: "('w, 's) edge_env \<Rightarrow> edge_request \<Rightarrow> (edge_failure, string option) result" where
  "edge_body E rq =
     (case read_request_body rq (ee_limits E) of
        Inl (Body_Refused e) \<Rightarrow> Inl (Edge_Refused e)
      | Inl Client_Gone \<Rightarrow> Inl Edge_Client_Gone
      | Inr b \<Rightarrow> Inr b)"

text \<open>\<open>_resolve_credentials\<close>: the call to the credential service.\<close>

definition edge_injection_call ::
  "('w, 's) edge_env \<Rightarrow> edge_request \<Rightarrow> edge_context \<Rightarrow> execution_authorization \<Rightarrow> injection_call" where
  "edge_injection_call E rq c a =
     \<lparr>ic_api = \<lparr>api_vendor = text_or_empty (rx_api_vendor c), api_name = text_or_empty (rx_api_name c),
        api_version = text_or_empty (rx_api_version c)\<rparr>,
      ic_actor_id = ca_sub (ee_caller E), ic_actor_type = ca_type (ee_caller E), ic_actor_name = ca_name (ee_caller E),
      ic_credential_name = dict_get (eq_headers rq) ''jentic-credential-name'',
      ic_credential_id = dict_get (eq_headers rq) ''jentic-credential-id'', ic_allowed = Some (ea_allowed_ids a),
      ic_trace_id = Some (rx_trace_id c), ic_preresolved = Some (ea_selected a),
      ic_server_variables = ex_server_variables c, ic_variables_unresolved = ex_variables_unresolved c\<rparr>"

text \<open>
  Injection as both routes run it: the material, the outbound URL and headers, the attribution on the context; a URL that
  server variables may have rewritten is checked again (the check's result is not used).
\<close>

definition edge_inject ::
  "('w, 's) edge_env \<Rightarrow> edge_request \<Rightarrow> edge_context \<Rightarrow> execution_authorization \<Rightarrow> ('w, 's) edge_world
     \<Rightarrow> (edge_failure, edge_context \<times> headers \<times> queued_auth) result \<times> ('w, 's) edge_world" where
  "edge_inject E rq c a w =
     (case inject_credential (ee_injector E) (edge_injection_call E rq c a) (ee_now E) (gw_exec w) of
        (Inl e, x) \<Rightarrow> (Inl (Edge_Injection e), w\<lparr>gw_exec := x\<rparr>)
      | (Inr m, x) \<Rightarrow>
          (case apply_request_injection (rx_url c) (injected_auth.truncate m) rq (ex_server_variable_defaults c) of
             Inl e \<Rightarrow> (Inl (Edge_Bad_Url e), w\<lparr>gw_exec := x\<rparr>)
           | Inr (url, hs) \<Rightarrow>
               (let c = c\<lparr>rx_url := url, rx_credential_id := qa_credential_id m, rx_credential_name := qa_credential_name m\<rparr> in
                if ia_server_variables m \<noteq> [] \<or> Option.bind (ex_server_variable_defaults c) or_none \<noteq> None then
                  (map_sum id (\<lambda>_. (c, hs, m)) (check_egress E True url), w\<lparr>gw_exec := x\<rparr>)
                else (Inr (c, hs, m), w\<lparr>gw_exec := x\<rparr>))))"

definition edge_exec_call ::
  "('w, 's) edge_env \<Rightarrow> edge_context \<Rightarrow> string option \<Rightarrow> headers \<Rightarrow> queued_auth \<Rightarrow> exec_call" where
  "edge_exec_call E c body hs m =
     \<lparr>xc_context = request_context.truncate c, xc_body = body, xc_headers = Some hs, xc_timeout = ee_timeout E,
      xc_execution_id = None, xc_actor_id = ca_sub (ee_caller E), xc_actor_type = ca_type (ee_caller E),
      xc_origin = Some (ca_origin (ee_caller E)), xc_detect = True, xc_signing = qa_signing m, xc_emit_lifecycle = True\<rparr>"

section \<open>The buffered route\<close>

definition execute_buffered ::
  "('w, 's) edge_env \<Rightarrow> edge_request \<Rightarrow> edge_context \<Rightarrow> string option \<Rightarrow> execution_authorization \<Rightarrow> ('w, 's) edge_world
     \<Rightarrow> (edge_failure, exec_outcome \<times> edge_context) result \<times> ('w, 's) edge_world" where
  "execute_buffered E rq c body a w =
     (case edge_inject E rq c a w of
        (Inl e, w) \<Rightarrow> (Inl e, w)
      | (Inr (c, hs, m), w) \<Rightarrow>
          (let (r, x) = run_execution (ee_detect E) (ee_broker E) (ee_execution_id E) (ee_started E) (ee_now E)
                 (edge_exec_call E c body hs m) (gw_exec w) in
           (map_sum Edge_Run (\<lambda>o1. (o1, c)) r, w\<lparr>gw_exec := x\<rparr>)))"

section \<open>The streaming route\<close>

text \<open>
  The default broker's \<open>execute_streaming\<close> and, after the response, the background write of its record: the upstream call
  is logged like a buffered one.
\<close>

definition handle_streaming ::
  "('w, 's) edge_env \<Rightarrow> edge_request \<Rightarrow> edge_context \<Rightarrow> execution_authorization \<Rightarrow> ('w, 's) edge_world
     \<Rightarrow> (edge_failure, edge_reply) result \<times> ('w, 's) edge_world" where
  "handle_streaming E rq c a w =
     (case edge_body E rq of
        Inl e \<Rightarrow> (Inl e, w)
      | Inr body \<Rightarrow>
          (case edge_inject E rq c a w of
             (Inl e, w) \<Rightarrow> (Inl e, w)
           | (Inr (c, hs, m), w) \<Rightarrow>
               (let call = edge_exec_call E c body hs m; x = gw_exec w;
                    ((r, out), inner) =
                      open_streaming (ee_stream E) (runner_request_of call) c (ee_execution_id E) (xw_inner x);
                    x = x\<lparr>xw_inner := inner, xw_dispatched := xw_dispatched x @ [runner_request_of call]\<rparr>;
                    (ok, x) = persist_streaming_outcome (ee_detect E) call (ee_started E) (ee_now E) (ee_persist_wait E) out x in
                (map_sum Edge_Open (\<lambda>(frames, ended). Streamed frames ended) r, w\<lparr>gw_exec := x\<rparr>))))"

section \<open>The async and the held route\<close>

definition accepted_headers :: "edge_context \<Rightarrow> string \<Rightarrow> headers" where
  "accepted_headers c execution_id =
     dict_update_all (metadata_headers c execution_id) [(''Preference-Applied'', ''respond-async'')]"

text \<open>
  An admin transaction of the edge: the rows and the best-effort events it commits. \<open>False\<close> is an exception; the rows
  may still have been committed.
\<close>

definition edge_tx :: "admin_db \<Rightarrow> exec_event list \<Rightarrow> ('w, 's) edge_world \<Rightarrow> bool \<times> ('w, 's) edge_world" where
  "edge_tx db evs w =
     (let (ok, x) = write_tx None evs (gw_exec w); lost = (case xw_fates (gw_exec w) of Tx_Fail # _ \<Rightarrow> True | _ \<Rightarrow> False) in
      (ok, w\<lparr>gw_exec := x, gw_admin := (if lost then gw_admin w else db)\<rparr>))"

definition edge_payload ::
  "('w, 's) edge_env \<Rightarrow> edge_request \<Rightarrow> edge_context \<Rightarrow> execution_authorization \<Rightarrow> string option \<Rightarrow> (string, json) dict" where
  "edge_payload E rq c a body =
     async_job_payload c (ee_execution_id E) (ca_origin (ee_caller E)) (Some (rc_credential_id (ea_selected a)))
       (Some (ea_allowed_ids a)) body (replay_headers (eq_headers rq)) (captured_cookie rq (ee_encrypt E))"

definition async_reply :: "('w, 's) edge_env \<Rightarrow> edge_context \<Rightarrow> edge_reply" where
  "async_reply E c =
     Reply_Json 202
       (JObj [(''status'', JStr ''queued''), (''job_id'', JStr (ee_job_id E)),
         (''_links'', JObj [(''self'', JStr ((if or_nothing (ee_jobs_base E) then text_or_empty (ee_jobs_base E) else []) @
            ''/jobs/'' @ ee_job_id E))])])
       (accepted_headers c (ee_execution_id E))"

definition handle_async ::
  "('w, 's) edge_env \<Rightarrow> edge_request \<Rightarrow> edge_context \<Rightarrow> execution_authorization \<Rightarrow> ('w, 's) edge_world
     \<Rightarrow> (edge_failure, edge_reply) result \<times> ('w, 's) edge_world" where
  "handle_async E rq c a w =
     (case edge_body E rq of
        Inl e \<Rightarrow> (Inl e, w)
      | Inr body \<Rightarrow>
          (case enqueue_job (ee_job_id E) Kind_Execution (ca_sub (ee_caller E)) (ca_type (ee_caller E))
                  (Some (ee_execution_id E)) (edge_payload E rq c a body) (ee_now E) (gw_admin w) of
             None \<Rightarrow> (Inl Edge_Transaction, w)
           | Some db \<Rightarrow>
               (case edge_tx db [] w of
                  (False, w) \<Rightarrow> (Inl Edge_Transaction, w)
                | (True, w) \<Rightarrow> (Inr (async_reply E c), w))))"

definition review_url :: "('w, 's) edge_env \<Rightarrow> edge_request \<Rightarrow> string \<Rightarrow> string" where
  "review_url E rq approval_id =
     (let path = ''/app/agents/approvals/'' @ approval_id in
      if or_nothing (ee_jobs_base E) then rstrip_char (CHR ''/'') (text_or_empty (ee_jobs_base E)) @ path
      else if or_nothing (ee_public_base E) then rstrip_char (CHR ''/'') (text_or_empty (ee_public_base E)) @ path
      else rstrip_char (CHR ''/'') (eq_base_url rq) @ path)"

definition edge_hold_request ::
  "('w, 's) edge_env \<Rightarrow> edge_request \<Rightarrow> edge_context \<Rightarrow> execution_authorization \<Rightarrow> (string \<Rightarrow> string) \<Rightarrow> split_url
     \<Rightarrow> string option \<Rightarrow> hold_request" where
  "edge_hold_request E rq c a encrypt parsed body =
     \<lparr>hr_agent = ca_sub (ee_caller E), hr_actor_type = ca_type (ee_caller E),
      hr_credential = rc_credential_id (ea_selected a), hr_matched_rule = ea_matched_rule a,
      hr_api = (text_or_empty (rx_api_vendor c), text_or_empty (rx_api_name c), text_or_empty (rx_api_version c)),
      hr_operation = map_option oi_id (rx_operation c), hr_method = rx_method c, hr_path = url_path parsed,
      hr_query = url_query parsed, hr_body = body, hr_trace_id = valid_trace_id_or_none (Some (rx_trace_id c)),
      hr_execution_id = ee_execution_id E, hr_payload = sealed_payload encrypt (edge_payload E rq c a body),
      hr_ttl = ee_hold_ttl E, hr_max_pending = ee_max_pending E\<rparr>"

definition hold_unavailable :: "edge_request \<Rightarrow> broker_error" where
  "hold_unavailable rq =
     (init_error Approval_Hold_Unavailable
        (''This call needs human approval, but the deployment has no credentials '' @
         ''encryption keyset to keep the held request in (credentials.encryption)'') (Some ''approval_hold_unavailable''))
       \<lparr>be_instance := Some (eq_url_path rq)\<rparr>"

definition pending_limit :: "('w, 's) edge_env \<Rightarrow> edge_request \<Rightarrow> nat \<Rightarrow> nat \<Rightarrow> broker_error" where
  "pending_limit E rq pending limit =
     (init_error Approval_Pending_Limit
        (''Agent '' @ quoted (ca_sub (ee_caller E)) @ '' already has '' @ str_of_int (int pending) @
         '' executions pending approval (limit '' @ str_of_int (int limit) @ '')'') (Some ''approval_pending_limit_reached''))
       \<lparr>be_extra := [(''pending'', JInt (int pending)), (''limit'', JInt (int limit))],
        be_directive := Some (approval_pending_limit_directive (int pending) (int limit)),
        be_instance := Some (eq_url_path rq)\<rparr>"

text \<open>The event of a hold that was filed, not joined.\<close>

definition approval_requested ::
  "('w, 's) edge_env \<Rightarrow> edge_context \<Rightarrow> hold_request \<Rightarrow> hold_outcome \<Rightarrow> string \<Rightarrow> exec_event" where
  "approval_requested E c h o1 url =
     (let who = ee_caller E;
          name = (if or_nothing (ca_name who) then ca_name who else ee_agent_name E (ca_sub who)) in
      \<lparr>xe_type = ''execution.approval_requested'', xe_severity = ''warning'',
       xe_summary = ''Agent '' @ ij_label (ee_injector E) name (ca_sub who) @ '' wants to '' @ rx_method c @ '' '' @
         ij_text (ee_injector E) (hr_path h),
       xe_requires_action = True, xe_execution_id = Some (hr_execution_id h),
       xe_trace_id = valid_trace_id_or_none (Some (rx_trace_id c)), xe_job_id = Some (ho_job_id o1),
       xe_created_by = ca_sub who, xe_actor_id = ca_sub who, xe_actor_type = ca_type who,
       xe_data = [(''held_execution_id'', JStr (ho_hold_id o1)), (''agent_id'', JStr (ca_sub who)),
         (''method'', JStr (rx_method c)), (''path'', JStr (hr_path h)), (''api_vendor'', json_opt (rx_api_vendor c)),
         (''api_name'', json_opt (rx_api_name c)), (''api_version'', json_opt (rx_api_version c)),
         (''review_url'', JStr url), (''expires_at'', JStr (ee_iso E (ho_expires_at o1)))],
       xe_created_at = ee_now E\<rparr>)"

definition held_agent_text :: string where
  "held_agent_text =
     ''This call needs human approval. Most important: show the user the review_url, '' @
     ''since they cannot approve it without that link, and end your turn so they see it. '' @
     ''Do not call get_execution_result until the user replies; then call it once with '' @
     ''held_execution_id. It waits up to 30 seconds (timeout, at most 30). If it is '' @
     ''still held, show the user the review_url again and end your turn again. Do not '' @
     ''re-send the call.''"

definition held_reply :: "('w, 's) edge_env \<Rightarrow> edge_context \<Rightarrow> hold_outcome \<Rightarrow> string \<Rightarrow> edge_reply" where
  "held_reply E c o1 url =
     (let held = text_or_empty (ee_jobs_base E) @ ''/executions/holds/'' @ ho_hold_id o1 in
      Reply_Json 202
        (JObj [(''status'', JStr ''held''), (''held_execution_id'', JStr (ho_hold_id o1)), (''review_url'', JStr url),
          (''expires_at'', JStr (ee_iso E (ho_expires_at o1))),
          (''agent_directive'', directive_dump (held_execution_directive (ho_hold_id o1) url held_agent_text)),
          (''_links'', JObj [(''self'', JStr held), (''result'', JStr (held @ ''/result'')), (''withdraw'', JStr (held @ '':withdraw''))])])
        (accepted_headers c
           (if or_nothing (ho_execution_id o1) then text_or_empty (ho_execution_id o1) else ee_execution_id E)))"

definition file_edge_hold ::
  "('w, 's) edge_env \<Rightarrow> edge_request \<Rightarrow> edge_context \<Rightarrow> hold_request \<Rightarrow> ('w, 's) edge_world
     \<Rightarrow> (edge_failure, edge_reply) result \<times> ('w, 's) edge_world" where
  "file_edge_hold E rq c h w =
     (case file_hold (\<lambda>s. ee_hex E (ee_sha E s)) h (ee_job_id E) (ee_hold_id E) (ee_now E) (gw_admin w) of
        (Inl (Pending_Limit pending limit), _) \<Rightarrow> (Inl (Edge_Refused (pending_limit E rq pending limit)), w)
      | (Inl e, _) \<Rightarrow> (Inl (Edge_Hold e), w)
      | (Inr o1, db) \<Rightarrow>
          (let url = review_url E rq (ho_hold_id o1) in
           case edge_tx db (if ho_joined o1 then [] else [approval_requested E c h o1 url]) w of
             (False, w) \<Rightarrow> (Inl Edge_Transaction, w)
           | (True, w) \<Rightarrow> (Inr (held_reply E c o1 url), w)))"

definition handle_hold ::
  "('w, 's) edge_env \<Rightarrow> edge_request \<Rightarrow> edge_context \<Rightarrow> execution_authorization \<Rightarrow> ('w, 's) edge_world
     \<Rightarrow> (edge_failure, edge_reply) result \<times> ('w, 's) edge_world" where
  "handle_hold E rq c a w =
     (case ee_encrypt E of
        None \<Rightarrow> (Inl (Edge_Refused (hold_unavailable rq)), w)
      | Some encrypt \<Rightarrow>
          (case urlparse (rx_url c) of
             Inl e \<Rightarrow> (Inl (Edge_Bad_Url e), w)
           | Inr (parsed, _) \<Rightarrow>
               (case edge_body E rq of
                  Inl e \<Rightarrow> (Inl e, w)
                | Inr body \<Rightarrow> file_edge_hold E rq c (edge_hold_request E rq c a encrypt parsed body) w)))"

section \<open>Idempotency at the edge\<close>

definition idempotency_conflict :: broker_error where
  "idempotency_conflict =
     init_error Idempotency_Conflict ''Idempotency-Key reused with a different request.'' (Some ''idempotency_conflict'')"

definition idempotency_in_progress :: "int \<Rightarrow> broker_error" where
  "idempotency_in_progress retry =
     (init_error Idempotency_In_Progress ''A request with this Idempotency-Key is still in progress; retry shortly.''
        (Some ''idempotency_in_progress''))\<lparr>be_headers := [(''Retry-After'', str_of_int retry)]\<rparr>"

definition call_fingerprint :: "('w, 's) edge_env \<Rightarrow> edge_request \<Rightarrow> edge_context \<Rightarrow> string option \<Rightarrow> string" where
  "call_fingerprint E rq c body =
     Idempotency.request_fingerprint (ee_sha E) (ee_hex E) (eq_method rq) (rx_url c) (text_or_empty (rx_credential_id c)) body"

text \<open>The claim of an idempotent call: \<open>Inr (Some r)\<close> is the stored response, \<open>Inr None\<close> a fresh call.\<close>

definition claim_call ::
  "('w, 's) edge_env \<Rightarrow> 's state_store \<Rightarrow> idem_config \<Rightarrow> string \<Rightarrow> string \<Rightarrow> ('w, 's) edge_world
     \<Rightarrow> (edge_failure, response option) result \<times> ('w, 's) edge_world" where
  "claim_call E st cfg key fp w =
     (case begin_call st cfg (ee_begin_at E) (ca_sub (ee_caller E)) key fp (gw_store w) of
        (Inl e, s) \<Rightarrow> (Inl (Edge_Begin e), w\<lparr>gw_store := s\<rparr>)
      | (Inr x, s) \<Rightarrow>
          (case io_state x of
             CONFLICT \<Rightarrow> Inl (Edge_Refused idempotency_conflict)
           | IN_PROGRESS \<Rightarrow> Inl (Edge_Refused (idempotency_in_progress (io_retry_after x)))
           | REPLAY \<Rightarrow> Inr (map_option replay_response (io_stored x))
           | FRESH \<Rightarrow> Inr None, w\<lparr>gw_store := s\<rparr>))"

definition run_buffered ::
  "('w, 's) edge_env \<Rightarrow> edge_request \<Rightarrow> edge_context \<Rightarrow> string option \<Rightarrow> execution_authorization \<Rightarrow> ('w, 's) edge_world
     \<Rightarrow> (edge_failure, response \<times> string) result \<times> ('w, 's) edge_world" where
  "run_buffered E rq c body a w =
     (let (r, w) = execute_buffered E rq c body a w in
      (map_sum id (\<lambda>(o1, c). (assemble_response o1 c, rr_body (xo_result o1))) r, w))"

definition run_idempotent ::
  "('w, 's) edge_env \<Rightarrow> edge_request \<Rightarrow> edge_context \<Rightarrow> string option \<Rightarrow> execution_authorization \<Rightarrow> 's state_store \<Rightarrow> idem_config
     \<Rightarrow> string \<Rightarrow> ('w, 's) edge_world \<Rightarrow> (edge_failure, edge_reply) result \<times> ('w, 's) edge_world" where
  "run_idempotent E rq c body a st cfg key w =
     (let fp = call_fingerprint E rq c body in
      case claim_call E st cfg key fp w of
        (Inl e, w) \<Rightarrow> (Inl e, w)
      | (Inr (Some r), w) \<Rightarrow> (Inr (Reply r), w)
      | (Inr None, w) \<Rightarrow>
          (case run_buffered E rq c body a w of
             (Inl e, w) \<Rightarrow> (Inl e, w)
           | (Inr (r, upstream_body), w) \<Rightarrow>
               (let (done, s) = complete_call st cfg (ee_complete_at E) (ca_sub (ee_caller E)) key fp (rsp_status r)
                      (header_dict (ee_added E) r) upstream_body (gw_store w) in
                (map_sum Edge_Complete (\<lambda>_. Reply r) done, w\<lparr>gw_store := s\<rparr>))))"

section \<open>The handler\<close>

text \<open>\<open>if idempotency is not None and idem_key\<close>.\<close>

definition idempotent_key :: "('w, 's) edge_env \<Rightarrow> edge_request \<Rightarrow> ('s state_store \<times> idem_config \<times> string) option" where
  "idempotent_key E rq =
     (case (ee_store E, dict_get (eq_headers rq) ''idempotency-key'') of
        (Some (st, cfg), Some (x # xs)) \<Rightarrow> Some (st, cfg, x # xs)
      | _ \<Rightarrow> None)"

definition dispatch_call ::
  "('w, 's) edge_env \<Rightarrow> edge_request \<Rightarrow> edge_context \<Rightarrow> execution_authorization \<Rightarrow> ('w, 's) edge_world
     \<Rightarrow> (edge_failure, edge_reply) result \<times> ('w, 's) edge_world" where
  "dispatch_call E rq c a w =
     (if ea_verdict a = ''require-approval'' then handle_hold E rq c a w
      else if should_async (ex_prefer c) then handle_async E rq c a w
      else if ee_passthrough E \<and> idempotent_key E rq = None \<and> ee_streams E then handle_streaming E rq c a w
      else case edge_body E rq of
        Inl e \<Rightarrow> (Inl e, w)
      | Inr body \<Rightarrow>
          (case idempotent_key E rq of
             Some (st, cfg, key) \<Rightarrow> run_idempotent E rq c body a st cfg key w
           | None \<Rightarrow> (let (r, w) = run_buffered E rq c body a w in (map_sum id (\<lambda>(r, _). Reply r) r, w))))"





section \<open>What is sent\<close>

abbreviation sent :: "('w, 's) edge_world \<Rightarrow> runner_request list" where
  "sent w \<equiv> xw_dispatched (gw_exec w)"










lemma edge_tx_frame: "edge_tx db evs w = (ok, w') \<Longrightarrow> sent w' = sent w"
  by (auto simp: edge_tx_def Let_def case_prod_unfold)

lemma hold_sends_nothing: "handle_hold E rq c a w = (r, w') \<Longrightarrow> sent w' = sent w"
  by (auto simp: handle_hold_def file_edge_hold_def Let_def dest: edge_tx_frame
      split: option.splits sum.splits prod.splits hold_error.splits bool.splits)









abbreviation call_context :: "('w, 's) edge_env \<Rightarrow> edge_request \<Rightarrow> string \<Rightarrow> resolve_result \<Rightarrow> edge_context" where
  "call_context E rq url r \<equiv> context_from_discovery url (eq_method rq) (ee_trace E) (ee_minted_trace E) (eq_headers rq) r"




section \<open>Held calls\<close>

lemma find_append_new: "find p xs = None \<Longrightarrow> p x \<Longrightarrow> find p (xs @ [x]) = Some x"
  by (induction xs) (auto split: if_splits)

text \<open>
  The two ways to hold a request: a new job and a new hold of this very request, or a hold that was pending before with the
  request's fingerprint, and nothing stored.
\<close>

definition files_new ::
  "(string \<Rightarrow> string) \<Rightarrow> hold_request \<Rightarrow> string \<Rightarrow> string \<Rightarrow> real \<Rightarrow> admin_db \<Rightarrow> hold_outcome \<Rightarrow> admin_db \<Rightarrow> bool" where
  "files_new hash r jid hid now db o1 db' =
     (pending_by_fingerprint (Held_Executions.request_fingerprint hash r) db = None \<and>
      db_jobs db' = db_jobs db @
        [new_job jid Kind_Execution Job_Held (hr_agent r) (hr_actor_type r) (Some (hr_execution_id r)) (hr_payload r) now] \<and>
      db_holds db' = db_holds db @ [new_hold r (Held_Executions.request_fingerprint hash r) hid jid (now + hr_ttl r)] \<and>
      o1 = \<lparr>ho_job_id = jid, ho_hold_id = hid, ho_expires_at = now + hr_ttl r, ho_execution_id = Some (hr_execution_id r),
        ho_joined = False\<rparr>)"

definition joins_pending :: "(string \<Rightarrow> string) \<Rightarrow> hold_request \<Rightarrow> admin_db \<Rightarrow> hold_outcome \<Rightarrow> admin_db \<Rightarrow> bool" where
  "joins_pending hash r db o1 db' =
     (db' = db \<and> (\<exists>h. pending_by_fingerprint (Held_Executions.request_fingerprint hash r) db = Some h \<and> o1 = joined_outcome h db))"

lemma file_hold_Inr:
  assumes "file_hold hash r jid hid now db = (Inr o1, db')"
  shows "files_new hash r jid hid now db o1 db' \<or> joins_pending hash r db o1 db'"
proof (cases "pending_by_fingerprint (Held_Executions.request_fingerprint hash r) db")
  case (Some h)
  then show ?thesis using assms by (auto simp: file_hold_def Let_def joins_pending_def)
next
  case None
  let ?fp = "Held_Executions.request_fingerprint hash r"
  let ?h = "new_hold r ?fp hid jid (now + hr_ttl r)"
  let ?j = "new_job jid Kind_Execution Job_Held (hr_agent r) (hr_actor_type r) (Some (hr_execution_id r)) (hr_payload r) now"
  from assms None obtain db1 where db: "insert_job ?j db = Some db1" "insert_hold ?h db1 = Some db'"
    "o1 = \<lparr>ho_job_id = jid, ho_hold_id = hid, ho_expires_at = now + hr_ttl r, ho_execution_id = Some (hr_execution_id r), ho_joined = False\<rparr>"
    by (auto simp: file_hold_def Let_def bind_eq_Some_conv split: option.splits if_splits)
  have "db1 = db\<lparr>db_jobs := db_jobs db @ [?j]\<rparr>" using db(1) by (simp add: insert_job_def split: if_splits)
  moreover have "db' = db1\<lparr>db_holds := db_holds db1 @ [?h]\<rparr>" using db(2) by (simp add: insert_hold_def split: if_splits)
  ultimately show ?thesis using None db(3) by (simp add: files_new_def)
qed

lemma filed_found:
  assumes "file_hold hash r jid hid now db = (Inr o1, db')"
  shows "\<exists>h. pending_by_fingerprint (Held_Executions.request_fingerprint hash r) db' = Some h \<and> hold_id h = ho_hold_id o1"
  using file_hold_Inr [OF assms]
proof
  assume "files_new hash r jid hid now db o1 db'"
  then have "pending_by_fingerprint (Held_Executions.request_fingerprint hash r) db' =
      Some (new_hold r (Held_Executions.request_fingerprint hash r) hid jid (now + hr_ttl r))" "ho_hold_id o1 = hid"
    unfolding files_new_def pending_by_fingerprint_def by (auto intro!: find_append_new simp: new_hold_def)
  then show ?thesis by (simp add: new_hold_def)
qed (auto simp: joins_pending_def joined_outcome_def)

lemma edge_tx_rows: "edge_tx db evs w = (True, w') \<Longrightarrow> gw_admin w' = db"
  by (auto simp: edge_tx_def write_tx_def Let_def split: if_splits list.splits tx_fate.splits)

abbreviation call_hash :: "('w, 's) edge_env \<Rightarrow> string \<Rightarrow> string" where
  "call_hash E \<equiv> (\<lambda>s. ee_hex E (ee_sha E s))"

lemma handle_hold_filed:
  assumes "handle_hold E rq c a w = (Inr reply, w')"
  shows "\<exists>encrypt parsed params body o1. ee_encrypt E = Some encrypt \<and> urlparse (rx_url c) = Inr (parsed, params) \<and>
    edge_body E rq = Inr body \<and> reply = held_reply E c o1 (review_url E rq (ho_hold_id o1)) \<and>
    file_hold (call_hash E) (edge_hold_request E rq c a encrypt parsed body) (ee_job_id E) (ee_hold_id E) (ee_now E) (gw_admin w) =
      (Inr o1, gw_admin w')"
proof -
  obtain encrypt parsed params body where e: "ee_encrypt E = Some encrypt" "urlparse (rx_url c) = Inr (parsed, params)"
    "edge_body E rq = Inr body" "file_edge_hold E rq c (edge_hold_request E rq c a encrypt parsed body) w = (Inr reply, w')"
    using assms by (auto simp: handle_hold_def split: option.splits sum.splits)
  let ?r = "edge_hold_request E rq c a encrypt parsed body"
  obtain q db where f: "file_hold (call_hash E) ?r (ee_job_id E) (ee_hold_id E) (ee_now E) (gw_admin w) = (q, db)" by fastforce
  then obtain o1 where o1: "q = Inr o1"
    using e(4) by (cases q) (auto simp: file_edge_hold_def split: hold_error.splits)
  let ?url = "review_url E rq (ho_hold_id o1)"
  obtain ok w1 where t: "edge_tx db (if ho_joined o1 then [] else [approval_requested E c ?r o1 ?url]) w = (ok, w1)" by fastforce
  then have "ok" "w1 = w'" "reply = held_reply E c o1 ?url"
    using e(4) by (auto simp: file_edge_hold_def f o1 Let_def split: bool.splits)
  moreover from this have "gw_admin w' = db" using edge_tx_rows [of db _ w w'] t by auto
  ultimately show ?thesis using f o1 e(1-3) by blast
qed

lemma handle_hold_Inr:
  assumes "handle_hold E rq c a w = (Inr reply, w')"
  shows "\<exists>encrypt parsed params body h o1. ee_encrypt E = Some encrypt \<and> urlparse (rx_url c) = Inr (parsed, params) \<and>
    edge_body E rq = Inr body \<and>
    pending_by_fingerprint (Held_Executions.request_fingerprint (call_hash E) (edge_hold_request E rq c a encrypt parsed body))
      (gw_admin w') = Some h \<and> ho_hold_id o1 = hold_id h \<and> reply = held_reply E c o1 (review_url E rq (hold_id h))"
  using handle_hold_filed [OF assms] filed_found by metis

text \<open>
  C29: a call that needs approval waits. When the rules answer require-approval, nothing is sent, whatever the caller prefers; an
  accepted reply is the 202 that names a pending hold with the fingerprint of this request, with its review page. Either the hold and its
  job were filed now, with this very request as the job's payload; or a hold with this fingerprint was pending before, and
  the call joined it, with nothing stored. A fingerprint does not tell hosts apart.
\<close>

theorem held_call_waits:
  assumes "dispatch_call E rq c a w = (r, w')" "ea_verdict a = ''require-approval''"
  shows "sent w' = sent w \<and>
    (case r of
       Inl _ \<Rightarrow> True
     | Inr reply \<Rightarrow>
         (\<exists>encrypt parsed params body h o1 q. ee_encrypt E = Some encrypt \<and> urlparse (rx_url c) = Inr (parsed, params) \<and>
            edge_body E rq = Inr body \<and> q = edge_hold_request E rq c a encrypt parsed body \<and>
            reply = held_reply E c o1 (review_url E rq (hold_id h)) \<and> ho_hold_id o1 = hold_id h \<and>
            pending_by_fingerprint (Held_Executions.request_fingerprint (call_hash E) q) (gw_admin w') = Some h \<and>
            (files_new (call_hash E) q (ee_job_id E) (ee_hold_id E) (ee_now E) (gw_admin w) o1 (gw_admin w') \<or>
             joins_pending (call_hash E) q (gw_admin w) o1 (gw_admin w'))))"
proof -
  have h: "handle_hold E rq c a w = (r, w')" using assms by (simp add: dispatch_call_def del: list.inject)
  show ?thesis
  proof (cases r)
    case (Inl e)
    then show ?thesis using hold_sends_nothing [OF h] by simp
  next
    case (Inr reply)
    from handle_hold_filed [OF h [unfolded Inr]] obtain encrypt parsed params body o1 where f: "ee_encrypt E = Some encrypt"
      "urlparse (rx_url c) = Inr (parsed, params)" "edge_body E rq = Inr body"
      "reply = held_reply E c o1 (review_url E rq (ho_hold_id o1))"
      "file_hold (call_hash E) (edge_hold_request E rq c a encrypt parsed body) (ee_job_id E) (ee_hold_id E) (ee_now E) (gw_admin w) =
        (Inr o1, gw_admin w')" by blast
    from filed_found [OF f(5)] obtain h where "pending_by_fingerprint (Held_Executions.request_fingerprint (call_hash E)
        (edge_hold_request E rq c a encrypt parsed body)) (gw_admin w') = Some h" "hold_id h = ho_hold_id o1" by blast
    then show ?thesis using hold_sends_nothing [OF h] f file_hold_Inr [OF f(5)] unfolding Inr sum.case by metis
  qed
qed

lemma host_only_differs:
  "\<exists>p q. urlparse ''https://sandbox.acme.com/v1/pay'' = Inr (p, []) \<and> urlparse ''https://live.acme.com/v1/pay'' = Inr (q, []) \<and>
     url_path p = url_path q \<and> url_query p = url_query q"
proof -
  have parsed: "urlparse ''https://sandbox.acme.com/v1/pay'' =
      Inr (\<lparr>url_scheme = ''https'', url_netloc = ''sandbox.acme.com'', url_path = ''/v1/pay'', url_query = [], url_fragment = []\<rparr>, [])"
    "urlparse ''https://live.acme.com/v1/pay'' =
      Inr (\<lparr>url_scheme = ''https'', url_netloc = ''live.acme.com'', url_path = ''/v1/pay'', url_query = [], url_fragment = []\<rparr>, [])"
    by code_simp+
  show ?thesis by (intro exI conjI) (rule parsed(1), rule parsed(2), simp_all)
qed

lemma same_fingerprint:
  "url_path p = url_path q \<Longrightarrow> url_query p = url_query q \<Longrightarrow>
   Held_Executions.request_fingerprint hash (edge_hold_request E rq (c\<lparr>rx_url := u\<rparr>) a encrypt p body) =
   Held_Executions.request_fingerprint hash (edge_hold_request E rq (c\<lparr>rx_url := u'\<rparr>) a encrypt q body)"
  by (simp add: Held_Executions.request_fingerprint_def edge_hold_request_def)

text \<open>
  C37: a hold does not tell hosts apart. The fingerprint that a join matches on has the path and the query of the URL, not its host: once a
  call to one host of an API is held, the same call to another host joins that hold. It answers 202 held, nothing is stored of it, and
  an approval runs the first host's call.
\<close>

theorem hold_joins_other_host:
  assumes "handle_hold E rq (c\<lparr>rx_url := ''https://sandbox.acme.com/v1/pay''\<rparr>) a w = (Inr r, w1)"
    and "handle_hold E rq (c\<lparr>rx_url := ''https://live.acme.com/v1/pay''\<rparr>) a w1 = (Inr r', w2)"
  shows "gw_admin w2 = gw_admin w1 \<and> sent w2 = sent w \<and>
    (\<exists>i h h'. r = held_reply E (c\<lparr>rx_url := ''https://sandbox.acme.com/v1/pay''\<rparr>) h (review_url E rq i) \<and> ho_hold_id h = i \<and>
       r' = held_reply E (c\<lparr>rx_url := ''https://live.acme.com/v1/pay''\<rparr>) h' (review_url E rq i) \<and> ho_hold_id h' = i \<and> ho_joined h')"
proof -
  let ?c = "c\<lparr>rx_url := ''https://sandbox.acme.com/v1/pay''\<rparr>" and ?d = "c\<lparr>rx_url := ''https://live.acme.com/v1/pay''\<rparr>"
  obtain p q where u: "urlparse (rx_url ?c) = Inr (p, [])" "urlparse (rx_url ?d) = Inr (q, [])"
    "url_path p = url_path q" "url_query p = url_query q" using host_only_differs by auto
  from handle_hold_Inr [OF assms(1)] u(1) obtain encrypt body h h0 where e: "ee_encrypt E = Some encrypt" "edge_body E rq = Inr body"
    "pending_by_fingerprint (Held_Executions.request_fingerprint (call_hash E) (edge_hold_request E rq ?c a encrypt p body)) (gw_admin w1) = Some h"
    "ho_hold_id h0 = hold_id h" "r = held_reply E ?c h0 (review_url E rq (hold_id h))" by auto
  let ?o = "joined_outcome h (gw_admin w1)" and ?r = "edge_hold_request E rq ?d a encrypt q body"
  have "Held_Executions.request_fingerprint (call_hash E) ?r =
      Held_Executions.request_fingerprint (call_hash E) (edge_hold_request E rq ?c a encrypt p body)"
    by (rule same_fingerprint [symmetric, OF u(3,4)])
  with e(3) have g: "pending_by_fingerprint (Held_Executions.request_fingerprint (call_hash E) ?r) (gw_admin w1) = Some h" by metis
  have f: "file_hold (call_hash E) ?r (ee_job_id E) (ee_hold_id E) (ee_now E) (gw_admin w1) = (Inr ?o, gw_admin w1)"
    unfolding file_hold_def Let_def g by simp
  have o: "ho_joined ?o" "ho_hold_id ?o = hold_id h" by (simp_all add: joined_outcome_def)
  have "file_edge_hold E rq ?d ?r w1 = (Inr r', w2)" using assms(2) by (simp add: handle_hold_def e(1,2) u(2) [simplified])
  then have "edge_tx (gw_admin w1) [] w1 = (True, w2)" "r' = held_reply E ?d ?o (review_url E rq (hold_id h))"
    by (auto simp: file_edge_hold_def f o Let_def split: prod.splits bool.splits)
  then show ?thesis
    using edge_tx_rows [of "gw_admin w1" "[]" w1 w2] hold_sends_nothing [OF assms(1)] hold_sends_nothing [OF assms(2)] e(4,5) o
    by (intro conjI exI [of _ "hold_id h"] exI [of _ h0] exI [of _ ?o]) simp_all
qed

section \<open>A small deployment\<close>

definition demo_resolved :: resolve_result where
  "demo_resolved =
     \<lparr>rv_operation = \<lparr>oi_id = ''op'', oi_path = Some ''/x'', oi_method = Some ''GET'', oi_relative_path = Some ''/x''\<rparr>,
      rv_api = \<lparr>api_vendor = ''acme'', api_name = ''pay'', api_version = ''1''\<rparr>, rv_server_variables = [],
      rv_server_variable_defaults = [], rv_variables_unresolved = False\<rparr>"

definition demo_proxy :: "(unit, unit) edge_env" where
  "demo_proxy =
     \<lparr>ee_egress = \<lparr>allowed_private_subnets = [], allowed_internal_domains = []\<rparr>, ee_resolve = (\<lambda>_ _. None), ee_refusal = (\<lambda>_. []),
      ee_resolver = \<lparr>rl_operation = (\<lambda>_ _ _. Inr (Some demo_resolved)), rl_pin = (\<lambda>_ _ _ _. (Pin_Unknown, None))\<rparr>,
      ee_repr = (\<lambda>s. s), ee_hook = None,
      ee_caller = \<lparr>ca_sub = ''a'', ca_type = ''agent'', ca_origin = ''mcp'', ca_name = None\<rparr>, ee_auth = demo_env,
      ee_injector = sample_injector, ee_broker = default_broker (refusing_runner 200), ee_streams = False,
      ee_stream = demo_stream None [], ee_persist_wait = Slot_Acquired, ee_detect = no_detector, ee_store = None,
      ee_begin_at = (0, 0, 0, 0), ee_complete_at = (0, 0, 0, 0), ee_sha = (\<lambda>s. s), ee_hex = (\<lambda>s. s),
      ee_encrypt = Some (\<lambda>s. CHR ''!'' # s), ee_agent_name = (\<lambda>_. None), ee_added = (\<lambda>_. []),
      ee_limits = \<lparr>bl_max = 100, bl_by_type = []\<rparr>, ee_timeout = 30, ee_passthrough = False, ee_hold_ttl = 60, ee_max_pending = 2,
      ee_jobs_base = None, ee_public_base = Some ''https://jentic.acme/'', ee_trace = None,
      ee_minted_trace = replicate 32 (CHR ''a''), ee_execution_id = ''exec_1'', ee_job_id = ''job_1'', ee_hold_id = ''held_1'',
      ee_started = 1, ee_now = 2, ee_iso = (\<lambda>_. ''now'')\<rparr>"

definition demo_get :: edge_request where
  "demo_get =
     \<lparr>eq_method = ''GET'', eq_headers = [(''accept'', ''*/*''), (''authorization'', ''Bearer agent'')],
      eq_raw_path = Some ''/https://api.acme.com/v1/x'', eq_scope_path = ''/https://api.acme.com/v1/x'', eq_query = [],
      eq_url_path = ''/https://api.acme.com/v1/x'', eq_base_url = ''https://broker.acme/'', eq_body = [], eq_cut = False\<rparr>"

definition demo_edge_world :: "(unit, unit) edge_world" where
  "demo_edge_world =
     \<lparr>gw_exec = fresh_world (), gw_admin = \<lparr>db_jobs = [], db_holds = [], db_results = [], db_records = [], db_events = []\<rparr>,
      gw_store = ()\<rparr>"

definition demo_selected :: resolved where
  "demo_selected =
     \<lparr>rc_credential_id = ''c'', rc_wire_type = BEARER_TOKEN, rc_encrypted_secret = Some ''enc'', rc_location = None,
      rc_field_name = None, rc_username = None, rc_encrypted_password = None, rc_encrypted_secret_access_key = None,
      rc_aws_region = None, rc_aws_service = None, rc_encrypted_session_token = None, rc_access_key_id = None, rs_name = ''main'',
      rs_created_by = None, rs_stored_type = ST_STATIC_BEARER_TOKEN, rs_provider = ''static'', rs_server_variables = None,
      rs_encrypted_access_token = None, rs_encrypted_refresh_token = None, rs_token_expires_at = None, rs_account_ref = None\<rparr>"

definition demo_authorization :: "string \<Rightarrow> execution_authorization" where
  "demo_authorization verdict = \<lparr>ea_allowed_ids = [''c''], ea_selected = demo_selected, ea_verdict = verdict, ea_matched_rule = None\<rparr>"

definition demo_dispatched :: edge_context where
  "demo_dispatched =
     (call_context demo_proxy demo_get ''https://api.acme.com/v1/x'' demo_resolved)
       \<lparr>rx_pinned_revisions := None, ex_has_server_variable := False, rx_credential_id := Some ''c'', rx_credential_name := Some ''main''\<rparr>"






lemma demo_body: "edge_body demo_proxy demo_get = Inr None"
  by code_simp



text \<open>The same call to two hosts, both to be approved.\<close>

lemma edge_tx_commits: "xw_fates (gw_exec w) = [] \<Longrightarrow> \<exists>w'. edge_tx db evs w = (True, w') \<and> xw_fates (gw_exec w') = []"
  by (simp add: edge_tx_def write_tx_def Let_def)

lemma handle_hold_accepts:
  assumes "ee_encrypt E = Some encrypt" "urlparse (rx_url c) = Inr (parsed, params)" "edge_body E rq = Inr body"
    "xw_fates (gw_exec w) = []"
    "pending_by_fingerprint (Held_Executions.request_fingerprint (call_hash E) (edge_hold_request E rq c a encrypt parsed body)) (gw_admin w) \<noteq> None \<or>
     db_jobs (gw_admin w) = [] \<and> db_holds (gw_admin w) = [] \<and> 0 < ee_max_pending E"
  shows "\<exists>reply w'. handle_hold E rq c a w = (Inr reply, w') \<and> xw_fates (gw_exec w') = []"
proof -
  let ?r = "edge_hold_request E rq c a encrypt parsed body"
  have "hr_max_pending ?r = ee_max_pending E" by (simp add: edge_hold_request_def)
  then obtain o1 db where f: "file_hold (call_hash E) ?r (ee_job_id E) (ee_hold_id E) (ee_now E) (gw_admin w) = (Inr o1, db)"
    using assms(5) by (auto simp: file_hold_def Let_def insert_job_def insert_hold_def find_job_def pending_by_fingerprint_def
        count_pending_by_agent_def)
  obtain w1 where t: "edge_tx db (if ho_joined o1 then [] else [approval_requested E c ?r o1 (review_url E rq (ho_hold_id o1))]) w = (True, w1)"
    "xw_fates (gw_exec w1) = []" using edge_tx_commits [OF assms(4)] by blast
  have "handle_hold E rq c a w = (Inr (held_reply E c o1 (review_url E rq (ho_hold_id o1))), w1)"
    by (simp add: handle_hold_def assms(1-3) file_edge_hold_def f Let_def t)
  with t(2) show ?thesis by blast
qed

lemma demo_held:
  "\<exists>r w r' u. handle_hold demo_proxy demo_get (demo_dispatched\<lparr>rx_url := ''https://sandbox.acme.com/v1/pay''\<rparr>)
     (demo_authorization ''require-approval'') demo_edge_world = (Inr r, w) \<and>
   handle_hold demo_proxy demo_get (demo_dispatched\<lparr>rx_url := ''https://live.acme.com/v1/pay''\<rparr>)
     (demo_authorization ''require-approval'') w = (Inr r', u)"
proof -
  let ?c = "demo_dispatched\<lparr>rx_url := ''https://sandbox.acme.com/v1/pay''\<rparr>" and ?a = "demo_authorization ''require-approval''"
    and ?d = "demo_dispatched\<lparr>rx_url := ''https://live.acme.com/v1/pay''\<rparr>" and ?E = "demo_proxy" and ?w = demo_edge_world
  let ?fp = "\<lambda>c p. Held_Executions.request_fingerprint (call_hash ?E) (edge_hold_request ?E demo_get c ?a (\<lambda>s. CHR ''!'' # s) p None)"
  obtain p q where u: "urlparse (rx_url ?c) = Inr (p, [])" "urlparse (rx_url ?d) = Inr (q, [])"
    "url_path p = url_path q" "url_query p = url_query q" using host_only_differs by auto
  have e: "ee_encrypt ?E = Some (\<lambda>s. CHR ''!'' # s)" "0 < ee_max_pending ?E" "xw_fates (gw_exec ?w) = []"
    "db_jobs (gw_admin ?w) = []" "db_holds (gw_admin ?w) = []"
    by (simp_all add: demo_proxy_def demo_edge_world_def fresh_world_def)
  from handle_hold_accepts [OF e(1) u(1) demo_body e(3) disjI2, of ?a] e(2,4,5) obtain r w where
    r: "handle_hold ?E demo_get ?c ?a ?w = (Inr r, w)" "xw_fates (gw_exec w) = []" by blast
  from handle_hold_Inr [OF r(1)] have "pending_by_fingerprint (?fp ?c p) (gw_admin w) \<noteq> None"
    unfolding e(1) u(1) demo_body by auto
  also have "?fp ?c p = ?fp ?d q" by (rule same_fingerprint [OF u(3,4)])
  finally have "pending_by_fingerprint (?fp ?d q) (gw_admin w) \<noteq> None" .
  from handle_hold_accepts [OF e(1) u(2) demo_body r(2) disjI1 [OF this]] r(1) show ?thesis by blast
qed

lemma held_call_waits_witness:
  "\<exists>reply w h. handle_hold demo_proxy demo_get (demo_dispatched\<lparr>rx_url := ''https://sandbox.acme.com/v1/pay''\<rparr>)
     (demo_authorization ''require-approval'') demo_edge_world = (Inr reply, w) \<and> sent w = [] \<and> h \<in> set (db_holds (gw_admin w)) \<and>
     hold_state h = Hold_Pending"
proof -
  let ?c = "demo_dispatched\<lparr>rx_url := ''https://sandbox.acme.com/v1/pay''\<rparr>" and ?a = "demo_authorization ''require-approval''"
  obtain reply w where h: "handle_hold demo_proxy demo_get ?c ?a demo_edge_world = (Inr reply, w)"
    using demo_held by blast
  have v: "ea_verdict ?a = ''require-approval''" by (simp add: demo_authorization_def)
  have "dispatch_call demo_proxy demo_get ?c ?a demo_edge_world = (Inr reply, w)" by (simp only: dispatch_call_def v h if_True simp_thms)
  from held_call_waits [OF this v] obtain k h where "sent w = sent demo_edge_world" "pending_by_fingerprint k (gw_admin w) = Some h"
    by auto
  then have "sent w = []" "h \<in> set (db_holds (gw_admin w)) \<and> hold_state h = Hold_Pending"
    by (auto simp: demo_edge_world_def fresh_world_def pending_by_fingerprint_def find_Some_iff)
  with h show ?thesis by blast
qed

lemma hold_joins_other_host_witness:
  "\<exists>w i h u. handle_hold demo_proxy demo_get (demo_dispatched\<lparr>rx_url := ''https://live.acme.com/v1/pay''\<rparr>)
     (demo_authorization ''require-approval'') w = (Inr (held_reply demo_proxy
       (demo_dispatched\<lparr>rx_url := ''https://live.acme.com/v1/pay''\<rparr>) h (review_url demo_proxy demo_get i)), u) \<and>
     ho_joined h \<and> gw_admin u = gw_admin w \<and> sent u = []"
proof -
  let ?c = "demo_dispatched\<lparr>rx_url := ''https://sandbox.acme.com/v1/pay''\<rparr>" and ?a = "demo_authorization ''require-approval''"
    and ?d = "demo_dispatched\<lparr>rx_url := ''https://live.acme.com/v1/pay''\<rparr>"
  obtain r w r' u where h: "handle_hold demo_proxy demo_get ?c ?a demo_edge_world = (Inr r, w)"
    "handle_hold demo_proxy demo_get ?d ?a w = (Inr r', u)"
    using demo_held by blast
  have "sent demo_edge_world = []" by (simp add: demo_edge_world_def fresh_world_def)
  with hold_joins_other_host [OF h] h(2) show ?thesis by metis
qed

end
