(* ===== verification/Url_Templates.thy ===== *)
theory Url_Templates
  imports Url_Path Py_Int
begin

text \<open>
  Path templates of \<open>registry/core/url_index.py\<close>: the tokens in braces, the canonical form of a template,
  the group names of its parameters, the regular expression that recognises its instances, and the
  reconstruction of a path from what the expression captured. The expressions that the module writes are sequences of
  five kinds of piece, so an expression is the list of its pieces, and \<open>rx_match\<close> is the backtracking
  search of Python's \<open>re.fullmatch\<close> on them, captures included.
\<close>

section \<open>Tokens\<close>

text \<open>\<open>PATH_PARAM_RE.split\<close>: chunks and tokens in turn, a chunk first and last.\<close>

datatype tpart = Chunk string | Token string

definition token_at :: "string \<Rightarrow> (string \<times> string) option" where
  "token_at s =
     (case s of
        [] \<Rightarrow> None
      | c # rest \<Rightarrow>
          let name = takeWhile (\<lambda>d. d \<noteq> CHR ''}'') rest in
          if c = CHR ''{'' \<and> name \<noteq> [] \<and> CHR ''}'' \<in> set rest
          then Some (name, drop (length name + 1) rest) else None)"

lemma takeWhile_first:
  "c \<in> set s \<Longrightarrow> s = takeWhile (\<lambda>d. d \<noteq> c) s @ c # drop (length (takeWhile (\<lambda>d. d \<noteq> c) s) + 1) s"
  by (induction s) auto

lemma token_at_Some:
  "token_at s = Some (t, r) \<longleftrightarrow> s = CHR ''{'' # t @ CHR ''}'' # r \<and> t \<noteq> [] \<and> CHR ''}'' \<notin> set t"
proof
  assume t: "token_at s = Some (t, r)"
  then obtain rest where s: "s = CHR ''{'' # rest" "t = takeWhile (\<lambda>d. d \<noteq> CHR ''}'') rest" "t \<noteq> []"
    "CHR ''}'' \<in> set rest" "r = drop (length t + 1) rest"
    by (auto simp: token_at_def Let_def split: list.splits if_splits)
  have rest: "rest = t @ CHR ''}'' # r"
    using takeWhile_first [OF s(4), folded s(2), folded s(5)] .
  have "CHR ''}'' \<notin> set t" unfolding s(2) by (blast dest: set_takeWhileD)
  then show "s = CHR ''{'' # t @ CHR ''}'' # r \<and> t \<noteq> [] \<and> CHR ''}'' \<notin> set t"
    using s(3) by (simp only: s(1) rest simp_thms)
next
  assume s: "s = CHR ''{'' # t @ CHR ''}'' # r \<and> t \<noteq> [] \<and> CHR ''}'' \<notin> set t"
  then have "takeWhile (\<lambda>d. d \<noteq> CHR ''}'') (t @ CHR ''}'' # r) = t" by (subst takeWhile_append2) auto
  with s show "token_at s = Some (t, r)" by (auto simp: token_at_def)
qed

lemma token_at_shorter: "token_at s = Some (t, r) \<Longrightarrow> length r < length s"
  by (auto simp: token_at_Some)

fun push_chunk :: "char \<Rightarrow> tpart list \<Rightarrow> tpart list" where
  "push_chunk c (Chunk l # ps) = Chunk (c # l) # ps"
| "push_chunk c ps = Chunk [c] # ps"

function split_tokens :: "string \<Rightarrow> tpart list" where
  "split_tokens [] = [Chunk []]"
| "split_tokens (c # s) =
     (case token_at (c # s) of
        Some (t, r) \<Rightarrow> Chunk [] # Token t # split_tokens r
      | None \<Rightarrow> push_chunk c (split_tokens s))"
  by pat_completeness auto
termination
  by (relation "measure length") (auto dest: token_at_shorter)

fun part_tokens :: "tpart list \<Rightarrow> string list" where
  "part_tokens [] = []"
| "part_tokens (Token t # ps) = t # part_tokens ps"
| "part_tokens (Chunk l # ps) = part_tokens ps"

definition template_tokens :: "string \<Rightarrow> string list" where
  "template_tokens template = part_tokens (split_tokens template)"

fun part_text :: "tpart \<Rightarrow> string" where
  "part_text (Chunk l) = l"
| "part_text (Token t) = CHR ''{'' # t @ [CHR ''}'']"

section \<open>The canonical form of a template\<close>

function str_replace :: "string \<Rightarrow> string \<Rightarrow> string \<Rightarrow> string" where
  "str_replace w v [] = []"
| "str_replace w v (c # s) =
     (if prefix w (c # s) \<and> w \<noteq> [] then v @ str_replace w v (drop (length w) (c # s)) else c # str_replace w v s)"
  by pat_completeness auto
termination
  by (relation "measure (\<lambda>(w, v, s). length s)") auto

fun occurs :: "string \<Rightarrow> string \<Rightarrow> bool" where
  "occurs w [] = (w = [])"
| "occurs w (c # s) = (prefix w (c # s) \<or> occurs w s)"

definition sentinel :: "nat \<Rightarrow> string" where
  "sentinel i = CHR 0x00 # str_of_nat i @ [CHR 0x00]"

fun shielded :: "nat \<Rightarrow> tpart list \<Rightarrow> string" where
  "shielded i [] = []"
| "shielded i (Chunk l # ps) = l @ shielded i ps"
| "shielded i (Token t # ps) = sentinel i @ shielded (Suc i) ps"

fun unshielded :: "nat \<Rightarrow> string list \<Rightarrow> string \<Rightarrow> string" where
  "unshielded i [] s = s"
| "unshielded i (t # ts) s = unshielded (Suc i) ts (str_replace (sentinel i) (CHR ''{'' # t @ [CHR ''}'']) s)"

definition normalize_path_template :: "string \<Rightarrow> string" where
  "normalize_path_template template =
     (let parts = split_tokens template in
      unshielded 0 (part_tokens parts) (normalize_path (shielded 0 parts)))"

section \<open>Parameter names and their groups\<close>

definition rfc6570_operators :: "char list" where "rfc6570_operators = ''+#./;?&''"

text \<open>The name of a token, and whether it is a catch-all.\<close>

definition split_param_token :: "string \<Rightarrow> string \<times> bool" where
  "split_param_token token =
     (let catch_all = prefix ''+'' token in
      if token \<noteq> [] \<and> hd token \<in> set rfc6570_operators then (tl token, catch_all) else (token, catch_all))"

definition word_char :: "char \<Rightarrow> bool" where
  "word_char c = (let n = char_code c in
     (48 \<le> n \<and> n \<le> 57) \<or> (65 \<le> n \<and> n \<le> 90) \<or> (97 \<le> n \<and> n \<le> 122) \<or> n = 95)"

definition safe_param_name :: "string \<Rightarrow> string" where
  "safe_param_name name = map (\<lambda>c. if word_char c then c else CHR ''_'') name"

definition sv_token_prefix :: string where "sv_token_prefix = ''~sv''"

definition suffixed :: "string \<Rightarrow> nat \<Rightarrow> string" where
  "suffixed base n = base @ ''__'' @ str_of_nat n"

lemma str_of_nat_inj: "str_of_nat m = str_of_nat n \<longleftrightarrow> m = n"
  by (metis parse_digits_str_of_nat option.inject)

lemma suffixed_inj [simp]: "suffixed base m = suffixed base n \<longleftrightarrow> m = n"
  by (simp add: suffixed_def str_of_nat_inj)

text \<open>The loop \<open>while group in taken\<close>: it ends, because the numbered groups are pairwise different.\<close>

function first_free :: "string \<Rightarrow> string list \<Rightarrow> nat \<Rightarrow> string" where
  "first_free base taken n =
     (if suffixed base n \<in> set taken then first_free base taken (Suc n) else suffixed base n)"
  by pat_completeness auto
termination
proof (relation "measure (\<lambda>(base, taken, n). card {g \<in> set taken. \<exists>k\<ge>n. g = suffixed base k})", simp, clarsimp)
  fix base taken and n :: nat
  assume n: "suffixed base n \<in> set taken"
  have "{g \<in> set taken. \<exists>k\<ge>Suc n. g = suffixed base k} \<subset> {g \<in> set taken. \<exists>k\<ge>n. g = suffixed base k}"
  proof
    show "{g \<in> set taken. \<exists>k\<ge>Suc n. g = suffixed base k} \<subseteq> {g \<in> set taken. \<exists>k\<ge>n. g = suffixed base k}"
      using Suc_leD by blast
    have "suffixed base n \<in> {g \<in> set taken. \<exists>k\<ge>n. g = suffixed base k}" using n by blast
    moreover have "suffixed base n \<notin> {g \<in> set taken. \<exists>k\<ge>Suc n. g = suffixed base k}" by auto
    ultimately show "{g \<in> set taken. \<exists>k\<ge>Suc n. g = suffixed base k} \<noteq> {g \<in> set taken. \<exists>k\<ge>n. g = suffixed base k}" by metis
  qed
  then show "card {g \<in> set taken. \<exists>k\<ge>Suc n. g = suffixed base k} < card {g \<in> set taken. \<exists>k\<ge>n. g = suffixed base k}"
    by (intro psubset_card_mono) auto
qed

declare first_free.simps [simp del]

definition free_group :: "string \<Rightarrow> string list \<Rightarrow> string" where
  "free_group base taken = (if base \<in> set taken then first_free base taken 2 else base)"

text \<open>One token of the scan of \<open>path_param_group_names\<close>; \<open>taken\<close> is the set of the dictionary's values.\<close>

definition add_group :: "string \<Rightarrow> (string, string) dict \<Rightarrow> (string, string) dict" where
  "add_group token groups =
     (if prefix sv_token_prefix token then groups
      else (let name = fst (split_param_token token) in
            if dict_get groups name \<noteq> None then groups
            else dict_set name (free_group (safe_param_name name) (map snd groups)) groups))"

definition path_param_group_names :: "string list \<Rightarrow> (string, string) dict" where
  "path_param_group_names templates = fold add_group (concat (map template_tokens templates)) []"

definition add_catch_all :: "string \<Rightarrow> (string, bool) dict \<Rightarrow> (string, bool) dict" where
  "add_catch_all token all =
     (if prefix sv_token_prefix token then all
      else (let (name, catch_all) = split_param_token token in
            dict_set name ((case dict_get all name of None \<Rightarrow> True | Some b \<Rightarrow> b) \<and> catch_all) all))"

definition path_param_catch_all :: "string list \<Rightarrow> (string, bool) dict" where
  "path_param_catch_all templates = fold add_catch_all (concat (map template_tokens templates)) []"

definition extract_param_names :: "string \<Rightarrow> string list" where
  "extract_param_names template = map (\<lambda>t. fst (split_param_token t)) (template_tokens template)"

definition reconcile_declared_path_params :: "string \<Rightarrow> string list \<Rightarrow> string list" where
  "reconcile_declared_path_params template declared =
     filter (\<lambda>n. n \<in> set (extract_param_names template)) declared"

text \<open>Segments of a path; \<open>-1\<close> for a catch-all.\<close>

definition count_segments :: "string \<Rightarrow> int" where
  "count_segments path =
     (if occurs ''**'' path \<or> occurs ''{+'' path then -1
      else (let stripped = rstrip_char (CHR ''/'') (lstrip_char (CHR ''/'') path) in
            if stripped = [] then 0 else int (length (split_on (CHR ''/'') stripped))))"

section \<open>Regular expressions\<close>

text \<open>
  What a group or an unnamed position may hold: \<open>[^/]+\<close>, \<open>.+\<close>, \<open>[^:/]+\<close>, or one escaped value. A piece is escaped
  text, a named group, a back-reference, an unnamed position, or an empty group.
\<close>

datatype matcher = One_Segment | Whole_Rest | One_Label | Exactly string

datatype piece = Verbatim string | Group string matcher | Again string | Position matcher | Pinned string

type_synonym captures = "(string, string) dict"

fun fits_class :: "matcher \<Rightarrow> char \<Rightarrow> bool" where
  "fits_class One_Segment c = (c \<noteq> CHR ''/'')"
| "fits_class Whole_Rest c = (c \<noteq> CHR 0x0A)"
| "fits_class One_Label c = (c \<noteq> CHR ''/'' \<and> c \<noteq> CHR '':'')"
| "fits_class (Exactly w) c = False"

text \<open>Text against text, with \<open>re.IGNORECASE\<close> or without.\<close>

definition agrees :: "bool \<Rightarrow> string \<Rightarrow> string \<Rightarrow> bool" where
  "agrees ic v w = (if ic then str_lower v = str_lower w else v = w)"

definition starts :: "bool \<Rightarrow> string \<Rightarrow> string \<Rightarrow> bool" where
  "starts ic w s = (length w \<le> length s \<and> agrees ic w (take (length w) s))"

text \<open>Greedy: the longest span first, then shorter ones, never an empty one.\<close>

primrec longest :: "nat \<Rightarrow> (nat \<Rightarrow> 'a option) \<Rightarrow> 'a option" where
  "longest 0 f = None"
| "longest (Suc n) f = (case f (Suc n) of None \<Rightarrow> longest n f | Some r \<Rightarrow> Some r)"

definition match_value ::
  "bool \<Rightarrow> matcher \<Rightarrow> string \<Rightarrow> (string \<Rightarrow> string \<Rightarrow> 'a option) \<Rightarrow> 'a option" where
  "match_value ic m s k =
     (case m of
        Exactly w \<Rightarrow> if starts ic w s then k (take (length w) s) (drop (length w) s) else None
      | _ \<Rightarrow> longest (length (takeWhile (fits_class m) s)) (\<lambda>n. k (take n s) (drop n s)))"

primrec rx_match :: "bool \<Rightarrow> piece list \<Rightarrow> captures \<Rightarrow> string \<Rightarrow> captures option" where
  "rx_match ic [] = (\<lambda>caps s. if s = [] then Some caps else None)"
| "rx_match ic (p # ps) = (\<lambda>caps s.
     case p of
       Verbatim w \<Rightarrow> if starts ic w s then rx_match ic ps caps (drop (length w) s) else None
     | Group g m \<Rightarrow> match_value ic m s (\<lambda>v r. rx_match ic ps (caps @ [(g, v)]) r)
     | Again g \<Rightarrow> (case dict_get caps g of None \<Rightarrow> None
                  | Some w \<Rightarrow> if starts ic w s then rx_match ic ps caps (drop (length w) s) else None)
     | Position m \<Rightarrow> match_value ic m s (\<lambda>v r. rx_match ic ps caps r)
     | Pinned g \<Rightarrow> rx_match ic ps (caps @ [(g, [])]) s)"

text \<open>\<open>re.fullmatch(\<dots>).groupdict()\<close>.\<close>

definition fullmatch :: "bool \<Rightarrow> piece list \<Rightarrow> string \<Rightarrow> captures option" where
  "fullmatch ic ps s = rx_match ic ps [] s"

text \<open>
  \<open>re.compile\<close> refuses a group name that is no identifier, and the second group of a name.
\<close>

fun piece_groups :: "piece list \<Rightarrow> string list" where
  "piece_groups [] = []"
| "piece_groups (Group g m # ps) = g # piece_groups ps"
| "piece_groups (Pinned g # ps) = g # piece_groups ps"
| "piece_groups (p # ps) = piece_groups ps"

definition group_ident :: "string \<Rightarrow> bool" where
  "group_ident g = (list_all word_char g \<and> (case g of [] \<Rightarrow> False | c # _ \<Rightarrow> char_digit c = None))"

datatype regex_error = Bad_Group_Name string | Group_Redefined

definition compile_regex :: "piece list \<Rightarrow> (regex_error, piece list) result" where
  "compile_regex ps =
     (case find (\<lambda>g. \<not> group_ident g) (piece_groups ps) of
        Some g \<Rightarrow> Inl (Bad_Group_Name g)
      | None \<Rightarrow> if distinct (piece_groups ps) then Inr ps else Inl Group_Redefined)"

section \<open>The expression of a template, and its inverse\<close>

text \<open>\<open>_path_param_group\<close>: the piece of one token, with the groups seen so far.\<close>

definition path_param_group ::
  "string \<Rightarrow> (string, string) dict \<Rightarrow> string list \<Rightarrow> (string, bool) dict \<Rightarrow> piece \<times> string list" where
  "path_param_group token names seen all =
     (let (name, own) = split_param_token token;
          catch_all = (case dict_get all name of None \<Rightarrow> own | Some b \<Rightarrow> b);
          body = (if catch_all then Whole_Rest else One_Segment) in
      case dict_get names name of
        None \<Rightarrow> (Position body, seen)
      | Some g \<Rightarrow> if g \<in> set seen then (Again g, seen) else (Group g body, g # seen))"

fun param_pieces :: "(string, string) dict \<Rightarrow> (string, bool) dict \<Rightarrow> string list \<Rightarrow> tpart list \<Rightarrow> piece list" where
  "param_pieces names all seen [] = []"
| "param_pieces names all seen (Chunk l # ps) = Verbatim l # param_pieces names all seen ps"
| "param_pieces names all seen (Token t # ps) =
     (let (p, seen') = path_param_group t names seen all in p # param_pieces names all seen' ps)"

definition build_path_regex :: "string \<Rightarrow> string option \<Rightarrow> (regex_error, piece list) result" where
  "build_path_regex template operation_path =
     (let templates = (case operation_path of None \<Rightarrow> [] | Some op \<Rightarrow> [op]) @ [template];
          names = path_param_group_names templates; all = path_param_catch_all templates in
      compile_regex (param_pieces names all [] (split_tokens template)))"

fun fill_params :: "(string, string) dict \<Rightarrow> captures \<Rightarrow> tpart list \<Rightarrow> string option" where
  "fill_params names params [] = Some []"
| "fill_params names params (Chunk l # ps) = map_option (\<lambda>s. l @ s) (fill_params names params ps)"
| "fill_params names params (Token t # ps) =
     (case dict_get names (fst (split_param_token t)) of
        None \<Rightarrow> None
      | Some g \<Rightarrow> (case dict_get params g of None \<Rightarrow> None
          | Some v \<Rightarrow> map_option (\<lambda>s. v @ s) (fill_params names params ps)))"

definition expand_path_template :: "string \<Rightarrow> captures \<Rightarrow> string option" where
  "expand_path_template template params =
     (let normalized = normalize_path_template template in
      map_option (\<lambda>s. if s = [] then ''/'' else s)
        (fill_params (path_param_group_names [normalized]) params (split_tokens normalized)))"

text \<open>\<open>structural_regex\<close>: the expression without names; two texts are equal when their pieces are.\<close>

fun structural_piece :: "tpart \<Rightarrow> piece" where
  "structural_piece (Chunk l) = Verbatim l"
| "structural_piece (Token t) = Position (if snd (split_param_token t) then Whole_Rest else One_Segment)"

definition structural_regex :: "string \<Rightarrow> piece list" where
  "structural_regex template = map structural_piece (split_tokens template)"

end
