(* ===== verification/Template_Facts.thy ===== *)
theory Template_Facts
  imports Url_Templates
begin

text \<open>
  Facts on path templates: the parts of a template and of a concatenation, the allocation of group names, what
  the search of an expression finds, and the path that its captures rebuild.
\<close>

section \<open>Parts\<close>

lemma push_chunk_text: "concat (map part_text (push_chunk c ps)) = c # concat (map part_text ps)"
  by (cases "(c, ps)" rule: push_chunk.cases) auto

lemma split_tokens_text [simp]: "concat (map part_text (split_tokens s)) = s"
proof (induction s rule: split_tokens.induct)
  case (2 c s)
  then show ?case by (cases "token_at (c # s)") (auto simp: push_chunk_text token_at_Some)
qed simp

text \<open>Every brace that opens is followed by one that closes.\<close>

fun closed_braces :: "string \<Rightarrow> bool" where
  "closed_braces [] = True"
| "closed_braces (c # s) = ((c = CHR ''{'' \<longrightarrow> CHR ''}'' \<in> set s) \<and> closed_braces s)"

fun glue :: "tpart list \<Rightarrow> tpart list \<Rightarrow> tpart list" where
  "glue [Chunk l] (Chunk m # qs) = Chunk (l @ m) # qs"
| "glue (p # ps) qs = p # glue ps qs"
| "glue [] qs = qs"

lemma split_tokens_Chunk: "\<exists>l ps. split_tokens s = Chunk l # ps"
proof (induction s rule: split_tokens.induct)
  case (2 c s)
  then show ?case by (cases "token_at (c # s)") auto
qed simp

lemma glue_push: "ps \<noteq> [] \<Longrightarrow> hd ps = Chunk l \<Longrightarrow> glue (push_chunk c ps) (Chunk m # qs) = push_chunk c (glue ps (Chunk m # qs))"
  by (cases ps; cases "tl ps") auto

lemma token_at_append:
  "closed_braces s \<Longrightarrow> s \<noteq> [] \<Longrightarrow> token_at (s @ t) = map_option (\<lambda>(n, r). (n, r @ t)) (token_at s)"
proof (cases s)
  case (Cons c u)
  assume closed: "closed_braces s"
  show ?thesis
  proof (cases "c = CHR ''{''")
    case True
    then have c: "CHR ''}'' \<in> set u" using closed Cons by simp
    then have "takeWhile (\<lambda>d. d \<noteq> CHR ''}'') (u @ t) = takeWhile (\<lambda>d. d \<noteq> CHR ''}'') u"
      by (intro takeWhile_append1) auto
    moreover from takeWhile_first [OF c] have "length (takeWhile (\<lambda>d. d \<noteq> CHR ''}'') u) + 1 \<le> length u"
      by (metis length_append length_Cons add_le_cancel_left le_add1 plus_1_eq_Suc add.commute Suc_eq_plus1)
    ultimately show ?thesis using c Cons True by (simp add: token_at_def Let_def)
  qed (use Cons in \<open>simp add: token_at_def\<close>)
qed simp

lemma closed_braces_append: "closed_braces (a @ b) \<Longrightarrow> closed_braces b"
  by (induction a) auto

lemma token_rest_closed: "closed_braces s \<Longrightarrow> token_at s = Some (n, r) \<Longrightarrow> closed_braces r"
  by (simp add: token_at_Some) (metis closed_braces_append append_Cons append_Nil append_assoc)

lemma split_tokens_append: "closed_braces b \<Longrightarrow> split_tokens (b @ t) = glue (split_tokens b) (split_tokens t)"
proof (induction b rule: split_tokens.induct)
  case 1
  obtain m qs where "split_tokens t = Chunk m # qs" using split_tokens_Chunk by blast
  then show ?case by simp
next
  case (2 c s)
  obtain m qs where t: "split_tokens t = Chunk m # qs" using split_tokens_Chunk by blast
  show ?case
  proof (cases "token_at (c # s)")
    case None
    moreover from this have "token_at (c # s @ t) = None"
      using token_at_append [OF 2(3), of t] by simp
    moreover obtain l ps where "split_tokens s = Chunk l # ps" using split_tokens_Chunk by blast
    ultimately show ?thesis using 2 t glue_push [of "split_tokens s" l c m qs] by simp
  next
    case (Some p)
    obtain n r where p: "p = (n, r)" by (cases p)
    have "token_at (c # s @ t) = Some (n, r @ t)"
      using token_at_append [OF 2(3), of t] Some p by simp
    moreover have "closed_braces r" using token_rest_closed [OF 2(3)] Some p by simp
    ultimately show ?thesis using 2(2) [OF Some p [symmetric]] Some p by simp
  qed
qed

section \<open>Group names\<close>

lemma first_free_not_taken: "first_free base taken n \<notin> set taken"
proof (induction base taken n rule: first_free.induct)
  case (1 base taken n)
  then show ?case by (subst first_free.simps) simp
qed

lemma free_group_not_taken: "free_group base taken \<notin> set taken"
  by (simp add: free_group_def first_free_not_taken)

definition groups_ok :: "(string, string) dict \<Rightarrow> bool" where
  "groups_ok groups = (dict_ok groups \<and> distinct (map snd groups))"

lemma dict_update_fresh: "dict_get d k = None \<Longrightarrow> dict_set k v d = d @ [(k, v)]"
  by (induction d) (auto split: if_splits)

lemma add_group_ok: "groups_ok groups \<Longrightarrow> groups_ok (add_group token groups)"
  using free_group_not_taken [of _ "map snd groups"]
  by (auto simp: groups_ok_def add_group_def Let_def dict_update_fresh map_of_eq_None_iff image_iff)

lemma add_groups_ok: "groups_ok groups \<Longrightarrow> groups_ok (fold add_group ts groups)"
  by (induction ts arbitrary: groups) (auto simp: add_group_ok)

lemma group_names_ok: "groups_ok (path_param_group_names ts)"
  unfolding path_param_group_names_def by (rule add_groups_ok) (simp add: groups_ok_def)

lemma add_group_keeps: "dict_get groups n = Some g \<Longrightarrow> dict_get (add_group token groups) n = Some g"
  by (auto simp: add_group_def Let_def dict_get_set)

lemma add_groups_keep: "dict_get groups n = Some g \<Longrightarrow> dict_get (fold add_group ts groups) n = Some g"
  by (induction ts arbitrary: groups) (auto simp: add_group_keeps)

lemma add_group_names:
  "fst ` set (add_group token groups) =
     fst ` set groups \<union> (if prefix sv_token_prefix token then {} else {fst (split_param_token token)})"
  by (auto simp: add_group_def Let_def dict_update_fresh map_of_eq_None_iff)

lemma add_groups_names:
  "fst ` set (fold add_group ts groups) =
     fst ` set groups \<union> (\<lambda>t. fst (split_param_token t)) ` {t \<in> set ts. \<not> prefix sv_token_prefix t}"
  by (induction ts arbitrary: groups) (auto simp: add_group_names split: if_splits)

text \<open>The names of the first template keep their groups when more templates follow.\<close>

lemma group_names_first:
  assumes "t \<in> set (template_tokens op)" "\<not> prefix sv_token_prefix t"
  shows "\<exists>g. dict_get (path_param_group_names [op]) (fst (split_param_token t)) = Some g \<and>
    dict_get (path_param_group_names (op # more)) (fst (split_param_token t)) = Some g"
proof -
  have "fst (split_param_token t) \<in> fst ` set (fold add_group (template_tokens op) [])"
    using assms unfolding add_groups_names by blast
  then obtain g where "dict_get (fold add_group (template_tokens op) []) (fst (split_param_token t)) = Some g"
    by (cases "dict_get (fold add_group (template_tokens op) []) (fst (split_param_token t))") (auto simp: map_of_eq_None_iff)
  then show ?thesis by (auto simp: path_param_group_names_def add_groups_keep)
qed

section \<open>What a search finds\<close>

definition fits :: "bool \<Rightarrow> matcher \<Rightarrow> string \<Rightarrow> bool" where
  "fits ic m v = (case m of Exactly w \<Rightarrow> agrees ic w v \<and> length v = length w | _ \<Rightarrow> v \<noteq> [] \<and> list_all (fits_class m) v)"

text \<open>The runs of an expression, without an order of trial.\<close>

inductive rx_run :: "bool \<Rightarrow> piece list \<Rightarrow> captures \<Rightarrow> string \<Rightarrow> captures \<Rightarrow> bool" for ic where
  run_nil: "rx_run ic [] caps [] caps"
| run_verbatim: "agrees ic w v \<Longrightarrow> length v = length w \<Longrightarrow> rx_run ic ps caps s caps' \<Longrightarrow> rx_run ic (Verbatim w # ps) caps (v @ s) caps'"
| run_group: "fits ic m v \<Longrightarrow> rx_run ic ps (caps @ [(g, v)]) s caps' \<Longrightarrow> rx_run ic (Group g m # ps) caps (v @ s) caps'"
| run_again: "dict_get caps g = Some w \<Longrightarrow> agrees ic w v \<Longrightarrow> length v = length w \<Longrightarrow> rx_run ic ps caps s caps' \<Longrightarrow>
    rx_run ic (Again g # ps) caps (v @ s) caps'"
| run_position: "fits ic m v \<Longrightarrow> rx_run ic ps caps s caps' \<Longrightarrow> rx_run ic (Position m # ps) caps (v @ s) caps'"
| run_pinned: "rx_run ic ps (caps @ [(g, [])]) s caps' \<Longrightarrow> rx_run ic (Pinned g # ps) caps s caps'"

inductive_cases run_NilE: "rx_run ic [] caps s caps'"
inductive_cases run_VerbatimE: "rx_run ic (Verbatim w # ps) caps s caps'"
inductive_cases run_GroupE: "rx_run ic (Group g m # ps) caps s caps'"
inductive_cases run_AgainE: "rx_run ic (Again g # ps) caps s caps'"
inductive_cases run_PositionE: "rx_run ic (Position m # ps) caps s caps'"
inductive_cases run_PinnedE: "rx_run ic (Pinned g # ps) caps s caps'"

lemmas run_elims = run_NilE run_VerbatimE run_GroupE run_AgainE run_PositionE run_PinnedE

lemma longest_None: "longest n f = None \<longleftrightarrow> (\<forall>k. 0 < k \<and> k \<le> n \<longrightarrow> f k = None)"
proof (induction n)
  case (Suc n)
  show ?case
  proof (cases "f (Suc n)")
    case None
    then show ?thesis using Suc le_Suc_eq by auto
  qed (auto)
qed simp

lemma longest_Some: "longest n f = Some r \<Longrightarrow> \<exists>k. 0 < k \<and> k \<le> n \<and> f k = Some r"
  by (induction n) (auto split: option.splits intro: le_SucI)

lemma starts_iff: "starts ic w s \<longleftrightarrow> (\<exists>v r. s = v @ r \<and> agrees ic w v \<and> length v = length w)"
proof
  assume "starts ic w s"
  then have "s = take (length w) s @ drop (length w) s \<and> agrees ic w (take (length w) s) \<and> length (take (length w) s) = length w"
    by (simp add: starts_def)
  then show "\<exists>v r. s = v @ r \<and> agrees ic w v \<and> length v = length w" by blast
qed (auto simp: starts_def)

lemma takeWhile_take: "n \<le> length (takeWhile P s) \<Longrightarrow> list_all P (take n s)"
proof (induction s arbitrary: n)
  case (Cons c s)
  then show ?case by (cases n) (auto split: if_splits)
qed simp

lemma match_value_Some:
  assumes "match_value ic m s k = Some r"
  shows "\<exists>v t. s = v @ t \<and> fits ic m v \<and> k v t = Some r"
proof (cases "\<exists>w. m = Exactly w")
  case True
  then obtain w where w: "m = Exactly w" by blast
  then have "starts ic w s" "k (take (length w) s) (drop (length w) s) = Some r"
    using assms by (auto simp: match_value_def split: if_splits)
  then show ?thesis using w
    by (intro exI [of _ "take (length w) s"] exI [of _ "drop (length w) s"]) (simp add: starts_def fits_def)
next
  case False
  then have "longest (length (takeWhile (fits_class m) s)) (\<lambda>n. k (take n s) (drop n s)) = Some r"
    using assms by (cases m) (simp_all add: match_value_def)
  from longest_Some [OF this] obtain n where n: "0 < n" "n \<le> length (takeWhile (fits_class m) s)"
    "k (take n s) (drop n s) = Some r" by blast
  then have "take n s \<noteq> []" using length_takeWhile_le [of "fits_class m" s] by auto
  then have "fits ic m (take n s)" using False takeWhile_take [OF n(2)] by (cases m) (simp_all add: fits_def)
  with n(3) show ?thesis by (intro exI [of _ "take n s"] exI [of _ "drop n s"]) simp
qed

lemma match_value_None:
  assumes "match_value ic m (v @ t) k = None" "fits ic m v"
  shows "k v t = None"
proof (cases "\<exists>w. m = Exactly w")
  case True
  then show ?thesis using assms by (auto simp: match_value_def fits_def starts_def split: if_splits)
next
  case False
  then have "longest (length (takeWhile (fits_class m) (v @ t))) (\<lambda>n. k (take n (v @ t)) (drop n (v @ t))) = None"
    using assms(1) by (cases m) (simp_all add: match_value_def)
  moreover have v: "v \<noteq> []" "list_all (fits_class m) v" using assms(2) False by (cases m; simp add: fits_def)+
  moreover from v(2) have "length v \<le> length (takeWhile (fits_class m) (v @ t))"
    by (simp add: takeWhile_append list_all_iff)
  ultimately show ?thesis unfolding longest_None by (metis append_eq_conv_conj length_greater_0_conv)
qed

theorem rx_match_sound: "rx_match ic ps caps s = Some caps' \<Longrightarrow> rx_run ic ps caps s caps'"
proof (induction ps arbitrary: caps s)
  case Nil
  then show ?case by (auto split: if_splits intro: rx_run.intros)
next
  case (Cons p ps)
  show ?case
  proof (cases p)
    case (Verbatim w)
    then show ?thesis using Cons by (auto simp: starts_iff split: if_splits intro!: rx_run.intros)
  next
    case (Group g m)
    with Cons.prems obtain v t where "s = v @ t" "fits ic m v" "rx_match ic ps (caps @ [(g, v)]) t = Some caps'"
      by (auto dest!: match_value_Some)
    then show ?thesis using Cons.IH Group by (auto intro: rx_run.intros)
  next
    case (Again g)
    then show ?thesis using Cons by (auto simp: starts_iff split: if_splits option.splits intro!: rx_run.intros)
  next
    case (Position m)
    with Cons.prems obtain v t where "s = v @ t" "fits ic m v" "rx_match ic ps caps t = Some caps'"
      by (auto dest!: match_value_Some)
    then show ?thesis using Cons.IH Position by (auto intro: rx_run.intros)
  next
    case (Pinned g)
    then show ?thesis using Cons by (auto intro: rx_run.intros)
  qed
qed

theorem rx_match_complete: "rx_run ic ps caps s caps' \<Longrightarrow> rx_match ic ps caps s \<noteq> None"
proof (induction rule: rx_run.induct)
  case (run_verbatim w v ps caps s caps')
  then have "starts ic w (v @ s)" by (auto simp: starts_iff)
  with run_verbatim show ?case by simp
next
  case (run_group m v ps caps g s caps')
  show ?case
  proof
    assume "rx_match ic (Group g m # ps) caps (v @ s) = None"
    then have "match_value ic m (v @ s) (\<lambda>v r. rx_match ic ps (caps @ [(g, v)]) r) = None" by simp
    from match_value_None [OF this run_group(1)] run_group(3) show False by simp
  qed
next
  case (run_again caps g w v ps s caps')
  then have "starts ic w (v @ s)" by (auto simp: starts_iff)
  with run_again show ?case by simp
next
  case (run_position m v ps caps s caps')
  show ?case
  proof
    assume "rx_match ic (Position m # ps) caps (v @ s) = None"
    then have "match_value ic m (v @ s) (\<lambda>v r. rx_match ic ps caps r) = None" by simp
    from match_value_None [OF this run_position(1)] run_position(3) show False by simp
  qed
qed auto

lemma run_extends: "rx_run ic ps caps s caps' \<Longrightarrow> \<exists>more. caps' = caps @ more \<and> map fst more = piece_groups ps"
  by (induction rule: rx_run.induct) auto

lemma agrees_refl: "agrees ic w w"
  by (simp add: agrees_def)

lemma run_append_intro: "rx_run ic ps caps s mid \<Longrightarrow> rx_run ic qs mid t caps' \<Longrightarrow> rx_run ic (ps @ qs) caps (s @ t) caps'"
  by (induction rule: rx_run.induct) (auto intro: rx_run.intros)

lemma run_append:
  "rx_run ic (ps @ qs) caps s caps' \<Longrightarrow>
     \<exists>s1 s2 mid. s = s1 @ s2 \<and> rx_run ic ps caps s1 mid \<and> rx_run ic qs mid s2 caps'"
proof (induction ps arbitrary: caps s)
  case Nil
  then show ?case by (intro exI [of _ "[]"] exI [of _ s] exI [of _ caps]) (auto intro: rx_run.intros)
next
  case (Cons p ps)
  from Cons.prems obtain v rest caps1 where step: "s = v @ rest" "rx_run ic (ps @ qs) caps1 rest caps'"
    "\<And>u mid. rx_run ic ps caps1 u mid \<Longrightarrow> rx_run ic (p # ps) caps (v @ u) mid"
    by (cases p) (auto elim!: run_elims intro: rx_run.intros, fastforce intro: rx_run.intros)
  from Cons.IH [OF step(2)] obtain s1 s2 mid where "rest = s1 @ s2" "rx_run ic ps caps1 s1 mid" "rx_run ic qs mid s2 caps'"
    by blast
  then show ?case using step(1,3) by (metis append_assoc)
qed

lemma run_verbatim_split:
  assumes "rx_run False (Verbatim (l @ m) # ps) caps s caps'"
  shows "\<exists>u. s = l @ u \<and> rx_run False (Verbatim m # ps) caps u caps'"
proof -
  from assms obtain u where "s = l @ m @ u" "rx_run False ps caps u caps'" by (auto elim!: run_VerbatimE simp: agrees_def)
  moreover from this(2) have "rx_run False (Verbatim m # ps) caps (m @ u) caps'"
    by (intro rx_run.intros) (simp_all add: agrees_def)
  ultimately show ?thesis by blast
qed

section \<open>The path that captures rebuild\<close>

lemma captured_value:
  assumes "rx_run ic ps caps s caps'" "dict_get caps g = Some v"
  shows "dict_get caps' g = Some v"
proof -
  from run_extends [OF assms(1)] obtain more where "caps' = caps @ more" by blast
  then show ?thesis using assms(2) by (simp add: map_add_Some_iff)
qed

lemma param_run_fill:
  assumes "rx_run False (param_pieces names all seen parts) caps s caps'"
    "distinct (map fst caps @ piece_groups (param_pieces names all seen parts))"
    "\<forall>t\<in>set (part_tokens parts). \<exists>g. dict_get names (fst (split_param_token t)) = Some g \<and>
       dict_get names' (fst (split_param_token t)) = Some g"
  shows "fill_params names' caps' parts = Some s"
  using assms
proof (induction parts arbitrary: seen caps s)
  case Nil
  then show ?case by (auto elim: run_elims)
next
  case (Cons p parts)
  show ?case
  proof (cases p)
    case (Chunk l)
    with Cons.prems(1) obtain u where u: "s = l @ u" "rx_run False (param_pieces names all seen parts) caps u caps'"
      by (auto elim!: run_elims simp: agrees_def)
    have "fill_params names' caps' parts = Some u"
      using Cons.prems(2,3) Chunk by (intro Cons.IH [OF u(2)]) simp_all
    then show ?thesis using Chunk u(1) by simp
  next
    case (Token t)
    obtain name own where t: "split_param_token t = (name, own)" by (cases "split_param_token t")
    obtain g where g: "dict_get names name = Some g" "dict_get names' name = Some g"
      using Cons.prems(3) Token t by fastforce
    have "\<exists>body. param_pieces names all seen (p # parts) =
        (if g \<in> set seen then Again g # param_pieces names all seen parts
         else Group g body # param_pieces names all (g # seen) parts)"
      using Token t g(1) by (cases "g \<in> set seen") (simp_all add: path_param_group_def Let_def)
    then obtain body where pieces: "param_pieces names all seen (p # parts) =
        (if g \<in> set seen then Again g # param_pieces names all seen parts
         else Group g body # param_pieces names all (g # seen) parts)" by blast
    show ?thesis
    proof (cases "g \<in> set seen")
      case True
      with Cons.prems(1) pieces obtain w u where u: "s = w @ u" "dict_get caps g = Some w"
        "rx_run False (param_pieces names all seen parts) caps u caps'"
        by (auto elim!: run_elims simp: agrees_def)
      have "fill_params names' caps' parts = Some u"
        using Cons.prems(2,3) pieces True Token by (intro Cons.IH [OF u(3)]) simp_all
      then show ?thesis using Token t g(2) captured_value [OF u(3,2)] u(1) by simp
    next
      case False
      with Cons.prems(1) pieces obtain w u where u: "s = w @ u"
        "rx_run False (param_pieces names all (g # seen) parts) (caps @ [(g, w)]) u caps'"
        by (auto elim!: run_elims simp: agrees_def)
      have "fill_params names' caps' parts = Some u"
        using Cons.prems(2,3) pieces False Token by (intro Cons.IH [OF u(2)]) simp_all
      moreover have "dict_get (caps @ [(g, w)]) g = Some w"
        using Cons.prems(2) pieces False by (simp add: map_add_Some_iff map_of_eq_None_iff)
      ultimately show ?thesis using Token t g(2) captured_value [OF u(2)] u(1) by simp
    qed
  qed
qed

lemma split_tokens_last: "\<exists>bs l. split_tokens s = bs @ [Chunk l]"
proof (induction s rule: split_tokens.induct)
  case (2 c s)
  show ?case
  proof (cases "token_at (c # s)")
    case None
    then obtain bs l where "split_tokens s = bs @ [Chunk l]" using 2(1) by blast
    then show ?thesis using None by (cases "(c, bs)" rule: push_chunk.cases) auto
  next
    case (Some p)
    obtain n r where p: "p = (n, r)" by (cases p)
    then obtain bs l where "split_tokens r = bs @ [Chunk l]" using 2(2) [OF Some] by auto
    then have "split_tokens (c # s) = (Chunk [] # Token n # bs) @ [Chunk l]" using Some p by simp
    then show ?thesis by blast
  qed
qed (metis append_Nil split_tokens.simps(1))

lemma glue_last: "glue (bs @ [Chunk l]) (Chunk m # qs) = bs @ Chunk (l @ m) # qs"
proof (induction bs)
  case (Cons p bs)
  then show ?case by (cases p; cases bs) simp_all
qed simp

lemma param_pieces_append: "\<exists>seen'. param_pieces names all seen (bs @ qs) = param_pieces names all seen bs @ param_pieces names all seen' qs"
proof (induction bs arbitrary: seen)
  case (Cons p bs)
  then show ?case by (cases p) (auto split: prod.splits)
qed auto

lemma piece_groups_append [simp]: "piece_groups (ps @ qs) = piece_groups ps @ piece_groups qs"
  by (induction ps rule: piece_groups.induct) auto

section \<open>Instances of a template\<close>

fun instantiate :: "(string \<Rightarrow> string) \<Rightarrow> tpart list \<Rightarrow> string" where
  "instantiate env [] = []"
| "instantiate env (Chunk l # ps) = l @ instantiate env ps"
| "instantiate env (Token t # ps) = env (fst (split_param_token t)) @ instantiate env ps"

definition segment_value :: "string \<Rightarrow> bool" where
  "segment_value v = (v \<noteq> [] \<and> CHR ''/'' \<notin> set v \<and> CHR 0x0A \<notin> set v)"

lemma segment_value_fits: "segment_value v \<Longrightarrow> fits ic (if b then Whole_Rest else One_Segment) v"
  by (auto simp: segment_value_def fits_def list_all_iff)

lemma groups_inj: "groups_ok d \<Longrightarrow> dict_get d n = Some g \<Longrightarrow> dict_get d n' = Some g \<Longrightarrow> n = n'"
  unfolding groups_ok_def by (drule map_of_SomeD)+ (metis distinct_map inj_onD prod.inject snd_conv)

lemma param_run_exists:
  assumes "groups_ok names" "\<And>n. segment_value (env n)"
    "\<And>n g. dict_get names n = Some g \<Longrightarrow> g \<in> set seen \<Longrightarrow> dict_get caps g = Some (env n)"
    "\<And>g. dict_get caps g \<noteq> None \<Longrightarrow> g \<in> set seen"
  shows "\<exists>caps'. rx_run False (param_pieces names all seen parts) caps (instantiate env parts) caps'"
  using assms(3,4)
proof (induction parts arbitrary: seen caps)
  case Nil
  show ?case by (auto intro: rx_run.intros)
next
  case (Cons p parts)
  show ?case
  proof (cases p)
    case (Chunk l)
    from Cons.IH [OF Cons.prems] obtain caps' where
      "rx_run False (param_pieces names all seen parts) caps (instantiate env parts) caps'" by blast
    from run_verbatim [OF _ _ this, of l l] show ?thesis using Chunk by (auto simp: agrees_def)
  next
    case (Token t)
    obtain name own where t: "split_param_token t = (name, own)" by (cases "split_param_token t")
    define b where "b = (case dict_get all name of None \<Rightarrow> own | Some b \<Rightarrow> b)"
    note fit = segment_value_fits [OF assms(2) [of name], of False b]
    show ?thesis
    proof (cases "dict_get names name")
      case None
      from Cons.IH [OF Cons.prems] obtain caps' where
        "rx_run False (param_pieces names all seen parts) caps (instantiate env parts) caps'" by blast
      from run_position [OF fit this] show ?thesis
        using Token t None by (auto simp: path_param_group_def b_def Let_def)
    next
      case (Some g)
      show ?thesis
      proof (cases "g \<in> set seen")
        case True
        from Cons.IH [OF Cons.prems] obtain caps' where
          "rx_run False (param_pieces names all seen parts) caps (instantiate env parts) caps'" by blast
        from run_again [OF Cons.prems(1) [OF Some True] _ _ this, of "env name"] show ?thesis
          using Token t Some True by (auto simp: path_param_group_def agrees_def Let_def)
      next
        case False
        then have new: "dict_get caps g = None" using Cons.prems(2) by blast
        have "\<exists>caps'. rx_run False (param_pieces names all (g # seen) parts) (caps @ [(g, env name)]) (instantiate env parts) caps'"
        proof (rule Cons.IH)
          fix n h
          assume h: "dict_get names n = Some h" "h \<in> set (g # seen)"
          show "dict_get (caps @ [(g, env name)]) h = Some (env n)"
          proof (cases "h = g")
            case True
            then show ?thesis using groups_inj [OF assms(1) Some, of n] h(1) new by (simp add: map_add_Some_iff)
          qed (use Cons.prems(1) [OF h(1)] h(2) in \<open>simp add: map_add_Some_iff\<close>)
        next
          fix h
          assume "dict_get (caps @ [(g, env name)]) h \<noteq> None"
          then show "h \<in> set (g # seen)" using Cons.prems(2) [of h] by (auto simp: map_add_def split: option.splits if_splits)
        qed
        then obtain caps' where "rx_run False (param_pieces names all (g # seen) parts) (caps @ [(g, env name)]) (instantiate env parts) caps'" by blast
        from run_group [OF fit this] show ?thesis
          using Token t Some False by (auto simp: path_param_group_def b_def Let_def)
      qed
    qed
  qed
qed

lemma instance_runs:
  assumes "build_path_regex template op = Inr ps" "\<And>n. segment_value (env n)"
  shows "fullmatch False ps (instantiate env (split_tokens template)) \<noteq> None"
proof -
  define templates where "templates = (case op of None \<Rightarrow> [] | Some t \<Rightarrow> [t]) @ [template]"
  have ps: "ps = param_pieces (path_param_group_names templates) (path_param_catch_all templates) [] (split_tokens template)"
    using assms(1) by (auto simp: build_path_regex_def templates_def compile_regex_def Let_def split: option.splits if_splits)
  have "\<exists>caps'. rx_run False ps [] (instantiate env (split_tokens template)) caps'"
    unfolding ps by (rule param_run_exists [OF group_names_ok assms(2)]) simp_all
  then obtain caps' where "rx_run False ps [] (instantiate env (split_tokens template)) caps'" by blast
  from rx_match_complete [OF this] show ?thesis by (simp add: fullmatch_def)
qed

text \<open>The segments of a path, counted by which of its parts are empty.\<close>

lemma split_on_snoc:
  "x \<noteq> c \<Longrightarrow> split_on c (s @ [x]) = butlast (split_on c s) @ [last (split_on c s) @ [x]]"
proof (induction s)
  case (Cons y s)
  then show ?case by (cases "split_on c s") (auto split: list.splits)
qed simp

lemma split_on_rev: "split_on c (rev s) = rev (map rev (split_on c s))"
proof (induction s)
  case (Cons x s)
  obtain p ps where p: "split_on c s = p # ps" by (cases "split_on c s") auto
  show ?case
  proof (cases "x = c")
    case True
    then show ?thesis using Cons split_on_append_all [of c "rev s" "[]"] by simp
  next
    case False
    then show ?thesis using Cons p split_on_snoc [OF False, of "rev s"] by simp
  qed
qed simp

lemma split_on_lstrip:
  "split_on c (lstrip_char c s) =
     (let ps = dropWhile (\<lambda>p. p = []) (split_on c s) in if ps = [] then [[]] else ps)"
proof (induction s)
  case (Cons x s)
  obtain p ps where p: "split_on c s = p # ps" by (cases "split_on c s") auto
  show ?case using Cons p by (cases "x = c") (simp_all add: lstrip_char_def)
qed (simp add: lstrip_char_def)

lemma rstrip_rev: "rstrip_char c s = rev (lstrip_char c (rev s))"
  by (simp add: rstrip_char_def lstrip_char_def)

definition shape :: "string \<Rightarrow> bool list" where
  "shape s = map (\<lambda>p. p = []) (split_on CHR ''/'' s)"

definition trimmed_size :: "bool list \<Rightarrow> nat" where
  "trimmed_size bs = length (dropWhile (\<lambda>b. b) (rev (dropWhile (\<lambda>b. b) bs)))"

lemma stripped_size:
  fixes s :: string and c :: char
  defines "stripped \<equiv> rstrip_char c (lstrip_char c s)"
  shows "(if stripped = [] then 0 else length (split_on c stripped)) =
     trimmed_size (map (\<lambda>p. p = []) (split_on c s))"
proof -
  define D where "D = dropWhile (\<lambda>p. p = []) (split_on c s)"
  have size: "trimmed_size (map (\<lambda>p. p = []) (split_on c s)) = length (dropWhile (\<lambda>p. p = []) (rev D))"
    by (simp add: trimmed_size_def dropWhile_map comp_def D_def rev_map)
  show ?thesis
  proof (cases "D = []")
    case True
    then have "split_on c (lstrip_char c s) = [[]]" by (simp add: split_on_lstrip D_def)
    then have "lstrip_char c s = []" using join_split [of c "lstrip_char c s"] by simp
    then show ?thesis using True size by (simp add: stripped_def rstrip_char_def)
  next
    case False
    then have l: "split_on c (lstrip_char c s) = D"
      by (simp only: split_on_lstrip Let_def D_def [symmetric] False if_False)
    define E where "E = dropWhile (\<lambda>p. p = []) (rev D)"
    have "hd D \<noteq> []" using hd_dropWhile [of "\<lambda>p. p = []" "split_on c s"] False by (simp add: D_def)
    then have E: "E \<noteq> []" using False hd_in_set [OF False] by (auto simp: E_def dropWhile_eq_Nil_conv)
    have "split_on c (rev (lstrip_char c s)) = map rev (rev D)" by (simp add: split_on_rev l rev_map)
    then have "dropWhile (\<lambda>p. p = []) (split_on c (rev (lstrip_char c s))) = map rev E"
      by (simp add: dropWhile_map comp_def E_def)
    then have "split_on c (lstrip_char c (rev (lstrip_char c s))) = map rev E"
      using E by (simp add: split_on_lstrip)
    then have parts: "split_on c stripped = rev E" by (simp add: stripped_def rstrip_rev split_on_rev comp_def)
    have "stripped \<noteq> []"
    proof
      assume "stripped = []"
      then have "E = [[]]" using parts by simp
      then show False using hd_dropWhile [of "\<lambda>p. p = []" "rev D"] E by (simp add: E_def)
    qed
    then show ?thesis using parts size by (simp add: E_def)
  qed
qed

lemma count_segments_shape: "count_segments s \<noteq> -1 \<Longrightarrow> count_segments s = int (trimmed_size (shape s))"
  using stripped_size [of "CHR ''/''" s] by (auto simp: count_segments_def shape_def Let_def split: if_splits)

lemma split_on_append_glue:
  "split_on c (a @ b) = butlast (split_on c a) @ (last (split_on c a) @ hd (split_on c b)) # tl (split_on c b)"
proof (induction a)
  case (Cons x a)
  obtain p ps where "split_on c a = p # ps" by (cases "split_on c a") auto
  then show ?case using Cons by auto
qed simp

lemma shape_append: "shape (a @ b) = butlast (shape a) @ (last (shape a) \<and> hd (shape b)) # tl (shape b)"
  by (simp add: shape_def split_on_append_glue map_butlast last_map hd_map map_tl)

lemma shape_word: "CHR ''/'' \<notin> set v \<Longrightarrow> v \<noteq> [] \<Longrightarrow> shape v = [False]"
  by (simp add: shape_def split_on_word)

lemma instance_shape:
  assumes "\<And>n. segment_value (env n)" "\<forall>t\<in>set (part_tokens parts). CHR ''/'' \<notin> set t"
  shows "shape (instantiate env parts) = shape (concat (map part_text parts))"
  using assms(2)
proof (induction parts)
  case (Cons p parts)
  show ?case
  proof (cases p)
    case (Chunk l)
    then show ?thesis using Cons by (simp add: shape_append)
  next
    case (Token t)
    define v where "v = env (fst (split_param_token t))"
    have "shape v = [False]" using assms(1) by (simp add: v_def shape_word segment_value_def)
    moreover have "shape (part_text p) = [False]" using Cons.prems Token by (intro shape_word) auto
    moreover have "shape (instantiate env parts) = shape (concat (map part_text parts))"
      using Cons Token by simp
    moreover have "shape (instantiate env (p # parts)) = shape (v @ instantiate env parts)" using Token by (simp add: v_def)
    ultimately show ?thesis by (simp only: shape_append list.map concat.simps)
  qed
qed simp

lemma instance_segments:
  assumes "\<And>n. segment_value (env n)" "\<forall>t\<in>set (template_tokens template). CHR ''/'' \<notin> set t"
    "count_segments template \<noteq> -1" "count_segments (instantiate env (split_tokens template)) \<noteq> -1"
  shows "count_segments (instantiate env (split_tokens template)) = count_segments template"
  using instance_shape [OF assms(1), of "split_tokens template"] assms(2-4)
  by (simp add: count_segments_shape template_tokens_def)

end
