(* ===== verification/Url_Index.thy ===== *)
theory Url_Index
  imports Template_Facts Py_Url Py_Json Injection
begin

text \<open>
  The entries of the URL index, the second half of \<open>registry/core/url_index.py\<close>: server URLs, server
  variables and their expansion, one entry per combination of values, and the reading of a match. Declared variables are JSON
  (\<open>JObj\<close> the mapping form, \<open>JList\<close> the list form; a stored \<open>ServerVariable\<close> is an object with its columns as
  keys); a float among the values, and a variable named by a list or a mapping, are left out. The words
  \<open>\<dots>.isdigit()\<close> admits beyond ASCII are left out of the reserved tokens.
\<close>

section \<open>Server URLs\<close>

definition scheme_default_ports :: "(string, int) dict" where
  "scheme_default_ports = [(''http'', 80), (''https'', 443), (''ftp'', 21)]"

text \<open>\<open>normalise_host\<close>: lower case, without the scheme's own port.\<close>

definition normalise_host :: "string \<Rightarrow> string \<Rightarrow> string" where
  "normalise_host raw scheme =
     (let host = str_lower raw; parts = split_on (CHR '':'') host in
      if CHR '':'' \<in> set host then
        (case py_int (last parts) of
           None \<Rightarrow> host
         | Some port \<Rightarrow>
             if dict_get scheme_default_ports scheme = Some port then join_with (CHR '':'') (butlast parts) else host)
      else host)"

record parsed_server =
  ps_scheme :: string
  ps_host :: string
  ps_port :: "nat option"
  ps_path :: string
  ps_original :: string

definition parse_server_url :: "string \<Rightarrow> (url_error, parsed_server) result" where
  "parse_server_url url =
     rbind (urlparse url) (\<lambda>(parsed, _).
     let scheme = (if url_scheme parsed = [] then ''https'' else url_scheme parsed);
         host = (case netloc_hostname (url_netloc parsed) of None \<Rightarrow> [] | Some h \<Rightarrow> h);
         path = (if url_path parsed = [] then ''/'' else url_path parsed) in
     rbind (netloc_port (url_netloc parsed)) (\<lambda>given.
     let port = (case given of Some n \<Rightarrow> if n \<noteq> 0 \<and> dict_get scheme_default_ports scheme = Some (int n) then None else given
                  | None \<Rightarrow> None);
         netloc = (case port of Some n \<Rightarrow> if n \<noteq> 0 then host @ CHR '':'' # str_of_nat n else host | None \<Rightarrow> host) in
     Inr \<lparr>ps_scheme = scheme, ps_host = normalise_host netloc scheme, ps_port = port, ps_path = normalize_path path,
          ps_original = url\<rparr>))"

definition merge_paths :: "string \<Rightarrow> string \<Rightarrow> string" where
  "merge_paths base operation_path =
     rstrip_char (CHR ''/'') base @ (if prefix ''/'' operation_path then operation_path else CHR ''/'' # operation_path)"

text \<open>Defaults in place of variables, given the name and default of each; a relative server against a base.\<close>

definition expand_server_variables :: "string \<Rightarrow> (string \<times> string option) list \<Rightarrow> string" where
  "expand_server_variables url_template variables =
     fold (\<lambda>(n, d) url. case d of None \<Rightarrow> url | Some v \<Rightarrow> str_replace (CHR ''{'' # n @ [CHR ''}'']) v url) variables url_template"

definition is_relative_server_url :: "string \<Rightarrow> bool" where
  "is_relative_server_url url = (\<not> prefix ''http://'' url \<and> \<not> prefix ''https://'' url)"

definition resolve_server_url :: "string \<Rightarrow> string \<Rightarrow> string" where
  "resolve_server_url server_url base_url =
     (if \<not> is_relative_server_url server_url then server_url
      else if base_url \<noteq> [] then rstrip_char (CHR ''/'') base_url @ CHR ''/'' # lstrip_char (CHR ''/'') server_url
      else server_url)"

definition host_contains_variables :: "string \<Rightarrow> bool" where
  "host_contains_variables host = (template_tokens host \<noteq> [])"

fun host_piece :: "tpart \<Rightarrow> piece" where
  "host_piece (Chunk l) = Verbatim l"
| "host_piece (Token t) = Position One_Label"

definition build_host_regex :: "string \<Rightarrow> piece list" where
  "build_host_regex host = map host_piece (split_tokens host)"

text \<open>An entry; \<open>en_path_regex\<close> carries the format marker, which matches nothing.\<close>

record index_entry =
  en_host :: string
  en_host_regex :: "piece list"
  en_path :: string
  en_path_regex :: "piece list"
  en_segments :: int
  en_params :: "string list"

definition build_index_entry ::
  "string \<Rightarrow> string \<Rightarrow> string \<Rightarrow> string option \<Rightarrow> (regex_error, index_entry) result" where
  "build_index_entry host path_template scheme operation_path =
     (let normalized_host = normalise_host host scheme;
          template = normalize_path_template path_template in
      rbind (build_path_regex template (map_option normalize_path_template operation_path)) (\<lambda>path_regex.
      Inr \<lparr>en_host = normalized_host, en_host_regex = build_host_regex normalized_host, en_path = template,
           en_path_regex = path_regex, en_segments = count_segments template,
           en_params = extract_param_names template\<rparr>))"

section \<open>Declared server variables\<close>

definition max_server_variable_expansions :: nat where "max_server_variable_expansions = 32"

definition sv_group_prefix :: string where "sv_group_prefix = ''sv__''"

definition sv_fixed_group_prefix :: string where "sv_fixed_group_prefix = ''svk__''"

record sv_spec =
  sv_name :: string
  sv_default :: "string option"
  sv_enum :: "string list"

fun scalar_str :: "json \<Rightarrow> string option" where
  "scalar_str (JStr s) = Some s"
| "scalar_str (JInt n) = Some (str_of_int n)"
| "scalar_str j = None"

definition json_get :: "string \<Rightarrow> json \<Rightarrow> json" where
  "json_get k j = (case j of JObj kvs \<Rightarrow> (case dict_get kvs k of Some v \<Rightarrow> v | None \<Rightarrow> JNull) | _ \<Rightarrow> JNull)"

fun variable_name :: "json \<Rightarrow> string option" where
  "variable_name (JStr s) = (if s = [] then None else Some s)"
| "variable_name (JInt n) = (if n = 0 then None else Some (str_of_int n))"
| "variable_name (JBool b) = (if b then Some ''True'' else None)"
| "variable_name j = None"

text \<open>The items of either form: name, default, enum.\<close>

definition variable_items :: "json \<Rightarrow> (string \<times> json \<times> json) list" where
  "variable_items variables =
     (case variables of
        JObj kvs \<Rightarrow> map (\<lambda>(k, spec). (k, json_get ''default'' spec, json_get ''enum'' spec)) kvs
      | JList vs \<Rightarrow> concat (map (\<lambda>v.
          let dflt = (case v of JObj kvs \<Rightarrow> (case dict_get kvs ''default_value'' of
                            Some d \<Rightarrow> d | None \<Rightarrow> json_get ''default'' v) | _ \<Rightarrow> JNull) in
          case variable_name (json_get ''name'' v) of None \<Rightarrow> [] | Some n \<Rightarrow> [(n, dflt, json_get ''enum'' v)]) vs)
      | _ \<Rightarrow> [])"

definition enum_members :: "json \<Rightarrow> string list" where
  "enum_members j =
     (case j of
        JList vs \<Rightarrow> fold (\<lambda>v acc. case scalar_str v of None \<Rightarrow> acc
                         | Some t \<Rightarrow> if t \<in> set acc then acc else acc @ [t]) vs []
      | _ \<Rightarrow> [])"

fun specs_from :: "string list \<Rightarrow> (string \<times> json \<times> json) list \<Rightarrow> sv_spec list" where
  "specs_from seen [] = []"
| "specs_from seen ((name, dflt, members) # items) =
     (if name \<in> set seen then specs_from seen items
      else \<lparr>sv_name = name, sv_default = scalar_str dflt, sv_enum = enum_members members\<rparr> # specs_from (name # seen) items)"

definition server_variable_specs :: "json \<Rightarrow> sv_spec list" where
  "server_variable_specs variables = specs_from [] (variable_items variables)"

section \<open>Group names of server variables\<close>

definition hex_text :: "string \<Rightarrow> string" where
  "hex_text s = concat (map (\<lambda>n. [Py_Json.hex_char (n div 16), Py_Json.hex_char (n mod 16)]) (utf8 s))"

fun bytes_fromhex :: "string \<Rightarrow> nat list option" where
  "bytes_fromhex [] = Some []"
| "bytes_fromhex [c] = None"
| "bytes_fromhex (c # d # s) =
     (case (hex_val c, hex_val d, bytes_fromhex s) of
        (Some h, Some l, Some bs) \<Rightarrow> Some ((16 * h + l) # bs)
      | _ \<Rightarrow> None)"

text \<open>\<open>bytes.decode()\<close>, as far as code points below 256 reach.\<close>

fun utf8_decode :: "nat list \<Rightarrow> string option" where
  "utf8_decode [] = Some []"
| "utf8_decode (n # bs) =
     (if n < 128 then map_option (Cons (char_of n)) (utf8_decode bs)
      else (case bs of
              m # bs' \<Rightarrow> if (n = 194 \<or> n = 195) \<and> 128 \<le> m \<and> m < 192
                         then map_option (Cons (char_of ((n - 192) * 64 + (m - 128)))) (utf8_decode bs') else None
            | [] \<Rightarrow> None))"

definition unhex_text :: "string \<Rightarrow> string option" where
  "unhex_text s = Option.bind (bytes_fromhex s) utf8_decode"

definition sv_group_name :: "sv_spec \<Rightarrow> string" where
  "sv_group_name spec =
     sv_group_prefix @ hex_text (sv_name spec) @ (case sv_default spec of None \<Rightarrow> [] | Some d \<Rightarrow> CHR ''_'' # hex_text d)"

definition decode_sv_group_name :: "string \<Rightarrow> (string \<times> string option) option" where
  "decode_sv_group_name g =
     (if \<not> prefix sv_group_prefix g then None
      else (let (name_hex, _, default_hex) = partition_at (CHR ''_'') (drop (length sv_group_prefix) g) in
            case unhex_text name_hex of
              None \<Rightarrow> None
            | Some name \<Rightarrow>
                if default_hex = [] then Some (name, None)
                else map_option (\<lambda>d. (name, Some d)) (unhex_text default_hex)))"

definition fixed_value_group :: "string \<Rightarrow> string \<Rightarrow> string" where
  "fixed_value_group name val = sv_fixed_group_prefix @ hex_text name @ CHR ''_'' # hex_text val"

definition decode_fixed_group_name :: "string \<Rightarrow> (string \<times> string) option" where
  "decode_fixed_group_name g =
     (if \<not> prefix sv_fixed_group_prefix g then None
      else (let (name_hex, _, value_hex) = partition_at (CHR ''_'') (drop (length sv_fixed_group_prefix) g) in
            case (unhex_text name_hex, unhex_text value_hex) of
              (Some n, Some v) \<Rightarrow> Some (n, v)
            | _ \<Rightarrow> None))"

section \<open>Reading a match\<close>

record sv_match =
  sm_params :: captures
  sm_values :: "(string, string) dict"
  sm_defaults :: "(string, string) dict"

text \<open>
  \<open>str.casefold\<close> on code points below 256: the sharp s unfolds to two letters, and the micro sign, which folds to a Greek
  letter that nothing else here folds to, stands for itself.
\<close>

definition casefold_char :: "char \<Rightarrow> string" where
  "casefold_char c =
     (let n = char_code c in
      if n = 223 then ''ss''
      else if (65 \<le> n \<and> n \<le> 90) \<or> (192 \<le> n \<and> n \<le> 222 \<and> n \<noteq> 215) then [char_of (n + 32)] else [c])"

definition str_casefold :: "string \<Rightarrow> string" where
  "str_casefold s = concat (map casefold_char s)"

text \<open>One captured group; \<open>None\<close> when a variable resolves to two values.\<close>

definition take_value :: "string \<Rightarrow> string \<Rightarrow> sv_match \<Rightarrow> sv_match option" where
  "take_value name val m =
     (case dict_get (sm_values m) name of
        Some w \<Rightarrow> if str_casefold w \<noteq> str_casefold val then None else Some (m\<lparr>sm_values := dict_set name val (sm_values m)\<rparr>)
      | None \<Rightarrow> Some (m\<lparr>sm_values := dict_set name val (sm_values m)\<rparr>))"

definition take_group :: "string \<times> string \<Rightarrow> sv_match \<Rightarrow> sv_match option" where
  "take_group gc m =
     (let (g, captured) = gc in
      case decode_fixed_group_name g of
        Some (name, val) \<Rightarrow> take_value name val m
      | None \<Rightarrow>
          (case decode_sv_group_name g of
             None \<Rightarrow> Some (m\<lparr>sm_params := dict_set g captured (sm_params m)\<rparr>)
           | Some (name, dflt) \<Rightarrow>
               if captured = CHR ''{'' # name @ [CHR ''}''] then
                 Some (case dflt of None \<Rightarrow> m | Some d \<Rightarrow> m\<lparr>sm_defaults := dict_set name d (sm_defaults m)\<rparr>)
               else take_value name captured m))"

fun take_groups :: "captures \<Rightarrow> sv_match \<Rightarrow> sv_match option" where
  "take_groups [] m = Some m"
| "take_groups (gc # gcs) m = Option.bind (take_group gc m) (take_groups gcs)"

definition resolve_server_variable_groups :: "captures \<Rightarrow> captures \<Rightarrow> sv_match option" where
  "resolve_server_variable_groups host_groups path_groups =
     map_option (\<lambda>m. m\<lparr>sm_defaults := filter (\<lambda>(n, d). dict_get (sm_values m) n = None) (sm_defaults m)\<rparr>)
       (take_groups (host_groups @ path_groups) \<lparr>sm_params = [], sm_values = [], sm_defaults = []\<rparr>)"

section \<open>One entry per combination of values\<close>

datatype binding = B_Value string | B_Free | B_Template

type_synonym bindings = "(string, binding) dict"

definition braced :: "string \<Rightarrow> string" where "braced name = CHR ''{'' # name @ [CHR ''}'']"

fun partition_sub :: "string \<Rightarrow> string \<Rightarrow> (string \<times> string) option" where
  "partition_sub w [] = (if w = [] then Some ([], []) else None)"
| "partition_sub w (c # s) =
     (if prefix w (c # s) then Some ([], drop (length w) (c # s))
      else map_option (\<lambda>(a, b). (c # a, b)) (partition_sub w s))"

definition raw_host :: "string \<Rightarrow> string" where
  "raw_host url =
     (case partition_sub ''://'' url of None \<Rightarrow> [] | Some (_, rest) \<Rightarrow> hd (split_on (CHR ''/'') rest))"

definition variable_options :: "sv_spec \<Rightarrow> bool \<Rightarrow> binding list" where
  "variable_options spec in_host =
     (if sv_enum spec \<noteq> [] then
        map B_Value (sv_enum spec @ (case sv_default spec of None \<Rightarrow> []
          | Some d \<Rightarrow> if d \<in> set (sv_enum spec) then [] else [d])) @ [B_Template]
      else (case sv_default spec of None \<Rightarrow> [] | Some d \<Rightarrow> [B_Value d]) @ [if in_host then B_Template else B_Free])"

definition pattern_binding :: "string \<Rightarrow> sv_spec \<Rightarrow> binding" where
  "pattern_binding host_template spec =
     (if sv_enum spec \<noteq> [] \<or> occurs (braced (sv_name spec)) host_template then B_Template else B_Free)"

definition fallback_bindings :: "sv_spec list \<Rightarrow> string \<Rightarrow> bindings list" where
  "fallback_bindings used host_template =
     (let defaults = map (\<lambda>s. (sv_name s, case sv_default s of Some d \<Rightarrow> B_Value d
                                  | None \<Rightarrow> pattern_binding host_template s)) used;
          templated = map (\<lambda>s. (sv_name s, pattern_binding host_template s)) used in
      if defaults \<noteq> templated then [defaults, templated] else [defaults])"

text \<open>The server variable that a reserved token stands for.\<close>

definition token_spec :: "sv_spec list \<Rightarrow> string \<Rightarrow> sv_spec option" where
  "token_spec used token =
     (let idx = drop (length sv_token_prefix) token in
      if prefix sv_token_prefix token \<and> idx \<noteq> [] \<and> list_all (\<lambda>c. char_digit c \<noteq> None) idx then
        (case parse_digits False 0 idx of
           Some n \<Rightarrow> if n < length used then Some (used ! n) else None
         | None \<Rightarrow> None)
      else None)"

text \<open>What a bound variable shows, and the values its group takes.\<close>

definition shown_value :: "bool \<Rightarrow> sv_spec \<Rightarrow> binding \<Rightarrow> string" where
  "shown_value in_host spec b =
     (case b of B_Value v \<Rightarrow> if in_host then str_lower v else v | _ \<Rightarrow> braced (sv_name spec))"

definition bound_matcher :: "bool \<Rightarrow> sv_spec \<Rightarrow> binding \<Rightarrow> matcher" where
  "bound_matcher in_host spec b = (case b of B_Free \<Rightarrow> One_Segment | _ \<Rightarrow> Exactly (shown_value in_host spec b))"

definition binding_of :: "bindings \<Rightarrow> sv_spec \<Rightarrow> binding" where
  "binding_of bs spec = (case dict_get bs (sv_name spec) of Some b \<Rightarrow> b | None \<Rightarrow> B_Template)"

fun render_parts ::
  "sv_spec list \<Rightarrow> bindings \<Rightarrow> bool \<Rightarrow> (string, string) dict \<Rightarrow> (string, bool) dict \<Rightarrow> string list \<Rightarrow> tpart list
     \<Rightarrow> string \<times> piece list" where
  "render_parts used bs in_host names all seen [] = ([], [])"
| "render_parts used bs in_host names all seen (Chunk l # ps) =
     (let (shown, pieces) = render_parts used bs in_host names all seen ps in (l @ shown, Verbatim l # pieces))"
| "render_parts used bs in_host names all seen (Token t # ps) =
     (case token_spec used t of
        Some spec \<Rightarrow>
          let b = binding_of bs spec; g = sv_group_name spec;
              (shown, pieces) = render_parts used bs in_host names all (if g \<in> set seen then seen else g # seen) ps in
          (shown_value in_host spec b @ shown,
           (if g \<in> set seen then Again g else Group g (bound_matcher in_host spec b)) # pieces)
      | None \<Rightarrow>
          let (p, seen') = (if in_host then (Position One_Label, seen) else path_param_group t names seen all);
              (shown, pieces) = render_parts used bs in_host names all seen' ps in
          (braced t @ shown, p # pieces))"

definition render_server_template ::
  "string \<Rightarrow> sv_spec list \<Rightarrow> bindings \<Rightarrow> bool \<Rightarrow> (string, string) dict \<Rightarrow> (string, bool) dict \<Rightarrow> string \<times> piece list" where
  "render_server_template template used bs in_host names all =
     render_parts used bs in_host names all [] (split_tokens template)"

datatype index_error = Server_Url_Error url_error | Regex_Error regex_error

text \<open>
  The first loop of \<open>_entry_for_bindings\<close>: the URL with reserved tokens, the variables they stand for, and the groups that
  pin an empty value.
\<close>

fun tokenize :: "bindings \<Rightarrow> sv_spec list \<Rightarrow> string \<Rightarrow> sv_spec list \<Rightarrow> string list \<Rightarrow> string \<times> sv_spec list \<times> string list" where
  "tokenize bs [] url captured fixed_groups = (url, captured, fixed_groups)"
| "tokenize bs (spec # specs) url captured fixed_groups =
     (if binding_of bs spec = B_Value [] then
        tokenize bs specs (str_replace (braced (sv_name spec)) [] url) captured
          (fixed_groups @ [fixed_value_group (sv_name spec) []])
      else tokenize bs specs
        (str_replace (braced (sv_name spec)) (braced (sv_token_prefix @ str_of_nat (length captured))) url)
        (captured @ [spec]) fixed_groups)"

definition entry_for_bindings ::
  "string \<Rightarrow> sv_spec list \<Rightarrow> bindings \<Rightarrow> string \<Rightarrow> (index_error, index_entry) result" where
  "entry_for_bindings server_url used bs operation_path =
     (let (url, captured, fixed_groups) = tokenize bs used server_url [] [] in
      case parse_server_url url of
        Inl e \<Rightarrow> Inl (Server_Url_Error e)
      | Inr parsed \<Rightarrow>
          let full = normalize_path_template (merge_paths (ps_path parsed) operation_path);
              op = normalize_path_template operation_path;
              (host_shown, host_pieces) = render_server_template (ps_host parsed) captured bs True [] [];
              (path_shown, path_pieces) = render_server_template full captured bs False
                (path_param_group_names [op, full]) (path_param_catch_all [op, full]) in
          (case (compile_regex host_pieces, compile_regex (map Pinned fixed_groups @ path_pieces)) of
             (Inl e, _) \<Rightarrow> Inl (Regex_Error e)
           | (_, Inl e) \<Rightarrow> Inl (Regex_Error e)
           | (Inr host_regex, Inr path_regex) \<Rightarrow>
               Inr \<lparr>en_host = host_shown, en_host_regex = host_regex, en_path = path_shown, en_path_regex = path_regex,
                    en_segments = count_segments path_shown, en_params = extract_param_names path_shown\<rparr>))"

fun collect :: "('a \<Rightarrow> ('e, 'b) result) \<Rightarrow> 'a list \<Rightarrow> ('e, 'b list) result" where
  "collect f [] = Inr []"
| "collect f (x # xs) = rbind (f x) (\<lambda>y. rbind (collect f xs) (\<lambda>ys. Inr (y # ys)))"

text \<open>The fallback for a variable where no URL can be parsed (the port): the defaults, pinned.\<close>

definition default_entry :: "string \<Rightarrow> sv_spec list \<Rightarrow> string \<Rightarrow> (index_error, index_entry) result" where
  "default_entry server_url used operation_path =
     (let given = filter (\<lambda>s. sv_default s \<noteq> None) used;
          expanded = fold (\<lambda>s url. str_replace (braced (sv_name s)) (the (sv_default s)) url) given server_url;
          fixed_groups = map (\<lambda>s. fixed_value_group (sv_name s) (the (sv_default s))) given in
      case parse_server_url expanded of
        Inl e \<Rightarrow> Inl (Server_Url_Error e)
      | Inr parsed \<Rightarrow>
          (case build_index_entry (ps_host parsed) (merge_paths (ps_path parsed) operation_path) (ps_scheme parsed)
                  (Some operation_path) of
             Inl e \<Rightarrow> Inl (Regex_Error e)
           | Inr entry \<Rightarrow>
               (case compile_regex (map Pinned fixed_groups @ en_path_regex entry) of
                  Inl e \<Rightarrow> Inl (Regex_Error e)
                | Inr pieces \<Rightarrow> Inr (entry\<lparr>en_path_regex := pieces\<rparr>))))"

definition used_variables :: "string \<Rightarrow> json \<Rightarrow> sv_spec list" where
  "used_variables server_url variables =
     filter (\<lambda>s. occurs (braced (sv_name s)) server_url) (server_variable_specs variables)"

text \<open>The combinations of values, and whether the bound cut them down to two.\<close>

definition combinations :: "string \<Rightarrow> sv_spec list \<Rightarrow> bindings list \<times> bool" where
  "combinations server_url used =
     (let host_template = raw_host server_url;
          options = map (\<lambda>s. variable_options s (occurs (braced (sv_name s)) host_template)) used in
      if used = [] then ([[]], False)
      else if max_server_variable_expansions < prod_list (map length options)
        then (fallback_bindings used host_template, True)
      else (map (zip (map sv_name used)) (product_lists options), False))"

definition build_server_index_entries ::
  "string \<Rightarrow> json \<Rightarrow> string \<Rightarrow> (index_error, index_entry list \<times> bool) result" where
  "build_server_index_entries server_url variables operation_path =
     (let used = used_variables server_url variables;
          (combos, capped) = combinations server_url used in
      case collect (\<lambda>c. entry_for_bindings server_url used c operation_path) combos of
        Inr entries \<Rightarrow> Inr (entries, capped)
      | Inl (Regex_Error e) \<Rightarrow> Inl (Regex_Error e)
      | Inl (Server_Url_Error e) \<Rightarrow> rbind (default_entry server_url used operation_path) (\<lambda>entry. Inr ([entry], capped)))"

end
