(* ===== verification/Index_Facts.thy ===== *)
theory Index_Facts
  imports Url_Index
begin

text \<open>
  What the URL index promises: how many entries a server URL yields, and that a match gives back exactly the part of the
  request path that belongs to the operation.
\<close>

section \<open>The number of entries\<close>

lemma product_lists_length: "length (product_lists xss) = prod_list (map length xss)"
  by (induction xss) (simp_all add: length_concat comp_def sum_list_triv)

lemma product_lists_not_Nil: "\<forall>xs\<in>set xss. xs \<noteq> [] \<Longrightarrow> product_lists xss \<noteq> []"
  by (induction xss) (auto simp: neq_Nil_conv)

lemma collect_length: "collect f xs = Inr ys \<Longrightarrow> length ys = length xs"
  by (induction xs arbitrary: ys) (auto simp: rbind_Inr_iff)

lemma variable_options_not_Nil: "variable_options spec b \<noteq> []"
  by (simp add: variable_options_def)

lemma combinations_length:
  "combinations url used = (combos, capped) \<Longrightarrow>
     combos \<noteq> [] \<and> length combos \<le> (if capped then 2 else max_server_variable_expansions)"
  by (auto simp: combinations_def fallback_bindings_def Let_def product_lists_length product_lists_not_Nil variable_options_not_Nil
      max_server_variable_expansions_def simp del: product_lists.simps split: if_splits)

text \<open>
  The index stays small. A server URL with any number of declared variables gives at least one entry for an
  operation and at most 32, and at most two once the combinations of the declared values exceed that.
\<close>

theorem index_entries_bounded:
  assumes "build_server_index_entries server_url variables op = Inr (entries, capped)"
  shows "entries \<noteq> [] \<and> length entries \<le> (if capped then 2 else 32)"
proof -
  obtain combos where c: "combinations server_url (used_variables server_url variables) = (combos, capped)"
    using assms by (auto simp: build_server_index_entries_def Let_def rbind_Inr_iff split: prod.splits sum.splits index_error.splits)
  have "length entries = length combos \<or> length entries = 1"
    using assms c
    by (auto simp: build_server_index_entries_def Let_def rbind_Inr_iff split: sum.splits index_error.splits dest: collect_length)
  moreover from combinations_length [OF c] have "0 < length combos" "length combos \<le> (if capped then 2 else 32)"
    by (auto simp: max_server_variable_expansions_def)
  ultimately show ?thesis by (auto split: if_splits)
qed

section \<open>Templates that are mangled or refused\<close>

text \<open>
  A literal number between two later tokens reads as the sentinel of an earlier one; a parameter whose name begins with a digit
  is no group name, and the error is none that the builders catch.
\<close>

lemma sentinel_collision:
  "normalize_path_template ''/{a}/x{b}0{c}'' = ''/{a}/x'' @ CHR 0x00 # ''1{a}2'' @ [CHR 0x00]"
  by code_simp

lemma leading_digit_refused:
  "build_server_index_entries ''https://api.example.com'' JNull ''/y/{2fa}'' = Inl (Regex_Error (Bad_Group_Name ''2fa''))"
  by code_simp

section \<open>The operation's part of a matched path\<close>

lemma render_append:
  "\<exists>seen'. snd (render_parts used bs in_host names all seen (ps @ qs)) =
     snd (render_parts used bs in_host names all seen ps) @ snd (render_parts used bs in_host names all seen' qs)"
proof (induction ps arbitrary: seen)
  case (Cons p ps)
  show ?case
  proof (cases p)
    case (Chunk l)
    then show ?thesis using Cons [of seen] by (auto simp: split_beta)
  next
    case (Token t)
    show ?thesis
    proof (cases "token_spec used t")
      case None
      then show ?thesis using Token Cons by (auto simp: split_beta Let_def)
    next
      case (Some spec)
      then show ?thesis using Token Cons by (auto simp: split_beta Let_def)
    qed
  qed
qed auto

lemma token_spec_reserved: "\<not> prefix sv_token_prefix t \<Longrightarrow> token_spec used t = None"
  by (simp add: token_spec_def Let_def)

lemma render_params:
  "\<forall>t\<in>set (part_tokens ps). \<not> prefix sv_token_prefix t \<Longrightarrow>
     snd (render_parts used bs False names all seen ps) = param_pieces names all seen ps"
  by (induction ps arbitrary: seen rule: part_tokens.induct) (auto simp: token_spec_reserved split_beta Let_def)

lemma render_no_variables:
  "render_parts [] bs False names all seen ps = (concat (map part_text ps), param_pieces names all seen ps)"
  by (induction ps arbitrary: seen rule: part_tokens.induct) (auto simp: token_spec_def braced_def split_beta Let_def split: option.splits)

lemma fill_params_mono:
  "\<forall>g v. g \<in> snd ` set names \<and> dict_get params g = Some v \<longrightarrow> dict_get params' g = Some v \<Longrightarrow>
     fill_params names params parts = Some s \<Longrightarrow> fill_params names params' parts = Some s"
proof (induction parts arbitrary: s rule: part_tokens.induct)
  case (2 t parts)
  from 2(3) obtain g v u where g: "dict_get names (fst (split_param_token t)) = Some g" "dict_get params g = Some v"
    "fill_params names params parts = Some u" "s = v @ u" by (auto split: option.splits)
  then have "g \<in> snd ` set names" by (auto dest: map_of_SomeD simp: rev_image_eqI)
  with 2(2) g(2) have "dict_get params' g = Some v" by blast
  then show ?case using 2(1) [OF 2(2) g(3)] g by simp
qed auto

text \<open>A group that carries a server variable, by the prefixes that the code reserves.\<close>

definition server_group :: "string \<Rightarrow> bool" where
  "server_group g = (prefix sv_group_prefix g \<or> prefix sv_fixed_group_prefix g)"

lemma not_server_group: "\<not> server_group g \<Longrightarrow> decode_fixed_group_name g = None \<and> decode_sv_group_name g = None"
  by (simp add: server_group_def decode_fixed_group_name_def decode_sv_group_name_def)

lemma take_value_params: "take_value n v m = Some m' \<Longrightarrow> sm_params m' = sm_params m"
  by (auto simp: take_value_def split: option.splits if_splits)

lemma take_group_params:
  assumes "take_group (h, c) m = Some m'"
  shows "dict_get (sm_params m') g = (if h = g \<and> decode_fixed_group_name g = None \<and> decode_sv_group_name g = None then Some c
    else dict_get (sm_params m) g)"
  using assms take_value_params
  by (auto simp: take_group_def dict_get_set split: option.splits prod.splits if_splits)

lemma take_groups_params:
  "take_groups caps m = Some m' \<Longrightarrow> distinct (map fst caps) \<Longrightarrow>
     decode_fixed_group_name g = None \<Longrightarrow> decode_sv_group_name g = None \<Longrightarrow> dict_get caps g = Some v \<Longrightarrow>
     dict_get (sm_params m') g = Some v"
proof (induction caps arbitrary: m)
  case (Cons gc caps)
  obtain h c where gc: "gc = (h, c)" by (cases gc)
  from Cons.prems(1) gc obtain m1 where m1: "take_group (h, c) m = Some m1" "take_groups caps m1 = Some m'"
    by (auto simp: bind_eq_Some_conv)
  have keep: "h \<notin> fst ` set caps" using Cons.prems(2) gc by simp
  have later: "take_groups cs n = Some m' \<Longrightarrow> g \<notin> fst ` set cs \<Longrightarrow> dict_get (sm_params m') g = dict_get (sm_params n) g" for cs n
    by (induction cs arbitrary: n) (auto simp: bind_eq_Some_conv take_group_params [where g = g])
  show ?case
  proof (cases "h = g")
    case True
    then have "c = v" using Cons.prems(5) gc by simp
    then show ?thesis using later [OF m1(2)] keep True take_group_params [OF m1(1), of g] Cons.prems(3,4) by simp
  next
    case False
    then show ?thesis using Cons.IH [OF m1(2)] Cons.prems gc by simp
  qed
qed simp

lemma take_groups_append: "take_groups (xs @ ys) m = Some m' \<Longrightarrow> \<exists>n. take_groups xs m = Some n \<and> take_groups ys n = Some m'"
  by (induction xs arbitrary: m) (auto simp: bind_eq_Some_conv)

text \<open>The pieces of an expression whose template ends with that of the operation.\<close>

lemma run_operation_part:
  assumes run: "rx_run False (front @ snd (render_parts used bs False names all [] (split_tokens (b @ op)))) [] p caps"
    and closed: "closed_braces b"
    and reserved: "\<forall>t\<in>set (template_tokens op). \<not> prefix sv_token_prefix t"
    and distinct: "distinct (piece_groups (front @ snd (render_parts used bs False names all [] (split_tokens (b @ op)))))"
  shows "\<exists>base rel mid seen. p = base @ rel \<and>
    rx_run False (front @ snd (render_parts used bs False names all [] (split_tokens b))) [] base mid \<and>
    rx_run False (param_pieces names all seen (split_tokens op)) mid rel caps \<and>
    distinct (map fst mid @ piece_groups (param_pieces names all seen (split_tokens op)))"
proof -
  obtain before l where before: "split_tokens b = before @ [Chunk l]" using split_tokens_last by blast
  obtain m parts where op: "split_tokens op = Chunk m # parts" using split_tokens_Chunk by blast
  have split: "split_tokens (b @ op) = before @ Chunk (l @ m) # parts"
    by (simp only: split_tokens_append [OF closed] before op glue_last)
  obtain seen where pieces: "snd (render_parts used bs False names all [] (split_tokens (b @ op))) =
      snd (render_parts used bs False names all [] before) @ snd (render_parts used bs False names all seen (Chunk (l @ m) # parts))"
    using render_append [of used bs False names all "[]" before "Chunk (l @ m) # parts"] unfolding split by blast
  have tokens: "\<forall>t\<in>set (part_tokens parts). \<not> prefix sv_token_prefix t" using reserved op by (simp add: template_tokens_def)
  have rest: "snd (render_parts used bs False names all seen (Chunk (l @ m) # parts)) =
      Verbatim (l @ m) # param_pieces names all seen parts"
    using render_params [OF tokens, of used bs names all seen]
    by (cases "render_parts used bs False names all seen parts") simp
  define lead where "lead = front @ snd (render_parts used bs False names all [] before)"
  have run': "rx_run False (lead @ Verbatim (l @ m) # param_pieces names all seen parts) [] p caps"
    using run by (simp only: pieces rest lead_def append_assoc)
  have distinct': "distinct (piece_groups (lead @ Verbatim (l @ m) # param_pieces names all seen parts))"
    using distinct by (simp only: pieces rest lead_def append_assoc)
  from run_append [OF run'] obtain s1 s2 mid where s: "p = s1 @ s2" "rx_run False lead [] s1 mid"
    "rx_run False (Verbatim (l @ m) # param_pieces names all seen parts) mid s2 caps" by blast
  from run_verbatim_split [OF s(3)] obtain rel where rel: "s2 = l @ rel"
    "rx_run False (Verbatim m # param_pieces names all seen parts) mid rel caps" by blast
  from run_extends [OF s(2)] have "map fst mid = piece_groups lead" by auto
  moreover obtain seen' where "snd (render_parts used bs False names all [] (split_tokens b)) =
      snd (render_parts used bs False names all [] before) @ [Verbatim l]"
    using render_append [of used bs False names all "[]" before "[Chunk l]"] before by auto
  then have "rx_run False (front @ snd (render_parts used bs False names all [] (split_tokens b))) [] (s1 @ l) mid"
    using run_append_intro [OF s(2) run_verbatim [OF agrees_refl refl run_nil [of False mid], of l]] by (simp add: lead_def)
  ultimately show ?thesis using distinct' s(1) rel op
    by (intro exI [of _ "s1 @ l"] exI [of _ rel] exI [of _ mid] exI [of _ seen]) simp
qed

lemma compile_regex_Inr: "compile_regex ps = Inr qs \<longleftrightarrow> qs = ps \<and> list_all group_ident (piece_groups ps) \<and> distinct (piece_groups ps)"
proof (cases "find (\<lambda>g. \<not> group_ident g) (piece_groups ps)")
  case None
  then have "\<forall>g\<in>set (piece_groups ps). group_ident g" by (auto simp: find_None_iff)
  then show ?thesis by (auto simp: compile_regex_def None list_all_iff)
next
  case (Some g)
  then have "g \<in> set (piece_groups ps) \<and> \<not> group_ident g" by (auto simp: find_Some_iff)
  then show ?thesis using Some by (auto simp: compile_regex_def list_all_iff)
qed

text \<open>The expression of a base path with reserved tokens: pinned empty values, then the base's text and variables.\<close>

definition base_pieces :: "string \<Rightarrow> sv_spec list \<Rightarrow> bindings \<Rightarrow> string \<Rightarrow> string \<Rightarrow> piece list" where
  "base_pieces server_url used bs b op =
     (let (url, captured, fixed_groups) = tokenize bs used server_url [] [] in
      map Pinned fixed_groups @ snd (render_parts captured bs False (path_param_group_names [op, b @ op])
        (path_param_catch_all [op, b @ op]) [] (split_tokens b)))"

text \<open>The value that a match holds for a parameter of a template.\<close>

definition param_value :: "string \<Rightarrow> captures \<Rightarrow> string \<Rightarrow> string option" where
  "param_value template params n = Option.bind (dict_get (path_param_group_names [template]) n) (dict_get params)"

lemma filled_instance:
  "fill_params names params parts = Some s \<Longrightarrow>
     (\<forall>t\<in>set (part_tokens parts). Option.bind (dict_get names (fst (split_param_token t))) (dict_get params) \<noteq> None) \<and>
     s = instantiate (\<lambda>n. the (Option.bind (dict_get names n) (dict_get params))) parts"
  by (induction parts arbitrary: s rule: part_tokens.induct) (auto split: option.splits)

text \<open>
  C10: permission rules see the operation's own path. When a request matches an entry of the index, its path is a base
  followed by an instance of the operation's template: the expression of the server's base path reads the base, and the
  instance has in each parameter's place the value that was captured for it, after the captures of the server
  variables are taken out. The operation's template, expanded with these captures, is that very instance (the root path if it is empty).
  Two parameters whose names collapse to one group keep their own values.
  The entry's template has to end with the operation's (an operation path that climbs out of its server's does
  not), the operation must not use the reserved tokens, nor group names with the prefixes of server variables.
\<close>

theorem operation_path_rebuilt:
  assumes entry: "entry_for_bindings server_url used bs op = Inr e"
    and url: "parse_server_url (fst (tokenize bs used server_url [] [])) = Inr parsed"
    and template: "normalize_path_template (merge_paths (ps_path parsed) op) = b @ normalize_path_template op" "closed_braces b"
    and reserved: "\<forall>t\<in>set (template_tokens (normalize_path_template op)). \<not> prefix sv_token_prefix t"
    and groups: "\<forall>g\<in>snd ` set (path_param_group_names [normalize_path_template op]). \<not> server_group g"
    and matched: "fullmatch False (en_path_regex e) p = Some caps"
    and read: "resolve_server_variable_groups host_caps caps = Some m"
  shows "\<exists>base rel mid env. p = base @ rel \<and>
    rx_run False (base_pieces server_url used bs b (normalize_path_template op)) [] base mid \<and>
    rel = instantiate env (split_tokens (normalize_path_template op)) \<and>
    (\<forall>t\<in>set (template_tokens (normalize_path_template op)).
       param_value (normalize_path_template op) (sm_params m) (fst (split_param_token t)) = Some (env (fst (split_param_token t)))) \<and>
    expand_path_template op (sm_params m) = Some (if rel = [] then ''/'' else rel)"
proof -
  define op' where "op' = normalize_path_template op"
  define names where "names = path_param_group_names [op', b @ op']"
  define all where "all = path_param_catch_all [op', b @ op']"
  obtain url captured fixed_groups where tok: "tokenize bs used server_url [] [] = (url, captured, fixed_groups)"
    by (cases "tokenize bs used server_url [] []") auto
  define pieces where "pieces = map Pinned fixed_groups @ snd (render_parts captured bs False names all [] (split_tokens (b @ op')))"
  have "en_path_regex e = pieces \<and> distinct (piece_groups pieces)"
    using entry url template(1) tok
    by (auto simp: entry_for_bindings_def Let_def split_beta render_server_template_def pieces_def names_def all_def op'_def
        compile_regex_Inr split: sum.splits)
  then have regex: "en_path_regex e = pieces" and distinct: "distinct (piece_groups pieces)" by simp_all
  have run: "rx_run False pieces [] p caps"
    using matched unfolding fullmatch_def regex by (rule rx_match_sound)
  from run_operation_part [OF run [unfolded pieces_def] template(2) reserved [folded op'_def] distinct [unfolded pieces_def]]
  obtain base rel mid seen where base: "rx_run False (base_pieces server_url used bs b op') [] base mid" and part: "p = base @ rel"
    "rx_run False (param_pieces names all seen (split_tokens op')) mid rel caps"
    "distinct (map fst mid @ piece_groups (param_pieces names all seen (split_tokens op')))"
    unfolding base_pieces_def tok Let_def prod.case names_def [symmetric] all_def [symmetric] by blast
  have "\<forall>t\<in>set (part_tokens (split_tokens op')). \<exists>g. dict_get names (fst (split_param_token t)) = Some g \<and>
      dict_get (path_param_group_names [op']) (fst (split_param_token t)) = Some g"
    using group_names_first [of _ op' "[b @ op']"] reserved by (auto simp: names_def op'_def template_tokens_def)
  from param_run_fill [OF part(2,3) this] have filled: "fill_params (path_param_group_names [op']) caps (split_tokens op') = Some rel" .
  from run_extends [OF run] have keys: "map fst caps = piece_groups pieces" by auto
  obtain m' where m': "take_groups (host_caps @ caps) \<lparr>sm_params = [], sm_values = [], sm_defaults = []\<rparr> = Some m'"
    "sm_params m = sm_params m'" using read by (auto simp: resolve_server_variable_groups_def)
  from take_groups_append [OF m'(1)] obtain mid_m where mid_m: "take_groups caps mid_m = Some m'" by blast
  have "\<forall>g v. g \<in> snd ` set (path_param_group_names [op']) \<and> dict_get caps g = Some v \<longrightarrow> dict_get (sm_params m) g = Some v"
    using take_groups_params [OF mid_m] keys distinct groups not_server_group by (auto simp: op'_def m'(2))
  from fill_params_mono [OF this filled]
  have fill: "fill_params (path_param_group_names [op']) (sm_params m) (split_tokens op') = Some rel" .
  then have expand: "expand_path_template op (sm_params m) = Some (if rel = [] then ''/'' else rel)"
    by (simp add: expand_path_template_def Let_def op'_def)
  define env where "env = (\<lambda>n. the (param_value op' (sm_params m) n))"
  have "rel = instantiate env (split_tokens op')" "\<forall>t\<in>set (template_tokens op').
      param_value op' (sm_params m) (fst (split_param_token t)) = Some (env (fst (split_param_token t)))"
    using filled_instance [OF fill] by (auto simp: env_def param_value_def template_tokens_def)
  then show ?thesis using part(1) base expand unfolding op'_def by blast
qed

text \<open>A server with a region in its host and a free base path, and an operation whose two parameters share a group.\<close>

definition demo_server :: string where "demo_server = ''https://{region}.cf.com/{base}''"

definition demo_variables :: json where
  "demo_variables = JObj [(''region'', JObj [(''default'', JStr ''api''), (''enum'', JList [JStr ''api'', JStr ''EU''])]),
     (''base'', JObj [(''default'', JStr ''client/v4'')])]"

definition demo_bindings :: bindings where "demo_bindings = [(''region'', B_Value ''EU''), (''base'', B_Free)]"


definition demo_operation :: string where "demo_operation = ''/x/{a.b}/y/{a_b}''"

definition demo_entry :: index_entry where
  "demo_entry =
     \<lparr>en_host = ''eu.cf.com'',
      en_host_regex = [Verbatim [], Group ''sv__726567696f6e_617069'' (Exactly ''eu''), Verbatim ''.cf.com''],
      en_path = ''/{base}/x/{a.b}/y/{a_b}'',
      en_path_regex = [Verbatim ''/'', Group ''sv__62617365_636c69656e742f7634'' One_Segment, Verbatim ''/x/'',
        Group ''a_b'' One_Segment, Verbatim ''/y/'', Group ''a_b__2'' One_Segment, Verbatim []],
      en_segments = 5, en_params = [''base'', ''a.b'', ''a_b'']\<rparr>"

definition demo_parsed :: parsed_server where
  "demo_parsed =
     \<lparr>ps_scheme = ''https'', ps_host = ''{~sv0}.cf.com'', ps_port = None, ps_path = ''/{~sv1}'',
      ps_original = ''https://{~sv0}.cf.com/{~sv1}''\<rparr>"

definition demo_captures :: captures where
  "demo_captures = [(''sv__62617365_636c69656e742f7634'', ''v9''), (''a_b'', ''1''), (''a_b__2'', ''2'')]"

definition demo_match :: sv_match where
  "demo_match = \<lparr>sm_params = [(''a_b'', ''1''), (''a_b__2'', ''2'')], sm_values = [(''base'', ''v9'')], sm_defaults = []\<rparr>"

lemma demo_entry_built:
  "entry_for_bindings demo_server (used_variables demo_server demo_variables) demo_bindings demo_operation = Inr demo_entry"
  by code_simp

lemma demo_parsed_url:
  "parse_server_url (fst (tokenize demo_bindings (used_variables demo_server demo_variables) demo_server [] [])) = Inr demo_parsed"
  by code_simp

lemma demo_template:
  "normalize_path_template (merge_paths (ps_path demo_parsed) demo_operation) = ''/{~sv1}'' @ normalize_path_template demo_operation"
  "closed_braces ''/{~sv1}''"
  by code_simp+

lemma demo_tokens:
  "\<forall>t\<in>set (template_tokens (normalize_path_template demo_operation)). \<not> prefix sv_token_prefix t"
  "\<forall>g\<in>snd ` set (path_param_group_names [normalize_path_template demo_operation]). \<not> server_group g"
  by code_simp+

lemma demo_matched:
  "fullmatch False (en_path_regex demo_entry) ''/v9/x/1/y/2'' = Some demo_captures"
  "resolve_server_variable_groups [] demo_captures = Some demo_match"
  by code_simp+

lemma operation_path_rebuilt_witness:
  "expand_path_template demo_operation (sm_params demo_match) = Some ''/x/1/y/2'' \<and>
   (\<exists>base rel mid env. ''/v9/x/1/y/2'' = base @ rel \<and>
     rx_run False (base_pieces demo_server (used_variables demo_server demo_variables) demo_bindings ''/{~sv1}''
       (normalize_path_template demo_operation)) [] base mid \<and>
     rel = instantiate env (split_tokens (normalize_path_template demo_operation)) \<and>
     expand_path_template demo_operation (sm_params demo_match) = Some (if rel = [] then ''/'' else rel))"
proof -
  have "expand_path_template demo_operation (sm_params demo_match) = Some ''/x/1/y/2''" by code_simp
  moreover note operation_path_rebuilt [OF demo_entry_built demo_parsed_url demo_template demo_tokens demo_matched]
  ultimately show ?thesis by blast
qed

lemma index_entries_bounded_witness:
  "\<exists>entries capped. build_server_index_entries demo_server demo_variables demo_operation = Inr (entries, capped) \<and>
     entries \<noteq> [] \<and> length entries \<le> (if capped then 2 else 32)"
proof -
  have "case build_server_index_entries demo_server demo_variables demo_operation of Inl _ \<Rightarrow> False | Inr _ \<Rightarrow> True"
    by code_simp
  then obtain entries capped where built: "build_server_index_entries demo_server demo_variables demo_operation = Inr (entries, capped)"
    by (auto split: sum.splits)
  from index_entries_bounded [OF built] built show ?thesis by blast
qed

end
