(* ===== verification/Url_Lookup.thy ===== *)
theory Url_Lookup
  imports Index_Facts Discovery
begin

text \<open>
  The registry behind discovery: the rows of the URL index and the stage that writes them
  (\<open>registry/ingest/stages/url_index.py\<close>, \<open>UrlIndexRepository\<close>), the reverse lookup of a URL
  (\<open>services/inspect/url_lookup.py\<close>) and \<open>RegistryService.resolve_operation\<close>. The tables are lists; a stored regular
  expression is its pieces, \<open>rg_servers\<close> holds a revision, a server URL and its variables, and \<open>ur_marked\<close> says whether its text carries the format marker. Where the SQL
  gives no order the table's is taken. The query string, which the broker does not read, is left out.
\<close>

section \<open>Tables\<close>

record url_row =
  ur_operation :: string
  ur_revision :: string
  ur_method :: string
  ur_host :: "string option"
  ur_host_regex :: "piece list option"
  ur_path :: string
  ur_path_regex :: "piece list"
  ur_marked :: bool
  ur_params :: "string list"
  ur_segments :: int

record operation_row =
  op_id :: string
  op_path :: string
  op_method :: string
  op_servers :: "(string \<times> json) list"
  op_version_servers :: "(string \<times> json) list"

datatype revision_state = Draft | Published | Imported | Archived

record revision_row =
  rev_id :: string
  rev_api :: string
  rev_state :: revision_state
  rev_origin :: "string option"
  rev_submitted_by :: "string option"
  rev_promoted_at :: "real option"
  rev_created_at :: real

record api_row =
  ap_id :: string
  ap_reference :: api_reference
  ap_current :: "string option"

record registry_db =
  rg_rows :: "url_row list"
  rg_operations :: "operation_row list"
  rg_revisions :: "revision_row list"
  rg_apis :: "api_row list"
  rg_servers :: "(string \<times> string \<times> json) list"

section \<open>Writing the index\<close>

text \<open>\<open>upsert_entry\<close>: the unique key is host, method, host expression, template and revision.\<close>

definition same_key :: "url_row \<Rightarrow> url_row \<Rightarrow> bool" where
  "same_key r q =
     (ur_host r = ur_host q \<and> ur_method r = ur_method q \<and> ur_host_regex r = ur_host_regex q \<and> ur_path r = ur_path q \<and>
      ur_revision r = ur_revision q)"

definition entry_row :: "string \<Rightarrow> string \<Rightarrow> string \<Rightarrow> index_entry \<Rightarrow> url_row" where
  "entry_row revision operation meth e =
     \<lparr>ur_operation = operation, ur_revision = revision, ur_method = meth, ur_host = Some (en_host e),
      ur_host_regex = Some (en_host_regex e), ur_path = en_path e, ur_path_regex = en_path_regex e, ur_marked = True,
      ur_params = en_params e, ur_segments = en_segments e\<rparr>"

definition upsert_entry :: "url_row \<Rightarrow> url_row list \<Rightarrow> url_row list" where
  "upsert_entry r rows = (if list_ex (same_key r) rows then map (\<lambda>q. if same_key r q then r else q) rows else rows @ [r])"

definition delete_for_revision :: "string \<Rightarrow> url_row list \<Rightarrow> url_row list" where
  "delete_for_revision revision rows = filter (\<lambda>r. ur_revision r \<noteq> revision) rows"

text \<open>The parts of a document that name servers: a server is its URL and its variables.\<close>

type_synonym servers = "(string \<times> json) list"

record path_item =
  pi_servers :: servers
  pi_operations :: "(string, servers) dict"

record api_document =
  doc_servers :: servers
  doc_paths :: "(string, path_item) dict"

text \<open>\<open>_get_effective_servers\<close>: the operation's, else the path's, else the document's.\<close>

definition effective_servers :: "operation_row \<Rightarrow> api_document \<Rightarrow> servers" where
  "effective_servers operation doc =
     (let item = (case dict_get (doc_paths doc) (op_path operation) of
                    None \<Rightarrow> \<lparr>pi_servers = [], pi_operations = []\<rparr> | Some i \<Rightarrow> i);
          own = (case dict_get (pi_operations item) (str_lower (op_method operation)) of None \<Rightarrow> [] | Some s \<Rightarrow> s) in
      if own \<noteq> [] then own else if pi_servers item \<noteq> [] then pi_servers item else doc_servers doc)"

type_synonym dedup_key = "string \<times> string \<times> piece list \<times> piece list"

type_synonym stage_state = "dedup_key list \<times> url_row list"

definition store_entry :: "string \<Rightarrow> operation_row \<Rightarrow> index_entry \<Rightarrow> stage_state \<Rightarrow> stage_state" where
  "store_entry revision operation e st =
     (let (seen, rows) = st; meth = str_upper (op_method operation);
          key = (meth, en_host e, en_host_regex e, structural_regex (en_path e)) in
      if key \<in> set seen then st
      else (key # seen, upsert_entry (entry_row revision (op_id operation) meth e) rows))"

fun index_servers ::
  "string \<Rightarrow> operation_row \<Rightarrow> servers \<Rightarrow> stage_state \<Rightarrow> (index_error, stage_state) result" where
  "index_servers revision operation [] st = Inr st"
| "index_servers revision operation ((url, variables) # ss) st =
     rbind (build_server_index_entries url variables (op_path operation)) (\<lambda>(entries, capped).
     index_servers revision operation ss (fold (store_entry revision operation) entries st))"

fun index_operations ::
  "string \<Rightarrow> api_document \<Rightarrow> operation_row list \<Rightarrow> stage_state \<Rightarrow> (index_error, stage_state) result" where
  "index_operations revision doc [] st = Inr st"
| "index_operations revision doc (operation # ops) st =
     rbind (index_servers revision operation (effective_servers operation doc) st) (index_operations revision doc ops)"

text \<open>\<open>BuildURLIndexStage\<close>: \<open>pre_run\<close>, then \<open>_run\<close>; an exception rolls the session back.\<close>

definition build_url_index ::
  "string \<Rightarrow> api_document \<Rightarrow> operation_row list \<Rightarrow> url_row list \<Rightarrow> (index_error, url_row list) result" where
  "build_url_index revision doc ops rows =
     rbind (index_operations revision doc ops ([], delete_for_revision revision rows)) (\<lambda>(seen, rows'). Inr rows')"

section \<open>Candidates\<close>

record candidate =
  cd_row :: url_row
  cd_api :: api_reference
  cd_path :: string
  cd_method :: string
  cd_live_since :: real

definition live_since :: "revision_row \<Rightarrow> real" where
  "live_since r = (case rev_promoted_at r of Some t \<Rightarrow> t | None \<Rightarrow> rev_created_at r)"

text \<open>The joins of \<open>_candidate_rows\<close>, with the condition on the API.\<close>

definition candidate_rows :: "(url_row \<Rightarrow> revision_row \<Rightarrow> api_row \<Rightarrow> bool) \<Rightarrow> registry_db \<Rightarrow> candidate list" where
  "candidate_rows on_api db =
     concat (map (\<lambda>row. concat (map (\<lambda>operation. concat (map (\<lambda>revision.
       map (\<lambda>api. \<lparr>cd_row = row, cd_api = ap_reference api, cd_path = op_path operation, cd_method = op_method operation,
                   cd_live_since = live_since revision\<rparr>)
         (filter (on_api row revision) (rg_apis db)))
       (filter (\<lambda>v. rev_id v = ur_revision row) (rg_revisions db))))
       (filter (\<lambda>q. op_id q = ur_operation row) (rg_operations db)))) (rg_rows db))"

definition pinned_rows :: "string \<Rightarrow> registry_db \<Rightarrow> candidate list" where
  "pinned_rows revision db =
     candidate_rows (\<lambda>row v api. ap_id api = rev_api v \<and> ur_revision row = revision) db"

definition live_rows :: "registry_db \<Rightarrow> candidate list" where
  "live_rows db =
     sort_key (\<lambda>c. - cd_live_since c) (sort_key (\<lambda>c. str_key (ur_revision (cd_row c)))
       (candidate_rows (\<lambda>row v api. ap_current api = Some (ur_revision row)) db))"

definition rows_for :: "string option \<Rightarrow> registry_db \<Rightarrow> candidate list" where
  "rows_for revision db = (case revision of Some i \<Rightarrow> pinned_rows i db | None \<Rightarrow> live_rows db)"

definition on_host :: "string \<Rightarrow> string \<Rightarrow> int \<Rightarrow> url_row \<Rightarrow> bool" where
  "on_host meth host segments r = (ur_method r = meth \<and> ur_host r = Some host \<and> ur_segments r = segments)"

definition on_host_regex :: "string \<Rightarrow> int \<Rightarrow> url_row \<Rightarrow> bool" where
  "on_host_regex meth segments r =
     (ur_method r = meth \<and> ur_host r = None \<and> ur_host_regex r \<noteq> None \<and> ur_segments r = segments)"

definition host_fits :: "string \<Rightarrow> url_row \<Rightarrow> bool" where
  "host_fits host r = (case ur_host_regex r of None \<Rightarrow> False | Some rx \<Rightarrow> fullmatch True rx host \<noteq> None)"

text \<open>\<open>lookup_by_host\<close> and \<open>lookup_by_host_live\<close>, then the two regex lookups.\<close>

definition find_candidates :: "registry_db \<Rightarrow> string option \<Rightarrow> string \<Rightarrow> string \<Rightarrow> int \<Rightarrow> candidate list" where
  "find_candidates db revision meth host segments =
     (let exact = filter (\<lambda>c. on_host meth host segments (cd_row c)) (rows_for revision db) in
      if exact \<noteq> [] then exact
      else filter (\<lambda>c. host_fits host (cd_row c)) (filter (\<lambda>c. on_host_regex meth segments (cd_row c)) (rows_for revision db)))"

section \<open>The best match\<close>

record ranked =
  rk_params :: captures
  rk_key :: "int list"
  rk_candidate :: candidate
  rk_values :: "(string, string) dict"
  rk_defaults :: "(string, string) dict"
  rk_unresolved :: bool

text \<open>\<open>specificity_key\<close>: literal paths first, then more, earlier and later literal segments.\<close>

definition template_literals :: "string \<Rightarrow> bool list" where
  "template_literals template =
     map (\<lambda>p. \<not> prefix ''{'' p) (split_on (CHR ''/'') (rstrip_char (CHR ''/'') (lstrip_char (CHR ''/'') template)))"

definition specificity_key :: "url_row \<Rightarrow> int list" where
  "specificity_key r =
     (let lits = template_literals (ur_path r);
          first = (case find_index (\<lambda>b. b) lits of Some i \<Rightarrow> int i | None \<Rightarrow> int (length lits));
          final = (case find_index (\<lambda>b. b) (rev lits) of Some i \<Rightarrow> int (length lits) - 1 - int i | None \<Rightarrow> -1) in
      [if ur_params r \<noteq> [] then 1 else 0, - int (length (filter (\<lambda>b. b) lits)), first, - final])"

definition rank_candidate :: "string \<Rightarrow> string \<Rightarrow> candidate \<Rightarrow> ranked option" where
  "rank_candidate path host c =
     (case fullmatch False (ur_path_regex (cd_row c)) path of
        None \<Rightarrow> None
      | Some path_groups \<Rightarrow>
          let host_groups = (case ur_host_regex (cd_row c) of
                               Some rx \<Rightarrow> if host = [] then [] else (case fullmatch True rx host of None \<Rightarrow> [] | Some g \<Rightarrow> g)
                             | None \<Rightarrow> []) in
          map_option (\<lambda>m. \<lparr>rk_params = sm_params m, rk_key = specificity_key (cd_row c), rk_candidate = c,
                           rk_values = sm_values m, rk_defaults = sm_defaults m, rk_unresolved = False\<rparr>)
            (resolve_server_variable_groups host_groups path_groups))"

definition rank_revision :: "ranked \<Rightarrow> string" where "rank_revision k = ur_revision (cd_row (rk_candidate k))"

definition match_and_rank :: "candidate list \<Rightarrow> string \<Rightarrow> string \<Rightarrow> (discovery_error, ranked option) result" where
  "match_and_rank candidates path host =
     (case sort_key rk_key (List.map_filter (rank_candidate path host) candidates) of
        [] \<Rightarrow> Inr None
      | best # rest \<Rightarrow>
          let tied = filter (\<lambda>k. rk_key k = rk_key best \<and> rank_revision k = rank_revision best) (best # rest) in
          if 1 < length tied then Inl (Ambiguous_Match (int (length tied))) else Inr (Some best))"

section \<open>Resolving a URL\<close>

datatype lookup_failure = Lookup_Refused discovery_error | Lookup_Url url_error | Lookup_Index index_error

definition max_candidates :: nat where "max_candidates = 500"

text \<open>\<open>_match_rebuilt_servers\<close>: the first entry of the stored servers that matches.\<close>

fun first_entry :: "string \<Rightarrow> string \<Rightarrow> index_entry list \<Rightarrow> sv_match option" where
  "first_entry host path [] = None"
| "first_entry host path (e # es) =
     (case (fullmatch True (en_host_regex e) host, fullmatch False (en_path_regex e) path) of
        (Some hg, Some pg) \<Rightarrow> (case resolve_server_variable_groups hg pg of Some m \<Rightarrow> Some m | None \<Rightarrow> first_entry host path es)
      | _ \<Rightarrow> first_entry host path es)"

fun match_rebuilt_servers :: "servers \<Rightarrow> string \<Rightarrow> string \<Rightarrow> string \<Rightarrow> (index_error, sv_match option) result" where
  "match_rebuilt_servers [] op host path = Inr None"
| "match_rebuilt_servers ((url, variables) # ss) op host path =
     rbind (build_server_index_entries url variables op) (\<lambda>(entries, capped).
     case first_entry host path entries of Some m \<Rightarrow> Inr (Some m) | None \<Rightarrow> match_rebuilt_servers ss op host path)"

definition resolve_legacy_server_variables ::
  "registry_db \<Rightarrow> string \<Rightarrow> string \<Rightarrow> ranked \<Rightarrow> (lookup_failure, ranked) result" where
  "resolve_legacy_server_variables db host path k =
     (case find (\<lambda>q. op_id q = ur_operation (cd_row (rk_candidate k))) (rg_operations db) of
        None \<Rightarrow> Inr (k\<lparr>rk_unresolved := True\<rparr>)
      | Some operation \<Rightarrow>
          (case match_rebuilt_servers
                  (if op_servers operation \<noteq> [] then op_servers operation else op_version_servers operation)
                  (op_path operation) host path of
             Inl e \<Rightarrow> Inl (Lookup_Index e)
           | Inr None \<Rightarrow> Inr (k\<lparr>rk_unresolved := True\<rparr>)
           | Inr (Some m) \<Rightarrow> Inr (k\<lparr>rk_params := sm_params m, rk_values := sm_values m, rk_defaults := sm_defaults m\<rparr>)))"

definition try_resolve ::
  "registry_db \<Rightarrow> string option \<Rightarrow> string \<Rightarrow> string \<Rightarrow> string \<Rightarrow> int \<Rightarrow> (lookup_failure, ranked option) result" where
  "try_resolve db revision meth host path segments =
     (let candidates = find_candidates db revision meth host segments in
      if candidates = [] then Inr None
      else if max_candidates < length candidates then Inl (Lookup_Refused Too_Many_Candidates)
      else (case match_and_rank candidates path host of
              Inl e \<Rightarrow> Inl (Lookup_Refused e)
            | Inr None \<Rightarrow> Inr None
            | Inr (Some k) \<Rightarrow>
                if ur_marked (cd_row (rk_candidate k)) then Inr (Some k)
                else rbind (resolve_legacy_server_variables db host path k) (\<lambda>k'. Inr (Some k'))))"

text \<open>\<open>_check_method_not_allowed\<close>: the methods that the revision serves the URL for, sorted.\<close>

definition allowed_methods :: "registry_db \<Rightarrow> string \<Rightarrow> string \<Rightarrow> string \<Rightarrow> int \<Rightarrow> string list" where
  "allowed_methods db revision host path segments =
     (let rows = filter (\<lambda>r. ur_revision r = revision \<and> ur_segments r = segments) (rg_rows db);
          exact = filter (\<lambda>r. ur_host r = Some host) rows;
          found = (if exact \<noteq> [] then exact
                   else filter (\<lambda>r. ur_host r = None \<and> host_fits host r) rows) in
      sort_key str_key (remdups (map ur_method (filter (\<lambda>r. fullmatch False (ur_path_regex r) path \<noteq> None) found))))"

fun try_methods ::
  "(string \<Rightarrow> (lookup_failure, ranked option) result) \<Rightarrow> string list \<Rightarrow> (lookup_failure, ranked option) result" where
  "try_methods f [] = Inr None"
| "try_methods f (m # ms) = rbind (f m) (\<lambda>r. case r of Some k \<Rightarrow> Inr (Some k) | None \<Rightarrow> try_methods f ms)"

definition request_target :: "string \<Rightarrow> (url_error, string \<times> string) result" where
  "request_target url =
     rbind (urlparse url) (\<lambda>(parsed, _).
     rbind (netloc_port (url_netloc parsed)) (\<lambda>port.
     let scheme = (if url_scheme parsed = [] then ''https'' else url_scheme parsed);
         raw = (case netloc_hostname (url_netloc parsed) of None \<Rightarrow> [] | Some h \<Rightarrow> h);
         netloc = (case port of Some n \<Rightarrow> if n \<noteq> 0 then raw @ CHR '':'' # str_of_nat n else raw | None \<Rightarrow> raw) in
     Inr (Url_Index.normalise_host netloc scheme, normalize_path (if url_path parsed = [] then ''/'' else url_path parsed))))"

definition methods_to_try :: "string \<Rightarrow> string list" where
  "methods_to_try meth = (if str_upper meth = ''HEAD'' then [''HEAD'', ''GET''] else [str_upper meth])"

definition lookup_url ::
  "registry_db \<Rightarrow> string \<Rightarrow> string \<Rightarrow> string option \<Rightarrow> (lookup_failure, ranked option) result" where
  "lookup_url db meth url revision =
     (case request_target url of
        Inl e \<Rightarrow> Inl (Lookup_Url e)
      | Inr (host, path) \<Rightarrow>
          let segments = count_segments path in
          rbind (try_methods (\<lambda>m. try_resolve db revision m host path segments) (methods_to_try meth)) (\<lambda>found.
          case (found, revision) of
            (None, Some i) \<Rightarrow>
              (case allowed_methods db i host path segments of
                 [] \<Rightarrow> Inr None
               | ms \<Rightarrow> Inl (Lookup_Refused (Method_Not_Allowed ms)))
          | _ \<Rightarrow> Inr found))"

text \<open>\<open>RegistryService.resolve_operation\<close>.\<close>

definition resolve_result_of :: "ranked \<Rightarrow> resolve_result" where
  "resolve_result_of k =
     (let c = rk_candidate k in
      \<lparr>rv_operation = \<lparr>oi_id = ur_operation (cd_row c), oi_path = Some (cd_path c), oi_method = Some (cd_method c),
         oi_relative_path = (if cd_path c = [] then None else expand_path_template (cd_path c) (rk_params k))\<rparr>,
       rv_api = cd_api c, rv_server_variables = rk_values k, rv_server_variable_defaults = rk_defaults k,
       rv_variables_unresolved = rk_unresolved k\<rparr>)"

definition resolve_operation ::
  "registry_db \<Rightarrow> string \<Rightarrow> string \<Rightarrow> string option \<Rightarrow> (lookup_failure, resolve_result option) result" where
  "resolve_operation db meth url revision =
     rbind (lookup_url db meth url revision) (\<lambda>found. Inr (map_option resolve_result_of found))"

text \<open>
  The resolver that discovery is given, with any reading of pins. An exception that is no discovery error ends the call;
  here it is the base class's.
\<close>

definition registry_resolver :: "registry_db \<Rightarrow> (string \<Rightarrow> string \<Rightarrow> string \<Rightarrow> string \<Rightarrow> pin_result) \<Rightarrow> resolver" where
  "registry_resolver db pins =
     \<lparr>rl_operation = (\<lambda>meth url revision.
        case resolve_operation db meth url revision of
          Inr r \<Rightarrow> Inr r
        | Inl (Lookup_Refused e) \<Rightarrow> Inl e
        | Inl _ \<Rightarrow> Inl (Discovery_Base [])),
      rl_pin = pins\<rparr>"

end
