(* ===== verification/Lookup_Facts.thy ===== *)
theory Lookup_Facts
  imports Url_Lookup
begin

text \<open>
  What the registry's lookup promises: where a result comes from, that an indexed operation is found, what the stage
  writes, and, through the contract of a resolver, on which revision a call runs.
\<close>

section \<open>Where a result comes from\<close>

lemma find_candidates_sub: "set (find_candidates db revision meth host segments) \<subseteq> set (rows_for revision db)"
  by (auto simp: find_candidates_def Let_def)

lemma find_candidates_row:
  "c \<in> set (find_candidates db revision meth host segments) \<Longrightarrow>
     ur_method (cd_row c) = meth \<and> ur_segments (cd_row c) = segments \<and>
     (ur_host (cd_row c) = Some host \<or> ur_host (cd_row c) = None \<and> host_fits host (cd_row c))"
  by (auto simp: find_candidates_def on_host_def on_host_regex_def Let_def split: if_splits)

lemma candidate_rows_in:
  "c \<in> set (candidate_rows P db) \<longleftrightarrow>
     (\<exists>row\<in>set (rg_rows db). \<exists>q\<in>set (rg_operations db). \<exists>v\<in>set (rg_revisions db). \<exists>a\<in>set (rg_apis db).
        op_id q = ur_operation row \<and> rev_id v = ur_revision row \<and> P row v a \<and>
        c = \<lparr>cd_row = row, cd_api = ap_reference a, cd_path = op_path q, cd_method = op_method q, cd_live_since = live_since v\<rparr>)"
  by (auto simp: candidate_rows_def image_iff)

lemma rows_for_row: "c \<in> set (rows_for revision db) \<Longrightarrow> cd_row c \<in> set (rg_rows db)"
  by (cases revision) (auto simp: rows_for_def pinned_rows_def live_rows_def candidate_rows_in)

lemma rank_candidate_Some:
  "rank_candidate path host c = Some k \<Longrightarrow>
     rk_candidate k = c \<and> rk_key k = specificity_key (cd_row c) \<and> fullmatch False (ur_path_regex (cd_row c)) path \<noteq> None"
  by (auto simp: rank_candidate_def Let_def split: option.splits)

lemma match_and_rank_Some:
  assumes "match_and_rank candidates path host = Inr (Some k)"
  shows "k \<in> set (List.map_filter (rank_candidate path host) candidates) \<and>
    (\<forall>k'\<in>set (List.map_filter (rank_candidate path host) candidates). rk_key k \<le> rk_key k')"
proof -
  define ks where "ks = List.map_filter (rank_candidate path host) candidates"
  obtain rest where s: "sort_key rk_key ks = k # rest"
    using assms by (auto simp: match_and_rank_def ks_def Let_def split: list.splits if_splits)
  then have "set ks = insert k (set rest)" by (metis set_sort list.simps(15))
  moreover have "sorted (map rk_key (k # rest))" using s sorted_sort_key [of rk_key ks] by simp
  ultimately show ?thesis unfolding ks_def [symmetric] by auto
qed

lemma map_filter_in: "k \<in> set (List.map_filter f xs) \<longleftrightarrow> (\<exists>x\<in>set xs. f x = Some k)"
  by (induction xs) (auto simp: map_filter_def)

lemma resolve_legacy_candidate:
  "resolve_legacy_server_variables db host path k = Inr k' \<Longrightarrow> rk_candidate k' = rk_candidate k"
  by (auto simp: resolve_legacy_server_variables_def split: option.splits sum.splits)

lemma try_resolve_Some:
  assumes "try_resolve db revision meth host path segments = Inr (Some k)"
  shows "rk_candidate k \<in> set (find_candidates db revision meth host segments) \<and>
    fullmatch False (ur_path_regex (cd_row (rk_candidate k))) path \<noteq> None"
proof -
  obtain k0 where k0: "match_and_rank (find_candidates db revision meth host segments) path host = Inr (Some k0)"
    "rk_candidate k = rk_candidate k0"
    using assms by (auto simp: try_resolve_def Let_def rbind_Inr_iff dest: resolve_legacy_candidate
        split: if_splits sum.splits option.splits)
  from match_and_rank_Some [OF k0(1)] show ?thesis unfolding map_filter_in k0(2) using rank_candidate_Some by fastforce
qed

lemma try_methods_Some: "try_methods f ms = Inr (Some k) \<Longrightarrow> \<exists>m\<in>set ms. f m = Inr (Some k)"
  by (induction ms) (auto simp: rbind_Inr_iff split: option.splits)

lemma lookup_Some:
  assumes "lookup_url db meth url revision = Inr (Some k)"
  shows "\<exists>host path m. request_target url = Inr (host, path) \<and> m \<in> set (methods_to_try meth) \<and>
    rk_candidate k \<in> set (find_candidates db revision m host (count_segments path)) \<and>
    fullmatch False (ur_path_regex (cd_row (rk_candidate k))) path \<noteq> None"
proof -
  obtain host path where t: "request_target url = Inr (host, path)"
    using assms by (auto simp: lookup_url_def split: sum.splits)
  then have "try_methods (\<lambda>m. try_resolve db revision m host path (count_segments path)) (methods_to_try meth) = Inr (Some k)"
    using assms by (auto simp: lookup_url_def rbind_Inr_iff Let_def split: option.splits list.splits)
  from try_methods_Some [OF this] try_resolve_Some t show ?thesis by blast
qed

text \<open>The operation comes from a row of the revision: the one asked for, or the one its API serves now.\<close>

definition served_by :: "registry_db \<Rightarrow> string option \<Rightarrow> resolve_result \<Rightarrow> bool" where
  "served_by db revision r =
     (\<exists>row\<in>set (rg_rows db). \<exists>q\<in>set (rg_operations db). \<exists>v\<in>set (rg_revisions db). \<exists>a\<in>set (rg_apis db).
        oi_id (rv_operation r) = ur_operation row \<and> op_id q = ur_operation row \<and> rev_id v = ur_revision row \<and>
        oi_path (rv_operation r) = Some (op_path q) \<and> rv_api r = ap_reference a \<and>
        (case revision of Some i \<Rightarrow> ap_id a = rev_api v \<and> ur_revision row = i
         | None \<Rightarrow> ap_current a = Some (ur_revision row)))"

lemma resolve_operation_served:
  assumes "resolve_operation db meth url revision = Inr (Some r)"
  shows "served_by db revision r"
proof -
  obtain k where k: "lookup_url db meth url revision = Inr (Some k)" "r = resolve_result_of k"
    using assms by (auto simp: resolve_operation_def rbind_Inr_iff)
  define P :: "url_row \<Rightarrow> revision_row \<Rightarrow> api_row \<Rightarrow> bool" where "P = (\<lambda>row v a. case revision of Some i \<Rightarrow> ap_id a = rev_api v \<and> ur_revision row = i
      | None \<Rightarrow> ap_current a = Some (ur_revision row))"
  from lookup_Some [OF k(1)] have "rk_candidate k \<in> set (rows_for revision db)" using find_candidates_sub by blast
  then have "rk_candidate k \<in> set (candidate_rows P db)"
    by (cases revision) (simp_all add: rows_for_def pinned_rows_def live_rows_def P_def)
  from this [unfolded candidate_rows_in] obtain row q v a where c: "row \<in> set (rg_rows db)" "q \<in> set (rg_operations db)"
    "v \<in> set (rg_revisions db)" "a \<in> set (rg_apis db)" "op_id q = ur_operation row" "rev_id v = ur_revision row" "P row v a"
    "rk_candidate k = \<lparr>cd_row = row, cd_api = ap_reference a, cd_path = op_path q, cd_method = op_method q, cd_live_since = live_since v\<rparr>"
    by blast
  have "oi_id (rv_operation r) = ur_operation row" "oi_path (rv_operation r) = Some (op_path q)" "rv_api r = ap_reference a"
    by (simp_all add: k(2) resolve_result_of_def Let_def c(8))
  then show ?thesis unfolding served_by_def using c(1-7) unfolding P_def by blast
qed

section \<open>The contract of a resolver\<close>

text \<open>A resolver whose answers for a revision are operations of that revision.\<close>

locale revision_resolver =
  fixes L :: resolver and serves :: "string option \<Rightarrow> resolve_result \<Rightarrow> bool"
  assumes answers: "rl_operation L meth url revision = Inr (Some r) \<Longrightarrow> serves revision r"
begin

lemma call_revision:
  assumes "discover_call L meth url pins = Inr (Some (r, pinned))"
  shows "case pinned of None \<Rightarrow> serves None r
    | Some entry \<Rightarrow> \<exists>v n w label i. ((v, n, w), label) \<in> set pins \<and> rl_pin L v n w (rev_label label) = (Pin_Resolved, Some i) \<and>
        serves (Some i) r \<and> entry = pinned_entry (rv_api r) i"
proof (cases pinned)
  case None
  then show ?thesis using discover_call_Some [OF assms] answers [of meth url None r] by simp
next
  case (Some entry)
  with discover_call_Some [OF assms] obtain v n w label i where "((v, n, w), label) \<in> set pins"
    "rl_pin L v n w (rev_label label) = (Pin_Resolved, Some i)" "rl_operation L meth url (Some i) = Inr (Some r)"
    "entry = pinned_entry (rv_api r) i" by auto
  then show ?thesis using answers Some by (simp only: option.case) blast
qed

end

lemma registry_resolver_operation:
  "rl_operation (registry_resolver db pins) meth url revision = Inr (Some r) \<Longrightarrow> served_by db revision r"
  by (rule resolve_operation_served) (auto simp: registry_resolver_def split: sum.splits lookup_failure.splits)

interpretation registry: revision_resolver "registry_resolver db pins" "served_by db"
  by unfold_locales (rule registry_resolver_operation)

text \<open>
  C8: with the registry's own lookup behind discovery, a call without a pin runs an operation that its API's current revision
  indexes, and a call with one runs an operation that the very revision its entry names indexes, for the API of
  that revision. No draft, archived or superseded revision serves a call that did not pin it.
\<close>

theorem calls_run_on_their_revision:
  assumes "discover_call (registry_resolver db pin_of) meth url pins = Inr (Some (r, pinned))"
  shows "case pinned of None \<Rightarrow> served_by db None r
    | Some entry \<Rightarrow> \<exists>v n w label i. ((v, n, w), label) \<in> set pins \<and> pin_of v n w (rev_label label) = (Pin_Resolved, Some i) \<and>
        served_by db (Some i) r \<and> entry = pinned_entry (rv_api r) i"
proof -
  have "rl_pin (registry_resolver db pin_of) = pin_of" by (simp add: registry_resolver_def)
  then show ?thesis using registry.call_revision [OF assms] by (simp only:)
qed

section \<open>The rows that the stage writes\<close>

definition row_key :: "url_row \<Rightarrow> string option \<times> string \<times> piece list option \<times> string \<times> string" where
  "row_key r = (ur_host r, ur_method r, ur_host_regex r, ur_path r, ur_revision r)"

definition row_ok :: "url_row \<Rightarrow> bool" where
  "row_ok r =
     (ur_host r \<noteq> None \<and> ur_host_regex r \<noteq> None \<and> ur_marked r \<and> ur_segments r = count_segments (ur_path r) \<and>
      ur_params r = extract_param_names (ur_path r) \<and> distinct (piece_groups (ur_path_regex r)))"

definition index_ok :: "url_row list \<Rightarrow> bool" where
  "index_ok rows = (list_all row_ok rows \<and> distinct (map row_key rows))"

lemma same_key_iff: "same_key r q \<longleftrightarrow> row_key r = row_key q"
  by (auto simp: same_key_def row_key_def)

lemma upsert_keys:
  "map row_key (upsert_entry r rows) = (if row_key r \<in> row_key ` set rows then map row_key rows else map row_key rows @ [row_key r])"
  by (auto simp: upsert_entry_def same_key_iff list_ex_iff)

lemma upsert_ok: "index_ok rows \<Longrightarrow> row_ok r \<Longrightarrow> index_ok (upsert_entry r rows)"
  unfolding index_ok_def upsert_keys
  by (auto simp: upsert_entry_def list_all_iff)

lemma upsert_others:
  "ur_revision r = i \<Longrightarrow> filter (\<lambda>q. ur_revision q \<noteq> i) (upsert_entry r rows) = filter (\<lambda>q. ur_revision q \<noteq> i) rows"
proof -
  assume i: "ur_revision r = i"
  have "filter (\<lambda>q. ur_revision q \<noteq> i) (map (\<lambda>q. if same_key r q then r else q) rows) = filter (\<lambda>q. ur_revision q \<noteq> i) rows"
    using i by (induction rows) (auto simp: same_key_def)
  then show ?thesis using i by (simp add: upsert_entry_def)
qed

definition entry_ok :: "index_entry \<Rightarrow> bool" where
  "entry_ok e =
     (en_segments e = count_segments (en_path e) \<and> en_params e = extract_param_names (en_path e) \<and>
      distinct (piece_groups (en_path_regex e)))"

lemma entry_for_bindings_ok: "entry_for_bindings url used bs op = Inr e \<Longrightarrow> entry_ok e"
  by (auto simp: entry_for_bindings_def entry_ok_def compile_regex_Inr Let_def split_beta split: sum.splits)

lemma default_entry_ok: "default_entry url used op = Inr e \<Longrightarrow> entry_ok e"
  by (auto simp: default_entry_def build_index_entry_def entry_ok_def compile_regex_Inr rbind_Inr_iff Let_def split: sum.splits)

lemma collect_in: "collect f xs = Inr ys \<Longrightarrow> y \<in> set ys \<Longrightarrow> \<exists>x\<in>set xs. f x = Inr y"
  by (induction xs arbitrary: ys) (auto simp: rbind_Inr_iff)

lemma build_entries_ok:
  "build_server_index_entries url variables op = Inr (entries, capped) \<Longrightarrow> e \<in> set entries \<Longrightarrow> entry_ok e"
  by (auto simp: build_server_index_entries_def Let_def rbind_Inr_iff split: prod.splits sum.splits index_error.splits
      dest!: collect_in intro: entry_for_bindings_ok default_entry_ok)

definition stage_ok :: "string \<Rightarrow> url_row list \<Rightarrow> stage_state \<Rightarrow> bool" where
  "stage_ok revision rows st =
     (index_ok (snd st) \<and> filter (\<lambda>r. ur_revision r \<noteq> revision) (snd st) = filter (\<lambda>r. ur_revision r \<noteq> revision) rows)"

lemma store_entry_ok: "stage_ok revision rows st \<Longrightarrow> entry_ok e \<Longrightarrow> stage_ok revision rows (store_entry revision operation e st)"
  by (cases st) (auto simp: stage_ok_def store_entry_def Let_def entry_ok_def row_ok_def entry_row_def upsert_others intro!: upsert_ok)

lemma store_entries_ok:
  "stage_ok revision rows st \<Longrightarrow> \<forall>e\<in>set es. entry_ok e \<Longrightarrow> stage_ok revision rows (fold (store_entry revision operation) es st)"
  by (induction es arbitrary: st) (auto simp: store_entry_ok)

lemma index_servers_ok:
  "index_servers revision operation ss st = Inr st' \<Longrightarrow> stage_ok revision rows st \<Longrightarrow> stage_ok revision rows st'"
proof (induction ss arbitrary: st)
  case (Cons s ss)
  obtain url variables where s: "s = (url, variables)" by (cases s)
  from Cons.prems(1) s obtain entries capped where b: "build_server_index_entries url variables (op_path operation) = Inr (entries, capped)"
    "index_servers revision operation ss (fold (store_entry revision operation) entries st) = Inr st'"
    by (auto simp: rbind_Inr_iff)
  have "stage_ok revision rows (fold (store_entry revision operation) entries st)"
    using store_entries_ok [OF Cons.prems(2)] build_entries_ok [OF b(1)] by blast
  then show ?case by (rule Cons.IH [OF b(2)])
qed simp

lemma index_operations_ok:
  "index_operations revision doc ops st = Inr st' \<Longrightarrow> stage_ok revision rows st \<Longrightarrow> stage_ok revision rows st'"
proof (induction ops arbitrary: st)
  case (Cons q ops)
  from Cons.prems(1) obtain mid where "index_servers revision q (effective_servers q doc) st = Inr mid"
    "index_operations revision doc ops mid = Inr st'" by (auto simp: rbind_Inr_iff)
  then show ?case using Cons.IH index_servers_ok Cons.prems(2) by blast
qed simp

lemma index_operations_rows_ok:
  assumes "build_url_index revision doc ops rows = Inr rows'" "index_ok rows"
  shows "index_ok rows' \<and> filter (\<lambda>r. ur_revision r \<noteq> revision) rows' = filter (\<lambda>r. ur_revision r \<noteq> revision) rows"
proof -
  obtain seen where run: "index_operations revision doc ops ([], delete_for_revision revision rows) = Inr (seen, rows')"
    using assms(1) by (auto simp: build_url_index_def rbind_Inr_iff)
  have "stage_ok revision rows ([], delete_for_revision revision rows)"
    using assms(2) by (auto simp: stage_ok_def index_ok_def delete_for_revision_def list_all_iff distinct_map_filter)
  from index_operations_ok [OF run this] show ?thesis by (simp add: stage_ok_def)
qed

text \<open>
  C39: the index is well formed, and one revision's build leaves the others alone. After the stage every row names a host and a
  host expression, carries the marker, counts the segments and lists the parameters of its own template, and captures each
  group once; no two rows share the unique key; and the rows of every other revision are what they were.
\<close>

theorem index_rows_well_formed:
  assumes "build_url_index revision doc ops rows = Inr rows'" "index_ok rows"
  shows "index_ok rows' \<and> filter (\<lambda>r. ur_revision r \<noteq> revision) rows' = filter (\<lambda>r. ur_revision r \<noteq> revision) rows"
  using assms by (rule index_operations_rows_ok)

section \<open>Catch-all operations\<close>

text \<open>
  C40: an operation whose path has a reserved-expansion parameter is never found. Its row counts -1 segments, and each
  lookup asks for the segments of the request path; so no URL resolves to it, whatever its expression matches, unless
  the URL's own path contains two stars or the literal brace and plus sign.
\<close>

theorem catch_all_unreachable:
  assumes "list_all row_ok (rg_rows db)" "request_target url = Inr (host, path)"
    and plain: "\<not> occurs ''**'' path" "\<not> occurs ''{+'' path"
    and found: "lookup_url db meth url revision = Inr (Some k)"
  shows "\<not> occurs ''{+'' (ur_path (cd_row (rk_candidate k)))"
proof -
  obtain m where c: "rk_candidate k \<in> set (find_candidates db revision m host (count_segments path))"
    using lookup_Some [OF found] assms(2) by auto
  from find_candidates_row [OF c] have "ur_segments (cd_row (rk_candidate k)) = count_segments path" by simp
  moreover have "count_segments path \<noteq> -1" using plain by (simp add: count_segments_def Let_def)
  moreover have "cd_row (rk_candidate k) \<in> set (rg_rows db)"
    using c find_candidates_sub [of db revision m host "count_segments path"] rows_for_row by blast
  ultimately have "count_segments (ur_path (cd_row (rk_candidate k))) \<noteq> -1"
    using assms(1) by (auto simp: list_all_iff row_ok_def)
  then show ?thesis by (auto simp: count_segments_def)
qed

text \<open>An API with an operation under a reserved expansion, and a plain one.\<close>

definition report_operation :: operation_row where
  "report_operation = \<lparr>op_id = ''report'', op_path = ''/v1/{+property}:run'', op_method = ''POST'', op_servers = [], op_version_servers = []\<rparr>"

definition items_operation :: operation_row where
  "items_operation = \<lparr>op_id = ''items'', op_path = ''/v1/items/{id}'', op_method = ''GET'', op_servers = [], op_version_servers = []\<rparr>"

definition demo_document :: api_document where
  "demo_document = \<lparr>doc_servers = [(''https://data.example.com'', JNull)], doc_paths = []\<rparr>"

definition demo_rows :: "url_row list" where
  "demo_rows =
     (case build_url_index ''r1'' demo_document [report_operation, items_operation] [] of Inr rows \<Rightarrow> rows | Inl _ \<Rightarrow> [])"

definition demo_registry_db :: registry_db where
  "demo_registry_db =
     \<lparr>rg_rows = demo_rows, rg_operations = [report_operation, items_operation],
      rg_revisions = [\<lparr>rev_id = ''r1'', rev_api = ''a1'', rev_state = Imported, rev_origin = None,
        rev_submitted_by = None, rev_promoted_at = None, rev_created_at = 0\<rparr>],
      rg_apis = [\<lparr>ap_id = ''a1'', ap_reference = \<lparr>api_vendor = ''acme'', api_name = ''data'', api_version = ''1''\<rparr>,
                  ap_current = Some ''r1''\<rparr>],
      rg_servers = [(''r1'', ''https://data.example.com'', JNull)]\<rparr>"

lemma demo_rows_ok: "index_ok demo_rows"
proof -
  have "build_url_index ''r1'' demo_document [report_operation, items_operation] [] = Inr demo_rows"
    by code_simp
  from index_operations_rows_ok [OF this] show ?thesis by (simp add: index_ok_def)
qed

lemma catch_all_unreachable_witness:
  "\<exists>k. lookup_url demo_registry_db ''GET'' ''https://data.example.com/v1/items/7'' None = Inr (Some k) \<and>
     \<not> occurs ''{+'' (ur_path (cd_row (rk_candidate k))) \<and>
     lookup_url demo_registry_db ''POST'' ''https://data.example.com/v1/properties/9:run'' None = Inr None \<and>
     list_ex (\<lambda>r. fullmatch False (ur_path_regex r) ''/v1/properties/9:run'' \<noteq> None) demo_rows"
proof -
  have "case lookup_url demo_registry_db ''GET'' ''https://data.example.com/v1/items/7'' None of Inr (Some k) \<Rightarrow> True | _ \<Rightarrow> False"
    by code_simp
  then obtain k where k: "lookup_url demo_registry_db ''GET'' ''https://data.example.com/v1/items/7'' None = Inr (Some k)"
    by (auto split: sum.splits option.splits)
  have target: "request_target ''https://data.example.com/v1/items/7'' = Inr (''data.example.com'', ''/v1/items/7'')" by code_simp
  have plain: "\<not> occurs ''**'' ''/v1/items/7''" "\<not> occurs ''{+'' ''/v1/items/7''" by code_simp+
  have rows: "list_all row_ok (rg_rows demo_registry_db)" using demo_rows_ok by (simp add: index_ok_def demo_registry_db_def)
  have missed: "lookup_url demo_registry_db ''POST'' ''https://data.example.com/v1/properties/9:run'' None = Inr None"
    "list_ex (\<lambda>r. fullmatch False (ur_path_regex r) ''/v1/properties/9:run'' \<noteq> None) demo_rows"
    by code_simp+
  from catch_all_unreachable [OF rows target plain k] k missed show ?thesis by blast
qed

section \<open>An indexed operation is found\<close>

lemma host_without_groups: "piece_groups (snd (render_parts [] bs True names all seen ps)) = []"
  by (induction ps arbitrary: seen rule: part_tokens.induct) (auto simp: token_spec_def split_beta Let_def split: option.splits)

lemma take_groups_plain:
  "\<forall>g\<in>fst ` set caps. \<not> server_group g \<Longrightarrow> take_groups caps m \<noteq> None"
proof (induction caps arbitrary: m)
  case (Cons gc caps)
  obtain g c where gc: "gc = (g, c)" by (cases gc)
  then have "decode_fixed_group_name g = None \<and> decode_sv_group_name g = None" using Cons.prems not_server_group by simp
  then show ?case using Cons gc by (simp add: take_group_def)
qed simp

text \<open>What becomes of a lookup that one of \<open>n\<close> candidates answers: a match that ranks no lower, or a refusal with its reason.\<close>

definition found_or_refused :: "nat \<Rightarrow> string \<Rightarrow> int list \<Rightarrow> (lookup_failure, ranked option) result \<Rightarrow> bool" where
  "found_or_refused n path key r =
     ((\<exists>k. r = Inr (Some k) \<and> specificity_key (cd_row (rk_candidate k)) \<le> key \<and>
         fullmatch False (ur_path_regex (cd_row (rk_candidate k))) path \<noteq> None) \<or>
      (\<exists>m>1. r = Inl (Lookup_Refused (Ambiguous_Match m))) \<or>
      (r = Inl (Lookup_Refused Too_Many_Candidates) \<and> max_candidates < n))"

lemma match_and_rank_cases:
  assumes "k0 \<in> set (List.map_filter (rank_candidate path host) candidates)"
  shows "(\<exists>k. match_and_rank candidates path host = Inr (Some k)) \<or>
    (\<exists>m>1. match_and_rank candidates path host = Inl (Ambiguous_Match m))"
proof -
  obtain k ks where s: "sort_key rk_key (List.map_filter (rank_candidate path host) candidates) = k # ks"
    using assms by (cases "sort_key rk_key (List.map_filter (rank_candidate path host) candidates)") (metis set_sort empty_iff list.set(1))+
  define tied where "tied = filter (\<lambda>x. rk_key x = rk_key k \<and> rank_revision x = rank_revision k) (k # ks)"
  have "match_and_rank candidates path host = (if 1 < length tied then Inl (Ambiguous_Match (int (length tied))) else Inr (Some k))"
    by (simp only: match_and_rank_def s list.case Let_def tied_def)
  then show ?thesis by (cases "1 < length tied") auto
qed

lemma try_resolve_found:
  assumes live: "c \<in> set (live_rows db)" "on_host meth host segments (cd_row c)" "rank_candidate path host c = Some k0"
    and marked: "list_all row_ok (rg_rows db)"
  shows "found_or_refused (length (find_candidates db None meth host segments)) path (specificity_key (cd_row c))
    (try_resolve db None meth host path segments)"
proof -
  let ?cs = "find_candidates db None meth host segments"
  have c: "c \<in> set ?cs" using live(1,2) by (auto simp: find_candidates_def Let_def rows_for_def filter_empty_conv)
  then have k0: "k0 \<in> set (List.map_filter (rank_candidate path host) ?cs)" using live(3) map_filter_in by fastforce
  have ne: "?cs \<noteq> []" using c by auto
  show ?thesis
  proof (cases "max_candidates < length ?cs")
    case True
    then have "try_resolve db None meth host path segments = Inl (Lookup_Refused Too_Many_Candidates)"
      using ne by (simp add: try_resolve_def)
    then show ?thesis using True by (simp add: found_or_refused_def)
  next
    case False
    from match_and_rank_cases [OF k0] show ?thesis
    proof (elim disjE exE conjE)
      fix k
      assume k: "match_and_rank ?cs path host = Inr (Some k)"
      note best = match_and_rank_Some [OF k]
      from best obtain x where x: "x \<in> set ?cs" "rank_candidate path host x = Some k" unfolding map_filter_in by blast
      from x(1) have "cd_row x \<in> set (rg_rows db)" using find_candidates_sub [of db None meth host segments] rows_for_row by blast
      then have "ur_marked (cd_row x)" using marked by (auto simp: list_all_iff row_ok_def)
      then have r: "try_resolve db None meth host path segments = Inr (Some k)"
        using ne False k rank_candidate_Some [OF x(2)] by (simp add: try_resolve_def)
      have "rk_key k \<le> rk_key k0" using best k0 by blast
      then show ?thesis using r rank_candidate_Some [OF x(2)] rank_candidate_Some [OF live(3)] by (simp add: found_or_refused_def)
    next
      fix m :: int
      assume "1 < m" "match_and_rank ?cs path host = Inl (Ambiguous_Match m)"
      then show ?thesis using ne False by (auto simp: try_resolve_def found_or_refused_def)
    qed
  qed
qed

lemma found_first_method: "found_or_refused n path key (f m) \<Longrightarrow> try_methods f (m # ms) = f m"
  by (auto simp: found_or_refused_def)

lemma entry_without_variables:
  assumes "entry_for_bindings server_url [] [] op = Inr e"
  shows "\<exists>names all. groups_ok names \<and> en_path_regex e = param_pieces names all [] (split_tokens (en_path e)) \<and>
    piece_groups (en_host_regex e) = []"
  using assms group_names_ok
  by (fastforce simp: entry_for_bindings_def render_server_template_def render_no_variables compile_regex_Inr
      host_without_groups Let_def split_beta split: sum.splits)

text \<open>A row of an entry without variables matches every instance of its template.\<close>

lemma plain_entry_ranks:
  assumes entry: "entry_for_bindings server_url [] [] op = Inr e" and vals: "\<And>n. segment_value (env n)"
    and groups: "\<forall>g\<in>set (piece_groups (en_path_regex e)). \<not> server_group g"
    and row: "cd_row c = entry_row revision operation meth e"
  shows "\<exists>k. rank_candidate (instantiate env (split_tokens (en_path e))) (en_host e) c = Some k"
proof -
  define path where "path = instantiate env (split_tokens (en_path e))"
  obtain names all where e: "groups_ok names" "en_path_regex e = param_pieces names all [] (split_tokens (en_path e))"
    "piece_groups (en_host_regex e) = []" using entry_without_variables [OF entry] by blast
  have "\<exists>caps. rx_run False (en_path_regex e) [] path caps"
    unfolding e(2) path_def by (rule param_run_exists [OF e(1) vals]) simp_all
  then obtain caps where caps: "fullmatch False (en_path_regex e) path = Some caps"
    using rx_match_complete by (fastforce simp: fullmatch_def)
  from run_extends [OF rx_match_sound [OF caps [unfolded fullmatch_def]]] have keys: "map fst caps = piece_groups (en_path_regex e)"
    by auto
  define host_groups where "host_groups = (if en_host e = [] then [] else
    (case fullmatch True (en_host_regex e) (en_host e) of None \<Rightarrow> [] | Some g \<Rightarrow> g))"
  have "host_groups = []"
  proof (cases "fullmatch True (en_host_regex e) (en_host e)")
    case (Some g)
    from run_extends [OF rx_match_sound [OF Some [unfolded fullmatch_def]]] e(3) show ?thesis using Some by (simp add: host_groups_def)
  qed (simp add: host_groups_def)
  moreover have "take_groups caps \<lparr>sm_params = [], sm_values = [], sm_defaults = []\<rparr> \<noteq> None"
    using groups by (intro take_groups_plain) (metis keys list.set_map)
  ultimately have "resolve_server_variable_groups host_groups caps \<noteq> None" by (simp add: resolve_server_variable_groups_def)
  then show ?thesis
    using caps by (auto simp: rank_candidate_def row entry_row_def host_groups_def Let_def path_def)
qed

lemma plain_server_entry:
  assumes "build_server_index_entries server_url variables op = Inr (entries, capped)" "used_variables server_url variables = []"
    "e \<in> set entries"
  shows "entry_for_bindings server_url [] [] op = Inr e"
proof -
  have "default_entry server_url [] op = Inl (Server_Url_Error y)" if "entry_for_bindings server_url [] [] op = Inl (Server_Url_Error y)" for y
    using that by (auto simp: entry_for_bindings_def default_entry_def Let_def split_beta split: sum.splits)
  then show ?thesis
    using assms by (cases "entry_for_bindings server_url [] [] op")
      (auto simp: build_server_index_entries_def combinations_def Let_def rbind_Inr_iff split: index_error.splits)
qed

text \<open>
  C38: what the stage indexed is found. For a server whose URL uses no declared variable, take a request with the entry's host and
  an instance of its template, every parameter filled with a non-empty segment, while the operation's revision is
  live. The lookup answers with a match of the request path that is no less specific than the entry, or it refuses two
  matches of one rank, or more candidates than its cap; it never says that nothing is registered, and fails in no other way. The
  template may not be a catch-all, nor the request contain what marks one, no token may span a slash, and no group may have a prefix of
  a server variable's.
\<close>

theorem registered_operation_found:
  assumes built: "build_server_index_entries server_url variables op = Inr (entries, capped)" "used_variables server_url variables = []"
      "e \<in> set entries"
    and index: "list_all row_ok (rg_rows db)"
    and rows: "entry_row revision operation (str_upper meth) e \<in> set (rg_rows db)" "q \<in> set (rg_operations db)" "op_id q = operation"
      "v \<in> set (rg_revisions db)" "rev_id v = revision" "a \<in> set (rg_apis db)" "ap_current a = Some revision"
    and target: "request_target url = Inr (en_host e, instantiate env (split_tokens (en_path e)))"
    and vals: "\<And>n. segment_value (env n)" "\<forall>t\<in>set (template_tokens (en_path e)). CHR ''/'' \<notin> set t"
    and counts: "en_segments e \<noteq> -1" "count_segments (instantiate env (split_tokens (en_path e))) \<noteq> -1"
    and groups: "\<forall>g\<in>set (piece_groups (en_path_regex e)). \<not> server_group g"
  shows "(\<exists>k. lookup_url db meth url None = Inr (Some k) \<and>
      specificity_key (cd_row (rk_candidate k)) \<le> specificity_key (entry_row revision operation (str_upper meth) e) \<and>
      fullmatch False (ur_path_regex (cd_row (rk_candidate k))) (instantiate env (split_tokens (en_path e))) \<noteq> None) \<or>
    (\<exists>m>1. lookup_url db meth url None = Inl (Lookup_Refused (Ambiguous_Match m))) \<or>
    (lookup_url db meth url None = Inl (Lookup_Refused Too_Many_Candidates) \<and>
      max_candidates < length (find_candidates db None (str_upper meth) (en_host e) (en_segments e)))"
proof -
  have entry: "entry_for_bindings server_url [] [] op = Inr e" by (rule plain_server_entry [OF built])
  define path where "path = instantiate env (split_tokens (en_path e))"
  define row where "row = entry_row revision operation (str_upper meth) e"
  define c where "c = \<lparr>cd_row = row, cd_api = ap_reference a, cd_path = op_path q, cd_method = op_method q, cd_live_since = live_since v\<rparr>"
  have "c \<in> set (candidate_rows (\<lambda>row v api. ap_current api = Some (ur_revision row)) db)"
    unfolding candidate_rows_in c_def row_def using rows
    by (intro bexI [OF _ rows(1)] bexI [OF _ rows(2)] bexI [OF _ rows(4)] bexI [OF _ rows(6)]) (simp add: entry_row_def)
  then have live: "c \<in> set (live_rows db)" by (simp add: live_rows_def)
  have segments: "count_segments path = en_segments e"
    using instance_segments [OF vals(1,2)] counts entry_for_bindings_ok [OF entry] by (simp add: path_def entry_ok_def)
  then have host: "on_host (str_upper meth) (en_host e) (count_segments path) (cd_row c)"
    by (simp add: on_host_def c_def row_def entry_row_def)
  obtain k0 where "rank_candidate path (en_host e) c = Some k0"
    using plain_entry_ranks [where env = env and c = c and revision = revision and operation = operation
      and meth = "str_upper meth", OF entry vals(1) groups] by (auto simp: path_def c_def row_def)
  note found = try_resolve_found [OF live host this index]
  obtain ms where ms: "methods_to_try meth = str_upper meth # ms" by (cases "str_upper meth = ''HEAD''") (simp_all add: methods_to_try_def)
  have "lookup_url db meth url None =
      try_methods (\<lambda>m. try_resolve db None m (en_host e) path (count_segments path)) (methods_to_try meth)"
    using target by (auto simp: lookup_url_def path_def Let_def rbind_def split: sum.splits option.splits)
  also have "\<dots> = try_resolve db None (str_upper meth) (en_host e) path (count_segments path)"
    unfolding ms
    by (rule found_first_method [where f = "\<lambda>m. try_resolve db None m (en_host e) path (count_segments path)" and m = "str_upper meth"])
      (rule found)
  finally have "found_or_refused (length (find_candidates db None (str_upper meth) (en_host e) (en_segments e))) path (specificity_key row)
      (lookup_url db meth url None)"
    using found by (simp add: segments c_def)
  then show ?thesis unfolding found_or_refused_def path_def row_def .
qed

definition items_entry :: index_entry where
  "items_entry =
     \<lparr>en_host = ''data.example.com'', en_host_regex = [Verbatim ''data.example.com''], en_path = ''/v1/items/{id}'',
      en_path_regex = [Verbatim ''/v1/items/'', Group ''id'' One_Segment, Verbatim []], en_segments = 3, en_params = [''id'']\<rparr>"

lemma registered_operation_found_witness:
  "\<exists>k. lookup_url demo_registry_db ''GET'' ''https://data.example.com/v1/items/7/'' None = Inr (Some k) \<and>
     fullmatch False (ur_path_regex (cd_row (rk_candidate k))) ''/v1/items/7'' \<noteq> None"
proof -
  have built: "build_server_index_entries ''https://data.example.com'' JNull ''/v1/items/{id}'' = Inr ([items_entry], False)"
    "used_variables ''https://data.example.com'' JNull = []" "items_entry \<in> set [items_entry]"
    by code_simp+
  have index: "list_all row_ok (rg_rows demo_registry_db)" using demo_rows_ok by (simp add: index_ok_def demo_registry_db_def)
  have row: "entry_row ''r1'' ''items'' (str_upper ''GET'') items_entry \<in> set (rg_rows demo_registry_db)" by code_simp
  have target: "request_target ''https://data.example.com/v1/items/7/'' =
      Inr (en_host items_entry, instantiate (\<lambda>n. ''7'') (split_tokens (en_path items_entry)))"
    and path: "instantiate (\<lambda>n. ''7'') (split_tokens (en_path items_entry)) = ''/v1/items/7''" by code_simp+
  have tokens: "\<forall>t\<in>set (template_tokens (en_path items_entry)). CHR ''/'' \<notin> set t" by code_simp
  have counts: "en_segments items_entry \<noteq> -1" "count_segments (instantiate (\<lambda>n. ''7'') (split_tokens (en_path items_entry))) \<noteq> -1"
    by code_simp+
  have groups: "\<forall>g\<in>set (piece_groups (en_path_regex items_entry)). \<not> server_group g" by code_simp
  have few: "length (find_candidates demo_registry_db None (str_upper ''GET'') (en_host items_entry) (en_segments items_entry)) = 1"
    and one: "case lookup_url demo_registry_db ''GET'' ''https://data.example.com/v1/items/7/'' None of Inl _ \<Rightarrow> False | Inr _ \<Rightarrow> True"
    by code_simp+
  have op: "items_operation \<in> set (rg_operations demo_registry_db)" "op_id items_operation = ''items''"
    "hd (rg_revisions demo_registry_db) \<in> set (rg_revisions demo_registry_db)" "rev_id (hd (rg_revisions demo_registry_db)) = ''r1''"
    "hd (rg_apis demo_registry_db) \<in> set (rg_apis demo_registry_db)" "ap_current (hd (rg_apis demo_registry_db)) = Some ''r1''"
    by (simp_all add: demo_registry_db_def items_operation_def)
  have vals: "\<And>n :: string. segment_value ''7''" by (simp add: segment_value_def)
  from registered_operation_found [OF built index row op target vals tokens counts groups] one show ?thesis
    unfolding path by (auto split: sum.splits)
qed

lemma index_rows_well_formed_witness:
  "\<exists>rows'. build_url_index ''r1'' demo_document [report_operation, items_operation] demo_rows = Inr rows' \<and> index_ok rows'"
proof -
  have "case build_url_index ''r1'' demo_document [report_operation, items_operation] demo_rows of Inl _ \<Rightarrow> False | Inr _ \<Rightarrow> True"
    by code_simp
  then obtain rows' where built: "build_url_index ''r1'' demo_document [report_operation, items_operation] demo_rows = Inr rows'"
    by (auto split: sum.splits)
  from index_rows_well_formed [OF built demo_rows_ok] built show ?thesis by blast
qed

definition demo_pin :: "string \<Rightarrow> string \<Rightarrow> string \<Rightarrow> string \<Rightarrow> pin_result" where
  "demo_pin v n w l = (if v = ''acme'' then (Pin_Resolved, Some ''r1'') else (Pin_Unknown, None))"

lemma calls_run_on_their_revision_witness:
  "\<exists>r entry. discover_call (registry_resolver demo_registry_db demo_pin) ''GET'' ''https://data.example.com/v1/items/7''
       [((''acme'', ''data'', ''1''), ''rev_1'')] = Inr (Some (r, Some entry)) \<and>
     (\<exists>i. served_by demo_registry_db (Some i) r \<and> entry = pinned_entry (rv_api r) i)"
proof -
  have "case discover_call (registry_resolver demo_registry_db demo_pin) ''GET'' ''https://data.example.com/v1/items/7''
       [((''acme'', ''data'', ''1''), ''rev_1'')] of Inr (Some (r, Some entry)) \<Rightarrow> True | _ \<Rightarrow> False"
    by code_simp
  then obtain r entry where call: "discover_call (registry_resolver demo_registry_db demo_pin) ''GET'' ''https://data.example.com/v1/items/7''
       [((''acme'', ''data'', ''1''), ''rev_1'')] = Inr (Some (r, Some entry))"
    by (auto split: sum.splits option.splits)
  from calls_run_on_their_revision [OF call] call show ?thesis by (simp only: option.case) blast
qed

end
