(* ===== verification/Server_Hosts.thy ===== *)
theory Server_Hosts
  imports Url_Lookup Actor_Authority
begin

text \<open>
  The server-host change guard: the origins that a revision's servers reach (\<open>registry/core/server_hosts.py\<close>),
  when moving to others needs an organisation admin (\<open>registry/ingest/host_change_guard.py\<close>), and the classification of a
  revision pin (\<open>RegistryService.resolve_revision_pin\<close>). A frozenset of origins is a list read as a set; a variable's default or
  enum member is text, a number or a truth value. What the control and admin databases answer about bound
  credentials is the record \<open>binding_presence\<close>, \<open>None\<close> a lookup that raised.
\<close>

section \<open>Origins of a server\<close>

definition name_char :: "char \<Rightarrow> bool" where "name_char c = (c \<noteq> CHR ''{'' \<and> c \<noteq> CHR ''}'')"

text \<open>\<open>_VARIABLE\<close>: a pair of braces around text without braces.\<close>

definition variable_at :: "string \<Rightarrow> (string \<times> string) option" where
  "variable_at s =
     (case s of
        [] \<Rightarrow> None
      | c # rest \<Rightarrow>
          let name = takeWhile name_char rest in
          if c = CHR ''{'' \<and> name \<noteq> [] \<and> prefix (name @ ''}'') rest then Some (name, drop (length name + 1) rest) else None)"

lemma variable_at_shorter: "variable_at s = Some (n, r) \<Longrightarrow> length r < length s"
  by (auto simp: variable_at_def Let_def split: list.splits if_splits)

function find_variables :: "string \<Rightarrow> string list" where
  "find_variables [] = []"
| "find_variables (c # s) = (case variable_at (c # s) of Some (n, r) \<Rightarrow> n # find_variables r | None \<Rightarrow> find_variables s)"
  by pat_completeness auto
termination
  by (relation "measure length") (auto dest: variable_at_shorter)

type_synonym server_spec = "string \<times> (string, string list) dict"

fun py_str :: "json \<Rightarrow> string" where
  "py_str (JStr s) = s"
| "py_str (JInt n) = str_of_int n"
| "py_str (JBool b) = (if b then ''True'' else ''False'')"
| "py_str j = []"

text \<open>\<open>_variable_values\<close>: the default, then the members of the enum that it is not.\<close>

definition variable_values :: "json \<Rightarrow> string list" where
  "variable_values v =
     (let dflt = json_get ''default'' v;
          values = (if dflt = JNull then [] else [py_str dflt]) in
      case json_get ''enum'' v of
        JList ms \<Rightarrow> fold (\<lambda>m acc. if m = JNull \<or> py_str m \<in> set acc then acc else acc @ [py_str m]) ms values
      | _ \<Rightarrow> values)"

definition server_spec_of :: "string \<times> json \<Rightarrow> server_spec" where
  "server_spec_of s =
     (let (url, variables) = s in
      (url, case variables of JObj kvs \<Rightarrow> map (\<lambda>(k, v). (k, variable_values v)) kvs | _ \<Rightarrow> []))"

definition authority_end :: "char \<Rightarrow> bool" where
  "authority_end c = (c \<in> {CHR ''/'', CHR ''?'', CHR ''#'', CHR 0x5C})"

definition origin_prefix :: "string \<Rightarrow> string" where
  "origin_prefix url =
     (case partition_sub ''://'' url of
        None \<Rightarrow> url
      | Some (scheme, rest) \<Rightarrow> scheme @ ''://'' @ takeWhile (\<lambda>c. \<not> authority_end c) rest)"

definition max_expansions :: nat where "max_expansions = 64"

definition web_schemes :: "string list" where "web_schemes = [''http'', ''https'']"

definition join_sub :: "string \<Rightarrow> string list \<Rightarrow> string" where
  "join_sub sep xs = (case xs of [] \<Rightarrow> [] | y # ys \<Rightarrow> y @ concat (map (\<lambda>z. sep @ z) ys))"

definition values_of :: "(string, string list) dict \<Rightarrow> string \<Rightarrow> string list" where
  "values_of variables n = (case dict_get variables n of Some vs \<Rightarrow> vs | None \<Rightarrow> [])"

definition scheme_choices :: "string \<Rightarrow> string list" where
  "scheme_choices scheme = (if scheme \<in> set web_schemes then [scheme] else web_schemes)"

definition capped_members :: "string \<Rightarrow> string list \<Rightarrow> (string, string list) dict \<Rightarrow> string list" where
  "capped_members start names variables =
     (let described = join_sub '';'' (map (\<lambda>n. n @ ''='' @ join_sub ''|'' (sort_key str_key (remdups (values_of variables n))))
            (sort_key str_key names));
          (scheme, authority) = (case partition_sub ''://'' start of None \<Rightarrow> ([], start) | Some (s, a) \<Rightarrow> (str_lower s, a)) in
      map (\<lambda>s. s @ ''://'' @ str_lower authority @ ''['' @ described @ '']'') (scheme_choices scheme))"

text \<open>\<open>_expand\<close>: the URLs to parse, or opaque members past the bound.\<close>

definition distinct_first :: "string list \<Rightarrow> string list" where "distinct_first xs = rev (remdups (rev xs))"

definition expand_server :: "server_spec \<Rightarrow> string list \<times> string list" where
  "expand_server s =
     (let (url, variables) = s; start = origin_prefix url;
          names = filter (\<lambda>n. values_of variables n \<noteq> []) (distinct_first (find_variables start));
          choices = map (values_of variables) names in
      if names = [] then ([url], [])
      else if max_expansions < prod_list (map length choices) then ([], capped_members start names variables)
      else (map (\<lambda>combo. fold (\<lambda>(n, v) u. str_replace (braced n) v u) (zip names combo) url) (product_lists choices), []))"

definition default_port_text :: "string \<Rightarrow> string option" where
  "default_port_text scheme = (if scheme = ''http'' then Some ''80'' else if scheme = ''https'' then Some ''443'' else None)"

definition normalise_authority :: "string \<Rightarrow> string \<Rightarrow> string option" where
  "normalise_authority raw scheme =
     (let authority = str_lower (str_strip (last (split_on (CHR ''@'') raw))) in
      if authority = [] then None
      else
        let (host, port) =
          (if prefix ''['' authority then
             (let (inside, closed, rest) = partition_at (CHR '']'') authority in
              if closed then (inside @ '']'', if prefix '':'' rest then tl rest else []) else (authority, []))
           else (case split_on (CHR '':'') authority of [h, p] \<Rightarrow> (h, p) | _ \<Rightarrow> (authority, [])));
            name = rstrip_char (CHR ''.'') host in
        if name = [] then None
        else if port \<noteq> [] \<and> default_port_text scheme \<noteq> Some port then Some (name @ CHR '':'' # port) else Some name)"

definition origins_of :: "string \<Rightarrow> string list" where
  "origins_of url =
     (let candidate = str_strip url;
          parts = (if prefix ''//'' candidate then Some ([], drop 2 candidate)
                   else map_option (\<lambda>(s, r). (str_lower s, r)) (partition_sub ''://'' candidate)) in
      case parts of
        None \<Rightarrow> if find_variables candidate \<noteq> [] then map (\<lambda>s. s @ ''://'' @ str_lower candidate) web_schemes else []
      | Some (scheme, rest) \<Rightarrow>
          let authority = takeWhile (\<lambda>c. \<not> authority_end c) rest in
          concat (map (\<lambda>s. case normalise_authority authority s of None \<Rightarrow> [] | Some h \<Rightarrow> [s @ ''://'' @ h]) (scheme_choices scheme)))"

definition hosts_from_servers :: "server_spec list \<Rightarrow> string list" where
  "hosts_from_servers specs =
     concat (map (\<lambda>s. let (urls, opaque) = expand_server s in opaque @ concat (map origins_of urls)) specs)"

definition unpinned_host_variables :: "string \<Rightarrow> (string, string list) dict \<Rightarrow> string list" where
  "unpinned_host_variables url enums =
     filter (\<lambda>n. values_of enums n = []) (distinct_first (find_variables (origin_prefix url)))"

text \<open>The servers of a document that \<open>hosts_from_spec\<close> reads: its own, then those of the operations.\<close>

definition declared_servers :: "api_document \<Rightarrow> servers" where
  "declared_servers doc =
     doc_servers doc @ concat (map (\<lambda>(path, item). concat (map snd (pi_operations item))) (doc_paths doc))"

definition hosts_from_spec :: "api_document \<Rightarrow> string list" where
  "hosts_from_spec doc = hosts_from_servers (map server_spec_of (declared_servers doc))"

definition host_part :: "string \<Rightarrow> string" where
  "host_part origin = (case partition_sub ''://'' origin of Some (_, h) \<Rightarrow> h | None \<Rightarrow> [])"

definition plaintext_hosts :: "string list \<Rightarrow> string list" where
  "plaintext_hosts members = map host_part (filter (prefix ''http://'') members)"

definition needs_review :: "string list \<Rightarrow> string list \<Rightarrow> bool" where
  "needs_review current new =
     (set (map host_part current) \<noteq> set (map host_part new) \<or> \<not> set (plaintext_hosts new) \<subseteq> set (plaintext_hosts current))"

section \<open>The guard\<close>

definition host_change_approver_permission :: string where "host_change_approver_permission = ''org:admin''"

definition may_approve_host_change :: "string list \<Rightarrow> bool" where
  "may_approve_host_change permissions = (host_change_approver_permission \<in> set (compute_effective permissions))"

record binding_presence =
  bp_control :: bool
  bp_admin :: bool
  bp_open_session :: "api_reference \<Rightarrow> bool option"
  bp_covering :: "api_reference \<Rightarrow> string list option"
  bp_any_binding :: "string list \<Rightarrow> bool option"

definition api_has_bound_credentials :: "binding_presence \<Rightarrow> api_reference \<Rightarrow> bool" where
  "api_has_bound_credentials P api =
     (if \<not> bp_control P then True
      else (case bp_open_session P api of
              None \<Rightarrow> True
            | Some True \<Rightarrow> True
            | Some False \<Rightarrow>
                (case bp_covering P api of
                   None \<Rightarrow> True
                 | Some [] \<Rightarrow> False
                 | Some ids \<Rightarrow> if \<not> bp_admin P then True
                              else (case bp_any_binding P ids of None \<Rightarrow> True | Some b \<Rightarrow> b))))"

definition list_url_specs :: "registry_db \<Rightarrow> string \<Rightarrow> server_spec list" where
  "list_url_specs db revision = map (\<lambda>(i, s). server_spec_of s) (filter (\<lambda>(i, s). i = revision) (rg_servers db))"

text \<open>The revision promoted last, ties by id; then the baseline: the current revision, else that one.\<close>

definition last_promoted :: "registry_db \<Rightarrow> string \<Rightarrow> string \<Rightarrow> string option" where
  "last_promoted db api excluded =
     (case rev (sort_key live_since (sort_key (\<lambda>v. str_key (rev_id v))
        (filter (\<lambda>v. rev_api v = api \<and> rev_promoted_at v \<noteq> None \<and> rev_id v \<noteq> excluded) (rg_revisions db)))) of
        [] \<Rightarrow> None
      | v # _ \<Rightarrow> Some (rev_id v))"

definition host_baseline_revision_id :: "registry_db \<Rightarrow> api_row \<Rightarrow> string \<Rightarrow> string option" where
  "host_baseline_revision_id db api excluded =
     (case ap_current api of
        Some i \<Rightarrow> if i \<noteq> excluded then Some i else last_promoted db (ap_id api) excluded
      | None \<Rightarrow> last_promoted db (ap_id api) excluded)"

definition sorted_set :: "string list \<Rightarrow> string list" where "sorted_set xs = sort_key str_key (remdups xs)"

text \<open>\<open>pending_host_change\<close>; without a context (\<open>None\<close>) the API counts as bound.\<close>

definition pending_host_change ::
  "binding_presence option \<Rightarrow> registry_db \<Rightarrow> api_row \<Rightarrow> string \<Rightarrow> (string list \<times> string list) option" where
  "pending_host_change ctx db api revision =
     (let current = (case host_baseline_revision_id db api revision of
                       Some b \<Rightarrow> hosts_from_servers (list_url_specs db b) | None \<Rightarrow> []);
          new = hosts_from_servers (list_url_specs db revision) in
      if \<not> needs_review current new then None
      else (case ctx of
              Some P \<Rightarrow> if api_has_bound_credentials P (ap_reference api) then Some (sorted_set current, sorted_set new) else None
            | None \<Rightarrow> Some (sorted_set current, sorted_set new)))"

text \<open>\<open>resolve_revision_pin\<close>, for a caller of the given subject and permissions.\<close>

definition resolve_revision_pin ::
  "binding_presence option \<Rightarrow> registry_db \<Rightarrow> string \<Rightarrow> string list \<Rightarrow> string \<Rightarrow> string \<Rightarrow> string \<Rightarrow> string \<Rightarrow> pin_result" where
  "resolve_revision_pin ctx db sub permissions vendor name version label =
     (case decode_rev_label label of
        None \<Rightarrow> (Pin_Unknown, None)
      | Some i \<Rightarrow>
          (case find (\<lambda>a. ap_reference a = \<lparr>api_vendor = vendor, api_name = name, api_version = version\<rparr>) (rg_apis db) of
             None \<Rightarrow> (Pin_Unknown, None)
           | Some api \<Rightarrow>
               (case find (\<lambda>v. rev_api v = ap_id api \<and> rev_id v = i) (rg_revisions db) of
                  None \<Rightarrow> (Pin_Unknown, None)
                | Some v \<Rightarrow>
                    if rev_state v = Archived then (Pin_Archived, None)
                    else if rev_state v = Draft then
                      (if rev_origin v \<noteq> None then
                         (if may_approve_host_change permissions then (Pin_Resolved, Some i) else (Pin_Forbidden, None))
                       else if rev_submitted_by v \<noteq> Some sub then (Pin_Forbidden, None)
                       else if may_approve_host_change permissions then (Pin_Resolved, Some i)
                       else if pending_host_change ctx db api i \<noteq> None then (Pin_Host_Change_Held, Some i)
                       else (Pin_Resolved, Some i))
                    else (Pin_Resolved, Some i))))"

text \<open>The registry as the broker sees it, for one caller.\<close>

definition registry_service :: "binding_presence option \<Rightarrow> registry_db \<Rightarrow> string \<Rightarrow> string list \<Rightarrow> resolver" where
  "registry_service ctx db sub permissions = registry_resolver db (resolve_revision_pin ctx db sub permissions)"

section \<open>Which drafts a call may route through\<close>

text \<open>
  C9: a pin never routes a call through a draft that nobody may use. When a pin resolves, the revision belongs to the API it names and is
  not archived; a draft held for review resolves only for an organisation admin; any other draft only for the caller that
  submitted it, and, unless that caller is an organisation admin, only while its server hosts need no review.
\<close>

theorem pin_resolution_authorised:
  assumes "resolve_revision_pin ctx db sub permissions vendor name version label = (Pin_Resolved, Some i)"
  shows "\<exists>api\<in>set (rg_apis db). \<exists>v\<in>set (rg_revisions db).
    ap_reference api = \<lparr>api_vendor = vendor, api_name = name, api_version = version\<rparr> \<and> rev_api v = ap_id api \<and> rev_id v = i \<and>
    rev_state v \<noteq> Archived \<and>
    (rev_state v = Draft \<longrightarrow>
       (if rev_origin v \<noteq> None then may_approve_host_change permissions
        else rev_submitted_by v = Some sub \<and>
          (may_approve_host_change permissions \<or> pending_host_change ctx db api i = None)))"
proof -
  obtain api where api: "find (\<lambda>a. ap_reference a = \<lparr>api_vendor = vendor, api_name = name, api_version = version\<rparr>) (rg_apis db) = Some api"
    "decode_rev_label label = Some i"
    using assms by (auto simp: resolve_revision_pin_def split: option.splits if_splits)
  obtain v where v: "find (\<lambda>v. rev_api v = ap_id api \<and> rev_id v = i) (rg_revisions db) = Some v"
    using assms api by (auto simp: resolve_revision_pin_def split: option.splits)
  have found: "api \<in> set (rg_apis db)" "ap_reference api = \<lparr>api_vendor = vendor, api_name = name, api_version = version\<rparr>"
    "v \<in> set (rg_revisions db)" "rev_api v = ap_id api" "rev_id v = i"
    using api(1) v by (auto simp: find_Some_iff)
  moreover have "rev_state v \<noteq> Archived \<and>
    (rev_state v = Draft \<longrightarrow>
       (if rev_origin v \<noteq> None then may_approve_host_change permissions
        else rev_submitted_by v = Some sub \<and>
          (may_approve_host_change permissions \<or> pending_host_change ctx db api i = None)))"
    using assms
    by (cases "pending_host_change ctx db api i") (simp_all add: resolve_revision_pin_def api v split: if_splits)
  ultimately show ?thesis by blast
qed

section \<open>Servers that the guard does not read\<close>

definition with_path_servers :: "servers \<Rightarrow> string \<Rightarrow> api_document \<Rightarrow> api_document" where
  "with_path_servers ss path doc =
     doc\<lparr>doc_paths := map (\<lambda>(p, item). (p, if p = path then item\<lparr>pi_servers := ss\<rparr> else item)) (doc_paths doc)\<rparr>"

lemma declared_with_path_servers: "declared_servers (with_path_servers ss path doc) = declared_servers doc"
  by (auto simp: declared_servers_def with_path_servers_def comp_def intro!: arg_cong [where f = concat])

text \<open>
  C11: the guard can be bypassed. Servers declared on a path of the document move the hosts of its operations, yet leave the set of hosts that
  the guard compares as it was: no review is due, whatever they are, although the URL index takes exactly them for every operation of the
  path that declares none of its own.
\<close>

theorem path_servers_escape_review:
  assumes "dict_get (doc_paths doc) (op_path operation) = Some item"
    "dict_get (pi_operations item) (str_lower (op_method operation)) \<in> {None, Some []}" "ss \<noteq> []"
  shows "hosts_from_spec (with_path_servers ss (op_path operation) doc) = hosts_from_spec doc \<and>
    \<not> needs_review (hosts_from_spec doc) (hosts_from_spec (with_path_servers ss (op_path operation) doc)) \<and>
    effective_servers operation (with_path_servers ss (op_path operation) doc) = ss"
proof -
  have "dict_get (map (\<lambda>(p, i). (p, if p = path then i\<lparr>pi_servers := ss\<rparr> else i)) ps) path = map_option (\<lambda>i. i\<lparr>pi_servers := ss\<rparr>) (dict_get ps path)"
    for ps :: "(string, path_item) dict" and path by (induction ps) auto
  then have "effective_servers operation (with_path_servers ss (op_path operation) doc) = ss"
    using assms by (auto simp: effective_servers_def with_path_servers_def Let_def)
  then show ?thesis by (simp add: hosts_from_spec_def declared_with_path_servers needs_review_def)
qed

text \<open>
  A live revision and a draft of an API that an agent submitted with another server host, and a document whose path gets a
  server of its own.
\<close>

definition pin_id :: "char \<Rightarrow> string" where "pin_id c = replicate 32 c"

definition pinned_db :: "string \<Rightarrow> registry_db" where
  "pinned_db host =
     \<lparr>rg_rows = [], rg_operations = [],
      rg_revisions =
        [\<lparr>rev_id = pin_id CHR ''a'', rev_api = ''a1'', rev_state = Published, rev_origin = None, rev_submitted_by = None,
           rev_promoted_at = Some 1, rev_created_at = 0\<rparr>,
         \<lparr>rev_id = pin_id CHR ''b'', rev_api = ''a1'', rev_state = Draft, rev_origin = None, rev_submitted_by = Some ''agent'',
           rev_promoted_at = None, rev_created_at = 2\<rparr>],
      rg_apis = [\<lparr>ap_id = ''a1'', ap_reference = \<lparr>api_vendor = ''acme'', api_name = ''data'', api_version = ''1''\<rparr>,
                  ap_current = Some (pin_id CHR ''a'')\<rparr>],
      rg_servers = [(pin_id CHR ''a'', ''https://data.example.com'', JNull), (pin_id CHR ''b'', ''https://'' @ host @ ''/v2'', JNull)]\<rparr>"

lemma pin_held: "resolve_revision_pin None (pinned_db ''other.example.com'') ''agent'' [''apis:write''] ''acme'' ''data'' ''1'' (''rev_'' @ pin_id CHR ''b'')
    = (Pin_Host_Change_Held, Some (pin_id CHR ''b''))"
  by code_simp

lemma pin_resolution_authorised_witness:
  "resolve_revision_pin None (pinned_db ''data.example.com'') ''agent'' [''apis:write''] ''acme'' ''data'' ''1'' (''rev_'' @ pin_id CHR ''b'')
     = (Pin_Resolved, Some (pin_id CHR ''b'')) \<and>
   (\<exists>v\<in>set (rg_revisions (pinned_db ''data.example.com'')). rev_id v = pin_id CHR ''b'' \<and> rev_state v \<noteq> Archived)"
proof -
  have pin: "resolve_revision_pin None (pinned_db ''data.example.com'') ''agent'' [''apis:write''] ''acme'' ''data'' ''1''
      (''rev_'' @ pin_id CHR ''b'') = (Pin_Resolved, Some (pin_id CHR ''b''))"
    by code_simp
  from pin_resolution_authorised [OF pin] pin show ?thesis by blast
qed

definition guarded_document :: api_document where
  "guarded_document =
     \<lparr>doc_servers = [(''https://data.example.com'', JNull)],
      doc_paths = [(''/v1/items'', \<lparr>pi_servers = [], pi_operations = [(''get'', [])]\<rparr>)]\<rparr>"

definition guarded_operation :: operation_row where
  "guarded_operation = \<lparr>op_id = ''items'', op_path = ''/v1/items'', op_method = ''GET'', op_servers = [], op_version_servers = []\<rparr>"

definition moved_document :: api_document where
  "moved_document = with_path_servers [(''https://evil.example.net'', JNull)] ''/v1/items'' guarded_document"

lemma path_servers_escape_review_witness:
  "\<not> needs_review (hosts_from_spec guarded_document) (hosts_from_spec moved_document) \<and>
   hosts_from_spec moved_document = [''https://data.example.com''] \<and>
   (case build_url_index ''r2'' moved_document [guarded_operation] [] of
      Inr rows \<Rightarrow> map ur_host rows = [Some ''evil.example.net''] | Inl _ \<Rightarrow> False)"
proof -
  have path: "op_path guarded_operation = ''/v1/items''" by (simp add: guarded_operation_def)
  have doc: "dict_get (doc_paths guarded_document) (op_path guarded_operation) = Some \<lparr>pi_servers = [], pi_operations = [(''get'', [])]\<rparr>"
    by (simp add: guarded_document_def path)
  have "dict_get (pi_operations \<lparr>pi_servers = [], pi_operations = [(''get'', [])]\<rparr>) (str_lower (op_method guarded_operation)) \<in> {None, Some []}"
    by code_simp
  note moved = path_servers_escape_review [OF doc this, of "[(''https://evil.example.net'', JNull)]", unfolded path, folded moved_document_def]
  have facts: "hosts_from_spec guarded_document = [''https://data.example.com'']"
    "case build_url_index ''r2'' moved_document [guarded_operation] [] of
      Inr rows \<Rightarrow> map ur_host rows = [Some ''evil.example.net''] | Inl _ \<Rightarrow> False"
    by code_simp+
  have same: "hosts_from_spec moved_document = hosts_from_spec guarded_document"
    "\<not> needs_review (hosts_from_spec guarded_document) (hosts_from_spec moved_document)"
    using moved by blast+
  show ?thesis by (intro conjI same(2) trans [OF same(1) facts(1)] facts(2))
qed

end
