(* ===== verification/Spec2Isabelle.thy ===== *)
theory Spec2Isabelle
  imports Rule_Evaluation State_Properties Egress Idempotency_Properties Injection Public_Url Circuit
    Runner_Properties Runner_Registry Bulkhead Authorization Job_Properties Queued_Properties Proxy
    Lookup_Facts Server_Hosts
begin

text \<open>
  A verification development of the Jentic One broker (\<open>src/jentic_one/broker\<close> and the parts of
  \<open>src/jentic_one/shared\<close> it is built on): the service that takes an agent's API call,
  decides whether the agent may make it, injects a stored credential and forwards it to the
  upstream API, at once or as a job that a worker runs later.

  \<^bold>\<open>The path of a call.\<close> The broker resolves the operation, derives the agent's credential bindings
  that cover its API, selects one credential, checks the path for ambiguous traversal and evaluates
  the binding's permission rules (\<open>Authorization\<close>). An \<open>Idempotency-Key\<close> claims its slot
  (\<open>Idempotency\<close>), the upstream URL is validated against the egress policy (\<open>Egress\<close>), the credential
  is turned into headers, query or cookies (\<open>Injection\<close>) over the filtered inbound headers
  (\<open>Proxy_Headers\<close>), and the runner envelope sends the request: deadline, retry and circuit breaker
  around the HTTP transport (\<open>Runner\<close>), at most so many at once per host (\<open>Bulkhead\<close>). Any error becomes a
  problem response (\<open>Broker_Errors\<close>). Rate limits, circuit state and idempotency records live in the
  shared-state backend (\<open>State_Backend\<close>).

  \<^bold>\<open>Python.\<close> \<open>Prelude\<close> has results (\<open>Inl\<close> the exception), ordered dictionaries and the string methods;
  strings are lists of the code points 0 to 255. \<open>Py_Int\<close> (\<open>str\<close>, \<open>int\<close>), \<open>Py_Json\<close> (\<open>json\<close>), \<open>Py_Base64\<close>,
  \<open>Py_Ip\<close> (\<open>ipaddress\<close>), \<open>Py_Url\<close> (\<open>urllib.parse\<close>) and \<open>Py_Heap\<close> (\<open>heapq\<close>) model what the program uses of the
  standard library. Floats are reals, and a clock reading is an argument of the operation that takes
  it.

  \<^bold>\<open>Paths and rules.\<close> \<open>Url_Path\<close> is \<open>shared/url_path.py\<close>: decoding, dot segments, the traversal guard. The
  normal form is canonical, and a path the guard passes has one reading. \<open>Rule_Matching\<close> is
  \<open>shared/permissions/matching.py\<close>; it is shown which paths a stored pattern admits and which patterns are
  accepted when they are saved. \<open>Rule_Evaluation\<close> is \<open>shared/permissions/evaluation.py\<close>: first-match
  evaluation, what allows a request, which rules cannot, and the base-path divergence report. The
  regular-expression engine is a parameter.

  \<^bold>\<open>Shared state.\<close> \<open>State_Backend\<close> is \<open>MemoryStateBackend\<close> of \<open>shared/state/backend.py\<close>, one definition per
  method. \<open>State_Invariant\<close> shows that every operation keeps the accounts equal to the sums over the
  entries and the expiry indexes complete; \<open>State_Properties\<close> proves what clients rely on over arbitrary
  runs: budgets, exclusive claims, genuine refusals, counter windows, the token bucket's rate.
  \<open>Store_Interface\<close> states the laws as the locales \<open>ttl_store\<close> and \<open>counting_store\<close> and interprets them by the
  backend. \<open>Circuit\<close> (\<open>shared/resilience\<close>) and \<open>Idempotency\<close> (\<open>broker/services/idempotency.py\<close>) are its
  clients: a tripped circuit sheds every call until its cooldown, and a completed call is replayed, never
  run again, during its replay window, unless another call of its key whose claim had lapsed completes later.

  \<^bold>\<open>Egress and injection.\<close> \<open>Egress\<close> is \<open>shared/url_validation.py\<close>: an accepted URL resolves only to permitted
  addresses, an IPv6 embedding of an IPv4 address is judged as that address, and metadata endpoints are
  refused under every policy. \<open>Proxy_Headers\<close> and \<open>Injection\<close> are \<open>broker/core/headers.py\<close>, \<open>proxy_headers.py\<close>,
  \<open>injection.py\<close> and \<open>shared/http/injection.py\<close>: what is forwarded and what overrides it. \<open>Public_Url\<close> holds the
  origin checks of \<open>shared/url.py\<close>.

  \<^bold>\<open>The runner envelope.\<close> \<open>Retry_After\<close> parses the upstream's wait hints. \<open>Runner\<close> models
  \<open>broker/adapters/runners\<close>, each decorator a function from a runner to a runner over a world of clocks and
  other tasks; \<open>Runner_Properties\<close> shows that an unsafe request is resent only if it was not sent, that an
  open circuit does not dial, that the response cap is exact, and that a reset header of infinity
  escapes the envelope. The retry loop ends by its attempts bound, so it needs no fuel. \<open>Bulkhead\<close> is
  the per-host limit as interleaved steps, with an invariant over reachable states; \<open>Runner_Registry\<close> the
  scheme registry.

  \<^bold>\<open>Authorization.\<close> \<open>Credential_Scope\<close> is \<open>shared/models/api_identity.py\<close> with the lookups of
  \<open>shared/access_guidance.py\<close>; \<open>Credential_Resolver\<close> derives bindings and selects the credential, and refines
  \<open>the unique most specific selectable row\<close>. \<open>Agent_Rules\<close> is the rule evaluator with its single-flight cache
  as an inductive step relation: served rules are recent, and an invalidation can miss a running load.
  \<open>Authorization\<close> composes them: what every authorized call rests on. A database table is a list of its
  rows, a query the filter it states.

  \<^bold>\<open>Execution.\<close> \<open>Execution\<close> is \<open>broker/services/execution\<close> (\<open>pipeline.py\<close>, \<open>service.py\<close>, \<open>executor.py\<close>): one dispatch
  through a broker, then one transaction with the execution's record and its events. A transaction may commit, fail,
  or commit without the caller learning of it; the world keeps what is stored and how often the upstream was called.
  The locale \<open>execution_broker\<close> is what a broker may do to that world; \<open>default_broker\<close> and the executor's tracking
  broker interpret it. \<open>Token_Refresh\<close> is \<open>broker/services/credentials/refresh.py\<close>, first the decisions of the refresher, then a
  credential's row as an interleaved system of calls, connects and endpoint edits: a rotated-out refresh
  token is never sent. \<open>Credential_Injection\<close> is \<open>orchestrator.py\<close>: selection, refresh, decryption, and the access
  event without which no credential is handed out. \<open>Actor_Authority\<close> is the permission catalogue (its worklists compute
  closures, by a \<open>termination\<close> measure on the permissions not yet reached) and the live read of an actor's rows.

  \<^bold>\<open>Jobs and approvals.\<close> \<open>Job_Queue\<close> has the rows of jobs, results, holds and events and the worker's transactions on
  them (\<open>shared/jobs/worker.py\<close>, \<open>enqueue.py\<close>, \<open>admin/repos/job_repo.py\<close>); \<open>Held_Executions\<close> files, decides, withdraws and
  expires holds (\<open>shared/jobs/hold.py\<close>, \<open>admin/services/held_execution_service.py\<close>); \<open>Worker_Loop\<close> has the loop's retries of a completion
  write, which end after four writes. \<open>Job_System\<close> is the step relation of clients, sweeps and any number of
  workers that may die at any point; \<open>Hold_Invariant\<close> and \<open>Job_Properties\<close> show that holds and jobs agree, that a decision is
  final and that a held call's handler starts at most once. \<open>Queued_Execution\<close> is what the worker
  runs (\<open>shared/jobs/execution_handler.py\<close>, \<open>queued_authorization.py\<close>): \<open>Queued_Properties\<close> shows that a queued call is authorized again
  when it runs, that what is sent is what was authorized, and that a run that raises, hence is retried, has sent nothing.

  \<^bold>\<open>The web edge.\<close> \<open>Discovery\<close> is \<open>broker/services/discovery.py\<close> with \<open>broker/core/revisions.py\<close>: how the \<open>Jentic-Revision\<close> pins are read
  and which revision a call runs on; the registry is the record \<open>resolver\<close>. \<open>Responses\<close> has the metadata headers of
  \<open>broker/web/routers/execute.py\<close> and the assembly and replay of a buffered response: it mirrors the upstream, whose lower-case \<open>jentic-*\<close>
  headers are not replaced. \<open>Streaming\<close> is \<open>broker/web/streaming.py\<close>: a streamed body under a script of pulls, and the record that
  tells how it ended. \<open>Edge\<close> is what the route reads of a request and the job payload it writes, which the worker reads back unchanged.
  \<open>Proxy\<close> is the handler of \<open>execute.py\<close> over the parts above: a request leaves it only for an approved URL of a discovered operation
  that the rules allow, with the selected credential, and once; a call that needs approval waits for it,
  with a hold filed for it or one with its fingerprint that it joins.

  \<^bold>\<open>The registry.\<close> What discovery asks of a resolver is the locale \<open>revision_resolver\<close>; the registry's own lookup interprets it, so that a call
  runs on its revision. \<open>Url_Templates\<close> and \<open>Url_Index\<close> are \<open>registry/core/url_index.py\<close>: path templates, the regular expressions written
  from them (a list of pieces, matched by Python's backtracking search) and the entries of a server URL with its variables. \<open>Template_Facts\<close>
  shows that the search finds a match exactly when the pieces have one, and \<open>Index_Facts\<close> that a matched path is a base
  path followed by the instance of the operation's template that the captures rebuild;
  group numbering ends, by a \<open>termination\<close> measure on the taken names. \<open>Url_Lookup\<close> has the index's table, the ingest stage that fills it
  (\<open>registry/ingest/stages/url_index.py\<close>), \<open>registry/repos/url_index_repo.py\<close>, the lookup (\<open>registry/services/inspect/url_lookup.py\<close>) and
  \<open>resolve_operation\<close> of \<open>registry_service.py\<close>. \<open>Lookup_Facts\<close>: the rows are well formed, an indexed operation of a server
  URL without variables is found, a catch-all never is.
  \<open>Server_Hosts\<close> is the guard on changed server hosts (\<open>registry/core/server_hosts.py\<close>, \<open>registry/ingest/host_change_guard.py\<close>) and
  the classification of pins; servers declared on a path escape it.

  \<^bold>\<open>Fuel.\<close> Only the JSON parser runs on fuel, the length of its text, which every recursive call shortens.

  \<^bold>\<open>Not modelled.\<close> Counters, spans, events and log lines; the human-readable sentence of a directive where the
  source writes it with characters beyond the string model (an argument named by its case); the Redis
  backend (scripts run by the server); SHA-256, decryption, DNS, httpx, the public suffix list and the HTTP
  date parser (parameters); the repeated-failure detector and the connect target of a 424 response
  (parameters). The application set-up and middleware of the broker and
  the admin, auth, control and MCP services are outside this development; so are the registry's parsers, catalogue, overlays and
  search, and the owners of a host (\<open>find_live_hosts_of_other_vendors\<close>).
\<close>

end
